(* ===== verification/HFS_Prelude.thy ===== *)
theory HFS_Prelude
  imports Main "HOL-Library.Word"
begin

text \<open>
  Shared ground of the development: the machine types of the sources and how their
  wrap-around is written, the C macros every component uses, and the generic lemmas on
  pointer chains and rings that the queue and the swap list need.

  The sources are built for 64-bit Linux. A \<^verbatim>\<open>size_t\<close> is a non-negative
  \<^typ>\<open>int\<close> and every operation that can leave its range is followed by \<open>u64\<close>; an
  \<^verbatim>\<open>off64_t\<close> or \<^verbatim>\<open>ssize_t\<close> is an \<^typ>\<open>int\<close> and a conversion from an unsigned
  value is written \<open>s64\<close>. A byte is an \<open>8 word\<close>. A pointer into a node store is a
  \<^typ>\<open>nat\<close>; a nullable one is a \<open>nat option\<close>.
\<close>

named_theorems chain_simps \<open>rewriting of pointer chains and rings\<close>
named_theorems range_simps \<open>wrap-around that does not happen in range\<close>

section \<open>Machine integers\<close>

type_synonym byte = "8 word"
type_synonym size_t = int
type_synonym ssize_t = int
type_synonym off64_t = int
type_synonym c_int = int
type_synonym mode_t = int
type_synonym time_t = int

definition u64 :: "int \<Rightarrow> int" where
  "u64 x = x mod 18446744073709551616"

definition s64 :: "int \<Rightarrow> int" where
  "s64 x = (x + 9223372036854775808) mod 18446744073709551616 - 9223372036854775808"

definition s32 :: "int \<Rightarrow> int" where
  "s32 x = (x + 2147483648) mod 4294967296 - 2147483648"

lemma u64_id [range_simps]: "0 \<le> x \<Longrightarrow> x < 18446744073709551616 \<Longrightarrow> u64 x = x"
  by (simp add: u64_def)

lemma u64_range [simp]: "0 \<le> u64 x" "u64 x < 18446744073709551616"
  by (simp_all add: u64_def)

lemma s64_id [range_simps]:
  "- 9223372036854775808 \<le> x \<Longrightarrow> x < 9223372036854775808 \<Longrightarrow> s64 x = x"
  by (simp add: s64_def)

lemma s32_id [range_simps]: "- 2147483648 \<le> x \<Longrightarrow> x < 2147483648 \<Longrightarrow> s32 x = x"
  by (simp add: s32_def)

section \<open>Pointer chains and rings\<close>

text \<open>
  \<open>chain f xs\<close>: following the pointer field \<open>f\<close> from each node of \<open>xs\<close> leads to the
  next one. \<open>ring f xs\<close>: the last node points back to the first.
\<close>

fun chain :: "('a \<Rightarrow> 'a) \<Rightarrow> 'a list \<Rightarrow> bool" where
  "chain f [] = True"
| "chain f [x] = True"
| "chain f (x # y # zs) = (f x = y \<and> chain f (y # zs))"

definition ring :: "('a \<Rightarrow> 'a) \<Rightarrow> 'a list \<Rightarrow> bool" where
  "ring f xs \<longleftrightarrow> xs \<noteq> [] \<and> chain f xs \<and> f (last xs) = hd xs"

lemma chain_Cons [chain_simps]:
  "chain f (x # xs) = (xs = [] \<or> f x = hd xs \<and> chain f xs)"
  by (cases xs) auto

lemma chain_append [chain_simps]:
  "chain f (xs @ ys) =
     (chain f xs \<and> chain f ys \<and> (xs = [] \<or> ys = [] \<or> f (last xs) = hd ys))"
proof (induction xs)
  case Nil
  then show ?case by simp
next
  case (Cons x xs)
  then show ?case by (cases xs) (auto simp: chain_Cons)
qed

lemma chain_fun_upd [simp]:
  "a \<notin> set (butlast xs) \<Longrightarrow> chain (f(a := b)) xs = chain f xs"
proof (induction xs)
  case Nil
  then show ?case by simp
next
  case (Cons x xs)
  then show ?case by (cases xs) auto
qed

lemma chain_cong:
  "(\<And>x. x \<in> set (butlast xs) \<Longrightarrow> f x = g x) \<Longrightarrow> chain f xs = chain g xs"
proof (induction xs)
  case Nil
  then show ?case by simp
next
  case (Cons x xs)
  then show ?case by (cases xs) auto
qed

lemma ring_cong: "(\<And>x. x \<in> set xs \<Longrightarrow> f x = g x) \<Longrightarrow> ring f xs = ring g xs"
  using chain_cong [of xs f g] by (auto simp: ring_def dest: in_set_butlastD)

lemma ring_append:
  "xs \<noteq> [] \<Longrightarrow> ys \<noteq> [] \<Longrightarrow>
     ring f (xs @ ys) =
       (chain f xs \<and> chain f ys \<and> f (last xs) = hd ys \<and> f (last ys) = hd xs)"
  by (auto simp: ring_def chain_append)

lemma ring_rotate: "ring f (xs @ ys) = ring f (ys @ xs)"
proof (cases "xs = [] \<or> ys = []")
  case True
  then show ?thesis by auto
next
  case False
  then show ?thesis by (auto simp: ring_append)
qed

lemma ring_Cons_Cons: "ring f (x # y # zs) \<Longrightarrow> f x = y"
  by (simp add: ring_def)

lemma ring_mid: "ring f (xs @ x # y # zs) \<Longrightarrow> f x = y"
  by (auto simp: ring_def chain_append)

lemma ring_wrap: "ring f (x # xs @ [y]) \<Longrightarrow> f y = x"
  by (simp add: ring_def)

lemma ring_unroll: "ring f (x # xs) \<Longrightarrow> chain f (xs @ [x]) \<and> f x = hd (xs @ [x])"
  using chain_append [of f xs "[x]"] by (cases xs) (auto simp: ring_def)

lemma ring_insert_first:
  assumes "ring f (a # zs)" "a \<notin> set zs" "b \<notin> set (a # zs)"
  shows "ring (f(b := f a, a := b)) (a # b # zs)"
proof (cases zs)
  case Nil
  with assms show ?thesis by (simp add: ring_def)
next
  case (Cons z zs')
  have "chain (f(b := f a, a := b)) zs = chain f zs"
    using assms by (intro chain_cong) (auto dest: in_set_butlastD)
  moreover have "last zs \<noteq> a" "last zs \<noteq> b" using assms Cons by (auto dest: last_in_set)
  ultimately show ?thesis using assms Cons by (auto simp: ring_def)
qed

lemma ring_insert:
  assumes "ring f (xs @ a # ys)" "distinct (xs @ a # ys)" "b \<notin> set (xs @ a # ys)"
  shows "ring (f(b := f a, a := b)) (xs @ a # b # ys)"
proof -
  have "ring f (a # ys @ xs)" using assms(1) ring_rotate [of f xs "a # ys"] by simp
  then have "ring (f(b := f a, a := b)) (a # b # ys @ xs)"
    using assms by (intro ring_insert_first) auto
  then show ?thesis using ring_rotate [of _ xs "a # b # ys"] by simp
qed

text \<open>
  \<open>walk n f a b\<close> follows \<open>f\<close> from \<open>a\<close> and collects the nodes before \<open>b\<close>, at most
  \<open>n\<close> of them.
\<close>

fun walk :: "nat \<Rightarrow> ('a \<Rightarrow> 'a) \<Rightarrow> 'a \<Rightarrow> 'a \<Rightarrow> 'a list" where
  "walk 0 f a b = []"
| "walk (Suc n) f a b = (if a = b then [] else a # walk n f (f a) b)"

lemma walk_refl [simp]: "walk n f a a = []"
  by (cases n) auto

lemma walk_chain:
  "chain f (xs @ [b]) \<Longrightarrow> b \<notin> set xs \<Longrightarrow> length xs \<le> n \<Longrightarrow>
     walk n f (hd (xs @ [b])) b = xs"
proof (induction xs arbitrary: n)
  case Nil
  then show ?case by (cases n) auto
next
  case (Cons x xs)
  then obtain m where "n = Suc m" by (cases n) auto
  with Cons show ?case by (auto simp: chain_Cons)
qed

section \<open>Arithmetic on non-negative integers\<close>

lemma div_mult_le_int: "0 < (b::int) \<Longrightarrow> a div b * b \<le> a"
  by (simp add: minus_mod_eq_div_mult [symmetric])

lemma lt_div_mult_add_int: "0 < (b::int) \<Longrightarrow> a < a div b * b + b"
proof -
  assume "0 < b"
  then have "a mod b < b" by simp
  then show ?thesis by (simp add: minus_mod_eq_div_mult [symmetric])
qed

lemma le_div_iff_mult_int:
  fixes b c x :: int
  assumes "0 < b"
  shows "c \<le> x div b \<longleftrightarrow> c * b \<le> x"
proof
  assume "c \<le> x div b"
  then have "c * b \<le> x div b * b" using assms by (intro mult_right_mono) auto
  then show "c * b \<le> x" using div_mult_le_int [OF assms, of x] by linarith
next
  assume "c * b \<le> x"
  then have "c * b div b \<le> x div b" using assms by (intro zdiv_mono1)
  then show "c \<le> x div b" using assms by simp
qed

lemma div_less_iff_mult_int: "0 < (b::int) \<Longrightarrow> x div b < c \<longleftrightarrow> x < c * b"
  using le_div_iff_mult_int [of b c x] by linarith

end
