(* ===== verification/Task_Queue.thy ===== *)
theory Task_Queue
  imports HFS_Prelude
begin

text \<open>
  The single-producer single-consumer task queue between the request handlers and the
  communication threads (Common/include/CBB\_task\_parallel.h).

  Nodes live in a store: \<open>node_next\<close>, \<open>node_id\<close> and \<open>node_body\<close> per address, with a fresh
  address counter; address 0 is \<^verbatim>\<open>nullptr\<close>. All nodes form one ring: the tail (the task the
  consumer took last), the published tasks, the tasks the producer has allocated and not
  yet published, and the unused nodes. The body of a task and its virtual \<^verbatim>\<open>reset\<close> are
  parameters. The result of writing to the event descriptor is a parameter of
  \<^verbatim>\<open>task_enqueue\<close>; a loop that waits while the queue is empty is the value None.

  The producer and the consumer run in different threads. Every shared field is a
  \<^verbatim>\<open>std::atomic\<close>, so the interleaving is modelled at the loads and stores of these fields:
  the step relation \<open>spsc_step\<close> separates the load of the tail in \<^verbatim>\<open>allocate_tmp_node\<close> from
  the stores that follow it, and the emptiness test of \<^verbatim>\<open>get_task\<close> from the store of the
  new tail.
\<close>

section \<open>State and operations\<close>

record 'b task_queue =
  node_next :: "nat \<Rightarrow> nat"
  node_id :: "nat \<Rightarrow> int"
  node_body :: "nat \<Rightarrow> 'b"
  node_fresh :: nat
  queue_head :: nat
  queue_tail :: nat
  queue_tmp_head :: nat
  length_of_queue :: size_t
  queue_event_fd :: c_int
  queue_id :: c_int

text \<open>
  The constructors: two nodes pointing at each other. \<open>b\<close> is the body the task type's
  default constructor gives and \<open>i\<close> the id it leaves (\<^verbatim>\<open>basic_task()=default\<close> sets none).
\<close>

definition task_parallel_queue :: "int \<Rightarrow> 'b \<Rightarrow> c_int \<Rightarrow> c_int \<Rightarrow> 'b task_queue" where
  "task_parallel_queue i b qid event_fd =
     \<lparr>node_next = (\<lambda>_. 0)(1 := 2, 2 := 1), node_id = (\<lambda>_. i), node_body = (\<lambda>_. b),
      node_fresh = 3, queue_head = 2, queue_tail = 1, queue_tmp_head = 2,
      length_of_queue = 2, queue_event_fd = event_fd, queue_id = qid\<rparr>"

definition set_queue_event_fd :: "c_int \<Rightarrow> 'b task_queue \<Rightarrow> 'b task_queue" where
  "set_queue_event_fd fd q = q\<lparr>queue_event_fd := fd\<rparr>"

definition task_queue_is_empty :: "'b task_queue \<Rightarrow> bool" where
  "task_queue_is_empty q \<longleftrightarrow> node_next q (queue_tail q) = queue_head q"

definition task_dequeue :: "'b task_queue \<Rightarrow> nat" where
  "task_dequeue q = queue_tail q"

text \<open>The store of \<^verbatim>\<open>get_task\<close>, after its emptiness test, and the whole operation.\<close>

definition get_task_take :: "'b task_queue \<Rightarrow> nat \<times> 'b task_queue" where
  "get_task_take q =
     (let new_task = node_next q (queue_tail q) in (new_task, q\<lparr>queue_tail := new_task\<rparr>))"

definition get_task :: "'b task_queue \<Rightarrow> (nat \<times> 'b task_queue) option" where
  "get_task q = (if task_queue_is_empty q then None else Some (get_task_take q))"

text \<open>\<^verbatim>\<open>task_wait\<close> with its function-local static \<^verbatim>\<open>previous_head\<close> passed in and out.\<close>

definition task_wait :: "nat \<Rightarrow> 'b task_queue \<Rightarrow> (bool \<times> nat) option" where
  "task_wait previous_head q =
     (if previous_head = queue_head q \<or> task_queue_is_empty q then
        (if task_queue_is_empty q then None else Some (True, queue_head q))
      else Some (True, previous_head))"

text \<open>
  \<^verbatim>\<open>allocate_tmp_node\<close>, given the value \<open>t\<close> it loaded from \<^verbatim>\<open>queue_tail\<close>; \<open>reset\<close> is the task
  type's virtual method and \<open>mk\<close> its constructor applied to the queue's id.
\<close>

definition allocate_tmp_node_at ::
    "('b \<Rightarrow> 'b) \<Rightarrow> (c_int \<Rightarrow> 'b) \<Rightarrow> nat \<Rightarrow> 'b task_queue \<Rightarrow> nat \<times> 'b task_queue" where
  "allocate_tmp_node_at reset mk t q =
     (let ret = queue_tmp_head q;
          q' = (if t = node_next q (queue_tmp_head q) then
                  (let new_node = node_fresh q in
                   q\<lparr>node_next := (node_next q)(new_node := node_next q (queue_tmp_head q),
                                               queue_tmp_head q := new_node),
                     node_id := (node_id q)(new_node := queue_id q),
                     node_body := (node_body q)(new_node := mk (queue_id q)),
                     node_fresh := node_fresh q + 1,
                     queue_tmp_head := new_node,
                     length_of_queue := u64 (length_of_queue q + 1)\<rparr>)
                else q\<lparr>queue_tmp_head := node_next q ret\<rparr>)
      in (ret, q'\<lparr>node_body := (node_body q')(ret := reset (node_body q' ret))\<rparr>))"

definition allocate_tmp_node ::
    "('b \<Rightarrow> 'b) \<Rightarrow> (c_int \<Rightarrow> 'b) \<Rightarrow> 'b task_queue \<Rightarrow> nat \<times> 'b task_queue" where
  "allocate_tmp_node reset mk q = allocate_tmp_node_at reset mk (queue_tail q) q"

definition task_enqueue_no_notification :: "'b task_queue \<Rightarrow> c_int \<times> 'b task_queue" where
  "task_enqueue_no_notification q = (0, q\<lparr>queue_head := node_next q (queue_head q)\<rparr>)"

definition task_enqueue_signal_notification :: "'b task_queue \<Rightarrow> c_int \<times> 'b task_queue" where
  "task_enqueue_signal_notification q = (0, q\<lparr>queue_head := node_next q (queue_head q)\<rparr>)"

text \<open>\<open>wr\<close> is what \<^verbatim>\<open>write\<close> to the event descriptor returns; FAILURE is -1, SUCCESS 0.\<close>

definition task_enqueue :: "ssize_t \<Rightarrow> 'b task_queue \<Rightarrow> c_int \<times> 'b task_queue" where
  "task_enqueue wr q =
     (let q' = q\<lparr>queue_head := node_next q (queue_head q)\<rparr>
      in if wr = -1 then (-1, q') else (0, q'))"

definition putback_tmp_node :: "'b task_queue \<Rightarrow> 'b task_queue" where
  "putback_tmp_node q = q\<lparr>queue_tmp_head := queue_head q\<rparr>"

text \<open>
  The loops from the head to the tail. \<^verbatim>\<open>set_id\<close> is virtual: besides the node's id it may
  change the body, which is the parameter \<open>vset\<close>.
\<close>

partial_function (option) set_id_loop ::
    "(c_int \<Rightarrow> 'b \<Rightarrow> 'b) \<Rightarrow> c_int \<Rightarrow> nat \<Rightarrow> (nat \<Rightarrow> nat) \<Rightarrow> nat \<Rightarrow> (nat \<Rightarrow> int) \<Rightarrow> (nat \<Rightarrow> 'b)
       \<Rightarrow> ((nat \<Rightarrow> int) \<times> (nat \<Rightarrow> 'b)) option" where
  "set_id_loop vset qid tail nx next ids bodies =
     (if tail = next then Some (ids, bodies)
      else set_id_loop vset qid tail nx (nx next)
             (ids(next := qid)) (bodies(next := vset qid (bodies next))))"

definition set_queue_id :: "(c_int \<Rightarrow> 'b \<Rightarrow> 'b) \<Rightarrow> c_int \<Rightarrow> 'b task_queue \<Rightarrow> 'b task_queue option" where
  "set_queue_id vset qid q =
     (case set_id_loop vset qid (queue_tail q) (node_next q) (queue_head q) (node_id q) (node_body q) of
        None \<Rightarrow> None
      | Some (ids, bodies) \<Rightarrow>
          Some (q\<lparr>queue_id := qid, node_id := ids(queue_tail q := qid),
                  node_body := bodies(queue_tail q := vset qid (bodies (queue_tail q)))\<rparr>))"

partial_function (option) destory_loop ::
    "nat \<Rightarrow> (nat \<Rightarrow> nat) \<Rightarrow> nat \<Rightarrow> nat list option" where
  "destory_loop tail nx next =
     (if tail = next then Some []
      else Option.bind (destory_loop tail nx (nx next)) (\<lambda>ds. Some (next # ds)))"

text \<open>\<^verbatim>\<open>destory_queue\<close>: the nodes it deletes in order, and the queue it leaves.\<close>

definition destory_queue :: "'b task_queue \<Rightarrow> (nat list \<times> 'b task_queue) option" where
  "destory_queue q =
     (if queue_head q = 0 \<or> queue_tail q = 0 then Some ([], q)
      else case destory_loop (queue_tail q) (node_next q) (queue_head q) of
             None \<Rightarrow> None
           | Some ds \<Rightarrow> Some (ds @ [queue_tail q], q\<lparr>queue_head := 0, queue_tail := 0\<rparr>))"

partial_function (option) flush_loop ::
    "nat \<Rightarrow> (nat \<Rightarrow> nat) \<Rightarrow> nat \<Rightarrow> unit option" where
  "flush_loop head nx next = (if head = next then Some () else flush_loop head nx (nx next))"

definition flush_queue :: "'b task_queue \<Rightarrow> unit option" where
  "flush_queue q = flush_loop (queue_head q) (node_next q) (node_next q (queue_head q))"

section \<open>The ring\<close>

text \<open>
  \<open>queue_rep q t ready reserved unused\<close>: the ring of \<open>q\<close> is the tail \<open>t\<close>, the published
  tasks, the allocated ones and the unused nodes, of which there is always one.
\<close>

definition queue_rep :: "'b task_queue \<Rightarrow> nat \<Rightarrow> nat list \<Rightarrow> nat list \<Rightarrow> nat list \<Rightarrow> bool" where
  "queue_rep q t ready reserved unused \<longleftrightarrow>
     ring (node_next q) (t # ready @ reserved @ unused) \<and>
     distinct (t # ready @ reserved @ unused) \<and> unused \<noteq> [] \<and>
     queue_tail q = t \<and> queue_head q = hd (reserved @ unused) \<and>
     queue_tmp_head q = hd unused \<and>
     set (t # ready @ reserved @ unused) \<subseteq> {0<..<node_fresh q}"

lemmas queue_rep_simps = queue_rep_def ring_def chain_simps

lemma new_queue_rep: "queue_rep (task_parallel_queue i b qid fd) 1 [] [] [2]"
  by (auto simp: queue_rep_simps task_parallel_queue_def)

lemma rep_mid:
  "queue_rep q t ready reserved unused \<Longrightarrow> t # ready @ reserved @ unused = xs @ x # y # zs \<Longrightarrow>
     node_next q x = y"
  unfolding queue_rep_def using ring_mid by metis

lemma rep_next_unused:
  assumes "queue_rep q t ready reserved (f # unused)"
  shows "node_next q f = (if unused = [] then t else hd unused)"
proof (cases unused)
  case Nil
  then have "ring (node_next q) (t # (ready @ reserved) @ [f])"
    using assms by (simp add: queue_rep_def)
  from ring_wrap [OF this] Nil show ?thesis by simp
next
  case (Cons u us)
  then show ?thesis using rep_mid [OF assms, of "t # ready @ reserved" f u us] by simp
qed

lemma rep_next_tail:
  assumes "queue_rep q t ready reserved unused"
  shows "node_next q t = hd (ready @ reserved @ unused)"
proof -
  obtain y ys where "ready @ reserved @ unused = y # ys"
    using assms by (cases "ready @ reserved @ unused") (auto simp: queue_rep_def)
  then show ?thesis using rep_mid [OF assms, of "[]" t y ys] by simp
qed

lemma is_empty_rep:
  assumes "queue_rep q t ready reserved unused"
  shows "task_queue_is_empty q \<longleftrightarrow> ready = []"
proof -
  have "ready \<noteq> [] \<Longrightarrow> hd ready \<noteq> hd (reserved @ unused)"
    using assms by (cases ready; cases "reserved @ unused") (auto simp: queue_rep_def)
  then show ?thesis
    using rep_next_tail [OF assms] assms
    by (cases ready) (auto simp: task_queue_is_empty_def queue_rep_def)
qed

lemma take_rep:
  assumes "queue_rep q t (r # ready) reserved unused"
  shows "get_task_take q = (r, q\<lparr>queue_tail := r\<rparr>)"
    "queue_rep (q\<lparr>queue_tail := r\<rparr>) r ready reserved (unused @ [t])"
proof -
  show "get_task_take q = (r, q\<lparr>queue_tail := r\<rparr>)"
    using assms rep_next_tail [OF assms]
    by (auto simp: get_task_take_def queue_rep_def)
  have "ring (node_next q) ([t] @ (r # ready @ reserved @ unused))"
    using assms by (simp add: queue_rep_def)
  then have "ring (node_next q) ((r # ready @ reserved @ unused) @ [t])"
    by (subst ring_rotate)
  then show "queue_rep (q\<lparr>queue_tail := r\<rparr>) r ready reserved (unused @ [t])"
    using assms by (auto simp: queue_rep_def hd_append)
qed

lemma enqueue_rep:
  assumes "queue_rep q t ready (n # reserved) unused"
  shows "queue_head q = n"
    "queue_rep (q\<lparr>queue_head := node_next q (queue_head q)\<rparr>) t (ready @ [n]) reserved unused"
proof -
  show h: "queue_head q = n" using assms by (simp add: queue_rep_def)
  obtain y ys where "reserved @ unused = y # ys"
    using assms by (cases "reserved @ unused") (auto simp: queue_rep_def)
  then have "node_next q n = hd (reserved @ unused)"
    using rep_mid [OF assms, of "t # ready" n y ys] by simp
  with assms h show
    "queue_rep (q\<lparr>queue_head := node_next q (queue_head q)\<rparr>) t (ready @ [n]) reserved unused"
    by (simp add: queue_rep_def)
qed

lemma putback_rep:
  "queue_rep q t ready reserved unused \<Longrightarrow>
     queue_rep (putback_tmp_node q) t ready [] (reserved @ unused)"
  by (auto simp: queue_rep_def putback_tmp_node_def)

text \<open>
  The loaded tail \<open>u\<close> is the current tail, or the consumer has moved on and \<open>u\<close> is an
  unused node that is not the next one to be handed out.
\<close>

lemma allocate_rep:
  assumes rep: "queue_rep q t ready reserved (f # unused)" and u: "u = t \<or> u \<in> set unused"
    and al: "allocate_tmp_node_at reset mk u q = (n, q')"
  shows "n = f" "queue_rep q' t ready (reserved @ [f])
           (if u = node_next q f then node_fresh q # unused else unused)"
proof -
  show "n = f" using rep al by (auto simp: allocate_tmp_node_at_def queue_rep_def Let_def)
  have tmp: "queue_tmp_head q = f" using rep by (simp add: queue_rep_def)
  show "queue_rep q' t ready (reserved @ [f])
          (if u = node_next q f then node_fresh q # unused else unused)"
  proof (cases "u = node_next q f")
    case True
    let ?g = "node_fresh q"
    let ?nx = "(node_next q)(?g := node_next q f, f := ?g)"
    have fresh: "?g \<notin> set (t # ready @ reserved @ f # unused)" "0 < ?g"
      using rep by (auto simp: queue_rep_def)
    have "ring ?nx ((t # ready @ reserved) @ f # ?g # unused)"
      using rep fresh by (intro ring_insert) (auto simp: queue_rep_def)
    moreover have "node_next q' = ?nx" "queue_tail q' = queue_tail q" "queue_head q' = queue_head q"
      "queue_tmp_head q' = ?g" "node_fresh q' = Suc ?g"
      using al True tmp by (auto simp: allocate_tmp_node_at_def Let_def)
    moreover have "hd (reserved @ f # unused) = hd (reserved @ f # ?g # unused)"
      by (cases reserved) auto
    moreover have "{0<..<?g} \<subseteq> {0<..<Suc ?g}" "?g \<in> {0<..<Suc ?g}" using fresh(2) by auto
    moreover have "distinct (t # ready @ reserved @ f # ?g # unused)"
      using rep fresh(1) by (simp add: queue_rep_def)
    ultimately show ?thesis using rep True unfolding queue_rep_def by auto
  next
    case False
    note nx = rep_next_unused [OF rep]
    with False u have ne: "unused \<noteq> []" by (auto split: if_splits)
    moreover have "node_next q' = node_next q" "queue_tail q' = queue_tail q"
      "queue_head q' = queue_head q" "queue_tmp_head q' = node_next q f" "node_fresh q' = node_fresh q"
      using al False tmp by (auto simp: allocate_tmp_node_at_def Let_def)
    ultimately show ?thesis using rep False nx by (simp add: queue_rep_def)
  qed
qed

section \<open>Interleaving of one producer and one consumer\<close>

text \<open>
  A configuration: the queue, the tail the producer has loaded in a running
  \<^verbatim>\<open>allocate_tmp_node\<close>, whether the consumer has seen the queue non-empty in a running
  \<^verbatim>\<open>get_task\<close>, and three observations: the nodes the producer holds (allocated and not yet
  enqueued), the nodes it has enqueued and the nodes the consumer has got, in order.
\<close>

record 'b spsc =
  sq :: "'b task_queue"
  loaded_tail :: "nat option"
  seen_nonempty :: bool
  held :: "nat list"
  published :: "nat list"
  got :: "nat list"

inductive spsc_step :: "('b \<Rightarrow> 'b) \<Rightarrow> (c_int \<Rightarrow> 'b) \<Rightarrow> 'b spsc \<Rightarrow> 'b spsc \<Rightarrow> bool" for reset mk where
  step_load: "loaded_tail c = None \<Longrightarrow>
     spsc_step reset mk c (c\<lparr>loaded_tail := Some (queue_tail (sq c))\<rparr>)"
| step_alloc: "loaded_tail c = Some u \<Longrightarrow> allocate_tmp_node_at reset mk u (sq c) = (n, q') \<Longrightarrow>
     spsc_step reset mk c (c\<lparr>sq := q', loaded_tail := None, held := held c @ [n]\<rparr>)"
| step_write: "n \<in> set (held c) \<Longrightarrow>
     spsc_step reset mk c (c\<lparr>sq := (sq c)\<lparr>node_body := (node_body (sq c))(n := b)\<rparr>\<rparr>)"
| step_enqueue: "loaded_tail c = None \<Longrightarrow> held c = n # hs \<Longrightarrow>
     task_enqueue wr (sq c) = (r, q') \<Longrightarrow>
     spsc_step reset mk c (c\<lparr>sq := q', held := hs, published := published c @ [n]\<rparr>)"
| step_putback: "loaded_tail c = None \<Longrightarrow>
     spsc_step reset mk c (c\<lparr>sq := putback_tmp_node (sq c), held := []\<rparr>)"
| step_check: "\<not> task_queue_is_empty (sq c) \<Longrightarrow>
     spsc_step reset mk c (c\<lparr>seen_nonempty := True\<rparr>)"
| step_take: "seen_nonempty c \<Longrightarrow> get_task_take (sq c) = (n, q') \<Longrightarrow>
     spsc_step reset mk c (c\<lparr>sq := q', seen_nonempty := False, got := got c @ [n]\<rparr>)"

definition spsc_init :: "'b task_queue \<Rightarrow> 'b spsc" where
  "spsc_init q = \<lparr>sq = q, loaded_tail = None, seen_nonempty = False,
                  held = [], published = [], got = []\<rparr>"

inductive spsc_reach :: "('b \<Rightarrow> 'b) \<Rightarrow> (c_int \<Rightarrow> 'b) \<Rightarrow> 'b spsc \<Rightarrow> bool" for reset mk where
  spsc_start: "spsc_reach reset mk (spsc_init (task_parallel_queue i b qid fd))"
| spsc_next: "spsc_reach reset mk c \<Longrightarrow> spsc_step reset mk c c' \<Longrightarrow> spsc_reach reset mk c'"

definition spsc_inv :: "'b spsc \<Rightarrow> bool" where
  "spsc_inv c \<longleftrightarrow> (\<exists>ready unused.
     queue_rep (sq c) (queue_tail (sq c)) ready (held c) unused \<and>
     published c = got c @ ready \<and>
     (\<forall>u. loaded_tail c = Some u \<longrightarrow> u = queue_tail (sq c) \<or> u \<in> set (tl unused)) \<and>
     (seen_nonempty c \<longrightarrow> ready \<noteq> []))"

lemma spsc_invI:
  "queue_rep (sq c) (queue_tail (sq c)) ready (held c) unused \<Longrightarrow>
   published c = got c @ ready \<Longrightarrow>
   (\<And>u. loaded_tail c = Some u \<Longrightarrow> u = queue_tail (sq c) \<or> u \<in> set (tl unused)) \<Longrightarrow>
   (seen_nonempty c \<Longrightarrow> ready \<noteq> []) \<Longrightarrow> spsc_inv c"
  unfolding spsc_inv_def by blast

lemma rep_tail: "queue_rep q t ready reserved unused \<Longrightarrow> queue_tail q = t"
  by (simp add: queue_rep_def)

lemma rep_body [simp]:
  "queue_rep (q\<lparr>node_body := f\<rparr>) t ready reserved unused = queue_rep q t ready reserved unused"
  by (simp add: queue_rep_def)

lemma task_enqueue_queue: "snd (task_enqueue wr q) = q\<lparr>queue_head := node_next q (queue_head q)\<rparr>"
  by (simp add: task_enqueue_def Let_def)

lemma spsc_step_inv:
  assumes "spsc_step reset mk c c'" "spsc_inv c"
  shows "spsc_inv c'"
proof -
  from assms(2) obtain ready unused where
    rep: "queue_rep (sq c) (queue_tail (sq c)) ready (held c) unused"
    and pub: "published c = got c @ ready"
    and ld: "\<And>u. loaded_tail c = Some u \<Longrightarrow> u = queue_tail (sq c) \<or> u \<in> set (tl unused)"
    and sn: "seen_nonempty c \<Longrightarrow> ready \<noteq> []"
    unfolding spsc_inv_def by blast
  have ne: "unused \<noteq> []" using rep by (simp add: queue_rep_def)
  from assms(1) show ?thesis
  proof cases
    case step_load
    then show ?thesis using rep pub sn by (intro spsc_invI [of _ ready unused]) auto
  next
    case (step_alloc u n q')
    obtain f fs where fs: "unused = f # fs" using ne by (cases unused) auto
    have "u = queue_tail (sq c) \<or> u \<in> set fs" using ld [of u] step_alloc fs by simp
    from allocate_rep [OF rep [unfolded fs] this step_alloc(3)] obtain un' where
      "n = f" "queue_rep q' (queue_tail (sq c)) ready (held c @ [f]) un'" by blast
    then show ?thesis
      using pub sn step_alloc rep_tail by (intro spsc_invI [of _ ready un']) fastforce+
  next
    case (step_write n b)
    then show ?thesis using rep pub ld sn by (intro spsc_invI [of _ ready unused]) auto
  next
    case (step_enqueue n hs wr r q')
    then have q': "q' = (sq c)\<lparr>queue_head := node_next (sq c) (queue_head (sq c))\<rparr>"
      using task_enqueue_queue [of wr "sq c"] by simp
    show ?thesis
      using enqueue_rep(2) [of "sq c" _ ready n hs unused] rep pub step_enqueue
      by (intro spsc_invI [of _ "ready @ [n]" unused]) (auto simp: q')
  next
    case step_putback
    then show ?thesis
      using putback_rep [OF rep] pub sn
      by (intro spsc_invI [of _ ready "held c @ unused"]) (auto simp: putback_tmp_node_def)
  next
    case step_check
    then have "ready \<noteq> []" using is_empty_rep [OF rep] by simp
    then show ?thesis using step_check rep pub ld by (intro spsc_invI [of _ ready unused]) auto
  next
    case (step_take n q')
    obtain r rs where rs: "ready = r # rs" using sn step_take by (cases ready) auto
    note tk = take_rep [OF rep [unfolded rs]]
    show ?thesis
    proof (rule spsc_invI [of _ rs "unused @ [queue_tail (sq c)]"])
      fix u
      assume "loaded_tail c' = Some u"
      then show "u = queue_tail (sq c') \<or> u \<in> set (tl (unused @ [queue_tail (sq c)]))"
        using ld [of u] ne step_take by auto
    qed (use tk rs pub step_take in auto)
  qed
qed

lemma spsc_reach_inv: "spsc_reach reset mk c \<Longrightarrow> spsc_inv c"
proof (induction rule: spsc_reach.induct)
  case (spsc_start i b qid fd)
  then show ?case
    using new_queue_rep [of i b qid fd]
    by (intro spsc_invI [of _ "[]" "[2]"]) (auto simp: spsc_init_def task_parallel_queue_def)
next
  case (spsc_next c c')
  then show ?case by (blast intro: spsc_step_inv)
qed

section \<open>Loops over the ring\<close>

lemma rep_chain_to_tail:
  assumes "queue_rep q t ready reserved unused"
  shows "chain (node_next q) ((reserved @ unused) @ [t])" "t \<notin> set (reserved @ unused)"
    "queue_head q = hd ((reserved @ unused) @ [t])" "queue_tail q = t"
proof -
  have "ring (node_next q) ((t # ready) @ (reserved @ unused))"
    using assms by (simp add: queue_rep_def)
  then have "ring (node_next q) ((reserved @ unused) @ (t # ready))" by (subst ring_rotate)
  then have "chain (node_next q) (((reserved @ unused) @ [t]) @ ready)" by (simp add: ring_def)
  then show "chain (node_next q) ((reserved @ unused) @ [t])" by (subst (asm) chain_append) blast
qed (use assms in \<open>auto simp: queue_rep_def hd_append\<close>)

lemma set_id_loop_chain:
  "chain nx (xs @ [t]) \<Longrightarrow> distinct (xs @ [t]) \<Longrightarrow>
     set_id_loop vset qid t nx (hd (xs @ [t])) ids bodies =
       Some (\<lambda>n. if n \<in> set xs then qid else ids n,
             \<lambda>n. if n \<in> set xs then vset qid (bodies n) else bodies n)"
proof (induction xs arbitrary: ids bodies)
  case Nil
  then show ?case by (simp add: set_id_loop.simps)
next
  case (Cons x xs)
  let ?ids = "ids(x := qid)" and ?bodies = "bodies(x := vset qid (bodies x))"
  have nx: "nx x = hd (xs @ [t])" using Cons.prems by (simp add: chain_Cons)
  have step: "set_id_loop vset qid t nx (hd ((x # xs) @ [t])) ids bodies =
      set_id_loop vset qid t nx (hd (xs @ [t])) ?ids ?bodies"
    using Cons.prems nx by (subst set_id_loop.simps) auto
  have eqs: "(\<lambda>n. if n \<in> set xs then qid else ?ids n) = (\<lambda>n. if n \<in> set (x # xs) then qid else ids n)"
    "(\<lambda>n. if n \<in> set xs then vset qid (?bodies n) else ?bodies n) =
      (\<lambda>n. if n \<in> set (x # xs) then vset qid (bodies n) else bodies n)"
    using Cons.prems by auto
  have "chain nx (xs @ [t])" "distinct (xs @ [t])" using Cons.prems by (auto simp: chain_Cons)
  note Cons.IH [OF this, of ?ids ?bodies]
  then show ?case unfolding step eqs .
qed

lemma destory_loop_chain:
  "chain nx (xs @ [t]) \<Longrightarrow> t \<notin> set xs \<Longrightarrow> destory_loop t nx (hd (xs @ [t])) = Some xs"
proof (induction xs)
  case Nil
  then show ?case by (simp add: destory_loop.simps)
next
  case (Cons x xs)
  then show ?case by (subst destory_loop.simps) (auto simp: chain_Cons)
qed

lemma flush_loop_chain:
  "chain nx (xs @ [h]) \<Longrightarrow> h \<notin> set xs \<Longrightarrow> flush_loop h nx (hd (xs @ [h])) = Some ()"
proof (induction xs)
  case Nil
  then show ?case by (simp add: flush_loop.simps)
next
  case (Cons x xs)
  then show ?case by (subst flush_loop.simps) (auto simp: chain_Cons)
qed

lemma flush_queue_ends:
  assumes "queue_rep q t ready reserved unused"
  shows "flush_queue q = Some ()"
proof -
  obtain h xs where h: "reserved @ unused = h # xs"
    using assms by (cases "reserved @ unused") (auto simp: queue_rep_def)
  have "ring (node_next q) ((t # ready) @ (h # xs))"
    using assms h by (simp add: queue_rep_def)
  then have r: "ring (node_next q) ((h # xs) @ (t # ready))" by (subst ring_rotate)
  have "distinct ((t # ready) @ (h # xs))" "queue_head q = h"
    using assms unfolding queue_rep_def h by (simp_all add: h)
  then have "h \<notin> set (xs @ t # ready)" by auto
  with ring_unroll [of "node_next q" h "xs @ t # ready"] r \<open>queue_head q = h\<close>
    flush_loop_chain [of "node_next q" "xs @ t # ready" h]
  show ?thesis by (simp add: flush_queue_def)
qed

section \<open>The queue as a FIFO of task bodies\<close>

text \<open>
  The contract of a FIFO: \<open>put\<close> appends, \<open>get\<close> removes the front and blocks exactly when the
  contents are empty.
\<close>

fun drain :: "('q \<Rightarrow> ('x \<times> 'q) option) \<Rightarrow> nat \<Rightarrow> 'q \<Rightarrow> ('x list \<times> 'q) option" where
  "drain get 0 q = Some ([], q)"
| "drain get (Suc n) q =
     (case get q of
        None \<Rightarrow> None
      | Some (x, q') \<Rightarrow> (case drain get n q' of
                          None \<Rightarrow> None | Some (xs, q'') \<Rightarrow> Some (x # xs, q'')))"

locale fifo =
  fixes qinv :: "'q \<Rightarrow> bool"
    and contents :: "'q \<Rightarrow> 'x list"
    and put :: "'x \<Rightarrow> 'q \<Rightarrow> 'q"
    and get :: "'q \<Rightarrow> ('x \<times> 'q) option"
  assumes put_ok: "qinv q \<Longrightarrow> qinv (put x q) \<and> contents (put x q) = contents q @ [x]"
    and get_empty: "qinv q \<Longrightarrow> contents q = [] \<Longrightarrow> get q = None"
    and get_front: "qinv q \<Longrightarrow> contents q = x # xs \<Longrightarrow>
          \<exists>q'. get q = Some (x, q') \<and> qinv q' \<and> contents q' = xs"
begin

lemma fold_put: "qinv q \<Longrightarrow> qinv (fold put xs q) \<and> contents (fold put xs q) = contents q @ xs"
  by (induction xs arbitrary: q) (auto simp: put_ok)

lemma drain_contents:
  "qinv q \<Longrightarrow> contents q = xs @ ys \<Longrightarrow>
     \<exists>q'. drain get (length xs) q = Some (xs, q') \<and> qinv q' \<and> contents q' = ys"
proof (induction xs arbitrary: q)
  case Nil
  then show ?case by simp
next
  case (Cons x xs)
  then obtain q1 where q1: "get q = Some (x, q1)" "qinv q1" "contents q1 = xs @ ys"
    using get_front [of q x "xs @ ys"] by auto
  with Cons.IH [of q1] show ?case by auto
qed

lemma put_all_drain:
  assumes "qinv q"
  shows "\<exists>q'. drain get (length (contents q @ xs)) (fold put xs q) = Some (contents q @ xs, q') \<and>
           qinv q' \<and> contents q' = [] \<and> get q' = None"
  using drain_contents [of "fold put xs q" "contents q @ xs" "[]"] fold_put [OF assms]
    get_empty by fastforce

end

text \<open>
  What a producer does with a task: allocate a node, fill it, enqueue it; and what a
  consumer reads. \<open>ready_nodes\<close> walks from the tail to the head.
\<close>

definition send_task :: "('b \<Rightarrow> 'b) \<Rightarrow> (c_int \<Rightarrow> 'b) \<Rightarrow> ssize_t \<Rightarrow> 'b \<Rightarrow> 'b task_queue \<Rightarrow> 'b task_queue" where
  "send_task reset mk wr x q =
     (let (n, q1) = allocate_tmp_node reset mk q
      in snd (task_enqueue wr (q1\<lparr>node_body := (node_body q1)(n := x)\<rparr>)))"

definition recv_task :: "'b task_queue \<Rightarrow> ('b \<times> 'b task_queue) option" where
  "recv_task q = (case get_task q of None \<Rightarrow> None | Some (n, q') \<Rightarrow> Some (node_body q' n, q'))"

definition ready_nodes :: "'b task_queue \<Rightarrow> nat list" where
  "ready_nodes q = walk (node_fresh q) (node_next q) (node_next q (queue_tail q)) (queue_head q)"

definition queue_contents :: "'b task_queue \<Rightarrow> 'b list" where
  "queue_contents q = map (node_body q) (ready_nodes q)"

definition queue_ok :: "'b task_queue \<Rightarrow> bool" where
  "queue_ok q \<longleftrightarrow> (\<exists>t ready unused. queue_rep q t ready [] unused)"

lemma ready_nodes_rep:
  assumes rep: "queue_rep q t ready reserved unused"
  shows "ready_nodes q = ready"
proof -
  obtain h xs where h: "reserved @ unused = h # xs"
    using rep by (cases "reserved @ unused") (auto simp: queue_rep_def)
  have d: "distinct ready" "set ready \<subseteq> {..<node_fresh q}" "h \<notin> set ready" "queue_head q = h"
    using rep unfolding queue_rep_def h by auto
  have "length ready = card (set ready)" using d by (simp add: distinct_card)
  also have "\<dots> \<le> node_fresh q" using card_mono [OF _ d(2)] by simp
  finally have len: "length ready \<le> node_fresh q" .
  have "ring (node_next q) (t # ready @ h # xs)" using rep h by (simp add: queue_rep_def)
  then have "chain (node_next q) (ready @ [h])" "node_next q t = hd (ready @ [h])"
    by (auto simp: ring_def chain_simps hd_append)
  then show ?thesis
    using walk_chain [of "node_next q" ready h] d len rep_tail [OF rep]
    by (simp add: ready_nodes_def)
qed

lemma allocate_body:
  assumes "allocate_tmp_node_at reset mk u q = (n, q')" "x \<noteq> n" "x \<noteq> node_fresh q"
  shows "node_body q' x = node_body q x"
  using assms by (auto simp: allocate_tmp_node_at_def Let_def)

lemma send_task_rep:
  assumes rep: "queue_rep q t ready [] unused"
  shows "\<exists>unused'. queue_rep (send_task reset mk wr x q) t (ready @ [hd unused]) [] unused' \<and>
           map (node_body (send_task reset mk wr x q)) (ready @ [hd unused])
             = map (node_body q) ready @ [x]"
proof -
  obtain f fs where fs: "unused = f # fs" using rep by (cases unused) (auto simp: queue_rep_def)
  obtain n q1 where al: "allocate_tmp_node reset mk q = (n, q1)" by fastforce
  have al': "allocate_tmp_node_at reset mk t q = (n, q1)"
    using al rep_tail [OF rep] by (simp add: allocate_tmp_node_def)
  from allocate_rep [OF rep [unfolded fs] _ al'] obtain un where
    n: "n = f" and r1: "queue_rep q1 t ready [f] un" by auto
  let ?q2 = "q1\<lparr>node_body := (node_body q1)(n := x)\<rparr>"
  have r2: "queue_rep ?q2 t ready [f] un" using r1 by simp
  have "ready \<noteq> [] \<Longrightarrow> f \<notin> set ready \<and> node_fresh q \<notin> set ready" for z :: nat
    using rep fs by (auto simp: queue_rep_def)
  then have "map (node_body q1) ready = map (node_body q) ready"
    using allocate_body [OF al'] n by (intro map_cong) (auto, metis empty_iff list.set(1))
  moreover have "f \<notin> set ready" using r1 by (auto simp: queue_rep_def)
  moreover have "send_task reset mk wr x q = ?q2\<lparr>queue_head := node_next ?q2 (queue_head ?q2)\<rparr>"
    by (simp add: send_task_def al task_enqueue_queue)
  ultimately show ?thesis
    using enqueue_rep(2) [OF r2] n fs by (auto intro!: exI [of _ un])
qed

interpretation tq: fifo queue_ok queue_contents "send_task reset mk wr" recv_task for reset mk wr
proof
  fix q :: "'a task_queue" and x
  assume "queue_ok q"
  then obtain t ready unused where rep: "queue_rep q t ready [] unused" by (auto simp: queue_ok_def)
  from send_task_rep [OF this, of reset mk wr x] ready_nodes_rep [OF rep]
  show "queue_ok (send_task reset mk wr x q) \<and>
      queue_contents (send_task reset mk wr x q) = queue_contents q @ [x]"
    unfolding queue_ok_def queue_contents_def by (metis ready_nodes_rep)
next
  fix q :: "'a task_queue"
  assume "queue_ok q" "queue_contents q = []"
  then show "recv_task q = None"
    by (auto simp: queue_ok_def queue_contents_def ready_nodes_rep recv_task_def get_task_def
        is_empty_rep)
next
  fix q :: "'a task_queue" and x xs
  assume "queue_ok q" and c: "queue_contents q = x # xs"
  then obtain t ready unused where rep: "queue_rep q t ready [] unused" by (auto simp: queue_ok_def)
  with c obtain r rs where rs: "ready = r # rs" "x = node_body q r" "xs = map (node_body q) rs"
    by (auto simp: queue_contents_def ready_nodes_rep)
  note tk = take_rep [OF rep [unfolded rs(1)]]
  have "\<not> task_queue_is_empty q" using is_empty_rep [OF rep] rs by simp
  then show "\<exists>q'. recv_task q = Some (x, q') \<and> queue_ok q' \<and> queue_contents q' = xs"
    using tk rs ready_nodes_rep [OF tk(2)]
    by (auto simp: recv_task_def get_task_def queue_ok_def queue_contents_def)
qed

section \<open>Properties\<close>

text \<open>C1: In every interleaving of one producer and one consumer, at the granularity of the
  atomic loads and stores, the consumer has got a prefix of what was enqueued, in order;
  the queue is empty exactly when it has got everything; and the node the consumer works on,
  the published nodes and the nodes the producer holds are pairwise different, and so is the
  node a running allocation returns, even when the tail it loaded is stale.\<close>

theorem spsc_order_and_ownership:
  assumes "spsc_reach reset mk c"
  shows "\<exists>ready. published c = got c @ ready \<and>
           (task_queue_is_empty (sq c) \<longleftrightarrow> got c = published c) \<and>
           distinct (task_dequeue (sq c) # ready @ held c) \<and>
           (\<forall>u. loaded_tail c = Some u \<longrightarrow>
              fst (allocate_tmp_node_at reset mk u (sq c))
                \<notin> set (task_dequeue (sq c) # ready @ held c))"
proof -
  from spsc_reach_inv [OF assms] obtain ready unused where
    rep: "queue_rep (sq c) (queue_tail (sq c)) ready (held c) unused"
    and pub: "published c = got c @ ready" unfolding spsc_inv_def by blast
  obtain f fs where fs: "unused = f # fs" using rep by (cases unused) (auto simp: queue_rep_def)
  have "fst (allocate_tmp_node_at reset mk u (sq c)) = f" for u
    using rep fs by (simp add: allocate_tmp_node_at_def queue_rep_def Let_def)
  moreover have "f \<notin> set (queue_tail (sq c) # ready @ held c)"
    "distinct (queue_tail (sq c) # ready @ held c)"
    using rep fs by (auto simp: queue_rep_def)
  ultimately show ?thesis
    using pub is_empty_rep [OF rep] by (intro exI [of _ ready]) (auto simp: task_dequeue_def)
qed

theorem spsc_order_and_ownership_witness:
  "\<exists>ready. published (spsc_init (task_parallel_queue 0 (0::int) 0 (-1))) =
     got (spsc_init (task_parallel_queue 0 (0::int) 0 (-1))) @ ready"
  using spsc_order_and_ownership [OF spsc_start [where reset = id and mk = "\<lambda>_. 0"]] by blast

text \<open>Bodies sent through a new queue, each by allocating a node, filling it and enqueueing
  it, are received in the order they were sent, unchanged, and then the queue is empty.\<close>

theorem queue_fifo:
  "\<exists>q'. drain recv_task (length xs)
          (fold (send_task reset mk wr) xs (task_parallel_queue i b qid fd)) = Some (xs, q') \<and>
        recv_task q' = None"
proof -
  let ?q = "task_parallel_queue i b qid fd"
  have "queue_ok ?q" using new_queue_rep [of i b qid fd] by (auto simp: queue_ok_def)
  moreover have "queue_contents ?q = []"
    using ready_nodes_rep [OF new_queue_rep [of i b qid fd]] by (simp add: queue_contents_def)
  ultimately show ?thesis using tq.put_all_drain [where q = ?q and xs = xs and reset = reset and mk = mk and wr = wr]
    by auto
qed

text \<open>\<^verbatim>\<open>allocate_tmp_node\<close> hands out the first unused node, reset; it reuses nodes while a spare
  one is left and only then grows the ring by one node carrying the queue's id; the bodies of
  the tail and of the published tasks are untouched.\<close>

theorem allocate_tmp_node_correct:
  assumes rep: "queue_rep q t ready reserved (f # unused)"
  shows "\<exists>q'. allocate_tmp_node reset mk q = (f, q') \<and>
           node_body q' f = reset (node_body q f) \<and>
           (\<forall>x\<in>set (t # ready). node_body q' x = node_body q x) \<and>
           (if unused = []
            then queue_rep q' t ready (reserved @ [f]) [node_fresh q] \<and>
                 node_id q' (node_fresh q) = queue_id q \<and>
                 length_of_queue q' = u64 (length_of_queue q + 1)
            else queue_rep q' t ready (reserved @ [f]) unused \<and>
                 length_of_queue q' = length_of_queue q)"
proof -
  obtain n q' where al: "allocate_tmp_node_at reset mk t q = (n, q')" by fastforce
  have q: "allocate_tmp_node reset mk q = (n, q')"
    using al rep_tail [OF rep] by (simp add: allocate_tmp_node_def)
  have nx: "node_next q f = (if unused = [] then t else hd unused)"
    and tmp: "queue_tmp_head q = f" and fr: "f \<noteq> node_fresh q"
    and fresh: "\<And>x. x \<in> set (t # ready @ unused) \<Longrightarrow> x \<noteq> f \<and> x \<noteq> node_fresh q"
    using rep_next_unused [OF rep] rep by (auto simp: queue_rep_def)
  have n: "n = f" and r: "queue_rep q' t ready (reserved @ [f])
      (if t = node_next q f then node_fresh q # unused else unused)"
    using allocate_rep [OF rep _ al] by simp_all
  have "t = node_next q f \<longleftrightarrow> unused = []"
    using nx rep by (cases unused) (auto simp: queue_rep_def)
  with q n r show ?thesis
    using al nx tmp fr fresh by (auto simp: allocate_tmp_node_at_def Let_def split: if_splits)
qed

theorem allocate_tmp_node_correct_witness:
  "\<exists>q'. allocate_tmp_node (\<lambda>_. 7) (\<lambda>_. 0) (task_parallel_queue 0 (0::int) 3 (-1)) = (2, q') \<and>
        node_body q' 2 = 7 \<and> length_of_queue q' = 3"
proof -
  from allocate_tmp_node_correct [OF new_queue_rep, of "\<lambda>_. 7" "\<lambda>_. 0" 0 "0::int" 3 "-1"]
  show ?thesis by (auto simp: task_parallel_queue_def u64_def)
qed

text \<open>\<^verbatim>\<open>destory_queue\<close> terminates and deletes the nodes from the head around to the tail, each once:
  that is every node of the ring exactly when no published task is left; published tasks
  that nobody has taken are leaked. A second call does nothing.\<close>

theorem destory_queue_correct:
  assumes rep: "queue_rep q t ready reserved unused"
  shows "\<exists>q'. destory_queue q = Some (reserved @ unused @ [t], q') \<and>
           distinct (reserved @ unused @ [t]) \<and>
           (set (reserved @ unused @ [t]) = set (t # ready @ reserved @ unused) \<longleftrightarrow> ready = []) \<and>
           destory_queue q' = Some ([], q')"
proof -
  note c = rep_chain_to_tail [OF rep]
  have nz: "queue_head q \<noteq> 0" "queue_tail q \<noteq> 0"
    using rep by (cases "reserved @ unused"; auto simp: queue_rep_def hd_append dest!: subsetD)+
  have "destory_loop (queue_tail q) (node_next q) (queue_head q) = Some (reserved @ unused)"
    using destory_loop_chain [OF c(1,2)] c(3,4) by simp
  moreover have "distinct (t # ready @ reserved @ unused)" using rep by (simp add: queue_rep_def)
  then have "distinct (reserved @ unused @ [t])"
    "set (reserved @ unused @ [t]) = set (t # ready @ reserved @ unused) \<longleftrightarrow> ready = []"
    by (auto, cases ready, auto)
  ultimately show ?thesis using nz c(4) by (auto simp: destory_queue_def)
qed

theorem destory_queue_correct_witness:
  "\<exists>q'. destory_queue (task_parallel_queue 0 (0::int) 3 (-1)) = Some ([2, 1], q')"
  using destory_queue_correct [OF new_queue_rep [of 0 "0::int" 3 "-1"]] by auto

text \<open>\<^verbatim>\<open>set_queue_id\<close> terminates and gives its id, through the virtual \<^verbatim>\<open>set_id\<close>, to the tail and to
  every node that is not published; the ring and the published tasks are unchanged.\<close>

theorem set_queue_id_correct:
  assumes rep: "queue_rep q t ready reserved unused"
  shows "\<exists>q'. set_queue_id vset qid q = Some q' \<and> queue_rep q' t ready reserved unused \<and>
           queue_id q' = qid \<and>
           (\<forall>n. node_id q' n = (if n \<in> set (t # reserved @ unused) then qid else node_id q n)) \<and>
           (\<forall>n. node_body q' n = (if n \<in> set (t # reserved @ unused) then vset qid (node_body q n)
                                  else node_body q n))"
proof -
  note c = rep_chain_to_tail [OF rep]
  have "distinct ((reserved @ unused) @ [t])" using rep by (auto simp: queue_rep_def)
  from set_id_loop_chain [OF c(1) this, of vset qid "node_id q" "node_body q"] c(2-4) rep
  show ?thesis by (auto simp: set_queue_id_def queue_rep_def)
qed

theorem set_queue_id_correct_witness:
  "\<exists>q'. set_queue_id (\<lambda>i _. i) 9 (task_parallel_queue 0 (0::int) 3 (-1)) = Some q' \<and>
        node_id q' 2 = 9 \<and> node_body q' 1 = 9"
  using set_queue_id_correct [OF new_queue_rep [of 0 "0::int" 3 "-1"], of "\<lambda>i _. i" 9] by auto

text \<open>C40: Enqueueing the same allocated task twice, as \<^verbatim>\<open>Master::_parse_flush_file\<close> does
  (Master.cpp:509 and 525), publishes a second node that was never allocated: the consumer
  gets the task and then the next unused node with whatever it held before.\<close>

theorem enqueue_twice_publishes_unallocated:
  assumes rep: "queue_rep q t [] [n] (f # unused)"
  shows "\<exists>q1 q2. get_task (snd (task_enqueue wr (snd (task_enqueue wr q)))) = Some (n, q1) \<and>
           get_task q1 = Some (f, q2) \<and> node_body q2 f = node_body q f"
proof -
  have nx: "node_next q t = n" "node_next q n = f" "queue_head q = n" "queue_tail q = t"
    "node_next q f = (if unused = [] then t else hd unused)"
    and d: "distinct (t # n # f # unused)"
    using rep_mid [OF rep, of "[]" t n] rep_mid [OF rep, of "[t]" n f] rep_next_unused [OF rep] rep
    by (auto simp: queue_rep_def)
  have "node_next q f \<noteq> n" "node_next q f \<noteq> f" using nx d by (cases unused; auto)+
  then show ?thesis
    using nx by (auto simp: task_enqueue_queue get_task_def task_queue_is_empty_def
        get_task_take_def Let_def)
qed

theorem enqueue_twice_publishes_unallocated_witness:
  "\<exists>q q1 q2. get_task (snd (task_enqueue 8 (snd (task_enqueue 8 q)))) = Some (2, q1) \<and>
     get_task q1 = Some (3, q2) \<and> node_body q2 3 = (0::int)"
proof -
  obtain q where "queue_rep q 1 [] [2] [3]" "node_body q 3 = (0::int)"
    using allocate_rep(2) [OF new_queue_rep [of 0 "0::int" 3 "-1"], of 1 "\<lambda>_. 7" "\<lambda>_. 0"]
    by (force simp: task_parallel_queue_def allocate_tmp_node_at_def)
  with enqueue_twice_publishes_unallocated [of q 1 2 3 "[]" 8] show ?thesis by metis
qed

end
