(* ===== verification/IO_Task.thy ===== *)
theory IO_Task
  imports HFS_Prelude
begin

text \<open>
  Messages: the buffer of a communication task, the values pushed into it and popped from
  it, and its transport (Common/include/CBB\_IO\_task.h, Common/src/CBB\_IO\_task.cpp, and
  \<^verbatim>\<open>send\<close>, \<^verbatim>\<open>receive_message\<close>, \<^verbatim>\<open>Send_attr\<close>, \<^verbatim>\<open>Recv_attr\<close> of
  Common/src/CBB\_communication\_thread.cpp in the TCP build).

  The 4000-byte message buffer is a function from offsets to bytes. Its first 24 bytes are
  the header, which the code reads and writes through pointers into the buffer, and so does
  the model: receiver id at 0, sender id at 4, message size at 8, extended size at 16. A push
  past the end of the buffer, or a pop that reads there, is undefined in the code (nothing
  checks it) and None here. Values are little-endian, as on the machines the code runs on.
\<close>

section \<open>Values as bytes\<close>

fun le_bytes :: "nat \<Rightarrow> int \<Rightarrow> byte list" where
  "le_bytes 0 x = []"
| "le_bytes (Suc n) x = word_of_int x # le_bytes n (x div 256)"

fun le_int :: "byte list \<Rightarrow> int" where
  "le_int [] = 0"
| "le_int (b # bs) = uint b + 256 * le_int bs"

definition enc_int :: "int \<Rightarrow> byte list" where "enc_int = le_bytes 4"
definition dec_int :: "byte list \<Rightarrow> int" where "dec_int bs = s32 (le_int bs)"
definition enc_u32 :: "int \<Rightarrow> byte list" where "enc_u32 = le_bytes 4"
definition dec_u32 :: "byte list \<Rightarrow> int" where "dec_u32 = le_int"
definition enc_size :: "int \<Rightarrow> byte list" where "enc_size = le_bytes 8"
definition dec_size :: "byte list \<Rightarrow> int" where "dec_size = le_int"
definition enc_off :: "int \<Rightarrow> byte list" where "enc_off = le_bytes 8"
definition dec_off :: "byte list \<Rightarrow> int" where "dec_off bs = s64 (le_int bs)"

definition byte_of_char :: "char \<Rightarrow> byte" where
  "byte_of_char c = word_of_int (of_char c)"

definition char_of_byte :: "byte \<Rightarrow> char" where
  "char_of_byte b = char_of (uint b)"

text \<open>\<^verbatim>\<open>c_str()\<close> and the reading of a C string.\<close>

definition c_str :: "string \<Rightarrow> byte list" where
  "c_str s = map byte_of_char s @ [0]"

definition string_of_c_str :: "byte list \<Rightarrow> string" where
  "string_of_c_str bs = map char_of_byte (takeWhile (\<lambda>b. b \<noteq> 0) bs)"

lemma length_le_bytes [simp]: "length (le_bytes n x) = n"
  by (induction n arbitrary: x) auto

lemma le_int_le_bytes: "le_int (le_bytes n x) = x mod 256 ^ n"
proof (induction n arbitrary: x)
  case (Suc n)
  have "uint (word_of_int x :: byte) = x mod 256" by (simp add: uint_word_of_int)
  then show ?case by (simp add: Suc zmod_zmult2_eq)
qed simp

lemma byte_of_char_zero [simp]: "byte_of_char c = 0 \<longleftrightarrow> c = CHR 0x00"
proof
  assume "byte_of_char c = 0"
  then have "uint (word_of_int (of_char c) :: byte) = 0" by (simp add: byte_of_char_def)
  then have "(of_char c :: int) mod 256 = 0" by (simp add: uint_word_of_int)
  then have "(of_char c :: int) = of_char (CHR 0x00)" by simp
  then show "c = CHR 0x00" by (simp only: of_char_eq_iff)
qed (simp add: byte_of_char_def)

lemma char_of_byte_of_char [simp]: "char_of_byte (byte_of_char c) = c"
proof -
  have "uint (word_of_int (of_char c) :: byte) = (of_char c :: int) mod 256"
    by (simp add: uint_word_of_int)
  then show ?thesis by (simp add: char_of_byte_def byte_of_char_def)
qed

lemma length_c_str [simp]: "length (c_str s) = length s + 1"
  by (simp add: c_str_def)

lemma string_of_c_str [simp]:
  "CHR 0x00 \<notin> set s \<Longrightarrow> string_of_c_str (c_str s) = s"
proof -
  assume "CHR 0x00 \<notin> set s"
  then have "takeWhile (\<lambda>b. b \<noteq> 0) (c_str s) = map byte_of_char s"
    by (induction s) (auto simp: c_str_def)
  then show ?thesis by (simp add: string_of_c_str_def comp_def)
qed

section \<open>Reading and writing ranges of a buffer\<close>

definition put_bytes :: "nat \<Rightarrow> byte list \<Rightarrow> (nat \<Rightarrow> byte) \<Rightarrow> nat \<Rightarrow> byte" where
  "put_bytes off bs f = (\<lambda>i. if off \<le> i \<and> i < off + length bs then bs ! (i - off) else f i)"

definition get_bytes :: "nat \<Rightarrow> nat \<Rightarrow> (nat \<Rightarrow> byte) \<Rightarrow> byte list" where
  "get_bytes off n f = map f [off ..< off + n]"

lemma length_get_bytes [simp]: "length (get_bytes off n f) = n"
  by (simp add: get_bytes_def)

lemma get_put_same [simp]: "n = length bs \<Longrightarrow> get_bytes off n (put_bytes off bs f) = bs"
  by (rule nth_equalityI) (auto simp: get_bytes_def put_bytes_def)

lemma get_put_other:
  "off + n \<le> off' \<or> off' + length bs \<le> off \<Longrightarrow>
     get_bytes off n (put_bytes off' bs f) = get_bytes off n f"
  by (auto simp: get_bytes_def put_bytes_def)

lemma put_bytes_append:
  "put_bytes (off + length bs) cs (put_bytes off bs f) = put_bytes off (bs @ cs) f"
  by (auto simp: put_bytes_def fun_eq_iff nth_append)

lemma get_bytes_split: "get_bytes off (m + n) f = get_bytes off m f @ get_bytes (off + m) n f"
proof -
  have "[off..<off + (m + n)] = [off..<off + m] @ [off + m..<off + m + n]"
    using upt_add_eq_append [of off "off + m" n] by (simp add: add.assoc)
  then show ?thesis by (simp add: get_bytes_def)
qed

section \<open>The task\<close>

datatype buf_ref = Prealloc | Mem nat

text \<open>
  \<open>extended_buffer\<close> is the 5,000,000-byte area inside the task; a send buffer element refers
  to it or to caller memory. The receive buffer is allocated once and kept; \<open>recv_ptr\<close> is
  \<^verbatim>\<open>current_receive_buffer_ptr\<close> as an offset, None when null.
\<close>

record send_buffer_element =
  sb_buffer :: buf_ref
  sb_size :: size_t
  sb_context :: "nat option"

record io_task =
  task_id :: c_int
  new_connection :: bool
  task_uri :: "string option"
  task_port :: c_int
  message_buffer :: "nat \<Rightarrow> byte"
  task_error :: c_int
  current_point :: nat
  task_mode :: c_int
  send_buffer :: "send_buffer_element list"
  receive_buffer :: "(nat \<Rightarrow> byte) option"
  recv_ptr :: "nat option"
  extended_buffer :: "nat \<Rightarrow> byte"

abbreviation "MAX_BASIC_MESSAGE_SIZE \<equiv> 4000 :: nat"
abbreviation "MAX_EXTENDED_MESSAGE_SIZE \<equiv> 5000000 :: nat"
abbreviation "MAX_TRANSFER_SIZE \<equiv> 1048576 :: nat"
abbreviation "MESSAGE_META_OFF \<equiv> 24 :: nat"

definition get_receiver_id :: "io_task \<Rightarrow> c_int" where
  "get_receiver_id t = dec_int (get_bytes 0 4 (message_buffer t))"

definition set_receiver_id :: "c_int \<Rightarrow> io_task \<Rightarrow> io_task" where
  "set_receiver_id i t = t\<lparr>message_buffer := put_bytes 0 (enc_int i) (message_buffer t)\<rparr>"

definition get_sender_id :: "io_task \<Rightarrow> c_int" where
  "get_sender_id t = dec_int (get_bytes 4 4 (message_buffer t))"

definition set_sender_id :: "c_int \<Rightarrow> io_task \<Rightarrow> io_task" where
  "set_sender_id i t = t\<lparr>message_buffer := put_bytes 4 (enc_int i) (message_buffer t)\<rparr>"

definition get_message_size :: "io_task \<Rightarrow> size_t" where
  "get_message_size t = dec_size (get_bytes 8 8 (message_buffer t))"

definition set_message_size :: "size_t \<Rightarrow> io_task \<Rightarrow> io_task" where
  "set_message_size n t = t\<lparr>message_buffer := put_bytes 8 (enc_size n) (message_buffer t)\<rparr>"

definition get_total_message_size :: "io_task \<Rightarrow> size_t" where
  "get_total_message_size t = u64 (get_message_size t + int MESSAGE_META_OFF)"

definition get_extended_data_size :: "io_task \<Rightarrow> size_t" where
  "get_extended_data_size t = dec_size (get_bytes 16 8 (message_buffer t))"

definition set_extended_data_size :: "size_t \<Rightarrow> io_task \<Rightarrow> io_task" where
  "set_extended_data_size n t = t\<lparr>message_buffer := put_bytes 16 (enc_size n) (message_buffer t)\<rparr>"

text \<open>The constructor; \<open>RMA_READ\<close> is 0. The uri and port are left unset by it.\<close>

definition extended_IO_task :: "c_int \<Rightarrow> io_task" where
  "extended_IO_task i =
     set_sender_id i (set_message_size 0
       \<lparr>task_id = i, new_connection = False, task_uri = None, task_port = 0,
        message_buffer = (\<lambda>_. 0), task_error = 0, current_point = 0, task_mode = 0,
        send_buffer = [], receive_buffer = None, recv_ptr = None, extended_buffer = (\<lambda>_. 0)\<rparr>)"

definition io_task_set_id :: "c_int \<Rightarrow> io_task \<Rightarrow> io_task" where
  "io_task_set_id i t = set_sender_id i (t\<lparr>task_id := i\<rparr>)"

definition setup_new_connection :: "string \<Rightarrow> c_int \<Rightarrow> io_task \<Rightarrow> io_task" where
  "setup_new_connection uri port t =
     t\<lparr>new_connection := True, task_uri := Some uri, task_port := port\<rparr>"

definition clear_new_conection :: "io_task \<Rightarrow> io_task" where
  "clear_new_conection t = t\<lparr>new_connection := False\<rparr>"

definition clear_addr :: "io_task \<Rightarrow> io_task" where
  "clear_addr t = t\<lparr>task_uri := None, task_port := -1\<rparr>"

definition clear_send_recv_buffer :: "io_task \<Rightarrow> io_task" where
  "clear_send_recv_buffer t = t\<lparr>send_buffer := []\<rparr>"

definition basic_reset :: "io_task \<Rightarrow> io_task" where
  "basic_reset t = (clear_new_conection (set_message_size 0 t))\<lparr>current_point := 0, task_error := 0\<rparr>"

definition io_task_reset :: "io_task \<Rightarrow> io_task" where
  "io_task_reset t =
     (let t1 = set_extended_data_size 0 (basic_reset t);
          t2 = t1\<lparr>send_buffer := [], recv_ptr := (case receive_buffer t1 of None \<Rightarrow> None | Some _ \<Rightarrow> Some 0)\<rparr>
      in clear_send_recv_buffer t2)"

definition swap_sender_receiver :: "io_task \<Rightarrow> io_task" where
  "swap_sender_receiver t = set_sender_id (task_id t) (set_receiver_id (get_sender_id t) t)"

definition has_error :: "io_task \<Rightarrow> bool" where
  "has_error t \<longleftrightarrow> task_error t \<noteq> 0"

text \<open>\<^verbatim>\<open>do_push\<close> writes at the current message size, which it reads from the header.\<close>

definition do_push :: "byte list \<Rightarrow> io_task \<Rightarrow> io_task option" where
  "do_push bs t =
     (let off = MESSAGE_META_OFF + nat (get_message_size t) in
      if off + length bs \<le> MAX_BASIC_MESSAGE_SIZE then
        Some (set_message_size (u64 (get_message_size t + int (length bs)))
                (t\<lparr>message_buffer := put_bytes off bs (message_buffer t)\<rparr>))
      else None)"

text \<open>\<^verbatim>\<open>do_pop\<close> reads at the current point, whatever the message size is.\<close>

definition do_pop :: "nat \<Rightarrow> io_task \<Rightarrow> (byte list \<times> io_task) option" where
  "do_pop n t =
     (let off = MESSAGE_META_OFF + current_point t in
      if off + n \<le> MAX_BASIC_MESSAGE_SIZE then
        Some (get_bytes off n (message_buffer t), t\<lparr>current_point := current_point t + n\<rparr>)
      else None)"

definition push_int :: "int \<Rightarrow> io_task \<Rightarrow> io_task option" where
  "push_int v = do_push (enc_int v)"
definition push_u32 :: "int \<Rightarrow> io_task \<Rightarrow> io_task option" where
  "push_u32 v = do_push (enc_u32 v)"
definition push_size :: "int \<Rightarrow> io_task \<Rightarrow> io_task option" where
  "push_size v = do_push (enc_size v)"
definition push_off :: "int \<Rightarrow> io_task \<Rightarrow> io_task option" where
  "push_off v = do_push (enc_off v)"

definition pop_val :: "nat \<Rightarrow> (byte list \<Rightarrow> 'v) \<Rightarrow> io_task \<Rightarrow> ('v \<times> io_task) option" where
  "pop_val w dec t = map_option (\<lambda>(bs, t'). (dec bs, t')) (do_pop w t)"

definition pop_int :: "io_task \<Rightarrow> (int \<times> io_task) option" where
  "pop_int = pop_val 4 dec_int"
definition pop_u32 :: "io_task \<Rightarrow> (int \<times> io_task) option" where
  "pop_u32 = pop_val 4 dec_u32"
definition pop_size :: "io_task \<Rightarrow> (int \<times> io_task) option" where
  "pop_size = pop_val 8 dec_size"
definition pop_off :: "io_task \<Rightarrow> (int \<times> io_task) option" where
  "pop_off = pop_val 8 dec_off"

definition push_back_string :: "string \<Rightarrow> io_task \<Rightarrow> io_task option" where
  "push_back_string s t =
     Option.bind (push_size (int (length s) + 1) t) (do_push (c_str s))"

definition pop_string :: "io_task \<Rightarrow> (string \<times> io_task) option" where
  "pop_string t =
     Option.bind (pop_size t) (\<lambda>(len, t1).
       map_option (\<lambda>(bs, t2). (string_of_c_str bs, t2)) (do_pop (nat len) t1))"

text \<open>Extended data: buffers to send, the preallocated area, and received data (TCP build).\<close>

definition push_send_buffer :: "buf_ref \<Rightarrow> size_t \<Rightarrow> nat option \<Rightarrow> io_task \<Rightarrow> io_task" where
  "push_send_buffer buf sz context t =
     (let t1 = t\<lparr>send_buffer := send_buffer t @ [\<lparr>sb_buffer = buf, sb_size = sz, sb_context = context\<rparr>]\<rparr>
      in set_extended_data_size (u64 (get_extended_data_size t1 + sz)) t1)"

definition do_push_prealloc :: "byte list \<Rightarrow> io_task \<Rightarrow> io_task option" where
  "do_push_prealloc bs t =
     (let off = nat (get_extended_data_size t) in
      if off + length bs \<le> MAX_EXTENDED_MESSAGE_SIZE then
        Some (set_extended_data_size (u64 (get_extended_data_size t + int (length bs)))
                (t\<lparr>extended_buffer := put_bytes off bs (extended_buffer t)\<rparr>))
      else None)"

definition push_string_prealloc :: "string \<Rightarrow> io_task \<Rightarrow> io_task option" where
  "push_string_prealloc s t =
     Option.bind (do_push_prealloc (enc_size (int (length s) + 1)) t) (do_push_prealloc (c_str s))"

definition setup_prealloc_buffer :: "io_task \<Rightarrow> io_task" where
  "setup_prealloc_buffer t =
     (let t1 = push_send_buffer Prealloc (get_extended_data_size t) None t
      in set_extended_data_size (get_extended_data_size t1 div 2) t1)"

text \<open>The allocated bytes are indeterminate in the code; they are written before they are read.\<close>

definition get_receive_buffer :: "io_task \<Rightarrow> io_task" where
  "get_receive_buffer t =
     (let t1 = (case receive_buffer t of None \<Rightarrow> t\<lparr>receive_buffer := Some (\<lambda>_. 0)\<rparr> | Some _ \<Rightarrow> t)
      in t1\<lparr>recv_ptr := Some 0\<rparr>)"

definition get_received_data :: "nat \<Rightarrow> io_task \<Rightarrow> (byte list \<times> io_task) option" where
  "get_received_data n t =
     (case (receive_buffer t, recv_ptr t) of
        (Some b, Some p) \<Rightarrow>
          if p + n \<le> MAX_TRANSFER_SIZE then
            Some (get_bytes p n b,
                  set_extended_data_size (u64 (get_extended_data_size t - int n))
                    (t\<lparr>recv_ptr := Some (p + n)\<rparr>))
          else None
      | _ \<Rightarrow> None)"

text \<open>The bytes copied out and the size returned.\<close>

definition get_received_data_all :: "io_task \<Rightarrow> (byte list \<times> size_t \<times> io_task) option" where
  "get_received_data_all t =
     (case (recv_ptr t, receive_buffer t) of
        (Some p, Some b) \<Rightarrow>
          if p + nat (get_extended_data_size t) \<le> MAX_TRANSFER_SIZE then
            Some (get_bytes p (nat (get_extended_data_size t)) b, get_extended_data_size t,
                  set_extended_data_size 0 t)
          else None
      | _ \<Rightarrow> Some ([], get_extended_data_size t, t))"

text \<open>\<^verbatim>\<open>string_buf\<close>, the buffer a client reads a directory listing from.\<close>

record string_buf =
  str_bytes :: "nat \<Rightarrow> byte"
  str_total :: nat
  str_cur :: nat

definition string_buf_pop :: "nat \<Rightarrow> string_buf \<Rightarrow> (byte list \<times> string_buf) option" where
  "string_buf_pop n b =
     (if str_cur b + n \<le> str_total b
      then Some (get_bytes (str_cur b) n (str_bytes b), b\<lparr>str_cur := str_cur b + n\<rparr>)
      else None)"

definition string_buf_pop_string :: "string_buf \<Rightarrow> (string \<times> string_buf) option" where
  "string_buf_pop_string b =
     Option.bind (string_buf_pop 8 b) (\<lambda>(n, b1).
       map_option (\<lambda>(bs, b2). (string_of_c_str bs, b2)) (string_buf_pop (nat (dec_size n)) b1))"

section \<open>Transport\<close>

text \<open>
  The bytes \<^verbatim>\<open>send\<close> writes to the socket. \<open>mem a\<close> is the caller memory a send buffer element
  points to. None: the message is longer than the buffer it is read from.
\<close>

definition sb_data :: "(nat \<Rightarrow> nat \<Rightarrow> byte) \<Rightarrow> io_task \<Rightarrow> send_buffer_element \<Rightarrow> byte list" where
  "sb_data mem t e =
     (case sb_buffer e of
        Prealloc \<Rightarrow> get_bytes 0 (nat (sb_size e)) (extended_buffer t)
      | Mem a \<Rightarrow> get_bytes 0 (nat (sb_size e)) (mem a))"

definition send_message :: "(nat \<Rightarrow> nat \<Rightarrow> byte) \<Rightarrow> io_task \<Rightarrow> byte list option" where
  "send_message mem t =
     (let n = nat (get_message_size t) + MESSAGE_META_OFF in
      if n \<le> MAX_BASIC_MESSAGE_SIZE then
        (if get_extended_data_size t \<noteq> 0
         then Some (get_bytes 0 n (message_buffer t) @ concat (map (sb_data mem t) (send_buffer t)))
         else Some (get_bytes 0 n (message_buffer t)))
      else None)"

datatype recv_error = Socket_closed | Buffer_overflow

text \<open>
  Reading from a stream of which \<open>w\<close> is all that will ever arrive: \<^verbatim>\<open>do_recv\<close> returns what it
  got and throws only when it got nothing.
\<close>

definition recv_bytes :: "nat \<Rightarrow> byte list \<Rightarrow> recv_error + (byte list \<times> byte list)" where
  "recv_bytes n w =
     (if n = 0 then Inr ([], w) else if w = [] then Inl Socket_closed else Inr (take n w, drop n w))"

definition receive_message :: "byte list \<Rightarrow> io_task \<Rightarrow> recv_error + (io_task \<times> byte list)" where
  "receive_message w t =
     (case recv_bytes 20 w of
        Inl e \<Rightarrow> Inl e
      | Inr (hdr, w1) \<Rightarrow>
          (let t1 = swap_sender_receiver (t\<lparr>message_buffer := put_bytes 4 hdr (message_buffer t)\<rparr>);
               n = nat (get_message_size t1)
           in if MESSAGE_META_OFF + n > MAX_BASIC_MESSAGE_SIZE then Inl Buffer_overflow
              else case recv_bytes n w1 of
                Inl e \<Rightarrow> Inl e
              | Inr (body, w2) \<Rightarrow>
                  (let t2 = t1\<lparr>message_buffer := put_bytes MESSAGE_META_OFF body (message_buffer t1)\<rparr>;
                       m = nat (get_extended_data_size t2)
                   in if m = 0 then Inr (t2, w2)
                      else if m > MAX_TRANSFER_SIZE then Inl Buffer_overflow
                      else case recv_bytes m w2 of
                        Inl e \<Rightarrow> Inl e
                      | Inr (d, w3) \<Rightarrow>
                          (let t3 = get_receive_buffer t2
                           in Inr (t3\<lparr>receive_buffer := map_option (put_bytes 0 d) (receive_buffer t3)\<rparr>,
                                   w3)))))"

text \<open>
  The message part of \<^verbatim>\<open>Server::input_from_network\<close>: the receiving queue's number comes
  first, then the message goes into the node \<open>t\<close> allocated from that queue.
\<close>

definition input_from_network :: "byte list \<Rightarrow> io_task \<Rightarrow> recv_error + (c_int \<times> io_task \<times> byte list)" where
  "input_from_network w t =
     (case recv_bytes 4 w of
        Inl e \<Rightarrow> Inl e
      | Inr (i, w1) \<Rightarrow>
          (let to_id = dec_int i in
           case receive_message w1 (set_receiver_id to_id t) of
             Inl e \<Rightarrow> Inl e
           | Inr (t', w') \<Rightarrow> Inr (to_id, t', w')))"

section \<open>The message as a byte stream\<close>

text \<open>
  \<open>pending t\<close> is what the pops still have to read of the message; \<open>msg_inv\<close> says the read
  position is inside the message and the message inside the buffer.
\<close>

definition msg_inv :: "io_task \<Rightarrow> bool" where
  "msg_inv t \<longleftrightarrow> int (current_point t) \<le> get_message_size t \<and>
     get_message_size t \<le> int (MAX_BASIC_MESSAGE_SIZE - MESSAGE_META_OFF)"

definition pending :: "io_task \<Rightarrow> byte list" where
  "pending t = get_bytes (MESSAGE_META_OFF + current_point t)
                 (nat (get_message_size t) - current_point t) (message_buffer t)"

lemma enc_lengths [simp]:
  "length (enc_int v) = 4" "length (enc_u32 v) = 4" "length (enc_size v) = 8" "length (enc_off v) = 8"
  by (simp_all add: enc_int_def enc_u32_def enc_size_def enc_off_def)

lemma enc_dec_size: "0 \<le> v \<Longrightarrow> v < 18446744073709551616 \<Longrightarrow> dec_size (enc_size v) = v"
  by (simp add: dec_size_def enc_size_def le_int_le_bytes)

lemma enc_dec_u32: "0 \<le> v \<Longrightarrow> v < 4294967296 \<Longrightarrow> dec_u32 (enc_u32 v) = v"
  by (simp add: dec_u32_def enc_u32_def le_int_le_bytes)

lemma enc_dec_int: "- 2147483648 \<le> v \<Longrightarrow> v < 2147483648 \<Longrightarrow> dec_int (enc_int v) = v"
  by (simp add: dec_int_def enc_int_def le_int_le_bytes s32_def mod_simps)

lemma enc_dec_off:
  "- 9223372036854775808 \<le> v \<Longrightarrow> v < 9223372036854775808 \<Longrightarrow> dec_off (enc_off v) = v"
  by (simp add: dec_off_def enc_off_def le_int_le_bytes s64_def mod_simps)

lemma do_push_ok:
  assumes inv: "msg_inv t"
    and fit: "nat (get_message_size t) + length bs \<le> MAX_BASIC_MESSAGE_SIZE - MESSAGE_META_OFF"
  shows "\<exists>t'. do_push bs t = Some t' \<and> msg_inv t' \<and> pending t' = pending t @ bs \<and>
           get_message_size t' = get_message_size t + int (length bs) \<and>
           get_receiver_id t' = get_receiver_id t \<and> get_sender_id t' = get_sender_id t \<and>
           get_extended_data_size t' = get_extended_data_size t \<and>
           t'\<lparr>message_buffer := message_buffer t\<rparr> = t"
proof -
  let ?m = "get_message_size t" and ?cp = "current_point t"
  let ?f = "put_bytes (24 + nat ?m) bs (message_buffer t)"
  let ?t' = "set_message_size (?m + int (length bs)) (t\<lparr>message_buffer := ?f\<rparr>)"
  have m: "0 \<le> ?m" "?cp \<le> nat ?m" "u64 (?m + int (length bs)) = ?m + int (length bs)"
    "?m + int (length bs) < 18446744073709551616"
    using inv fit by (auto simp: msg_inv_def intro!: u64_id)
  have push: "do_push bs t = Some ?t'" using fit m by (simp add: do_push_def)
  have size: "get_message_size ?t' = ?m + int (length bs)"
    using m by (simp add: get_message_size_def set_message_size_def enc_dec_size)
  have "pending ?t' = get_bytes (24 + ?cp) ((nat ?m - ?cp) + length bs) ?f"
    using m(1,2) unfolding pending_def size
    by (simp add: set_message_size_def get_put_other nat_add_distrib)
  also have "\<dots> = pending t @ bs"
    unfolding get_bytes_split using m(2) by (simp add: get_put_other pending_def)
  finally have "pending ?t' = pending t @ bs" .
  moreover have "get_receiver_id ?t' = get_receiver_id t" "get_sender_id ?t' = get_sender_id t"
    "get_extended_data_size ?t' = get_extended_data_size t"
    by (simp_all add: get_receiver_id_def get_sender_id_def get_extended_data_size_def
        set_message_size_def get_put_other)
  moreover have "msg_inv ?t'"
    using inv fit m unfolding msg_inv_def size by (auto simp: set_message_size_def)
  ultimately show ?thesis using push size by (auto simp: set_message_size_def)
qed

lemma do_pop_ok:
  assumes inv: "msg_inv t" and p: "pending t = bs @ rest"
  shows "\<exists>t'. do_pop (length bs) t = Some (bs, t') \<and> msg_inv t' \<and> pending t' = rest \<and>
           t' = t\<lparr>current_point := current_point t + length bs\<rparr>"
proof -
  let ?m = "nat (get_message_size t)" and ?cp = "current_point t"
  have len: "?m - ?cp = length bs + length rest"
    using arg_cong [OF p, of length] by (simp add: pending_def)
  have le: "?cp + length bs + length rest = ?m" "?m \<le> 3976" "0 \<le> get_message_size t"
    using inv len by (auto simp: msg_inv_def)
  have "get_bytes (24 + ?cp) (length bs) (message_buffer t) @
      get_bytes (24 + ?cp + length bs) (length rest) (message_buffer t) = bs @ rest"
    using p unfolding pending_def len by (simp add: get_bytes_split)
  then have "get_bytes (24 + ?cp) (length bs) (message_buffer t) = bs"
    "get_bytes (24 + ?cp + length bs) (length rest) (message_buffer t) = rest"
    by (simp_all add: append_eq_append_conv)
  moreover have "nat (get_message_size t) - (?cp + length bs) = length rest" using le by simp
  ultimately show ?thesis
    using le inv
    by (auto simp: do_pop_def pending_def msg_inv_def get_message_size_def add.assoc)
qed

section \<open>Fixed-width values\<close>

text \<open>
  What a value type must promise so that pushing and popping it is the identity: a width
  and a decoder that inverts the encoder on the values of the type.
\<close>

locale serializer =
  fixes enc :: "'v \<Rightarrow> byte list"
    and dec :: "byte list \<Rightarrow> 'v"
    and width :: nat
    and valid :: "'v \<Rightarrow> bool"
  assumes enc_width: "length (enc v) = width"
    and dec_enc: "valid v \<Longrightarrow> dec (enc v) = v"
begin

lemma pop_pending:
  assumes "msg_inv t" "pending t = enc v @ rest" "valid v"
  shows "\<exists>t'. pop_val width dec t = Some (v, t') \<and> msg_inv t' \<and> pending t' = rest \<and>
           t' = t\<lparr>current_point := current_point t + width\<rparr>"
  using do_pop_ok [OF assms(1,2)] dec_enc [OF assms(3)] by (auto simp: pop_val_def enc_width)

lemma push_pop:
  assumes "msg_inv t" "pending t = []" "valid v"
    "nat (get_message_size t) + width \<le> MAX_BASIC_MESSAGE_SIZE - MESSAGE_META_OFF"
  shows "\<exists>t1 t2. do_push (enc v) t = Some t1 \<and> pop_val width dec t1 = Some (v, t2) \<and> pending t2 = []"
  using do_push_ok [of t "enc v"] assms pop_pending [of _ v "[]"] enc_width by fastforce

end

definition int_ok :: "int \<Rightarrow> bool" where
  "int_ok v \<longleftrightarrow> - 2147483648 \<le> v \<and> v < 2147483648"
definition u32_ok :: "int \<Rightarrow> bool" where
  "u32_ok v \<longleftrightarrow> 0 \<le> v \<and> v < 4294967296"
definition size_ok :: "int \<Rightarrow> bool" where
  "size_ok v \<longleftrightarrow> 0 \<le> v \<and> v < 18446744073709551616"
definition off_ok :: "int \<Rightarrow> bool" where
  "off_ok v \<longleftrightarrow> - 9223372036854775808 \<le> v \<and> v < 9223372036854775808"

interpretation int32: serializer enc_int dec_int 4 int_ok
  by unfold_locales (auto simp: int_ok_def enc_dec_int)

interpretation uint32: serializer enc_u32 dec_u32 4 u32_ok
  by unfold_locales (auto simp: u32_ok_def enc_dec_u32)

interpretation sizet: serializer enc_size dec_size 8 size_ok
  by unfold_locales (auto simp: size_ok_def enc_dec_size)

interpretation offt: serializer enc_off dec_off 8 off_ok
  by unfold_locales (auto simp: off_ok_def enc_dec_off)

section \<open>Field lists\<close>

datatype field = F_int int | F_u32 int | F_size int | F_off int | F_str string
datatype ftype = T_int | T_u32 | T_size | T_off | T_str

fun ftype_of :: "field \<Rightarrow> ftype" where
  "ftype_of (F_int _) = T_int"
| "ftype_of (F_u32 _) = T_u32"
| "ftype_of (F_size _) = T_size"
| "ftype_of (F_off _) = T_off"
| "ftype_of (F_str _) = T_str"

fun field_bytes :: "field \<Rightarrow> byte list" where
  "field_bytes (F_int v) = enc_int v"
| "field_bytes (F_u32 v) = enc_u32 v"
| "field_bytes (F_size v) = enc_size v"
| "field_bytes (F_off v) = enc_off v"
| "field_bytes (F_str s) = enc_size (int (length s) + 1) @ c_str s"

fun field_ok :: "field \<Rightarrow> bool" where
  "field_ok (F_int v) = int_ok v"
| "field_ok (F_u32 v) = u32_ok v"
| "field_ok (F_size v) = size_ok v"
| "field_ok (F_off v) = off_ok v"
| "field_ok (F_str s) = (CHR 0x00 \<notin> set s)"

fun push_field :: "field \<Rightarrow> io_task \<Rightarrow> io_task option" where
  "push_field (F_int v) = push_int v"
| "push_field (F_u32 v) = push_u32 v"
| "push_field (F_size v) = push_size v"
| "push_field (F_off v) = push_off v"
| "push_field (F_str s) = push_back_string s"

fun pop_field :: "ftype \<Rightarrow> io_task \<Rightarrow> (field \<times> io_task) option" where
  "pop_field T_int t = map_option (map_prod F_int id) (pop_int t)"
| "pop_field T_u32 t = map_option (map_prod F_u32 id) (pop_u32 t)"
| "pop_field T_size t = map_option (map_prod F_size id) (pop_size t)"
| "pop_field T_off t = map_option (map_prod F_off id) (pop_off t)"
| "pop_field T_str t = map_option (map_prod F_str id) (pop_string t)"

fun push_fields :: "field list \<Rightarrow> io_task \<Rightarrow> io_task option" where
  "push_fields [] t = Some t"
| "push_fields (f # fs) t = Option.bind (push_field f t) (push_fields fs)"

fun pop_fields :: "ftype list \<Rightarrow> io_task \<Rightarrow> (field list \<times> io_task) option" where
  "pop_fields [] t = Some ([], t)"
| "pop_fields (ty # tys) t =
     Option.bind (pop_field ty t) (\<lambda>(f, t1).
       map_option (\<lambda>(fs, t2). (f # fs, t2)) (pop_fields tys t1))"

abbreviation fields_bytes :: "field list \<Rightarrow> byte list" where
  "fields_bytes fs \<equiv> concat (map field_bytes fs)"

lemma push_field_ok:
  assumes "msg_inv t" "field_ok f"
    "nat (get_message_size t) + length (field_bytes f) \<le> MAX_BASIC_MESSAGE_SIZE - MESSAGE_META_OFF"
  shows "\<exists>t'. push_field f t = Some t' \<and> msg_inv t' \<and> pending t' = pending t @ field_bytes f \<and>
           get_message_size t' = get_message_size t + int (length (field_bytes f)) \<and>
           get_receiver_id t' = get_receiver_id t \<and> get_sender_id t' = get_sender_id t \<and>
           get_extended_data_size t' = get_extended_data_size t \<and>
           t'\<lparr>message_buffer := message_buffer t\<rparr> = t"
proof (cases f)
  case (F_str s)
  let ?n = "enc_size (int (length s) + 1)"
  have fit: "nat (get_message_size t) + length ?n \<le> MAX_BASIC_MESSAGE_SIZE - MESSAGE_META_OFF"
    using assms(3) F_str by simp
  from do_push_ok [OF assms(1) fit] obtain t1 where
    t1: "do_push ?n t = Some t1" "msg_inv t1" "pending t1 = pending t @ ?n"
      "get_message_size t1 = get_message_size t + 8"
      "get_receiver_id t1 = get_receiver_id t" "get_sender_id t1 = get_sender_id t"
      "get_extended_data_size t1 = get_extended_data_size t"
      "t1\<lparr>message_buffer := message_buffer t\<rparr> = t" by auto
  have m: "0 \<le> get_message_size t" using assms(1) by (simp add: msg_inv_def)
  have "nat (get_message_size t1) + length (c_str s) \<le> MAX_BASIC_MESSAGE_SIZE - MESSAGE_META_OFF"
    using assms(3) F_str t1(4) m by (simp add: nat_add_distrib)
  from do_push_ok [OF t1(2) this] obtain t2 where
    t2: "do_push (c_str s) t1 = Some t2" "msg_inv t2" "pending t2 = pending t1 @ c_str s"
      "get_message_size t2 = get_message_size t1 + int (length (c_str s))"
      "get_receiver_id t2 = get_receiver_id t1" "get_sender_id t2 = get_sender_id t1"
      "get_extended_data_size t2 = get_extended_data_size t1"
      "t2\<lparr>message_buffer := message_buffer t1\<rparr> = t1" by auto
  have "t2\<lparr>message_buffer := message_buffer t\<rparr> = t"
    using arg_cong [OF t2(8), of "\<lambda>u. u\<lparr>message_buffer := message_buffer t\<rparr>"] t1(8) by simp
  then show ?thesis
    using F_str t1 t2 by (auto simp: push_back_string_def push_size_def)
qed (use do_push_ok [OF assms(1,3)] in
      \<open>auto simp: push_int_def push_u32_def push_size_def push_off_def\<close>)

lemma pop_string_ok:
  assumes inv: "msg_inv t" and nul: "CHR 0x00 \<notin> set s"
    and p: "pending t = field_bytes (F_str s) @ rest"
  shows "\<exists>t'. pop_string t = Some (s, t') \<and> msg_inv t' \<and> pending t' = rest \<and>
           t' = t\<lparr>current_point := current_point t + length (field_bytes (F_str s))\<rparr>"
proof -
  have len: "length (pending t) \<le> 3976"
    using inv by (auto simp: pending_def msg_inv_def)
  then have "size_ok (int (length s) + 1)" using p by (simp add: size_ok_def)
  from sizet.pop_pending [OF inv _ this, of "c_str s @ rest"] p obtain t1 where
    t1: "pop_val 8 dec_size t = Some (int (length s) + 1, t1)" "msg_inv t1"
      "pending t1 = c_str s @ rest" "t1 = t\<lparr>current_point := current_point t + 8\<rparr>" by auto
  from do_pop_ok [OF t1(2,3)] obtain t2 where
    "do_pop (length s + 1) t1 = Some (c_str s, t2)" "msg_inv t2" "pending t2 = rest"
    "t2 = t1\<lparr>current_point := current_point t1 + (length s + 1)\<rparr>" by auto
  moreover have "nat (int (length s) + 1) = length s + 1" by simp
  ultimately show ?thesis using t1 nul by (simp add: pop_string_def pop_size_def)
qed

lemma pop_field_ok:
  assumes "msg_inv t" "field_ok f" "pending t = field_bytes f @ rest"
  shows "\<exists>t'. pop_field (ftype_of f) t = Some (f, t') \<and> msg_inv t' \<and> pending t' = rest \<and>
           t' = t\<lparr>current_point := current_point t + length (field_bytes f)\<rparr>"
proof (cases f)
  case (F_str s)
  then show ?thesis using pop_string_ok [of t s rest] assms by auto
qed (use assms int32.pop_pending [of t _ rest] uint32.pop_pending [of t _ rest]
      sizet.pop_pending [of t _ rest] offt.pop_pending [of t _ rest] in
    \<open>fastforce simp: pop_int_def pop_u32_def pop_size_def pop_off_def\<close>)+

lemma push_fields_ok:
  assumes "msg_inv t" "list_all field_ok fs"
    "nat (get_message_size t) + length (fields_bytes fs) \<le> MAX_BASIC_MESSAGE_SIZE - MESSAGE_META_OFF"
  shows "\<exists>t'. push_fields fs t = Some t' \<and> msg_inv t' \<and> pending t' = pending t @ fields_bytes fs \<and>
           get_receiver_id t' = get_receiver_id t \<and> get_sender_id t' = get_sender_id t \<and>
           get_extended_data_size t' = get_extended_data_size t \<and>
           t'\<lparr>message_buffer := message_buffer t\<rparr> = t"
  using assms
proof (induction fs arbitrary: t)
  case Nil
  then show ?case by simp
next
  case (Cons f fs)
  have m: "0 \<le> get_message_size t" using Cons.prems(1) by (simp add: msg_inv_def)
  from push_field_ok [of t f] Cons.prems obtain t1 where
    t1: "push_field f t = Some t1" "msg_inv t1" "pending t1 = pending t @ field_bytes f"
      "get_message_size t1 = get_message_size t + int (length (field_bytes f))"
      "get_receiver_id t1 = get_receiver_id t" "get_sender_id t1 = get_sender_id t"
      "get_extended_data_size t1 = get_extended_data_size t"
      "t1\<lparr>message_buffer := message_buffer t\<rparr> = t"
    by auto
  have "nat (get_message_size t1) + length (fields_bytes fs) \<le> MAX_BASIC_MESSAGE_SIZE - MESSAGE_META_OFF"
    using Cons.prems(3) t1(4) m by (simp add: nat_add_distrib)
  from Cons.IH [OF t1(2) _ this] Cons.prems(2) obtain t2 where
    t2: "push_fields fs t1 = Some t2" "msg_inv t2" "pending t2 = pending t1 @ fields_bytes fs"
      "get_receiver_id t2 = get_receiver_id t1" "get_sender_id t2 = get_sender_id t1"
      "get_extended_data_size t2 = get_extended_data_size t1"
      "t2\<lparr>message_buffer := message_buffer t1\<rparr> = t1" by auto
  have "t2\<lparr>message_buffer := message_buffer t\<rparr> = t"
    using arg_cong [OF t2(7), of "\<lambda>u. u\<lparr>message_buffer := message_buffer t\<rparr>"] t1(8) by simp
  then show ?case using t1 t2 by auto
qed

text \<open>
  The values of a message fit when their bytes do: pushing them into an empty task is
  defined exactly then. Nothing in the code checks it.
\<close>

definition msg_fits :: "field list \<Rightarrow> bool" where
  "msg_fits fs \<longleftrightarrow> length (fields_bytes fs) \<le> MAX_BASIC_MESSAGE_SIZE - MESSAGE_META_OFF"

lemma do_push_overrun:
  "MAX_BASIC_MESSAGE_SIZE - MESSAGE_META_OFF < nat (get_message_size t) + length bs \<Longrightarrow> do_push bs t = None"
  by (simp add: do_push_def)

lemma push_field_overrun:
  assumes "msg_inv t"
    "MAX_BASIC_MESSAGE_SIZE - MESSAGE_META_OFF < nat (get_message_size t) + length (field_bytes f)"
  shows "push_field f t = None"
proof (cases f)
  case (F_str s)
  let ?n = "enc_size (int (length s) + 1)"
  show ?thesis
  proof (cases "nat (get_message_size t) + length ?n \<le> MAX_BASIC_MESSAGE_SIZE - MESSAGE_META_OFF")
    case True
    from do_push_ok [OF assms(1) this] obtain t1 where
      t1: "do_push ?n t = Some t1" "get_message_size t1 = get_message_size t + 8" by auto
    have "do_push (c_str s) t1 = None"
      using assms F_str t1(2) by (intro do_push_overrun) (simp add: msg_inv_def nat_add_distrib)
    with F_str t1(1) show ?thesis by (simp add: push_back_string_def push_size_def)
  qed (use F_str in \<open>simp add: push_back_string_def push_size_def do_push_overrun\<close>)
qed (use do_push_overrun [OF assms(2)] in
      \<open>simp_all add: push_int_def push_u32_def push_size_def push_off_def\<close>)

lemma push_fields_overrun:
  assumes "msg_inv t" "list_all field_ok fs"
    "MAX_BASIC_MESSAGE_SIZE - MESSAGE_META_OFF < nat (get_message_size t) + length (fields_bytes fs)"
  shows "push_fields fs t = None"
  using assms
proof (induction fs arbitrary: t)
  case Nil
  then show ?case by (auto simp: msg_inv_def)
next
  case (Cons f fs)
  show ?case
  proof (cases "nat (get_message_size t) + length (field_bytes f) \<le> MAX_BASIC_MESSAGE_SIZE - MESSAGE_META_OFF")
    case True
    from push_field_ok [OF Cons.prems(1) _ this] Cons.prems(2) obtain t1 where
      t1: "push_field f t = Some t1" "msg_inv t1"
        "get_message_size t1 = get_message_size t + int (length (field_bytes f))" by auto
    have "push_fields fs t1 = None"
      using Cons.prems t1 by (intro Cons.IH) (simp_all add: msg_inv_def nat_add_distrib)
    with t1 show ?thesis by simp
  qed (use push_field_overrun [OF Cons.prems(1)] in simp)
qed

lemma msg_fits_push:
  assumes "msg_inv t" "get_message_size t = 0" "list_all field_ok fs"
  shows "push_fields fs t \<noteq> None \<longleftrightarrow> msg_fits fs"
proof (cases "msg_fits fs")
  case True
  with push_fields_ok [OF assms(1,3)] assms(2) show ?thesis by (auto simp: msg_fits_def)
next
  case False
  then have "push_fields fs t = None"
    using assms by (intro push_fields_overrun) (simp_all add: msg_fits_def)
  with False show ?thesis by simp
qed

lemma pop_fields_ok:
  assumes "msg_inv t" "list_all field_ok fs" "pending t = fields_bytes fs @ rest"
  shows "\<exists>t'. pop_fields (map ftype_of fs) t = Some (fs, t') \<and> msg_inv t' \<and> pending t' = rest"
  using assms
proof (induction fs arbitrary: t)
  case Nil
  then show ?case by simp
next
  case (Cons f fs)
  then obtain t1 where "pop_field (ftype_of f) t = Some (f, t1)" "msg_inv t1"
    "pending t1 = fields_bytes fs @ rest"
    using pop_field_ok [of t f "fields_bytes fs @ rest"] by auto
  with Cons show ?case by fastforce
qed

section \<open>File attributes\<close>

record stat =
  st_dev :: int
  st_ino :: int
  st_nlink :: int
  st_mode :: mode_t
  st_uid :: int
  st_gid :: int
  st_rdev :: int
  st_size :: off64_t
  st_blksize :: int
  st_blocks :: int
  st_atime :: time_t
  st_mtime :: time_t
  st_ctime :: time_t

definition attr_fields :: "stat \<Rightarrow> field list" where
  "attr_fields st =
     [F_u32 (st_mode st), F_u32 (st_uid st), F_u32 (st_gid st), F_off (st_size st),
      F_off (st_atime st), F_off (st_mtime st), F_off (st_ctime st), F_off (st_blksize st)]"

definition Send_attr :: "stat \<Rightarrow> io_task \<Rightarrow> io_task option" where
  "Send_attr st t = push_fields (attr_fields st) t"

definition Recv_attr :: "io_task \<Rightarrow> (stat \<times> io_task) option" where
  "Recv_attr t =
     Option.bind (pop_u32 t) (\<lambda>(md, t). Option.bind (pop_u32 t) (\<lambda>(uid, t).
     Option.bind (pop_u32 t) (\<lambda>(gid, t). Option.bind (pop_off t) (\<lambda>(sz, t).
     Option.bind (pop_off t) (\<lambda>(at, t). Option.bind (pop_off t) (\<lambda>(mt, t).
     Option.bind (pop_off t) (\<lambda>(ct, t). Option.bind (pop_off t) (\<lambda>(bs, t).
       Some (\<lparr>st_dev = 0, st_ino = 0, st_nlink = 0, st_mode = md, st_uid = uid, st_gid = gid,
              st_rdev = 0, st_size = sz, st_blksize = bs, st_blocks = 0,
              st_atime = at, st_mtime = mt, st_ctime = ct\<rparr>, t)))))))))"

section \<open>Transport lemmas\<close>

definition message_body :: "io_task \<Rightarrow> byte list" where
  "message_body t = get_bytes MESSAGE_META_OFF (nat (get_message_size t)) (message_buffer t)"

definition extended_data :: "(nat \<Rightarrow> nat \<Rightarrow> byte) \<Rightarrow> io_task \<Rightarrow> byte list" where
  "extended_data mem t =
     (if get_extended_data_size t \<noteq> 0 then concat (map (sb_data mem t) (send_buffer t)) else [])"

lemma get_put_copy:
  "off \<le> a \<Longrightarrow> a + n \<le> off + k \<Longrightarrow>
     get_bytes a n (put_bytes off (get_bytes off k g) f) = get_bytes a n g"
  by (auto simp: get_bytes_def put_bytes_def)

lemma recv_bytes_append [simp]:
  "length bs = n \<Longrightarrow> recv_bytes n (bs @ w) = Inr (bs, w)"
  by (auto simp: recv_bytes_def)

lemma task_sizes_nonneg [simp]: "0 \<le> get_message_size t" "0 \<le> get_extended_data_size t"
proof -
  have "0 \<le> le_int bs" for bs by (induction bs) auto
  then show "0 \<le> get_message_size t" "0 \<le> get_extended_data_size t"
    by (auto simp: get_message_size_def get_extended_data_size_def dec_size_def)
qed

lemma sender_id_int_ok: "int_ok (get_sender_id t)"
  by (simp add: int_ok_def get_sender_id_def dec_int_def s32_def)

lemma sent_bytes:
  assumes "send_message mem t = Some w"
  shows "w = get_bytes 0 4 (message_buffer t) @ get_bytes 4 20 (message_buffer t) @
             message_body t @ extended_data mem t"
    "nat (get_message_size t) \<le> MAX_BASIC_MESSAGE_SIZE - MESSAGE_META_OFF"
proof -
  have "get_bytes 0 (nat (get_message_size t) + 24) (message_buffer t) =
      get_bytes 0 (4 + (20 + nat (get_message_size t))) (message_buffer t)"
    by (simp add: add.commute)
  also have "\<dots> = get_bytes 0 4 (message_buffer t) @ get_bytes 4 20 (message_buffer t) @ message_body t"
    unfolding get_bytes_split by (simp add: message_body_def)
  finally show "w = get_bytes 0 4 (message_buffer t) @ get_bytes 4 20 (message_buffer t) @
             message_body t @ extended_data mem t"
    "nat (get_message_size t) \<le> MAX_BASIC_MESSAGE_SIZE - MESSAGE_META_OFF"
    using assms by (auto simp: send_message_def Let_def extended_data_def split: if_splits)
qed

lemma received_header:
  fixes t t0 :: io_task
  defines "t1 \<equiv> swap_sender_receiver
     (t0\<lparr>message_buffer := put_bytes 4 (get_bytes 4 20 (message_buffer t)) (message_buffer t0)\<rparr>)"
  shows "get_receiver_id t1 = get_sender_id t" "int_ok (task_id t0) \<Longrightarrow> get_sender_id t1 = task_id t0"
    "get_message_size t1 = get_message_size t" "get_extended_data_size t1 = get_extended_data_size t"
    "t1\<lparr>message_buffer := message_buffer t0\<rparr> = t0"
proof -
  let ?b = "put_bytes 4 (get_bytes 4 20 (message_buffer t)) (message_buffer t0)"
  let ?u = "t0\<lparr>message_buffer := ?b\<rparr>"
  have s: "get_sender_id ?u = get_sender_id t"
    by (simp add: get_sender_id_def get_put_copy)
  note d = swap_sender_receiver_def set_sender_id_def set_receiver_id_def
  show "get_receiver_id t1 = get_sender_id t"
    using sender_id_int_ok [of t]
    by (simp add: t1_def d s get_receiver_id_def get_put_other int_ok_def enc_dec_int)
  show "int_ok (task_id t0) \<Longrightarrow> get_sender_id t1 = task_id t0"
    by (simp add: t1_def d get_sender_id_def int_ok_def enc_dec_int)
  show "get_message_size t1 = get_message_size t" "get_extended_data_size t1 = get_extended_data_size t"
    by (simp_all add: t1_def d get_message_size_def get_extended_data_size_def get_put_other get_put_copy)
  show "t1\<lparr>message_buffer := message_buffer t0\<rparr> = t0" by (simp add: t1_def d)
qed

text \<open>The bytes behind the first id, received into any task that was reset.\<close>

lemma receive_message_sent:
  assumes sz: "nat (get_message_size t) \<le> MAX_BASIC_MESSAGE_SIZE - MESSAGE_META_OFF" and cp: "current_point u = 0"
    and ext: "int (length (extended_data mem t)) = get_extended_data_size t"
      "get_extended_data_size t \<le> int MAX_TRANSFER_SIZE"
  shows "\<exists>t'. receive_message (get_bytes 4 20 (message_buffer t) @ message_body t @ extended_data mem t @ rest) u = Inr (t', rest) \<and>
           get_receiver_id t' = get_sender_id t \<and> (int_ok (task_id u) \<longrightarrow> get_sender_id t' = task_id u) \<and> task_error t' = task_error u \<and>
           msg_inv t' \<and> pending t' = message_body t \<and>
           (get_extended_data_size t \<noteq> 0 \<longrightarrow>
              (\<exists>t''. get_received_data_all t' = Some (extended_data mem t, get_extended_data_size t, t'')))"
proof -
  define t1 where "t1 = swap_sender_receiver
    (u\<lparr>message_buffer := put_bytes 4 (get_bytes 4 20 (message_buffer t)) (message_buffer u)\<rparr>)"
  have h: "get_receiver_id t1 = get_sender_id t" "int_ok (task_id u) \<Longrightarrow> get_sender_id t1 = task_id u"
    "get_message_size t1 = get_message_size t" "get_extended_data_size t1 = get_extended_data_size t"
    unfolding t1_def by (rule received_header, assumption?)+
  have c1: "current_point t1 = 0" "task_error t1 = task_error u"
    using cp by (simp_all add: t1_def swap_sender_receiver_def set_sender_id_def set_receiver_id_def)
  define t2 where "t2 = t1\<lparr>message_buffer := put_bytes MESSAGE_META_OFF (message_body t) (message_buffer t1)\<rparr>"
  have len: "length (message_body t) = nat (get_message_size t)" by (simp add: message_body_def)
  have h2: "get_receiver_id t2 = get_sender_id t" "int_ok (task_id u) \<longrightarrow> get_sender_id t2 = task_id u"
    "get_message_size t2 = get_message_size t" "get_extended_data_size t2 = get_extended_data_size t" "task_error t2 = task_error u"
    using h c1(2) by (auto simp: t2_def get_receiver_id_def get_sender_id_def get_message_size_def
        get_extended_data_size_def get_put_other)
  have p2: "pending t2 = message_body t" "msg_inv t2"
    using c1 h2 sz len by (auto simp: pending_def msg_inv_def t2_def)
  let ?d = "extended_data mem t" and ?m = "get_extended_data_size t"
  let ?r = "get_receive_buffer t2"
  let ?t' = "if ?m = 0 then t2 else ?r\<lparr>receive_buffer := map_option (put_bytes 0 ?d) (receive_buffer ?r)\<rparr>"
  have d0: "?d = []" if "?m \<le> 0"
  proof -
    have "int (length ?d) \<le> 0" using ext(1) that by linarith
    then show ?thesis by simp
  qed
  have "receive_message (get_bytes 4 20 (message_buffer t) @ message_body t @ ?d @ rest) u = Inr (?t', rest)"
    unfolding receive_message_def
    using sz len h(3) h2(4) ext d0
    by (auto simp: t1_def [symmetric] t2_def [symmetric] Let_def)
  moreover have "get_receiver_id ?t' = get_sender_id t" "int_ok (task_id u) \<longrightarrow> get_sender_id ?t' = task_id u" "task_error ?t' = task_error u"
    "msg_inv ?t'" "pending ?t' = message_body t" "get_extended_data_size ?t' = ?m"
    using h2 p2 by (auto simp: get_receive_buffer_def Let_def get_receiver_id_def get_sender_id_def
        msg_inv_def pending_def get_message_size_def get_extended_data_size_def split: option.splits)
  moreover have "\<exists>t''. get_received_data_all ?t' = Some (?d, ?m, t'')" if "?m \<noteq> 0"
  proof -
    have "recv_ptr ?t' = Some 0" "\<exists>b. receive_buffer ?t' = Some (put_bytes 0 ?d b)"
      using that by (auto simp: get_receive_buffer_def Let_def split: option.splits)
    moreover have "nat ?m = length ?d" using ext by simp
    ultimately show ?thesis
      using ext \<open>get_extended_data_size ?t' = ?m\<close>
      unfolding get_received_data_all_def by (auto simp del: if_split)
  qed
  ultimately show ?thesis by blast
qed

lemma receive_sent_message:
  assumes w: "send_message mem t = Some w" and id: "int_ok (task_id t0)"
    and cp: "current_point t0 = 0"
    and ext: "int (length (extended_data mem t)) = get_extended_data_size t"
      "get_extended_data_size t \<le> int MAX_TRANSFER_SIZE"
  shows "\<exists>t'. input_from_network (w @ rest) t0 = Inr (get_receiver_id t, t', rest) \<and>
           get_receiver_id t' = get_sender_id t \<and> get_sender_id t' = task_id t0 \<and>
           msg_inv t' \<and> pending t' = message_body t \<and>
           (get_extended_data_size t \<noteq> 0 \<longrightarrow>
              (\<exists>t''. get_received_data_all t' = Some (extended_data mem t, get_extended_data_size t, t'')))"
proof -
  note sb = sent_bytes [OF w]
  let ?u = "set_receiver_id (get_receiver_id t) t0"
  have u: "task_id ?u = task_id t0" "current_point ?u = 0" using cp by (simp_all add: set_receiver_id_def)
  from receive_message_sent [OF sb(2) u(2) ext, of rest] obtain t' where
    "receive_message (get_bytes 4 20 (message_buffer t) @ message_body t @ extended_data mem t @ rest) ?u = Inr (t', rest)"
    "get_receiver_id t' = get_sender_id t" "get_sender_id t' = task_id t0" "msg_inv t'" "pending t' = message_body t"
    "get_extended_data_size t \<noteq> 0 \<longrightarrow> (\<exists>t''. get_received_data_all t' = Some (extended_data mem t, get_extended_data_size t, t''))"
    using id unfolding u(1) by blast
  then show ?thesis unfolding sb(1) by (simp add: input_from_network_def get_receiver_id_def Let_def)
qed

section \<open>Directory listings\<close>

fun push_strings_prealloc :: "string list \<Rightarrow> io_task \<Rightarrow> io_task option" where
  "push_strings_prealloc [] t = Some t"
| "push_strings_prealloc (s # ss) t = Option.bind (push_string_prealloc s t) (push_strings_prealloc ss)"

fun string_buf_pop_strings :: "nat \<Rightarrow> string_buf \<Rightarrow> (string list \<times> string_buf) option" where
  "string_buf_pop_strings 0 b = Some ([], b)"
| "string_buf_pop_strings (Suc n) b =
     Option.bind (string_buf_pop_string b) (\<lambda>(s, b1).
       map_option (\<lambda>(ss, b2). (s # ss, b2)) (string_buf_pop_strings n b1))"

abbreviation strings_bytes :: "string list \<Rightarrow> byte list" where
  "strings_bytes ss \<equiv> fields_bytes (map F_str ss)"

definition prealloc_data :: "io_task \<Rightarrow> byte list" where
  "prealloc_data t = get_bytes 0 (nat (get_extended_data_size t)) (extended_buffer t)"

lemma get_set_extended [simp]:
  "0 \<le> n \<Longrightarrow> n < 18446744073709551616 \<Longrightarrow> get_extended_data_size (set_extended_data_size n t) = n"
  "get_extended_data_size (t\<lparr>send_buffer := x\<rparr>) = get_extended_data_size t"
  "get_extended_data_size (t\<lparr>extended_buffer := y\<rparr>) = get_extended_data_size t"
  by (simp_all add: get_extended_data_size_def set_extended_data_size_def enc_dec_size)

lemma do_push_prealloc_ok:
  assumes "nat (get_extended_data_size t) + length bs \<le> MAX_EXTENDED_MESSAGE_SIZE"
  shows "\<exists>t'. do_push_prealloc bs t = Some t' \<and> prealloc_data t' = prealloc_data t @ bs \<and>
           get_extended_data_size t' = get_extended_data_size t + int (length bs) \<and>
           send_buffer t' = send_buffer t \<and> get_message_size t' = get_message_size t"
proof -
  let ?m = "get_extended_data_size t"
  let ?t' = "set_extended_data_size (?m + int (length bs))
     (t\<lparr>extended_buffer := put_bytes (nat ?m) bs (extended_buffer t)\<rparr>)"
  have m: "u64 (?m + int (length bs)) = ?m + int (length bs)"
    "?m + int (length bs) < 18446744073709551616"
    using assms by (auto intro!: u64_id)
  have e: "get_extended_data_size ?t' = ?m + int (length bs)"
    using m(2) by simp
  have "prealloc_data ?t' = get_bytes 0 (nat ?m + length bs) (put_bytes (nat ?m) bs (extended_buffer t))"
    unfolding prealloc_data_def e by (simp add: set_extended_data_size_def nat_add_distrib)
  also have "\<dots> = prealloc_data t @ bs"
    unfolding get_bytes_split by (simp add: get_put_other prealloc_data_def)
  finally show ?thesis
    using assms m e by (simp add: do_push_prealloc_def Let_def set_extended_data_size_def
        get_message_size_def get_put_other)
qed

lemma push_strings_prealloc_ok:
  "nat (get_extended_data_size t) + length (strings_bytes ss) \<le> MAX_EXTENDED_MESSAGE_SIZE \<Longrightarrow>
     \<exists>t'. push_strings_prealloc ss t = Some t' \<and> prealloc_data t' = prealloc_data t @ strings_bytes ss \<and>
          get_extended_data_size t' = get_extended_data_size t + int (length (strings_bytes ss)) \<and>
          send_buffer t' = send_buffer t \<and> get_message_size t' = get_message_size t"
proof (induction ss arbitrary: t)
  case Nil
  then show ?case by simp
next
  case (Cons s ss)
  from do_push_prealloc_ok [of t "enc_size (int (length s) + 1)"] Cons.prems obtain t1 where
    t1: "do_push_prealloc (enc_size (int (length s) + 1)) t = Some t1"
      "prealloc_data t1 = prealloc_data t @ enc_size (int (length s) + 1)"
      "get_extended_data_size t1 = get_extended_data_size t + 8" "send_buffer t1 = send_buffer t"
      "get_message_size t1 = get_message_size t" by auto
  from do_push_prealloc_ok [of t1 "c_str s"] Cons.prems t1(3) obtain t2 where
    t2: "do_push_prealloc (c_str s) t1 = Some t2" "prealloc_data t2 = prealloc_data t1 @ c_str s"
      "get_extended_data_size t2 = get_extended_data_size t1 + int (length s + 1)"
      "send_buffer t2 = send_buffer t1" "get_message_size t2 = get_message_size t1"
    by (auto simp: nat_add_distrib)
  from Cons.IH [of t2] Cons.prems t1(3) t2(3) obtain t3 where
    "push_strings_prealloc ss t2 = Some t3" "prealloc_data t3 = prealloc_data t2 @ strings_bytes ss"
    "get_extended_data_size t3 = get_extended_data_size t2 + int (length (strings_bytes ss))"
    "send_buffer t3 = send_buffer t2" "get_message_size t3 = get_message_size t2"
    by (auto simp: nat_add_distrib)
  then show ?case using t1 t2 by (simp add: push_string_prealloc_def)
qed

text \<open>The names of a listing fit when they go into the preallocated area; this is not checked either.\<close>

definition names_fit :: "string list \<Rightarrow> bool" where
  "names_fit ss \<longleftrightarrow> length (strings_bytes ss) \<le> MAX_EXTENDED_MESSAGE_SIZE"

lemma do_push_prealloc_overrun:
  "MAX_EXTENDED_MESSAGE_SIZE < nat (get_extended_data_size t) + length bs \<Longrightarrow> do_push_prealloc bs t = None"
  by (simp add: do_push_prealloc_def)

lemma push_strings_prealloc_overrun:
  "0 \<le> get_extended_data_size t \<Longrightarrow> nat (get_extended_data_size t) \<le> MAX_EXTENDED_MESSAGE_SIZE \<Longrightarrow>
   MAX_EXTENDED_MESSAGE_SIZE < nat (get_extended_data_size t) + length (strings_bytes ss) \<Longrightarrow>
     push_strings_prealloc ss t = None"
proof (induction ss arbitrary: t)
  case Nil
  then show ?case by simp
next
  case (Cons s ss)
  show ?case
  proof (cases "push_string_prealloc s t")
    case (Some t2)
    then obtain t1 where
      t1: "do_push_prealloc (enc_size (int (length s) + 1)) t = Some t1" "do_push_prealloc (c_str s) t1 = Some t2"
      by (auto simp: push_string_prealloc_def split: bind_splits)
    have fit1: "nat (get_extended_data_size t) + 8 \<le> MAX_EXTENDED_MESSAGE_SIZE"
      using do_push_prealloc_overrun [of t "enc_size (int (length s) + 1)"] t1(1) by fastforce
    then have e1: "get_extended_data_size t1 = get_extended_data_size t + 8"
      using do_push_prealloc_ok [of t "enc_size (int (length s) + 1)"] t1(1) by simp
    have fit2: "nat (get_extended_data_size t1) + (length s + 1) \<le> MAX_EXTENDED_MESSAGE_SIZE"
      using do_push_prealloc_overrun [of t1 "c_str s"] t1(2) by fastforce
    then have e2: "get_extended_data_size t2 = get_extended_data_size t1 + int (length s + 1)"
      using do_push_prealloc_ok [of t1 "c_str s"] t1(2) by simp
    have "push_strings_prealloc ss t2 = None"
      using Cons.prems e1 e2 fit2 by (intro Cons.IH) (auto simp: nat_add_distrib)
    with Some show ?thesis by simp
  qed simp
qed

lemma names_fit_push:
  assumes "get_extended_data_size t = 0"
  shows "push_strings_prealloc ss t \<noteq> None \<longleftrightarrow> names_fit ss"
proof (cases "names_fit ss")
  case True
  with push_strings_prealloc_ok [of t ss] assms show ?thesis by (auto simp: names_fit_def)
next
  case False
  then have "push_strings_prealloc ss t = None"
    using assms by (intro push_strings_prealloc_overrun) (simp_all add: names_fit_def)
  with False show ?thesis by simp
qed

lemma setup_prealloc_buffer_ok:
  assumes "get_extended_data_size t < 9223372036854775808"
  shows "get_extended_data_size (setup_prealloc_buffer t) = get_extended_data_size t"
    "send_buffer t = [] \<Longrightarrow> get_extended_data_size t \<noteq> 0 \<Longrightarrow>
       extended_data mem (setup_prealloc_buffer t) = prealloc_data t"
    "get_message_size (setup_prealloc_buffer t) = get_message_size t"
proof -
  let ?m = "get_extended_data_size t"
  have "u64 (?m + ?m) = ?m * 2" using assms by (simp add: u64_id)
  then show e: "get_extended_data_size (setup_prealloc_buffer t) = ?m"
    using assms by (simp add: setup_prealloc_buffer_def push_send_buffer_def Let_def)
  show "send_buffer t = [] \<Longrightarrow> ?m \<noteq> 0 \<Longrightarrow>
      extended_data mem (setup_prealloc_buffer t) = prealloc_data t"
    unfolding extended_data_def e
    by (simp add: setup_prealloc_buffer_def push_send_buffer_def Let_def set_extended_data_size_def
        sb_data_def prealloc_data_def)
  show "get_message_size (setup_prealloc_buffer t) = get_message_size t"
    by (simp add: setup_prealloc_buffer_def push_send_buffer_def Let_def set_extended_data_size_def
        get_message_size_def get_put_other)
qed

lemma string_buf_pop_ok:
  assumes "get_bytes (str_cur b) (length bs) (str_bytes b) = bs" "str_cur b + length bs \<le> str_total b"
  shows "string_buf_pop (length bs) b = Some (bs, b\<lparr>str_cur := str_cur b + length bs\<rparr>)"
  using assms by (simp add: string_buf_pop_def)

lemma string_buf_pop_strings_ok:
  assumes "get_bytes (str_cur b) (length (strings_bytes ss)) (str_bytes b) = strings_bytes ss"
    "str_cur b + length (strings_bytes ss) \<le> str_total b"
    "\<forall>s\<in>set ss. CHR 0x00 \<notin> set s" "length (strings_bytes ss) < 18446744073709551616"
  shows "\<exists>b'. string_buf_pop_strings (length ss) b = Some (ss, b')"
  using assms
proof (induction ss arbitrary: b)
  case Nil
  then show ?case by simp
next
  case (Cons s ss)
  let ?n = "enc_size (int (length s) + 1)" and ?r = "strings_bytes ss"
  define k where "k = length s + 1"
  have k: "length (c_str s) = k" by (simp add: k_def)
  have "get_bytes (str_cur b) (8 + (k + length ?r)) (str_bytes b) = ?n @ c_str s @ ?r"
    using Cons.prems(1) by (simp add: k_def add.assoc)
  then have g: "get_bytes (str_cur b) 8 (str_bytes b) = ?n"
    "get_bytes (str_cur b + 8) k (str_bytes b) = c_str s"
    "get_bytes (str_cur b + 8 + k) (length ?r) (str_bytes b) = ?r"
    unfolding get_bytes_split by (simp_all add: append_eq_append_conv k)
  have dec: "dec_size ?n = int (length s) + 1" using Cons.prems(4) by (simp add: enc_dec_size)
  let ?b1 = "b\<lparr>str_cur := str_cur b + 8\<rparr>"
  let ?b2 = "?b1\<lparr>str_cur := str_cur b + 8 + (length s + 1)\<rparr>"
  have "string_buf_pop 8 b = Some (?n, ?b1)"
    using string_buf_pop_ok [of b ?n] g(1) Cons.prems(2) by simp
  moreover have "string_buf_pop (length s + 1) ?b1 = Some (c_str s, ?b2)"
    using string_buf_pop_ok [of ?b1 "c_str s"] g(2) Cons.prems(2) by (simp add: k_def)
  moreover have "nat (int (length s) + 1) = length s + 1" by simp
  ultimately have "string_buf_pop_string b = Some (s, ?b2)"
    using Cons.prems(3) dec by (simp add: string_buf_pop_string_def)
  moreover have "\<exists>b'. string_buf_pop_strings (length ss) ?b2 = Some (ss, b')"
    using Cons.prems g(3) by (intro Cons.IH) (auto simp: k_def)
  ultimately show ?case by auto
qed

section \<open>Properties\<close>

text \<open>C4: Any list of values (ints, 32-bit unsigned values, sizes, offsets, strings without NUL) that
  fits behind the 24-byte header is pushed without overflow and popped back unchanged, in
  order and completely.\<close>

theorem fields_roundtrip:
  assumes "msg_inv t" "pending t = []" "list_all field_ok fs"
    "nat (get_message_size t) + length (fields_bytes fs) \<le> MAX_BASIC_MESSAGE_SIZE - MESSAGE_META_OFF"
  shows "\<exists>t1 t2. push_fields fs t = Some t1 \<and> pop_fields (map ftype_of fs) t1 = Some (fs, t2) \<and>
           pending t2 = []"
proof -
  from push_fields_ok [OF assms(1,3,4)] obtain t1 where
    "push_fields fs t = Some t1" "msg_inv t1" "pending t1 = fields_bytes fs @ []"
    using assms(2) by auto
  with pop_fields_ok [OF _ assms(3), of t1 "[]"] show ?thesis by blast
qed

lemma reset_task_ready: "msg_inv (io_task_reset t)" "pending (io_task_reset t) = []"
  "current_point (io_task_reset t) = 0" "get_message_size (io_task_reset t) = 0"
  "task_id (io_task_reset t) = task_id t" "get_extended_data_size (io_task_reset t) = 0"
  "send_buffer (io_task_reset t) = []"
proof -
  have m: "get_message_size (io_task_reset t) = 0" "get_extended_data_size (io_task_reset t) = 0"
    by (simp_all add: io_task_reset_def basic_reset_def set_message_size_def clear_new_conection_def
        set_extended_data_size_def clear_send_recv_buffer_def Let_def get_message_size_def
        get_extended_data_size_def get_put_other enc_dec_size)
  moreover have c: "current_point (io_task_reset t) = 0"
    by (simp add: io_task_reset_def basic_reset_def set_message_size_def
        set_extended_data_size_def clear_send_recv_buffer_def Let_def)
  ultimately show "msg_inv (io_task_reset t)" "pending (io_task_reset t) = []"
    "current_point (io_task_reset t) = 0" "get_message_size (io_task_reset t) = 0"
    "get_extended_data_size (io_task_reset t) = 0"
    by (simp_all add: msg_inv_def pending_def get_bytes_def)
  show "task_id (io_task_reset t) = task_id t" "send_buffer (io_task_reset t) = []"
    by (simp_all add: io_task_reset_def basic_reset_def set_message_size_def clear_new_conection_def
        set_extended_data_size_def clear_send_recv_buffer_def Let_def)
qed

theorem fields_roundtrip_witness:
  "\<exists>t1 t2. push_fields [F_int (-3), F_off 70000, F_str ''/data''] (io_task_reset (extended_IO_task 2)) = Some t1 \<and>
     pop_fields [T_int, T_off, T_str] t1 = Some ([F_int (-3), F_off 70000, F_str ''/data''], t2)"
proof -
  let ?fs = "[F_int (-3), F_off 70000, F_str ''/data'']"
  have "list_all field_ok ?fs" by (simp add: int_ok_def off_ok_def)
  moreover have "nat (get_message_size (io_task_reset (extended_IO_task 2))) +
      length (fields_bytes ?fs) \<le> MAX_BASIC_MESSAGE_SIZE - MESSAGE_META_OFF"
    by (simp add: reset_task_ready)
  ultimately show ?thesis
    using fields_roundtrip [OF reset_task_ready(1,2), of ?fs]
    by (simp only: list.map ftype_of.simps) blast
qed

text \<open>A file's attributes sent with \<^verbatim>\<open>Send_attr\<close> in a fresh message are read back by \<^verbatim>\<open>Recv_attr\<close>:
  mode, owner, group, size, the three times and the block size arrive unchanged, and the
  fields that are not sent are zero.\<close>

theorem attr_roundtrip:
  assumes "msg_inv t" "pending t = []" "get_message_size t \<le> 3000"
    "list_all field_ok (attr_fields st)"
  shows "\<exists>t1 t2. Send_attr st t = Some t1 \<and>
           Recv_attr t1 = Some (st\<lparr>st_dev := 0, st_ino := 0, st_nlink := 0, st_rdev := 0,
                                   st_blocks := 0\<rparr>, t2) \<and> pending t2 = []"
proof -
  have "length (fields_bytes (attr_fields st)) = 52" by (simp add: attr_fields_def)
  then have "nat (get_message_size t) + length (fields_bytes (attr_fields st))
      \<le> MAX_BASIC_MESSAGE_SIZE - MESSAGE_META_OFF" using assms(3) by simp
  from push_fields_ok [OF assms(1,4) this] assms(2) obtain t1 where
    t1: "Send_attr st t = Some t1" "msg_inv t1" "pending t1 = fields_bytes (attr_fields st) @ []"
    by (auto simp: Send_attr_def)
  from pop_fields_ok [OF t1(2) assms(4) t1(3)] obtain t2 where
    "pop_fields (map ftype_of (attr_fields st)) t1 = Some (attr_fields st, t2)" "pending t2 = []"
    by blast
  then have "Recv_attr t1 = Some (st\<lparr>st_dev := 0, st_ino := 0, st_nlink := 0, st_rdev := 0,
      st_blocks := 0\<rparr>, t2)"
    by (auto simp: attr_fields_def Recv_attr_def bind_eq_Some_conv)
  then show ?thesis using t1 \<open>pending t2 = []\<close> by blast
qed

theorem attr_roundtrip_witness:
  "\<exists>t1 t2 st'. Send_attr \<lparr>st_dev = 7, st_ino = 1, st_nlink = 1, st_mode = 33188, st_uid = 1000,
      st_gid = 1000, st_rdev = 0, st_size = 12, st_blksize = 4096, st_blocks = 8, st_atime = 5,
      st_mtime = 6, st_ctime = 6\<rparr> (io_task_reset (extended_IO_task 2)) = Some t1 \<and>
    Recv_attr t1 = Some (st', t2) \<and> st_size st' = 12 \<and> st_dev st' = 0"
proof -
  let ?st = "\<lparr>st_dev = 7, st_ino = 1, st_nlink = 1, st_mode = 33188, st_uid = 1000,
      st_gid = 1000, st_rdev = 0, st_size = 12, st_blksize = 4096, st_blocks = 8, st_atime = 5,
      st_mtime = 6, st_ctime = 6\<rparr>"
  have "list_all field_ok (attr_fields ?st)"
    by (simp add: attr_fields_def u32_ok_def off_ok_def)
  from attr_roundtrip [OF reset_task_ready(1,2) _ this] show ?thesis
    by (fastforce simp: reset_task_ready)
qed

text \<open>C2: What \<^verbatim>\<open>send\<close> writes to the socket, \<^verbatim>\<open>input_from_network\<close> and \<^verbatim>\<open>receive_message\<close> read back: the message
  goes to the queue its receiver id names, consumes exactly its own bytes of the stream, the
  reply address becomes the sender's queue, the body is pending for the pops and the
  extended data, up to the transfer size, is delivered by \<^verbatim>\<open>get_received_data_all\<close>.\<close>

theorem transport_roundtrip:
  assumes "send_message mem t = Some w" "int_ok (task_id t0)"
    "int (length (extended_data mem t)) = get_extended_data_size t"
    "get_extended_data_size t \<le> int MAX_TRANSFER_SIZE"
  shows "\<exists>t'. input_from_network (w @ rest) (io_task_reset t0) = Inr (get_receiver_id t, t', rest) \<and>
           get_receiver_id t' = get_sender_id t \<and> get_sender_id t' = task_id t0 \<and>
           msg_inv t' \<and> pending t' = message_body t \<and>
           (get_extended_data_size t \<noteq> 0 \<longrightarrow>
              (\<exists>t''. get_received_data_all t' = Some (extended_data mem t, get_extended_data_size t, t'')))"
  using receive_sent_message [OF assms(1) _ _ assms(3,4), of "io_task_reset t0" rest] assms(2)
  by (simp add: reset_task_ready)

theorem transport_roundtrip_witness:
  "\<exists>w t'. send_message (\<lambda>_ _. 0) (io_task_reset (extended_IO_task 2)) = Some w \<and>
     input_from_network (w @ [1, 2]) (io_task_reset (extended_IO_task 3)) =
       Inr (get_receiver_id (io_task_reset (extended_IO_task 2)), t', [1, 2]) \<and> get_sender_id t' = 3"
proof -
  let ?t = "io_task_reset (extended_IO_task 2)" and ?u = "extended_IO_task 3"
  have "task_id ?u = 3" by (simp add: extended_IO_task_def set_sender_id_def set_message_size_def)
  moreover have "send_message (\<lambda>_ _. 0) ?t \<noteq> None"
    by (simp add: send_message_def reset_task_ready Let_def)
  then obtain w where w: "send_message (\<lambda>_ _. 0) ?t = Some w" by blast
  ultimately show ?thesis
    using transport_roundtrip [OF w, of ?u "[1, 2]"]
    by (auto simp: reset_task_ready extended_data_def int_ok_def)
qed

text \<open>The names of a directory listing written with \<^verbatim>\<open>push_string_prealloc\<close> and
  \<^verbatim>\<open>setup_prealloc_buffer\<close> into a fresh reply are exactly the extended data that is sent, and
  a client that copies them into its \<^verbatim>\<open>string_buf\<close> pops the same names in the same order.\<close>

theorem dir_listing_roundtrip:
  assumes "get_extended_data_size t = 0" "send_buffer t = []" "names \<noteq> []"
    "\<forall>s\<in>set names. CHR 0x00 \<notin> set s"
    "length (strings_bytes names) \<le> MAX_EXTENDED_MESSAGE_SIZE" "length (strings_bytes names) \<le> tot"
  shows "\<exists>t1 b'. push_strings_prealloc names t = Some t1 \<and>
           extended_data mem (setup_prealloc_buffer t1) = strings_bytes names \<and>
           get_extended_data_size (setup_prealloc_buffer t1) = int (length (strings_bytes names)) \<and>
           string_buf_pop_strings (length names)
             \<lparr>str_bytes = put_bytes 0 (extended_data mem (setup_prealloc_buffer t1)) f,
              str_total = tot, str_cur = 0\<rparr> = Some (names, b')"
proof -
  from push_strings_prealloc_ok [of t names] assms(1,2,5) obtain t1 where
    t1: "push_strings_prealloc names t = Some t1" "prealloc_data t1 = strings_bytes names"
      "get_extended_data_size t1 = int (length (strings_bytes names))" "send_buffer t1 = []"
    by (auto simp: prealloc_data_def get_bytes_def)
  have "length (strings_bytes names) \<noteq> 0" using assms(3) by (cases names) auto
  with setup_prealloc_buffer_ok [of t1] t1 assms(5) have
    e: "extended_data mem (setup_prealloc_buffer t1) = strings_bytes names"
      "get_extended_data_size (setup_prealloc_buffer t1) = int (length (strings_bytes names))"
    by simp_all
  have "\<exists>b'. string_buf_pop_strings (length names)
     \<lparr>str_bytes = put_bytes 0 (strings_bytes names) f, str_total = tot, str_cur = 0\<rparr> = Some (names, b')"
    using assms by (intro string_buf_pop_strings_ok) simp_all
  then show ?thesis using t1(1) e by auto
qed

theorem dir_listing_roundtrip_witness:
  "\<exists>t1 b'. push_strings_prealloc [''a'', ''bc''] (io_task_reset (extended_IO_task 2)) = Some t1 \<and>
     string_buf_pop_strings 2
       \<lparr>str_bytes = put_bytes 0 (extended_data (\<lambda>_ _. 0) (setup_prealloc_buffer t1)) (\<lambda>_. 0),
        str_total = 100, str_cur = 0\<rparr> = Some ([''a'', ''bc''], b')"
proof -
  have nul: "\<forall>s\<in>set [''a'', ''bc'']. CHR 0x00 \<notin> set s" by simp
  have len: "length (strings_bytes [''a'', ''bc'']) \<le> MAX_EXTENDED_MESSAGE_SIZE"
    "length (strings_bytes [''a'', ''bc'']) \<le> 100" by simp_all
  have two: "length [''a'', ''bc''] = 2" by simp
  show ?thesis
    using dir_listing_roundtrip [OF reset_task_ready(6,7) _ nul len,
        where mem = "\<lambda>_ _. 0" and f = "\<lambda>_. 0"] unfolding two by blast
qed

end
