(* ===== verification/Client_Comm.thy ===== *)
theory Client_Comm
  imports Task_Queue IO_Task "HOL-Library.Monad_Syntax"
begin

text \<open>
  How a client thread gets the answer to its query (Common/src/Client.cpp, Common/include/Client.h): a thread
  locks an output queue, fills a task and enqueues it; the sender thread takes it and writes it to
  the socket; the receiver thread puts what arrives into the input queue the message names; the
  client thread waits there.

  \<^item> The queues are those of \<open>Task_Queue\<close> with the tasks of \<open>IO_Task\<close> and their handle, a socket.
    The id of a task is the index of its queue (\<^verbatim>\<open>set_queue_id\<close> in the constructor).
  \<^item> A pointer to a handle is null, the handle inside the task of a query, or the variable of
    the receiver thread: three kinds of objects, so that pointers of different kinds differ.
  \<^item> The operating system decides whether a message is sent and a connection made: the parameter \<open>net\<close>.
  \<^item> None is an exception that is not caught, a lock nobody releases, or memory overwritten.
\<close>

section \<open>State\<close>

abbreviation (input) "SOCKET_KILLED \<equiv> 1 :: int"
abbreviation (input) "CONNECTION_SETUP_FAILED \<equiv> 2 :: int"

record comm_task =
  ct_task :: io_task
  ct_socket :: c_int

datatype handle_ptr = H_null | H_query nat nat | H_receiver

type_synonym comm_queue = "comm_task task_queue"

record comm =
  cm_input :: "comm_queue list"
  cm_output :: "comm_queue list"
  cm_locked :: "bool list"
  cm_handles :: "handle_ptr list"

record 'n net =
  net_send :: "comm_task \<Rightarrow> 'n \<Rightarrow> bool \<times> 'n"
  net_connect :: "comm_task \<Rightarrow> 'n \<Rightarrow> c_int option \<times> 'n"

definition new_comm_task :: "c_int \<Rightarrow> comm_task" where
  "new_comm_task i = \<lparr>ct_task = extended_IO_task i, ct_socket = 0\<rparr>"

text \<open>\<^verbatim>\<open>reset\<close> keeps the handle.\<close>

definition comm_task_reset :: "comm_task \<Rightarrow> comm_task" where
  "comm_task_reset t = t\<lparr>ct_task := io_task_reset (ct_task t)\<rparr>"

definition comm_task_set_id :: "c_int \<Rightarrow> comm_task \<Rightarrow> comm_task" where
  "comm_task_set_id i t = t\<lparr>ct_task := io_task_set_id i (ct_task t)\<rparr>"

definition new_comm_queue :: "nat \<Rightarrow> comm_queue option" where
  "new_comm_queue i = set_queue_id comm_task_set_id (int i) (task_parallel_queue 0 (new_comm_task 0) (-1) (-1))"

definition comm_init :: "nat \<Rightarrow> comm option" where
  "comm_init k =
     do {
       qs \<leftarrow> those (map new_comm_queue [0..<k]);
       Some \<lparr>cm_input = qs, cm_output = qs, cm_locked = replicate k False, cm_handles = replicate k H_null\<rparr>
     }"

section \<open>Queries\<close>

definition comm_alloc :: "comm_queue \<Rightarrow> nat \<times> comm_queue" where
  "comm_alloc = allocate_tmp_node comm_task_reset new_comm_task"

definition upd_task_node :: "nat \<Rightarrow> (comm_task \<Rightarrow> comm_task) \<Rightarrow> comm_queue \<Rightarrow> comm_queue" where
  "upd_task_node n g q = q\<lparr>node_body := (node_body q)(n := g (node_body q n))\<rparr>"

fun first_unlocked :: "bool list \<Rightarrow> nat option" where
  "first_unlocked [] = None"
| "first_unlocked (b # bs) = (if b then map_option Suc (first_unlocked bs) else Some 0)"

text \<open>The scan starts again at the first queue when it reaches the last.\<close>

definition get_new_communication_queue :: "comm \<Rightarrow> (nat \<times> comm) option" where
  "get_new_communication_queue c = do { i \<leftarrow> first_unlocked (cm_locked c); Some (i, c\<lparr>cm_locked := (cm_locked c)[i := True]\<rparr>) }"

definition release_communication_queue :: "nat \<Rightarrow> comm \<Rightarrow> comm" where
  "release_communication_queue i c = c\<lparr>cm_locked := (cm_locked c)[i := False]\<rparr>"

text \<open>A query is the index of its queue and its node there.\<close>

type_synonym comm_query = "nat \<times> nat"

definition new_query :: "(comm_task \<Rightarrow> comm_task) \<Rightarrow> comm \<Rightarrow> (comm_query \<times> comm) option" where
  "new_query g c =
     do {
       (i, c1) \<leftarrow> get_new_communication_queue c;
       let (n, q) = comm_alloc (cm_output c1 ! i);
       Some ((i, n), c1\<lparr>cm_output := (cm_output c1)[i := upd_task_node n (\<lambda>t. (g t)\<lparr>ct_task := set_receiver_id 0 (ct_task (g t))\<rparr>) q]\<rparr>)
     }"

definition allocate_new_query :: "c_int \<Rightarrow> comm \<Rightarrow> (comm_query \<times> comm) option" where
  "allocate_new_query sock = new_query (\<lambda>t. t\<lparr>ct_socket := sock\<rparr>)"

definition allocate_new_query_uri :: "string \<Rightarrow> c_int \<Rightarrow> comm \<Rightarrow> (comm_query \<times> comm) option" where
  "allocate_new_query_uri uri port = new_query (\<lambda>t. t\<lparr>ct_task := setup_new_connection uri port (ct_task t)\<rparr>)"

definition allocate_new_query_preallocated :: "c_int \<Rightarrow> nat \<Rightarrow> comm \<Rightarrow> (comm_query \<times> comm) option" where
  "allocate_new_query_preallocated sock i c =
     (if i < length (cm_output c) then
        (let (n, q) = comm_alloc (cm_output c ! i) in
         Some ((i, n), c\<lparr>cm_output := (cm_output c)[i := upd_task_node n (\<lambda>t. t\<lparr>ct_socket := sock\<rparr>) q]\<rparr>))
      else None)"

text \<open>\<open>wr\<close> is the result of the write to the event descriptor.\<close>

definition send_query :: "ssize_t \<Rightarrow> comm_query \<Rightarrow> comm \<Rightarrow> c_int \<times> comm" where
  "send_query wr query c =
     (let (r, q) = task_enqueue wr (cm_output c ! fst query) in (r, c\<lparr>cm_output := (cm_output c)[fst query := q]\<rparr>))"

section \<open>The sender thread\<close>

definition put_task :: "(comm_task \<Rightarrow> comm_task) \<Rightarrow> comm_queue \<Rightarrow> comm_queue" where
  "put_task g q = (let (n, q1) = comm_alloc q in snd (task_enqueue_signal_notification (upd_task_node n g q1)))"

definition input_enqueue :: "(comm_task \<Rightarrow> comm_task) \<Rightarrow> nat \<Rightarrow> comm \<Rightarrow> comm" where
  "input_enqueue g i c = c\<lparr>cm_input := (cm_input c)[i := put_task g (cm_input c ! i)]\<rparr>"

definition set_comm_error :: "c_int \<Rightarrow> comm_task \<Rightarrow> comm_task" where
  "set_comm_error e t = t\<lparr>ct_task := (ct_task t)\<lparr>task_error := e\<rparr>\<rparr>"

text \<open>The handle of the new task is not set.\<close>

definition reply_with_handle_error :: "nat \<Rightarrow> c_int \<Rightarrow> comm \<Rightarrow> c_int \<times> comm" where
  "reply_with_handle_error i e c = (0, input_enqueue (set_comm_error e) i c)"

definition comm_node_failure_handler :: "nat \<Rightarrow> comm \<Rightarrow> c_int \<times> comm" where
  "comm_node_failure_handler i c = (0, snd (reply_with_handle_error i SOCKET_KILLED c))"

definition connection_failure_handler :: "nat \<Rightarrow> comm \<Rightarrow> c_int \<times> comm" where
  "connection_failure_handler i = reply_with_handle_error i CONNECTION_SETUP_FAILED"

text \<open>
  \<^verbatim>\<open>connect_to_server\<close> catches what \<^verbatim>\<open>Connect\<close> throws. On success the handle goes into the task of the
  query, where \<^verbatim>\<open>get_query_response\<close> does not compare it.
\<close>

definition connect_to_server :: "'n net \<Rightarrow> nat \<Rightarrow> nat \<Rightarrow> comm \<times> 'n \<Rightarrow> comm \<times> 'n" where
  "connect_to_server net i n = (\<lambda>(c, w).
     (case net_connect net (node_body (cm_output c ! i) n) w of
        (Some sock, w1) \<Rightarrow> (c\<lparr>cm_output := (cm_output c)[i := upd_task_node n (\<lambda>t. t\<lparr>ct_socket := sock\<rparr>) (cm_output c ! i)]\<rparr>, w1)
      | (None, w1) \<Rightarrow> (snd (connection_failure_handler i c), w1)))"

definition producer_task :: "'n net \<Rightarrow> nat \<Rightarrow> comm \<times> 'n \<Rightarrow> (comm \<times> 'n) option" where
  "producer_task net i = (\<lambda>(c, w).
     do {
       (n, q) \<leftarrow> get_task (cm_output c ! i);
       let c1 = c\<lparr>cm_output := (cm_output c)[i := q]\<rparr>;
       if new_connection (ct_task (node_body q n)) then Some (connect_to_server net i n (c1, w))
       else (case net_send net (node_body q n) w of
               (True, w1) \<Rightarrow> Some (c1, w1)
             | (False, w1) \<Rightarrow> Some (snd (comm_node_failure_handler i c1), w1))
     })"

partial_function (option) input_from_producer :: "'n net \<Rightarrow> nat \<Rightarrow> comm \<times> 'n \<Rightarrow> (comm \<times> 'n) option" where
  "input_from_producer net i s =
     (if task_queue_is_empty (cm_output (fst s) ! i) then Some s
      else Option.bind (producer_task net i s) (input_from_producer net i))"

section \<open>The receiver thread\<close>

fun handle_index :: "handle_ptr \<Rightarrow> handle_ptr list \<Rightarrow> nat option" where
  "handle_index h [] = None"
| "handle_index h (x # xs) = (if h = x then Some 0 else map_option Suc (handle_index h xs))"

definition get_communication_queue_from_handle :: "handle_ptr \<Rightarrow> comm \<Rightarrow> nat option" where
  "get_communication_queue_from_handle h c = handle_index h (cm_handles c)"

text \<open>
  \<^verbatim>\<open>Client::input_from_network\<close> on the bytes \<open>w\<close> that the socket delivers, the empty list for a closed
  connection; the thread passes a pointer to its own variable. An id out of range ends the process: \<^verbatim>\<open>at\<close> throws what is not a
  \<^verbatim>\<open>runtime_error\<close>. The message part of a task with an error is not looked at.
\<close>

definition client_input_from_network :: "c_int \<Rightarrow> byte list \<Rightarrow> comm \<Rightarrow> (byte list \<times> comm) option" where
  "client_input_from_network sock w c =
     (case recv_bytes 4 w of
        Inl _ \<Rightarrow>
          (case get_communication_queue_from_handle H_receiver c of
             None \<Rightarrow> Some (w, c)
           | Some i \<Rightarrow> Some (w, input_enqueue (\<lambda>t. set_comm_error SOCKET_KILLED (t\<lparr>ct_socket := sock\<rparr>)) i c))
      | Inr (b, w1) \<Rightarrow>
          (let to_id = dec_int b in
           if 0 \<le> to_id \<and> to_id < int (length (cm_input c)) then
             (let (n, q) = comm_alloc (cm_input c ! nat to_id) in
              case receive_message w1 (ct_task (node_body q n)) of
                Inl Socket_closed \<Rightarrow> Some ([], input_enqueue (\<lambda>t. set_comm_error SOCKET_KILLED (t\<lparr>ct_socket := sock\<rparr>)) (nat to_id) c)
              | Inl Buffer_overflow \<Rightarrow> None
              | Inr (t1, w2) \<Rightarrow> Some (w2, input_enqueue (\<lambda>_. \<lparr>ct_task = t1, ct_socket = sock\<rparr>) (nat to_id) c))
           else None))"

section \<open>Waiting for the answer\<close>

text \<open>The loop ends at the first task from the socket of the query; a new connection takes the first task. None is a thread that waits.\<close>

partial_function (option) response_loop :: "bool \<Rightarrow> c_int \<Rightarrow> comm_queue \<Rightarrow> (comm_task option \<times> comm_queue) option" where
  "response_loop is_new sock q =
     (case recv_task q of
        None \<Rightarrow> Some (None, q)
      | Some (t, q1) \<Rightarrow> if is_new \<or> sock = ct_socket t then Some (Some t, q1) else response_loop is_new sock q1)"

datatype response = Waiting | Response comm_task | Killed

text \<open>
  \<^verbatim>\<open>get_query_response\<close>; \<open>report\<close> is the virtual \<^verbatim>\<open>_report_IOnode_failure\<close>. After an error the lock is released twice and the handle stays
  in the table.
\<close>

definition comm_query_response :: "(c_int \<Rightarrow> comm \<Rightarrow> comm option) \<Rightarrow> comm_query \<Rightarrow> comm \<Rightarrow> (response \<times> comm) option" where
  "comm_query_response report query c =
     (let i = fst query; t = node_body (cm_output c ! i) (snd query); c1 = c\<lparr>cm_handles := (cm_handles c)[i := H_query i (snd query)]\<rparr> in
      do {
        (r, q) \<leftarrow> response_loop (new_connection (ct_task t)) (ct_socket t) (cm_input c1 ! i);
        let c2 = c1\<lparr>cm_input := (cm_input c1)[i := q]\<rparr>;
        case r of
          None \<Rightarrow> Some (Waiting, c2)
        | Some x \<Rightarrow>
            if has_error (ct_task x)
            then do { c3 \<leftarrow> report (ct_socket t) (release_communication_queue i (release_communication_queue i c2)); Some (Killed, c3) }
            else Some (Response x, c2\<lparr>cm_handles := (cm_handles c2)[i := H_null]\<rparr>)
      })"

text \<open>The caller is done with the answer.\<close>

definition response_dequeue :: "nat \<Rightarrow> comm \<Rightarrow> comm" where
  "response_dequeue i c = release_communication_queue i c"

text \<open>\<^verbatim>\<open>_report_IOnode_failure\<close>, given the socket of the master if the handle belongs to one of its nodes. The queue stays locked.\<close>

definition comm_report_failure :: "c_int option \<Rightarrow> (io_task \<Rightarrow> io_task) \<Rightarrow> comm \<Rightarrow> comm option" where
  "comm_report_failure master msg c =
     (case master of
        None \<Rightarrow> Some c
      | Some sock \<Rightarrow> do {
          ((i, n), c1) \<leftarrow> allocate_new_query sock c;
          let c2 = c1\<lparr>cm_output := (cm_output c1)[i := upd_task_node n (\<lambda>t. t\<lparr>ct_task := msg (ct_task t)\<rparr>) (cm_output c1 ! i)]\<rparr>;
          Some (snd (send_query 0 (i, n) c2))
        })"

section \<open>Steps of the threads\<close>

text \<open>
  The operations of client threads, of the sender and of the receiver in any order. \<open>masters\<close> and \<open>msg\<close> are the parameters of
  \<^verbatim>\<open>_report_IOnode_failure\<close>.
\<close>

inductive comm_step :: "'n net \<Rightarrow> (c_int \<Rightarrow> c_int option) \<Rightarrow> (io_task \<Rightarrow> io_task) \<Rightarrow> comm \<Rightarrow> comm \<Rightarrow> bool" for net masters msg where
  step_query: "new_query g c = Some (query, c') \<Longrightarrow> comm_step net masters msg c c'"
| step_preallocated: "allocate_new_query_preallocated sock i c = Some (query, c') \<Longrightarrow> comm_step net masters msg c c'"
| step_fill: "comm_step net masters msg c (c\<lparr>cm_output := (cm_output c)[i := upd_task_node n g (cm_output c ! i)]\<rparr>)"
| step_send: "send_query wr query c = (r, c') \<Longrightarrow> comm_step net masters msg c c'"
| step_producer: "producer_task net i (c, w) = Some (c', w') \<Longrightarrow> comm_step net masters msg c c'"
| step_network: "client_input_from_network sock w c = Some (w', c') \<Longrightarrow> comm_step net masters msg c c'"
| step_response: "comm_query_response (\<lambda>sock. comm_report_failure (masters sock) msg) query c = Some (r, c') \<Longrightarrow> comm_step net masters msg c c'"
| step_release: "comm_step net masters msg c (response_dequeue i c)"

inductive comm_reach :: "'n net \<Rightarrow> (c_int \<Rightarrow> c_int option) \<Rightarrow> (io_task \<Rightarrow> io_task) \<Rightarrow> comm \<Rightarrow> bool" for net masters msg where
  comm_start: "comm_init k = Some c \<Longrightarrow> comm_reach net masters msg c"
| comm_next: "comm_reach net masters msg c \<Longrightarrow> comm_step net masters msg c c' \<Longrightarrow> comm_reach net masters msg c'"

text \<open>No entry of the handle table is the variable of the receiver thread; the input queues are queues.\<close>

definition comm_inv :: "comm \<Rightarrow> bool" where
  "comm_inv c \<longleftrightarrow> H_receiver \<notin> set (cm_handles c) \<and> (\<forall>q \<in> set (cm_input c). queue_ok q)"

lemma comm_invI: "H_receiver \<notin> set (cm_handles c) \<Longrightarrow> (\<And>q. q \<in> set (cm_input c) \<Longrightarrow> queue_ok q) \<Longrightarrow> comm_inv c"
  by (simp add: comm_inv_def)

lemma set_updateE:
  assumes "x \<in> set (xs[i := y])" "\<And>z. z \<in> set xs \<Longrightarrow> P z" "i < length xs \<Longrightarrow> P y"
  shows "P x"
proof (cases "i < length xs")
  case True
  then show ?thesis using assms set_update_subset_insert [of xs i y] by blast
next
  case False
  then show ?thesis using assms(1,2) by (simp add: list_update_beyond)
qed

section \<open>Queues of tasks\<close>

lemma alloc_body:
  assumes "queue_ok q" "comm_alloc q = (n, q1)"
  shows "n = queue_tmp_head q" "node_body q1 n = comm_task_reset (node_body q n)"
proof -
  from assms(1) obtain t ready unused where rep: "queue_rep q t ready [] unused" by (auto simp: queue_ok_def)
  then obtain f fs where fs: "unused = f # fs" by (cases unused) (auto simp: queue_rep_def)
  have "f \<noteq> node_fresh q" "queue_tmp_head q = f" using rep fs by (auto simp: queue_rep_def)
  then show "n = queue_tmp_head q" "node_body q1 n = comm_task_reset (node_body q n)"
    using assms(2) by (auto simp: comm_alloc_def allocate_tmp_node_def allocate_tmp_node_at_def Let_def split: if_splits)
qed

text \<open>A task that is put into an input queue: the free node, reset, with what \<open>g\<close> writes.\<close>

definition next_task :: "comm_queue \<Rightarrow> comm_task" where
  "next_task q = comm_task_reset (node_body q (queue_tmp_head q))"

lemma put_task_ok:
  assumes "queue_ok q"
  shows "queue_ok (put_task g q)" "queue_contents (put_task g q) = queue_contents q @ [g (next_task q)]"
proof -
  obtain n q1 where al: "comm_alloc q = (n, q1)" by fastforce
  have "put_task g q = send_task comm_task_reset new_comm_task 0 (g (node_body q1 n)) q"
    using al by (simp add: put_task_def comm_alloc_def send_task_def upd_task_node_def task_enqueue_signal_notification_def task_enqueue_def Let_def)
  moreover have "node_body q1 n = next_task q" using alloc_body [OF assms al] by (simp add: next_task_def)
  ultimately show "queue_ok (put_task g q)" "queue_contents (put_task g q) = queue_contents q @ [g (next_task q)]"
    using tq.put_ok [OF assms] by simp_all
qed

lemma next_task_reset:
  "current_point (ct_task (next_task q)) = 0" "task_error (ct_task (next_task q)) = 0" "\<not> new_connection (ct_task (next_task q))"
  by (simp_all add: next_task_def comm_task_reset_def io_task_reset_def basic_reset_def clear_send_recv_buffer_def
      clear_new_conection_def set_message_size_def set_extended_data_size_def Let_def)

lemma next_task_socket: "ct_socket (next_task q) = ct_socket (node_body q (queue_tmp_head q))"
  by (simp add: next_task_def comm_task_reset_def)

lemma response_loop_skips:
  assumes "queue_ok q" "queue_contents q = stale @ rest" "\<forall>s\<in>set stale. ct_socket s \<noteq> sock"
  shows "\<exists>q'. response_loop False sock q = response_loop False sock q' \<and> queue_ok q' \<and> queue_contents q' = rest"
  using assms
proof (induction stale arbitrary: q)
  case (Cons s stale)
  from tq.get_front [OF Cons.prems(1), of s "stale @ rest"] Cons.prems(2) obtain q1 where
    q1: "recv_task q = Some (s, q1)" "queue_ok q1" "queue_contents q1 = stale @ rest" by auto
  have "response_loop False sock q = response_loop False sock q1"
    using q1(1) Cons.prems(3) by (subst response_loop.simps) auto
  with Cons.IH [OF q1(2,3)] Cons.prems(3) show ?case by auto
qed auto

lemma response_loop_found:
  assumes "queue_ok q" "queue_contents q = stale @ t # rest" "\<forall>s\<in>set stale. ct_socket s \<noteq> sock" "ct_socket t = sock"
  shows "\<exists>q'. response_loop False sock q = Some (Some t, q') \<and> queue_ok q' \<and> queue_contents q' = rest"
proof -
  from response_loop_skips [OF assms(1-3)] obtain q1 where q1: "response_loop False sock q = response_loop False sock q1"
    "queue_ok q1" "queue_contents q1 = t # rest" by blast
  from tq.get_front [OF q1(2,3)] obtain q2 where "recv_task q1 = Some (t, q2)" "queue_ok q2" "queue_contents q2 = rest" by blast
  then show ?thesis unfolding q1(1) using assms(4) by (subst response_loop.simps) simp
qed

lemma response_loop_waits:
  assumes "queue_ok q" "\<forall>s\<in>set (queue_contents q). ct_socket s \<noteq> sock"
  shows "\<exists>q'. response_loop False sock q = Some (None, q') \<and> queue_ok q' \<and> queue_contents q' = []"
proof -
  from response_loop_skips [OF assms(1) _ assms(2), of "[]"] obtain q1 where q1: "response_loop False sock q = response_loop False sock q1"
    "queue_ok q1" "queue_contents q1 = []" by auto
  have "recv_task q1 = None" using q1(2,3) by (rule tq.get_empty)
  then have "response_loop False sock q1 = Some (None, q1)" by (subst response_loop.simps) simp
  then show ?thesis using q1 by auto
qed

lemma response_loop_ok:
  assumes "queue_ok q" "response_loop b sock q = Some (r, q')"
  shows "queue_ok q'"
proof -
  have "queue_ok q \<Longrightarrow> response_loop b sock q = Some (r, q') \<Longrightarrow> queue_ok q'" for q
  proof (induction "queue_contents q" arbitrary: q)
    case Nil
    then show ?case using tq.get_empty [OF Nil(2)] by (subst (asm) response_loop.simps) auto
  next
    case (Cons t ts)
    from tq.get_front [OF Cons.prems(1) Cons.hyps(2) [symmetric]] obtain q1 where q1: "recv_task q = Some (t, q1)" "queue_ok q1" "queue_contents q1 = ts" by blast
    with Cons.hyps(1) [of q1] Cons.prems(2) show ?case by (subst (asm) (2) response_loop.simps) (auto split: if_splits)
  qed
  then show ?thesis using assms by blast
qed

section \<open>The invariant\<close>

lemma comm_inv_output [simp]: "comm_inv (c\<lparr>cm_output := qs\<rparr>) = comm_inv c" "comm_inv (c\<lparr>cm_locked := ls\<rparr>) = comm_inv c"
  by (simp_all add: comm_inv_def)

lemma comm_inv_input:
  assumes "comm_inv c" "i < length (cm_input c) \<Longrightarrow> queue_ok q"
  shows "comm_inv (c\<lparr>cm_input := (cm_input c)[i := q]\<rparr>)"
  using assms by (auto simp: comm_inv_def elim!: set_updateE)

lemma comm_inv_handles:
  assumes "comm_inv c" "h \<noteq> H_receiver"
  shows "comm_inv (c\<lparr>cm_handles := (cm_handles c)[i := h]\<rparr>)"
  using assms by (auto simp: comm_inv_def dest!: set_update_subset_insert [THEN subsetD])

lemma comm_inv_queue: "comm_inv c \<Longrightarrow> i < length (cm_input c) \<Longrightarrow> queue_ok (cm_input c ! i)"
  by (simp add: comm_inv_def)

lemma comm_inv_enqueue: "comm_inv c \<Longrightarrow> comm_inv (input_enqueue g i c)"
  unfolding input_enqueue_def by (intro comm_inv_input put_task_ok comm_inv_queue)

lemma handle_index_absent: "h \<notin> set hs \<Longrightarrow> handle_index h hs = None"
  by (induction hs) auto

lemmas comm_ops = get_new_communication_queue_def new_query_def allocate_new_query_def allocate_new_query_preallocated_def send_query_def
  release_communication_queue_def response_dequeue_def reply_with_handle_error_def comm_node_failure_handler_def connection_failure_handler_def

lemma new_query_inv: "new_query g c = Some (query, c') \<Longrightarrow> comm_inv c \<Longrightarrow> comm_inv c'"
  by (auto simp: comm_ops bind_eq_Some_conv case_prod_unfold Let_def)

lemma producer_inv: "producer_task net i (c, w) = Some (c', w') \<Longrightarrow> comm_inv c \<Longrightarrow> comm_inv c'"
  by (auto simp: producer_task_def connect_to_server_def comm_ops Let_def bind_eq_Some_conv intro!: comm_inv_enqueue
      split: if_splits prod.splits option.splits bool.splits)

lemma network_inv: "client_input_from_network sock w c = Some (w', c') \<Longrightarrow> comm_inv c \<Longrightarrow> comm_inv c'"
  by (auto simp: client_input_from_network_def Let_def intro!: comm_inv_enqueue
      split: if_splits prod.splits option.splits sum.splits recv_error.splits)

lemma report_inv: "comm_report_failure master msg c = Some c' \<Longrightarrow> comm_inv c \<Longrightarrow> comm_inv c'"
  by (auto simp: comm_report_failure_def allocate_new_query_def send_query_def Let_def bind_eq_Some_conv case_prod_unfold split: option.splits dest: new_query_inv)

lemma response_inv:
  assumes "comm_query_response (\<lambda>sock. comm_report_failure (masters sock) msg) query c = Some (r, c')" "comm_inv c"
  shows "comm_inv c'"
proof -
  let ?i = "fst query" and ?t = "node_body (cm_output c ! fst query) (snd query)"
  let ?c1 = "c\<lparr>cm_handles := (cm_handles c)[?i := H_query ?i (snd query)]\<rparr>"
  from assms(1) obtain x q where l: "response_loop (new_connection (ct_task ?t)) (ct_socket ?t) (cm_input c ! ?i) = Some (x, q)"
    by (auto simp: comm_query_response_def Let_def bind_eq_Some_conv)
  have "comm_inv ?c1" using assms(2) by (intro comm_inv_handles) simp_all
  then have "comm_inv (?c1\<lparr>cm_input := (cm_input ?c1)[?i := q]\<rparr>)"
    using response_loop_ok [OF comm_inv_queue [OF assms(2)] l] by (intro comm_inv_input) auto
  then show ?thesis using assms(1) l comm_inv_handles [of "?c1\<lparr>cm_input := (cm_input ?c1)[?i := q]\<rparr>" H_null ?i]
    by (auto simp: comm_query_response_def Let_def bind_eq_Some_conv release_communication_queue_def split: option.splits if_splits dest: report_inv)
qed

lemma new_comm_queue_ok: "new_comm_queue i = Some q \<Longrightarrow> queue_ok q \<and> queue_contents q = []"
proof -
  assume q: "new_comm_queue i = Some q"
  note rep = new_queue_rep [of 0 "new_comm_task 0" "-1" "-1"]
  have "queue_rep q 1 [] [] [2]" using q rep
    by (auto simp: new_comm_queue_def set_queue_id_def queue_rep_def split: option.splits)
  then show ?thesis by (auto simp: queue_ok_def queue_contents_def ready_nodes_rep)
qed

lemma those_set: "those xs = Some ys \<Longrightarrow> y \<in> set ys \<Longrightarrow> Some y \<in> set xs"
  by (induction xs arbitrary: ys) (auto split: option.splits)

lemma comm_init_inv:
  assumes "comm_init k = Some c"
  shows "comm_inv c"
proof -
  from assms obtain qs where qs: "those (map new_comm_queue [0..<k]) = Some qs"
    "c = \<lparr>cm_input = qs, cm_output = qs, cm_locked = replicate k False, cm_handles = replicate k H_null\<rparr>"
    by (auto simp: comm_init_def bind_eq_Some_conv)
  have "queue_ok q" if "q \<in> set qs" for q using those_set [OF qs(1) that] new_comm_queue_ok by (metis imageE set_map)
  then show ?thesis unfolding qs(2) by (auto simp: comm_inv_def)
qed

lemma comm_reach_inv: "comm_reach net masters msg c \<Longrightarrow> comm_inv c"
proof (induction rule: comm_reach.induct)
  case (comm_start k c)
  then show ?case by (rule comm_init_inv)
next
  case (comm_next c c')
  from comm_next.hyps(2) comm_next.IH show ?case
    by (induction rule: comm_step.induct)
      (auto simp: send_query_def response_dequeue_def release_communication_queue_def allocate_new_query_preallocated_def Let_def
        dest: new_query_inv producer_inv network_inv response_inv split: prod.splits if_splits)
qed

section \<open>Properties\<close>

lemma new_comm_queue_some: "\<exists>q. new_comm_queue i = Some q \<and> node_body q 2 = comm_task_set_id (int i) (new_comm_task 0)"
  by (simp add: new_comm_queue_def set_queue_id_def task_parallel_queue_def set_id_loop.simps)

text \<open>A client with one queue and a query on socket 5.\<close>

lemma demo_query:
  "\<exists>c0 c. comm_init 1 = Some c0 \<and> allocate_new_query 5 c0 = Some ((0, 2), c) \<and> comm_reach net masters msg c \<and> length (cm_input c) = 1 \<and>
     length (cm_handles c) = 1 \<and> queue_contents (cm_input c ! 0) = [] \<and>
     node_body (cm_output c ! 0) 2 = \<lparr>ct_task = set_receiver_id 0 (io_task_reset (io_task_set_id 0 (extended_IO_task 0))), ct_socket = 5\<rparr>"
proof -
  from new_comm_queue_some [of 0] obtain q where q: "new_comm_queue 0 = Some q" "node_body q 2 = comm_task_set_id 0 (new_comm_task 0)" by auto
  note ok = new_comm_queue_ok [OF q(1)]
  have tmp: "queue_tmp_head q = 2" using q(1)
    by (auto simp: new_comm_queue_def set_queue_id_def task_parallel_queue_def set_id_loop.simps)
  obtain n q1 where al: "comm_alloc q = (n, q1)" by fastforce
  have n: "n = 2" "node_body q1 2 = comm_task_reset (node_body q 2)" using alloc_body [OF conjunct1 [OF ok] al] tmp by simp_all
  let ?start = "\<lparr>cm_input = [q], cm_output = [q], cm_locked = [False], cm_handles = [H_null]\<rparr>"
  let ?g = "\<lambda>t. t\<lparr>ct_socket := 5\<rparr>"
  let ?c = "?start\<lparr>cm_locked := [True], cm_output := [upd_task_node 2 (\<lambda>t. (?g t)\<lparr>ct_task := set_receiver_id 0 (ct_task (?g t))\<rparr>) q1]\<rparr>"
  have qs: "those (map new_comm_queue [0..<1]) = Some [q]" using q(1) by simp
  have i: "comm_init 1 = Some ?start" unfolding comm_init_def qs by simp
  have a: "allocate_new_query 5 ?start = Some ((0, 2), ?c)" using al n(1) by (simp add: allocate_new_query_def new_query_def get_new_communication_queue_def)
  have r: "comm_reach net masters msg ?c"
    using comm_next [OF comm_start [OF i] step_query [OF a [unfolded allocate_new_query_def]]] .
  have "node_body (cm_output ?c ! 0) 2 = \<lparr>ct_task = set_receiver_id 0 (io_task_reset (io_task_set_id 0 (extended_IO_task 0))), ct_socket = 5\<rparr>"
    using n(2) q(2) by (simp add: upd_task_node_def comm_task_reset_def comm_task_set_id_def new_comm_task_def)
  then show ?thesis using i a r ok by (intro exI [of _ ?start] exI [of _ ?c]) (simp add: upd_task_node_def)
qed

text \<open>
  The error after a send that failed is put into a recycled task without a handle. Unless that task last came from the same
  connection, the waiting thread takes it for a left-over and drops it.
\<close>

lemma send_error_dropped:
  assumes "comm_reach net masters msg c" "i < length (cm_input c)" "t = node_body (cm_output c ! i) n" "\<not> new_connection (ct_task t)"
    and "\<forall>s\<in>set (queue_contents (cm_input c ! i)). ct_socket s \<noteq> ct_socket t" "ct_socket (next_task (cm_input c ! i)) \<noteq> ct_socket t"
  shows "\<exists>c'. comm_query_response report (i, n) (snd (comm_node_failure_handler i c)) = Some (Waiting, c')"
proof -
  have ok: "queue_ok (cm_input c ! i)" using comm_inv_queue [OF comm_reach_inv [OF assms(1)] assms(2)] .
  let ?q = "put_task (set_comm_error SOCKET_KILLED) (cm_input c ! i)"
  have "\<forall>s\<in>set (queue_contents ?q). ct_socket s \<noteq> ct_socket t" using put_task_ok(2) [OF ok] assms(5,6) by (auto simp: set_comm_error_def)
  from response_loop_waits [OF put_task_ok(1) [OF ok] this] obtain q1 where "response_loop False (ct_socket t) ?q = Some (None, q1)" by blast
  then show ?thesis using assms(2-4)
    by (simp add: comm_query_response_def comm_node_failure_handler_def reply_with_handle_error_def input_enqueue_def Let_def)
qed

text \<open>A query gets its own answer. While a client thread waits for the answer to a query and its input queue holds only
  left-over answers from other connections, a reply that a server sends to that queue on the connection of the query is received by
  the receiver thread and handed to the thread: \<^verbatim>\<open>get_query_response\<close> returns, drops the left-overs, and the answer has the
  message and the extended data the server sent. The queue is empty afterwards and the other queues are as they were.\<close>

lemma query_gets_own_response:
  assumes "comm_reach net masters msg c" "i < length (cm_input c)" "i < length (cm_handles c)"
    and "t = node_body (cm_output c ! i) n" "\<not> new_connection (ct_task t)"
    and "\<forall>s\<in>set (queue_contents (cm_input c ! i)). ct_socket s \<noteq> ct_socket t"
    and "send_message mem reply = Some w" "get_receiver_id reply = int i"
    and "int (length (extended_data mem reply)) = get_extended_data_size reply" "get_extended_data_size reply \<le> int MAX_TRANSFER_SIZE"
  shows "\<exists>c1 x c2. client_input_from_network (ct_socket t) (w @ rest) c = Some (rest, c1) \<and>
    comm_query_response report (i, n) c1 = Some (Response x, c2) \<and> ct_socket x = ct_socket t \<and> pending (ct_task x) = message_body reply \<and>
    (get_extended_data_size reply \<noteq> 0 \<longrightarrow>
      (\<exists>t''. get_received_data_all (ct_task x) = Some (extended_data mem reply, get_extended_data_size reply, t''))) \<and>
    queue_contents (cm_input c2 ! i) = [] \<and> cm_handles c2 ! i = H_null \<and> (\<forall>j. j \<noteq> i \<longrightarrow> cm_input c2 ! j = cm_input c ! j)"
proof -
  have ok: "queue_ok (cm_input c ! i)" using comm_inv_queue [OF comm_reach_inv [OF assms(1)] assms(2)] .
  obtain m q where al: "comm_alloc (cm_input c ! i) = (m, q)" by fastforce
  have b: "node_body q m = next_task (cm_input c ! i)" using alloc_body [OF ok al] by (simp add: next_task_def)
  note sb = sent_bytes [OF assms(7)]
  have u: "current_point (ct_task (node_body q m)) = 0" "task_error (ct_task (node_body q m)) = 0" unfolding b by (rule next_task_reset)+
  from receive_message_sent [OF sb(2) u(1) assms(9,10), of rest] obtain t1 where t1:
    "receive_message (get_bytes 4 20 (message_buffer reply) @ message_body reply @ extended_data mem reply @ rest) (ct_task (node_body q m)) = Inr (t1, rest)"
    "task_error t1 = 0" "pending t1 = message_body reply"
    "get_extended_data_size reply \<noteq> 0 \<longrightarrow> (\<exists>t''. get_received_data_all t1 = Some (extended_data mem reply, get_extended_data_size reply, t''))"
    using u(2) by auto
  let ?x = "\<lparr>ct_task = t1, ct_socket = ct_socket t\<rparr>"
  define q1 where "q1 = put_task (\<lambda>_. ?x) (cm_input c ! i)"
  have q1: "queue_ok q1" "queue_contents q1 = queue_contents (cm_input c ! i) @ [?x]" unfolding q1_def by (rule put_task_ok [OF ok])+
  have net: "client_input_from_network (ct_socket t) (w @ rest) c = Some (rest, c\<lparr>cm_input := (cm_input c)[i := q1]\<rparr>)"
    using assms(2,8) t1(1) al unfolding sb(1) by (simp add: client_input_from_network_def get_receiver_id_def input_enqueue_def q1_def Let_def)
  from response_loop_found [OF q1 assms(6)] obtain q2 where q2: "response_loop False (ct_socket t) q1 = Some (Some ?x, q2)"
    "queue_contents q2 = []" by auto
  let ?c1 = "c\<lparr>cm_input := (cm_input c)[i := q1]\<rparr>"
  let ?c2 = "?c1\<lparr>cm_handles := (cm_handles c)[i := H_query i n, i := H_null], cm_input := (cm_input c)[i := q2]\<rparr>"
  have "comm_query_response report (i, n) ?c1 = Some (Response ?x, ?c2)"
    using assms(2,4,5) q2(1) t1(2) by (simp add: comm_query_response_def has_error_def Let_def)
  then show ?thesis using net t1(3,4) q2(2) assms(2,3)
    by (intro exI [of _ ?c1] exI [of _ ?x] exI [of _ ?c2]) simp
qed

text \<open>C33: a connection that breaks while its answer is awaited is not noticed. In every reachable state, when the
  receiver thread finds a connection closed, nothing changes: the table of waiting threads holds addresses of handles inside queries and
  is searched for the address of the receiver's own variable. A thread that waits for an answer on that connection goes
  on waiting, after this and after every further closed connection, and the code that repeats a query after an exception is not reached.\<close>

theorem broken_connection_unnoticed:
  assumes "comm_reach net masters msg c" "i < length (cm_input c)" "t = node_body (cm_output c ! i) n" "\<not> new_connection (ct_task t)"
    and "\<forall>s\<in>set (queue_contents (cm_input c ! i)). ct_socket s \<noteq> ct_socket t"
  shows "client_input_from_network sock [] c = Some ([], c) \<and> (\<exists>c'. comm_query_response report (i, n) c = Some (Waiting, c') \<and>
    comm_query_response report (i, n) c' = Some (Waiting, c') \<and> client_input_from_network sock [] c' = Some ([], c'))"
proof -
  have inv: "comm_inv c" using assms(1) by (rule comm_reach_inv)
  have ok: "queue_ok (cm_input c ! i)" using comm_inv_queue [OF inv assms(2)] .
  have lost: "client_input_from_network sock [] c = Some ([], c)" if "comm_inv c" for c
    using that by (simp add: client_input_from_network_def recv_bytes_def get_communication_queue_from_handle_def comm_inv_def handle_index_absent)
  from response_loop_waits [OF ok assms(5)] obtain q where q: "response_loop False (ct_socket t) (cm_input c ! i) = Some (None, q)"
    "queue_ok q" "queue_contents q = []" by blast
  let ?c = "c\<lparr>cm_handles := (cm_handles c)[i := H_query i n], cm_input := (cm_input c)[i := q]\<rparr>"
  have c: "comm_query_response report (i, n) c = Some (Waiting, ?c)" using assms(3,4) q(1) by (simp add: comm_query_response_def Let_def)
  have "response_loop False (ct_socket t) q = Some (None, q)" using tq.get_empty [OF q(2,3)] by (subst response_loop.simps) simp
  then have "comm_query_response report (i, n) ?c = Some (Waiting, ?c)" using assms(2-4) by (simp add: comm_query_response_def Let_def)
  moreover have "comm_inv ?c" using comm_inv_input [OF comm_inv_handles [OF inv, of "H_query i n" i], of i q] q(2) by simp
  ultimately show ?thesis using c lost inv by blast
qed

theorem broken_connection_unnoticed_witness:
  "\<exists>c0 c c'. comm_init 1 = Some c0 \<and> allocate_new_query 5 c0 = Some ((0, 2), c) \<and> client_input_from_network 5 [] c = Some ([], c) \<and>
     comm_query_response (\<lambda>_. Some) (0, 2) c = Some (Waiting, c') \<and> comm_query_response (\<lambda>_. Some) (0, 2) c' = Some (Waiting, c')"
proof -
  from demo_query [where net = "\<lparr>net_send = \<lambda>_ u. (True, u), net_connect = \<lambda>_ u. (None, u)\<rparr>" and masters = "\<lambda>_. None" and msg = id] obtain c0 c where
    c0: "comm_init 1 = Some c0" "allocate_new_query 5 c0 = Some ((0, 2), c)" and
    c: "comm_reach \<lparr>net_send = \<lambda>_ u :: unit. (True, u), net_connect = \<lambda>_ u. (None, u)\<rparr> (\<lambda>_. None) id c" "0 < length (cm_input c)"
      "\<forall>s\<in>set (queue_contents (cm_input c ! 0)). ct_socket s \<noteq> ct_socket (node_body (cm_output c ! 0) 2)"
      "node_body (cm_output c ! 0) 2 = \<lparr>ct_task = set_receiver_id 0 (io_task_reset (io_task_set_id 0 (extended_IO_task 0))), ct_socket = 5\<rparr>" by fastforce
  have "\<not> new_connection (set_receiver_id 0 (io_task_reset (io_task_set_id 0 (extended_IO_task 0))))" by code_simp
  then have "\<not> new_connection (ct_task (node_body (cm_output c ! 0) 2))" unfolding c(4) by simp
  from broken_connection_unnoticed [OF c(1,2) refl this c(3), of 5 "\<lambda>_. Some"] c0 show ?thesis by blast
qed

end
