(* ===== verification/HFS_Const.thy ===== *)
theory HFS_Const
  imports HFS_Prelude
begin

text \<open>
  The numeric constants of Common/include/CBB\_const.h and of the C library that messages and
  states carry. They are input abbreviations: a printed or evaluated term shows the number.
\<close>

abbreviation (input) "O_CREAT \<equiv> 64 :: int"
abbreviation (input) "O_TRUNC \<equiv> 512 :: int"
abbreviation (input) "S_IFREG \<equiv> 32768 :: int"
abbreviation (input) "S_IFDIR \<equiv> 16384 :: int"
abbreviation (input) "ENOENT \<equiv> 2 :: int"
abbreviation (input) "SUCCESS \<equiv> 0 :: int"
abbreviation (input) "FAILURE \<equiv> -1 :: int"
abbreviation (input) "REGISTER \<equiv> 1 :: int"
abbreviation (input) "OPEN_FILE \<equiv> 5 :: int"
abbreviation (input) "READ_FILE \<equiv> 6 :: int"
abbreviation (input) "WRITE_FILE \<equiv> 7 :: int"
abbreviation (input) "FLUSH_FILE \<equiv> 8 :: int"
abbreviation (input) "CLOSE_FILE \<equiv> 9 :: int"
abbreviation (input) "GET_ATTR \<equiv> 13 :: int"
abbreviation (input) "READ_DIR \<equiv> 14 :: int"
abbreviation (input) "RM_DIR \<equiv> 15 :: int"
abbreviation (input) "UNLINK \<equiv> 16 :: int"
abbreviation (input) "ACCESS \<equiv> 17 :: int"
abbreviation (input) "MKDIR \<equiv> 18 :: int"
abbreviation (input) "RENAME \<equiv> 19 :: int"
abbreviation (input) "NEW_CLIENT \<equiv> 20 :: int"
abbreviation (input) "CLOSE_CLIENT \<equiv> 21 :: int"
abbreviation (input) "TRUNCATE \<equiv> 22 :: int"
abbreviation (input) "RENAME_MIGRATING \<equiv> 23 :: int"
abbreviation (input) "NODE_FAILURE \<equiv> 25 :: int"
abbreviation (input) "PROMOTED_TO_PRIMARY_REPLICA \<equiv> 29 :: int"
abbreviation (input) "REPLACE_REPLICA \<equiv> 30 :: int"
abbreviation (input) "REMOVE_IONODE \<equiv> 31 :: int"
abbreviation (input) "IONODE_FAILURE \<equiv> 32 :: int"
abbreviation (input) "UPDATE_META \<equiv> 33 :: int"
abbreviation (input) "TOO_MANY_FILES \<equiv> 50 :: int"
abbreviation (input) "FILE_NOT_FOUND \<equiv> 51 :: int"
abbreviation (input) "UNKNOWN_ERROR \<equiv> 52 :: int"
abbreviation (input) "EXISTING \<equiv> 1 :: int"
abbreviation (input) "NOT_EXIST \<equiv> 0 :: int"
abbreviation (input) "OUT_OF_RANGE \<equiv> 100 :: int"
abbreviation (input) "EXTERNAL \<equiv> 0 :: int"
abbreviation (input) "INTERNAL \<equiv> -1 :: int"
abbreviation (input) "RENAMED \<equiv> 1 :: int"
abbreviation (input) "MYSELF \<equiv> -1 :: int"
abbreviation (input) "MAIN_REPLICA \<equiv> 0 :: int"
abbreviation (input) "SUB_REPLICA \<equiv> 1 :: int"
abbreviation (input) "APPEND_BLOCK \<equiv> 12 :: int"
abbreviation (input) "HEART_BEAT \<equiv> 24 :: int"
abbreviation (input) "DATA_SYNC \<equiv> 27 :: int"
abbreviation (input) "NEW_IONODE \<equiv> 28 :: int"
abbreviation (input) "DELETE_FILE \<equiv> 34 :: int"
abbreviation (input) "TO_BE_DELETED \<equiv> 1 :: int"
abbreviation (input) "TO_BE_CLOSED \<equiv> 2 :: int"
abbreviation (input) "INBUFFER \<equiv> True"
abbreviation (input) "SWAPPED_OUT \<equiv> False"
abbreviation (input) "IDLE \<equiv> 0 :: int"
abbreviation (input) "ON_GOING \<equiv> 1 :: int"
abbreviation (input) "DATA_SYNC_INIT \<equiv> 0 :: int"
abbreviation (input) "DATA_SYNC_WRITE \<equiv> 1 :: int"
abbreviation (input) "CBB_REMOTE_WRITE_BACK \<equiv> 0 :: int"
abbreviation (input) "EINTR \<equiv> 4 :: int"
abbreviation (input) "EAGAIN \<equiv> 11 :: int"
abbreviation (input) "EACCES \<equiv> 13 :: int"
abbreviation (input) "EINVAL \<equiv> 22 :: int"

end
