(* ===== verification/Server_Comm.thy ===== *)
theory Server_Comm
  imports Client_Comm HFS_Const
begin

text \<open>
  The communication of a server (Common/src/Server.cpp, Common/src/CBB\_request\_handler.cpp): the receiver thread puts
  requests into input queues, the handler thread takes them and allocates the answer in the output
  queue of the same number, the sender thread sends it. The build for TCP. Together with
  \<open>Client_Comm\<close>: the way of a request to the server and of its answer back to the thread that asked.
\<close>

section \<open>State\<close>

text \<open>\<open>sv_known\<close> are the sockets added to the receiver's \<^verbatim>\<open>epoll\<close> descriptor.\<close>

record server_comm =
  sv_input :: "comm_queue list"
  sv_output :: "comm_queue list"
  sv_handles :: "handle_ptr list"
  sv_socket :: c_int
  sv_known :: "c_int list"

definition server_init :: "nat \<Rightarrow> c_int \<Rightarrow> server_comm option" where
  "server_init k sock =
     do {
       qs \<leftarrow> those (map new_comm_queue [0..<k]);
       Some \<lparr>sv_input = qs, sv_output = qs, sv_handles = replicate k H_null, sv_socket = sock, sv_known = [sock]\<rparr>
     }"

section \<open>The threads\<close>

definition send_input_for_handle_error :: "c_int \<Rightarrow> server_comm \<Rightarrow> (c_int \<times> server_comm) option" where
  "send_input_for_handle_error sock S =
     (case sv_input S of
        [] \<Rightarrow> None
      | q # qs \<Rightarrow> do {
          t \<leftarrow> push_int NODE_FAILURE (ct_task (next_task q));
          Some (0, S\<lparr>sv_input := put_task (\<lambda>_. \<lparr>ct_task = t, ct_socket = sock\<rparr>) q # qs\<rparr>)
        })"

definition server_node_failure_handler :: "c_int \<Rightarrow> server_comm \<Rightarrow> (c_int \<times> server_comm) option" where
  "server_node_failure_handler = send_input_for_handle_error"

definition server_connection_failure_handler :: "server_comm \<Rightarrow> c_int \<times> server_comm" where
  "server_connection_failure_handler S = (0, S)"

text \<open>
  \<^verbatim>\<open>Server::input_from_network\<close>; \<open>accepted\<close> is the result of \<^verbatim>\<open>accept\<close> on the server's own socket. The node of a
  message that breaks off is given back before the failure is reported.
\<close>

definition server_input_from_network :: "c_int option \<Rightarrow> c_int \<Rightarrow> byte list \<Rightarrow> server_comm \<Rightarrow> (c_int \<times> byte list \<times> server_comm) option" where
  "server_input_from_network accepted sock w S =
     (if sock = sv_socket S then
        (case accepted of
           None \<Rightarrow> Some (-1, w, S)
         | Some s \<Rightarrow> Some (0, w, S\<lparr>sv_known := sv_known S @ [s]\<rparr>))
      else case recv_bytes 4 w of
        Inl _ \<Rightarrow> do { (_, S1) \<leftarrow> server_node_failure_handler sock S; Some (0, w, S1) }
      | Inr (b, w1) \<Rightarrow>
          (let to_id = dec_int b in
           if 0 \<le> to_id \<and> to_id < int (length (sv_input S)) then
             (let (n, q) = comm_alloc (sv_input S ! nat to_id) in
              case receive_message w1 (set_receiver_id to_id (ct_task (node_body q n))) of
                Inl Socket_closed \<Rightarrow> do {
                  (_, S1) \<leftarrow> server_node_failure_handler sock (S\<lparr>sv_input := (sv_input S)[nat to_id := putback_tmp_node q]\<rparr>);
                  Some (0, [], S1)
                }
              | Inl Buffer_overflow \<Rightarrow> None
              | Inr (t1, w2) \<Rightarrow>
                  Some (0, w2, S\<lparr>sv_input := (sv_input S)[nat to_id := put_task (\<lambda>_. \<lparr>ct_task = t1, ct_socket = sock\<rparr>) (sv_input S ! nat to_id)]\<rparr>))
           else None))"

definition server_producer_task :: "'n net \<Rightarrow> nat \<Rightarrow> server_comm \<times> 'n \<Rightarrow> (server_comm \<times> 'n) option" where
  "server_producer_task net j = (\<lambda>(S, w).
     do {
       (n, q) \<leftarrow> get_task (sv_output S ! j);
       let S1 = S\<lparr>sv_output := (sv_output S)[j := q]\<rparr>;
       let t = node_body q n;
       if new_connection (ct_task t) then
         (case net_connect net t w of
            (Some s, w1) \<Rightarrow> Some (S1\<lparr>sv_known := sv_known S1 @ [s]\<rparr>, w1)
          | (None, w1) \<Rightarrow> Some (snd (server_connection_failure_handler S1), w1))
       else
         (case net_send net t w of
            (True, w1) \<Rightarrow> Some (S1, w1)
          | (False, w1) \<Rightarrow> do { (_, S2) \<leftarrow> server_node_failure_handler (ct_socket t) S1; Some (S2, w1) })
     })"

partial_function (option) server_input_from_producer :: "'n net \<Rightarrow> nat \<Rightarrow> server_comm \<times> 'n \<Rightarrow> (server_comm \<times> 'n) option" where
  "server_input_from_producer net j s =
     (if task_queue_is_empty (sv_output (fst s) ! j) then Some s
      else Option.bind (server_producer_task net j s) (server_input_from_producer net j))"

text \<open>The answer to the task in node \<open>m\<close> of input queue \<open>j\<close>: the node of the answer.\<close>

definition init_response_task :: "nat \<Rightarrow> nat \<Rightarrow> server_comm \<Rightarrow> (nat \<times> server_comm) option" where
  "init_response_task j m S =
     (if j < length (sv_output S) then
        (let input_task = node_body (sv_input S ! j) m;
             (n, q) = comm_alloc (sv_output S ! j);
             q1 = upd_task_node n (\<lambda>t. t\<lparr>ct_socket := ct_socket input_task, ct_task := set_receiver_id (get_receiver_id (ct_task input_task)) (ct_task t)\<rparr>) q
         in Some (n, S\<lparr>sv_output := (sv_output S)[j := q1], sv_handles := (sv_handles S)[j := H_query j m]\<rparr>))
      else None)"

text \<open>
  One round of the handler thread; \<open>interval\<close> and \<open>parse\<close> are the virtual \<^verbatim>\<open>interval_process\<close> and \<^verbatim>\<open>_parse_request\<close>, which gets the node
  in queue 0. None is a thread that waits for a request.
\<close>

definition handle_routine :: "(server_comm \<Rightarrow> server_comm option) \<Rightarrow> (nat \<Rightarrow> server_comm \<Rightarrow> server_comm option) \<Rightarrow> server_comm \<Rightarrow> server_comm option" where
  "handle_routine interval parse S =
     do {
       S1 \<leftarrow> interval S;
       (m, q) \<leftarrow> get_task (sv_input S1 ! 0);
       parse m (S1\<lparr>sv_input := (sv_input S1)[0 := q]\<rparr>)
     }"

section \<open>A request at the server\<close>

lemma get_task_contents:
  assumes "queue_ok q" "queue_contents q = [x]"
  shows "\<exists>m q'. get_task q = Some (m, q') \<and> node_body q' m = x \<and> queue_ok q' \<and> queue_contents q' = []"
  using tq.get_front [OF assms] by (auto simp: recv_task_def split: option.splits)

lemma receiver_id_set: "int_ok k \<Longrightarrow> get_receiver_id (set_receiver_id k t) = k"
  by (simp add: get_receiver_id_def set_receiver_id_def int_ok_def enc_dec_int)

lemma request_received:
  assumes "queue_ok (sv_input S ! 0)" "queue_contents (sv_input S ! 0) = []" "0 < length (sv_input S)" "sock \<noteq> sv_socket S"
    and "send_message mem query = Some w" "get_receiver_id query = 0"
    and "int (length (extended_data mem query)) = get_extended_data_size query" "get_extended_data_size query \<le> int MAX_TRANSFER_SIZE"
  shows "\<exists>S1 m q. server_input_from_network a sock (w @ rest) S = Some (0, rest, S1) \<and> get_task (sv_input S1 ! 0) = Some (m, q) \<and>
    sv_output S1 = sv_output S \<and> length (sv_input S1) = length (sv_input S) \<and> ct_socket (node_body q m) = sock \<and>
    pending (ct_task (node_body q m)) = message_body query \<and> get_receiver_id (ct_task (node_body q m)) = get_sender_id query"
proof -
  obtain n q where al: "comm_alloc (sv_input S ! 0) = (n, q)" by fastforce
  let ?u = "set_receiver_id 0 (ct_task (node_body q n))"
  have "node_body q n = next_task (sv_input S ! 0)" using alloc_body [OF assms(1) al] by (simp add: next_task_def)
  then have u: "current_point ?u = 0" using next_task_reset(1) by (simp add: set_receiver_id_def)
  note sb = sent_bytes [OF assms(5)]
  from receive_message_sent [OF sb(2) u assms(7,8), of rest] obtain t1 where t1:
    "receive_message (get_bytes 4 20 (message_buffer query) @ message_body query @ extended_data mem query @ rest) ?u = Inr (t1, rest)"
    "pending t1 = message_body query" "get_receiver_id t1 = get_sender_id query" by blast
  let ?x = "\<lparr>ct_task = t1, ct_socket = sock\<rparr>"
  let ?q = "put_task (\<lambda>_. ?x) (sv_input S ! 0)"
  have "server_input_from_network a sock (w @ rest) S = Some (0, rest, S\<lparr>sv_input := (sv_input S)[0 := ?q]\<rparr>)"
    using assms(3,4,6) t1(1) al unfolding sb(1) by (simp add: server_input_from_network_def get_receiver_id_def Let_def)
  moreover have "queue_contents ?q = [?x]" using put_task_ok(2) [OF assms(1), of "\<lambda>_. ?x"] assms(2) by simp
  from get_task_contents [OF put_task_ok(1) [OF assms(1)] this] obtain m q' where "get_task ?q = Some (m, q')" "node_body q' m = ?x" by blast
  ultimately show ?thesis using t1(2,3) assms(3) by auto
qed

lemma response_addressed:
  assumes "queue_ok (sv_output S ! j)" "j < length (sv_output S)" "node_body (sv_input S ! j) m = x"
  shows "\<exists>n S'. init_response_task j m S = Some (n, S') \<and> sv_input S' = sv_input S \<and> ct_socket (node_body (sv_output S' ! j) n) = ct_socket x \<and>
    get_receiver_id (ct_task (node_body (sv_output S' ! j) n)) = get_receiver_id (ct_task x)"
proof -
  obtain n q where al: "comm_alloc (sv_output S ! j) = (n, q)" by fastforce
  have "int_ok (get_receiver_id (ct_task x))" by (simp add: int_ok_def get_receiver_id_def dec_int_def s32_def)
  then show ?thesis using assms(2,3) al by (simp add: init_response_task_def upd_task_node_def Let_def receiver_id_set)
qed

section \<open>There and back\<close>

text \<open>C3: the answer to a request comes back to the thread that asked. A client thread sends a query from its queue \<open>i\<close>; the server
  receives it into the queue of its handler with the message unchanged; the answer that the handler allocates is addressed to the
  connection and the queue the query came from; and once the handler has written it and it is sent, with the header it was given,
  the waiting thread and no other gets it, with the message and the extended data the handler wrote, even if answers
  of other connections are left in its queue.\<close>

theorem request_response_roundtrip:
  assumes "comm_reach net masters msg c" "i < length (cm_input c)" "i < length (cm_handles c)"
    and "t = node_body (cm_output c ! i) n" "\<not> new_connection (ct_task t)" "get_sender_id (ct_task t) = int i" "get_receiver_id (ct_task t) = 0"
    and "\<forall>s\<in>set (queue_contents (cm_input c ! i)). ct_socket s \<noteq> ct_socket t"
    and "queue_ok (sv_input S ! 0)" "queue_contents (sv_input S ! 0) = []" "0 < length (sv_input S)" "0 < length (sv_output S)"
    and "queue_ok (sv_output S ! 0)" "sock \<noteq> sv_socket S"
    and "send_message mem (ct_task t) = Some w" "int (length (extended_data mem (ct_task t))) = get_extended_data_size (ct_task t)"
    and "get_extended_data_size (ct_task t) \<le> int MAX_TRANSFER_SIZE"
  shows "\<exists>S1 m q k S2 r. server_input_from_network a sock (w @ rest) S = Some (0, rest, S1) \<and> get_task (sv_input S1 ! 0) = Some (m, q) \<and>
    pending (ct_task (node_body q m)) = message_body (ct_task t) \<and>
    init_response_task 0 m (S1\<lparr>sv_input := (sv_input S1)[0 := q]\<rparr>) = Some (k, S2) \<and> r = node_body (sv_output S2 ! 0) k \<and> ct_socket r = sock \<and>
    get_receiver_id (ct_task r) = int i \<and>
    (\<forall>reply mem' w' rest'. get_receiver_id reply = get_receiver_id (ct_task r) \<longrightarrow> send_message mem' reply = Some w' \<longrightarrow>
       int (length (extended_data mem' reply)) = get_extended_data_size reply \<longrightarrow> get_extended_data_size reply \<le> int MAX_TRANSFER_SIZE \<longrightarrow>
       (\<exists>c1 x c2. client_input_from_network (ct_socket t) (w' @ rest') c = Some (rest', c1) \<and> comm_query_response report (i, n) c1 = Some (Response x, c2) \<and>
          pending (ct_task x) = message_body reply \<and>
          (get_extended_data_size reply \<noteq> 0 \<longrightarrow>
             (\<exists>t''. get_received_data_all (ct_task x) = Some (extended_data mem' reply, get_extended_data_size reply, t''))) \<and>
          (\<forall>j. j \<noteq> i \<longrightarrow> cm_input c2 ! j = cm_input c ! j)))"
proof -
  from request_received [OF assms(9-11,14,15,7,16,17), of a rest] obtain S1 m q where S1:
    "server_input_from_network a sock (w @ rest) S = Some (0, rest, S1)" "get_task (sv_input S1 ! 0) = Some (m, q)" "sv_output S1 = sv_output S"
    "length (sv_input S1) = length (sv_input S)" "ct_socket (node_body q m) = sock" "pending (ct_task (node_body q m)) = message_body (ct_task t)"
    "get_receiver_id (ct_task (node_body q m)) = int i" unfolding assms(6) by blast
  let ?S = "S1\<lparr>sv_input := (sv_input S1)[0 := q]\<rparr>"
  have x: "queue_ok (sv_output ?S ! 0)" "0 < length (sv_output ?S)" "node_body (sv_input ?S ! 0) m = node_body q m"
    using assms(11-13) S1(3,4) by simp_all
  from response_addressed [OF x] obtain k S2 where S2: "init_response_task 0 m ?S = Some (k, S2)" "ct_socket (node_body (sv_output S2 ! 0) k) = sock"
    "get_receiver_id (ct_task (node_body (sv_output S2 ! 0) k)) = int i" unfolding S1(5,7) by blast
  have answer: "\<exists>c1 x c2. client_input_from_network (ct_socket t) (w' @ rest') c = Some (rest', c1) \<and> comm_query_response report (i, n) c1 = Some (Response x, c2) \<and>
          pending (ct_task x) = message_body reply \<and>
          (get_extended_data_size reply \<noteq> 0 \<longrightarrow>
             (\<exists>t''. get_received_data_all (ct_task x) = Some (extended_data mem' reply, get_extended_data_size reply, t''))) \<and>
          (\<forall>j. j \<noteq> i \<longrightarrow> cm_input c2 ! j = cm_input c ! j)"
    if "get_receiver_id reply = int i" "send_message mem' reply = Some w'"
      "int (length (extended_data mem' reply)) = get_extended_data_size reply" "get_extended_data_size reply \<le> int MAX_TRANSFER_SIZE"
    for reply mem' w' rest'
    using query_gets_own_response [OF assms(1-5,8) that(2,1,3,4), of rest' report] by blast
  show ?thesis
    by (rule exI [of _ S1], rule exI [of _ m], rule exI [of _ q], rule exI [of _ k], rule exI [of _ S2], rule exI [of _ "node_body (sv_output S2 ! 0) k"])
      (intro conjI allI impI S1 S2 refl answer, simp_all add: S2(3))
qed

theorem request_response_roundtrip_witness:
  "\<exists>c c0 S w S1 m q k S2 r w' c1 x c2. comm_init 1 = Some c0 \<and> allocate_new_query 5 c0 = Some ((0, 2), c) \<and> server_init 1 3 = Some S \<and>
     send_message (\<lambda>_ _. 0) (ct_task (node_body (cm_output c ! 0) 2)) = Some w \<and> server_input_from_network None 9 (w @ []) S = Some (0, [], S1) \<and>
     get_task (sv_input S1 ! 0) = Some (m, q) \<and> init_response_task 0 m (S1\<lparr>sv_input := (sv_input S1)[0 := q]\<rparr>) = Some (k, S2) \<and>
     r = node_body (sv_output S2 ! 0) k \<and> send_message (\<lambda>_ _. 0) (io_task_reset (extended_IO_task 2)) = Some w' \<and>
     get_receiver_id (io_task_reset (extended_IO_task 2)) = get_receiver_id (ct_task r) \<and>
     client_input_from_network 5 (w' @ [7]) c = Some ([7], c1) \<and> comm_query_response (\<lambda>_. Some) (0, 2) c1 = Some (Response x, c2)"
proof -
  let ?net = "\<lparr>net_send = \<lambda>_ u :: unit. (True, u), net_connect = \<lambda>_ u. (None, u)\<rparr>" and ?q = "set_receiver_id 0 (io_task_reset (io_task_set_id 0 (extended_IO_task 0)))"
  let ?r = "io_task_reset (extended_IO_task 2)"
  from demo_query [where net = ?net and masters = "\<lambda>_. None" and msg = id] obtain c0 c where
    c0: "comm_init 1 = Some c0" "allocate_new_query 5 c0 = Some ((0, 2), c)" and
    c: "comm_reach ?net (\<lambda>_. None) id c" "0 < length (cm_input c)" "0 < length (cm_handles c)"
      "\<forall>s\<in>set (queue_contents (cm_input c ! 0)). ct_socket s \<noteq> 5" "node_body (cm_output c ! 0) 2 = \<lparr>ct_task = ?q, ct_socket = 5\<rparr>" by fastforce
  have t: "\<not> new_connection ?q" "get_sender_id ?q = int 0" "get_receiver_id ?q = 0" "get_extended_data_size ?q = 0" "get_message_size ?q = 0"
    "get_extended_data_size ?r = 0" "get_message_size ?r = 0" "get_receiver_id ?r = int 0" by code_simp+
  obtain w w' where w: "send_message (\<lambda>_ _. 0) ?q = Some w" "send_message (\<lambda>_ _. 0) ?r = Some w'" using t(4-7) by (simp add: send_message_def)
  from new_comm_queue_some [of 0] obtain q where q: "new_comm_queue 0 = Some q" by auto
  note ok = new_comm_queue_ok [OF q]
  have qs: "those (map new_comm_queue [0..<1]) = Some [q]" using q by simp
  let ?S = "\<lparr>sv_input = [q], sv_output = [q], sv_handles = [H_null], sv_socket = 3, sv_known = [3]\<rparr>"
  have s: "server_init 1 3 = Some ?S" unfolding server_init_def qs by simp
  have p: "queue_ok (sv_input ?S ! 0)" "queue_contents (sv_input ?S ! 0) = []" "0 < length (sv_input ?S)" "0 < length (sv_output ?S)"
    "queue_ok (sv_output ?S ! 0)" "9 \<noteq> sv_socket ?S" using ok by simp_all
  have e: "int (length (extended_data (\<lambda>_ _. 0) ?q)) = get_extended_data_size ?q" "get_extended_data_size ?q \<le> int MAX_TRANSFER_SIZE"
    "int (length (extended_data (\<lambda>_ _. 0) ?r)) = get_extended_data_size ?r" "get_extended_data_size ?r \<le> int MAX_TRANSFER_SIZE"
    using t(4,6) by (simp_all add: extended_data_def)
  note rt = request_response_roundtrip [OF c(1-3) refl, of 2, unfolded c(5) comm_task.simps, OF t(1-3) c(4) p w(1) e(1,2), of None "[]" "\<lambda>_. Some"]
  let ?ok = "\<lambda>r reply mem' w' rest'. get_receiver_id reply = get_receiver_id (ct_task r) \<longrightarrow> send_message mem' reply = Some w' \<longrightarrow>
       int (length (extended_data mem' reply)) = get_extended_data_size reply \<longrightarrow> get_extended_data_size reply \<le> int MAX_TRANSFER_SIZE \<longrightarrow>
       (\<exists>c1 x c2. client_input_from_network 5 (w' @ rest') c = Some (rest', c1) \<and> comm_query_response (\<lambda>_. Some) (0, 2) c1 = Some (Response x, c2) \<and>
          pending (ct_task x) = message_body reply \<and>
          (get_extended_data_size reply \<noteq> 0 \<longrightarrow>
             (\<exists>t''. get_received_data_all (ct_task x) = Some (extended_data mem' reply, get_extended_data_size reply, t''))) \<and>
          (\<forall>j. j \<noteq> 0 \<longrightarrow> cm_input c2 ! j = cm_input c ! j))"
  obtain S1 m q' k S2 r where r: "server_input_from_network None 9 (w @ []) ?S = Some (0, [], S1)" "get_task (sv_input S1 ! 0) = Some (m, q')"
    "init_response_task 0 m (S1\<lparr>sv_input := (sv_input S1)[0 := q']\<rparr>) = Some (k, S2)" "r = node_body (sv_output S2 ! 0) k"
    "get_receiver_id (ct_task r) = int 0" and answer: "\<forall>reply mem' w' rest'. ?ok r reply mem' w' rest'"
    using rt by (elim exE conjE) (rule that; assumption)
  have rid: "get_receiver_id ?r = get_receiver_id (ct_task r)" using r(5) t(8) by simp
  from answer [rule_format, OF rid w(2) e(3,4), of "[7]"] obtain c1 x c2 where ans: "client_input_from_network 5 (w' @ [7]) c = Some ([7], c1)"
    "comm_query_response (\<lambda>_. Some) (0, 2) c1 = Some (Response x, c2)" by blast
  have "send_message (\<lambda>_ _. 0) (ct_task (node_body (cm_output c ! 0) 2)) = Some w" using w(1) c(5) by simp
  note facts = c0 s this r(1-4) w(2) rid ans
  show ?thesis
    by (rule exI [of _ c], rule exI [of _ c0], rule exI [of _ ?S], rule exI [of _ w], rule exI [of _ S1], rule exI [of _ m], rule exI [of _ q'],
        rule exI [of _ k], rule exI [of _ S2], rule exI [of _ r], rule exI [of _ w'], rule exI [of _ c1], rule exI [of _ x], rule exI [of _ c2])
      (intro conjI facts)
qed

end
