(* ===== verification/Std_Map.thy ===== *)
theory Std_Map
  imports HFS_Prelude "HOL-Library.List_Lexorder" "HOL-Library.Char_ord"
begin

text \<open>
  The ordered associative containers of the sources: \<^verbatim>\<open>std::map\<close>, \<^verbatim>\<open>std::set\<close> and
  their wrappers \<^verbatim>\<open>CBB_map\<close> (Common/include/CBB\_map.h) and \<^verbatim>\<open>CBB_set\<close>
  (Common/include/CBB\_set.h). A map is the list of its entries in key order, so that
  iteration order, \<^verbatim>\<open>lower_bound\<close> and \<^verbatim>\<open>begin\<close> are what the code sees; an iterator is the
  rest of the list from its position, \<^verbatim>\<open>end()\<close> is the empty list. The locks of the wrappers
  are compiled to nothing (no build defines \<^verbatim>\<open>MUTIPLE_THREAD\<close>). Path keys are strings,
  ordered lexicographically by unsigned character code, as \<^verbatim>\<open>std::less\<close> orders them.
\<close>

type_synonym ('k, 'v) std_map = "('k \<times> 'v) list"

section \<open>Operations\<close>

text \<open>\<^verbatim>\<open>insert\<close>: no effect when the key is present; the flag says whether it inserted.\<close>

fun map_insert :: "'k::linorder \<Rightarrow> 'v \<Rightarrow> ('k, 'v) std_map \<Rightarrow> ('k, 'v) std_map \<times> bool" where
  "map_insert k v [] = ([(k, v)], True)"
| "map_insert k v ((k', v') # m) =
     (if k < k' then ((k, v) # (k', v') # m, True)
      else if k = k' then ((k', v') # m, False)
      else (let (m', b) = map_insert k v m in ((k', v') # m', b)))"

text \<open>\<^verbatim>\<open>operator[]\<close> used as the target of an assignment.\<close>

fun map_set :: "'k::linorder \<Rightarrow> 'v \<Rightarrow> ('k, 'v) std_map \<Rightarrow> ('k, 'v) std_map" where
  "map_set k v [] = [(k, v)]"
| "map_set k v ((k', v') # m) =
     (if k < k' then (k, v) # (k', v') # m
      else if k = k' then (k, v) # m
      else (k', v') # map_set k v m)"

text \<open>\<^verbatim>\<open>find\<close>, and \<^verbatim>\<open>at\<close> with \<open>None\<close> for \<^verbatim>\<open>std::out_of_range\<close>.\<close>

fun map_find :: "'k::linorder \<Rightarrow> ('k, 'v) std_map \<Rightarrow> 'v option" where
  "map_find k [] = None"
| "map_find k ((k', v) # m) = (if k = k' then Some v else map_find k m)"

fun map_erase :: "'k::linorder \<Rightarrow> ('k, 'v) std_map \<Rightarrow> ('k, 'v) std_map" where
  "map_erase k [] = []"
| "map_erase k ((k', v) # m) = (if k = k' then m else (k', v) # map_erase k m)"

text \<open>\<^verbatim>\<open>lower_bound\<close>: the iterator at the first key that is not less.\<close>

fun lower_bound :: "'k::linorder \<Rightarrow> ('k, 'v) std_map \<Rightarrow> ('k, 'v) std_map" where
  "lower_bound k [] = []"
| "lower_bound k ((k', v) # m) = (if k' < k then lower_bound k m else (k', v) # m)"

definition map_size :: "('k, 'v) std_map \<Rightarrow> int" where
  "map_size m = int (length m)"

abbreviation map_keys :: "('k, 'v) std_map \<Rightarrow> 'k set" where
  "map_keys m \<equiv> fst ` set m"

definition map_inv :: "('k::linorder, 'v) std_map \<Rightarrow> bool" where
  "map_inv m \<longleftrightarrow> sorted_wrt (<) (map fst m)"

text \<open>\<^verbatim>\<open>std::set\<close> and \<^verbatim>\<open>CBB_set\<close>: the strictly increasing list of the elements.\<close>

fun set_insert :: "'k::linorder \<Rightarrow> 'k list \<Rightarrow> 'k list" where
  "set_insert k [] = [k]"
| "set_insert k (x # xs) =
     (if k < x then k # x # xs else if k = x then x # xs else x # set_insert k xs)"

definition set_erase :: "'k::linorder \<Rightarrow> 'k list \<Rightarrow> 'k list" where
  "set_erase k xs = filter (\<lambda>x. x \<noteq> k) xs"

section \<open>Laws\<close>

lemma map_inv_Nil [simp]: "map_inv []"
  by (simp add: map_inv_def)

lemma map_inv_Cons [simp]:
  "map_inv ((k, v) # m) \<longleftrightarrow> (\<forall>k'\<in>map_keys m. k < k') \<and> map_inv m"
  by (auto simp: map_inv_def)

lemma map_inv_distinct: "map_inv m \<Longrightarrow> distinct (map fst m)"
  by (auto simp: map_inv_def intro: strict_sorted_imp_sorted
      dest: strict_sorted_iff [THEN iffD1])

lemma map_find_None_iff: "map_find k m = None \<longleftrightarrow> k \<notin> map_keys m"
  by (induction k m rule: map_find.induct) (auto split: if_splits)

lemma map_find_Some_in: "map_find k m = Some v \<Longrightarrow> (k, v) \<in> set m"
  by (induction k m rule: map_find.induct) (auto split: if_splits)

lemma map_find_Some_key: "map_find k m = Some v \<Longrightarrow> k \<in> map_keys m"
  by (force dest: map_find_Some_in)

lemma in_map_keys_iff: "k \<in> map_keys m \<longleftrightarrow> (\<exists>v. map_find k m = Some v)"
  using map_find_None_iff [of k m] by (cases "map_find k m") auto

lemma map_find_in: "map_inv m \<Longrightarrow> (k, v) \<in> set m \<Longrightarrow> map_find k m = Some v"
  by (induction m) force+

lemma map_set_keys [simp]: "map_keys (map_set k v m) = insert k (map_keys m)"
  by (induction k v m rule: map_set.induct) auto

lemma map_set_inv [simp]: "map_inv m \<Longrightarrow> map_inv (map_set k v m)"
  by (induction k v m rule: map_set.induct) auto

lemma map_set_find [simp]:
  "map_find k' (map_set k v m) = (if k' = k then Some v else map_find k' m)"
  by (induction k v m rule: map_set.induct) auto

lemma map_erase_keys [simp]: "map_inv m \<Longrightarrow> map_keys (map_erase k m) = map_keys m - {k}"
  by (induction k m rule: map_erase.induct) auto

lemma map_erase_inv [simp]: "map_inv m \<Longrightarrow> map_inv (map_erase k m)"
  by (induction k m rule: map_erase.induct) auto

lemma map_erase_find [simp]:
  "map_inv m \<Longrightarrow> map_find k' (map_erase k m) = (if k' = k then None else map_find k' m)"
  by (induction k m rule: map_erase.induct) (auto simp: map_find_None_iff)

lemma lower_bound_spec:
  "map_inv m \<Longrightarrow> lower_bound k m = filter (\<lambda>(k', _). k \<le> k') m"
proof (induction k m rule: lower_bound.induct)
  case (2 k k' v m)
  then show ?case by (auto simp: not_less intro!: filter_True [symmetric])
qed simp

lemma map_insert_eq:
  "map_inv m \<Longrightarrow>
     map_insert k v m = (if k \<in> map_keys m then (m, False) else (map_set k v m, True))"
proof (induction k v m rule: map_insert.induct)
  case (2 k v k' v' m)
  then have hd: "\<And>x. x \<in> map_keys m \<Longrightarrow> k' < x" by auto
  consider "k < k'" | "k = k'" | "k' < k" by force
  then show ?case
  proof cases
    case 1
    with hd have "k \<notin> map_keys m" by fastforce
    with 1 show ?thesis by auto
  next
    case 2
    then show ?thesis by simp
  next
    case 3
    with 2 show ?thesis by (auto simp: Let_def)
  qed
qed simp

lemma map_insert_keys [simp]:
  "map_inv m \<Longrightarrow> map_keys (fst (map_insert k v m)) = insert k (map_keys m)"
  by (auto simp: map_insert_eq)

lemma map_insert_inv [simp]: "map_inv m \<Longrightarrow> map_inv (fst (map_insert k v m))"
  by (simp add: map_insert_eq)

lemma map_insert_find:
  "map_inv m \<Longrightarrow> map_find k' (fst (map_insert k v m)) =
     (if k' = k \<and> k \<notin> map_keys m then Some v else map_find k' m)"
  by (simp add: map_insert_eq)

lemma set_insert_set [simp]: "set (set_insert k xs) = insert k (set xs)"
  by (induction k xs rule: set_insert.induct) auto

lemma set_insert_sorted [simp]:
  "sorted_wrt (<) xs \<Longrightarrow> sorted_wrt (<) (set_insert k xs)"
  by (induction k xs rule: set_insert.induct) auto

lemma set_erase_set [simp]: "set (set_erase k xs) = set xs - {k}"
  by (auto simp: set_erase_def)

lemma set_erase_sorted [simp]:
  "sorted_wrt (<) xs \<Longrightarrow> sorted_wrt (<) (set_erase k xs)"
  by (simp add: set_erase_def sorted_wrt_filter)

end
