(* ===== verification/File_Blocks.thy ===== *)
theory File_Blocks
  imports Std_Map
begin

text \<open>
  Files as blocks: the block arithmetic of Common/include/CBB\_internal.h and the master's
  bookkeeping of a file's blocks (\<^verbatim>\<open>block_list_t\<close>, a map from the start of a block to the
  bytes used in it): \<^verbatim>\<open>_create_block_list\<close>, \<^verbatim>\<open>_allocate_new_blocks_for_writing\<close>,
  \<^verbatim>\<open>_append_block\<close>, \<^verbatim>\<open>_select_node_block_set\<close> (Master/src/Master.cpp).

  An iterator into the map that is only read is the rest of the list, one that is written
  through is the key it stands at; \<^verbatim>\<open>end()\<close> is the empty list or None. Dereferencing
  \<^verbatim>\<open>end()\<close> is undefined in the code and None here.
\<close>

section \<open>Block arithmetic\<close>

definition BLOCK_SIZE :: int where "BLOCK_SIZE = 1048576"

definition get_block_size :: "size_t \<Rightarrow> size_t" where
  "get_block_size sz = BLOCK_SIZE"

text \<open>The division is unsigned: the offset is converted to size\_t.\<close>

definition get_block_start_point :: "off64_t \<Rightarrow> off64_t" where
  "get_block_start_point start_point = s64 (u64 start_point div BLOCK_SIZE * BLOCK_SIZE)"

definition get_block_start_point_size :: "off64_t \<Rightarrow> size_t \<Rightarrow> off64_t \<times> size_t" where
  "get_block_start_point_size start_point sz =
     (let b = s64 (u64 start_point div BLOCK_SIZE * BLOCK_SIZE)
      in (b, u64 (start_point - b + sz)))"

section \<open>Block lists\<close>

type_synonym block_list = "(off64_t, size_t) std_map"

text \<open>The loop does not end for a block size of 0.\<close>

partial_function (option) create_block_list_loop ::
    "size_t \<Rightarrow> off64_t \<Rightarrow> size_t \<Rightarrow> block_list \<Rightarrow> block_list option" where
  "create_block_list_loop block_size start remaining bl =
     (if remaining \<noteq> 0 then
        (let n = (if block_size > remaining then remaining else block_size)
         in create_block_list_loop block_size (s64 (start + n)) (remaining - n)
              (fst (map_insert start n bl)))
      else Some bl)"

definition create_block_list :: "size_t \<Rightarrow> size_t \<Rightarrow> block_list \<Rightarrow> block_list option" where
  "create_block_list file_size block_size bl =
     create_block_list_loop block_size 0 file_size
       (if file_size = 0 then fst (map_insert 0 0 bl) else bl)"

definition append_block :: "off64_t \<Rightarrow> size_t \<Rightarrow> block_list \<Rightarrow> block_list" where
  "append_block start_point sz bl = fst (map_insert start_point sz bl)"

definition map_next :: "int \<Rightarrow> (int, 'v) std_map \<Rightarrow> int option" where
  "map_next k m = (case lower_bound (k + 1) m of [] \<Rightarrow> None | (k', _) # _ \<Rightarrow> Some k')"

function allocate_blocks_loop :: "ssize_t \<Rightarrow> off64_t \<Rightarrow> int option \<Rightarrow> block_list \<Rightarrow> block_list option" where
  "allocate_blocks_loop remaining current_point current_block bl =
     (if remaining > 0 then
        (let bs = (if remaining > BLOCK_SIZE then BLOCK_SIZE else remaining) in
         case current_block of
           None \<Rightarrow> allocate_blocks_loop (remaining - BLOCK_SIZE) (s64 (current_point + BLOCK_SIZE)) None
                     (append_block current_point bs bl)
         | Some k \<Rightarrow>
             (case map_find k bl of
                None \<Rightarrow> None
              | Some v \<Rightarrow>
                  (let bl' = map_set k (if bs < v then v else bs) bl
                   in allocate_blocks_loop (remaining - BLOCK_SIZE) (s64 (current_point + BLOCK_SIZE))
                        (map_next k bl') bl')))
      else Some bl)"
  by pat_completeness auto
termination by (relation "measure (\<lambda>(r, _). nat r)") (auto simp: BLOCK_SIZE_def)

declare allocate_blocks_loop.simps [simp del]

definition allocate_new_blocks_for_writing ::
    "off64_t \<Rightarrow> size_t \<Rightarrow> block_list \<Rightarrow> block_list option" where
  "allocate_new_blocks_for_writing start_point sz bl =
     (let (current_point, sz') = get_block_start_point_size start_point sz;
          remaining = s64 sz'
      in case map_find current_point bl of
           Some v \<Rightarrow>
             if u64 (sz' + start_point) < u64 (current_point + v) then Some bl
             else allocate_blocks_loop remaining current_point (Some current_point) bl
         | None \<Rightarrow> allocate_blocks_loop remaining current_point None bl)"

text \<open>The blocks \<^verbatim>\<open>_select_node_block_set\<close> returns: one per started block of \<open>size\<close> bytes.\<close>

function select_blocks_loop :: "ssize_t \<Rightarrow> block_list \<Rightarrow> block_list \<Rightarrow> block_list option" where
  "select_blocks_loop remaining block acc =
     (if 0 < remaining then
        (case block of
           [] \<Rightarrow> None
         | (k, v) # rest \<Rightarrow> select_blocks_loop (remaining - BLOCK_SIZE) rest (fst (map_insert k v acc)))
      else Some acc)"
  by pat_completeness auto
termination by (relation "measure (\<lambda>(r, _). nat r)") (auto simp: BLOCK_SIZE_def)

declare select_blocks_loop.simps [simp del]

text \<open>\<^verbatim>\<open>find\<close>: the iterator at the key, or \<^verbatim>\<open>end()\<close>.\<close>

fun map_find_iter :: "'k::linorder \<Rightarrow> ('k, 'v) std_map \<Rightarrow> ('k, 'v) std_map" where
  "map_find_iter k [] = []"
| "map_find_iter k ((k', v) # m) = (if k = k' then (k', v) # m else map_find_iter k m)"

definition select_node_block_set :: "off64_t \<Rightarrow> size_t \<Rightarrow> block_list \<Rightarrow> block_list option" where
  "select_node_block_set start_point sz bl =
     select_blocks_loop (s64 sz) (map_find_iter (get_block_start_point start_point) bl) []"

section \<open>Contiguous block lists\<close>

text \<open>
  \<open>blocks n f\<close>: the blocks 0 to n - 1, block \<open>i\<close> with \<open>f i\<close> bytes used.
\<close>

definition blocks :: "nat \<Rightarrow> (nat \<Rightarrow> size_t) \<Rightarrow> block_list" where
  "blocks n f = map (\<lambda>i. (int i * BLOCK_SIZE, f i)) [0..<n]"

lemma BLOCK_SIZE_pos [simp]: "0 < BLOCK_SIZE" "0 \<le> BLOCK_SIZE" "BLOCK_SIZE \<noteq> 0"
  by (simp_all add: BLOCK_SIZE_def)

lemma block_start_eq:
  assumes "0 \<le> x" "x < 9223372036854775808"
  shows "get_block_start_point x = x div BLOCK_SIZE * BLOCK_SIZE"
proof -
  have "0 \<le> x div BLOCK_SIZE * BLOCK_SIZE" "x div BLOCK_SIZE * BLOCK_SIZE \<le> x"
    using assms by (auto intro!: div_mult_le_int mult_nonneg_nonneg simp: pos_imp_zdiv_nonneg_iff less_imp_le)
  then show ?thesis using assms by (simp add: get_block_start_point_def u64_id s64_id)
qed

lemma block_start_size_eq:
  assumes "0 \<le> x" "0 \<le> sz" "x + sz < 9223372036854775808"
  shows "get_block_start_point_size x sz = (x div BLOCK_SIZE * BLOCK_SIZE, x mod BLOCK_SIZE + sz)"
proof -
  have m: "x - x div BLOCK_SIZE * BLOCK_SIZE = x mod BLOCK_SIZE"
    by (simp add: minus_div_mult_eq_mod)
  have "0 \<le> x mod BLOCK_SIZE" "x mod BLOCK_SIZE \<le> x"
    using assms by (auto simp: zmod_le_nonneg_dividend)
  then have "u64 (x mod BLOCK_SIZE + sz) = x mod BLOCK_SIZE + sz" using assms by (intro u64_id) auto
  then show ?thesis
    using block_start_eq [of x] assms m
    by (simp add: get_block_start_point_size_def get_block_start_point_def Let_def)
qed

lemma blocks_Suc: "blocks (Suc n) f = blocks n f @ [(int n * BLOCK_SIZE, f n)]"
  by (simp add: blocks_def)

lemma blocks_keys: "map_keys (blocks n f) = (\<lambda>i. int i * BLOCK_SIZE) ` {..<n}"
  by (force simp: blocks_def)

lemma blocks_inv [simp]: "map_inv (blocks n f)"
  by (auto simp: map_inv_def blocks_def sorted_wrt_map sorted_wrt_iff_nth_less)

lemma blocks_find: "map_find (int i * BLOCK_SIZE) (blocks n f) = (if i < n then Some (f i) else None)"
proof (cases "i < n")
  case True
  then have "(int i * BLOCK_SIZE, f i) \<in> set (blocks n f)" by (auto simp: blocks_def)
  then show ?thesis using True by (simp add: map_find_in)
next
  case False
  then have "int i * BLOCK_SIZE \<notin> map_keys (blocks n f)"
    unfolding blocks_keys by (auto simp: BLOCK_SIZE_def)
  then show ?thesis using False by (simp add: map_find_None_iff)
qed

lemma map_set_append_new:
  "(\<And>k'. k' \<in> map_keys m \<Longrightarrow> k' < k) \<Longrightarrow> map_set k v (m @ m') = m @ map_set k v m'"
  by (induction m) force+

lemma blocks_set: "i < n \<Longrightarrow> map_set (int i * BLOCK_SIZE) v (blocks n f) = blocks n (f(i := v))"
proof (induction n)
  case (Suc n)
  show ?case
  proof (cases "i = n")
    case True
    have "map_set (int n * BLOCK_SIZE) v (blocks n f @ [(int n * BLOCK_SIZE, f n)]) =
        blocks n f @ [(int n * BLOCK_SIZE, v)]"
      by (subst map_set_append_new) (auto simp: blocks_def)
    moreover have "blocks n (f(n := v)) = blocks n f" by (auto simp: blocks_def)
    ultimately show ?thesis using True unfolding blocks_Suc by simp
  next
    case False
    then have "i < n" using Suc.prems by simp
    have "map_set k v (m @ m') = map_set k v m @ m'" if "k \<in> map_keys m" "map_inv m"
      for k :: int and m m' :: block_list
      using that by (induction m) force+
    moreover have "int i * BLOCK_SIZE \<in> map_keys (blocks n f)"
      unfolding blocks_keys using \<open>i < n\<close> by auto
    ultimately show ?thesis using Suc.IH [OF \<open>i < n\<close>] False by (simp add: blocks_Suc)
  qed
qed simp

lemma blocks_append: "append_block (int n * BLOCK_SIZE) v (blocks n f) = blocks (Suc n) (f(n := v))"
proof -
  have "int n * BLOCK_SIZE \<notin> map_keys (blocks n f)" unfolding blocks_keys by (auto simp: BLOCK_SIZE_def)
  then have "append_block (int n * BLOCK_SIZE) v (blocks n f) = map_set (int n * BLOCK_SIZE) v (blocks n f @ [])"
    by (simp add: append_block_def map_insert_eq)
  also have "\<dots> = blocks n f @ [(int n * BLOCK_SIZE, v)]"
    by (subst map_set_append_new) (auto simp: blocks_def)
  also have "\<dots> = blocks (Suc n) (f(n := v))"
    by (simp add: blocks_Suc) (auto simp: blocks_def)
  finally show ?thesis .
qed

lemma blocks_from:
  "filter (\<lambda>(k, _). int i * BLOCK_SIZE \<le> k) (blocks n f) =
     map (\<lambda>i. (int i * BLOCK_SIZE, f i)) [i..<n]"
proof (induction n)
  case (Suc n)
  then show ?case by (cases "i \<le> n") (auto simp: blocks_Suc)
qed (simp add: blocks_def)

lemma blocks_next: "map_next (int i * BLOCK_SIZE) (blocks n f) =
     (if Suc i < n then Some (int (Suc i) * BLOCK_SIZE) else None)"
proof -
  have eq: "(int i * BLOCK_SIZE + 1 \<le> int j * BLOCK_SIZE) = (int (Suc i) * BLOCK_SIZE \<le> int j * BLOCK_SIZE)" for j
  proof -
    have "(int i * BLOCK_SIZE + 1 \<le> int j * BLOCK_SIZE) = (i < j)"
      by (auto simp: add1_zle_eq mult_less_cancel_right BLOCK_SIZE_def)
    moreover have "(int (Suc i) * BLOCK_SIZE \<le> int j * BLOCK_SIZE) = (Suc i \<le> j)"
      using mult_le_cancel_right_pos [of BLOCK_SIZE "int (Suc i)" "int j"] by (simp del: of_nat_Suc)
    ultimately show ?thesis by auto
  qed
  have "filter (\<lambda>(k, _). int i * BLOCK_SIZE + 1 \<le> k) (blocks n f) =
      filter (\<lambda>(k, _). int (Suc i) * BLOCK_SIZE \<le> k) (blocks n f)"
  proof (rule filter_cong [OF refl])
    fix p
    assume "p \<in> set (blocks n f)"
    then obtain j where "p = (int j * BLOCK_SIZE, f j)" by (auto simp: blocks_def)
    then show "(case p of (k, _) \<Rightarrow> int i * BLOCK_SIZE + 1 \<le> k) =
        (case p of (k, _) \<Rightarrow> int (Suc i) * BLOCK_SIZE \<le> k)" by (simp only: prod.case eq)
  qed
  then have "lower_bound (int i * BLOCK_SIZE + 1) (blocks n f) =
      map (\<lambda>i. (int i * BLOCK_SIZE, f i)) [Suc i..<n]"
    by (simp only: lower_bound_spec [OF blocks_inv] blocks_from)
  then show ?thesis by (cases "Suc i < n") (simp_all add: map_next_def upt_conv_Cons del: of_nat_Suc)
qed

lemma blocks_iter:
  "i < n \<Longrightarrow> map_find_iter (int i * BLOCK_SIZE) (blocks n f) =
     map (\<lambda>i. (int i * BLOCK_SIZE, f i)) [i..<n]"
proof -
  have "map_find_iter (int i * BLOCK_SIZE) (map (\<lambda>i. (int i * BLOCK_SIZE, f i)) [j..<n]) =
      map (\<lambda>i. (int i * BLOCK_SIZE, f i)) [i..<n]" if "j \<le> i" "i < n" for j
    using that
  proof (induction "i - j" arbitrary: j)
    case 0
    then show ?case by (simp add: upt_rec [of j])
  next
    case (Suc d)
    then have "int i * BLOCK_SIZE \<noteq> int j * BLOCK_SIZE" by (auto simp: BLOCK_SIZE_def)
    then show ?case using Suc by (simp add: upt_rec [of j])
  qed
  then show "i < n \<Longrightarrow> ?thesis" by (simp add: blocks_def)
qed

section \<open>Allocation\<close>

text \<open>
  \<open>block_count r\<close>: how many blocks \<open>r\<close> bytes from a block boundary touch. \<open>grow i r n f\<close>: the
  bytes used per block after writing \<open>r\<close> bytes from the start of block \<open>i\<close>.
\<close>

definition block_count :: "int \<Rightarrow> nat" where
  "block_count r = nat ((r + BLOCK_SIZE - 1) div BLOCK_SIZE)"

definition block_part :: "int \<Rightarrow> nat \<Rightarrow> int" where
  "block_part r d = min BLOCK_SIZE (r - int d * BLOCK_SIZE)"

definition grow :: "nat \<Rightarrow> int \<Rightarrow> nat \<Rightarrow> (nat \<Rightarrow> int) \<Rightarrow> nat \<Rightarrow> int" where
  "grow i r n f j =
     (if i \<le> j \<and> j < i + block_count r
      then (if j < n then max (f j) (block_part r (j - i)) else block_part r (j - i))
      else f j)"

lemma block_count_nonpos [simp]: "r \<le> 0 \<Longrightarrow> block_count r = 0"
  by (simp add: block_count_def BLOCK_SIZE_def)

lemma block_count_one: "r \<le> BLOCK_SIZE \<Longrightarrow> block_count r \<le> 1"
  using zdiv_mono1 [of "r + BLOCK_SIZE - 1" "2 * BLOCK_SIZE - 1" BLOCK_SIZE] by (simp add: block_count_def BLOCK_SIZE_def)

lemma block_count_step: "0 < r \<Longrightarrow> block_count r = Suc (block_count (r - BLOCK_SIZE))"
proof -
  assume r: "0 < r"
  have "(r - BLOCK_SIZE + BLOCK_SIZE - 1) div BLOCK_SIZE = (r + BLOCK_SIZE - 1) div BLOCK_SIZE - 1"
    by (simp add: BLOCK_SIZE_def)
  moreover have "0 < (r + BLOCK_SIZE - 1) div BLOCK_SIZE" using r by (simp add: BLOCK_SIZE_def)
  ultimately show ?thesis by (simp add: block_count_def nat_diff_distrib)
qed

lemma block_part_step: "block_part (r - BLOCK_SIZE) d = block_part r (Suc d)"
  by (simp add: block_part_def algebra_simps)

lemma block_count_bound: "0 < r \<Longrightarrow> int (block_count r) * BLOCK_SIZE < r + BLOCK_SIZE"
proof -
  assume "0 < r"
  then have "0 \<le> (r + BLOCK_SIZE - 1) div BLOCK_SIZE" by (simp add: BLOCK_SIZE_def)
  moreover have "(r + BLOCK_SIZE - 1) div BLOCK_SIZE * BLOCK_SIZE \<le> r + BLOCK_SIZE - 1"
    by (rule div_mult_le_int) simp
  ultimately show ?thesis by (simp add: block_count_def)
qed

lemma block_count_covers: "r \<le> int (block_count r) * BLOCK_SIZE"
proof -
  have "r + BLOCK_SIZE - 1 < (r + BLOCK_SIZE - 1) div BLOCK_SIZE * BLOCK_SIZE + BLOCK_SIZE"
    by (rule lt_div_mult_add_int) simp
  moreover have "(r + BLOCK_SIZE - 1) div BLOCK_SIZE * BLOCK_SIZE \<le> int (block_count r) * BLOCK_SIZE"
    by (intro mult_right_mono) (auto simp: block_count_def less_imp_le)
  ultimately show ?thesis by linarith
qed

lemma blocks_cong: "(\<And>j. j < n \<Longrightarrow> f j = g j) \<Longrightarrow> blocks n f = blocks n g"
  by (auto simp: blocks_def)

lemma grow_step:
  assumes "0 < r" "i \<le> n" "j < max (max n (Suc i)) (Suc i + block_count (r - BLOCK_SIZE))"
  shows "grow (Suc i) (r - BLOCK_SIZE) (max n (Suc i))
           (f(i := if i < n then max (f i) (block_part r 0) else block_part r 0)) j = grow i r n f j"
  using assms block_count_step [OF assms(1)]
  by (cases "j = i"; cases "j < i"; cases "j < n") (auto simp: grow_def block_part_step Suc_diff_Suc)

lemma allocate_blocks_loop_ok:
  assumes "i \<le> n" "int i * BLOCK_SIZE + r + BLOCK_SIZE < 9223372036854775808"
  shows "allocate_blocks_loop r (int i * BLOCK_SIZE)
           (if i < n then Some (int i * BLOCK_SIZE) else None) (blocks n f)
         = Some (blocks (max n (i + block_count r)) (grow i r n f))"
  using assms
proof (induction "block_count r" arbitrary: i r n f)
  case 0
  then have r: "\<not> 0 < r" using block_count_step by fastforce
  then have "blocks n (grow i r n f) = blocks n f" by (intro blocks_cong) (simp add: grow_def)
  then show ?case using r 0 by (simp add: allocate_blocks_loop.simps)
next
  case (Suc k)
  then have r: "0 < r" using block_count_nonpos by (metis Zero_not_Suc not_less)
  let ?v = "if i < n then max (f i) (block_part r 0) else block_part r 0"
  let ?f = "f(i := ?v)" and ?n = "max n (Suc i)"
  have b: "(if r > BLOCK_SIZE then BLOCK_SIZE else r) = block_part r 0" by (simp add: block_part_def min_def)
  have nx: "s64 (int i * BLOCK_SIZE + BLOCK_SIZE) = int (Suc i) * BLOCK_SIZE"
  proof (subst s64_id)
    have "0 \<le> int i * BLOCK_SIZE" by (simp add: less_imp_le)
    then show "- 9223372036854775808 \<le> int i * BLOCK_SIZE + BLOCK_SIZE"
      using BLOCK_SIZE_pos by linarith
    show "int i * BLOCK_SIZE + BLOCK_SIZE < 9223372036854775808" using Suc.prems(2) r by linarith
  qed (simp add: distrib_right)
  have "k = block_count (r - BLOCK_SIZE)" using Suc.hyps(2) block_count_step [OF r] by simp
  moreover have "int (Suc i) * BLOCK_SIZE + (r - BLOCK_SIZE) + BLOCK_SIZE < 9223372036854775808"
    using Suc.prems(2) by (simp add: algebra_simps)
  ultimately have IH: "allocate_blocks_loop (r - BLOCK_SIZE) (int (Suc i) * BLOCK_SIZE)
      (if Suc i < ?n then Some (int (Suc i) * BLOCK_SIZE) else None) (blocks ?n ?f) =
      Some (blocks (max ?n (Suc i + block_count (r - BLOCK_SIZE))) (grow (Suc i) (r - BLOCK_SIZE) ?n ?f))"
    using Suc.hyps(1) [of "r - BLOCK_SIZE" "Suc i" ?n ?f] by simp
  have "allocate_blocks_loop r (int i * BLOCK_SIZE)
      (if i < n then Some (int i * BLOCK_SIZE) else None) (blocks n f) =
      allocate_blocks_loop (r - BLOCK_SIZE) (int (Suc i) * BLOCK_SIZE)
      (if Suc i < ?n then Some (int (Suc i) * BLOCK_SIZE) else None) (blocks ?n ?f)"
  proof (cases "i < n")
    case True
    then have "?n = n" by simp
    with True show ?thesis
      using r by (subst allocate_blocks_loop.simps)
        (simp add: b nx Let_def blocks_find blocks_set blocks_next max_def del: of_nat_Suc)
  next
    case False
    then have "i = n" using Suc.prems(1) by simp
    then show ?thesis
      using r nx by (subst allocate_blocks_loop.simps)
        (simp add: b Let_def blocks_append del: of_nat_Suc)
  qed
  also have "\<dots> = Some (blocks (max n (i + block_count r)) (grow i r n f))"
  proof -
    have "max ?n (Suc i + block_count (r - BLOCK_SIZE)) = max n (i + block_count r)"
      using block_count_step [OF r] by auto
    moreover have "blocks (max ?n (Suc i + block_count (r - BLOCK_SIZE))) (grow (Suc i) (r - BLOCK_SIZE) ?n ?f)
        = blocks (max ?n (Suc i + block_count (r - BLOCK_SIZE))) (grow i r n f)"
      using r Suc.prems(1) by (intro blocks_cong grow_step)
    ultimately show ?thesis using IH by simp
  qed
  finally show ?case .
qed

lemma allocate_new_blocks_ok:
  assumes st: "0 \<le> start" "0 < sz" "start + sz + BLOCK_SIZE < 4611686018427387904"
    and n: "start div BLOCK_SIZE \<le> int n"
    and f: "\<And>j. j < n \<Longrightarrow> 0 \<le> f j \<and> f j \<le> BLOCK_SIZE"
  defines "i \<equiv> nat (start div BLOCK_SIZE)" and "r \<equiv> start mod BLOCK_SIZE + sz"
  shows "allocate_new_blocks_for_writing start sz (blocks n f)
         = Some (blocks (max n (i + block_count r)) (grow i r n f))"
proof -
  have i: "start div BLOCK_SIZE = int i" "i \<le> n"
    using st n by (auto simp: i_def pos_imp_zdiv_nonneg_iff nat_le_iff)
  have m: "0 \<le> start mod BLOCK_SIZE" "start mod BLOCK_SIZE \<le> start" "start mod BLOCK_SIZE < BLOCK_SIZE"
    using st by (auto simp: zmod_le_nonneg_dividend)
  have iB: "int i * BLOCK_SIZE \<le> start" using i(1) div_mult_le_int [of BLOCK_SIZE start] by simp
  have iB0: "0 \<le> int i * BLOCK_SIZE" by (simp add: less_imp_le)
  have g: "get_block_start_point_size start sz = (int i * BLOCK_SIZE, r)"
    using block_start_size_eq [of start sz] st i by (simp add: r_def BLOCK_SIZE_def)
  have rb: "0 < r" "r < 4611686018427387904" "r + start < 9223372036854775808"
    "int i * BLOCK_SIZE + r + BLOCK_SIZE < 9223372036854775808"
    using st m iB BLOCK_SIZE_pos unfolding r_def by linarith+
  have rs: "s64 r = r" using rb by (simp add: s64_id)
  have loop: "allocate_blocks_loop r (int i * BLOCK_SIZE)
      (if i < n then Some (int i * BLOCK_SIZE) else None) (blocks n f) =
      Some (blocks (max n (i + block_count r)) (grow i r n f))"
    using rb(4) i(2) by (intro allocate_blocks_loop_ok)
  show ?thesis
  proof (cases "i < n \<and> u64 (r + start) < u64 (int i * BLOCK_SIZE + f i)")
    case True
    then have fi: "0 \<le> f i" "f i \<le> BLOCK_SIZE" using f by auto
    have "u64 (r + start) = r + start" using rb st by (simp add: u64_id)
    moreover have "u64 (int i * BLOCK_SIZE + f i) = int i * BLOCK_SIZE + f i"
    proof (rule u64_id)
      show "0 \<le> int i * BLOCK_SIZE + f i" using fi iB0 by linarith
      show "int i * BLOCK_SIZE + f i < 18446744073709551616" using fi rb by linarith
    qed
    ultimately have lt: "r < f i" using True iB by linarith
    have one: "block_count r = 1" using lt fi block_count_step [OF rb(1)] by simp
    have "blocks n (grow i r n f) = blocks n f"
    proof (rule blocks_cong)
      fix j
      assume "j < n"
      then show "grow i r n f j = f j"
        using lt one by (cases "j = i") (auto simp: grow_def block_part_def)
    qed
    then show ?thesis
      using True one by (simp add: allocate_new_blocks_for_writing_def g rs blocks_find)
  next
    case False
    then show ?thesis
      using loop i(2) by (auto simp: allocate_new_blocks_for_writing_def g rs blocks_find split: if_splits)
  qed
qed

section \<open>Selection and creation\<close>

lemma select_blocks_loop_ok:
  assumes "i + block_count r \<le> n" "map_inv acc" "\<And>k. k \<in> map_keys acc \<Longrightarrow> k < int i * BLOCK_SIZE"
  shows "select_blocks_loop r (map (\<lambda>i. (int i * BLOCK_SIZE, f i)) [i..<n]) acc
         = Some (acc @ map (\<lambda>i. (int i * BLOCK_SIZE, f i)) [i..<i + block_count r])"
  using assms
proof (induction "block_count r" arbitrary: i r acc)
  case 0
  then have "\<not> 0 < r" using block_count_step by fastforce
  then show ?case using 0 by (simp add: select_blocks_loop.simps)
next
  case (Suc k)
  then have r: "0 < r" using block_count_nonpos by (metis Zero_not_Suc not_less)
  let ?e = "(int i * BLOCK_SIZE, f i)"
  have k: "k = block_count (r - BLOCK_SIZE)" "block_count r = Suc (block_count (r - BLOCK_SIZE))"
    using Suc.hyps(2) block_count_step [OF r] by simp_all
  have "i < n" using Suc.prems(1) k(2) by simp
  then have up: "[i..<n] = i # [Suc i..<n]" by (rule upt_conv_Cons)
  have new: "fst ?e \<notin> map_keys acc" using Suc.prems(3) by force
  then have ins: "fst (map_insert (int i * BLOCK_SIZE) (f i) acc) = acc @ [?e]"
    using map_set_append_new [of acc "int i * BLOCK_SIZE" "f i" "[]"] Suc.prems(2,3)
    by (simp add: map_insert_eq)
  have "select_blocks_loop r (map (\<lambda>i. (int i * BLOCK_SIZE, f i)) [i..<n]) acc =
      select_blocks_loop (r - BLOCK_SIZE) (map (\<lambda>i. (int i * BLOCK_SIZE, f i)) [Suc i..<n]) (acc @ [?e])"
    using r by (subst select_blocks_loop.simps) (simp add: up ins)
  also have "\<dots> = Some ((acc @ [?e]) @ map (\<lambda>i. (int i * BLOCK_SIZE, f i))
      [Suc i..<Suc i + block_count (r - BLOCK_SIZE)])"
  proof (rule Suc.hyps(1) [OF k(1)])
    show "map_inv (acc @ [?e])"
      using map_set_inv [OF Suc.prems(2), of "int i * BLOCK_SIZE" "f i"]
        map_set_append_new [of acc "int i * BLOCK_SIZE" "f i" "[]"] Suc.prems(3) by simp
    show "k < int (Suc i) * BLOCK_SIZE" if "k \<in> map_keys (acc @ [?e])" for k
    proof -
      have "k \<in> map_keys acc \<or> k = int i * BLOCK_SIZE" using that by auto
      then have "k \<le> int i * BLOCK_SIZE" using Suc.prems(3) [of k] by linarith
      then show ?thesis using BLOCK_SIZE_pos unfolding of_nat_Suc distrib_right by linarith
    qed
  qed (use Suc.prems(1) k(2) in simp)
  also have "\<dots> = Some (acc @ map (\<lambda>i. (int i * BLOCK_SIZE, f i)) [i..<i + block_count r])"
    by (simp add: k(2) upt_conv_Cons del: upt_Suc)
  finally show ?case .
qed

lemma select_node_block_set_ok:
  assumes "0 \<le> start" "start < 9223372036854775808" "0 < sz" "sz < 9223372036854775808"
    "nat (start div BLOCK_SIZE) + block_count sz \<le> n"
  defines "i \<equiv> nat (start div BLOCK_SIZE)"
  shows "select_node_block_set start sz (blocks n f)
         = Some (map (\<lambda>i. (int i * BLOCK_SIZE, f i)) [i..<i + block_count sz])"
proof -
  have i: "start div BLOCK_SIZE = int i" using assms by (simp add: i_def pos_imp_zdiv_nonneg_iff)
  have "0 < block_count sz" using block_count_step [OF assms(3)] by simp
  then have "i < n" using assms(5) i_def by simp
  then have "map_find_iter (get_block_start_point start) (blocks n f) =
      map (\<lambda>i. (int i * BLOCK_SIZE, f i)) [i..<n]"
    unfolding block_start_eq [OF assms(1,2)] i by (rule blocks_iter)
  moreover have "s64 sz = sz" using assms(3,4) by (simp add: s64_id)
  moreover have "i + block_count sz \<le> n" using assms(5) i_def by simp
  ultimately show ?thesis
    using select_blocks_loop_ok [of i sz n "[]" f] by (simp add: select_node_block_set_def)
qed

lemma create_block_list_loop_ok:
  assumes "0 \<le> r" "int i * BLOCK_SIZE + r + BLOCK_SIZE < 9223372036854775808"
  shows "create_block_list_loop BLOCK_SIZE (int i * BLOCK_SIZE) r (blocks i f)
         = Some (blocks (i + block_count r) (\<lambda>j. if j < i then f j else block_part r (j - i)))"
  using assms
proof (induction "block_count r" arbitrary: i r f)
  case 0
  then have r: "r = 0" using block_count_step [of r] by fastforce
  then have "blocks i f = blocks i (\<lambda>j. if j < i then f j else block_part r (j - i))"
    by (intro blocks_cong) simp
  then show ?case using r by (simp add: create_block_list_loop.simps)
next
  case (Suc k)
  then have r: "0 < r" using block_count_nonpos by (metis Zero_not_Suc not_less)
  have k: "k = block_count (r - BLOCK_SIZE)" "block_count r = Suc (block_count (r - BLOCK_SIZE))"
    using Suc.hyps(2) block_count_step [OF r] by simp_all
  have b: "(if BLOCK_SIZE > r then r else BLOCK_SIZE) = block_part r 0" by (simp add: block_part_def min_def)
  have iB: "0 \<le> int i * BLOCK_SIZE" by (simp add: less_imp_le)
  have ap: "fst (map_insert (int i * BLOCK_SIZE) v (blocks i f)) = blocks (Suc i) (f(i := v))" for v
    using blocks_append [of i v f] by (simp add: append_block_def)
  show ?case
  proof (cases "r \<le> BLOCK_SIZE")
    case True
    then have "block_count r = 1" "block_part r 0 = r" using k(2) by (auto simp: block_part_def)
    moreover have "blocks (Suc i) (f(i := r)) = blocks (Suc i) (\<lambda>j. if j < i then f j else block_part r (j - i))"
      using calculation by (intro blocks_cong) (auto simp: less_Suc_eq)
    ultimately show ?thesis
      using r True by (subst create_block_list_loop.simps)
        (simp add: b ap Let_def create_block_list_loop.simps)
  next
    case False
    then have bp: "block_part r 0 = BLOCK_SIZE" by (simp add: block_part_def)
    have "s64 (int i * BLOCK_SIZE + BLOCK_SIZE) = int (Suc i) * BLOCK_SIZE"
    proof (subst s64_id)
      show "- 9223372036854775808 \<le> int i * BLOCK_SIZE + BLOCK_SIZE"
        using iB BLOCK_SIZE_pos by linarith
      show "int i * BLOCK_SIZE + BLOCK_SIZE < 9223372036854775808" using Suc.prems(2) r by linarith
    qed (simp add: distrib_right)
    then have "create_block_list_loop BLOCK_SIZE (int i * BLOCK_SIZE) r (blocks i f) =
        create_block_list_loop BLOCK_SIZE (int (Suc i) * BLOCK_SIZE) (r - BLOCK_SIZE)
          (blocks (Suc i) (f(i := BLOCK_SIZE)))"
      using r by (subst create_block_list_loop.simps) (simp add: b ap bp Let_def del: of_nat_Suc)
    also have "\<dots> = Some (blocks (Suc i + block_count (r - BLOCK_SIZE))
        (\<lambda>j. if j < Suc i then (f(i := BLOCK_SIZE)) j else block_part (r - BLOCK_SIZE) (j - Suc i)))"
      using False Suc.prems(2) by (intro Suc.hyps(1) k(1)) (auto simp: distrib_right)
    also have "\<dots> = Some (blocks (i + block_count r) (\<lambda>j. if j < i then f j else block_part r (j - i)))"
      using bp by (simp add: k(2), intro blocks_cong) (auto simp: block_part_step less_Suc_eq Suc_diff_Suc)
    finally show ?thesis .
  qed
qed

lemma sum_block_part: "0 \<le> r \<Longrightarrow> (\<Sum>j<block_count r. block_part r j) = r"
proof (induction "block_count r" arbitrary: r)
  case 0
  then show ?case using block_count_step [of r] by fastforce
next
  case (Suc k)
  then have r: "0 < r" using block_count_nonpos by (metis Zero_not_Suc not_less)
  note k = block_count_step [OF r]
  have "(\<Sum>j<block_count r. block_part r j) =
      block_part r 0 + (\<Sum>j<block_count (r - BLOCK_SIZE). block_part (r - BLOCK_SIZE) j)"
    unfolding k sum.lessThan_Suc_shift by (simp add: block_part_step)
  then show ?case
    using Suc k r by (cases "r \<le> BLOCK_SIZE") (auto simp: block_part_def)
qed

lemma create_block_list_eq:
  assumes "0 \<le> fs" "fs < 4611686018427387904"
  shows "create_block_list fs (get_block_size fs) [] =
           Some (blocks (max 1 (block_count fs)) (block_part fs))"
proof (cases "fs = 0")
  case True
  then show ?thesis
    by (simp add: create_block_list_def create_block_list_loop.simps blocks_def block_part_def)
next
  case False
  then have pos: "1 \<le> block_count fs" using assms block_count_step [of fs] by simp
  have "create_block_list_loop BLOCK_SIZE (int 0 * BLOCK_SIZE) fs (blocks 0 (\<lambda>_. 0)) =
      Some (blocks (0 + block_count fs) (\<lambda>j. if j < 0 then 0 else block_part fs (j - 0)))"
    using assms by (intro create_block_list_loop_ok) (auto simp: BLOCK_SIZE_def)
  then show ?thesis
    using False pos by (simp add: create_block_list_def get_block_size_def blocks_def max_def)
qed

lemma allocate_new_blocks_spec:
  assumes st: "0 \<le> start" "0 < sz" "start + sz + BLOCK_SIZE < 4611686018427387904"
    and n: "start div BLOCK_SIZE \<le> int n"
    and f: "\<forall>j<n. 0 \<le> f j \<and> f j \<le> BLOCK_SIZE"
  shows "\<exists>n' f'. allocate_new_blocks_for_writing start sz (blocks n f) = Some (blocks n' f') \<and>
           n \<le> n' \<and> (\<forall>j<n'. 0 \<le> f' j \<and> f' j \<le> BLOCK_SIZE) \<and> (\<forall>j<n. f j \<le> f' j) \<and>
           (\<forall>j<n. (int j + 1) * BLOCK_SIZE \<le> start \<or> start + sz \<le> int j * BLOCK_SIZE \<longrightarrow> f' j = f j) \<and>
           (\<forall>p. start \<le> p \<and> p < start + sz \<longrightarrow>
              nat (p div BLOCK_SIZE) < n' \<and> p mod BLOCK_SIZE < f' (nat (p div BLOCK_SIZE)))"
proof -
  let ?B = BLOCK_SIZE
  define i r where "i = nat (start div ?B)" and "r = start mod ?B + sz"
  let ?n = "max n (i + block_count r)" and ?f = "grow i r n f"
  have al: "allocate_new_blocks_for_writing start sz (blocks n f) = Some (blocks ?n ?f)"
    unfolding i_def r_def using st n f by (intro allocate_new_blocks_ok) auto
  have i: "start = int i * ?B + start mod ?B"
    using st by (simp add: i_def pos_imp_zdiv_nonneg_iff)
  have m: "0 \<le> start mod ?B" "start mod ?B < ?B" by simp_all
  have en: "int i * ?B + r = start + sz" using i unfolding r_def by linarith
  have r: "0 < r" using st m unfolding r_def by linarith
  have part: "0 < block_part r d \<and> block_part r d \<le> ?B" if "d < block_count r" for d
  proof -
    have "int (Suc d) * ?B \<le> int (block_count r) * ?B" using that by (intro mult_right_mono) auto
    then have "int d * ?B < r" using block_count_bound [OF r] unfolding of_nat_Suc distrib_right by linarith
    then show ?thesis by (simp add: block_part_def)
  qed
  have out: "?f j = f j" if "(int j + 1) * ?B \<le> start \<or> start + sz \<le> int j * ?B" for j
  proof (cases "i \<le> j \<and> j < i + block_count r")
    case True
    have "int i * ?B \<le> int j * ?B" using True by (intro mult_right_mono) auto
    then have "\<not> (int j + 1) * ?B \<le> start" using i m unfolding distrib_right by linarith
    then have "r \<le> int (j - i) * ?B"
      using that en True by (simp add: of_nat_diff left_diff_distrib)
    moreover have "0 < block_part r (j - i)" using part True by auto
    ultimately show ?thesis by (simp add: block_part_def)
  qed (auto simp: grow_def)
  have cov: "nat (p div ?B) < ?n \<and> p mod ?B < ?f (nat (p div ?B))" if p: "start \<le> p" "p < start + sz" for p
  proof -
    define j where "j = nat (p div ?B)"
    have p0: "0 \<le> p" using p st by linarith
    then have pj: "p = int j * ?B + p mod ?B" "0 \<le> p mod ?B" "p mod ?B < ?B"
      by (simp_all add: j_def pos_imp_zdiv_nonneg_iff)
    have "start div ?B \<le> p div ?B" using p(1) by (intro zdiv_mono1) auto
    then have ij: "i \<le> j" by (simp add: i_def j_def nat_mono)
    have "p - int i * ?B < int (block_count r) * ?B" using block_count_covers [of r] p(2) en by linarith
    then have "int j * ?B < (int i + int (block_count r)) * ?B"
      using pj unfolding distrib_right by linarith
    then have "j < i + block_count r" by (simp add: mult_less_cancel_right)
    moreover have "p mod ?B < block_part r (j - i)"
      using pj p(2) en ij by (simp add: block_part_def of_nat_diff left_diff_distrib)
    ultimately show ?thesis using ij unfolding j_def [symmetric] by (auto simp: grow_def)
  qed
  have "i \<le> n" using n by (simp add: i_def nat_le_iff)
  then have "\<forall>j<?n. 0 \<le> ?f j \<and> ?f j \<le> ?B"
    using f part by (auto simp: grow_def less_diff_conv2 less_imp_le max_def add.commute)
  moreover have "\<forall>j<n. f j \<le> ?f j" by (simp add: grow_def)
  ultimately show ?thesis using al out cov by (intro exI [of _ ?n] exI [of _ ?f]) auto
qed

section \<open>Properties\<close>

text \<open>C24: The block list the master makes for a file of a given size is contiguous from offset 0,
  every block but the last is full, and the bytes used add up to the file size; an empty
  file gets one empty block. The loop terminates.\<close>

theorem create_block_list_correct:
  assumes "0 \<le> fs" "fs < 4611686018427387904"
  shows "create_block_list fs (get_block_size fs) [] =
           Some (blocks (max 1 (block_count fs)) (block_part fs)) \<and>
         (\<Sum>j<max 1 (block_count fs). block_part fs j) = fs"
proof (cases "fs = 0")
  case True
  then show ?thesis using create_block_list_eq [OF assms] by (simp add: block_part_def)
next
  case False
  then have "1 \<le> block_count fs" using assms block_count_step [of fs] by simp
  then show ?thesis using create_block_list_eq [OF assms] sum_block_part [OF assms(1)] by (simp add: max_def)
qed

theorem create_block_list_correct_witness:
  "create_block_list 1500000 (get_block_size 1500000) [] = Some (blocks 2 (block_part 1500000)) \<and>
   blocks 2 (block_part 1500000) = [(0, 1048576), (1048576, 451424)]"
proof -
  have c: "max 1 (block_count 1500000) = 2" by (simp add: block_count_def BLOCK_SIZE_def)
  have "[0..<2] = [0, 1 :: nat]" by (simp add: upt_rec)
  then have "blocks 2 (block_part 1500000) = [(0, 1048576), (1048576, 451424)]"
    by (simp add: blocks_def block_part_def BLOCK_SIZE_def)
  with create_block_list_correct [of 1500000, unfolded c] show ?thesis by simp
qed

text \<open>A write that starts inside the file or right behind its last block extends the block list
  to a contiguous one in which every byte written lies in the used part of its block; no
  block shrinks and blocks outside the written range are unchanged.\<close>

theorem allocate_new_blocks_correct:
  assumes st: "0 \<le> start" "0 < sz" "start + sz + BLOCK_SIZE < 4611686018427387904"
    and n: "start div BLOCK_SIZE \<le> int n"
    and f: "\<forall>j<n. 0 \<le> f j \<and> f j \<le> BLOCK_SIZE"
  shows "\<exists>n' f'. allocate_new_blocks_for_writing start sz (blocks n f) = Some (blocks n' f') \<and>
           n \<le> n' \<and> (\<forall>j<n'. 0 \<le> f' j \<and> f' j \<le> BLOCK_SIZE) \<and> (\<forall>j<n. f j \<le> f' j) \<and>
           (\<forall>j<n. (int j + 1) * BLOCK_SIZE \<le> start \<or> start + sz \<le> int j * BLOCK_SIZE \<longrightarrow> f' j = f j) \<and>
           (\<forall>p. start \<le> p \<and> p < start + sz \<longrightarrow>
              nat (p div BLOCK_SIZE) < n' \<and> p mod BLOCK_SIZE < f' (nat (p div BLOCK_SIZE)))"
  using allocate_new_blocks_spec [OF assms] .

theorem allocate_new_blocks_correct_witness:
  "\<exists>n' f'. allocate_new_blocks_for_writing 1048000 2000 (blocks 1 (\<lambda>_. 1048000)) = Some (blocks n' f') \<and>
     n' > nat (1049999 div BLOCK_SIZE) \<and> 1049999 mod BLOCK_SIZE < f' 1"
proof -
  have "\<forall>j<1. 0 \<le> (\<lambda>_::nat. 1048000::int) j \<and> (\<lambda>_::nat. 1048000) j \<le> BLOCK_SIZE"
    by (simp add: BLOCK_SIZE_def)
  from allocate_new_blocks_correct [OF _ _ _ _ this, of 1048000 2000] obtain n' f' where
    al: "allocate_new_blocks_for_writing 1048000 2000 (blocks 1 (\<lambda>_. 1048000)) = Some (blocks n' f')"
    and c: "\<forall>p. 1048000 \<le> p \<and> p < 1048000 + 2000 \<longrightarrow>
      nat (p div BLOCK_SIZE) < n' \<and> p mod BLOCK_SIZE < f' (nat (p div BLOCK_SIZE))"
    by (auto simp: BLOCK_SIZE_def)
  from c [rule_format, of 1049999] al show ?thesis by (auto simp: BLOCK_SIZE_def)
qed

text \<open>C25: For a request on a contiguous block list the master returns the consecutive blocks from the
  one that holds the start; they cover the whole request exactly when it does not cross
  one more block boundary than its size alone accounts for, so every aligned request is
  covered.\<close>

theorem select_covers_iff:
  assumes "0 \<le> start" "0 < sz" "start + sz < 9223372036854775808"
    "nat (start div BLOCK_SIZE) + block_count sz \<le> n"
  shows "\<exists>bl. select_node_block_set start sz (blocks n f) = Some bl \<and>
           length bl = block_count sz \<and>
           ((\<forall>p. start \<le> p \<and> p < start + sz \<longrightarrow> p div BLOCK_SIZE * BLOCK_SIZE \<in> map_keys bl) \<longleftrightarrow>
            start mod BLOCK_SIZE + sz \<le> int (block_count sz) * BLOCK_SIZE)"
proof -
  let ?B = BLOCK_SIZE
  define i where "i = nat (start div ?B)"
  let ?bl = "map (\<lambda>i. (int i * ?B, f i)) [i..<i + block_count sz]"
  have sel: "select_node_block_set start sz (blocks n f) = Some ?bl"
    unfolding i_def using assms by (intro select_node_block_set_ok) auto
  have i: "start = int i * ?B + start mod ?B" "0 \<le> start mod ?B" "start mod ?B < ?B"
    using assms by (simp_all add: i_def pos_imp_zdiv_nonneg_iff)
  have keys: "x * ?B \<in> map_keys ?bl \<longleftrightarrow> int i \<le> x \<and> x < int i + int (block_count sz)" for x
  proof
    assume "x * ?B \<in> map_keys ?bl"
    then obtain j where j: "j \<in> {i..<i + block_count sz}" "x * ?B = int j * ?B" by auto
    then have "x = int j" by (simp add: BLOCK_SIZE_def)
    with j show "int i \<le> x \<and> x < int i + int (block_count sz)" by auto
  next
    assume "int i \<le> x \<and> x < int i + int (block_count sz)"
    then show "x * ?B \<in> map_keys ?bl" by (force intro!: image_eqI [of _ _ "nat x"])
  qed
  have last: "(start + sz - 1) div ?B < int i + int (block_count sz) \<longleftrightarrow>
      start mod ?B + sz \<le> int (block_count sz) * ?B"
  proof -
    have "(start + sz - 1) div ?B < int i + int (block_count sz) \<longleftrightarrow>
        start + sz - 1 < (int i + int (block_count sz)) * ?B"
      by (rule div_less_iff_mult_int) simp
    then show ?thesis using i unfolding distrib_right by linarith
  qed
  have "(\<forall>p. start \<le> p \<and> p < start + sz \<longrightarrow> p div ?B * ?B \<in> map_keys ?bl) \<longleftrightarrow>
      (start + sz - 1) div ?B < int i + int (block_count sz)"
  proof
    assume "\<forall>p. start \<le> p \<and> p < start + sz \<longrightarrow> p div ?B * ?B \<in> map_keys ?bl"
    then have "(start + sz - 1) div ?B * ?B \<in> map_keys ?bl" using assms(2) by simp
    then show "(start + sz - 1) div ?B < int i + int (block_count sz)" unfolding keys by blast
  next
    assume lt: "(start + sz - 1) div ?B < int i + int (block_count sz)"
    show "\<forall>p. start \<le> p \<and> p < start + sz \<longrightarrow> p div ?B * ?B \<in> map_keys ?bl"
    proof (intro allI impI)
      fix p
      assume "start \<le> p \<and> p < start + sz"
      then have "start div ?B \<le> p div ?B" "p div ?B \<le> (start + sz - 1) div ?B"
        by (auto intro: zdiv_mono1)
      then show "p div ?B * ?B \<in> map_keys ?bl"
        using lt assms(1) unfolding keys by (simp add: i_def pos_imp_zdiv_nonneg_iff)
    qed
  qed
  then show ?thesis using sel last by auto
qed

theorem select_covers_iff_witness:
  "\<exists>bl. select_node_block_set 1048575 2 (blocks 2 (\<lambda>_. 1048576)) = Some bl \<and>
     \<not> (\<forall>p. 1048575 \<le> p \<and> p < 1048577 \<longrightarrow> p div BLOCK_SIZE * BLOCK_SIZE \<in> map_keys bl)"
proof -
  have c: "block_count 2 = 1" by (simp add: block_count_def BLOCK_SIZE_def)
  have "nat (1048575 div BLOCK_SIZE) + block_count 2 \<le> 2" by (simp add: c BLOCK_SIZE_def)
  from select_covers_iff [OF _ _ _ this, of "\<lambda>_. 1048576"] show ?thesis
    by (auto simp: c) (auto simp: BLOCK_SIZE_def)
qed

end
