(* ===== verification/Allocator.thy ===== *)
theory Allocator
  imports HFS_Prelude
begin

text \<open>
  The contract shared by everything that hands out resources: the block pool of the cache,
  the node numbers and the file numbers of the master. Each is an interpretation of the
  locale \<open>block_allocator\<close>.
\<close>

text \<open>
  The contract the file cache relies on: a block handed out is not one in use, a block
  is handed out as long as fewer than \<open>cap\<close> are, and giving one back makes it available.
\<close>

fun alloc_n :: "('s \<Rightarrow> ('b \<times> 's) option) \<Rightarrow> nat \<Rightarrow> 's \<Rightarrow> ('b list \<times> 's) option" where
  "alloc_n alloc 0 s = Some ([], s)"
| "alloc_n alloc (Suc n) s =
     (case alloc s of
        None \<Rightarrow> None
      | Some (a, s') \<Rightarrow> (case alloc_n alloc n s' of
                          None \<Rightarrow> None | Some (as, s'') \<Rightarrow> Some (a # as, s'')))"

locale block_allocator =
  fixes alloc :: "'s \<Rightarrow> ('b \<times> 's) option"
    and release :: "'b \<Rightarrow> 's \<Rightarrow> 's"
    and ainv :: "'b set \<Rightarrow> 's \<Rightarrow> bool"
    and cap :: "'s \<Rightarrow> nat"
  assumes alloc_fresh: "ainv L s \<Longrightarrow> alloc s = Some (a, s') \<Longrightarrow> a \<notin> L \<and> ainv (insert a L) s'"
    and alloc_some: "ainv L s \<Longrightarrow> card L < cap s \<Longrightarrow> alloc s \<noteq> None"
    and alloc_cap: "ainv L s \<Longrightarrow> alloc s = Some (a, s') \<Longrightarrow> cap s' = cap s"
    and release_inv: "ainv L s \<Longrightarrow> a \<in> L \<Longrightarrow> ainv (L - {a}) (release a s) \<and> cap (release a s) = cap s"
    and live_bound: "ainv L s \<Longrightarrow> finite L \<and> card L \<le> cap s"
begin

lemma alloc_n_ok:
  "ainv L s \<Longrightarrow> card L + n \<le> cap s \<Longrightarrow>
     \<exists>as s'. alloc_n alloc n s = Some (as, s') \<and> length as = n \<and> distinct as \<and>
             set as \<inter> L = {} \<and> ainv (L \<union> set as) s' \<and> cap s' = cap s"
proof (induction n arbitrary: L s)
  case 0
  then show ?case by simp
next
  case (Suc n)
  then have "alloc s \<noteq> None" by (intro alloc_some) auto
  then obtain a s1 where a: "alloc s = Some (a, s1)" by auto
  note f = alloc_fresh [OF Suc.prems(1) a] and c = alloc_cap [OF Suc.prems(1) a]
  have "finite L" using live_bound Suc.prems(1) by blast
  with Suc.IH [of "insert a L" s1] f c Suc.prems(2) obtain as s' where
    "alloc_n alloc n s1 = Some (as, s')" "length as = n" "distinct as"
    "set as \<inter> insert a L = {}" "ainv (insert a L \<union> set as) s'" "cap s' = cap s1"
    by auto
  then show ?case using a f c by (auto simp: insert_commute)
qed

lemma release_realloc:
  assumes "ainv L s" "a \<in> L"
  shows "alloc (release a s) \<noteq> None"
proof -
  have "finite L" "card L \<le> cap s" using live_bound assms(1) by auto
  moreover have "card (L - {a}) < card L" using calculation assms(2) by (intro card_Diff1_less)
  ultimately show ?thesis
    using release_inv [OF assms] alloc_some [of "L - {a}" "release a s"] by simp
qed

end

end
