(* ===== verification/Memory_Pool.thy ===== *)
theory Memory_Pool
  imports Allocator
begin

text \<open>
  The block allocator of the IOnode cache and of the client stream buffers
  (Common/src/CBB\_memory\_pool.cpp, Common/include/CBB\_memory\_pool.h).

  The heap of \<^verbatim>\<open>memory_elem\<close> objects is a fresh-address counter and a \<^verbatim>\<open>next\<close> field per
  address; the pool keeps the head of its free list. \<^verbatim>\<open>malloc\<close> is a parameter: \<open>malloc a\<close>
  says whether the allocation that would yield the object \<open>a\<close> succeeds. A
  \<^verbatim>\<open>std::bad_alloc\<close> is the value \<open>Inl Bad_alloc\<close>, together with the state it leaves
  behind; reading through the null head is \<open>Inl Null_deref\<close>.
\<close>

section \<open>State and operations\<close>

datatype pool_error = Bad_alloc | Null_deref

record memory_pool =
  pool_head :: "nat option"
  elem_next :: "nat \<Rightarrow> nat option"
  pool_fresh :: nat
  available_memory :: size_t
  allocated_size :: size_t
  block_size :: size_t
  step_size :: size_t
  total_size :: size_t

text \<open>The default constructor.\<close>

definition memory_pool_init :: memory_pool where
  "memory_pool_init = \<lparr>pool_head = None, elem_next = (\<lambda>_. None), pool_fresh = 0,
     available_memory = 0, allocated_size = 0, block_size = 0, step_size = 0, total_size = 0\<rparr>"

text \<open>\<^verbatim>\<open>size_of_elem * total_count\<close> converts the int count to size\_t and wraps.\<close>

definition pool_setup :: "size_t \<Rightarrow> c_int \<Rightarrow> c_int \<Rightarrow> memory_pool \<Rightarrow> memory_pool" where
  "pool_setup size_of_elem total_count pre_alloc_count p =
     (let pre_alloc_count = (if pre_alloc_count > total_count then total_count
                             else pre_alloc_count)
      in p\<lparr>available_memory := 0,
           total_size := u64 (size_of_elem * u64 total_count),
           block_size := size_of_elem,
           step_size := u64 (u64 pre_alloc_count * size_of_elem)\<rparr>)"

definition memory_pool_new :: "size_t \<Rightarrow> c_int \<Rightarrow> c_int \<Rightarrow> memory_pool" where
  "memory_pool_new size_of_elem total_count pre_alloc_count =
     pool_setup size_of_elem total_count pre_alloc_count memory_pool_init"

text \<open>
  The loop of \<^verbatim>\<open>allocate_more_memory\<close>: one \<^verbatim>\<open>new memory_elem\<close> per block, pushed on the free
  list. The flag is False when \<^verbatim>\<open>malloc\<close> failed, the elements pushed before it stay. The
  loop does not end when the block size is 0, which is the value None.
\<close>

partial_function (option) push_elems ::
    "(nat \<Rightarrow> bool) \<Rightarrow> size_t \<Rightarrow> memory_pool \<Rightarrow> (bool \<times> memory_pool) option" where
  "push_elems malloc tmp p =
     (if block_size p \<le> tmp then
        (if malloc (pool_fresh p) then
           push_elems malloc (tmp - block_size p)
             (p\<lparr>elem_next := (elem_next p)(pool_fresh p := pool_head p),
                pool_head := Some (pool_fresh p),
                pool_fresh := pool_fresh p + 1\<rparr>)
         else Some (False, p))
      else Some (True, p))"

definition allocate_more_memory ::
    "(nat \<Rightarrow> bool) \<Rightarrow> memory_pool \<Rightarrow> ((pool_error + size_t) \<times> memory_pool) option" where
  "allocate_more_memory malloc p =
     (if total_size p \<ge> u64 (allocated_size p + block_size p) then
        (let allocation_size =
           (if u64 (total_size p - allocated_size p) > step_size p then step_size p
            else u64 (total_size p - allocated_size p))
         in case push_elems malloc allocation_size p of
              None \<Rightarrow> None
            | Some (False, p') \<Rightarrow> Some (Inl Bad_alloc, p')
            | Some (True, p') \<Rightarrow>
                Some (Inr allocation_size,
                  p'\<lparr>available_memory := u64 (available_memory p' + allocation_size),
                     allocated_size := u64 (allocated_size p' + allocation_size)\<rparr>))
      else Some (Inl Bad_alloc, p))"

text \<open>The part of \<^verbatim>\<open>allocate\<close> after the refill: take the head of the free list.\<close>

definition pop_head :: "memory_pool \<Rightarrow> (pool_error + nat) \<times> memory_pool" where
  "pop_head p =
     (case pool_head p of
        None \<Rightarrow> (Inl Null_deref, p)
      | Some ret \<Rightarrow>
          (Inr ret, p\<lparr>pool_head := elem_next p ret,
                      available_memory := u64 (available_memory p - block_size p)\<rparr>))"

definition allocate ::
    "(nat \<Rightarrow> bool) \<Rightarrow> memory_pool \<Rightarrow> ((pool_error + nat) \<times> memory_pool) option" where
  "allocate malloc p =
     (if pool_head p = None then
        (case allocate_more_memory malloc p of
           None \<Rightarrow> None
         | Some (Inl e, p') \<Rightarrow> Some (Inl e, p')
         | Some (Inr _, p') \<Rightarrow> Some (pop_head p'))
      else Some (pop_head p))"

definition free :: "nat \<Rightarrow> memory_pool \<Rightarrow> memory_pool" where
  "free memory p =
     p\<lparr>elem_next := (elem_next p)(memory := pool_head p),
       pool_head := Some memory,
       available_memory := u64 (available_memory p + block_size p)\<rparr>"

definition has_memory_left :: "size_t \<Rightarrow> memory_pool \<Rightarrow> bool" where
  "has_memory_left sz p \<longleftrightarrow>
     available_memory p \<ge> sz \<or> total_size p \<ge> u64 (allocated_size p + block_size p)"

definition get_available_memory_size :: "memory_pool \<Rightarrow> size_t" where
  "get_available_memory_size p = available_memory p"

definition get_total_memory_size :: "memory_pool \<Rightarrow> size_t" where
  "get_total_memory_size p = total_size p"

text \<open>The destructor: the elements it deletes, in the order it deletes them.\<close>

partial_function (option) destroy_loop ::
    "(nat \<Rightarrow> nat option) \<Rightarrow> nat option \<Rightarrow> nat list option" where
  "destroy_loop next cur =
     (case cur of
        None \<Rightarrow> Some []
      | Some a \<Rightarrow> Option.bind (destroy_loop next (next a)) (\<lambda>as. Some (a # as)))"

definition memory_pool_destroy :: "memory_pool \<Rightarrow> nat list option" where
  "memory_pool_destroy p = destroy_loop (elem_next p) (pool_head p)"

section \<open>Invariant\<close>

text \<open>
  \<open>free_path\<close>: the free list read from the head. \<open>elems_ok xs L p\<close>: the free list holds
  \<open>xs\<close>, no element twice, none of the live elements \<open>L\<close> the callers hold, and every
  element ever created is in one of the two. \<open>pool_inv\<close> adds the accounting.
\<close>

fun free_path :: "(nat \<Rightarrow> nat option) \<Rightarrow> nat option \<Rightarrow> nat list \<Rightarrow> bool" where
  "free_path nx h [] = (h = None)"
| "free_path nx h (x # xs) = (h = Some x \<and> free_path nx (nx x) xs)"

definition elems_ok :: "nat list \<Rightarrow> nat set \<Rightarrow> memory_pool \<Rightarrow> bool" where
  "elems_ok xs L p \<longleftrightarrow>
     free_path (elem_next p) (pool_head p) xs \<and> distinct xs \<and> set xs \<inter> L = {} \<and>
     set xs \<union> L = {..<pool_fresh p}"

definition pool_config_ok :: "memory_pool \<Rightarrow> bool" where
  "pool_config_ok p \<longleftrightarrow>
     0 < block_size p \<and> block_size p dvd total_size p \<and> block_size p dvd step_size p \<and>
     0 \<le> step_size p \<and> 0 \<le> total_size p \<and> total_size p + block_size p < 18446744073709551616"

definition pool_inv :: "nat set \<Rightarrow> memory_pool \<Rightarrow> bool" where
  "pool_inv L p \<longleftrightarrow>
     pool_config_ok p \<and>
     (\<exists>xs. elems_ok xs L p \<and> available_memory p = block_size p * int (length xs)) \<and>
     allocated_size p = block_size p * int (pool_fresh p) \<and> allocated_size p \<le> total_size p"

abbreviation malloc_ok :: "nat \<Rightarrow> bool" where
  "malloc_ok \<equiv> \<lambda>_. True"

definition same_config :: "memory_pool \<Rightarrow> memory_pool \<Rightarrow> bool" where
  "same_config p q \<longleftrightarrow>
     block_size q = block_size p \<and> step_size q = step_size p \<and> total_size q = total_size p"

lemma free_path_upd [simp]:
  "a \<notin> set xs \<Longrightarrow> free_path (nx(a := b)) h xs = free_path nx h xs"
  by (induction xs arbitrary: h) auto

lemma elems_ok_live_finite: "elems_ok xs L p \<Longrightarrow> finite L"
  by (metis elems_ok_def finite_Un finite_lessThan)

lemma elems_ok_count:
  assumes "elems_ok xs L p"
  shows "length xs + card L = pool_fresh p"
proof -
  have "card (set xs \<union> L) = card (set xs) + card L"
    using assms elems_ok_live_finite [OF assms]
    by (intro card_Un_disjoint) (auto simp: elems_ok_def)
  then show ?thesis using assms by (simp add: elems_ok_def distinct_card)
qed

lemma elems_ok_head_None: "elems_ok xs L p \<Longrightarrow> pool_head p = None \<longleftrightarrow> xs = []"
  by (cases xs) (auto simp: elems_ok_def)

lemma u64_blocks:
  assumes "pool_config_ok p" "m \<le> n" "block_size p * int n \<le> total_size p"
  shows "u64 (block_size p * int m) = block_size p * int m"
proof (rule u64_id)
  have "block_size p * int m \<le> block_size p * int n"
    using assms by (intro mult_left_mono) (auto simp: pool_config_ok_def)
  then show "block_size p * int m < 18446744073709551616"
    using assms unfolding pool_config_ok_def by linarith
qed (use assms in \<open>simp add: pool_config_ok_def\<close>)

lemma push_elems_ok:
  assumes "elems_ok xs L p" "0 < block_size p"
  shows "\<exists>p' ys. push_elems malloc_ok (block_size p * int n) p = Some (True, p') \<and>
           elems_ok ys L p' \<and> length ys = length xs + n \<and> pool_fresh p' = pool_fresh p + n \<and>
           same_config p p' \<and> available_memory p' = available_memory p \<and>
           allocated_size p' = allocated_size p"
  using assms
proof (induction n arbitrary: p xs)
  case 0
  then show ?case by (auto simp: push_elems.simps same_config_def)
next
  case (Suc n)
  let ?q = "p\<lparr>elem_next := (elem_next p)(pool_fresh p := pool_head p),
              pool_head := Some (pool_fresh p), pool_fresh := pool_fresh p + 1\<rparr>"
  have "elems_ok (pool_fresh p # xs) L ?q"
  proof -
    have "pool_fresh p \<notin> set xs \<union> L" using Suc.prems(1) by (simp add: elems_ok_def)
    then show ?thesis using Suc.prems(1) by (auto simp: elems_ok_def lessThan_Suc)
  qed
  from Suc.IH [OF this] Suc.prems show ?case
    by (subst push_elems.simps) (auto simp: algebra_simps same_config_def)
qed

lemma refill_amount:
  assumes "pool_inv L p"
  obtains n where
    "(if u64 (total_size p - allocated_size p) > step_size p then step_size p
      else u64 (total_size p - allocated_size p)) = block_size p * int n"
    "block_size p * (int (pool_fresh p) + int n) \<le> total_size p"
    "0 < step_size p \<Longrightarrow> allocated_size p + block_size p \<le> total_size p \<Longrightarrow> 0 < n"
proof -
  let ?b = "block_size p" and ?r = "total_size p - allocated_size p"
  have c: "0 < ?b" "?b dvd total_size p" "?b dvd step_size p" "0 \<le> step_size p" "0 \<le> ?r"
    "allocated_size p = ?b * int (pool_fresh p)"
    using assms by (auto simp: pool_inv_def pool_config_ok_def)
  have u: "u64 ?r = ?r"
  proof (rule u64_id)
    have "total_size p < 18446744073709551616" "0 \<le> allocated_size p"
      using assms c by (auto simp: pool_inv_def pool_config_ok_def)
    then show "?r < 18446744073709551616" by linarith
  qed (use c in simp)
  let ?a = "if ?r > step_size p then step_size p else ?r"
  have "?b dvd ?a" "0 \<le> ?a" using c by auto
  then obtain k where k: "?a = ?b * k" unfolding dvd_def by blast
  then have k0: "0 \<le> k" using \<open>0 \<le> ?a\<close> c(1) by (simp add: zero_le_mult_iff)
  have pos: "0 < nat k" if "0 < step_size p" "allocated_size p + ?b \<le> total_size p"
  proof -
    have "0 < ?a" using that c by auto
    then show ?thesis using k c(1) by (simp add: zero_less_mult_iff)
  qed
  have "?b * k \<le> ?r" unfolding k [symmetric] by simp
  then have "?b * (int (pool_fresh p) + int (nat k)) \<le> total_size p"
    using c(6) k0 by (simp add: distrib_left)
  moreover have "(if u64 ?r > step_size p then step_size p else u64 ?r) = ?b * int (nat k)"
    unfolding u using k k0 by simp
  ultimately show ?thesis using that pos by blast
qed

lemma refill_ok:
  assumes inv: "pool_inv L p" and empty: "pool_head p = None"
    and room: "allocated_size p + block_size p \<le> total_size p" and st: "0 < step_size p"
  shows "\<exists>k p'. allocate_more_memory malloc_ok p = Some (Inr k, p') \<and> pool_inv L p' \<and>
           pool_head p' \<noteq> None \<and> same_config p p'"
proof -
  from inv obtain xs where xs: "elems_ok xs L p" "available_memory p = block_size p * int (length xs)"
    and c: "pool_config_ok p" "allocated_size p = block_size p * int (pool_fresh p)"
    by (auto simp: pool_inv_def)
  obtain n where n: "(if u64 (total_size p - allocated_size p) > step_size p then step_size p
      else u64 (total_size p - allocated_size p)) = block_size p * int n"
    "block_size p * (int (pool_fresh p) + int n) \<le> total_size p" "0 < n"
    using refill_amount [OF inv] room st by metis
  have b: "0 < block_size p" using c by (simp add: pool_config_ok_def)
  from push_elems_ok [OF xs(1) b, of n] obtain p' ys where
    p': "push_elems malloc_ok (block_size p * int n) p = Some (True, p')" "elems_ok ys L p'"
      "length ys = length xs + n" "pool_fresh p' = pool_fresh p + n" "same_config p p'"
      "available_memory p' = available_memory p" "allocated_size p' = allocated_size p"
    by blast
  have xs0: "xs = []" using xs empty elems_ok_head_None by blast
  let ?q = "p'\<lparr>available_memory := u64 (available_memory p' + block_size p * int n),
              allocated_size := u64 (allocated_size p' + block_size p * int n)\<rparr>"
  have u: "u64 (available_memory p' + block_size p * int n) = block_size p * int n"
    "u64 (allocated_size p' + block_size p * int n) = block_size p * int (pool_fresh p + n)"
    using p'(6,7) xs xs0 c u64_blocks [OF c(1), of n "pool_fresh p + n"]
      u64_blocks [OF c(1), of "pool_fresh p + n" "pool_fresh p + n"] n(2)
    by (auto simp: distrib_left)
  have call: "allocate_more_memory malloc_ok p = Some (Inr (block_size p * int n), ?q)"
    using room c p'(1) unfolding allocate_more_memory_def n(1) Let_def
    by (auto simp: u64_id pool_config_ok_def)
  have "elems_ok ys L ?q" using p'(2) by (simp add: elems_ok_def)
  moreover have "ys \<noteq> []" using p'(3) n(3) by auto
  ultimately show ?thesis
    using call u p' c n xs0 elems_ok_head_None [of ys L ?q]
    by (auto simp: pool_inv_def same_config_def pool_config_ok_def algebra_simps)
qed

lemma pop_head_ok:
  assumes "pool_inv L p" "pool_head p \<noteq> None"
  shows "\<exists>a p'. pop_head p = (Inr a, p') \<and> a \<notin> L \<and> pool_inv (insert a L) p' \<and> same_config p p'"
proof -
  from assms obtain xs where xs: "elems_ok xs L p"
    "available_memory p = block_size p * int (length xs)" by (auto simp: pool_inv_def)
  with assms(2) obtain a ys where [simp]: "xs = a # ys" by (cases xs) (auto simp: elems_ok_def)
  have c: "pool_config_ok p" "allocated_size p = block_size p * int (pool_fresh p)"
    "allocated_size p \<le> total_size p" using assms(1) by (auto simp: pool_inv_def)
  let ?p' = "p\<lparr>pool_head := elem_next p a,
               available_memory := u64 (available_memory p - block_size p)\<rparr>"
  have "length ys \<le> pool_fresh p" using elems_ok_count [OF xs(1)] by simp
  then have "u64 (available_memory p - block_size p) = block_size p * int (length ys)"
    using xs(2) u64_blocks [OF c(1)] c(2,3) by (simp add: distrib_left)
  moreover have "elems_ok ys (insert a L) ?p'"
    using xs(1) by (auto simp: elems_ok_def)
  ultimately have "pool_inv (insert a L) ?p'"
    using c by (auto simp: pool_inv_def pool_config_ok_def)
  moreover have "pop_head p = (Inr a, ?p')" "a \<notin> L"
    using xs(1) by (auto simp: pop_head_def elems_ok_def)
  ultimately show ?thesis by (auto simp: same_config_def)
qed

lemma allocate_cases:
  assumes "pool_inv L p" "0 < step_size p"
  shows "if has_memory_left (block_size p) p
         then \<exists>a p'. allocate malloc_ok p = Some (Inr a, p') \<and> a \<notin> L \<and>
                pool_inv (insert a L) p' \<and> same_config p p'
         else allocate malloc_ok p = Some (Inl Bad_alloc, p)"
proof -
  from assms(1) obtain xs where xs: "elems_ok xs L p"
    "available_memory p = block_size p * int (length xs)" by (auto simp: pool_inv_def)
  have c: "0 < block_size p" "u64 (allocated_size p + block_size p) = allocated_size p + block_size p"
    using assms(1) by (auto simp: pool_inv_def pool_config_ok_def u64_id)
  show ?thesis
  proof (cases "pool_head p = None")
    case True
    then have 0: "available_memory p = 0" using xs elems_ok_head_None by auto
    show ?thesis
    proof (cases "allocated_size p + block_size p \<le> total_size p")
      case room: True
      obtain k p1 where 1: "allocate_more_memory malloc_ok p = Some (Inr k, p1)" "pool_inv L p1"
        "pool_head p1 \<noteq> None" "same_config p p1"
        using refill_ok [OF assms(1) True room assms(2)] by blast
      with pop_head_ok [OF 1(2,3)] True room c 0 show ?thesis
        by (auto simp: has_memory_left_def allocate_def same_config_def)
    next
      case False
      with True c 0 show ?thesis
        by (auto simp: has_memory_left_def allocate_def allocate_more_memory_def)
    qed
  next
    case False
    then have "xs \<noteq> []" using elems_ok_head_None [OF xs(1)] by simp
    then have "1 \<le> int (length xs)" by (cases xs) auto
    then have "block_size p * 1 \<le> available_memory p"
      unfolding xs(2) using c(1) by (intro mult_left_mono) auto
    then show ?thesis
      using False pop_head_ok [OF assms(1) False] by (auto simp: has_memory_left_def allocate_def)
  qed
qed

lemma free_ok:
  assumes "pool_inv L p" "a \<in> L"
  shows "pool_inv (L - {a}) (free a p)" "same_config p (free a p)"
proof -
  from assms(1) obtain xs where xs: "elems_ok xs L p"
    "available_memory p = block_size p * int (length xs)" by (auto simp: pool_inv_def)
  have c: "pool_config_ok p" "allocated_size p = block_size p * int (pool_fresh p)"
    "allocated_size p \<le> total_size p" using assms(1) by (auto simp: pool_inv_def)
  have "a \<notin> set xs" using xs(1) assms(2) by (auto simp: elems_ok_def)
  then have ok: "elems_ok (a # xs) (L - {a}) (free a p)"
    using xs(1) assms(2) by (auto simp: elems_ok_def free_def)
  have "length (a # xs) \<le> pool_fresh p"
    using elems_ok_count [OF ok] by (simp add: free_def)
  then have "u64 (block_size p * int (length (a # xs))) = block_size p * int (length (a # xs))"
    using c by (intro u64_blocks) auto
  then have "available_memory (free a p) = block_size p * int (length (a # xs))"
    using xs(2) by (simp add: free_def distrib_left add.commute)
  with ok c show "pool_inv (L - {a}) (free a p)"
    unfolding pool_inv_def by (fastforce simp: free_def pool_config_ok_def)
  show "same_config p (free a p)" by (simp add: same_config_def free_def)
qed

lemma new_pool_ok:
  assumes "0 < bs" "0 \<le> pre" "0 \<le> cnt" "bs * cnt + bs < 18446744073709551616"
  shows "pool_inv {} (memory_pool_new bs cnt pre)"
proof -
  define k where "k = (if pre > cnt then cnt else pre)"
  have k: "0 \<le> k" "k \<le> cnt" using assms by (auto simp: k_def)
  then have le: "bs * k \<le> bs * cnt" using assms by (intro mult_left_mono) auto
  have "1 * cnt \<le> bs * cnt" using assms by (intro mult_right_mono) auto
  then have c: "cnt < 18446744073709551616" using assms by linarith
  then have k': "k < 18446744073709551616" using k by linarith
  have "bs * cnt < 18446744073709551616" using assms by linarith
  moreover from this le have "bs * k < 18446744073709551616" by linarith
  ultimately have "u64 (bs * cnt) = bs * cnt" "u64 (bs * k) = bs * k"
    using assms k by (auto intro!: u64_id)
  then have u: "u64 (bs * u64 cnt) = bs * cnt" "u64 (u64 k * bs) = bs * k"
    using c k k' assms by (auto simp: u64_id mult.commute)
  show ?thesis
    using assms k u unfolding memory_pool_new_def pool_setup_def k_def [symmetric] Let_def
    by (auto simp: pool_inv_def pool_config_ok_def
        memory_pool_init_def elems_ok_def intro!: exI [of _ "[]"])
qed

lemma destroy_loop_path:
  "free_path nx h xs \<Longrightarrow> destroy_loop nx h = Some xs"
  by (induction xs arbitrary: h) (simp_all add: destroy_loop.simps)

text \<open>Without a refill step nothing is added to the free list, whatever \<^verbatim>\<open>malloc\<close> does.\<close>

lemma allocate_zero_step:
  assumes "pool_inv L p" "step_size p = 0" "pool_head p = None"
    "allocated_size p + block_size p \<le> total_size p"
  shows "allocate malloc p = Some (Inl Null_deref, p)"
proof -
  from assms have c: "0 < block_size p" "0 \<le> allocated_size p"
    "total_size p + block_size p < 18446744073709551616"
    by (auto simp: pool_inv_def pool_config_ok_def)
  have a: "0 \<le> available_memory p" "available_memory p = 0"
    using assms(1,3) elems_ok_head_None by (auto simp: pool_inv_def)
  have "push_elems malloc 0 p = Some (True, p)"
    using c by (simp add: push_elems.simps)
  moreover have "u64 (total_size p - allocated_size p) = total_size p - allocated_size p"
    "u64 (allocated_size p + block_size p) = allocated_size p + block_size p"
    "u64 (allocated_size p) = allocated_size p" "u64 0 = 0"
    using c assms(4) by (auto intro!: u64_id)
  ultimately show ?thesis
    using assms a c by (simp add: allocate_def allocate_more_memory_def pop_head_def)
qed

lemma allocate_inv:
  assumes "pool_inv L p" "allocate malloc_ok p = Some (r, p')"
  shows "pool_inv (case r of Inr a \<Rightarrow> insert a L | Inl _ \<Rightarrow> L) p' \<and>
         (\<forall>a. r = Inr a \<longrightarrow> a \<notin> L) \<and> same_config p p'"
proof (cases "0 < step_size p")
  case True
  then show ?thesis
    using allocate_cases [OF assms(1) True] assms
    by (auto simp: same_config_def split: if_splits)
next
  case False
  then have st: "step_size p = 0" using assms(1) by (simp add: pool_inv_def pool_config_ok_def)
  have u: "u64 (allocated_size p + block_size p) = allocated_size p + block_size p"
    using assms(1) by (auto simp: pool_inv_def pool_config_ok_def u64_id)
  show ?thesis
  proof (cases "pool_head p = None")
    case True
    then show ?thesis
      using allocate_zero_step [OF assms(1) st True, of malloc_ok] assms u
      by (cases "allocated_size p + block_size p \<le> total_size p")
        (auto simp: same_config_def allocate_def allocate_more_memory_def)
  next
    case False
    then show ?thesis
      using pop_head_ok [OF assms(1) False] assms(2) by (auto simp: allocate_def)
  qed
qed

section \<open>The pool as an allocator\<close>

definition pool_alloc :: "memory_pool \<Rightarrow> (nat \<times> memory_pool) option" where
  "pool_alloc p = (case allocate malloc_ok p of Some (Inr a, p') \<Rightarrow> Some (a, p') | _ \<Rightarrow> None)"

definition pool_capacity :: "memory_pool \<Rightarrow> nat" where
  "pool_capacity p = nat (total_size p div block_size p)"

definition live_pool :: "nat set \<Rightarrow> memory_pool \<Rightarrow> bool" where
  "live_pool L p \<longleftrightarrow> pool_inv L p \<and> 0 < step_size p"

lemma pool_fresh_bound: "pool_inv L p \<Longrightarrow> pool_fresh p \<le> pool_capacity p"
proof -
  assume inv: "pool_inv L p"
  then have b: "0 < block_size p" "int (pool_fresh p) * block_size p \<le> total_size p"
    by (auto simp: pool_inv_def pool_config_ok_def mult.commute)
  then have "int (pool_fresh p) * block_size p div block_size p \<le> total_size p div block_size p"
    by (intro zdiv_mono1)
  then show ?thesis using b by (simp add: pool_capacity_def nat_le_iff le_nat_iff)
qed

lemma has_memory_left_iff:
  assumes "pool_inv L p"
  shows "has_memory_left (block_size p) p \<longleftrightarrow> card L < pool_capacity p"
proof -
  from assms obtain xs where xs: "elems_ok xs L p"
    "available_memory p = block_size p * int (length xs)" by (auto simp: pool_inv_def)
  have c: "0 < block_size p" "block_size p dvd total_size p" "0 \<le> total_size p"
    "allocated_size p = block_size p * int (pool_fresh p)"
    "u64 (allocated_size p + block_size p) = allocated_size p + block_size p"
    using assms by (auto simp: pool_inv_def pool_config_ok_def u64_id)
  obtain t where t: "total_size p = block_size p * t" using c(2) unfolding dvd_def by blast
  have "0 \<le> t" "pool_capacity p = nat t"
    using c t by (auto simp: pool_capacity_def zero_le_mult_iff)
  moreover have "block_size p * int (pool_fresh p) + block_size p \<le> block_size p * t
      \<longleftrightarrow> int (pool_fresh p) + 1 \<le> t"
    using c(1) mult_le_cancel_left_pos [of "block_size p" "int (pool_fresh p) + 1" t]
    by (simp add: distrib_left)
  moreover have "block_size p \<le> available_memory p \<longleftrightarrow> xs \<noteq> []"
    using c(1) unfolding xs(2) by (cases xs) (auto simp: distrib_left)
  ultimately show ?thesis
    using elems_ok_count [OF xs(1)] pool_fresh_bound [OF assms] c t
    by (cases xs) (auto simp: has_memory_left_def)
qed

interpretation blocks: block_allocator pool_alloc free live_pool pool_capacity
proof
  fix L p a p'
  assume inv: "live_pool L p" and al: "pool_alloc p = Some (a, p')"
  then have "allocate malloc_ok p = Some (Inr a, p')"
    by (auto simp: pool_alloc_def split: option.splits sum.splits)
  from allocate_inv [OF _ this] inv
  have r: "pool_inv (insert a L) p'" "a \<notin> L" "same_config p p'" by (auto simp: live_pool_def)
  with inv show "a \<notin> L \<and> live_pool (insert a L) p'" "pool_capacity p' = pool_capacity p"
    by (auto simp: live_pool_def same_config_def pool_capacity_def)
next
  fix L p
  assume inv: "live_pool L p" and "card L < pool_capacity p"
  then have "has_memory_left (block_size p) p" by (auto simp: live_pool_def has_memory_left_iff)
  then show "pool_alloc p \<noteq> None"
    using allocate_cases [of L p] inv by (auto simp: live_pool_def pool_alloc_def)
next
  fix L p a
  assume "live_pool L p" "a \<in> L"
  then show "live_pool (L - {a}) (free a p) \<and> pool_capacity (free a p) = pool_capacity p"
    using free_ok [of L p a] by (auto simp: live_pool_def same_config_def pool_capacity_def)
next
  fix L p
  assume "live_pool L p"
  then have inv: "pool_inv L p" by (simp add: live_pool_def)
  then obtain xs where "elems_ok xs L p" by (auto simp: pool_inv_def)
  then show "finite L \<and> card L \<le> pool_capacity p"
    using elems_ok_live_finite elems_ok_count pool_fresh_bound [OF inv] by fastforce
qed

section \<open>Reachable pools\<close>

text \<open>
  The histories of a pool while \<^verbatim>\<open>malloc\<close> succeeds: constructed with a block size, a block count
  and a preallocation count, then any sequence of allocations, allocations the full pool
  refuses, and frees of live blocks.
\<close>

inductive pool_reach :: "size_t \<Rightarrow> c_int \<Rightarrow> c_int \<Rightarrow> nat set \<Rightarrow> memory_pool \<Rightarrow> bool"
  for bs cnt pre where
  reach_new: "\<lbrakk>0 < bs; 0 \<le> pre; 0 \<le> cnt; bs * cnt + bs < 18446744073709551616\<rbrakk> \<Longrightarrow>
     pool_reach bs cnt pre {} (memory_pool_new bs cnt pre)"
| reach_alloc: "\<lbrakk>pool_reach bs cnt pre L p; allocate malloc_ok p = Some (Inr a, p')\<rbrakk> \<Longrightarrow>
     pool_reach bs cnt pre (insert a L) p'"
| reach_alloc_fail: "\<lbrakk>pool_reach bs cnt pre L p; allocate malloc_ok p = Some (Inl e, p')\<rbrakk> \<Longrightarrow>
     pool_reach bs cnt pre L p'"
| reach_free: "\<lbrakk>pool_reach bs cnt pre L p; a \<in> L\<rbrakk> \<Longrightarrow>
     pool_reach bs cnt pre (L - {a}) (free a p)"

lemma new_pool_config:
  assumes "0 < bs" "0 \<le> cnt" "bs * cnt + bs < 18446744073709551616"
  shows "block_size (memory_pool_new bs cnt pre) = bs"
    "total_size (memory_pool_new bs cnt pre) = bs * cnt"
proof -
  have "1 * cnt \<le> bs * cnt" using assms by (intro mult_right_mono) auto
  then have "u64 cnt = cnt" "u64 (bs * cnt) = bs * cnt"
    using assms by (auto intro!: u64_id)
  then show "total_size (memory_pool_new bs cnt pre) = bs * cnt"
    by (simp add: memory_pool_new_def pool_setup_def)
qed (simp add: memory_pool_new_def pool_setup_def Let_def)

lemma pool_reach_inv:
  "pool_reach bs cnt pre L p \<Longrightarrow>
     pool_inv L p \<and> block_size p = bs \<and> total_size p = bs * cnt \<and> 0 < bs \<and> 0 \<le> cnt"
proof (induction rule: pool_reach.induct)
  case reach_new
  then show ?case using new_pool_ok new_pool_config by auto
next
  case (reach_alloc L p a p')
  then show ?case using allocate_inv [of L p "Inr a" p'] by (auto simp: same_config_def)
next
  case (reach_alloc_fail L p e p')
  then show ?case using allocate_inv [of L p "Inl e" p'] by (auto simp: same_config_def)
next
  case (reach_free L p a)
  then show ?case using free_ok [of L p a] by (auto simp: same_config_def)
qed

lemma destroy_free_list:
  assumes "pool_inv L p"
  shows "\<exists>xs. memory_pool_destroy p = Some xs \<and> distinct xs \<and> set xs = {..<pool_fresh p} - L \<and>
           available_memory p = block_size p * int (length xs)"
proof -
  from assms obtain xs where "elems_ok xs L p"
    "available_memory p = block_size p * int (length xs)" by (auto simp: pool_inv_def)
  then show ?thesis
    by (intro exI [of _ xs]) (auto simp: elems_ok_def memory_pool_destroy_def destroy_loop_path)
qed

section \<open>Properties\<close>

text \<open>C37: While \<^verbatim>\<open>malloc\<close> succeeds, in a pool with a preallocation count of at least one block whose
  invariant holds for the live blocks \<open>L\<close>, \<^verbatim>\<open>has_memory_left\<close> (asked for
  one block) is true exactly when fewer blocks are live than the pool may hold; then
  \<^verbatim>\<open>allocate\<close> returns a block that is not live and keeps the invariant, and otherwise it
  throws \<^verbatim>\<open>bad_alloc\<close> and leaves the pool unchanged. A \<^verbatim>\<open>malloc\<close> that fails during a refill and a
  preallocation count of 0 are excluded: there the first statement fails or \<^verbatim>\<open>allocate\<close> reads
  through a null pointer.\<close>

theorem allocate_correct:
  assumes "pool_inv L p" "0 < step_size p"
  shows "(has_memory_left (block_size p) p \<longleftrightarrow> card L < pool_capacity p) \<and>
         (if card L < pool_capacity p
          then \<exists>a p'. allocate malloc_ok p = Some (Inr a, p') \<and> a \<notin> L \<and>
                 pool_inv (insert a L) p' \<and> same_config p p'
          else allocate malloc_ok p = Some (Inl Bad_alloc, p))"
  using allocate_cases [OF assms] has_memory_left_iff [OF assms(1)] by simp

theorem allocate_correct_witness:
  "card ({} :: nat set) < pool_capacity (memory_pool_new 1048576 4 2) \<and>
   (\<exists>a p'. allocate malloc_ok (memory_pool_new 1048576 4 2) = Some (Inr a, p') \<and>
           pool_inv {a} p')"
proof -
  have inv: "pool_inv {} (memory_pool_new 1048576 4 2)" by (rule new_pool_ok) simp_all
  have "0 < step_size (memory_pool_new 1048576 4 2)"
    "card ({} :: nat set) < pool_capacity (memory_pool_new 1048576 4 2)"
    by (simp_all add: memory_pool_new_def pool_setup_def memory_pool_init_def
        pool_capacity_def u64_def)
  with allocate_correct [OF inv] show ?thesis by auto
qed

text \<open>C38: Along every history of a pool (set up with a block size above 0 and a total that fits 64 bits) in which \<^verbatim>\<open>malloc\<close> succeeds (the pool itself may still refuse
  an allocation when it is full) the memory reported available plus the live blocks is
  exactly the memory taken from the system, which never exceeds the configured total; at
  most \<open>cnt\<close> blocks are live; and the destructor terminates and deletes every block that is
  not live, each exactly once. After a refill in which \<^verbatim>\<open>malloc\<close> failed the accounting is wrong, so
  such histories are excluded.\<close>

theorem pool_reachable_accounting:
  assumes "pool_reach bs cnt pre L p"
  shows "get_available_memory_size p + bs * int (card L) = allocated_size p \<and>
         allocated_size p \<le> bs * cnt \<and> int (card L) \<le> cnt \<and>
         (\<exists>xs. memory_pool_destroy p = Some xs \<and> distinct xs \<and>
               set xs = {..<pool_fresh p} - L)"
proof -
  from pool_reach_inv [OF assms] have inv: "pool_inv L p" and c: "block_size p = bs"
    "total_size p = bs * cnt" "0 < bs" "0 \<le> cnt" by auto
  from inv obtain xs where "elems_ok xs L p" "available_memory p = bs * int (length xs)"
    using c by (auto simp: pool_inv_def)
  then have "available_memory p + bs * int (card L) = bs * int (pool_fresh p)"
    "card L \<le> pool_fresh p"
    using elems_ok_count [of xs L p] by (simp_all flip: distrib_left of_nat_add)
  moreover have "pool_fresh p \<le> nat cnt"
    using pool_fresh_bound [OF inv] c by (simp add: pool_capacity_def)
  moreover have "allocated_size p = bs * int (pool_fresh p)" "allocated_size p \<le> bs * cnt"
    using inv c by (auto simp: pool_inv_def)
  moreover have "\<exists>xs. memory_pool_destroy p = Some xs \<and> distinct xs \<and> set xs = {..<pool_fresh p} - L"
    using destroy_free_list [OF inv] by blast
  moreover have "int (card L) \<le> cnt" using calculation(2,3) c(4) by linarith
  ultimately show ?thesis by (simp add: get_available_memory_size_def)
qed

theorem pool_reachable_accounting_witness:
  "\<exists>a b p1 p2. allocate malloc_ok (memory_pool_new 1048576 4 2) = Some (Inr a, p1) \<and> allocate malloc_ok p1 = Some (Inr b, p2) \<and>
     a \<noteq> b \<and> get_available_memory_size (free a p2) + 1048576 = allocated_size (free a p2) \<and>
     (\<exists>xs. memory_pool_destroy (free a p2) = Some xs \<and> distinct xs \<and> a \<in> set xs \<and> b \<notin> set xs)"
proof -
  let ?p = "memory_pool_new 1048576 4 2"
  have r0: "pool_reach 1048576 4 2 {} ?p" by (rule reach_new) simp_all
  have inv: "pool_inv {} ?p" by (rule new_pool_ok) simp_all
  have c: "0 < step_size ?p" "pool_capacity ?p = 4"
    by (simp_all add: memory_pool_new_def pool_setup_def memory_pool_init_def pool_capacity_def u64_def)
  from allocate_cases [OF inv c(1)] has_memory_left_iff [OF inv] c(2) obtain a p1 where
    a: "allocate malloc_ok ?p = Some (Inr a, p1)" "pool_inv {a} p1" "same_config ?p p1" by auto
  have c1: "0 < step_size p1" "pool_capacity p1 = 4" using a(3) c by (simp_all add: same_config_def pool_capacity_def)
  from allocate_cases [OF a(2) c1(1)] has_memory_left_iff [OF a(2)] c1(2) obtain b p2 where
    b: "allocate malloc_ok p1 = Some (Inr b, p2)" "b \<noteq> a" "pool_inv {b, a} p2" by auto
  have "pool_reach 1048576 4 2 {b, a} p2" using reach_alloc [OF reach_alloc [OF r0 a(1)] b(1)] by simp
  from reach_free [OF this, of a] b(2) have r: "pool_reach 1048576 4 2 {b} (free a p2)" by (simp add: insert_Diff_if)
  have "a < pool_fresh (free a p2)" using b(3) by (auto simp: pool_inv_def elems_ok_def free_def)
  with b(2) have m: "a \<in> {..<pool_fresh (free a p2)} - {b}" by simp
  from pool_reachable_accounting [OF r] obtain xs where
    x: "get_available_memory_size (free a p2) + 1048576 = allocated_size (free a p2)"
      "memory_pool_destroy (free a p2) = Some xs" "distinct xs" "set xs = {..<pool_fresh (free a p2)} - {b}" by auto
  have "a \<in> set xs" "b \<notin> set xs" using m unfolding x(4) by simp_all
  with x(1-3) a(1) b(1,2) show ?thesis by metis
qed

text \<open>A caller that needs \<open>n\<close> blocks while at most \<open>capacity - n\<close> are live gets \<open>n\<close> distinct
  blocks, none of them live, and the invariant holds for the enlarged live set; and after
  a block is freed an allocation succeeds again.\<close>

theorem pool_reserve:
  assumes "pool_inv L p" "0 < step_size p"
  shows "(card L + n \<le> pool_capacity p \<longrightarrow>
           (\<exists>as p'. alloc_n pool_alloc n p = Some (as, p') \<and> length as = n \<and> distinct as \<and>
                    set as \<inter> L = {} \<and> pool_inv (L \<union> set as) p')) \<and>
         (\<forall>a\<in>L. pool_alloc (free a p) \<noteq> None)"
proof -
  have "live_pool L p" using assms by (simp add: live_pool_def)
  from blocks.alloc_n_ok [OF this, of n] blocks.release_realloc [OF this]
  show ?thesis by (auto simp: live_pool_def)
qed

theorem pool_reserve_witness:
  "\<exists>as p'. alloc_n pool_alloc 3 (memory_pool_new 1048576 4 2) = Some (as, p') \<and>
           length as = 3 \<and> distinct as"
proof -
  have inv: "pool_inv {} (memory_pool_new 1048576 4 2)" by (rule new_pool_ok) simp_all
  have "0 < step_size (memory_pool_new 1048576 4 2)"
    "card ({} :: nat set) + 3 \<le> pool_capacity (memory_pool_new 1048576 4 2)"
    by (simp_all add: memory_pool_new_def pool_setup_def memory_pool_init_def
        pool_capacity_def u64_def)
  with pool_reserve [OF inv] show ?thesis by blast
qed

text \<open>C39: The multi-threaded client sets its stream buffer pool up with one million blocks of
  1 MiB and a preallocation count of 0 (CBB\_stream.cpp:97, CBB\_const.h:99); the first
  \<^verbatim>\<open>allocate\<close> then refills nothing and reads through the null head, whatever \<^verbatim>\<open>malloc\<close> does.\<close>

theorem client_stream_pool_null_deref:
  "\<exists>p'. allocate malloc (memory_pool_new 1048576 1000000 0) = Some (Inl Null_deref, p')"
proof -
  let ?p = "memory_pool_new 1048576 1000000 0"
  have "pool_inv {} ?p" by (rule new_pool_ok) simp_all
  moreover have "step_size ?p = 0" "pool_head ?p = None"
    "allocated_size ?p + block_size ?p \<le> total_size ?p"
    by (simp_all add: memory_pool_new_def pool_setup_def memory_pool_init_def u64_def)
  ultimately have "allocate malloc ?p = Some (Inl Null_deref, ?p)"
    by (rule allocate_zero_step)
  then show ?thesis by simp
qed

text \<open>When \<^verbatim>\<open>malloc\<close> fails in the middle of a refill, \<^verbatim>\<open>allocate\<close> throws but the blocks already
  pushed stay on the free list uncounted: the next allocation succeeds and wraps the
  available size around to \<open>2 ^ 64 - bs\<close>, more than the whole pool.\<close>

theorem failed_refill_corrupts_accounting:
  assumes "0 < bs" "2 \<le> pre" "pre \<le> cnt" "bs * cnt + bs < 18446744073709551616"
  shows "\<exists>p1 p2. allocate (\<lambda>a. a = 0) (memory_pool_new bs cnt pre) = Some (Inl Bad_alloc, p1) \<and>
           allocate (\<lambda>a. a = 0) p1 = Some (Inr 0, p2) \<and>
           get_available_memory_size p2 = 18446744073709551616 - bs \<and>
           get_total_memory_size p2 < get_available_memory_size p2"
proof -
  have le: "bs * 2 \<le> bs * pre" "bs * pre \<le> bs * cnt" "1 * pre \<le> bs * pre" "1 * cnt \<le> bs * cnt"
    using assms by (auto intro!: mult_left_mono mult_right_mono)
  then have lt: "cnt < 18446744073709551616" "pre < 18446744073709551616"
    "bs * cnt < 18446744073709551616" "bs * pre < 18446744073709551616"
    "bs < 18446744073709551616" using assms by linarith+
  then have u: "u64 cnt = cnt" "u64 pre = pre" "u64 (bs * cnt) = bs * cnt"
    "u64 (bs * pre) = bs * pre" "u64 bs = bs"
    using assms by (auto intro!: u64_id)
  have new: "memory_pool_new bs cnt pre =
      memory_pool_init\<lparr>total_size := bs * cnt, block_size := bs, step_size := bs * pre\<rparr>"
    using assms u by (simp add: memory_pool_new_def pool_setup_def memory_pool_init_def Let_def
        mult.commute)
  have neg: "u64 (- bs) = 18446744073709551616 - bs"
    using assms lt by (simp add: u64_def zmod_zminus1_eq_if)
  show ?thesis
    using assms le u unfolding new
    by (auto simp: allocate_def allocate_more_memory_def memory_pool_init_def
        push_elems.simps pop_head_def Let_def get_available_memory_size_def neg
        get_total_memory_size_def)
qed

theorem failed_refill_corrupts_accounting_witness:
  "\<exists>p1 p2. allocate (\<lambda>a. a = 0) (memory_pool_new 1048576 100 100) = Some (Inl Bad_alloc, p1) \<and>
     allocate (\<lambda>a. a = 0) p1 = Some (Inr 0, p2) \<and>
     get_available_memory_size p2 = 18446744073708503040"
proof -
  have "0 < (1048576::int)" "2 \<le> (100::int)" "(100::int) \<le> 100"
    "(1048576::int) * 100 + 1048576 < 18446744073709551616" by simp_all
  from failed_refill_corrupts_accounting [OF this] show ?thesis by auto
qed

end
