(* ===== verification/Access_Queue.thy ===== *)
theory Access_Queue
  imports HFS_Prelude "HOL-Library.Monad_Syntax"
begin

text \<open>
  The swap queue of the IOnode (Common/include/CBB\_list.h, CBB\_basic\_swap.h, CBB\_lru.h):
  a doubly linked ring of pages. Following \<^verbatim>\<open>next\<close> from \<^verbatim>\<open>tail\<close> one meets the pages in use,
  the least recently used first, then \<^verbatim>\<open>head\<close>, the page the next \<^verbatim>\<open>push\<close> takes, and the other
  unused pages up to \<^verbatim>\<open>tail\<close> again. A second doubly linked ring through \<^verbatim>\<open>first_dirty_page\<close>
  (which is also \<^verbatim>\<open>last_dirty_page\<close>) holds the dirty pages.

  A page is a number. The links of the first ring are never null once a page is linked, and
  are total functions; the dirty links are null outside the dirty ring, and following a null
  one is None. \<^verbatim>\<open>page_count\<close> is only read and written in debug output and left out.
\<close>

section \<open>Doubly linked rings\<close>

definition dring :: "('a \<Rightarrow> 'a) \<Rightarrow> ('a \<Rightarrow> 'a) \<Rightarrow> 'a list \<Rightarrow> bool" where
  "dring n p xs \<longleftrightarrow> ring n xs \<and> ring p (rev xs) \<and> distinct xs"

lemma dring_rotate: "dring n p (xs @ ys) = dring n p (ys @ xs)"
  using ring_rotate [of n xs ys] ring_rotate [of p "rev ys" "rev xs"] by (auto simp: dring_def)

lemma ring_delete:
  assumes "ring f (a # e # zs)" "distinct (a # e # zs)"
  shows "ring (f(a := f e)) (a # zs)"
proof (cases zs)
  case Nil
  with assms show ?thesis by (simp add: ring_def)
next
  case (Cons z zs')
  have "last zs \<noteq> a" using assms(2) Cons by (auto dest: last_in_set)
  moreover have "chain (f(a := f e)) zs = chain f zs"
    using assms(2) by (intro chain_fun_upd) (auto dest: in_set_butlastD)
  ultimately show ?thesis using assms Cons by (auto simp: ring_def)
qed

lemma dring_succ:
  assumes "dring n p (a # b # zs)"
  shows "n a = b" "p b = a"
proof -
  show "n a = b" using assms by (auto simp: dring_def ring_def)
  have "ring p (rev zs @ b # a # [])" using assms by (simp add: dring_def)
  then show "p b = a" by (rule ring_mid)
qed

lemma dring_single: "dring n p [a] \<longleftrightarrow> n a = a \<and> p a = a"
  by (auto simp: dring_def ring_def)

lemma dring_insert_after:
  assumes "dring n p (a # zs)" "e \<notin> set (a # zs)"
  shows "dring (n(e := n a, a := e)) (p(e := a, n a := e)) (a # e # zs)"
proof -
  have d: "distinct (a # zs)" using assms(1) by (simp add: dring_def)
  have n: "ring (n(e := n a, a := e)) (a # e # zs)"
    using assms d by (intro ring_insert_first) (auto simp: dring_def)
  have "ring (p(e := a, n a := e)) (rev (a # e # zs))"
  proof (cases zs)
    case Nil
    then show ?thesis using assms by (auto simp: dring_single ring_def)
  next
    case (Cons b zs')
    note s = dring_succ [OF assms(1) [unfolded Cons]]
    have "ring p (rev zs' @ [b, a])" using assms(1) Cons by (simp add: dring_def)
    then have "ring p (b # a # rev zs')" using ring_rotate [of p "rev zs'" "[b, a]"] by simp
    then have "ring (p(e := p b, b := e)) (b # e # a # rev zs')"
      using assms(2) d Cons by (intro ring_insert_first) auto
    then show ?thesis using ring_rotate [of "p(e := a, b := e)" "rev zs'" "[b, e, a]"] s Cons by simp
  qed
  then show ?thesis using n assms(2) d by (auto simp: dring_def)
qed

lemma dring_delete:
  assumes "dring n p (a # e # zs)"
  shows "dring (n(p e := n e)) (p(n e := p e)) (a # zs)"
proof -
  have d: "distinct (a # e # zs)" using assms by (simp add: dring_def)
  have pe: "p e = a" using dring_succ [OF assms] by simp
  have n: "ring (n(a := n e)) (a # zs)"
    using assms d by (intro ring_delete) (auto simp: dring_def)
  have "ring (p(n e := a)) (rev (a # zs))"
  proof (cases zs)
    case Nil
    then have "n e = a" using assms by (auto simp: dring_def ring_def)
    then show ?thesis using Nil by (simp add: ring_def)
  next
    case (Cons b zs')
    have "dring n p (e # b # zs' @ [a])" using assms Cons dring_rotate [of n p "[a]" "e # b # zs'"] by simp
    then have ne: "n e = b" by (rule dring_succ)
    have "ring p (rev zs' @ [b, e, a])" using assms Cons by (simp add: dring_def)
    then have "ring p (b # e # a # rev zs')" using ring_rotate [of p "rev zs'" "[b, e, a]"] by simp
    then have "ring (p(b := p e)) (b # a # rev zs')" using d Cons by (intro ring_delete) auto
    then show ?thesis using ring_rotate [of "p(b := a)" "rev zs'" "[b, a]"] Cons pe ne by simp
  qed
  then show ?thesis using n d pe by (simp add: dring_def)
qed

section \<open>Pages and queues\<close>

record 'd access_queue =
  aq_next :: "nat \<Rightarrow> nat"
  aq_prev :: "nat \<Rightarrow> nat"
  aq_data :: "nat \<Rightarrow> 'd option"
  next_dirty :: "nat \<Rightarrow> nat option"
  pre_dirty :: "nat \<Rightarrow> nat option"
  aq_head :: nat
  aq_tail :: nat
  first_dirty :: nat
  aq_fresh :: nat

definition set_next :: "nat \<Rightarrow> nat \<Rightarrow> 'd access_queue \<Rightarrow> 'd access_queue" where
  "set_next pg x q = q\<lparr>aq_next := (aq_next q)(pg := x)\<rparr>"

definition set_prev :: "nat \<Rightarrow> nat \<Rightarrow> 'd access_queue \<Rightarrow> 'd access_queue" where
  "set_prev pg x q = q\<lparr>aq_prev := (aq_prev q)(pg := x)\<rparr>"

definition set_data :: "nat \<Rightarrow> 'd \<Rightarrow> 'd access_queue \<Rightarrow> 'd access_queue" where
  "set_data pg d q = q\<lparr>aq_data := (aq_data q)(pg := Some d)\<rparr>"

definition insert_after :: "nat \<Rightarrow> nat \<Rightarrow> 'd access_queue \<Rightarrow> 'd access_queue" where
  "insert_after pg elem q =
     (let q1 = set_next elem (aq_next q pg) q;
          q2 = set_prev elem pg q1;
          q3 = set_prev (aq_next q2 pg) elem q2
      in set_next pg elem q3)"

definition is_in_dirty_queue :: "nat \<Rightarrow> 'd access_queue \<Rightarrow> bool" where
  "is_in_dirty_queue pg q \<longleftrightarrow> next_dirty q pg \<noteq> None"

definition access_queue_new :: "'d access_queue" where
  "access_queue_new =
     \<lparr>aq_next = (\<lambda>_. 0)(0 := 1, 1 := 0), aq_prev = (\<lambda>_. 0)(0 := 1, 1 := 0), aq_data = (\<lambda>_. None),
      next_dirty = (\<lambda>_. None)(2 := Some 2), pre_dirty = (\<lambda>_. None)(2 := Some 2),
      aq_head = 0, aq_tail = 1, first_dirty = 2, aq_fresh = 3\<rparr>"

definition push_dirty_page :: "nat \<Rightarrow> 'd access_queue \<Rightarrow> 'd access_queue option" where
  "push_dirty_page elem q =
     (if is_in_dirty_queue elem q then Some q
      else let lst = first_dirty q in do {
        pre \<leftarrow> pre_dirty q lst;
        let q1 = q\<lparr>pre_dirty := (pre_dirty q)(elem := Some pre), next_dirty := (next_dirty q)(elem := Some lst)\<rparr>;
        pre1 \<leftarrow> pre_dirty q1 lst;
        let q2 = q1\<lparr>next_dirty := (next_dirty q1)(pre1 := Some elem)\<rparr>;
        Some (q2\<lparr>pre_dirty := (pre_dirty q2)(lst := Some elem)\<rparr>)
      })"

definition del_dirty_page :: "nat \<Rightarrow> 'd access_queue \<Rightarrow> 'd access_queue option" where
  "del_dirty_page elem q =
     (if is_in_dirty_queue elem q then do {
        pre \<leftarrow> pre_dirty q elem;
        let q1 = q\<lparr>next_dirty := (next_dirty q)(pre := next_dirty q elem)\<rparr>;
        nxt \<leftarrow> next_dirty q1 elem;
        let q2 = q1\<lparr>pre_dirty := (pre_dirty q1)(nxt := pre_dirty q1 elem)\<rparr>;
        Some (q2\<lparr>next_dirty := (next_dirty q2)(elem := None), pre_dirty := (pre_dirty q2)(elem := None)\<rparr>)
      } else Some q)"

definition aq_del :: "nat \<Rightarrow> 'd access_queue \<Rightarrow> 'd access_queue option" where
  "aq_del elem q =
     (let q1 = set_prev (aq_next q elem) (aq_prev q elem) q;
          q2 = set_next (aq_prev q1 elem) (aq_next q1 elem) q1
      in del_dirty_page elem q2)"

definition is_full :: "'d access_queue \<Rightarrow> bool" where
  "is_full q \<longleftrightarrow> aq_next q (aq_head q) = aq_tail q"

definition is_empty :: "'d access_queue \<Rightarrow> bool" where
  "is_empty q \<longleftrightarrow> aq_head q = aq_next q (aq_tail q)"

definition aq_enqueue :: "nat \<Rightarrow> 'd access_queue \<Rightarrow> 'd access_queue" where
  "aq_enqueue page q = insert_after (aq_prev q (aq_head q)) page q"

definition aq_push :: "'d \<Rightarrow> bool \<Rightarrow> 'd access_queue \<Rightarrow> (nat \<times> 'd access_queue) option" where
  "aq_push data dirty q =
     (let (new_element, q1) =
            (if is_full q
             then (let e = aq_fresh q in (e, aq_enqueue e (set_data e data (q\<lparr>aq_fresh := e + 1\<rparr>))))
             else (let e = aq_head q in
                   (e, (set_data e data q)\<lparr>aq_head := aq_next q (aq_head q)\<rparr>)))
      in do {
        q2 \<leftarrow> (if dirty then push_dirty_page new_element q1 else Some q1);
        Some (new_element, q2)
      })"

definition aq_pop :: "'d access_queue \<Rightarrow> nat option \<times> 'd access_queue" where
  "aq_pop q =
     (let ret = aq_next q (aq_tail q)
      in if ret \<noteq> aq_head q then (Some ret, q\<lparr>aq_tail := ret\<rparr>) else (None, q))"

definition aq_touch :: "nat \<Rightarrow> bool \<Rightarrow> 'd access_queue \<Rightarrow> 'd access_queue option" where
  "aq_touch page dirty q =
     (let dirty_already = is_in_dirty_queue page q
      in do {
        q1 \<leftarrow> aq_del page q;
        let q2 = insert_after (aq_prev q1 (aq_head q1)) page q1;
        if dirty \<or> dirty_already then push_dirty_page page q2 else Some q2
      })"

definition aq_erase :: "nat \<Rightarrow> 'd access_queue \<Rightarrow> 'd access_queue option" where
  "aq_erase page q =
     do { q1 \<leftarrow> aq_del page q; Some (insert_after (aq_prev q1 (aq_tail q1)) page q1) }"

definition get_first_dirty_page :: "'d access_queue \<Rightarrow> nat option" where
  "get_first_dirty_page q = next_dirty q (first_dirty q)"

definition is_last_dirty_page :: "nat \<Rightarrow> 'd access_queue \<Rightarrow> bool" where
  "is_last_dirty_page elem q \<longleftrightarrow> elem = first_dirty q"

text \<open>\<^verbatim>\<open>access\<close> of CBB\_lru.h: a page in the queue is touched, a block without one is pushed.\<close>

definition lru_access :: "nat option \<Rightarrow> 'd \<Rightarrow> bool \<Rightarrow> 'd access_queue \<Rightarrow> (nat \<times> 'd access_queue) option" where
  "lru_access pg data dirty q =
     (case pg of
        Some page \<Rightarrow> do { q1 \<leftarrow> aq_touch page dirty q; Some (page, q1) }
      | None \<Rightarrow> aq_push data dirty q)"

section \<open>Invariant\<close>

text \<open>\<open>us\<close>: the pages in use, oldest first; \<open>fs\<close>: the unused ones behind \<^verbatim>\<open>head\<close>; \<open>ds\<close>: the dirty ones.\<close>

definition page_ring :: "'d access_queue \<Rightarrow> nat list \<Rightarrow> nat list \<Rightarrow> bool" where
  "page_ring q us fs \<longleftrightarrow> dring (aq_next q) (aq_prev q) (aq_tail q # us @ aq_head q # fs)"

definition dirty_ring :: "'d access_queue \<Rightarrow> nat list \<Rightarrow> bool" where
  "dirty_ring q ds \<longleftrightarrow>
     dring (\<lambda>x. the (next_dirty q x)) (\<lambda>x. the (pre_dirty q x)) (first_dirty q # ds) \<and>
     (\<forall>x. (next_dirty q x \<noteq> None \<longleftrightarrow> x \<in> set (first_dirty q # ds)) \<and>
          (pre_dirty q x \<noteq> None \<longleftrightarrow> x \<in> set (first_dirty q # ds)))"

definition aq_inv :: "'d access_queue \<Rightarrow> nat list \<Rightarrow> nat list \<Rightarrow> nat list \<Rightarrow> bool" where
  "aq_inv q us fs ds \<longleftrightarrow> page_ring q us fs \<and> dirty_ring q ds \<and>
     first_dirty q \<notin> set (aq_tail q # us @ aq_head q # fs) \<and> first_dirty q < aq_fresh q \<and>
     set ds \<subseteq> set (aq_tail q # us @ aq_head q # fs) \<and>
     (\<forall>x\<in>set (aq_tail q # us @ aq_head q # fs). x < aq_fresh q) \<and>
     (\<forall>x\<in>set us \<union> set ds. aq_data q x \<noteq> None)"

lemma aq_new_inv: "aq_inv access_queue_new [] [] []"
  by (auto simp: aq_inv_def page_ring_def dirty_ring_def dring_def ring_def access_queue_new_def)

lemma the_upd: "(\<lambda>x. the ((f(a := Some b)) x)) = (\<lambda>x. the (f x))(a := b)"
  by auto

lemma dring_snoc:
  assumes "dring n p (a # zs)" "e \<notin> set (a # zs)"
  shows "dring (n(e := a, p a := e)) (p(e := p a, a := e)) (a # zs @ [e])"
proof -
  obtain ys l where yl: "a # zs = ys @ [l]" by (metis append_butlast_last_id list.distinct(1))
  have "dring n p (l # ys)" using assms(1) dring_rotate [of n p ys "[l]"] yl by simp
  moreover from this have "n l = a" "p a = l"
    using yl by (cases ys; force dest: dring_succ simp: dring_single)+
  ultimately have "dring (n(e := a, l := e)) (p(e := l, a := e)) (l # e # ys)"
    using dring_insert_after [of n p l ys e] assms(2) yl by auto
  then have "dring (n(e := a, l := e)) (p(e := l, a := e)) (ys @ [l, e])"
    using dring_rotate [of _ _ ys "[l, e]"] by simp
  then show ?thesis using yl \<open>p a = l\<close> by (metis append.assoc append_Cons append_Nil)
qed

lemma push_dirty_ok:
  assumes "dirty_ring q ds" "e \<noteq> first_dirty q"
  shows "\<exists>nd pd. push_dirty_page e q = Some (q\<lparr>next_dirty := nd, pre_dirty := pd\<rparr>) \<and>
           dirty_ring (q\<lparr>next_dirty := nd, pre_dirty := pd\<rparr>) (if e \<in> set ds then ds else ds @ [e])"
proof (cases "e \<in> set ds")
  case True
  then show ?thesis
    using assms by (intro exI [of _ "next_dirty q"] exI [of _ "pre_dirty q"])
      (simp add: push_dirty_page_def is_in_dirty_queue_def dirty_ring_def)
next
  case False
  let ?f = "first_dirty q" and ?n = "\<lambda>x. the (next_dirty q x)" and ?p = "\<lambda>x. the (pre_dirty q x)"
  obtain pre where pre: "pre_dirty q ?f = Some pre" using assms(1) by (auto simp: dirty_ring_def)
  have notin: "next_dirty q e = None" using False assms by (auto simp: dirty_ring_def)
  let ?nd = "(next_dirty q)(e := Some ?f, pre := Some e)" and ?pd = "(pre_dirty q)(e := Some pre, ?f := Some e)"
  have "dring (?n(e := ?f, ?p ?f := e)) (?p(e := ?p ?f, ?f := e)) (?f # ds @ [e])"
    using assms False by (intro dring_snoc) (auto simp: dirty_ring_def)
  then have "dring (\<lambda>x. the (?nd x)) (\<lambda>x. the (?pd x)) (?f # ds @ [e])"
    unfolding the_upd by (simp add: pre)
  moreover have "pre \<in> set (?f # ds)"
  proof -
    have "ring ?p (rev (?f # ds))" using assms(1) by (simp add: dirty_ring_def dring_def)
    then have "?p ?f \<in> set (rev (?f # ds))" by (cases ds rule: rev_cases) (auto simp: ring_def)
    then show ?thesis using pre by simp
  qed
  ultimately have "dirty_ring (q\<lparr>next_dirty := ?nd, pre_dirty := ?pd\<rparr>) (ds @ [e])"
    using assms(1) by (auto simp: dirty_ring_def)
  moreover have "push_dirty_page e q = Some (q\<lparr>next_dirty := ?nd, pre_dirty := ?pd\<rparr>)"
    using notin pre assms(2) by (simp add: push_dirty_page_def is_in_dirty_queue_def Let_def fun_upd_twist)
  ultimately show ?thesis using False by (intro exI [of _ ?nd] exI [of _ ?pd]) simp
qed

lemma del_dirty_ok:
  assumes "dirty_ring q ds" "e \<noteq> first_dirty q"
  shows "\<exists>nd pd. del_dirty_page e q = Some (q\<lparr>next_dirty := nd, pre_dirty := pd\<rparr>) \<and>
           dirty_ring (q\<lparr>next_dirty := nd, pre_dirty := pd\<rparr>) (remove1 e ds)"
proof (cases "e \<in> set ds")
  case False
  then show ?thesis
    using assms by (intro exI [of _ "next_dirty q"] exI [of _ "pre_dirty q"])
      (auto simp: del_dirty_page_def is_in_dirty_queue_def dirty_ring_def remove1_idem)
next
  case True
  let ?f = "first_dirty q" and ?n = "\<lambda>x. the (next_dirty q x)" and ?p = "\<lambda>x. the (pre_dirty q x)"
  obtain xs ys where ds: "ds = xs @ e # ys" "e \<notin> set xs" using True by (meson split_list_first)
  obtain pre nxt where pn: "pre_dirty q e = Some pre" "next_dirty q e = Some nxt"
    using assms(1) True unfolding dirty_ring_def by (metis list.set_intros(2) not_None_eq)
  obtain zs l where zl: "?f # xs = zs @ [l]" by (metis append_butlast_last_id list.distinct(1))
  have ring: "dring ?n ?p (?f # ds)" and dist: "distinct (?f # ds)"
    using assms(1) by (simp_all add: dirty_ring_def dring_def)
  have rot: "dring ?n ?p (l # e # ys @ zs)"
    using ring zl dring_rotate [of ?n ?p zs "l # e # ys"] ds(1) by (metis append.assoc append_Cons append_Nil)
  then have pl: "pre = l" using dring_succ(2) [OF rot] pn by simp
  let ?nd = "(next_dirty q)(pre := Some nxt, e := None)" and ?pd = "(pre_dirty q)(nxt := Some pre, e := None)"
  have del: "dring (?n(pre := nxt)) (?p(nxt := pre)) (l # ys @ zs)" using dring_delete [OF rot] pn by simp
  then have "dring (?n(pre := nxt)) (?p(nxt := pre)) (?f # remove1 e ds)"
    using dring_rotate [of "?n(pre := nxt)" "?p(nxt := pre)" "zs" "l # ys"] zl ds
    by (metis (no_types, lifting) append.assoc append_Cons append_Nil remove1_append remove1.simps(2))
  moreover have mem: "pre \<in> set (?f # remove1 e ds)" "nxt \<in> set (?f # remove1 e ds)" "e \<notin> set (?f # remove1 e ds)"
  proof -
    show "pre \<in> set (?f # remove1 e ds)" using zl ds pl by (metis Un_iff in_set_conv_decomp list.set_intros(1) remove1_append set_ConsD set_append list.set_intros(2))
    have "ring ?n (e # ys @ zs @ [l])"
      using rot dring_rotate [of ?n ?p "[l]" "e # ys @ zs"] by (simp add: dring_def)
    then have "nxt \<in> set (ys @ zs @ [l])" using pn(2) by (cases "ys @ zs @ [l]") (auto simp: ring_def)
    moreover have "set (zs @ [l]) = set (?f # xs)" using zl by simp
    ultimately show "nxt \<in> set (?f # remove1 e ds)" using ds by (auto simp: remove1_append)
    show "e \<notin> set (?f # remove1 e ds)" using dist assms(2) by auto
  qed
  have "dring (\<lambda>x. the (?nd x)) (\<lambda>x. the (?pd x)) (?f # remove1 e ds)"
  proof -
    have "ring (\<lambda>x. the (?nd x)) xs' = ring (?n(pre := nxt)) xs'"
      "ring (\<lambda>x. the (?pd x)) xs' = ring (?p(nxt := pre)) xs'" if "e \<notin> set xs'" for xs'
      using that by (auto intro!: ring_cong)
    then show ?thesis using calculation mem(3) by (simp add: dring_def)
  qed
  moreover have "set (remove1 e ds) = set ds - {e}" using dist by (simp add: set_remove1_eq)
  ultimately have "dirty_ring (q\<lparr>next_dirty := ?nd, pre_dirty := ?pd\<rparr>) (remove1 e ds)"
    using assms mem by (auto simp: dirty_ring_def)
  moreover have "del_dirty_page e q = Some (q\<lparr>next_dirty := ?nd, pre_dirty := ?pd\<rparr>)"
  proof -
    have "pre \<noteq> e" using mem by auto
    then show ?thesis using pn by (simp add: del_dirty_page_def is_in_dirty_queue_def Let_def fun_upd_twist)
  qed
  ultimately show ?thesis by blast
qed

section \<open>The operations on the page ring\<close>

lemma split_last: "xs \<noteq> [] \<Longrightarrow> \<exists>zs l. xs = zs @ [l]"
  by (metis append_butlast_last_id)

lemma dring_delete_mid:
  assumes "dring n p (xs @ e # ys)" "xs \<noteq> []"
  shows "dring (n(p e := n e)) (p(n e := p e)) (xs @ ys)" "p e = last xs"
proof -
  from split_last [OF assms(2)] obtain zs l where xs: "xs = zs @ [l]" by blast
  have rot: "dring n p (l # e # ys @ zs)" using assms(1) dring_rotate [of n p zs "l # e # ys"] by (simp add: xs)
  show "p e = last xs" using dring_succ(2) [OF rot] by (simp add: xs)
  show "dring (n(p e := n e)) (p(n e := p e)) (xs @ ys)"
    using dring_delete [OF rot] dring_rotate [of _ _ zs "l # ys"] by (simp add: xs)
qed

lemma dring_insert_before:
  assumes "dring n p (xs @ h # ys)" "xs \<noteq> []" "e \<notin> set (xs @ h # ys)"
  shows "dring (n(e := n (p h), p h := e)) (p(e := p h, n (p h) := e)) (xs @ e # h # ys)" "p h = last xs"
proof -
  from split_last [OF assms(2)] obtain zs l where xs: "xs = zs @ [l]" by blast
  have rot: "dring n p (l # h # ys @ zs)" using assms(1) dring_rotate [of n p zs "l # h # ys"] by (simp add: xs)
  have ph: "p h = l" using dring_succ(2) [OF rot] by simp
  then show "p h = last xs" by (simp add: xs)
  show "dring (n(e := n (p h), p h := e)) (p(e := p h, n (p h) := e)) (xs @ e # h # ys)"
    using dring_insert_after [OF rot, of e] assms(3) dring_rotate [of _ _ zs "l # e # h # ys"]
    by (simp add: xs ph)
qed

lemma insert_after_eq:
  "e \<noteq> pg \<Longrightarrow> insert_after pg e q =
     q\<lparr>aq_next := (aq_next q)(e := aq_next q pg, pg := e), aq_prev := (aq_prev q)(e := pg, aq_next q pg := e)\<rparr>"
  by (simp add: insert_after_def Let_def set_next_def set_prev_def)

lemma aq_del_eq:
  "aq_prev q e \<noteq> e \<Longrightarrow> aq_next q e \<noteq> e \<Longrightarrow> aq_del e q = del_dirty_page e
     (q\<lparr>aq_prev := (aq_prev q)(aq_next q e := aq_prev q e), aq_next := (aq_next q)(aq_prev q e := aq_next q e)\<rparr>)"
  by (simp add: aq_del_def Let_def set_next_def set_prev_def)

text \<open>Removing a page in use from both rings.\<close>

lemma aq_del_ok:
  assumes inv: "aq_inv q (us1 @ e # us2) fs ds"
  shows "\<exists>q'. aq_del e q = Some q' \<and> page_ring q' (us1 @ us2) fs \<and> dirty_ring q' (remove1 e ds) \<and>
           aq_head q' = aq_head q \<and> aq_tail q' = aq_tail q \<and> first_dirty q' = first_dirty q \<and>
           aq_fresh q' = aq_fresh q \<and> aq_data q' = aq_data q"
proof -
  have ring: "dring (aq_next q) (aq_prev q) ((aq_tail q # us1) @ e # us2 @ aq_head q # fs)"
    and ne: "e \<noteq> first_dirty q" and dr: "dirty_ring q ds"
    using inv by (auto simp: aq_inv_def page_ring_def)
  note del = dring_delete_mid [OF ring]
  have d: "distinct ((aq_tail q # us1) @ e # us2 @ aq_head q # fs)" using ring by (simp add: dring_def)
  have pe: "aq_prev q e \<noteq> e" using del(2) d by (cases us1 rule: rev_cases) auto
  have "dring (aq_next q) (aq_prev q) (e # (us2 @ aq_head q # fs) @ aq_tail q # us1)"
    using ring dring_rotate [of "aq_next q" "aq_prev q" "aq_tail q # us1" "e # us2 @ aq_head q # fs"] by simp
  then have nxt: "aq_next q e \<noteq> e" using d by (cases us2) (auto dest!: dring_succ(1))
  let ?q = "q\<lparr>aq_prev := (aq_prev q)(aq_next q e := aq_prev q e), aq_next := (aq_next q)(aq_prev q e := aq_next q e)\<rparr>"
  have "dirty_ring ?q ds" using dr by (simp add: dirty_ring_def)
  from del_dirty_ok [OF this, of e] ne obtain nd pd where
    "del_dirty_page e ?q = Some (?q\<lparr>next_dirty := nd, pre_dirty := pd\<rparr>)"
    "dirty_ring (?q\<lparr>next_dirty := nd, pre_dirty := pd\<rparr>) (remove1 e ds)" by auto
  then show ?thesis
    using del(1) aq_del_eq [OF pe nxt] by (intro exI [of _ "?q\<lparr>next_dirty := nd, pre_dirty := pd\<rparr>"])
      (simp add: page_ring_def)
qed

lemma aq_insert_before:
  assumes "dring (aq_next q) (aq_prev q) (xs @ h # ys)" "xs \<noteq> []" "e \<notin> set (xs @ h # ys)"
  defines "q' \<equiv> insert_after (aq_prev q h) e q"
  shows "dring (aq_next q') (aq_prev q') (xs @ e # h # ys)"
    "\<exists>nx pv. q' = q\<lparr>aq_next := nx, aq_prev := pv\<rparr>"
proof -
  note ins = dring_insert_before [OF assms(1-3)]
  have "e \<noteq> aq_prev q h" using ins(2) assms(2,3) by auto
  note eq = insert_after_eq [OF this, of q]
  show "dring (aq_next q') (aq_prev q') (xs @ e # h # ys)" using ins(1) by (simp add: q'_def eq)
  show "\<exists>nx pv. q' = q\<lparr>aq_next := nx, aq_prev := pv\<rparr>" unfolding q'_def eq by blast
qed

lemma dirty_ring_frame:
  "dirty_ring (q\<lparr>aq_next := a, aq_prev := b\<rparr>) ds = dirty_ring q ds"
  "dirty_ring (q\<lparr>aq_data := c\<rparr>) ds = dirty_ring q ds"
  "dirty_ring (q\<lparr>aq_head := h\<rparr>) ds = dirty_ring q ds"
  "dirty_ring (q\<lparr>aq_tail := t\<rparr>) ds = dirty_ring q ds"
  "dirty_ring (q\<lparr>aq_fresh := k\<rparr>) ds = dirty_ring q ds"
  by (simp_all add: dirty_ring_def)

text \<open>Marking a page dirty or not at the end of an operation.\<close>

lemma mark_dirty_ok:
  assumes "aq_inv q us fs ds" "e \<in> set us"
  shows "\<exists>q' ds'. (if b then push_dirty_page e q else Some q) = Some q' \<and> aq_inv q' us fs ds' \<and>
           ds' = (if b \<and> e \<notin> set ds then ds @ [e] else ds) \<and> aq_data q' = aq_data q"
proof (cases b)
  case True
  have "e \<noteq> first_dirty q" "dirty_ring q ds" using assms by (auto simp: aq_inv_def)
  from push_dirty_ok [OF this(2,1)] obtain nd pd where
    "push_dirty_page e q = Some (q\<lparr>next_dirty := nd, pre_dirty := pd\<rparr>)"
    "dirty_ring (q\<lparr>next_dirty := nd, pre_dirty := pd\<rparr>) (if e \<in> set ds then ds else ds @ [e])" by blast
  then show ?thesis
    using True assms by (intro exI [of _ "q\<lparr>next_dirty := nd, pre_dirty := pd\<rparr>"])
      (auto simp: aq_inv_def page_ring_def)
qed (use assms in auto)

lemma aq_touch_ok:
  assumes inv: "aq_inv q (us1 @ e # us2) fs ds"
  shows "\<exists>q' ds'. aq_touch e dirty q = Some q' \<and> aq_inv q' (us1 @ us2 @ [e]) fs ds' \<and>
           set ds' = (if dirty then insert e (set ds) else set ds) \<and> aq_data q' = aq_data q"
proof -
  from aq_del_ok [OF inv] obtain q1 where q1: "aq_del e q = Some q1" "page_ring q1 (us1 @ us2) fs"
    "dirty_ring q1 (remove1 e ds)" "aq_head q1 = aq_head q" "aq_tail q1 = aq_tail q"
    "first_dirty q1 = first_dirty q" "aq_fresh q1 = aq_fresh q" "aq_data q1 = aq_data q" by blast
  have d: "distinct (aq_tail q # (us1 @ e # us2) @ aq_head q # fs)" "distinct ds"
    using inv by (auto simp: aq_inv_def page_ring_def dring_def dirty_ring_def)
  have "dring (aq_next q1) (aq_prev q1) ((aq_tail q # us1 @ us2) @ aq_head q # fs)"
    using q1(2,4,5) by (simp add: page_ring_def)
  from aq_insert_before [OF this, of e] d obtain nx pv where
    q2: "insert_after (aq_prev q1 (aq_head q1)) e q1 = q1\<lparr>aq_next := nx, aq_prev := pv\<rparr>"
      "dring nx pv ((aq_tail q # us1 @ us2) @ e # aq_head q # fs)" using q1(4) by auto
  let ?q2 = "q1\<lparr>aq_next := nx, aq_prev := pv\<rparr>"
  have inv2: "aq_inv ?q2 (us1 @ us2 @ [e]) fs (remove1 e ds)"
    using inv q1 q2(2) d notin_set_remove1
    by (auto simp: aq_inv_def page_ring_def dirty_ring_frame set_remove1_eq)
  have e: "is_in_dirty_queue e q \<longleftrightarrow> e \<in> set ds"
    using inv by (auto simp: aq_inv_def dirty_ring_def is_in_dirty_queue_def)
  from mark_dirty_ok [OF inv2, of e "dirty \<or> e \<in> set ds"] obtain q3 ds3 where
    q3: "(if dirty \<or> e \<in> set ds then push_dirty_page e ?q2 else Some ?q2) = Some q3"
      "aq_inv q3 (us1 @ us2 @ [e]) fs ds3" "aq_data q3 = aq_data ?q2"
      "ds3 = (if (dirty \<or> e \<in> set ds) \<and> e \<notin> set (remove1 e ds) then remove1 e ds @ [e] else remove1 e ds)" by auto
  have "set ds3 = (if dirty then insert e (set ds) else set ds)"
    using d(2) q3(4) by (auto simp: set_remove1_eq)
  then show ?thesis using q1(1,8) q2(1) q3(1-3) by (auto simp: aq_touch_def e)
qed

lemma aq_erase_ok:
  assumes inv: "aq_inv q (us1 @ e # us2) fs ds"
  shows "\<exists>q'. aq_erase e q = Some q' \<and> aq_inv q' (us1 @ us2) (fs @ [e]) (remove1 e ds) \<and> aq_data q' = aq_data q"
proof -
  from aq_del_ok [OF inv] obtain q1 where q1: "aq_del e q = Some q1" "page_ring q1 (us1 @ us2) fs"
    "dirty_ring q1 (remove1 e ds)" "aq_head q1 = aq_head q" "aq_tail q1 = aq_tail q"
    "first_dirty q1 = first_dirty q" "aq_fresh q1 = aq_fresh q" "aq_data q1 = aq_data q" by blast
  have d: "distinct (aq_tail q # (us1 @ e # us2) @ aq_head q # fs)" "distinct ds"
    using inv by (auto simp: aq_inv_def page_ring_def dring_def dirty_ring_def)
  have "dring (aq_next q1) (aq_prev q1) ((us1 @ us2 @ aq_head q # fs) @ aq_tail q # [])"
    using q1(2,4,5) dring_rotate [of "aq_next q1" "aq_prev q1" "[aq_tail q]" "us1 @ us2 @ aq_head q # fs"]
    by (simp add: page_ring_def)
  from aq_insert_before [OF this, of e] d obtain nx pv where
    q2: "insert_after (aq_prev q1 (aq_tail q1)) e q1 = q1\<lparr>aq_next := nx, aq_prev := pv\<rparr>"
      "dring nx pv ((us1 @ us2 @ aq_head q # fs @ [e]) @ [aq_tail q])" using q1(5) by auto
  have "dring nx pv (aq_tail q # us1 @ us2 @ aq_head q # fs @ [e])"
    using q2(2) dring_rotate [of nx pv "[aq_tail q]" "us1 @ us2 @ aq_head q # fs @ [e]"] by simp
  then have "aq_inv (q1\<lparr>aq_next := nx, aq_prev := pv\<rparr>) (us1 @ us2) (fs @ [e]) (remove1 e ds)"
    using inv q1 d by (auto simp: aq_inv_def page_ring_def dirty_ring_frame set_remove1_eq)
  then show ?thesis using q1(1,8) q2(1) by (simp add: aq_erase_def)
qed

lemma aq_pop_ok:
  assumes inv: "aq_inv q us fs ds"
  shows "us = [] \<Longrightarrow> aq_pop q = (None, q)"
    "us = u # us' \<Longrightarrow> \<exists>q'. aq_pop q = (Some u, q') \<and> aq_inv q' us' (fs @ [aq_tail q]) ds \<and> aq_data q' = aq_data q"
proof -
  have ring: "dring (aq_next q) (aq_prev q) (aq_tail q # us @ aq_head q # fs)"
    using inv by (simp add: aq_inv_def page_ring_def)
  then have d: "distinct (aq_tail q # us @ aq_head q # fs)" by (simp add: dring_def)
  show "aq_pop q = (None, q)" if "us = []"
    using dring_succ(1) [of _ _ "aq_tail q" "aq_head q" fs] ring that by (simp add: aq_pop_def)
  assume us: "us = u # us'"
  have "aq_next q (aq_tail q) = u"
    using dring_succ(1) [of _ _ "aq_tail q" u "us' @ aq_head q # fs"] ring us by simp
  moreover have "dring (aq_next q) (aq_prev q) (u # us' @ aq_head q # fs @ [aq_tail q])"
    using ring us dring_rotate [of _ _ "[aq_tail q]" "us @ aq_head q # fs"] by simp
  ultimately show "\<exists>q'. aq_pop q = (Some u, q') \<and> aq_inv q' us' (fs @ [aq_tail q]) ds \<and> aq_data q' = aq_data q"
    using inv us d by (auto simp: aq_pop_def aq_inv_def page_ring_def dirty_ring_frame)
qed

lemma aq_push_ok:
  assumes inv: "aq_inv q us fs ds"
  shows "\<exists>e q' fs' ds'. aq_push data dirty q = Some (e, q') \<and> aq_inv q' (us @ [e]) fs' ds' \<and> e \<notin> set us \<and>
           aq_data q' = (aq_data q)(e := Some data) \<and>
           (e \<notin> set ds \<longrightarrow> set ds' = (if dirty then insert e (set ds) else set ds))"
proof -
  have ring: "dring (aq_next q) (aq_prev q) (aq_tail q # us @ aq_head q # fs)"
    using inv by (simp add: aq_inv_def page_ring_def)
  then have d: "distinct (aq_tail q # us @ aq_head q # fs)" by (simp add: dring_def)
  have rot: "dring (aq_next q) (aq_prev q) (aq_head q # fs @ aq_tail q # us)"
    using ring dring_rotate [of _ _ "aq_tail q # us" "aq_head q # fs"] by simp
  define e where "e = (if is_full q then aq_fresh q else aq_head q)"
  define q1 where "q1 = (if is_full q then aq_enqueue e (set_data e data (q\<lparr>aq_fresh := e + 1\<rparr>))
      else (set_data e data q)\<lparr>aq_head := aq_next q (aq_head q)\<rparr>)"
  have "\<exists>fs'. aq_inv q1 (us @ [e]) fs' ds \<and> e \<notin> set us \<and> aq_data q1 = (aq_data q)(e := Some data)"
  proof (cases "is_full q")
    case True
    have "e \<notin> set (aq_tail q # us @ aq_head q # fs)" using inv True by (auto simp: aq_inv_def e_def)
    then obtain nx pv where "q1 = (set_data e data (q\<lparr>aq_fresh := e + 1\<rparr>))\<lparr>aq_next := nx, aq_prev := pv\<rparr>"
      "dring nx pv ((aq_tail q # us) @ e # aq_head q # fs)"
      using aq_insert_before [of "set_data e data (q\<lparr>aq_fresh := e + 1\<rparr>)" "aq_tail q # us" "aq_head q" fs e] ring True
      by (auto simp: q1_def aq_enqueue_def set_data_def)
    then show ?thesis
      using inv True \<open>e \<notin> set (aq_tail q # us @ aq_head q # fs)\<close>
      by (intro exI [of _ fs]) (auto simp: aq_inv_def page_ring_def dirty_ring_def set_data_def e_def less_SucI)
  next
    case False
    have "fs \<noteq> []"
    proof
      assume "fs = []"
      then have "aq_next q (aq_head q) = aq_tail q" using rot dring_succ(1) by fastforce
      then show False using False by (simp add: is_full_def)
    qed
    then obtain f fs' where fs: "fs = f # fs'" by (cases fs) auto
    have "aq_next q (aq_head q) = f" using rot fs by (auto dest: dring_succ(1))
    then show ?thesis
      using inv False d fs by (intro exI [of _ fs'])
        (auto simp: q1_def e_def aq_inv_def page_ring_def dirty_ring_def set_data_def)
  qed
  then obtain fs' where q1: "aq_inv q1 (us @ [e]) fs' ds" "e \<notin> set us" "aq_data q1 = (aq_data q)(e := Some data)" by blast
  from mark_dirty_ok [OF q1(1), of e dirty] obtain q2 ds' where
    q2: "(if dirty then push_dirty_page e q1 else Some q1) = Some q2" "aq_inv q2 (us @ [e]) fs' ds'"
      "ds' = (if dirty \<and> e \<notin> set ds then ds @ [e] else ds)" "aq_data q2 = aq_data q1" by auto
  have "aq_push data dirty q = Some (e, q2)"
    using q2(1) by (cases "is_full q"; cases dirty) (simp_all add: aq_push_def Let_def e_def q1_def)
  then show ?thesis using q1 q2 by (intro exI [of _ e] exI [of _ q2] exI [of _ fs'] exI [of _ ds']) auto
qed

section \<open>Recency\<close>

text \<open>Successive pops and a sequence of accesses, for any queue.\<close>

fun pops :: "('q \<Rightarrow> 'p option \<times> 'q) \<Rightarrow> nat \<Rightarrow> 'q \<Rightarrow> 'p list \<times> 'q" where
  "pops pop 0 q = ([], q)"
| "pops pop (Suc n) q =
     (case pop q of (None, q1) \<Rightarrow> ([], q1) | (Some p, q1) \<Rightarrow> (let (ps, q2) = pops pop n q1 in (p # ps, q2)))"

fun touches :: "('p \<Rightarrow> 'q \<Rightarrow> 'q option) \<Rightarrow> 'p list \<Rightarrow> 'q \<Rightarrow> 'q option" where
  "touches touch [] q = Some q"
| "touches touch (p # ps) q = do { q1 \<leftarrow> touch p q; touches touch ps q1 }"

locale recency_queue =
  fixes qinv :: "'q \<Rightarrow> bool"
    and order :: "'q \<Rightarrow> 'p list"
    and push :: "'d \<Rightarrow> 'q \<Rightarrow> ('p \<times> 'q) option"
    and touch :: "'p \<Rightarrow> 'q \<Rightarrow> 'q option"
    and pop :: "'q \<Rightarrow> 'p option \<times> 'q"
    and erase :: "'p \<Rightarrow> 'q \<Rightarrow> 'q option"
  assumes order_distinct: "qinv q \<Longrightarrow> distinct (order q)"
    and push_law: "qinv q \<Longrightarrow> \<exists>p q'. push d q = Some (p, q') \<and> qinv q' \<and> order q' = order q @ [p]"
    and touch_law: "qinv q \<Longrightarrow> p \<in> set (order q) \<Longrightarrow>
      \<exists>q'. touch p q = Some q' \<and> qinv q' \<and> order q' = remove1 p (order q) @ [p]"
    and pop_law: "qinv q \<Longrightarrow> \<exists>q'. pop q = (if order q = [] then None else Some (hd (order q)), q') \<and>
      qinv q' \<and> order q' = tl (order q)"
    and erase_law: "qinv q \<Longrightarrow> p \<in> set (order q) \<Longrightarrow>
      \<exists>q'. erase p q = Some q' \<and> qinv q' \<and> order q' = remove1 p (order q)"
begin

lemma pops_order:
  "qinv q \<Longrightarrow> \<exists>q'. pops pop n q = (take n (order q), q') \<and> qinv q' \<and> order q' = drop n (order q)"
proof (induction n arbitrary: q)
  case (Suc n)
  from pop_law [OF Suc.prems] obtain q1 where
    q1: "pop q = (if order q = [] then None else Some (hd (order q)), q1)" "qinv q1" "order q1 = tl (order q)" by blast
  from Suc.IH [OF q1(2)] obtain q2 where "pops pop n q1 = (take n (order q1), q2)" "qinv q2"
    "order q2 = drop n (order q1)" by blast
  then show ?case using q1 by (cases "order q") auto
qed simp

lemma touches_order:
  "qinv q \<Longrightarrow> set ps \<subseteq> set (order q) \<Longrightarrow>
     \<exists>q'. touches touch ps q = Some q' \<and> qinv q' \<and> order q' = filter (\<lambda>x. x \<notin> set ps) (order q) @ remdups ps"
proof (induction ps arbitrary: q)
  case (Cons p ps)
  from touch_law [OF Cons.prems(1), of p] Cons.prems(2) obtain q1 where
    q1: "touch p q = Some q1" "qinv q1" "order q1 = remove1 p (order q) @ [p]" by auto
  have d: "distinct (order q)" using Cons.prems(1) by (rule order_distinct)
  have "set ps \<subseteq> set (order q1)" using Cons.prems(2) d by (auto simp: q1(3) set_remove1_eq)
  from Cons.IH [OF q1(2) this] obtain q2 where q2: "touches touch ps q1 = Some q2" "qinv q2"
    "order q2 = filter (\<lambda>x. x \<notin> set ps) (order q1) @ remdups ps" by blast
  have "filter (\<lambda>x. x \<notin> set ps) (remove1 p (order q)) = filter (\<lambda>x. x \<notin> set (p # ps)) (order q)"
    using d by (simp add: distinct_remove1_removeAll removeAll_filter_not_eq conj_commute) (auto intro!: filter_cong)
  then show ?case using q1 q2 by simp
qed simp

text \<open>The pages evicted first are the ones whose last access is the longest ago.\<close>

lemma evict_least_recent:
  assumes "qinv q" "set ps = set (order q)" "touches touch ps q = Some q1"
  shows "fst (pops pop n q1) = take n (remdups ps)"
proof -
  from touches_order [OF assms(1), of ps] assms(2,3) have "qinv q1" "order q1 = remdups ps" by auto
  then show ?thesis using pops_order [of q1 n] by auto
qed

end

lemma split_remove1:
  assumes "x \<in> set xs"
  shows "\<exists>ys zs. xs = ys @ x # zs \<and> remove1 x xs = ys @ zs"
proof -
  from split_list_first [OF assms] obtain ys zs where "xs = ys @ x # zs" "x \<notin> set ys" by blast
  then show ?thesis by (intro exI [of _ ys] exI [of _ zs]) (simp add: remove1_append)
qed

definition aq_order :: "'d access_queue \<Rightarrow> nat list" where
  "aq_order q = walk (aq_fresh q) (aq_next q) (aq_next q (aq_tail q)) (aq_head q)"

definition aq_ok :: "'d access_queue \<Rightarrow> bool" where
  "aq_ok q \<longleftrightarrow> (\<exists>us fs ds. aq_inv q us fs ds)"

lemma aq_order_eq:
  assumes "aq_inv q us fs ds"
  shows "aq_order q = us"
proof -
  have ring: "ring (aq_next q) (aq_tail q # us @ aq_head q # fs)" and d: "distinct (aq_tail q # us @ aq_head q # fs)"
    using assms by (auto simp: aq_inv_def page_ring_def dring_def)
  have c: "chain (aq_next q) ((aq_tail q # us @ [aq_head q]) @ fs)" using ring by (simp add: ring_def)
  then have "chain (aq_next q) (aq_tail q # us @ [aq_head q])" unfolding chain_append by blast
  then have ch: "chain (aq_next q) (us @ [aq_head q])" "aq_next q (aq_tail q) = hd (us @ [aq_head q])"
    by (auto simp: chain_Cons)
  have "set us \<subseteq> {..<aq_fresh q}" using assms by (auto simp: aq_inv_def)
  then have "card (set us) \<le> aq_fresh q" using card_mono [of "{..<aq_fresh q}" "set us"] by simp
  then have "length us \<le> aq_fresh q" using d by (simp add: distinct_card)
  then show ?thesis using walk_chain [OF ch(1)] d ch(2) by (simp add: aq_order_def)
qed

interpretation lru: recency_queue aq_ok aq_order "\<lambda>d. aq_push d dirty" "\<lambda>p. aq_touch p dirty" aq_pop aq_erase for dirty
proof
  fix q :: "'d access_queue" and d p
  assume "aq_ok q"
  then obtain us fs ds where inv: "aq_inv q us fs ds" by (auto simp: aq_ok_def)
  note us = aq_order_eq [OF inv]
  show "distinct (aq_order q)" using inv by (auto simp: us aq_inv_def page_ring_def dring_def)
  from aq_push_ok [OF inv, of d dirty]
  show "\<exists>p q'. aq_push d dirty q = Some (p, q') \<and> aq_ok q' \<and> aq_order q' = aq_order q @ [p]"
    using aq_order_eq unfolding us aq_ok_def by blast
  note split = split_remove1 [of _ us]
  show "\<exists>q'. aq_touch p dirty q = Some q' \<and> aq_ok q' \<and> aq_order q' = remove1 p (aq_order q) @ [p]"
    if "p \<in> set (aq_order q)"
  proof -
    from split that obtain us1 us2 where s: "us = us1 @ p # us2" "remove1 p us = us1 @ us2" unfolding us by blast
    from aq_touch_ok [of q us1 p us2 fs ds dirty] inv s(1) obtain q' ds' where
      "aq_touch p dirty q = Some q'" "aq_inv q' (us1 @ us2 @ [p]) fs ds'" by blast
    then show ?thesis using aq_order_eq s(2) us unfolding aq_ok_def by fastforce
  qed
  show "\<exists>q'. aq_pop q = (if aq_order q = [] then None else Some (hd (aq_order q)), q') \<and> aq_ok q' \<and> aq_order q' = tl (aq_order q)"
  proof (cases us)
    case Nil
    then show ?thesis using aq_pop_ok(1) [OF inv] us \<open>aq_ok q\<close> by simp
  next
    case (Cons u us')
    from aq_pop_ok(2) [OF inv Cons] obtain q' where
      q': "aq_pop q = (Some u, q')" "aq_inv q' us' (fs @ [aq_tail q]) ds" by blast
    then have "aq_ok q'" "aq_order q' = us'" using aq_order_eq by (auto simp: aq_ok_def)
    then show ?thesis using q'(1) Cons us by simp
  qed
  show "\<exists>q'. aq_erase p q = Some q' \<and> aq_ok q' \<and> aq_order q' = remove1 p (aq_order q)"
    if "p \<in> set (aq_order q)"
  proof -
    from split that obtain us1 us2 where s: "us = us1 @ p # us2" "remove1 p us = us1 @ us2" unfolding us by blast
    from aq_erase_ok [of q us1 p us2 fs ds] inv s(1) obtain q' where
      "aq_erase p q = Some q'" "aq_inv q' (us1 @ us2) (fs @ [p]) (remove1 p ds)" by blast
    then show ?thesis using aq_order_eq s(2) us unfolding aq_ok_def by fastforce
  qed
qed

section \<open>Swapping out and writing back\<close>

text \<open>
  The virtual functions of CBB\_basic\_swap are arguments; they act on a state \<open>'s\<close> of the
  derived class and not on the queue. Where \<^verbatim>\<open>need_writeback\<close> may meet a block that no longer
  exists its value is None.
\<close>

partial_function (option) swap_out_loop :: "('d \<Rightarrow> 's \<Rightarrow> bool) \<Rightarrow> ('d \<Rightarrow> 's \<Rightarrow> 's option) \<Rightarrow> ('d \<Rightarrow> 's \<Rightarrow> (size_t \<times> 's) option) \<Rightarrow>
    ssize_t \<Rightarrow> 'd access_queue \<Rightarrow> 's \<Rightarrow> (ssize_t \<times> 'd access_queue \<times> 's) option" where
  "swap_out_loop need_writeback writeback free_data sz q s =
     (if 0 < sz then
        (case aq_pop q of
           (None, q1) \<Rightarrow> Some (sz, q1, s)
         | (Some tmp, q1) \<Rightarrow> do {
             d \<leftarrow> aq_data q1 tmp;
             (q2, s2) \<leftarrow> (if need_writeback d s then do {
                            s1 \<leftarrow> writeback d s;
                            q2 \<leftarrow> del_dirty_page tmp q1;
                            Some (q2, s1)
                          } else Some (q1, s));
             (n, s3) \<leftarrow> free_data d s2;
             swap_out_loop need_writeback writeback free_data (s64 (sz - n)) q2 s3
           })
      else Some (sz, q, s))"

definition swap_out :: "('d \<Rightarrow> 's \<Rightarrow> bool) \<Rightarrow> ('d \<Rightarrow> 's \<Rightarrow> 's option) \<Rightarrow> ('d \<Rightarrow> 's \<Rightarrow> (size_t \<times> 's) option) \<Rightarrow>
    ssize_t \<Rightarrow> 'd access_queue \<Rightarrow> 's \<Rightarrow> (size_t \<times> 'd access_queue \<times> 's) option" where
  "swap_out need_writeback writeback free_data sz q s =
     do {
       (rest, q1, s1) \<leftarrow> swap_out_loop need_writeback writeback free_data sz q s;
       Some (u64 (sz - rest), q1, s1)
     }"

partial_function (option) prepare_writeback_loop :: "('d \<Rightarrow> bool option) \<Rightarrow> int \<Rightarrow> nat \<Rightarrow> 'd list \<Rightarrow> 'd access_queue \<Rightarrow> ('d list \<times> int) option" where
  "prepare_writeback_loop need_writeback cnt tmp acc q =
     (if cnt \<noteq> 0 \<and> \<not> is_last_dirty_page tmp q then
        Option.bind (aq_data q tmp) (\<lambda>d. Option.bind (need_writeback d) (\<lambda>need. Option.bind (next_dirty q tmp) (\<lambda>nxt.
          if need then prepare_writeback_loop need_writeback (cnt - 1) nxt (acc @ [d]) q
          else prepare_writeback_loop need_writeback cnt nxt acc q)))
      else Some (acc, cnt))"

definition prepare_writeback_page :: "('d \<Rightarrow> bool option) \<Rightarrow> int \<Rightarrow> 'd access_queue \<Rightarrow> ('d list \<times> int) option" where
  "prepare_writeback_page need_writeback cnt q =
     do {
       tmp \<leftarrow> get_first_dirty_page q;
       (queue, rest) \<leftarrow> prepare_writeback_loop need_writeback cnt tmp [] q;
       Some (queue, cnt - rest)
     }"

fun check_writeback_page :: "('d \<Rightarrow> bool option) \<Rightarrow> ('d \<Rightarrow> nat option) \<Rightarrow> 'd list \<Rightarrow> 'd access_queue \<Rightarrow> (int \<times> 'd access_queue) option" where
  "check_writeback_page need_writeback writeback_page [] q = Some (0, q)"
| "check_writeback_page need_writeback writeback_page (item # it) q =
     do {
       need \<leftarrow> need_writeback item;
       if \<not> need then do {
         q1 \<leftarrow> (case writeback_page item of None \<Rightarrow> Some q | Some p \<Rightarrow> del_dirty_page p q);
         (c, q2) \<leftarrow> check_writeback_page need_writeback writeback_page it q1;
         Some (c + 1, q2)
       } else check_writeback_page need_writeback writeback_page it q
     }"

definition remove_page_from_swap_queue :: "nat \<Rightarrow> 'd access_queue \<Rightarrow> 'd access_queue option" where
  "remove_page_from_swap_queue page q = aq_erase page q"

text \<open>The destructor deletes the pages from \<^verbatim>\<open>head\<close> up to \<^verbatim>\<open>tail\<close>; the result lists them in order.\<close>

partial_function (option) aq_destroy_loop :: "nat \<Rightarrow> nat list \<Rightarrow> 'd access_queue \<Rightarrow> nat list option" where
  "aq_destroy_loop nxt deleted q =
     (if nxt \<noteq> aq_tail q then aq_destroy_loop (aq_next q nxt) (deleted @ [nxt]) q else Some deleted)"

definition aq_destroy :: "'d access_queue \<Rightarrow> nat list option" where
  "aq_destroy q = do { deleted \<leftarrow> aq_destroy_loop (aq_head q) [] q; Some (deleted @ [aq_tail q]) }"

text \<open>The reference: evict from the front of the list of blocks in order of last access.\<close>

fun evict :: "('d \<Rightarrow> 's \<Rightarrow> bool) \<Rightarrow> ('d \<Rightarrow> 's \<Rightarrow> 's option) \<Rightarrow> ('d \<Rightarrow> 's \<Rightarrow> (size_t \<times> 's) option) \<Rightarrow>
    ssize_t \<Rightarrow> 'd list \<Rightarrow> 's \<Rightarrow> (ssize_t \<times> 'd list \<times> 's) option" where
  "evict need wb free_d sz [] s = Some (sz, [], s)"
| "evict need wb free_d sz (d # ds) s =
     (if 0 < sz then do {
        s1 \<leftarrow> (if need d s then wb d s else Some s);
        (n, s2) \<leftarrow> free_d d s1;
        evict need wb free_d (s64 (sz - n)) ds s2
      } else Some (sz, d # ds, s))"

definition aq_blocks :: "'d access_queue \<Rightarrow> 'd list" where
  "aq_blocks q = map (\<lambda>p. the (aq_data q p)) (aq_order q)"

lemma aq_blocks_eq: "aq_inv q us fs ds \<Longrightarrow> aq_blocks q = map (\<lambda>p. the (aq_data q p)) us"
  by (simp add: aq_blocks_def aq_order_eq)

lemma aq_del_dirty_inv:
  assumes "aq_inv q us fs ds" "e \<in> set (aq_tail q # us @ aq_head q # fs)"
  shows "\<exists>q'. del_dirty_page e q = Some q' \<and> aq_inv q' us fs (remove1 e ds) \<and> aq_data q' = aq_data q"
proof -
  have "e \<noteq> first_dirty q" "dirty_ring q ds" using assms by (auto simp: aq_inv_def)
  from del_dirty_ok [OF this(2,1)] obtain nd pd where
    "del_dirty_page e q = Some (q\<lparr>next_dirty := nd, pre_dirty := pd\<rparr>)"
    "dirty_ring (q\<lparr>next_dirty := nd, pre_dirty := pd\<rparr>) (remove1 e ds)" by blast
  moreover have "set (remove1 e ds) \<subseteq> set ds" by (rule set_remove1_subset)
  ultimately show ?thesis
    using assms by (intro exI [of _ "q\<lparr>next_dirty := nd, pre_dirty := pd\<rparr>"]) (auto simp: aq_inv_def page_ring_def)
qed

lemma swap_out_loop_refines:
  assumes "aq_inv q us fs ds"
    "evict need wb free_d sz (map (\<lambda>p. the (aq_data q p)) us) s = Some (rest, left, s')"
  shows "\<exists>q'. swap_out_loop need wb free_d sz q s = Some (rest, q', s') \<and> aq_ok q' \<and> aq_blocks q' = left"
  using assms
proof (induction us arbitrary: q fs ds sz s)
  case Nil
  have "swap_out_loop need wb free_d sz q s = Some (sz, q, s)"
    by (subst swap_out_loop.simps) (simp add: aq_pop_ok(1) [OF Nil.prems(1)])
  then show ?case using Nil.prems aq_blocks_eq [OF Nil.prems(1)] by (auto simp: aq_ok_def)
next
  case (Cons u us)
  show ?case
  proof (cases "0 < sz")
    case False
    have "swap_out_loop need wb free_d sz q s = Some (sz, q, s)"
      by (subst swap_out_loop.simps) (use False in simp)
    then show ?thesis using False Cons.prems aq_blocks_eq [OF Cons.prems(1)] by (auto simp: aq_ok_def)
  next
    case True
    from aq_pop_ok(2) [OF Cons.prems(1) refl] obtain q1 where
      q1: "aq_pop q = (Some u, q1)" "aq_inv q1 us (fs @ [aq_tail q]) ds" "aq_data q1 = aq_data q" by blast
    obtain d where d: "aq_data q u = Some d" using Cons.prems(1) by (auto simp: aq_inv_def)
    let ?need = "need d s"
    from Cons.prems(2) True d obtain s1 n s2 where e: "(if ?need then wb d s else Some s) = Some s1"
      "free_d d s1 = Some (n, s2)"
      "evict need wb free_d (s64 (sz - n)) (map (\<lambda>p. the (aq_data q p)) us) s2 = Some (rest, left, s')"
      by (auto simp: bind_eq_Some_conv)
    have "aq_tail q1 = u" using q1(1) by (auto simp: aq_pop_def Let_def split: if_splits)
    then obtain q2 where q2: "del_dirty_page u q1 = Some q2" "aq_inv q2 us (fs @ [aq_tail q]) (remove1 u ds)"
      "aq_data q2 = aq_data q1" using aq_del_dirty_inv [OF q1(2), of u] by auto
    let ?q = "if ?need then q2 else q1"
    have "\<exists>ds'. aq_inv ?q us (fs @ [aq_tail q]) ds'" "aq_data ?q = aq_data q" using q1 q2 by auto
    with Cons.IH e(3) obtain q' where q': "swap_out_loop need wb free_d (s64 (sz - n)) ?q s2 = Some (rest, q', s')"
      "aq_ok q'" "aq_blocks q' = left" by metis
    have "swap_out_loop need wb free_d sz q s = Some (rest, q', s')"
      using True q1 d e(1,2) q2(1) q'(1) by (subst swap_out_loop.simps) (cases ?need; simp)
    then show ?thesis using q' by blast
  qed
qed

lemma prepare_writeback_loop_ok:
  fixes need :: "'d \<Rightarrow> bool" and q :: "'d access_queue"
  assumes "chain (\<lambda>x. the (next_dirty q x)) (ys @ [first_dirty q])" "first_dirty q \<notin> set ys"
    "\<forall>y\<in>set ys. next_dirty q y \<noteq> None \<and> aq_data q y \<noteq> None"
  defines "sel \<equiv> \<lambda>c. (if c < 0 then id else take (nat c)) (filter need (map (\<lambda>p. the (aq_data q p)) ys))"
  shows "prepare_writeback_loop (\<lambda>d. Some (need d)) cnt (hd (ys @ [first_dirty q])) acc q =
    Some (acc @ sel cnt, cnt - int (length (sel cnt)))"
  using assms(1-3) unfolding sel_def
proof (induction ys arbitrary: cnt acc)
  case Nil
  then show ?case by (subst prepare_writeback_loop.simps) (simp add: is_last_dirty_page_def)
next
  case (Cons y ys)
  obtain d nx where y: "aq_data q y = Some d" "next_dirty q y = Some nx" using Cons.prems(3) by auto
  have nx: "nx = hd (ys @ [first_dirty q])" and ch: "chain (\<lambda>x. the (next_dirty q x)) (ys @ [first_dirty q])"
    using Cons.prems(1) y(2) by (auto simp: chain_Cons)
  note IH = Cons.IH [OF ch] 
  show ?case
  proof (cases "cnt = 0")
    case True
    then show ?thesis by (subst prepare_writeback_loop.simps) simp
  next
    case False
    have step: "prepare_writeback_loop (\<lambda>d. Some (need d)) cnt y acc q =
        (if need d then prepare_writeback_loop (\<lambda>d. Some (need d)) (cnt - 1) (hd (ys @ [first_dirty q])) (acc @ [d]) q
         else prepare_writeback_loop (\<lambda>d. Some (need d)) cnt (hd (ys @ [first_dirty q])) acc q)"
      using False y Cons.prems(2) by (subst prepare_writeback_loop.simps) (simp add: is_last_dirty_page_def nx)
    have "nat cnt = Suc (nat (cnt - 1))" if "0 < cnt" using that by simp
    then show ?thesis
      using IH [of "cnt - 1" "acc @ [d]"] IH [of cnt acc] Cons.prems(2,3) False y(1)
      by (cases "cnt < 0") (auto simp: step)
  qed
qed

lemma aq_dirty_walk:
  assumes "aq_inv q us fs ds"
  shows "chain (\<lambda>x. the (next_dirty q x)) (ds @ [first_dirty q])" "first_dirty q \<notin> set ds"
    "get_first_dirty_page q = Some (hd (ds @ [first_dirty q]))"
    "\<forall>y\<in>set ds. next_dirty q y \<noteq> None \<and> aq_data q y \<noteq> None"
proof -
  let ?n = "\<lambda>x. the (next_dirty q x)"
  have r: "ring ?n (first_dirty q # ds)" and d: "distinct (first_dirty q # ds)"
    and nn: "\<forall>x\<in>set (first_dirty q # ds). next_dirty q x \<noteq> None"
    using assms by (auto simp: aq_inv_def dirty_ring_def dring_def)
  from ring_unroll [OF r] show "chain ?n (ds @ [first_dirty q])" by blast
  show "first_dirty q \<notin> set ds" using d by simp
  from ring_unroll [OF r] nn show "get_first_dirty_page q = Some (hd (ds @ [first_dirty q]))"
    by (auto simp: get_first_dirty_page_def)
  show "\<forall>y\<in>set ds. next_dirty q y \<noteq> None \<and> aq_data q y \<noteq> None" using nn assms by (auto simp: aq_inv_def)
qed

text \<open>The destructor ends and deletes every unused page once; the pages in use are not deleted.\<close>

lemma aq_destroy_loop_chain:
  "chain (aq_next q) (ys @ [aq_tail q]) \<Longrightarrow> aq_tail q \<notin> set ys \<Longrightarrow>
     aq_destroy_loop (hd (ys @ [aq_tail q])) acc q = Some (acc @ ys)"
proof (induction ys arbitrary: acc)
  case Nil
  then show ?case by (subst aq_destroy_loop.simps) simp
next
  case (Cons y ys)
  then show ?case by (subst aq_destroy_loop.simps) (auto simp: chain_Cons)
qed

lemma aq_destroy_ok:
  assumes "aq_inv q us fs ds"
  shows "aq_destroy q = Some (aq_head q # fs @ [aq_tail q])" "distinct (aq_head q # fs @ [aq_tail q])"
    "set us \<inter> set (aq_head q # fs @ [aq_tail q]) = {}"
proof -
  have r: "ring (aq_next q) (aq_tail q # us @ aq_head q # fs)" and d: "distinct (aq_tail q # us @ aq_head q # fs)"
    using assms by (auto simp: aq_inv_def page_ring_def dring_def)
  from ring_unroll [OF r] have "chain (aq_next q) (us @ (aq_head q # fs) @ [aq_tail q])" by simp
  then have "chain (aq_next q) ((aq_head q # fs) @ [aq_tail q])" unfolding chain_append by blast
  from aq_destroy_loop_chain [OF this, of "[]"] d show "aq_destroy q = Some (aq_head q # fs @ [aq_tail q])"
    by (auto simp: aq_destroy_def)
  show "distinct (aq_head q # fs @ [aq_tail q])" "set us \<inter> set (aq_head q # fs @ [aq_tail q]) = {}"
    using d by auto
qed

lemma touch_tail_next:
  assumes inv: "aq_inv q us fs ds"
  shows "\<exists>q'. aq_touch (aq_tail q) dirty q = Some q' \<and> aq_next q' (aq_tail q') = aq_head q'"
proof -
  let ?e = "aq_tail q" and ?h = "aq_head q"
  have "dring (aq_next q) (aq_prev q) (?e # us @ ?h # fs)" and dr: "dirty_ring q ds" "?e \<noteq> first_dirty q"
    using inv by (auto simp: aq_inv_def page_ring_def)
  then have ring: "dring (aq_next q) (aq_prev q) ((us @ ?h # fs) @ [?e])" and d: "distinct (?e # us @ ?h # fs)"
    using dring_rotate [of _ _ "[?e]" "us @ ?h # fs"] by (auto simp: dring_def)
  note del = dring_delete_mid [OF ring]
  have pe: "aq_prev q ?e \<noteq> ?e" using del(2) d by (cases fs rule: rev_cases) auto
  have nxt: "aq_next q ?e \<noteq> ?e"
    using \<open>dring (aq_next q) (aq_prev q) (?e # us @ ?h # fs)\<close> d by (cases us) (auto dest!: dring_succ(1))
  let ?q = "q\<lparr>aq_prev := (aq_prev q)(aq_next q ?e := aq_prev q ?e), aq_next := (aq_next q)(aq_prev q ?e := aq_next q ?e)\<rparr>"
  have "dirty_ring ?q ds" using dr by (simp add: dirty_ring_def)
  from del_dirty_ok [OF this, of ?e] dr(2) obtain nd pd where
    d1: "del_dirty_page ?e ?q = Some (?q\<lparr>next_dirty := nd, pre_dirty := pd\<rparr>)"
      "dirty_ring (?q\<lparr>next_dirty := nd, pre_dirty := pd\<rparr>) (remove1 ?e ds)" by auto
  let ?q1 = "?q\<lparr>next_dirty := nd, pre_dirty := pd\<rparr>"
  have r1: "dring (aq_next ?q1) (aq_prev ?q1) (?h # fs @ us)"
    using del(1) dring_rotate [of _ _ us "?h # fs"] by simp
  then obtain l where l: "aq_prev ?q1 ?h = l" "aq_next ?q1 l = ?h" "l \<noteq> ?e"
  proof (cases "fs @ us" rule: rev_cases)
    case Nil
    then show thesis using r1 d that [of ?h] by (simp add: dring_single)
  next
    case (snoc zs z)
    then have zh: "dring (aq_next ?q1) (aq_prev ?q1) (z # ?h # zs)"
      using r1 dring_rotate [of _ _ "?h # zs" "[z]"] by simp
    have "z \<in> set (fs @ us)" using snoc by simp
    then have "z \<noteq> ?e" using d by auto
    then show thesis using that [of z] dring_succ [OF zh] by blast
  qed
  let ?q2 = "insert_after l ?e ?q1"
  have q2: "aq_next ?q2 ?e = ?h" "aq_head ?q2 = ?h" "aq_tail ?q2 = ?e" "first_dirty ?q2 = first_dirty q"
    "dirty_ring ?q2 (remove1 ?e ds)"
    using l d1(2) by (simp_all add: insert_after_eq dirty_ring_def)
  have t: "aq_touch ?e dirty q = (if dirty \<or> is_in_dirty_queue ?e q then push_dirty_page ?e ?q2 else Some ?q2)"
    using d1(1) l(1) by (simp add: aq_touch_def Let_def aq_del_eq [OF pe nxt])
  from push_dirty_ok [OF q2(5), of ?e] q2(4) dr(2) obtain nd' pd' where
    "push_dirty_page ?e ?q2 = Some (?q2\<lparr>next_dirty := nd', pre_dirty := pd'\<rparr>)" by auto
  then show ?thesis using t q2(1-3) by (cases "dirty \<or> is_in_dirty_queue ?e q") auto
qed

section \<open>Properties\<close>

text \<open>C26: The swap queue evicts in the order of the last accesses: after any sequence of accesses that
  touches every page, popping returns first the page whose last access is the longest ago.\<close>

theorem lru_evicts_least_recent:
  assumes "aq_ok q" "set ps = set (aq_order q)" "touches (\<lambda>p. aq_touch p dirty) ps q = Some q1"
  shows "fst (pops aq_pop n q1) = take n (remdups ps)"
  using lru.evict_least_recent [OF assms] .

theorem lru_evicts_least_recent_witness:
  "\<exists>a q1 b q2 q3. aq_push (10 :: int) False access_queue_new = Some (a, q1) \<and> aq_push 20 False q1 = Some (b, q2) \<and>
     touches (\<lambda>p. aq_touch p True) [a, b, a] q2 = Some q3 \<and> fst (pops aq_pop 1 q3) = [b]"
proof -
  have n: "aq_ok (access_queue_new :: int access_queue)" "aq_order (access_queue_new :: int access_queue) = []"
    using aq_new_inv aq_order_eq [OF aq_new_inv] by (auto simp: aq_ok_def)
  from lru.push_law [OF n(1), of 10 False] n(2) obtain a q1 where
    q1: "aq_push (10 :: int) False access_queue_new = Some (a, q1)" "aq_ok q1" "aq_order q1 = [a]" by auto
  from lru.push_law [OF q1(2), of 20 False] q1(3) obtain b q2 where
    q2: "aq_push 20 False q1 = Some (b, q2)" "aq_ok q2" "aq_order q2 = [a, b]" by auto
  have ne: "a \<noteq> b" using lru.order_distinct [OF q2(2)] q2(3) by simp
  from lru.touches_order [OF q2(2), of "[a, b, a]" True] q2(3) obtain q3 where
    q3: "touches (\<lambda>p. aq_touch p True) [a, b, a] q2 = Some q3" by auto
  have "fst (pops aq_pop 1 q3) = take 1 (remdups [a, b, a])"
    using q2(3) by (intro lru_evicts_least_recent [OF q2(2) _ q3]) auto
  then show ?thesis using q1(1) q2(1) q3 ne by auto
qed

text \<open>C27: Swapping out refines eviction from the list of blocks in the order of their last access: it
  terminates, writes back and frees the oldest blocks until enough bytes are free or no
  block is left, and the blocks that stay keep their order.\<close>

theorem swap_out_refines:
  assumes "aq_ok q" "evict need wb free_d sz (aq_blocks q) s = Some (rest, left, s')"
  shows "\<exists>q'. swap_out need wb free_d sz q s = Some (u64 (sz - rest), q', s') \<and> aq_ok q' \<and> aq_blocks q' = left"
proof -
  from assms(1) obtain us fs ds where inv: "aq_inv q us fs ds" by (auto simp: aq_ok_def)
  from swap_out_loop_refines [OF inv, of need wb free_d sz s rest left s'] assms(2) aq_blocks_eq [OF inv]
  show ?thesis by (auto simp: swap_out_def)
qed

theorem swap_out_refines_witness:
  "\<exists>a q1 q2. aq_push (10 :: int) False access_queue_new = Some (a, q1) \<and>
     swap_out (\<lambda>d s. False) (\<lambda>d s. None) (\<lambda>d s. Some (4, s + d)) 3 q1 (0 :: int) = Some (4, q2, 10) \<and> aq_blocks q2 = []"
proof -
  from aq_push_ok [OF aq_new_inv, of "10 :: int" False] obtain a q1 fs ds where
    q1: "aq_push (10 :: int) False access_queue_new = Some (a, q1)" "aq_inv q1 [a] fs ds"
      "aq_data q1 = (aq_data access_queue_new)(a := Some 10)" by auto
  have "aq_ok q1" "aq_blocks q1 = [10]" using q1(2,3) aq_blocks_eq [OF q1(2)] by (auto simp: aq_ok_def)
  from swap_out_refines [OF this(1), of "\<lambda>d s. False" "\<lambda>d s. None" "\<lambda>d s. Some (4, s + d)" 3 "0 :: int" "-1" "[]" 10]
  show ?thesis using q1(1) \<open>aq_blocks q1 = [10]\<close> by (auto simp: s64_def u64_def)
qed

text \<open>C28: The pages collected for writing back are the first \<open>count\<close> pages of the dirty ring that
  need it, all of them for a negative count, and the loop terminates.\<close>

theorem prepare_writeback_correct:
  assumes "aq_inv q us fs ds"
  shows "prepare_writeback_page (\<lambda>d. Some (need d)) cnt q =
    (let sel = (if cnt < 0 then id else take (nat cnt)) (filter need (map (\<lambda>p. the (aq_data q p)) ds))
     in Some (sel, int (length sel)))"
  using prepare_writeback_loop_ok [OF aq_dirty_walk(1,2,4) [OF assms]] aq_dirty_walk(3) [OF assms]
  by (simp add: prepare_writeback_page_def Let_def)

theorem prepare_writeback_correct_witness:
  "\<exists>a q1. aq_push (10 :: int) True access_queue_new = Some (a, q1) \<and>
     prepare_writeback_page (\<lambda>d. Some (5 < d)) 3 q1 = Some ([10], 1)"
proof -
  from aq_push_ok [OF aq_new_inv, of "10 :: int" True] obtain a q1 fs ds where
    q1: "aq_push (10 :: int) True access_queue_new = Some (a, q1)" "aq_inv q1 [a] fs ds"
      "aq_data q1 = (aq_data access_queue_new)(a := Some 10)" "set ds = {a}" by auto
  have "distinct ds" using q1(2) by (auto simp: aq_inv_def dirty_ring_def dring_def)
  then have "ds = [a]" using q1(4) by (cases ds; cases "tl ds") auto
  then show ?thesis using prepare_writeback_correct [OF q1(2), of "\<lambda>d. 5 < d" 3] q1(1,3) by simp
qed

text \<open>C29: Touching the page that was popped last, as happens when the block of that page could not be
  freed and still points to it, empties the queue: whatever pages were in use behind the popped
  one, the order of eviction is empty afterwards and the next pop finds no page.\<close>

theorem touch_popped_page_loses_queue:
  assumes "aq_ok q" "aq_pop q = (Some p, q1)"
  shows "\<exists>q2. aq_order q = p # aq_order q1 \<and> aq_touch p dirty q1 = Some q2 \<and> aq_order q2 = [] \<and> aq_pop q2 = (None, q2)"
proof -
  from assms(1) obtain us fs ds where inv: "aq_inv q us fs ds" by (auto simp: aq_ok_def)
  with aq_pop_ok(1) [OF inv] assms(2) obtain u us' where us: "us = u # us'" by (cases us) auto
  from aq_pop_ok(2) [OF inv us] assms(2) have q1: "u = p" "aq_inv q1 us' (fs @ [aq_tail q]) ds" by auto
  have t: "aq_tail q1 = p" using assms(2) by (auto simp: aq_pop_def Let_def split: if_splits)
  from touch_tail_next [OF q1(2), of dirty] obtain q2 where
    q2: "aq_touch p dirty q1 = Some q2" "aq_next q2 (aq_tail q2) = aq_head q2" unfolding t by blast
  then show ?thesis
    using aq_order_eq [OF inv] aq_order_eq [OF q1(2)] us q1(1) by (intro exI [of _ q2]) (simp add: aq_pop_def aq_order_def)
qed

theorem touch_popped_page_loses_queue_witness:
  "\<exists>a q1 b q2 c q3 q4 q5. aq_push (10 :: int) False access_queue_new = Some (a, q1) \<and> aq_push 20 False q1 = Some (b, q2) \<and>
     aq_push 30 True q2 = Some (c, q3) \<and> aq_pop q3 = (Some a, q4) \<and> aq_order q4 = [b, c] \<and>
     aq_touch a True q4 = Some q5 \<and> aq_order q5 = [] \<and> aq_pop q5 = (None, q5)"
proof -
  have n: "aq_ok (access_queue_new :: int access_queue)" "aq_order (access_queue_new :: int access_queue) = []"
    using aq_new_inv aq_order_eq [OF aq_new_inv] by (auto simp: aq_ok_def)
  from lru.push_law [OF n(1), of 10 False] n(2) obtain a q1 where
    q1: "aq_push (10 :: int) False access_queue_new = Some (a, q1)" "aq_ok q1" "aq_order q1 = [a]" by auto
  from lru.push_law [OF q1(2), of 20 False] q1(3) obtain b q2 where
    q2: "aq_push 20 False q1 = Some (b, q2)" "aq_ok q2" "aq_order q2 = [a, b]" by auto
  from lru.push_law [OF q2(2), of 30 True] q2(3) obtain c q3 where
    q3: "aq_push 30 True q2 = Some (c, q3)" "aq_ok q3" "aq_order q3 = [a, b, c]" by auto
  from lru.pop_law [OF q3(2)] q3(3) obtain q4 where q4: "aq_pop q3 = (Some a, q4)" "aq_order q4 = [b, c]" by auto
  from touch_popped_page_loses_queue [OF q3(2) q4(1), of True] show ?thesis using q1(1) q2(1) q3(1) q4 by blast
qed

end
