(* ===== verification/IOnode_State.thy ===== *)
theory IOnode_State
  imports HFS_Const File_Blocks Memory_Pool Access_Queue IO_Task
begin

text \<open>
  The block cache of an IOnode (IOnode/include/IOnode\_basic.h, IOnode/src/IOnode\_basic.cpp,
  IOnode/include/IOnode.h, IOnode/src/IOnode.cpp): blocks, files, the storage below, write
  back, eviction and the handlers that read and write blocks. The build is the one without
  CCI (\<^verbatim>\<open>TCP\<close>), with the swap queue \<^verbatim>\<open>LRU\<close>.

  \<^item> A \<^verbatim>\<open>block*\<close> is an address into \<open>io_blocks\<close>. A \<^verbatim>\<open>file*\<close> points to the value of a node of
    \<^verbatim>\<open>_files\<close> and is its key, the file number; a \<^verbatim>\<open>comm_handle_t\<close> in the \<^verbatim>\<open>IOnode_pool\<close> of a file
    points into \<^verbatim>\<open>IOnode_handle_pool\<close> and is the node number.
  \<^item> The memory of a pool element is a function from offsets to bytes; what an element holds
    when it is handed out is what it held before.
  \<^item> The storage is a map from paths to contents. What the operating system answers is the
    environment \<open>io_env\<close>: whether a directory can be opened, whether a file can, what each
    read and write call returns, and whether \<^verbatim>\<open>malloc\<close> succeeds.
  \<^item> None stands for undefined behaviour, for a loop that does not end and for an exception
    that leaves the handler: the handler thread has no \<^verbatim>\<open>catch\<close>, so
    \<^verbatim>\<open>std::runtime_error\<close> and \<^verbatim>\<open>std::bad_alloc\<close> end the process. \<^verbatim>\<open>std::out_of_range\<close>, which the
    handlers do catch, is a branch.
  \<^item> Requests run one after the other; the write back thread and the data synchronisation
    thread take their turns between them. Locks are therefore left out, and waiting for
    another thread to clear \<^verbatim>\<open>writing_back\<close> is None.
  \<^item> The pieces of a reply are pointers into blocks; they are read when the handler has
    finished and enqueues the reply.
\<close>

section \<open>State\<close>

record block =
  b_data_size :: size_t
  b_data :: "nat option"
  b_start :: off64_t
  b_dirty :: bool
  b_valid :: bool
  b_swapout :: bool
  b_writing :: bool
  b_receiving :: bool
  b_exist :: c_int
  b_file :: ssize_t
  b_postponed :: c_int
  b_page :: "nat option"
  b_elem :: "nat option"

record iofile =
  f_path :: string
  f_exist :: c_int
  f_close :: bool
  f_dirty :: bool
  f_postponed :: c_int
  f_dirty_pages :: c_int
  f_main :: c_int
  f_no :: ssize_t
  f_blocks :: "(off64_t, nat) std_map"
  f_pool :: "(ssize_t, ssize_t) std_map"
  f_read_fd :: c_int
  f_write_fd :: c_int

datatype io_result = Io_done nat | Io_error c_int

record storage_env =
  opendir_errno :: "string \<Rightarrow> c_int"
  open_ok :: "string \<Rightarrow> bool"
  io_call :: "nat \<Rightarrow> io_result"
  malloc_call :: "nat \<Rightarrow> bool"
  connect_handle :: "string \<Rightarrow> int"
  local_uri :: string

text \<open>A reply or message: connection, values, bytes of the send buffers.\<close>

datatype io_msg = Io_msg int "field list" "byte list"

record data_sync_task =
  ds_id :: c_int
  ds_file :: ssize_t
  ds_start :: off64_t
  ds_offset :: off64_t
  ds_size :: ssize_t
  ds_receiver :: c_int
  ds_handle :: int

record ionode =
  io_node_id :: ssize_t
  io_files :: "(ssize_t, iofile) std_map"
  io_blocks :: "nat \<Rightarrow> block option"
  io_fresh :: nat
  io_queue :: "nat access_queue"
  io_pool :: memory_pool
  io_mem :: "nat \<Rightarrow> nat \<Rightarrow> byte"
  io_disk :: "string \<Rightarrow> byte list option"
  io_fds :: "(c_int, string \<times> nat) std_map"
  io_fd_fresh :: c_int
  io_calls :: nat
  io_env :: storage_env
  io_mount :: string
  io_master :: int
  io_handles :: "(ssize_t, int) std_map"
  io_writeback_queue :: "nat list"
  io_writeback_status :: c_int
  io_remote_tasks :: "c_int list"
  io_remove_list :: "ssize_t list"
  io_open_count :: c_int
  io_sync_tasks :: "data_sync_task list"
  io_sent :: "io_msg list"
  io_closed :: "int list"

abbreviation "MAX_OPEN_FILE_COUNT \<equiv> 4096 :: int"
abbreviation "block_bytes \<equiv> nat BLOCK_SIZE"

definition deref_block :: "nat \<Rightarrow> ionode \<Rightarrow> block option" where
  "deref_block b s = io_blocks s b"

definition upd_block :: "nat \<Rightarrow> (block \<Rightarrow> block) \<Rightarrow> ionode \<Rightarrow> ionode option" where
  "upd_block b g s = do { blk \<leftarrow> deref_block b s; Some (s\<lparr>io_blocks := (io_blocks s)(b \<mapsto> g blk)\<rparr>) }"

definition upd_iofile :: "ssize_t \<Rightarrow> (iofile \<Rightarrow> iofile) \<Rightarrow> ionode \<Rightarrow> ionode option" where
  "upd_iofile n g s =
     do { f \<leftarrow> map_find n (io_files s); Some (s\<lparr>io_files := map_set n (g f) (io_files s)\<rparr>) }"

definition new_iofile :: "string \<Rightarrow> c_int \<Rightarrow> ssize_t \<Rightarrow> iofile" where
  "new_iofile path exist n = \<lparr>f_path = path, f_exist = exist, f_close = True, f_dirty = False,
     f_postponed = 0, f_dirty_pages = 0, f_main = SUB_REPLICA, f_no = n, f_blocks = [], f_pool = [],
     f_read_fd = -1, f_write_fd = -1\<rparr>"

definition io_real_path :: "string \<Rightarrow> ionode \<Rightarrow> string" where
  "io_real_path path s = io_mount s @ path"

definition io_send :: "int \<Rightarrow> field list \<Rightarrow> byte list \<Rightarrow> ionode \<Rightarrow> ionode" where
  "io_send handle msg data s = s\<lparr>io_sent := io_sent s @ [Io_msg handle msg data]\<rparr>"

section \<open>System calls\<close>

definition open64 :: "string \<Rightarrow> bool \<Rightarrow> ionode \<Rightarrow> c_int \<times> ionode" where
  "open64 path create s =
     (if open_ok (io_env s) path \<and> (create \<or> io_disk s path \<noteq> None) then
        (io_fd_fresh s,
         s\<lparr>io_disk := (io_disk s)(path \<mapsto> (case io_disk s path of None \<Rightarrow> [] | Some c \<Rightarrow> c)),
           io_fds := map_set (io_fd_fresh s) (path, 0) (io_fds s),
           io_fd_fresh := io_fd_fresh s + 1\<rparr>)
      else (-1, s))"

definition lseek :: "c_int \<Rightarrow> off64_t \<Rightarrow> ionode \<Rightarrow> (off64_t \<times> ionode)" where
  "lseek fd pos s =
     (case map_find fd (io_fds s) of
        None \<Rightarrow> (-1, s)
      | Some (path, _) \<Rightarrow>
          if pos < 0 then (-1, s) else (pos, s\<lparr>io_fds := map_set fd (path, nat pos) (io_fds s)\<rparr>))"

definition close_fd :: "c_int \<Rightarrow> ionode \<Rightarrow> ionode" where
  "close_fd fd s = s\<lparr>io_fds := map_erase fd (io_fds s)\<rparr>"

abbreviation file_content :: "string \<Rightarrow> ionode \<Rightarrow> byte list" where
  "file_content path s \<equiv> (case io_disk s path of None \<Rightarrow> [] | Some c \<Rightarrow> c)"

text \<open>
  \<^verbatim>\<open>readv\<close> into the block memory \<open>e\<close> at \<open>base\<close>; the result, \<^verbatim>\<open>errno\<close> and the state. It never
  returns more than is left in the file. Leaving the memory of the block is undefined.
\<close>

definition readv_call :: "c_int \<Rightarrow> nat \<Rightarrow> nat \<Rightarrow> nat \<Rightarrow> ionode \<Rightarrow> (int \<times> c_int \<times> ionode) option" where
  "readv_call fd e base len s =
     (let s1 = s\<lparr>io_calls := io_calls s + 1\<rparr> in
      case map_find fd (io_fds s) of
        None \<Rightarrow> Some (-1, 9, s1)
      | Some (path, pos) \<Rightarrow>
          (case io_call (io_env s) (io_calls s) of
             Io_error err \<Rightarrow> Some (-1, err, s1)
           | Io_done k \<Rightarrow>
               (let c = file_content path s; n = min k (min len (length c - pos)) in
                if base + n \<le> block_bytes then
                  Some (int n, 0, s1\<lparr>io_mem := (io_mem s)(e := put_bytes base (take n (drop pos c)) (io_mem s e)),
                                     io_fds := map_set fd (path, pos + n) (io_fds s)\<rparr>)
                else None)))"

text \<open>\<^verbatim>\<open>write\<close> behind the end of a file fills the gap with zeros.\<close>

definition write_at :: "nat \<Rightarrow> byte list \<Rightarrow> byte list \<Rightarrow> byte list" where
  "write_at pos bs c = take pos (c @ replicate (pos - length c) 0) @ bs @ drop (pos + length bs) c"

definition write_call :: "c_int \<Rightarrow> nat \<Rightarrow> nat \<Rightarrow> nat \<Rightarrow> ionode \<Rightarrow> (int \<times> c_int \<times> ionode) option" where
  "write_call fd e base len s =
     (let s1 = s\<lparr>io_calls := io_calls s + 1\<rparr> in
      case map_find fd (io_fds s) of
        None \<Rightarrow> Some (-1, 9, s1)
      | Some (path, pos) \<Rightarrow>
          (case io_call (io_env s) (io_calls s) of
             Io_error err \<Rightarrow> Some (-1, err, s1)
           | Io_done k \<Rightarrow>
               (let n = min k len in
                if base + n \<le> block_bytes then
                  Some (int n, 0, s1\<lparr>io_disk := (io_disk s)(path \<mapsto> write_at pos (get_bytes base n (io_mem s e)) (file_content path s)),
                                     io_fds := map_set fd (path, pos + n) (io_fds s)\<rparr>)
                else None)))"

section \<open>The storage below\<close>

definition parent_dir :: "string \<Rightarrow> string" where
  "parent_dir path =
     (let n = length (takeWhile (\<lambda>c. c \<noteq> CHR ''/'' \<and> c \<noteq> CHR 0x5C) (rev path))
      in if n = length path then path else take (length path - n - 1) path)"

definition check_directory :: "string \<Rightarrow> ionode \<Rightarrow> c_int" where
  "check_directory real_path s =
     (let err = opendir_errno (io_env s) (parent_dir real_path)
      in if err = 0 then 0 else if err = ENOENT then -1 else if err = EACCES then -2 else -3)"

definition open_too_many_files :: "ionode \<Rightarrow> bool" where
  "open_too_many_files s \<longleftrightarrow> MAX_OPEN_FILE_COUNT \<le> io_open_count s"

text \<open>While the directory does not exist the loop tests it again; a failure throws.\<close>

definition open_remote_file :: "ssize_t \<Rightarrow> string \<Rightarrow> c_int \<Rightarrow> ionode \<Rightarrow> (c_int \<times> ionode) option" where
  "open_remote_file n real_path mode s =
     do {
       f \<leftarrow> map_find n (io_files s);
       let fd = (if mode = READ_FILE then f_read_fd f else f_write_fd f);
       if fd = -1 then
         (if open_too_many_files s then None
          else let s1 = s\<lparr>io_open_count := io_open_count s + 1\<rparr> in
               if check_directory real_path s1 \<noteq> 0 then None
               else let (fd1, s2) = open64 real_path (mode = WRITE_FILE) s1 in
                    if fd1 = -1 then None
                    else do {
                      s3 \<leftarrow> upd_iofile n (\<lambda>f. if mode = READ_FILE then f\<lparr>f_read_fd := fd1\<rparr> else f\<lparr>f_write_fd := fd1\<rparr>) s2;
                      Some (fd1, s3)
                    })
       else Some (fd, s)
     }"

definition close_remote_file :: "ssize_t \<Rightarrow> c_int \<Rightarrow> ionode \<Rightarrow> ionode option" where
  "close_remote_file n mode s =
     do {
       s1 \<leftarrow> (if mode = WRITE_FILE then upd_iofile n (\<lambda>f. f\<lparr>f_dirty_pages := f_dirty_pages f - 1\<rparr>) s else Some s);
       f1 \<leftarrow> map_find n (io_files s1);
       s2 \<leftarrow> (if f_read_fd f1 \<noteq> -1
              then upd_iofile n (\<lambda>f. f\<lparr>f_read_fd := -1\<rparr>) ((close_fd (f_read_fd f1) s1)\<lparr>io_open_count := io_open_count s1 - 1\<rparr>)
              else Some s1);
       f2 \<leftarrow> map_find n (io_files s2);
       if f_write_fd f2 \<noteq> -1
       then upd_iofile n (\<lambda>f. f\<lparr>f_write_fd := -1\<rparr>) ((close_fd (f_write_fd f2) s2)\<lparr>io_open_count := io_open_count s2 - 1\<rparr>)
       else Some s2
     }"

text \<open>
  The loop of \<^verbatim>\<open>_read_from_storage\<close>: \<open>base\<close> is \<^verbatim>\<open>iov_base\<close> relative to the block. After a call
  that read \<^verbatim>\<open>ret\<close> bytes the code sets it to \<^verbatim>\<open>buffer+ret\<close>, whatever was read before.
\<close>

partial_function (option) read_loop :: "c_int \<Rightarrow> nat \<Rightarrow> nat \<Rightarrow> nat \<Rightarrow> ionode \<Rightarrow> (nat \<times> ionode) option" where
  "read_loop fd e base sz s =
     (if sz \<noteq> 0 then
        Option.bind (readv_call fd e base sz s) (\<lambda>(ret, err, s1).
          if ret = 0 then Some (sz, s1)
          else if ret = -1 then (if err = EINTR then read_loop fd e base sz s1 else Some (sz, s1))
          else read_loop fd e (nat ret) (sz - nat ret) s1)
      else Some (sz, s))"

definition read_from_storage :: "string \<Rightarrow> ssize_t \<Rightarrow> nat \<Rightarrow> ionode \<Rightarrow> (size_t \<times> ionode) option" where
  "read_from_storage path n b s =
     do {
       blk \<leftarrow> deref_block b s;
       (fd, s1) \<leftarrow> open_remote_file n (io_real_path path s) READ_FILE s;
       let (pos, s2) = lseek fd (b_start blk) s1;
       if pos = -1 then Some (0, s2)
       else do {
         e \<leftarrow> b_data blk;
         (rest, s3) \<leftarrow> read_loop fd e 0 (nat (b_data_size blk)) s2;
         s4 \<leftarrow> close_remote_file n READ_FILE s3;
         Some (b_data_size blk - int rest, s4)
       }
     }"

partial_function (option) write_loop :: "c_int \<Rightarrow> nat \<Rightarrow> nat \<Rightarrow> nat \<Rightarrow> ionode \<Rightarrow> (nat \<times> ionode) option" where
  "write_loop fd e base len s =
     (if len \<noteq> 0 then
        Option.bind (write_call fd e base len s) (\<lambda>(ret, err, s1).
          if ret = 0 then Some (len, s1)
          else if ret = -1 then (if err = EINVAL \<or> err = EAGAIN then write_loop fd e base len s1 else Some (len, s1))
          else write_loop fd e (base + nat ret) (len - nat ret) s1)
      else Some (len, s))"

text \<open>The block is marked clean before anything is written, and stays so when writing fails.\<close>

definition write_to_storage :: "nat \<Rightarrow> ionode \<Rightarrow> (size_t \<times> ionode) option" where
  "write_to_storage b s =
     do {
       blk0 \<leftarrow> deref_block b s;
       if b_receiving blk0 then Some (0, s)
       else do {
         s1 \<leftarrow> upd_block b (\<lambda>blk. blk\<lparr>b_dirty := False\<rparr>) s;
         blk \<leftarrow> deref_block b s1;
         f \<leftarrow> map_find (b_file blk) (io_files s1);
         (fd, s2) \<leftarrow> open_remote_file (b_file blk) (io_real_path (f_path f) s1) WRITE_FILE s1;
         if b_postponed blk = TO_BE_DELETED then do {
           s3 \<leftarrow> close_remote_file (b_file blk) DELETE_FILE s2;
           Some (0, s3)
         } else do {
           s3 \<leftarrow> upd_block b (\<lambda>blk. blk\<lparr>b_writing := True\<rparr>) s2;
           let (pos, s4) = lseek fd (b_start blk) s3;
           if pos = -1 then None
           else do {
             e \<leftarrow> b_data blk;
             (rest, s5) \<leftarrow> write_loop fd e 0 (nat (b_data_size blk)) s4;
             s6 \<leftarrow> upd_block b (\<lambda>blk. blk\<lparr>b_writing := False\<rparr>) s5;
             s7 \<leftarrow> close_remote_file (b_file blk) WRITE_FILE s6;
             Some (b_data_size blk - int rest, s7)
           }
         }
       }
     }"

section \<open>Memory and eviction\<close>

definition need_writeback :: "nat \<Rightarrow> ionode \<Rightarrow> bool option" where
  "need_writeback b s = do { blk \<leftarrow> deref_block b s; Some (b_dirty blk) }"

definition writeback :: "nat \<Rightarrow> ionode \<Rightarrow> (size_t \<times> ionode) option" where
  "writeback b s =
     do { blk \<leftarrow> deref_block b s; if b_dirty blk then write_to_storage b s else Some (0, s) }"

definition block_free_memory :: "nat \<Rightarrow> ionode \<Rightarrow> (size_t \<times> ionode) option" where
  "block_free_memory b s =
     do {
       blk \<leftarrow> deref_block b s;
       if b_dirty blk then Some (0, s)
       else if \<not> b_valid blk then Some (0, s)
       else if b_data blk = None then Some (0, s)
       else do {
         e \<leftarrow> b_elem blk;
         s1 \<leftarrow> upd_block b (\<lambda>blk. blk\<lparr>b_data := None, b_elem := None, b_page := None\<rparr>) (s\<lparr>io_pool := free e (io_pool s)\<rparr>);
         Some (BLOCK_SIZE, s1)
       }
     }"

definition free_data :: "nat \<Rightarrow> ionode \<Rightarrow> (size_t \<times> ionode) option" where
  "free_data b s =
     do {
       blk \<leftarrow> deref_block b s;
       if b_writing blk then None
       else do {
         (ret, s1) \<leftarrow> block_free_memory b s;
         s2 \<leftarrow> upd_block b (\<lambda>blk. blk\<lparr>b_swapout := SWAPPED_OUT\<rparr>) s1;
         Some (ret, s2)
       }
     }"

text \<open>\<^verbatim>\<open>swap_out\<close> of the swap queue, with the virtual functions of the IOnode.\<close>

definition free_memory :: "size_t \<Rightarrow> ionode \<Rightarrow> (size_t \<times> ionode) option" where
  "free_memory sz s =
     do {
       (ret, q, s1) \<leftarrow> swap_out (\<lambda>b s. need_writeback b s = Some True)
                        (\<lambda>b s. map_option snd (writeback b s)) free_data (s64 sz) (io_queue s) s;
       Some (ret, s1\<lparr>io_queue := q\<rparr>)
     }"

definition allocate_memory :: "nat \<Rightarrow> ionode \<Rightarrow> (size_t \<times> ionode) option" where
  "allocate_memory b s =
     do {
       blk \<leftarrow> deref_block b s;
       let s1 = (case b_elem blk of None \<Rightarrow> s | Some e \<Rightarrow> s\<lparr>io_pool := free e (io_pool s)\<rparr>);
       r \<leftarrow> allocate (malloc_call (io_env s)) (io_pool s1);
       case r of
         (Inl _, _) \<Rightarrow> None
       | (Inr e, p) \<Rightarrow> do {
           s2 \<leftarrow> upd_block b (\<lambda>blk. blk\<lparr>b_elem := Some e, b_data := Some e, b_valid := True\<rparr>) (s1\<lparr>io_pool := p\<rparr>);
           Some (BLOCK_SIZE, s2)
         }
     }"

definition allocate_memory_for_block :: "nat \<Rightarrow> ionode \<Rightarrow> (size_t \<times> ionode) option" where
  "allocate_memory_for_block b s =
     do {
       s1 \<leftarrow> (if \<not> has_memory_left BLOCK_SIZE (io_pool s) then map_option snd (free_memory BLOCK_SIZE s) else Some s);
       allocate_memory b s1
     }"

definition new_block :: "off64_t \<Rightarrow> size_t \<Rightarrow> bool \<Rightarrow> c_int \<Rightarrow> ssize_t \<Rightarrow> block" where
  "new_block start sz dirty exist n = \<lparr>b_data_size = sz, b_data = None, b_start = start, b_dirty = dirty,
     b_valid = False, b_swapout = INBUFFER, b_writing = False, b_receiving = False, b_exist = exist,
     b_file = n, b_postponed = 0, b_page = None, b_elem = None\<rparr>"

definition create_new_block ::
    "off64_t \<Rightarrow> size_t \<Rightarrow> bool \<Rightarrow> bool \<Rightarrow> ssize_t \<Rightarrow> ionode \<Rightarrow> (nat \<times> ionode) option" where
  "create_new_block start sz dirty valid n s =
     do {
       s1 \<leftarrow> (if valid \<and> \<not> has_memory_left BLOCK_SIZE (io_pool s)
              then map_option snd (free_memory BLOCK_SIZE s) else Some s);
       f \<leftarrow> map_find n (io_files s1);
       let b = io_fresh s1;
       let s2 = s1\<lparr>io_fresh := b + 1, io_blocks := (io_blocks s1)(b \<mapsto> new_block start sz dirty (f_exist f) n)\<rparr>;
       s3 \<leftarrow> (if valid then map_option snd (allocate_memory b s2) else Some s2);
       Some (b, s3)
     }"

text \<open>The destructor of a block gives its page and its memory back.\<close>

definition delete_block :: "nat \<Rightarrow> ionode \<Rightarrow> ionode option" where
  "delete_block b s =
     do {
       blk \<leftarrow> deref_block b s;
       q \<leftarrow> (case b_page blk of None \<Rightarrow> Some (io_queue s) | Some p \<Rightarrow> aq_erase p (io_queue s));
       let pool = (case b_elem blk of None \<Rightarrow> io_pool s | Some e \<Rightarrow> free e (io_pool s));
       Some (s\<lparr>io_queue := q, io_pool := pool, io_blocks := (io_blocks s)(b := None)\<rparr>)
     }"

fun delete_blocks :: "(off64_t, nat) std_map \<Rightarrow> ionode \<Rightarrow> ionode option" where
  "delete_blocks [] s = Some s"
| "delete_blocks ((_, b) # it) s = do { s1 \<leftarrow> delete_block b s; delete_blocks it s1 }"

definition need_allocation :: "block \<Rightarrow> bool" where
  "need_allocation blk \<longleftrightarrow> \<not> b_valid blk \<or> b_data blk = None"

definition update_access_order :: "nat \<Rightarrow> bool \<Rightarrow> ionode \<Rightarrow> ionode option" where
  "update_access_order b dirty s =
     do {
       blk \<leftarrow> deref_block b s;
       (p, q) \<leftarrow> lru_access (b_page blk) b dirty (io_queue s);
       upd_block b (\<lambda>blk. blk\<lparr>b_page := Some p\<rparr>) (s\<lparr>io_queue := q\<rparr>)
     }"

end
