(* ===== verification/IOnode_Handlers.thy ===== *)
theory IOnode_Handlers
  imports IOnode_State
begin

text \<open>
  The request handlers of an IOnode (IOnode/src/IOnode.cpp), the periodic work between two
  requests and the tasks of the write back and data synchronisation threads. The arguments
  of a handler are the values it pops from the request; \<open>h\<close> is the connection the
  request came from, \<open>t\<close> the task with the data received.
\<close>

section \<open>Writing\<close>

text \<open>
  \<^verbatim>\<open>update_block_data\<close> in its three parts: the block is found or created, it is given memory
  and its bytes, and the bytes received are stored in it.
\<close>

definition find_or_create_block :: "ssize_t \<Rightarrow> off64_t \<Rightarrow> size_t \<Rightarrow> ionode \<Rightarrow> (nat \<times> ionode) option" where
  "find_or_create_block n start sz s =
     do {
       f \<leftarrow> map_find n (io_files s);
       case map_find start (f_blocks f) of
         Some b \<Rightarrow> Some (b, s)
       | None \<Rightarrow> do {
           (b, s1) \<leftarrow> create_new_block start sz False False n s;
           s2 \<leftarrow> upd_iofile n (\<lambda>f. f\<lparr>f_blocks := fst (map_insert start b (f_blocks f))\<rparr>) s1;
           Some (b, s2)
         }
     }"

definition fill_block :: "ssize_t \<Rightarrow> nat \<Rightarrow> ionode \<Rightarrow> ionode option" where
  "fill_block n b s =
     do {
       blk1 \<leftarrow> deref_block b s;
       if need_allocation blk1 then do {
         (_, s2) \<leftarrow> allocate_memory_for_block b s;
         f2 \<leftarrow> map_find n (io_files s2);
         blk2 \<leftarrow> deref_block b s2;
         s3 \<leftarrow> (if f_exist f2 = EXISTING \<or> b_swapout blk2 = SWAPPED_OUT then do {
                  (r, s3) \<leftarrow> read_from_storage (f_path f2) n b s2;
                  upd_block b (\<lambda>blk. blk\<lparr>b_data_size := r, b_swapout := INBUFFER\<rparr>) s3
                } else Some s2);
         upd_block b (\<lambda>blk. blk\<lparr>b_valid := True\<rparr>) s3
       } else Some s
     }"

definition receive_block :: "ssize_t \<Rightarrow> nat \<Rightarrow> off64_t \<Rightarrow> size_t \<Rightarrow> io_task \<Rightarrow> ionode \<Rightarrow> (size_t \<times> io_task \<times> ionode) option" where
  "receive_block n b offset sz t s =
     do {
       let sz1 = (if u64 (offset + sz) > BLOCK_SIZE then u64 (BLOCK_SIZE - offset) else sz);
       s3 \<leftarrow> upd_block b (\<lambda>blk. blk\<lparr>b_data_size := (if b_data_size blk < u64 (offset + sz1) then u64 (offset + sz1)
                                                else b_data_size blk), b_receiving := True\<rparr>) s;
       blk3 \<leftarrow> deref_block b s3;
       e \<leftarrow> b_data blk3;
       (bs, t1) \<leftarrow> get_received_data (nat sz1) t;
       s4 \<leftarrow> (if 0 \<le> offset \<and> offset + sz1 \<le> BLOCK_SIZE
              then Some (s3\<lparr>io_mem := (io_mem s3)(e := put_bytes (nat offset) bs (io_mem s3 e))\<rparr>) else None);
       s5 \<leftarrow> (if b_dirty blk3 then Some s4
              else do {
                s5 \<leftarrow> upd_block b (\<lambda>blk. blk\<lparr>b_dirty := True\<rparr>) s4;
                upd_iofile n (\<lambda>f. f\<lparr>f_dirty_pages := f_dirty_pages f + 1\<rparr>) s5
              });
       s6 \<leftarrow> update_access_order b True s5;
       s7 \<leftarrow> upd_block b (\<lambda>blk. blk\<lparr>b_receiving := False\<rparr>) s6;
       Some (sz1, t1, s7)
     }"

definition update_block_data ::
    "ssize_t \<Rightarrow> off64_t \<Rightarrow> off64_t \<Rightarrow> size_t \<Rightarrow> io_task \<Rightarrow> ionode \<Rightarrow> (size_t \<times> io_task \<times> ionode) option" where
  "update_block_data n start offset sz t s =
     do {
       (b, s1) \<leftarrow> find_or_create_block n start sz s;
       s2 \<leftarrow> fill_block n b s1;
       receive_block n b offset sz t s2
     }"

partial_function (option) receive_loop ::
    "ssize_t \<Rightarrow> off64_t \<Rightarrow> off64_t \<Rightarrow> size_t \<Rightarrow> ssize_t \<Rightarrow> io_task \<Rightarrow> ionode \<Rightarrow> (io_task \<times> ionode) option" where
  "receive_loop n start offset receive_sz remaining t s =
     (if 0 < remaining then
        Option.bind (update_block_data n start offset receive_sz t s) (\<lambda>(io_sz, t1, s1).
          let remaining1 = s64 (remaining - io_sz)
          in receive_loop n (s64 (start + io_sz + offset)) 0 (u64 (min remaining1 BLOCK_SIZE)) remaining1 t1 s1)
      else Some (t, s))"

definition add_data_sync_task :: "data_sync_task \<Rightarrow> ionode \<Rightarrow> ionode" where
  "add_data_sync_task d s = s\<lparr>io_sync_tasks := io_sync_tasks s @ [d]\<rparr>"

text \<open>The answer to a write is sent by the data synchronisation thread.\<close>

definition receive_data ::
    "int \<Rightarrow> ssize_t \<Rightarrow> off64_t \<Rightarrow> off64_t \<Rightarrow> size_t \<Rightarrow> io_task \<Rightarrow> ionode \<Rightarrow> (c_int \<times> ionode) option" where
  "receive_data h n start offset sz t s =
     (case map_find n (io_files s) of
        None \<Rightarrow> Some (FAILURE, io_send h [F_int FILE_NOT_FOUND] [] s)
      | Some _ \<Rightarrow> do {
          let receive_sz = (if u64 (offset + sz) > BLOCK_SIZE then u64 (BLOCK_SIZE - offset) else sz);
          (t1, s1) \<leftarrow> receive_loop n start offset receive_sz (s64 sz) t s;
          s2 \<leftarrow> upd_iofile n (\<lambda>f. f\<lparr>f_dirty := True\<rparr>) s1;
          Some (SUCCESS, add_data_sync_task
            \<lparr>ds_id = DATA_SYNC_WRITE, ds_file = n, ds_start = start, ds_offset = offset, ds_size = s64 sz,
             ds_receiver = get_receiver_id t1, ds_handle = h\<rparr> s2)
        })"

section \<open>Reading\<close>

type_synonym piece = "nat \<times> off64_t \<times> size_t"

fun send_bytes :: "piece list \<Rightarrow> ionode \<Rightarrow> byte list option" where
  "send_bytes [] s = Some []"
| "send_bytes ((e, offset, sz) # ps) s =
     (if 0 \<le> offset \<and> offset + sz \<le> BLOCK_SIZE
      then do { bs \<leftarrow> send_bytes ps s; Some (get_bytes (nat offset) (nat sz) (io_mem s e) @ bs) } else None)"

text \<open>The block is loaded when it has no memory and the storage holds it.\<close>

definition load_block :: "ssize_t \<Rightarrow> nat \<Rightarrow> ionode \<Rightarrow> ionode option" where
  "load_block n b s =
     do {
       s1 \<leftarrow> upd_block b (\<lambda>blk. blk\<lparr>b_file := n\<rparr>) s;
       blk \<leftarrow> deref_block b s1;
       if need_allocation blk then do {
         (_, s2) \<leftarrow> allocate_memory_for_block b s1;
         f \<leftarrow> map_find n (io_files s2);
         blk2 \<leftarrow> deref_block b s2;
         if b_exist blk2 = EXISTING \<or> b_swapout blk2 = SWAPPED_OUT then do {
           (_, s3) \<leftarrow> read_from_storage (f_path f) n b s2;
           upd_block b (\<lambda>blk. blk\<lparr>b_swapout := INBUFFER\<rparr>) s3
         } else Some s2
       } else Some s1
     }"

partial_function (option) send_loop ::
    "ssize_t \<Rightarrow> off64_t \<Rightarrow> off64_t \<Rightarrow> size_t \<Rightarrow> ssize_t \<Rightarrow> piece list \<Rightarrow> ionode \<Rightarrow> (piece list \<times> ionode) option" where
  "send_loop n start offset io_sz remaining ps s =
     (if remaining > 0 then
        Option.bind (map_find n (io_files s)) (\<lambda>f.
        case map_find start (f_blocks f) of
          None \<Rightarrow> Some (ps, s)
        | Some b \<Rightarrow>
            Option.bind (load_block n b s) (\<lambda>s1.
            Option.bind (update_access_order b False s1) (\<lambda>s2.
            Option.bind (deref_block b s2) (\<lambda>blk.
            Option.bind (b_data blk) (\<lambda>e.
              let remaining1 = s64 (remaining - io_sz)
              in send_loop n (s64 (start + BLOCK_SIZE)) 0 (u64 (min remaining1 BLOCK_SIZE)) remaining1
                   (ps @ [(e, offset, io_sz)]) s2)))))
      else Some (ps, s))"

definition send_data ::
    "int \<Rightarrow> ssize_t \<Rightarrow> off64_t \<Rightarrow> off64_t \<Rightarrow> size_t \<Rightarrow> ionode \<Rightarrow> (c_int \<times> ionode) option" where
  "send_data h n start offset sz s =
     (case map_find n (io_files s) of
        None \<Rightarrow> Some (FAILURE, io_send h [F_int FILE_NOT_FOUND] [] s)
      | Some _ \<Rightarrow> do {
          let io_sz = (if u64 (offset + sz) > BLOCK_SIZE then u64 (BLOCK_SIZE - offset) else sz);
          (ps, s1) \<leftarrow> send_loop n start offset io_sz (s64 sz) [] s;
          data \<leftarrow> send_bytes ps s1;
          Some (SUCCESS, io_send h [F_int SUCCESS] data s1)
        })"

section \<open>Replicas\<close>

definition connect_to_new_IOnode :: "ssize_t \<Rightarrow> string \<Rightarrow> ionode \<Rightarrow> ionode" where
  "connect_to_new_IOnode i uri s =
     (let h = connect_handle (io_env s) uri
      in (io_send h [F_int NEW_IONODE, F_off (io_node_id s), F_str (local_uri (io_env s))] [] s)
           \<lparr>io_handles := fst (map_insert i h (io_handles s))\<rparr>)"

definition get_IOnode_info :: "ssize_t \<Rightarrow> ssize_t \<Rightarrow> string \<Rightarrow> ionode \<Rightarrow> ionode option" where
  "get_IOnode_info n i uri s =
     (if io_node_id s \<noteq> i then
        (let s1 = (if map_find i (io_handles s) = None then connect_to_new_IOnode i uri s else s)
         in upd_iofile n (\<lambda>f. f\<lparr>f_pool := fst (map_insert i i (f_pool f))\<rparr>) s1)
      else Some s)"

fun get_replica_node_info :: "ssize_t \<Rightarrow> (ssize_t \<times> string) list \<Rightarrow> ionode \<Rightarrow> ionode option" where
  "get_replica_node_info n [] s = Some s"
| "get_replica_node_info n ((i, uri) # nodes) s =
     do { s1 \<leftarrow> get_IOnode_info n i uri s; get_replica_node_info n nodes s1 }"

definition promoted_to_primary :: "ssize_t \<Rightarrow> ssize_t \<Rightarrow> (ssize_t \<times> string) list \<Rightarrow> ionode \<Rightarrow> (c_int \<times> ionode) option" where
  "promoted_to_primary n new_node nodes s =
     (case map_find n (io_files s) of
        None \<Rightarrow> Some (FAILURE, s)
      | Some _ \<Rightarrow>
          if io_node_id s \<noteq> new_node then do {
            s1 \<leftarrow> get_replica_node_info n nodes s;
            case map_find new_node (io_handles s1) of
              None \<Rightarrow> Some (FAILURE, s1)
            | Some hdl \<Rightarrow> Some (SUCCESS, add_data_sync_task
                \<lparr>ds_id = DATA_SYNC_INIT, ds_file = n, ds_start = 0, ds_offset = 0, ds_size = -1,
                 ds_receiver = 0, ds_handle = hdl\<rparr> s1)
          } else Some (SUCCESS, s))"

text \<open>\<^verbatim>\<open>_files.at\<close> throws \<^verbatim>\<open>std::out_of_range\<close>, the handler catches \<^verbatim>\<open>std::runtime_error\<close>.\<close>

definition replace_replica :: "ssize_t \<Rightarrow> ssize_t \<Rightarrow> ssize_t \<Rightarrow> string \<Rightarrow> ionode \<Rightarrow> (c_int \<times> ionode) option" where
  "replace_replica n old_node i uri s =
     do {
       s1 \<leftarrow> upd_iofile n (\<lambda>f. f\<lparr>f_pool := map_erase old_node (f_pool f)\<rparr>) s;
       s2 \<leftarrow> get_IOnode_info n i uri s1;
       Some (SUCCESS, s2)
     }"

definition io_remove_IOnode :: "ssize_t \<Rightarrow> ionode \<Rightarrow> (c_int \<times> ionode) option" where
  "io_remove_IOnode i s =
     (case map_find i (io_handles s) of
        None \<Rightarrow> Some (SUCCESS, s)
      | Some hdl \<Rightarrow> Some (SUCCESS, s\<lparr>io_closed := io_closed s @ [hdl], io_handles := map_erase i (io_handles s)\<rparr>))"

definition register_new_IOnode :: "int \<Rightarrow> ssize_t \<Rightarrow> ionode \<Rightarrow> (c_int \<times> ionode) option" where
  "register_new_IOnode h i s =
     Some (SUCCESS, io_send h [F_int SUCCESS] [] (s\<lparr>io_handles := fst (map_insert i h (io_handles s))\<rparr>))"

fun node_of_handle :: "int \<Rightarrow> (ssize_t, int) std_map \<Rightarrow> ssize_t option" where
  "node_of_handle h [] = None"
| "node_of_handle h ((i, hdl) # m) = (if h = hdl then Some i else node_of_handle h m)"

definition io_node_failure :: "int \<Rightarrow> ionode \<Rightarrow> (c_int \<times> ionode) option" where
  "io_node_failure h s =
     (let s1 = s\<lparr>io_closed := io_closed s @ [h]\<rparr> in
      if h = io_master s1 then Some (SUCCESS, s1)
      else case node_of_handle h (io_handles s1) of
             None \<Rightarrow> Some (SUCCESS, s1)
           | Some i \<Rightarrow> Some (SUCCESS, s1\<lparr>io_handles := map_erase i (io_handles s1)\<rparr>))"

section \<open>Files\<close>

definition io_append_block :: "ssize_t \<Rightarrow> off64_t \<Rightarrow> size_t \<Rightarrow> ionode \<Rightarrow> ionode option" where
  "io_append_block n start sz s =
     do {
       (b, s1) \<leftarrow> create_new_block start sz False False n s;
       upd_iofile n (\<lambda>f. f\<lparr>f_blocks := fst (map_insert start b (f_blocks f))\<rparr>) s1
     }"

fun append_blocks :: "ssize_t \<Rightarrow> (off64_t \<times> size_t) list \<Rightarrow> ionode \<Rightarrow> ionode option" where
  "append_blocks n [] s = Some s"
| "append_blocks n ((start, sz) # bl) s = do { s1 \<leftarrow> io_append_block n start sz s; append_blocks n bl s1 }"

definition io_open_file ::
    "ssize_t \<Rightarrow> c_int \<Rightarrow> c_int \<Rightarrow> string \<Rightarrow> (off64_t \<times> size_t) list \<Rightarrow> (ssize_t \<times> string) list \<Rightarrow> ionode \<Rightarrow>
     (c_int \<times> ionode) option" where
  "io_open_file n flag exist path bl nodes s =
     (case map_find n (io_files s) of
        None \<Rightarrow> do {
          s1 \<leftarrow> append_blocks n bl (s\<lparr>io_files := fst (map_insert n (new_iofile path exist n) (io_files s))\<rparr>);
          s2 \<leftarrow> get_replica_node_info n nodes s1;
          Some (SUCCESS, s2)
        }
      | Some _ \<Rightarrow> do { s1 \<leftarrow> upd_iofile n (\<lambda>f. f\<lparr>f_close := True\<rparr>) s; Some (SUCCESS, s1) })"

definition append_new_block :: "ssize_t \<Rightarrow> (off64_t \<times> size_t) list \<Rightarrow> ionode \<Rightarrow> (c_int \<times> ionode) option" where
  "append_new_block n bl s =
     (case map_find n (io_files s) of
        None \<Rightarrow> Some (FAILURE, s)
      | Some _ \<Rightarrow> do { s1 \<leftarrow> append_blocks n bl s; Some (SUCCESS, s1) })"

definition io_close_file :: "ssize_t \<Rightarrow> ionode \<Rightarrow> (c_int \<times> ionode) option" where
  "io_close_file n s =
     (case map_find n (io_files s) of
        None \<Rightarrow> Some (SUCCESS, s)
      | Some f \<Rightarrow>
          if f_postponed f \<noteq> TO_BE_DELETED \<and> (f_read_fd f \<noteq> -1 \<or> f_write_fd f \<noteq> -1)
          then do { s1 \<leftarrow> upd_iofile n (\<lambda>f. f\<lparr>f_postponed := TO_BE_CLOSED\<rparr>) s; Some (SUCCESS, s1) }
          else Some (SUCCESS, s))"

definition io_rename :: "ssize_t \<Rightarrow> string \<Rightarrow> ionode \<Rightarrow> (c_int \<times> ionode) option" where
  "io_rename n new_path s =
     (case map_find n (io_files s) of
        None \<Rightarrow> Some (SUCCESS, s)
      | Some _ \<Rightarrow> do { s1 \<leftarrow> upd_iofile n (\<lambda>f. f\<lparr>f_path := new_path\<rparr>) s; Some (SUCCESS, s1) })"

text \<open>Flushing writes nothing back.\<close>

definition io_flush_file :: "ssize_t \<Rightarrow> ionode \<Rightarrow> (c_int \<times> ionode) option" where
  "io_flush_file n s =
     (case map_find n (io_files s) of
        None \<Rightarrow> Some (FAILURE, s)
      | Some f \<Rightarrow> if \<not> f_dirty f then Some (SUCCESS, s) else Some (SUCCESS, s))"

definition register_new_client :: "int \<Rightarrow> string \<Rightarrow> ionode \<Rightarrow> (c_int \<times> ionode) option" where
  "register_new_client h uri s = Some (SUCCESS, io_send h [F_int SUCCESS] [] s)"

definition io_close_client :: "int \<Rightarrow> ionode \<Rightarrow> (c_int \<times> ionode) option" where
  "io_close_client h s = Some (SUCCESS, s\<lparr>io_closed := io_closed s @ [h]\<rparr>)"

fun mark_deleted :: "(off64_t, nat) std_map \<Rightarrow> ionode \<Rightarrow> ionode option" where
  "mark_deleted [] s = Some s"
| "mark_deleted ((_, b) # it) s =
     do { s1 \<leftarrow> upd_block b (\<lambda>blk. blk\<lparr>b_postponed := TO_BE_DELETED\<rparr>) s; mark_deleted it s1 }"

definition io_remove_file :: "ssize_t \<Rightarrow> ionode \<Rightarrow> (c_int \<times> ionode) option" where
  "io_remove_file n s =
     (case map_find n (io_files s) of
        None \<Rightarrow> Some (SUCCESS, s)
      | Some f \<Rightarrow>
          if f_postponed f \<noteq> TO_BE_DELETED then do {
            s1 \<leftarrow> mark_deleted (f_blocks f) s;
            s2 \<leftarrow> upd_iofile n (\<lambda>f. f\<lparr>f_postponed := TO_BE_DELETED\<rparr>) s1;
            Some (SUCCESS, s2\<lparr>io_remove_list := io_remove_list s2 @ [n]\<rparr>)
          } else Some (SUCCESS, s))"

definition io_unlink :: "ssize_t \<Rightarrow> ionode \<Rightarrow> (c_int \<times> ionode) option" where
  "io_unlink n s = io_remove_file n s"

fun truncate_loop :: "ssize_t \<Rightarrow> (off64_t, nat) std_map \<Rightarrow> ionode \<Rightarrow> ionode option" where
  "truncate_loop n [] s = Some s"
| "truncate_loop n ((start, b) # it) s =
     do {
       s1 \<leftarrow> delete_block b s;
       s2 \<leftarrow> upd_iofile n (\<lambda>f. f\<lparr>f_blocks := map_erase start (f_blocks f)\<rparr>) s1;
       truncate_loop n it s2
     }"

definition io_truncate_file :: "ssize_t \<Rightarrow> off64_t \<Rightarrow> size_t \<Rightarrow> ionode \<Rightarrow> (c_int \<times> ionode) option" where
  "io_truncate_file n start avaliable_sz s =
     do {
       f \<leftarrow> map_find n (io_files s);
       b \<leftarrow> map_find start (f_blocks f);
       s1 \<leftarrow> upd_block b (\<lambda>blk. blk\<lparr>b_data_size := avaliable_sz\<rparr>) s;
       s2 \<leftarrow> truncate_loop n (lower_bound (start + 1) (f_blocks f)) s1;
       Some (SUCCESS, s2)
     }"

section \<open>The write back thread and the work between requests\<close>

fun writeback_all :: "nat list \<Rightarrow> ionode \<Rightarrow> ionode option" where
  "writeback_all [] s = Some s"
| "writeback_all (b # bs) s = do { (_, s1) \<leftarrow> writeback b s; writeback_all bs s1 }"

definition remote_task_handler :: "c_int \<Rightarrow> ionode \<Rightarrow> ionode option" where
  "remote_task_handler task s =
     do {
       let s1 = s\<lparr>io_writeback_status := ON_GOING\<rparr>;
       s2 \<leftarrow> (if task = CBB_REMOTE_WRITE_BACK then writeback_all (io_writeback_queue s1) s1 else Some s1);
       Some (s2\<lparr>io_writeback_status := IDLE\<rparr>)
     }"

text \<open>\<open>async\<close>: the build defines \<^verbatim>\<open>ASYNC\<close>.\<close>

definition add_write_back :: "bool \<Rightarrow> ionode \<Rightarrow> ionode option" where
  "add_write_back async s =
     (if io_writeback_status s = IDLE \<and> async then do {
        (_, q) \<leftarrow> check_writeback_page (\<lambda>b. need_writeback b s)
                    (\<lambda>b. case deref_block b s of None \<Rightarrow> None | Some blk \<Rightarrow> b_page blk) (io_writeback_queue s) (io_queue s);
        let s1 = s\<lparr>io_queue := q\<rparr>;
        (wq, cnt) \<leftarrow> prepare_writeback_page (\<lambda>b. need_writeback b s1) 2 (io_queue s1);
        let s2 = s1\<lparr>io_writeback_queue := wq\<rparr>;
        Some (if cnt \<noteq> 0 then s2\<lparr>io_remote_tasks := io_remote_tasks s2 @ [CBB_REMOTE_WRITE_BACK]\<rparr> else s2)
      } else Some s)"

text \<open>Erasing a file runs its destructor, which deletes the blocks.\<close>

fun remove_files_loop :: "ssize_t list \<Rightarrow> ionode \<Rightarrow> ionode option" where
  "remove_files_loop [] s = Some s"
| "remove_files_loop (n # ns) s =
     do {
       s1 \<leftarrow> close_remote_file n DELETE_FILE s;
       f \<leftarrow> map_find n (io_files s1);
       s2 \<leftarrow> delete_blocks (f_blocks f) s1;
       remove_files_loop ns (s2\<lparr>io_files := map_erase n (io_files s2)\<rparr>)
     }"

definition remove_files :: "ionode \<Rightarrow> ionode option" where
  "remove_files s =
     (if io_writeback_status s = IDLE \<and> io_remove_list s \<noteq> [] then do {
        s1 \<leftarrow> remove_files_loop (io_remove_list s) s;
        Some (s1\<lparr>io_remove_list := []\<rparr>)
      } else Some s)"

definition interval_process :: "bool \<Rightarrow> ionode \<Rightarrow> ionode option" where
  "interval_process async s = do { s1 \<leftarrow> remove_files s; add_write_back async s1 }"

section \<open>The data synchronisation thread\<close>

fun sync_pieces :: "(off64_t, nat) std_map \<Rightarrow> ssize_t \<Rightarrow> ssize_t \<Rightarrow> piece list \<Rightarrow> ionode \<Rightarrow> (ssize_t \<times> piece list) option" where
  "sync_pieces [] sz ret ps s = Some (ret, ps)"
| "sync_pieces ((_, b) # it) sz ret ps s =
     (if 0 < sz then do {
        blk \<leftarrow> deref_block b s;
        e \<leftarrow> b_data blk;
        sync_pieces it (s64 (sz - b_data_size blk)) (s64 (ret + b_data_size blk)) (ps @ [(e, 0, b_data_size blk)]) s
      } else Some (ret, ps))"

definition send_sync_data :: "int \<Rightarrow> ssize_t \<Rightarrow> off64_t \<Rightarrow> off64_t \<Rightarrow> ssize_t \<Rightarrow> ionode \<Rightarrow> ionode option" where
  "send_sync_data hdl n start offset sz s =
     do {
       f \<leftarrow> map_find n (io_files s);
       let it = (if map_find start (f_blocks f) = None then [] else lower_bound start (f_blocks f));
       (ret_sz, ps) \<leftarrow> sync_pieces it sz 0 [] s;
       data \<leftarrow> send_bytes ps s;
       Some (io_send hdl [F_int DATA_SYNC, F_off (f_no f), F_off start, F_off offset, F_off ret_sz] data s)
     }"

fun send_sync_all :: "(ssize_t, ssize_t) std_map \<Rightarrow> ssize_t \<Rightarrow> off64_t \<Rightarrow> off64_t \<Rightarrow> ssize_t \<Rightarrow> ionode \<Rightarrow> ionode option" where
  "send_sync_all [] n start offset sz s = Some s"
| "send_sync_all ((_, p) # it) n start offset sz s =
     do {
       hdl \<leftarrow> map_find p (io_handles s);
       s1 \<leftarrow> send_sync_data hdl n start offset sz s;
       send_sync_all it n start offset sz s1
     }"

text \<open>The replicas are sent the blocks before the client is answered (\<^verbatim>\<open>STRICT_SYNC_DATA\<close>).\<close>

definition sync_write_data :: "data_sync_task \<Rightarrow> ionode \<Rightarrow> ionode option" where
  "sync_write_data d s =
     do {
       f \<leftarrow> map_find (ds_file d) (io_files s);
       s1 \<leftarrow> send_sync_all (f_pool f) (ds_file d) (ds_start d) (ds_offset d) (ds_size d) s;
       Some (io_send (ds_handle d) [F_int SUCCESS] [] s1)
     }"

definition sync_init_data :: "data_sync_task \<Rightarrow> ionode \<Rightarrow> ionode option" where
  "sync_init_data d s =
     do {
       f \<leftarrow> map_find (ds_file d) (io_files s);
       if f_dirty f then send_sync_data (ds_handle d) (ds_file d) 0 0 (BLOCK_SIZE * 1000) s else Some s
     }"

definition data_sync_parser :: "data_sync_task \<Rightarrow> ionode \<Rightarrow> ionode option" where
  "data_sync_parser d s =
     (if ds_id d = DATA_SYNC_WRITE then sync_write_data d s
      else if ds_id d = DATA_SYNC_INIT then sync_init_data d s else Some s)"

text \<open>The receiving side; the message carries the offset but the blocks are written from their start.\<close>

partial_function (option) sync_receive_loop ::
    "ssize_t \<Rightarrow> off64_t \<Rightarrow> ssize_t \<Rightarrow> io_task \<Rightarrow> ionode \<Rightarrow> (io_task \<times> ionode) option" where
  "sync_receive_loop n start sz t s =
     (if sz \<noteq> 0 then
        (let io_sz = min sz BLOCK_SIZE in
         Option.bind (update_block_data n start 0 (u64 io_sz) t s) (\<lambda>(r, t1, s1).
           sync_receive_loop n (s64 (start + io_sz)) (s64 (sz - r)) t1 s1))
      else Some (t, s))"

definition get_sync_data :: "int \<Rightarrow> ssize_t \<Rightarrow> off64_t \<Rightarrow> off64_t \<Rightarrow> ssize_t \<Rightarrow> io_task \<Rightarrow> ionode \<Rightarrow> (c_int \<times> ionode) option" where
  "get_sync_data h n start offset sz t s =
     (case map_find n (io_files s) of
        None \<Rightarrow> Some (FAILURE, io_send h [F_int FILE_NOT_FOUND] [] s)
      | Some _ \<Rightarrow> do {
          (_, s1) \<leftarrow> sync_receive_loop n start sz t s;
          Some (SUCCESS, io_send h [F_int SUCCESS] [] s1)
        })"

section \<open>Dispatch\<close>

datatype io_request =
    IO_new_client string
  | IO_read ssize_t off64_t off64_t size_t
  | IO_write ssize_t off64_t off64_t size_t
  | IO_open ssize_t c_int c_int string "(off64_t \<times> size_t) list" c_int "(ssize_t \<times> string) list"
  | IO_append ssize_t "(off64_t \<times> size_t) list"
  | IO_rename ssize_t string
  | IO_flush ssize_t
  | IO_close ssize_t
  | IO_close_client
  | IO_truncate ssize_t off64_t size_t
  | IO_unlink ssize_t
  | IO_heart_beat c_int
  | IO_node_failure
  | IO_data_sync ssize_t off64_t off64_t ssize_t
  | IO_new_IOnode ssize_t
  | IO_promoted ssize_t ssize_t c_int "(ssize_t \<times> string) list"
  | IO_replace ssize_t ssize_t ssize_t string
  | IO_remove_IOnode ssize_t
  | IO_unknown c_int

fun handle_io_request :: "int \<Rightarrow> io_task \<Rightarrow> io_request \<Rightarrow> ionode \<Rightarrow> (c_int \<times> ionode) option" where
  "handle_io_request h t (IO_new_client uri) s = register_new_client h uri s"
| "handle_io_request h t (IO_read n start offset sz) s = send_data h n start offset sz s"
| "handle_io_request h t (IO_write n start offset sz) s = receive_data h n start offset sz t s"
| "handle_io_request h t (IO_open n flag exist path bl mf nodes) s = io_open_file n flag exist path bl nodes s"
| "handle_io_request h t (IO_append n bl) s = append_new_block n bl s"
| "handle_io_request h t (IO_rename n path) s = io_rename n path s"
| "handle_io_request h t (IO_flush n) s = io_flush_file n s"
| "handle_io_request h t (IO_close n) s = io_close_file n s"
| "handle_io_request h t IO_close_client s = io_close_client h s"
| "handle_io_request h t (IO_truncate n start sz) s = io_truncate_file n start sz s"
| "handle_io_request h t (IO_unlink n) s = io_unlink n s"
| "handle_io_request h t (IO_heart_beat r) s = Some (r, s)"
| "handle_io_request h t IO_node_failure s = io_node_failure h s"
| "handle_io_request h t (IO_data_sync n start offset sz) s = get_sync_data h n start offset sz t s"
| "handle_io_request h t (IO_new_IOnode i) s = register_new_IOnode h i s"
| "handle_io_request h t (IO_promoted n i mf nodes) s = promoted_to_primary n i nodes s"
| "handle_io_request h t (IO_replace n old i uri) s = replace_replica n old i uri s"
| "handle_io_request h t (IO_remove_IOnode i) s = io_remove_IOnode i s"
| "handle_io_request h t (IO_unknown c) s = Some (SUCCESS, s)"

fun pop_blocks :: "nat \<Rightarrow> field list \<Rightarrow> ((off64_t \<times> size_t) list \<times> field list) option" where
  "pop_blocks 0 fs = Some ([], fs)"
| "pop_blocks (Suc k) fs =
     (case fs of
        F_off start # F_size sz # rest \<Rightarrow> do { (bl, r) \<leftarrow> pop_blocks k rest; Some ((start, sz) # bl, r) }
      | _ \<Rightarrow> None)"

fun pop_nodes :: "nat \<Rightarrow> field list \<Rightarrow> ((ssize_t \<times> string) list \<times> field list) option" where
  "pop_nodes 0 fs = Some ([], fs)"
| "pop_nodes (Suc k) fs =
     (case fs of
        F_off i # F_str uri # rest \<Rightarrow> do { (ns, r) \<leftarrow> pop_nodes k rest; Some ((i, uri) # ns, r) }
      | _ \<Rightarrow> None)"

text \<open>The values each handler pops, in their order and with their types; anything else is None.\<close>

definition decode_io_request :: "field list \<Rightarrow> io_request option" where
  "decode_io_request msg =
     (case msg of
        F_int request # args \<Rightarrow>
          if request = NEW_CLIENT then (case args of [F_str uri] \<Rightarrow> Some (IO_new_client uri) | _ \<Rightarrow> None)
          else if request = READ_FILE then
            (case args of [F_off n, F_off st, F_off off, F_size sz] \<Rightarrow> Some (IO_read n st off sz) | _ \<Rightarrow> None)
          else if request = WRITE_FILE then
            (case args of [F_off n, F_off st, F_off off, F_size sz] \<Rightarrow> Some (IO_write n st off sz) | _ \<Rightarrow> None)
          else if request = OPEN_FILE then
            (case args of
               F_off n # F_int flag # F_int exist # F_str path # F_int cnt # rest \<Rightarrow> do {
                 (bl, r) \<leftarrow> pop_blocks (nat cnt) rest;
                 case r of
                   F_int mf # F_int k # r2 \<Rightarrow> do {
                     (nodes, r3) \<leftarrow> pop_nodes (nat k) r2;
                     if r3 = [] then Some (IO_open n flag exist path bl mf nodes) else None
                   }
                 | _ \<Rightarrow> None
               }
             | _ \<Rightarrow> None)
          else if request = APPEND_BLOCK then
            (case args of
               F_off n # F_int cnt # rest \<Rightarrow> do {
                 (bl, r) \<leftarrow> pop_blocks (nat cnt) rest;
                 if r = [] then Some (IO_append n bl) else None
               }
             | _ \<Rightarrow> None)
          else if request = RENAME then (case args of [F_off n, F_str p] \<Rightarrow> Some (IO_rename n p) | _ \<Rightarrow> None)
          else if request = FLUSH_FILE then (case args of [F_off n] \<Rightarrow> Some (IO_flush n) | _ \<Rightarrow> None)
          else if request = CLOSE_FILE then (case args of [F_off n] \<Rightarrow> Some (IO_close n) | _ \<Rightarrow> None)
          else if request = CLOSE_CLIENT then (case args of [] \<Rightarrow> Some IO_close_client | _ \<Rightarrow> None)
          else if request = TRUNCATE then
            (case args of [F_off n, F_off st, F_off sz] \<Rightarrow> Some (IO_truncate n st (u64 sz)) | _ \<Rightarrow> None)
          else if request = UNLINK then (case args of [F_off n] \<Rightarrow> Some (IO_unlink n) | _ \<Rightarrow> None)
          else if request = HEART_BEAT then (case args of [F_int r] \<Rightarrow> Some (IO_heart_beat r) | _ \<Rightarrow> None)
          else if request = NODE_FAILURE then (case args of [] \<Rightarrow> Some IO_node_failure | _ \<Rightarrow> None)
          else if request = DATA_SYNC then
            (case args of [F_off n, F_off st, F_off off, F_off sz] \<Rightarrow> Some (IO_data_sync n st off sz) | _ \<Rightarrow> None)
          else if request = NEW_IONODE then (case args of F_off i # _ \<Rightarrow> Some (IO_new_IOnode i) | _ \<Rightarrow> None)
          else if request = PROMOTED_TO_PRIMARY_REPLICA then
            (case args of
               F_off n # F_off i # F_int mf # F_int k # rest \<Rightarrow> do {
                 (nodes, r) \<leftarrow> pop_nodes (nat k) rest;
                 if r = [] then Some (IO_promoted n i mf nodes) else None
               }
             | _ \<Rightarrow> None)
          else if request = REPLACE_REPLICA then
            (case args of
               [F_off n, F_off old, F_off i, F_str uri] \<Rightarrow> Some (IO_replace n old i uri) | _ \<Rightarrow> None)
          else if request = REMOVE_IONODE then (case args of [F_off i] \<Rightarrow> Some (IO_remove_IOnode i) | _ \<Rightarrow> None)
          else Some (IO_unknown request)
      | _ \<Rightarrow> None)"

definition parse_io_request :: "int \<Rightarrow> io_task \<Rightarrow> field list \<Rightarrow> ionode \<Rightarrow> (c_int \<times> ionode) option" where
  "parse_io_request h t msg s =
     do { rq \<leftarrow> decode_io_request msg; (_, s1) \<leftarrow> handle_io_request h t rq s; Some (SUCCESS, s1) }"

section \<open>Start\<close>

text \<open>\<^verbatim>\<open>Connect\<close> appends the uri of the sender to the first message of a connection.\<close>

definition ionode_init :: "size_t \<Rightarrow> string \<Rightarrow> storage_env \<Rightarrow> (string \<Rightarrow> byte list option) \<Rightarrow> (nat \<Rightarrow> nat \<Rightarrow> byte) \<Rightarrow> ionode" where
  "ionode_init total_memory mnt env disk mem =
     \<lparr>io_node_id = -1, io_files = [], io_blocks = (\<lambda>_. None), io_fresh = 0, io_queue = access_queue_new,
      io_pool = pool_setup BLOCK_SIZE (s32 (total_memory div BLOCK_SIZE)) 100 memory_pool_init, io_mem = mem,
      io_disk = disk, io_fds = [], io_fd_fresh = 3, io_calls = 0, io_env = env, io_mount = mnt, io_master = 0,
      io_handles = [], io_writeback_queue = [], io_writeback_status = IDLE, io_remote_tasks = [],
      io_remove_list = [], io_open_count = 0, io_sync_tasks = [], io_sent = [], io_closed = []\<rparr>"

definition ionode_register :: "int \<Rightarrow> ssize_t \<Rightarrow> ionode \<Rightarrow> ionode" where
  "ionode_register master i s =
     (io_send master [F_int REGISTER, F_size (get_available_memory_size (io_pool s)), F_str (local_uri (io_env s))] [] s)
       \<lparr>io_node_id := i, io_master := master\<rparr>"

end
