(* ===== verification/IOnode_Cache.thy ===== *)
theory IOnode_Cache
  imports IOnode_Handlers
begin

text \<open>
  The block cache refines files of bytes. \<open>view\<close> keeps of the state what decides the
  contents of files: the blocks, where they are in their files, the memory, the pool and the
  storage. \<open>content\<close> is the byte at an offset of a file, wherever it is kept. The lemmas of
  this theory give the effect of each internal operation on the view, show that write back,
  eviction and loading leave every content as it is, and that a write changes the bytes
  written and nothing else.
\<close>

section \<open>The view\<close>

record cview =
  v_blocks :: "nat \<Rightarrow> block option"
  v_at :: "ssize_t \<Rightarrow> off64_t \<Rightarrow> nat option"
  v_path :: "ssize_t \<Rightarrow> string option"
  v_del :: "ssize_t \<Rightarrow> bool"
  v_exist :: "ssize_t \<Rightarrow> bool"
  v_mem :: "nat \<Rightarrow> nat \<Rightarrow> byte"
  v_disk :: "string \<Rightarrow> byte list option"
  v_pool :: memory_pool

definition blk_at :: "ionode \<Rightarrow> ssize_t \<Rightarrow> off64_t \<Rightarrow> nat option" where
  "blk_at s n start = (case map_find n (io_files s) of None \<Rightarrow> None | Some f \<Rightarrow> map_find start (f_blocks f))"

definition path_of :: "ionode \<Rightarrow> ssize_t \<Rightarrow> string option" where
  "path_of s n = (case map_find n (io_files s) of None \<Rightarrow> None | Some f \<Rightarrow> Some (io_mount s @ f_path f))"

definition deleted :: "ionode \<Rightarrow> ssize_t \<Rightarrow> bool" where
  "deleted s n \<longleftrightarrow> (case map_find n (io_files s) of None \<Rightarrow> False | Some f \<Rightarrow> f_postponed f = TO_BE_DELETED)"

definition existing :: "ionode \<Rightarrow> ssize_t \<Rightarrow> bool" where
  "existing s n \<longleftrightarrow> (case map_find n (io_files s) of None \<Rightarrow> False | Some f \<Rightarrow> f_exist f = EXISTING)"

definition view :: "ionode \<Rightarrow> cview" where
  "view s = \<lparr>v_blocks = io_blocks s, v_at = blk_at s, v_path = path_of s, v_del = deleted s,
     v_exist = existing s, v_mem = io_mem s, v_disk = io_disk s, v_pool = io_pool s\<rparr>"

definition env_ok :: "storage_env \<Rightarrow> bool" where
  "env_ok env \<longleftrightarrow> (\<forall>p. opendir_errno env p = 0) \<and> (\<forall>p. open_ok env p) \<and>
     (\<forall>k. \<exists>m\<ge>block_bytes. io_call env k = Io_done m) \<and> malloc_call env = malloc_ok"

text \<open>Between two operations no file of the storage is open; the files have no replicas (\<^verbatim>\<open>NUM_OF_REPLICA\<close> is 0).\<close>

definition quiet :: "ionode \<Rightarrow> bool" where
  "quiet s \<longleftrightarrow> env_ok (io_env s) \<and> io_fds s = [] \<and> io_open_count s = 0 \<and> 0 \<le> io_fd_fresh s \<and> map_inv (io_files s) \<and>
     (\<forall>n f. map_find n (io_files s) = Some f \<longrightarrow> map_inv (f_blocks f) \<and> f_read_fd f = -1 \<and> f_write_fd f = -1 \<and> f_pool f = []) \<and>
     (\<forall>b\<ge>io_fresh s. io_blocks s b = None)"

text \<open>The part of it that says nothing of the read and write calls: no file of the storage is open, and every file can be.\<close>

definition storage_idle :: "ionode \<Rightarrow> bool" where
  "storage_idle s \<longleftrightarrow> (\<forall>p. opendir_errno (io_env s) p = 0) \<and> (\<forall>p. open_ok (io_env s) p) \<and> io_fds s = [] \<and>
     io_open_count s = 0 \<and> 0 \<le> io_fd_fresh s \<and> map_inv (io_files s) \<and>
     (\<forall>n f. map_find n (io_files s) = Some f \<longrightarrow> f_read_fd f = -1 \<and> f_write_fd f = -1)"

lemma quiet_idle: "quiet s \<Longrightarrow> storage_idle s"
  by (simp add: quiet_def storage_idle_def env_ok_def)

lemmas file_views = view_def blk_at_def path_of_def deleted_def existing_def

lemma map_set_set [simp]: "map_inv m \<Longrightarrow> map_set k v (map_set k v' m) = map_set k v m"
  by (induction k v' m rule: map_set.induct) auto

lemma map_set_same [simp]: "map_inv m \<Longrightarrow> map_find k m = Some v \<Longrightarrow> map_set k v m = m"
  by (induction k v m rule: map_set.induct) (auto split: if_splits dest!: map_find_Some_key)

section \<open>The storage calls\<close>

lemma open_remote_ok:
  assumes "storage_idle s" "map_find n (io_files s) = Some f" "mode = READ_FILE \<and> io_disk s rp \<noteq> None \<or> mode = WRITE_FILE"
  shows "open_remote_file n rp mode s = Some (io_fd_fresh s, s\<lparr>io_open_count := 1,
      io_disk := (io_disk s)(rp \<mapsto> file_content rp s), io_fds := [(io_fd_fresh s, rp, 0)], io_fd_fresh := io_fd_fresh s + 1,
      io_files := map_set n (if mode = READ_FILE then f\<lparr>f_read_fd := io_fd_fresh s\<rparr> else f\<lparr>f_write_fd := io_fd_fresh s\<rparr>) (io_files s)\<rparr>)"
proof -
  have "f_read_fd f = -1" "f_write_fd f = -1" using assms(1,2) by (auto simp: storage_idle_def)
  moreover have "0 \<le> io_fd_fresh s" "check_directory rp (s\<lparr>io_open_count := 1\<rparr>) = 0" "open_ok (io_env s) rp"
    "io_fds s = []" "io_open_count s = 0"
    using assms(1) by (auto simp: storage_idle_def check_directory_def)
  ultimately show ?thesis
    using assms(2,3) by (cases "mode = READ_FILE")
      (simp_all add: open_remote_file_def open_too_many_files_def open64_def upd_iofile_def)
qed

text \<open>A closed file with the fields the view shows unchanged.\<close>

definition same_file :: "iofile \<Rightarrow> iofile \<Rightarrow> bool" where
  "same_file f g \<longleftrightarrow> f_path g = f_path f \<and> f_exist g = f_exist f \<and> f_postponed g = f_postponed f \<and>
     f_blocks g = f_blocks f \<and> f_read_fd g = -1 \<and> f_write_fd g = -1 \<and> f_pool g = f_pool f"

lemma close_remote_ok:
  assumes f: "map_find n (io_files s) = Some f" "map_inv (io_files s)" "io_fds s = [(fd, x)]" "io_open_count s = 1"
    "fd \<noteq> -1" and fd: "f_read_fd f = fd \<and> f_write_fd f = -1 \<or> f_read_fd f = -1 \<and> f_write_fd f = fd"
  shows "\<exists>g. close_remote_file n mode s = Some (s\<lparr>io_fds := [], io_open_count := 0, io_files := map_set n g (io_files s)\<rparr>) \<and>
    same_file f g"
proof (cases "mode = WRITE_FILE"; cases "f_read_fd f = fd")
  assume "mode = WRITE_FILE" "f_read_fd f = fd"
  with assms show ?thesis
    by (intro exI [of _ "f\<lparr>f_dirty_pages := f_dirty_pages f - 1, f_read_fd := -1\<rparr>"])
      (simp add: close_remote_file_def upd_iofile_def close_fd_def same_file_def)
next
  assume "mode = WRITE_FILE" "f_read_fd f \<noteq> fd"
  with assms show ?thesis
    by (intro exI [of _ "f\<lparr>f_dirty_pages := f_dirty_pages f - 1, f_write_fd := -1\<rparr>"])
      (simp add: close_remote_file_def upd_iofile_def close_fd_def same_file_def)
next
  assume "mode \<noteq> WRITE_FILE" "f_read_fd f = fd"
  with assms show ?thesis
    by (intro exI [of _ "f\<lparr>f_read_fd := -1\<rparr>"])
      (simp add: close_remote_file_def upd_iofile_def close_fd_def same_file_def)
next
  assume "mode \<noteq> WRITE_FILE" "f_read_fd f \<noteq> fd"
  with assms show ?thesis
    by (intro exI [of _ "f\<lparr>f_write_fd := -1\<rparr>"])
      (simp add: close_remote_file_def upd_iofile_def close_fd_def same_file_def)
qed

lemma io_call_full: "env_ok env \<Longrightarrow> \<exists>m\<ge>block_bytes. io_call env k = Io_done m"
  by (simp add: env_ok_def)

lemma write_loop_ok:
  assumes "env_ok (io_env s)" "io_fds s = [(fd, rp, pos)]" "len \<le> block_bytes"
  shows "\<exists>k p. write_loop fd e 0 len s = Some (0, if len = 0 then s else s\<lparr>io_calls := k, io_fds := [(fd, rp, p)],
      io_disk := (io_disk s)(rp \<mapsto> write_at pos (get_bytes 0 len (io_mem s e)) (file_content rp s))\<rparr>)"
proof (cases "len = 0")
  case True
  then show ?thesis by (subst write_loop.simps) simp
next
  case False
  from io_call_full [OF assms(1)] obtain m where m: "block_bytes \<le> m" "io_call (io_env s) (io_calls s) = Io_done m" by blast
  then have "min m len = len" using assms(3) by simp
  then have "write_call fd e 0 len s = Some (int len, 0, s\<lparr>io_calls := io_calls s + 1,
      io_disk := (io_disk s)(rp \<mapsto> write_at pos (get_bytes 0 len (io_mem s e)) (file_content rp s)),
      io_fds := [(fd, rp, pos + len)]\<rparr>)"
    using assms m False by (simp add: write_call_def Let_def)
  moreover have "write_loop fd e base 0 s' = Some (0, s')" for base s' by (subst write_loop.simps) simp
  ultimately have "write_loop fd e 0 len s = Some (0, s\<lparr>io_calls := io_calls s + 1,
      io_disk := (io_disk s)(rp \<mapsto> write_at pos (get_bytes 0 len (io_mem s e)) (file_content rp s)), io_fds := [(fd, rp, pos + len)]\<rparr>)"
    using False by (subst write_loop.simps) simp
  then show ?thesis using False by (intro exI [of _ "io_calls s + 1"] exI [of _ "pos + len"]) simp
qed

lemma put_bytes_Nil [simp]: "put_bytes off [] f = f"
  by (rule ext) (auto simp: put_bytes_def)

lemma read_loop_step:
  "readv_call fd e base len s = Some (int k, err, s1) \<Longrightarrow> len \<noteq> 0 \<Longrightarrow> k \<noteq> 0 \<Longrightarrow>
     read_loop fd e base len s = read_loop fd e k (len - k) s1"
  by (subst read_loop.simps) simp

text \<open>A read stops at the end of the file.\<close>

lemma read_loop_ok:
  assumes "env_ok (io_env s)" "io_fds s = [(fd, rp, pos)]" "len \<le> block_bytes" "io_disk s rp = Some c" "len \<noteq> 0"
  shows "\<exists>k p. read_loop fd e 0 len s = Some (len - length (take len (drop pos c)), s\<lparr>io_calls := k, io_fds := [(fd, rp, p)],
      io_mem := (io_mem s)(e := put_bytes 0 (take len (drop pos c)) (io_mem s e))\<rparr>)"
proof -
  let ?n = "length (take len (drop pos c))"
  define s1 where "s1 = s\<lparr>io_calls := io_calls s + 1, io_mem := (io_mem s)(e := put_bytes 0 (take len (drop pos c)) (io_mem s e)),
      io_fds := [(fd, rp, pos + ?n)]\<rparr>"
  from io_call_full [OF assms(1)] obtain m where m: "block_bytes \<le> m" "io_call (io_env s) (io_calls s) = Io_done m" by blast
  have n: "min m (min len (length c - pos)) = ?n" "take ?n (drop pos c) = take len (drop pos c)" using assms(3) m(1) by (auto simp: min_def)
  have call: "readv_call fd e 0 len s = Some (int ?n, 0, s1)"
    using assms m(2) n by (simp add: readv_call_def Let_def s1_def)
  consider "?n = 0" | "?n = len" | "0 < ?n" "?n < len" by fastforce
  then show ?thesis
  proof cases
    case 1
    then have "read_loop fd e 0 len s = Some (len, s1)" using call assms(5) by (subst read_loop.simps) simp
    then show ?thesis using 1 by (intro exI [of _ "io_calls s + 1"] exI [of _ "pos + ?n"]) (simp add: s1_def)
  next
    case 2
    have "read_loop fd e base 0 s' = Some (0, s')" for base s' by (subst read_loop.simps) simp
    then have "read_loop fd e 0 len s = Some (0, s1)" using call assms(5) unfolding 2 by (subst read_loop.simps) simp
    then show ?thesis using 2 by (intro exI [of _ "io_calls s + 1"] exI [of _ "pos + ?n"]) (simp add: s1_def)
  next
    case 3
    then have end_c: "length c - (pos + ?n) = 0" by auto
    from io_call_full [OF assms(1)] obtain m' where m': "io_call (io_env s) (io_calls s + 1) = Io_done m'" by blast
    have "?n \<le> block_bytes" using assms(3) by simp
    then have "readv_call fd e ?n (len - ?n) s1 = Some (0, 0, s1\<lparr>io_calls := io_calls s + 2\<rparr>)"
      using m' end_c assms(4) by (simp add: readv_call_def Let_def s1_def)
    then have "read_loop fd e ?n (len - ?n) s1 = Some (len - ?n, s1\<lparr>io_calls := io_calls s + 2\<rparr>)"
      using 3 by (subst read_loop.simps) simp
    then have "read_loop fd e 0 len s = Some (len - ?n, s1\<lparr>io_calls := io_calls s + 2\<rparr>)"
      using read_loop_step [OF call assms(5)] 3 by simp
    then show ?thesis by (intro exI [of _ "io_calls s + 2"] exI [of _ "pos + ?n"]) (simp add: s1_def)
  qed
qed

text \<open>The state after a visit to the storage that closed the file again.\<close>

definition visited :: "ssize_t \<Rightarrow> iofile \<Rightarrow> int \<Rightarrow> nat \<Rightarrow> ionode \<Rightarrow> ionode" where
  "visited n g fd k s = s\<lparr>io_fds := [], io_open_count := 0, io_fd_fresh := fd, io_calls := k,
     io_files := map_set n g (io_files s)\<rparr>"

lemma visited_simps [simp]:
  "io_blocks (visited n g fd k s) = io_blocks s" "io_mem (visited n g fd k s) = io_mem s"
  "io_disk (visited n g fd k s) = io_disk s" "io_pool (visited n g fd k s) = io_pool s"
  "io_queue (visited n g fd k s) = io_queue s" "io_env (visited n g fd k s) = io_env s"
  "io_fresh (visited n g fd k s) = io_fresh s" "io_mount (visited n g fd k s) = io_mount s"
  "io_sync_tasks (visited n g fd k s) = io_sync_tasks s"
  "io_files (visited n g fd k s) = map_set n g (io_files s)" "io_fds (visited n g fd k s) = []"
  "io_open_count (visited n g fd k s) = 0" "io_fd_fresh (visited n g fd k s) = fd"
  by (simp_all add: visited_def)

lemma visited_view:
  assumes "map_find n (io_files s) = Some f" "same_file f g"
  shows "view (visited n g fd k s) = view s"
  using assms by (auto simp: fun_eq_iff file_views same_file_def split: option.splits)

lemma visited_quiet:
  assumes "quiet s" "map_find n (io_files s) = Some f" "same_file f g" "0 \<le> fd"
  shows "quiet (visited n g fd k s)"
  using assms by (auto simp: quiet_def same_file_def)

text \<open>The file content after the block \<open>blk\<close> with the memory \<open>m\<close> was written back.\<close>

definition flushed :: "block \<Rightarrow> (nat \<Rightarrow> byte) \<Rightarrow> byte list \<Rightarrow> byte list" where
  "flushed blk m c = (if b_postponed blk = TO_BE_DELETED \<or> b_data_size blk = 0 then c
     else write_at (nat (b_start blk)) (get_bytes 0 (nat (b_data_size blk)) m) c)"

definition block_shape :: "block \<Rightarrow> bool" where
  "block_shape blk \<longleftrightarrow> 0 \<le> b_data_size blk \<and> b_data_size blk \<le> BLOCK_SIZE \<and> 0 \<le> b_start blk \<and> BLOCK_SIZE dvd b_start blk \<and>
     \<not> b_writing blk \<and> \<not> b_receiving blk"

lemma write_to_storage_ok:
  assumes q: "quiet s" and b: "io_blocks s b = Some blk" "block_shape blk" "b_data blk = Some e"
    and f: "map_find (b_file blk) (io_files s) = Some f" and rp: "rp = io_mount s @ f_path f"
  shows "\<exists>r g fd k. write_to_storage b s = Some (r, visited (b_file blk) g fd k (s\<lparr>io_blocks := (io_blocks s)(b \<mapsto> blk\<lparr>b_dirty := False\<rparr>),
      io_disk := (io_disk s)(rp \<mapsto> flushed blk (io_mem s e) (file_content rp s))\<rparr>)) \<and> same_file f g \<and> 0 \<le> fd"
proof -
  let ?n = "b_file blk" and ?c = "file_content rp s"
  let ?s1 = "s\<lparr>io_blocks := (io_blocks s)(b \<mapsto> blk\<lparr>b_dirty := False\<rparr>)\<rparr>"
  let ?f2 = "f\<lparr>f_write_fd := io_fd_fresh s\<rparr>"
  let ?s2 = "?s1\<lparr>io_open_count := 1, io_disk := (io_disk s)(rp \<mapsto> ?c), io_fds := [(io_fd_fresh s, rp, 0)],
    io_fd_fresh := io_fd_fresh s + 1, io_files := map_set ?n ?f2 (io_files s)\<rparr>"
  have q1: "quiet ?s1" using q b(1) by (auto simp: quiet_def)
  have op: "open_remote_file ?n rp WRITE_FILE ?s1 = Some (io_fd_fresh s, ?s2)"
    using open_remote_ok [OF quiet_idle [OF q1], of ?n f WRITE_FILE rp] f by simp
  have inv: "map_inv (io_files s)" "0 \<le> io_fd_fresh s" "env_ok (io_env s)" "f_read_fd f = -1"
    using q f by (auto simp: quiet_def)
  have fd: "io_fd_fresh s \<noteq> -1" using inv(2) by simp
  note shape = b(2) [unfolded block_shape_def]
  show ?thesis
  proof (cases "b_postponed blk = TO_BE_DELETED")
    case True
    have "map_find ?n (io_files ?s2) = Some ?f2" "map_inv (io_files ?s2)" using inv by simp_all
    from close_remote_ok [OF this, of "io_fd_fresh s" "(rp, 0)" DELETE_FILE] fd inv(4) obtain g where
      g: "close_remote_file ?n DELETE_FILE ?s2 = Some (?s2\<lparr>io_fds := [], io_open_count := 0, io_files := map_set ?n g (map_set ?n ?f2 (io_files s))\<rparr>)"
        "same_file ?f2 g" by auto
    have "write_to_storage b s = Some (0, visited ?n g (io_fd_fresh s + 1) (io_calls s)
        (s\<lparr>io_blocks := (io_blocks s)(b \<mapsto> blk\<lparr>b_dirty := False\<rparr>), io_disk := (io_disk s)(rp \<mapsto> flushed blk (io_mem s e) ?c)\<rparr>))"
      using b(1) shape f op g(1) True inv(1)
      by (simp add: write_to_storage_def deref_block_def upd_block_def io_real_path_def rp visited_def flushed_def)
    moreover have "same_file f g" "0 \<le> io_fd_fresh s + 1" using g(2) inv(2) by (simp_all add: same_file_def)
    ultimately show ?thesis by (intro exI conjI)
  next
    case False
    define s4 where "s4 = ?s2\<lparr>io_blocks := (io_blocks s)(b \<mapsto> blk\<lparr>b_dirty := False, b_writing := True\<rparr>), io_fds := [(io_fd_fresh s, rp, nat (b_start blk))]\<rparr>"
    have len: "nat (b_data_size blk) \<le> block_bytes" using shape by (simp add: nat_mono)
    have s4: "env_ok (io_env s4)" "io_fds s4 = [(io_fd_fresh s, rp, nat (b_start blk))]" "io_mem s4 = io_mem s"
      "file_content rp s4 = ?c" "io_disk s4 = (io_disk s)(rp \<mapsto> ?c)" "io_calls s4 = io_calls s" using inv(3) by (simp_all add: s4_def)
    from write_loop_ok [OF s4(1,2) len, of e] obtain k p where
      w: "write_loop (io_fd_fresh s) e 0 (nat (b_data_size blk)) s4 = Some (0, if nat (b_data_size blk) = 0 then s4 else
        s4\<lparr>io_calls := k, io_fds := [(io_fd_fresh s, rp, p)],
          io_disk := (io_disk s)(rp \<mapsto> write_at (nat (b_start blk)) (get_bytes 0 (nat (b_data_size blk)) (io_mem s e)) ?c)\<rparr>)"
      unfolding s4(3,5) fun_upd_upd fun_upd_same option.case by blast
    let ?k = "if nat (b_data_size blk) = 0 then io_calls s else k"
    let ?p = "if nat (b_data_size blk) = 0 then nat (b_start blk) else p"
    let ?d = "(io_disk s)(rp \<mapsto> flushed blk (io_mem s e) ?c)"
    let ?s5 = "s4\<lparr>io_calls := ?k, io_fds := [(io_fd_fresh s, rp, ?p)], io_disk := ?d\<rparr>"
    have w': "write_loop (io_fd_fresh s) e 0 (nat (b_data_size blk)) s4 = Some (0, ?s5)"
      using w False shape by (cases "b_data_size blk = 0") (simp_all add: flushed_def s4_def)
    let ?s6 = "?s5\<lparr>io_blocks := (io_blocks s)(b \<mapsto> blk\<lparr>b_dirty := False\<rparr>)\<rparr>"
    have "map_find ?n (io_files ?s6) = Some ?f2" "map_inv (io_files ?s6)" "io_fds ?s6 = [(io_fd_fresh s, rp, ?p)]" "io_open_count ?s6 = 1"
      using inv by (simp_all add: s4_def)
    from close_remote_ok [OF this fd, of WRITE_FILE] inv(4) obtain g where
      g: "close_remote_file ?n WRITE_FILE ?s6 = Some (?s6\<lparr>io_fds := [], io_open_count := 0, io_files := map_set ?n g (io_files ?s6)\<rparr>)"
        "same_file ?f2 g" by auto
    have ls: "lseek (io_fd_fresh s) (b_start blk) (?s2\<lparr>io_blocks := (io_blocks s)(b \<mapsto> blk\<lparr>b_dirty := False, b_writing := True\<rparr>)\<rparr>) =
        (b_start blk, s4)" using shape by (simp add: lseek_def s4_def)
    have up: "upd_block b (\<lambda>blk. blk\<lparr>b_writing := True\<rparr>) ?s2 =
        Some (?s2\<lparr>io_blocks := (io_blocks s)(b \<mapsto> blk\<lparr>b_dirty := False, b_writing := True\<rparr>)\<rparr>)"
      "upd_block b (\<lambda>blk. blk\<lparr>b_writing := False\<rparr>) ?s5 = Some ?s6"
      using shape by (simp_all add: upd_block_def deref_block_def s4_def) (cases blk, simp)
    have st: "b_start blk \<noteq> -1" using shape by simp
    have "write_to_storage b s = Some (b_data_size blk, ?s6\<lparr>io_fds := [], io_open_count := 0, io_files := map_set ?n g (io_files ?s6)\<rparr>)"
      unfolding write_to_storage_def upd_block_def [of b "\<lambda>blk. blk\<lparr>b_dirty := False\<rparr>"] deref_block_def
      using b(1,3) shape f op g(1) False w' ls up st by (simp add: io_real_path_def rp)
    also have "?s6\<lparr>io_fds := [], io_open_count := 0, io_files := map_set ?n g (io_files ?s6)\<rparr> = visited ?n g (io_fd_fresh s + 1) ?k
        (s\<lparr>io_blocks := (io_blocks s)(b \<mapsto> blk\<lparr>b_dirty := False\<rparr>), io_disk := ?d\<rparr>)"
      using inv(1) by (simp add: visited_def s4_def)
    finally have "write_to_storage b s = Some (b_data_size blk, visited ?n g (io_fd_fresh s + 1) ?k
        (s\<lparr>io_blocks := (io_blocks s)(b \<mapsto> blk\<lparr>b_dirty := False\<rparr>), io_disk := ?d\<rparr>))" .
    moreover have "same_file f g" "0 \<le> io_fd_fresh s + 1" using g(2) inv(2) by (simp_all add: same_file_def)
    ultimately show ?thesis by (intro exI conjI)
  qed
qed

definition stored :: "block \<Rightarrow> byte list \<Rightarrow> bool" where
  "stored blk c \<longleftrightarrow> b_data_size blk = 0 \<or> nat (b_start blk) + nat (b_data_size blk) \<le> length c"

definition readable :: "block \<Rightarrow> byte list \<Rightarrow> size_t" where
  "readable blk c = int (length (take (nat (b_data_size blk)) (drop (nat (b_start blk)) c)))"

definition loaded :: "block \<Rightarrow> byte list \<Rightarrow> (nat \<Rightarrow> byte) \<Rightarrow> nat \<Rightarrow> byte" where
  "loaded blk c m = put_bytes 0 (take (nat (b_data_size blk)) (drop (nat (b_start blk)) c)) m"

lemma read_from_storage_ok:
  assumes q: "quiet s" and b: "io_blocks s b = Some blk" "block_shape blk" "b_data blk = Some e"
    and f: "map_find n (io_files s) = Some f" and c: "io_disk s (io_mount s @ f_path f) = Some c"
  shows "\<exists>g fd k. read_from_storage (f_path f) n b s = Some (readable blk c,
      visited n g fd k (s\<lparr>io_mem := (io_mem s)(e := loaded blk c (io_mem s e))\<rparr>)) \<and> same_file f g \<and> 0 \<le> fd"
proof -
  define rp where "rp = io_mount s @ f_path f"
  let ?f1 = "f\<lparr>f_read_fd := io_fd_fresh s\<rparr>" and ?len = "nat (b_data_size blk)" and ?st = "nat (b_start blk)"
  define s2 where "s2 = s\<lparr>io_open_count := 1, io_fds := [(io_fd_fresh s, rp, ?st)], io_fd_fresh := io_fd_fresh s + 1,
    io_files := map_set n ?f1 (io_files s)\<rparr>"
  have dk: "(io_disk s)(rp \<mapsto> file_content rp s) = io_disk s" using c by (auto simp: rp_def fun_upd_idem)
  have op: "open_remote_file n rp READ_FILE s = Some (io_fd_fresh s, s\<lparr>io_open_count := 1, io_disk := io_disk s,
      io_fds := [(io_fd_fresh s, rp, 0)], io_fd_fresh := io_fd_fresh s + 1, io_files := map_set n ?f1 (io_files s)\<rparr>)"
    using open_remote_ok [OF quiet_idle [OF q] f, of READ_FILE rp] c dk by (simp add: rp_def)
  have inv: "map_inv (io_files s)" "0 \<le> io_fd_fresh s" "env_ok (io_env s)" "f_write_fd f = -1"
    using q f by (auto simp: quiet_def)
  have fd: "io_fd_fresh s \<noteq> -1" using inv(2) by simp
  note shape = b(2) [unfolded block_shape_def]
  have ls: "lseek (io_fd_fresh s) (b_start blk) (s\<lparr>io_open_count := 1, io_disk := io_disk s, io_fds := [(io_fd_fresh s, rp, 0)],
      io_fd_fresh := io_fd_fresh s + 1, io_files := map_set n ?f1 (io_files s)\<rparr>) = (b_start blk, s2)"
    using shape by (simp add: lseek_def s2_def)
  have s2: "env_ok (io_env s2)" "io_fds s2 = [(io_fd_fresh s, rp, ?st)]" "io_mem s2 = io_mem s" "io_calls s2 = io_calls s"
    "io_disk s2 rp = Some c" using inv(3) c by (simp_all add: s2_def rp_def)
  have len: "?len \<le> block_bytes" using shape by (simp add: nat_mono)
  obtain k p where r: "read_loop (io_fd_fresh s) e 0 ?len s2 = Some (?len - nat (readable blk c), s2\<lparr>io_calls := k, io_fds := [(io_fd_fresh s, rp, p)],
      io_mem := (io_mem s)(e := loaded blk c (io_mem s e))\<rparr>)"
  proof (cases "?len = 0")
    case True
    have "read_loop (io_fd_fresh s) e 0 ?len s2 = Some (?len - nat (readable blk c), s2)" using True by (subst read_loop.simps) simp
    moreover have "s2 = s2\<lparr>io_calls := io_calls s, io_fds := [(io_fd_fresh s, rp, ?st)], io_mem := (io_mem s)(e := loaded blk c (io_mem s e))\<rparr>"
      using True by (simp add: s2_def loaded_def)
    ultimately show thesis using that by metis
  next
    case False
    from read_loop_ok [OF s2(1,2) len s2(5) False, of e] that show thesis
      unfolding s2(3) loaded_def readable_def nat_int by blast
  qed
  define s3 where "s3 = s2\<lparr>io_calls := k, io_fds := [(io_fd_fresh s, rp, p)], io_mem := (io_mem s)(e := loaded blk c (io_mem s e))\<rparr>"
  have "map_find n (io_files s3) = Some ?f1" "map_inv (io_files s3)" "io_fds s3 = [(io_fd_fresh s, rp, p)]" "io_open_count s3 = 1"
    using inv(1) by (simp_all add: s3_def s2_def)
  from close_remote_ok [OF this fd, of READ_FILE] inv(4) obtain g where
    g: "close_remote_file n READ_FILE s3 = Some (s3\<lparr>io_fds := [], io_open_count := 0, io_files := map_set n g (io_files s3)\<rparr>)"
      "same_file ?f1 g" by auto
  have "b_start blk \<noteq> -1" "b_data_size blk - int (?len - nat (readable blk c)) = readable blk c"
    "0 \<le> readable blk c" "0 \<le> b_data_size blk"
    using shape by (auto simp: readable_def)
  then have "read_from_storage (f_path f) n b s = Some (readable blk c, s3\<lparr>io_fds := [], io_open_count := 0, io_files := map_set n g (io_files s3)\<rparr>)"
    using b(1,3) op ls r g(1) by (simp add: read_from_storage_def deref_block_def io_real_path_def rp_def [symmetric] s3_def [symmetric])
  also have "s3\<lparr>io_fds := [], io_open_count := 0, io_files := map_set n g (io_files s3)\<rparr> =
      visited n g (io_fd_fresh s + 1) k (s\<lparr>io_mem := (io_mem s)(e := loaded blk c (io_mem s e))\<rparr>)"
    using inv(1) by (simp add: visited_def s3_def s2_def)
  finally have "read_from_storage (f_path f) n b s = Some (readable blk c,
      visited n g (io_fd_fresh s + 1) k (s\<lparr>io_mem := (io_mem s)(e := loaded blk c (io_mem s e))\<rparr>))" .
  moreover have "same_file f g" "0 \<le> io_fd_fresh s + 1" using g(2) inv(2) by (simp_all add: same_file_def)
  ultimately show ?thesis by (intro exI conjI)
qed

end
