(* ===== verification/IOnode_Content.thy ===== *)
theory IOnode_Content
  imports IOnode_Cache
begin

text \<open>
  The contents of files as the view gives them, the invariant of the cache and the effect of
  its elementary changes: writing a block back, freeing its memory, loading it, and
  replacing a block by one that was written to.
\<close>

section \<open>Contents and invariant\<close>

definition on_storage :: "block \<Rightarrow> bool" where
  "on_storage blk \<longleftrightarrow> \<not> b_swapout blk \<or> b_exist blk = EXISTING"

definition block_byte :: "cview \<Rightarrow> ssize_t \<Rightarrow> block \<Rightarrow> nat \<Rightarrow> byte option" where
  "block_byte v n blk i =
     (if i < nat (b_data_size blk) then
        (case b_data blk of
           Some e \<Rightarrow> Some (v_mem v e i)
         | None \<Rightarrow>
             if on_storage blk then
               (case v_path v n of
                  None \<Rightarrow> None
                | Some p \<Rightarrow> (case v_disk v p of
                     None \<Rightarrow> None
                   | Some c \<Rightarrow> if nat (b_start blk) + i < length c then Some (c ! (nat (b_start blk) + i)) else None))
             else None)
      else None)"

definition content_at :: "cview \<Rightarrow> ssize_t \<Rightarrow> off64_t \<Rightarrow> nat \<Rightarrow> byte option" where
  "content_at v n st i =
     (case v_at v n st of
        None \<Rightarrow> None
      | Some b \<Rightarrow> (case v_blocks v b of None \<Rightarrow> None | Some blk \<Rightarrow> block_byte v n blk i))"

text \<open>The byte at offset \<open>x\<close> of the file \<open>n\<close>, None where nothing is known of it.\<close>

definition content :: "cview \<Rightarrow> ssize_t \<Rightarrow> off64_t \<Rightarrow> byte option" where
  "content v n x = (if x < 0 then None else content_at v n (x div BLOCK_SIZE * BLOCK_SIZE) (nat (x mod BLOCK_SIZE)))"

definition elems :: "(nat \<Rightarrow> block option) \<Rightarrow> nat set" where
  "elems B = {e. \<exists>b blk. B b = Some blk \<and> b_data blk = Some e}"

definition block_inv :: "cview \<Rightarrow> nat \<Rightarrow> block \<Rightarrow> bool" where
  "block_inv v b blk \<longleftrightarrow> block_shape blk \<and> b_elem blk = b_data blk \<and> (b_dirty blk \<longrightarrow> b_data blk \<noteq> None) \<and>
     (b_data blk \<noteq> None \<longrightarrow> b_valid blk \<and> v_at v (b_file blk) (b_start blk) = Some b)"

text \<open>A clean block in memory agrees with the storage; a block that was evicted is complete there.\<close>

definition coherent :: "cview \<Rightarrow> ssize_t \<Rightarrow> block \<Rightarrow> bool" where
  "coherent v n blk \<longleftrightarrow>
     (case b_data blk of
        Some e \<Rightarrow> \<not> b_dirty blk \<longrightarrow>
          (\<exists>p c. v_path v n = Some p \<and> v_disk v p = Some c \<and> stored blk c \<and>
                 (\<forall>i<nat (b_data_size blk). c ! (nat (b_start blk) + i) = v_mem v e i))
      | None \<Rightarrow> \<not> b_swapout blk \<longrightarrow> (\<exists>p c. v_path v n = Some p \<and> v_disk v p = Some c \<and> stored blk c))"

definition at_inv :: "cview \<Rightarrow> ssize_t \<Rightarrow> off64_t \<Rightarrow> nat \<Rightarrow> bool" where
  "at_inv v n st b \<longleftrightarrow> v_path v n \<noteq> None \<and>
     (\<exists>blk. v_blocks v b = Some blk \<and> b_file blk = n \<and> b_start blk = st \<and> (b_exist blk = EXISTING \<longleftrightarrow> v_exist v n) \<and>
        (b_postponed blk = TO_BE_DELETED \<longleftrightarrow> v_del v n) \<and> (\<not> v_del v n \<longrightarrow> coherent v n blk))"

definition cinv :: "cview \<Rightarrow> bool" where
  "cinv v \<longleftrightarrow> (\<forall>b blk. v_blocks v b = Some blk \<longrightarrow> block_inv v b blk) \<and>
     (\<forall>n st b. v_at v n st = Some b \<longrightarrow> at_inv v n st b) \<and>
     (\<forall>b1 b2 x y e. v_blocks v b1 = Some x \<longrightarrow> v_blocks v b2 = Some y \<longrightarrow> b_data x = Some e \<longrightarrow> b_data y = Some e \<longrightarrow> b1 = b2) \<and>
     live_pool (elems (v_blocks v)) (v_pool v) \<and> block_size (v_pool v) = BLOCK_SIZE \<and>
     (\<forall>n m p. v_path v n = Some p \<longrightarrow> v_path v m = Some p \<longrightarrow> \<not> v_del v n \<longrightarrow> \<not> v_del v m \<longrightarrow> n = m) \<and>
     (\<forall>n p. v_exist v n \<longrightarrow> v_path v n = Some p \<longrightarrow> v_disk v p \<noteq> None)"

lemma cinvD:
  assumes "cinv v"
  shows "v_blocks v b = Some blk \<Longrightarrow> block_inv v b blk"
    "v_at v n st = Some b \<Longrightarrow> at_inv v n st b"
    "v_blocks v b1 = Some x \<Longrightarrow> v_blocks v b2 = Some y \<Longrightarrow> b_data x = Some e \<Longrightarrow> b_data y = Some e \<Longrightarrow> b1 = b2"
    "live_pool (elems (v_blocks v)) (v_pool v)" "block_size (v_pool v) = BLOCK_SIZE"
    "v_path v n = Some p \<Longrightarrow> v_path v m = Some p \<Longrightarrow> \<not> v_del v n \<Longrightarrow> \<not> v_del v m \<Longrightarrow> n = m"
    "v_exist v n \<Longrightarrow> v_path v n = Some p \<Longrightarrow> v_disk v p \<noteq> None"
  using assms unfolding cinv_def by blast+

lemma elemsI: "B b = Some blk \<Longrightarrow> b_data blk = Some e \<Longrightarrow> e \<in> elems B"
  by (auto simp: elems_def)

lemma elems_same: "B b = Some blk \<Longrightarrow> b_data blk' = b_data blk \<Longrightarrow> elems (B(b \<mapsto> blk')) = elems B"
  unfolding elems_def by (rule Collect_cong) (metis fun_upd_apply option.inject)

lemma elems_insert:
  assumes "\<forall>blk. B b = Some blk \<longrightarrow> b_data blk = None" "b_data blk' = Some e"
  shows "elems (B(b \<mapsto> blk')) = insert e (elems B)"
proof (rule set_eqI)
  fix x
  show "x \<in> elems (B(b \<mapsto> blk')) \<longleftrightarrow> x \<in> insert e (elems B)"
    using assms unfolding elems_def by (cases "x = e") (auto split: if_splits, metis option.distinct(1))
qed

lemma elems_remove:
  assumes "B b = Some blk" "b_data blk = Some e" "\<forall>blk'. C = Some blk' \<longrightarrow> b_data blk' = None"
    "\<And>b' x. B b' = Some x \<Longrightarrow> b_data x = Some e \<Longrightarrow> b' = b"
  shows "elems (B(b := C)) = elems B - {e}"
proof (rule set_eqI)
  fix x
  show "x \<in> elems (B(b := C)) \<longleftrightarrow> x \<in> elems B - {e}"
  proof
    assume "x \<in> elems (B(b := C))"
    then obtain b' blk' where b': "(B(b := C)) b' = Some blk'" "b_data blk' = Some x" by (auto simp: elems_def)
    then have "b' \<noteq> b" using assms(3) by auto
    then show "x \<in> elems B - {e}" using b' assms(4) by (auto simp: elems_def)
  next
    assume "x \<in> elems B - {e}"
    then obtain b' blk' where b': "B b' = Some blk'" "b_data blk' = Some x" "x \<noteq> e" by (auto simp: elems_def)
    then have "b' \<noteq> b" using assms(1,2) by auto
    then show "x \<in> elems (B(b := C))" using b' by (auto simp: elems_def)
  qed
qed

text \<open>Known bytes of blocks are known bytes of files.\<close>

lemma content_leI: "(\<And>st i x. content_at v n st i = Some x \<Longrightarrow> content_at w n st i = Some x) \<Longrightarrow> content v n \<subseteq>\<^sub>m content w n"
  by (auto simp: content_def map_le_def dom_def)

section \<open>Storage\<close>

lemma length_write_at: "length (write_at pos bs c) = max (length c) (pos + length bs)"
  by (auto simp: write_at_def)

lemma length_fill: "length (take pos (c @ replicate (pos - length c) x)) = pos"
  by simp

lemma nth_write_at_in: "pos \<le> i \<Longrightarrow> i < pos + length bs \<Longrightarrow> write_at pos bs c ! i = bs ! (i - pos)"
  unfolding write_at_def nth_append length_fill by auto

lemma nth_write_at_out:
  assumes "i < length c" "i < pos \<or> pos + length bs \<le> i"
  shows "write_at pos bs c ! i = c ! i"
  using assms unfolding write_at_def nth_append length_fill by (auto simp: nth_append)

text \<open>Different blocks of a file do not overlap.\<close>

lemma blocks_disjoint:
  assumes "block_shape x" "block_shape y" "b_start x \<noteq> b_start y" "i < nat (b_data_size y)"
  shows "nat (b_start y) + i < nat (b_start x) \<or> nat (b_start x) + nat (b_data_size x) \<le> nat (b_start y) + i"
proof -
  from assms(1,2) obtain k l where kl: "b_start x = BLOCK_SIZE * k" "b_start y = BLOCK_SIZE * l"
    by (auto simp: block_shape_def dvd_def)
  consider "k + 1 \<le> l" | "l + 1 \<le> k" using assms(3) kl by fastforce
  then have "b_start x + BLOCK_SIZE \<le> b_start y \<or> b_start y + BLOCK_SIZE \<le> b_start x"
  proof cases
    case 1
    then have "BLOCK_SIZE * (k + 1) \<le> BLOCK_SIZE * l" by (intro mult_left_mono) auto
    then show ?thesis using kl by (simp add: distrib_left)
  next
    case 2
    then have "BLOCK_SIZE * (l + 1) \<le> BLOCK_SIZE * k" by (intro mult_left_mono) auto
    then show ?thesis using kl by (simp add: distrib_left)
  qed
  then show ?thesis using assms(1,2,4) by (auto simp: block_shape_def nat_less_iff zless_nat_eq_int_zless) 
qed

section \<open>Writing a block back\<close>

definition flush_view :: "nat \<Rightarrow> block \<Rightarrow> nat \<Rightarrow> string \<Rightarrow> cview \<Rightarrow> cview" where
  "flush_view b blk e p v = v\<lparr>v_blocks := (v_blocks v)(b \<mapsto> blk\<lparr>b_dirty := False\<rparr>),
     v_disk := (v_disk v)(p \<mapsto> flushed blk (v_mem v e) (case v_disk v p of None \<Rightarrow> [] | Some c \<Rightarrow> c))\<rparr>"

lemma flushed_own:
  assumes "block_shape blk" "b_postponed blk \<noteq> TO_BE_DELETED"
  shows "stored blk (flushed blk m c)" "i < nat (b_data_size blk) \<Longrightarrow> flushed blk m c ! (nat (b_start blk) + i) = m i"
  using assms by (auto simp: flushed_def stored_def block_shape_def length_write_at nth_write_at_in get_bytes_def)

lemma flushed_other:
  assumes "block_shape x" "block_shape y" "b_start x \<noteq> b_start y" "nat (b_start y) + i < length c" "i < nat (b_data_size y)"
  shows "flushed x m c ! (nat (b_start y) + i) = c ! (nat (b_start y) + i)"
  using blocks_disjoint [OF assms(1,2,3,5)] assms(4) by (auto simp: flushed_def nth_write_at_out)

lemma length_flushed: "length c \<le> length (flushed x m c)"
  by (auto simp: flushed_def length_write_at)

lemma flushed_stored: "stored y c \<Longrightarrow> stored y (flushed x m c)"
  by (auto simp: flushed_def stored_def length_write_at)

lemma coherent_flush:
  assumes inv: "cinv v" and b: "v_blocks v b = Some blk" "b_data blk = Some e" "v_path v (b_file blk) = Some p"
    and at: "v_at v n st = Some b'" "v_blocks v b' = Some blk'" "b' \<noteq> b" "\<not> v_del v n" "coherent v n blk'"
  shows "coherent (flush_view b blk e p v) n blk'"
    "block_byte v n blk' i = Some x \<Longrightarrow> block_byte (flush_view b blk e p v) n blk' i = Some x"
proof -
  let ?v = "flush_view b blk e p v"
  have f: "v_path ?v = v_path v" "v_mem ?v = v_mem v" by (simp_all add: flush_view_def)
  have nb: "b_file blk' = n" "b_start blk' = st" using cinvD(2) [OF inv at(1)] at(2) by (auto simp: at_inv_def)
  have sh: "block_shape blk" "block_shape blk'" using cinvD(1) [OF inv] b(1) at(2) by (auto simp: block_inv_def)
  have own: "v_at v (b_file blk) (b_start blk) = Some b" using cinvD(1) [OF inv b(1)] b(2) by (auto simp: block_inv_def)
  have keep: "\<exists>c'. v_disk ?v q = Some c' \<and> length c \<le> length c' \<and>
      (\<forall>i<nat (b_data_size blk'). nat (b_start blk') + i < length c \<longrightarrow> c' ! (nat (b_start blk') + i) = c ! (nat (b_start blk') + i))"
    if q: "v_path v n = Some q" "v_disk v q = Some c" for q c
  proof (cases "q = p")
    case False
    then show ?thesis using q by (simp add: flush_view_def)
  next
    case True
    have d: "v_disk ?v q = Some (flushed blk (v_mem v e) c)" using True q(2) by (simp add: flush_view_def)
    show ?thesis
    proof (cases "n = b_file blk")
      case same: True
      have "b_start blk \<noteq> b_start blk'" using own at(1,3) nb same by auto
      then show ?thesis using d length_flushed flushed_other [OF sh] by auto
    next
      case False
      have "v_del v (b_file blk)" using cinvD(6) [OF inv _ _ at(4)] q(1) b(3) True False by blast
      then have "b_postponed blk = TO_BE_DELETED" using cinvD(2) [OF inv own] b(1) by (auto simp: at_inv_def)
      then show ?thesis using d by (simp add: flushed_def)
    qed
  qed
  have keep': "\<exists>c'. v_disk ?v q = Some c' \<and> stored blk' c' \<and>
      (\<forall>i<nat (b_data_size blk'). c' ! (nat (b_start blk') + i) = c ! (nat (b_start blk') + i))"
    if "v_path v n = Some q" "v_disk v q = Some c" "stored blk' c" for q c
    using keep [OF that(1,2)] that(3) by (force simp: stored_def)
  show "coherent ?v n blk'"
  proof (cases "b_data blk'")
    case None
    then show ?thesis using at(5) keep' unfolding coherent_def f by auto blast
  next
    case (Some e')
    show ?thesis
    proof (cases "b_dirty blk'")
      case False
      then obtain q c where "v_path v n = Some q" "v_disk v q = Some c" "stored blk' c"
        "\<forall>i<nat (b_data_size blk'). c ! (nat (b_start blk') + i) = v_mem v e' i"
        using at(5) Some by (auto simp: coherent_def)
      with keep' [of q c] Some show ?thesis unfolding coherent_def f by auto
    qed (use Some in \<open>simp add: coherent_def\<close>)
  qed
  show "block_byte ?v n blk' i = Some x" if bb: "block_byte v n blk' i = Some x"
  proof (cases "b_data blk'")
    case None
    with bb obtain q c where q: "i < nat (b_data_size blk')" "on_storage blk'" "v_path v n = Some q" "v_disk v q = Some c"
      "nat (b_start blk') + i < length c" "x = c ! (nat (b_start blk') + i)"
      by (auto simp: block_byte_def split: if_splits option.splits)
    from keep [OF q(3,4)] obtain c' where "v_disk ?v q = Some c'" "length c \<le> length c'"
      "\<forall>i<nat (b_data_size blk'). nat (b_start blk') + i < length c \<longrightarrow> c' ! (nat (b_start blk') + i) = c ! (nat (b_start blk') + i)" by blast
    then show ?thesis using q None unfolding block_byte_def f by simp
  next
    case (Some e')
    then show ?thesis using bb unfolding block_byte_def f by (simp split: if_splits)
  qed
qed

lemma flush_view_ok:
  assumes inv: "cinv v" and b: "v_blocks v b = Some blk" "b_data blk = Some e" "v_path v (b_file blk) = Some p"
  shows "cinv (flush_view b blk e p v)" "\<not> v_del v n \<Longrightarrow> content v n \<subseteq>\<^sub>m content (flush_view b blk e p v) n"
proof -
  let ?v = "flush_view b blk e p v" and ?blk = "blk\<lparr>b_dirty := False\<rparr>"
  have f: "v_path ?v = v_path v" "v_mem ?v = v_mem v" "v_at ?v = v_at v" "v_del ?v = v_del v" "v_exist ?v = v_exist v"
    "v_pool ?v = v_pool v" "v_blocks ?v = (v_blocks v)(b \<mapsto> ?blk)" by (simp_all add: flush_view_def)
  have own: "v_at v (b_file blk) (b_start blk) = Some b" and sh: "block_shape blk"
    using cinvD(1) [OF inv b(1)] b(2) by (auto simp: block_inv_def)
  have co: "coherent ?v (b_file blk) ?blk" "block_byte ?v (b_file blk) ?blk i = block_byte v (b_file blk) blk i"
    if "\<not> v_del v (b_file blk)" for i
  proof -
    have live: "b_postponed blk \<noteq> TO_BE_DELETED" using that cinvD(2) [OF inv own] b(1) by (auto simp: at_inv_def)
    note fl = flushed_own [OF sh live]
    then show "coherent ?v (b_file blk) ?blk" using b(2,3) by (simp add: coherent_def flush_view_def stored_def)
    show "block_byte ?v (b_file blk) ?blk i = block_byte v (b_file blk) blk i" using b(2) by (simp add: block_byte_def f)
  qed
  show "cinv ?v" unfolding cinv_def
  proof (intro conjI allI impI)
    fix b1 x assume "v_blocks ?v b1 = Some x"
    then show "block_inv ?v b1 x"
      using cinvD(1) [OF inv] b(1) by (auto simp: f block_inv_def block_shape_def split: if_splits)
  next
    fix n st b' assume at: "v_at ?v n st = Some b'"
    then have ai: "at_inv v n st b'" using cinvD(2) [OF inv] by (simp add: f)
    show "at_inv ?v n st b'"
    proof (cases "b' = b")
      case True
      then show ?thesis using ai b co(1) by (auto simp: at_inv_def f)
    next
      case False
      from ai obtain blk' where "v_blocks v b' = Some blk'" "\<not> v_del v n \<longrightarrow> coherent v n blk'" by (auto simp: at_inv_def)
      then show ?thesis using ai False coherent_flush(1) [OF inv b _ _ False] at by (auto simp: at_inv_def f)
    qed
  next
    fix b1 b2 x y e' assume "v_blocks ?v b1 = Some x" "v_blocks ?v b2 = Some y" "b_data x = Some e'" "b_data y = Some e'"
    then show "b1 = b2" using cinvD(3) [OF inv] b(1) by (auto simp: f split: if_splits)
  next
    have "elems (v_blocks ?v) = elems (v_blocks v)" using elems_same [of "v_blocks v" b blk ?blk] b(1) by (simp add: f)
    then show "live_pool (elems (v_blocks ?v)) (v_pool ?v)" using cinvD(4) [OF inv] by (simp add: f)
  next
    show "block_size (v_pool ?v) = BLOCK_SIZE" using cinvD(5) [OF inv] by (simp add: f)
  next
    fix n m q assume "v_path ?v n = Some q" "v_path ?v m = Some q" "\<not> v_del ?v n" "\<not> v_del ?v m"
    then show "n = m" using cinvD(6) [OF inv] by (simp add: f)
  next
    fix n q assume "v_exist ?v n" "v_path ?v n = Some q"
    then show "v_disk ?v q \<noteq> None" using cinvD(7) [OF inv] by (simp add: flush_view_def)
  qed
  show "content v n \<subseteq>\<^sub>m content ?v n" if live: "\<not> v_del v n"
  proof (rule content_leI)
    fix st i x assume x: "content_at v n st i = Some x"
    then obtain b' where Some: "v_at v n st = Some b'" by (auto simp: content_at_def split: option.splits)
    then have ai: "at_inv v n st b'" using cinvD(2) [OF inv] by simp
    then obtain blk' where b': "v_blocks v b' = Some blk'" "coherent v n blk'" "b_file blk' = n" using live by (auto simp: at_inv_def)
    show "content_at ?v n st i = Some x"
    proof (cases "b' = b")
      case True
      then show ?thesis using x unfolding content_at_def f using Some b' b(1) co(2) live by simp
    next
      case False
      then show ?thesis using x Some b' coherent_flush(2) [OF inv b Some b'(1) False live b'(2)] unfolding content_at_def f by simp
    qed
  qed
qed

section \<open>Freeing the memory of a block\<close>

definition free_view :: "nat \<Rightarrow> block \<Rightarrow> nat \<Rightarrow> cview \<Rightarrow> cview" where
  "free_view b blk e v = v\<lparr>v_blocks := (v_blocks v)(b \<mapsto> blk\<lparr>b_data := None, b_elem := None, b_page := None, b_swapout := False\<rparr>),
     v_pool := free e (v_pool v)\<rparr>"

lemma free_view_ok:
  assumes inv: "cinv v" and b: "v_blocks v b = Some blk" "b_data blk = Some e" "\<not> b_dirty blk"
  shows "cinv (free_view b blk e v)" "\<not> v_del v n \<Longrightarrow> content v n \<subseteq>\<^sub>m content (free_view b blk e v) n"
proof -
  let ?v = "free_view b blk e v" and ?blk = "blk\<lparr>b_data := None, b_elem := None, b_page := None, b_swapout := False\<rparr>"
  have f: "v_path ?v = v_path v" "v_mem ?v = v_mem v" "v_at ?v = v_at v" "v_del ?v = v_del v" "v_exist ?v = v_exist v"
    "v_disk ?v = v_disk v" "v_pool ?v = free e (v_pool v)" "v_blocks ?v = (v_blocks v)(b \<mapsto> ?blk)" by (simp_all add: free_view_def)
  have co: "coherent ?v n x = coherent v n x" "block_byte ?v n x i = block_byte v n x i" for n x i
    unfolding coherent_def block_byte_def f by simp_all
  have own: "v_at v (b_file blk) (b_start blk) = Some b" and sh: "block_shape blk"
    using cinvD(1) [OF inv b(1)] b(2) by (auto simp: block_inv_def)
  have cb: "coherent v (b_file blk) ?blk" "block_byte v (b_file blk) ?blk i = block_byte v (b_file blk) blk i"
    if live: "\<not> v_del v (b_file blk)" for i
  proof -
    obtain p c where c: "v_path v (b_file blk) = Some p" "v_disk v p = Some c" "stored blk c"
      "\<forall>i<nat (b_data_size blk). c ! (nat (b_start blk) + i) = v_mem v e i"
      using live cinvD(2) [OF inv own] b by (auto simp: at_inv_def coherent_def)
    then show "coherent v (b_file blk) ?blk" by (simp add: coherent_def stored_def)
    have "i < nat (b_data_size blk) \<Longrightarrow> nat (b_start blk) + i < length c" using c(3) by (auto simp: stored_def)
    then show "block_byte v (b_file blk) ?blk i = block_byte v (b_file blk) blk i"
      using c b by (simp add: block_byte_def on_storage_def)
  qed
  show "cinv ?v" unfolding cinv_def
  proof (intro conjI allI impI)
    fix b1 x assume "v_blocks ?v b1 = Some x"
    then show "block_inv ?v b1 x"
      using cinvD(1) [OF inv] b by (auto simp: f block_inv_def block_shape_def split: if_splits)
  next
    fix n st b' assume at: "v_at ?v n st = Some b'"
    then have "at_inv v n st b'" using cinvD(2) [OF inv] by (simp add: f)
    then show "at_inv ?v n st b'" using b cb(1) by (auto simp: at_inv_def f co)
  next
    fix b1 b2 x y e' assume "v_blocks ?v b1 = Some x" "v_blocks ?v b2 = Some y" "b_data x = Some e'" "b_data y = Some e'"
    then show "b1 = b2" using cinvD(3) [OF inv] by (auto simp: f split: if_splits)
  next
    have uq: "b' = b" if "v_blocks v b' = Some x" "b_data x = Some e" for b' x
      using cinvD(3) [OF inv that(1) b(1) that(2) b(2)] .
    have "elems (v_blocks ?v) = elems (v_blocks v) - {e}"
      unfolding f by (rule elems_remove [of "v_blocks v" b blk e "Some ?blk", OF b(1,2) _ uq]) simp_all
    then show "live_pool (elems (v_blocks ?v)) (v_pool ?v)"
      using blocks.release_inv [OF cinvD(4) [OF inv] elemsI [of "v_blocks v" b blk, OF b(1,2)]] by (simp add: f)
  next
    show "block_size (v_pool ?v) = BLOCK_SIZE" using cinvD(5) [OF inv] by (simp add: f free_def)
  next
    fix n m q assume "v_path ?v n = Some q" "v_path ?v m = Some q" "\<not> v_del ?v n" "\<not> v_del ?v m"
    then show "n = m" using cinvD(6) [OF inv] by (simp add: f)
  next
    fix n q assume "v_exist ?v n" "v_path ?v n = Some q"
    then show "v_disk ?v q \<noteq> None" using cinvD(7) [OF inv] by (simp add: f)
  qed
  show "content v n \<subseteq>\<^sub>m content ?v n" if live: "\<not> v_del v n"
  proof (rule content_leI)
    fix st i x assume x: "content_at v n st i = Some x"
    then obtain b' where Some: "v_at v n st = Some b'" by (auto simp: content_at_def split: option.splits)
    then have "at_inv v n st b'" using cinvD(2) [OF inv] by simp
    then show "content_at ?v n st i = Some x" using x Some b(1) cb(2) live by (auto simp: content_at_def f co at_inv_def)
  qed
qed

section \<open>A block that is loaded or written to\<close>

text \<open>
  The block \<open>b\<close> at \<open>st\<close> of the file \<open>n\<close> gets the memory \<open>e\<close> with the bytes \<open>m\<close>; it may
  be new, have had no memory, or have had \<open>e\<close> already.
\<close>

definition put_view :: "ssize_t \<Rightarrow> off64_t \<Rightarrow> nat \<Rightarrow> block \<Rightarrow> nat \<Rightarrow> (nat \<Rightarrow> byte) \<Rightarrow> memory_pool \<Rightarrow> cview \<Rightarrow> cview" where
  "put_view n st b blk e m p v = v\<lparr>v_at := (v_at v)(n := (v_at v n)(st \<mapsto> b)), v_blocks := (v_blocks v)(b \<mapsto> blk),
     v_mem := (v_mem v)(e := m), v_pool := p\<rparr>"

definition puttable :: "cview \<Rightarrow> ssize_t \<Rightarrow> off64_t \<Rightarrow> nat \<Rightarrow> block \<Rightarrow> nat \<Rightarrow> memory_pool \<Rightarrow> bool" where
  "puttable v n st b blk e p \<longleftrightarrow> block_shape blk \<and> b_elem blk = Some e \<and> b_data blk = Some e \<and> b_valid blk \<and>
     b_file blk = n \<and> b_start blk = st \<and> (b_exist blk = EXISTING \<longleftrightarrow> v_exist v n) \<and>
     (b_postponed blk = TO_BE_DELETED \<longleftrightarrow> v_del v n) \<and> v_path v n \<noteq> None \<and> block_size p = BLOCK_SIZE \<and>
     (case v_blocks v b of
        None \<Rightarrow> v_at v n st = None \<and> e \<notin> elems (v_blocks v) \<and> live_pool (insert e (elems (v_blocks v))) p
      | Some old \<Rightarrow> v_at v n st = Some b \<and>
          (case b_data old of
             None \<Rightarrow> e \<notin> elems (v_blocks v) \<and> live_pool (insert e (elems (v_blocks v))) p
           | Some e' \<Rightarrow> e' = e \<and> p = v_pool v))"

lemma put_view_ok:
  assumes inv: "cinv v" and put: "puttable v n st b blk e p"
    and clean: "\<not> b_dirty blk \<Longrightarrow> \<not> v_del v n \<Longrightarrow> \<exists>q c. v_path v n = Some q \<and> v_disk v q = Some c \<and> stored blk c \<and>
      (\<forall>i<nat (b_data_size blk). c ! (nat (b_start blk) + i) = m i)"
  shows "cinv (put_view n st b blk e m p v)"
    "content_at (put_view n st b blk e m p v) n' st' i =
       (if n' = n \<and> st' = st then if i < nat (b_data_size blk) then Some (m i) else None else content_at v n' st' i)"
proof -
  let ?v = "put_view n st b blk e m p v"
  have f: "v_path ?v = v_path v" "v_mem ?v = (v_mem v)(e := m)" "v_at ?v = (v_at v)(n := (v_at v n)(st \<mapsto> b))" "v_del ?v = v_del v"
    "v_exist ?v = v_exist v" "v_disk ?v = v_disk v" "v_pool ?v = p" "v_blocks ?v = (v_blocks v)(b \<mapsto> blk)"
    by (simp_all add: put_view_def)
  note put' = put [unfolded puttable_def]
  have uniq: "(n', st') = (n, st)" if "v_at v n' st' = Some b" for n' st'
    using cinvD(2) [OF inv that] put' by (auto simp: at_inv_def split: option.splits dest!: cinvD(2) [OF inv])
  have notin: "b_data x \<noteq> Some e" if "v_blocks v b' = Some x" "b' \<noteq> b" for b' x
    using put' that cinvD(3) [OF inv that(1)] by (auto split: option.splits dest: elemsI)
  have own: "b' \<noteq> b" if "v_at v n' st' = Some b'" "\<not> (n' = n \<and> st' = st)" for n' st' b' using uniq that by auto
  have other: "coherent ?v n' x = coherent v n' x" "block_byte ?v n' x j = block_byte v n' x j"
    if "v_blocks v b' = Some x" "b' \<noteq> b" for n' x b' j
    using notin [OF that] by (auto simp: coherent_def block_byte_def f split: option.splits)
  show "cinv ?v" unfolding cinv_def
  proof (intro conjI allI impI)
    fix b1 x assume x: "v_blocks ?v b1 = Some x"
    show "block_inv ?v b1 x"
    proof (cases "b1 = b")
      case True
      then have "x = blk" using x unfolding f by simp
      moreover have "v_at ?v n st = Some b" unfolding f by simp
      ultimately show ?thesis using True put' by (auto simp: block_inv_def)
    next
      case False
      then have bi: "block_inv v b1 x" using x cinvD(1) [OF inv] by (simp add: f)
      have "v_at v (b_file x) (b_start x) = Some b1 \<Longrightarrow> v_at ?v (b_file x) (b_start x) = Some b1"
        using put' False by (auto simp: f split: option.splits)
      then show ?thesis using bi by (auto simp: block_inv_def)
    qed
  next
    fix n' st' b' assume at: "v_at ?v n' st' = Some b'"
    show "at_inv ?v n' st' b'"
    proof (cases "n' = n \<and> st' = st")
      case True
      then have "b' = b" using at by (simp add: f)
      moreover have "coherent ?v n blk" if "\<not> v_del v n"
        using clean [OF _ that] put' by (auto simp: coherent_def f)
      ultimately show ?thesis using True put' by (auto simp: at_inv_def f)
    next
      case False
      then have at': "v_at v n' st' = Some b'" using at by (auto simp: f split: if_splits)
      note ne = own [OF at' False]
      from cinvD(2) [OF inv at'] ne other(1) show ?thesis by (auto simp: at_inv_def f)
    qed
  next
    fix b1 b2 x y e' assume a: "v_blocks ?v b1 = Some x" "v_blocks ?v b2 = Some y" "b_data x = Some e'" "b_data y = Some e'"
    show "b1 = b2"
    proof (cases "b1 = b \<or> b2 = b")
      case True
      then show ?thesis using a put' notin by (auto simp: f split: if_splits)
    next
      case False
      then show ?thesis using a cinvD(3) [OF inv] by (auto simp: f)
    qed
  next
    show "live_pool (elems (v_blocks ?v)) (v_pool ?v)"
    proof (cases "v_blocks v b")
      case None
      then show ?thesis using put' elems_insert [of "v_blocks v" b blk e] by (simp add: f)
    next
      case (Some old)
      then show ?thesis
        unfolding f using put' elems_insert [of "v_blocks v" b blk e] elems_same [of "v_blocks v" b old blk] cinvD(4) [OF inv]
        by (cases "b_data old") simp_all
    qed
  next
    show "block_size (v_pool ?v) = BLOCK_SIZE" using put' by (simp add: f)
  next
    fix n m q assume "v_path ?v n = Some q" "v_path ?v m = Some q" "\<not> v_del ?v n" "\<not> v_del ?v m"
    then show "n = m" using cinvD(6) [OF inv] by (simp add: f)
  next
    fix n q assume "v_exist ?v n" "v_path ?v n = Some q"
    then show "v_disk ?v q \<noteq> None" using cinvD(7) [OF inv] by (simp add: f)
  qed
  show "content_at ?v n' st' i =
       (if n' = n \<and> st' = st then if i < nat (b_data_size blk) then Some (m i) else None else content_at v n' st' i)"
  proof (cases "n' = n \<and> st' = st")
    case True
    then show ?thesis using put' by (simp add: content_at_def f block_byte_def)
  next
    case False
    then have "v_at ?v n' st' = v_at v n' st'" by (auto simp: f)
    then show ?thesis using False own [OF _ False] other(2) by (auto simp: content_at_def f split: option.splits)
  qed
qed

end
