(* ===== verification/IOnode_Eviction.thy ===== *)
theory IOnode_Eviction
  imports IOnode_Content
begin

text \<open>
  Write back, eviction and allocation on the concrete state of an IOnode: they keep the
  invariant \<open>io_inv\<close> and every content, and allocation succeeds as soon as the pool has
  room for one block.
\<close>

section \<open>The invariant of an IOnode\<close>

text \<open>The pages in use are those of the blocks in memory.\<close>

definition pages_ok :: "nat list \<Rightarrow> (nat \<Rightarrow> nat option) \<Rightarrow> (nat \<Rightarrow> block option) \<Rightarrow> bool" where
  "pages_ok us dat B \<longleftrightarrow>
     (\<forall>b blk. B b = Some blk \<longrightarrow>
        (case b_page blk of None \<Rightarrow> b_data blk = None | Some p \<Rightarrow> b_data blk \<noteq> None \<and> p \<in> set us \<and> dat p = Some b)) \<and>
     (\<forall>p\<in>set us. \<exists>b blk. dat p = Some b \<and> B b = Some blk \<and> b_page blk = Some p)"

definition queue_ok :: "nat access_queue \<Rightarrow> (nat \<Rightarrow> block option) \<Rightarrow> bool" where
  "queue_ok q B \<longleftrightarrow> (\<exists>us fs ds. aq_inv q us fs ds \<and> pages_ok us (aq_data q) B)"

definition io_inv :: "ionode \<Rightarrow> bool" where
  "io_inv s \<longleftrightarrow> quiet s \<and> cinv (view s) \<and> queue_ok (io_queue s) (io_blocks s)"

text \<open>What an operation that is not visible from outside keeps.\<close>

definition transparent :: "ionode \<Rightarrow> ionode \<Rightarrow> bool" where
  "transparent s s' \<longleftrightarrow> quiet s' \<and> cinv (view s') \<and> io_env s' = io_env s \<and> (io_mount s' = io_mount s \<and> io_sync_tasks s' = io_sync_tasks s) \<and>
     io_sent s' = io_sent s \<and> io_fresh s' = io_fresh s \<and> blk_at s' = blk_at s \<and> path_of s' = path_of s \<and>
     deleted s' = deleted s \<and> existing s' = existing s \<and> pool_capacity (io_pool s') = pool_capacity (io_pool s) \<and>
     (\<forall>n. \<not> deleted s n \<longrightarrow> content (view s) n \<subseteq>\<^sub>m content (view s') n)"

lemma transparent_refl: "quiet s \<Longrightarrow> cinv (view s) \<Longrightarrow> transparent s s"
  by (simp add: transparent_def)

lemma transparent_trans: "transparent s s' \<Longrightarrow> transparent s' s'' \<Longrightarrow> transparent s s''"
  unfolding transparent_def by (metis map_le_trans)

lemma view_simps [simp]:
  "v_blocks (view s) = io_blocks s" "v_at (view s) = blk_at s" "v_path (view s) = path_of s" "v_del (view s) = deleted s"
  "v_exist (view s) = existing s" "v_mem (view s) = io_mem s" "v_disk (view s) = io_disk s" "v_pool (view s) = io_pool s"
  by (simp_all add: view_def)

lemma file_frame [simp]:
  "blk_at (s\<lparr>io_queue := x_queue\<rparr>) = blk_at s"
  "blk_at (s\<lparr>io_pool := x_pool\<rparr>) = blk_at s"
  "blk_at (s\<lparr>io_blocks := x_blocks\<rparr>) = blk_at s"
  "blk_at (s\<lparr>io_mem := x_mem\<rparr>) = blk_at s"
  "blk_at (s\<lparr>io_sent := x_sent\<rparr>) = blk_at s"
  "blk_at (s\<lparr>io_sync_tasks := x_sync_tasks\<rparr>) = blk_at s"
  "blk_at (s\<lparr>io_disk := x_disk\<rparr>) = blk_at s"
  "blk_at (s\<lparr>io_fresh := x_fresh\<rparr>) = blk_at s"
  "path_of (s\<lparr>io_queue := x_queue\<rparr>) = path_of s"
  "path_of (s\<lparr>io_pool := x_pool\<rparr>) = path_of s"
  "path_of (s\<lparr>io_blocks := x_blocks\<rparr>) = path_of s"
  "path_of (s\<lparr>io_mem := x_mem\<rparr>) = path_of s"
  "path_of (s\<lparr>io_sent := x_sent\<rparr>) = path_of s"
  "path_of (s\<lparr>io_sync_tasks := x_sync_tasks\<rparr>) = path_of s"
  "path_of (s\<lparr>io_disk := x_disk\<rparr>) = path_of s"
  "path_of (s\<lparr>io_fresh := x_fresh\<rparr>) = path_of s"
  "deleted (s\<lparr>io_queue := x_queue\<rparr>) = deleted s"
  "deleted (s\<lparr>io_pool := x_pool\<rparr>) = deleted s"
  "deleted (s\<lparr>io_blocks := x_blocks\<rparr>) = deleted s"
  "deleted (s\<lparr>io_mem := x_mem\<rparr>) = deleted s"
  "deleted (s\<lparr>io_sent := x_sent\<rparr>) = deleted s"
  "deleted (s\<lparr>io_sync_tasks := x_sync_tasks\<rparr>) = deleted s"
  "deleted (s\<lparr>io_disk := x_disk\<rparr>) = deleted s"
  "deleted (s\<lparr>io_fresh := x_fresh\<rparr>) = deleted s"
  "existing (s\<lparr>io_queue := x_queue\<rparr>) = existing s"
  "existing (s\<lparr>io_pool := x_pool\<rparr>) = existing s"
  "existing (s\<lparr>io_blocks := x_blocks\<rparr>) = existing s"
  "existing (s\<lparr>io_mem := x_mem\<rparr>) = existing s"
  "existing (s\<lparr>io_sent := x_sent\<rparr>) = existing s"
  "existing (s\<lparr>io_sync_tasks := x_sync_tasks\<rparr>) = existing s"
  "existing (s\<lparr>io_disk := x_disk\<rparr>) = existing s"
  "existing (s\<lparr>io_fresh := x_fresh\<rparr>) = existing s"
  by (simp_all add: file_views fun_eq_iff split: option.splits)

lemma file_of_block:
  assumes "cinv (view s)" "io_blocks s b = Some blk" "b_data blk = Some e"
  shows "\<exists>f. map_find (b_file blk) (io_files s) = Some f \<and> path_of s (b_file blk) = Some (io_mount s @ f_path f)"
proof -
  have "v_at (view s) (b_file blk) (b_start blk) = Some b"
    using cinvD(1) [OF assms(1), of b blk] assms(2,3) by (simp add: block_inv_def)
  from cinvD(2) [OF assms(1) this] show ?thesis by (auto simp: at_inv_def path_of_def split: option.splits)
qed

section \<open>Write back\<close>

lemma writeback_ok:
  assumes q: "quiet s" and inv: "cinv (view s)" and b: "io_blocks s b = Some blk" "b_data blk = Some e"
  shows "\<exists>r s'. writeback b s = Some (r, s') \<and> transparent s s' \<and> io_blocks s' = (io_blocks s)(b \<mapsto> blk\<lparr>b_dirty := False\<rparr>) \<and>
    io_queue s' = io_queue s \<and> io_pool s' = io_pool s"
proof (cases "b_dirty blk")
  case False
  then have "blk\<lparr>b_dirty := False\<rparr> = blk" by (cases blk) simp
  then show ?thesis using False b transparent_refl [OF q inv] by (simp add: writeback_def deref_block_def fun_upd_idem)
next
  case True
  from file_of_block [OF inv b] obtain f where f: "map_find (b_file blk) (io_files s) = Some f"
    "path_of s (b_file blk) = Some (io_mount s @ f_path f)" by blast
  have sh: "block_shape blk" using cinvD(1) [OF inv, of b blk] b by (simp add: block_inv_def)
  let ?p = "io_mount s @ f_path f" and ?n = "b_file blk"
  let ?s1 = "s\<lparr>io_blocks := (io_blocks s)(b \<mapsto> blk\<lparr>b_dirty := False\<rparr>),
      io_disk := (io_disk s)(?p \<mapsto> flushed blk (io_mem s e) (file_content ?p s))\<rparr>"
  from write_to_storage_ok [OF q b(1) sh b(2) f(1) refl] obtain r g fd k where
    w: "write_to_storage b s = Some (r, visited ?n g fd k ?s1)" "same_file f g" "0 \<le> fd" by blast
  have q1: "quiet ?s1" using q b(1) by (auto simp: quiet_def)
  have f1: "map_find ?n (io_files ?s1) = Some f" using f(1) by simp
  have v1: "view (visited ?n g fd k ?s1) = flush_view b blk e ?p (view s)"
    unfolding visited_view [OF f1 w(2)] by (simp add: flush_view_def view_def)
  have p: "v_path (view s) ?n = Some ?p" using f(2) by simp
  note ok = flush_view_ok [OF inv _ _ p, of b e, simplified, OF b]
  have eq: "blk_at (visited ?n g fd k ?s1) = blk_at s" "path_of (visited ?n g fd k ?s1) = path_of s"
    "deleted (visited ?n g fd k ?s1) = deleted s" "existing (visited ?n g fd k ?s1) = existing s"
    using arg_cong [OF v1, of v_at] arg_cong [OF v1, of v_path] arg_cong [OF v1, of v_del] arg_cong [OF v1, of v_exist]
    by (simp_all add: flush_view_def)
  have "transparent s (visited ?n g fd k ?s1)"
    unfolding transparent_def v1 eq using visited_quiet [OF q1 f1 w(2,3)] ok by (simp add: visited_def)
  then show ?thesis using w(1) True b(1) by (intro exI [of _ r] exI [of _ "visited ?n g fd k ?s1"]) (simp add: writeback_def deref_block_def)
qed

section \<open>Eviction\<close>

lemma free_data_ok:
  assumes q: "quiet s" and inv: "cinv (view s)" and b: "io_blocks s b = Some blk" "b_data blk = Some e" "\<not> b_dirty blk"
  shows "\<exists>s'. free_data b s = Some (BLOCK_SIZE, s') \<and> transparent s s' \<and> io_queue s' = io_queue s \<and>
    io_blocks s' = (io_blocks s)(b \<mapsto> blk\<lparr>b_data := None, b_elem := None, b_page := None, b_swapout := False\<rparr>)"
proof -
  have bi: "block_inv (view s) b blk" using cinvD(1) [OF inv] b(1) by simp
  then have el: "b_elem blk = Some e" "b_valid blk" "\<not> b_writing blk" using b(2) by (auto simp: block_inv_def block_shape_def)
  let ?blk = "blk\<lparr>b_data := None, b_elem := None, b_page := None, b_swapout := False\<rparr>"
  let ?s = "s\<lparr>io_pool := free e (io_pool s), io_blocks := (io_blocks s)(b \<mapsto> ?blk)\<rparr>"
  have st: "free_data b s = Some (BLOCK_SIZE, ?s)"
    using b el by (simp add: free_data_def block_free_memory_def deref_block_def upd_block_def)
  have v: "view ?s = free_view b blk e (view s)"
    by (simp add: free_view_def view_def)
  note ok = free_view_ok [OF inv, of b blk e, simplified, OF b]
  have "e \<in> elems (io_blocks s)" using elemsI [of "io_blocks s" b blk] b by simp
  then have "pool_capacity (free e (io_pool s)) = pool_capacity (io_pool s)"
    using blocks.release_inv [of "elems (io_blocks s)" "io_pool s" e] cinvD(4) [OF inv] by simp
  then have "transparent s ?s"
    unfolding transparent_def v using q b(1) ok by (auto simp: quiet_def)
  then show ?thesis using st by (intro exI [of _ ?s]) simp
qed

lemma pages_ok_evict:
  assumes pg: "pages_ok (p # us) dat B" "distinct (p # us)" "dat p = Some b" "B b = Some blk" "b_page blk = Some p"
    and blk': "b_data blk' = None" "b_page blk' = None"
  shows "pages_ok us dat (B(b \<mapsto> blk'))"
proof -
  show ?thesis unfolding pages_ok_def
  proof (intro conjI allI impI ballI)
    fix b' x assume x: "(B(b \<mapsto> blk')) b' = Some x"
    show "case b_page x of None \<Rightarrow> b_data x = None | Some p \<Rightarrow> b_data x \<noteq> None \<and> p \<in> set us \<and> dat p = Some b'"
    proof (cases "b' = b")
      case True
      then show ?thesis using x blk' by simp
    next
      case False
      then have "case b_page x of None \<Rightarrow> b_data x = None | Some p' \<Rightarrow> b_data x \<noteq> None \<and> p' \<in> set (p # us) \<and> dat p' = Some b'"
        using pg(1) x unfolding pages_ok_def by simp
      then show ?thesis using False pg(3) by (auto split: option.splits)
    qed
  next
    fix p' assume p': "p' \<in> set us"
    then obtain b' x where x: "dat p' = Some b'" "B b' = Some x" "b_page x = Some p'" using pg(1) by (auto simp: pages_ok_def)
    moreover have "b' \<noteq> b" using x pg(2,4,5) p' by auto
    ultimately show "\<exists>b' blk. dat p' = Some b' \<and> (B(b \<mapsto> blk')) b' = Some blk \<and> b_page blk = Some p'" by auto
  qed
qed

lemma evict_one:
  assumes q: "quiet s" and inv: "cinv (view s)" and pg: "pages_ok (p # us) dat (io_blocks s)" "distinct (p # us)" "dat p = Some b"
  shows "\<exists>r blk e s1 s2. writeback b s = Some (r, s1) \<and> free_data b s1 = Some (BLOCK_SIZE, s2) \<and> transparent s s2 \<and>
    io_blocks s b = Some blk \<and> b_data blk = Some e \<and> pages_ok us dat (io_blocks s2) \<and>
    (\<not> b_dirty blk \<longrightarrow> s1 = s) \<and> need_writeback b s = Some (b_dirty blk) \<and>
    io_blocks s2 = (io_blocks s)(b \<mapsto> blk\<lparr>b_dirty := False, b_data := None, b_elem := None, b_page := None, b_swapout := False\<rparr>)"
proof -
  from pg(1,3) obtain blk where blk: "io_blocks s b = Some blk" "b_page blk = Some p" by (auto simp: pages_ok_def)
  with pg(1) obtain e where e: "b_data blk = Some e" by (force simp: pages_ok_def)
  from writeback_ok [OF q inv blk(1) e] obtain r s1 where s1: "writeback b s = Some (r, s1)" "transparent s s1"
    "io_blocks s1 = (io_blocks s)(b \<mapsto> blk\<lparr>b_dirty := False\<rparr>)" by blast
  have t1: "quiet s1" "cinv (view s1)" "io_blocks s1 b = Some (blk\<lparr>b_dirty := False\<rparr>)" using s1(2,3) by (auto simp: transparent_def)
  from free_data_ok [OF t1] e obtain s2 where s2: "free_data b s1 = Some (BLOCK_SIZE, s2)" "transparent s1 s2"
    "io_blocks s2 = (io_blocks s1)(b \<mapsto> blk\<lparr>b_dirty := False, b_data := None, b_elem := None, b_page := None, b_swapout := False\<rparr>)" by auto
  have B: "io_blocks s2 = (io_blocks s)(b \<mapsto> blk\<lparr>b_dirty := False, b_data := None, b_elem := None, b_page := None, b_swapout := False\<rparr>)"
    using s2(3) s1(3) by simp
  have "pages_ok us dat (io_blocks s2)" unfolding B using blk by (intro pages_ok_evict [OF pg]) simp_all
  moreover have "\<not> b_dirty blk \<longrightarrow> s1 = s" using s1(1) blk(1) by (auto simp: writeback_def deref_block_def)
  ultimately show ?thesis
    using s1(1) s2(1) transparent_trans [OF s1(2) s2(2)] blk(1) e B by (auto simp: need_writeback_def deref_block_def)
qed

lemma s64_block [simp]: "s64 BLOCK_SIZE = BLOCK_SIZE" "u64 BLOCK_SIZE = BLOCK_SIZE"
  by (simp_all add: s64_def u64_def BLOCK_SIZE_def)

lemma aq_inv_distinct: "aq_inv q us fs ds \<Longrightarrow> distinct us"
  by (auto simp: aq_inv_def page_ring_def dring_def)

text \<open>Freeing memory for one block evicts the block whose last access is the longest ago.\<close>

lemma free_memory_ok:
  assumes inv: "io_inv s" and full: "elems (io_blocks s) \<noteq> {}"
  shows "\<exists>s' b blk e. free_memory BLOCK_SIZE s = Some (BLOCK_SIZE, s') \<and> io_inv s' \<and> transparent s s' \<and>
    io_blocks s b = Some blk \<and> b_data blk = Some e \<and> elems (io_blocks s') = elems (io_blocks s) - {e} \<and>
    (\<forall>b'. b' \<noteq> b \<longrightarrow> io_blocks s' b' = io_blocks s b') \<and> hd (aq_blocks (io_queue s)) = b"
proof -
  from inv obtain us fs ds where i: "quiet s" "cinv (view s)" "aq_inv (io_queue s) us fs ds"
    "pages_ok us (aq_data (io_queue s)) (io_blocks s)" by (auto simp: io_inv_def queue_ok_def)
  let ?dat = "aq_data (io_queue s)"
  from full obtain b0 blk0 e0 where "io_blocks s b0 = Some blk0" "b_data blk0 = Some e0" by (auto simp: elems_def)
  then have "us \<noteq> []" using i(4) by (force simp: pages_ok_def split: option.splits)
  then obtain p us' where us: "us = p # us'" by (cases us) auto
  from aq_pop_ok(2) [OF i(3) us] obtain q1 where q1: "aq_pop (io_queue s) = (Some p, q1)"
    "aq_inv q1 us' (fs @ [aq_tail (io_queue s)]) ds" "aq_data q1 = ?dat" by blast
  from i(4) obtain b where b: "?dat p = Some b" unfolding us by (auto simp: pages_ok_def)
  from evict_one [OF i(1,2) i(4) [unfolded us] aq_inv_distinct [OF i(3), unfolded us]] b obtain r blk e s1 s2 where
    ev: "writeback b s = Some (r, s1)" "free_data b s1 = Some (BLOCK_SIZE, s2)" "transparent s s2" "io_blocks s b = Some blk"
      "b_data blk = Some e" "pages_ok us' ?dat (io_blocks s2)" "\<not> b_dirty blk \<longrightarrow> s1 = s" "need_writeback b s = Some (b_dirty blk)"
      "io_blocks s2 = (io_blocks s)(b \<mapsto> blk\<lparr>b_dirty := False, b_data := None, b_elem := None, b_page := None, b_swapout := False\<rparr>)"
    by blast
  have "aq_tail q1 = p" using q1(1) by (auto simp: aq_pop_def Let_def split: if_splits)
  then obtain q2 where q2: "del_dirty_page p q1 = Some q2" "aq_inv q2 us' (fs @ [aq_tail (io_queue s)]) (remove1 p ds)"
    "aq_data q2 = ?dat" using aq_del_dirty_inv [OF q1(2), of p] q1(3) by auto
  define q' where "q' = (if b_dirty blk then q2 else q1)"
  have q': "\<exists>fs ds. aq_inv q' us' fs ds" "aq_data q' = ?dat" using q1(2,3) q2(2,3) by (auto simp: q'_def)
  have "swap_out_loop need wb fr 0 q' s2 = Some (0, q', s2)" for need wb fr by (subst swap_out_loop.simps) simp
  then have "swap_out_loop (\<lambda>b s. need_writeback b s = Some True) (\<lambda>b s. map_option snd (writeback b s)) free_data BLOCK_SIZE (io_queue s) s =
      Some (0, q', s2)"
    using q1(1,3) b ev(1,2,7,8) q2(1) by (subst swap_out_loop.simps) (cases "b_dirty blk"; simp add: q'_def s64_def)
  then have fm: "free_memory BLOCK_SIZE s = Some (BLOCK_SIZE, s2\<lparr>io_queue := q'\<rparr>)"
    by (simp add: free_memory_def swap_out_def)
  have vq: "view (s2\<lparr>io_queue := q'\<rparr>) = view s2" "transparent s (s2\<lparr>io_queue := q'\<rparr>)"
  proof -
    show v: "view (s2\<lparr>io_queue := q'\<rparr>) = view s2" by (simp add: view_def)
    show "transparent s (s2\<lparr>io_queue := q'\<rparr>)" using ev(3) unfolding transparent_def v by (auto simp: quiet_def)
  qed
  have "io_inv (s2\<lparr>io_queue := q'\<rparr>)"
    using vq ev(6) q' unfolding io_inv_def queue_ok_def transparent_def by auto
  moreover have "elems (io_blocks s2) = elems (io_blocks s) - {e}"
  proof -
    have uq: "b' = b" if "io_blocks s b' = Some x" "b_data x = Some e" for b' x
      using cinvD(3) [OF i(2), of b' x b blk e] that ev(4,5) by simp
    show ?thesis unfolding ev(9) by (rule elems_remove [of "io_blocks s" b blk e, OF ev(4,5) _ uq]) simp_all
  qed
  moreover have "hd (aq_blocks (io_queue s)) = b" using aq_blocks_eq [OF i(3)] b by (simp add: us)
  ultimately show ?thesis using fm vq(2) ev(4,5,9) by (intro exI [of _ "s2\<lparr>io_queue := q'\<rparr>"] exI [of _ b] exI [of _ blk] exI [of _ e]) simp
qed

section \<open>Allocation\<close>

lemma allocate_memory_for_block_ok:
  assumes inv: "io_inv s" and b: "io_blocks s b = Some blk" "b_data blk = None" and cap: "0 < pool_capacity (io_pool s)"
  shows "\<exists>s1 e p. allocate_memory_for_block b s = Some (BLOCK_SIZE,
      s1\<lparr>io_pool := p, io_blocks := (io_blocks s1)(b \<mapsto> blk\<lparr>b_elem := Some e, b_data := Some e, b_valid := True\<rparr>)\<rparr>) \<and>
    io_inv s1 \<and> transparent s s1 \<and> io_blocks s1 b = Some blk \<and> e \<notin> elems (io_blocks s1) \<and>
    live_pool (insert e (elems (io_blocks s1))) p \<and> block_size p = BLOCK_SIZE \<and> pool_capacity p = pool_capacity (io_pool s)"
proof -
  have q: "quiet s" "cinv (view s)" using inv by (auto simp: io_inv_def)
  let ?E = "elems (io_blocks s)"
  have pool: "live_pool ?E (io_pool s)" "block_size (io_pool s) = BLOCK_SIZE" using cinvD(4,5) [OF q(2)] by simp_all
  have iff: "has_memory_left BLOCK_SIZE (io_pool s) \<longleftrightarrow> card ?E < pool_capacity (io_pool s)"
    using has_memory_left_iff [of ?E "io_pool s"] pool by (simp add: live_pool_def)
  have ex: "\<exists>s1. (if \<not> has_memory_left BLOCK_SIZE (io_pool s) then map_option snd (free_memory BLOCK_SIZE s) else Some s) = Some s1 \<and>
      io_inv s1 \<and> transparent s s1 \<and> io_blocks s1 b = Some blk \<and> card (elems (io_blocks s1)) < pool_capacity (io_pool s1)"
  proof (cases "has_memory_left BLOCK_SIZE (io_pool s)")
    case True
    then show ?thesis using inv b(1) iff transparent_refl [OF q] by simp
  next
    case False
    have fin: "finite ?E" "card ?E \<le> pool_capacity (io_pool s)" using blocks.live_bound [OF pool(1)] by auto
    then have "?E \<noteq> {}" using False iff cap by auto
    from free_memory_ok [OF inv this] obtain s' b' blk' e' where s': "free_memory BLOCK_SIZE s = Some (BLOCK_SIZE, s')" "io_inv s'"
      "transparent s s'" "io_blocks s b' = Some blk'" "b_data blk' = Some e'" "elems (io_blocks s') = ?E - {e'}"
      "\<forall>b''. b'' \<noteq> b' \<longrightarrow> io_blocks s' b'' = io_blocks s b''" by blast
    have "b \<noteq> b'" using s'(4,5) b by auto
    moreover have "e' \<in> ?E" using elemsI [of "io_blocks s" b' blk'] s'(4,5) by simp
    then have "card (?E - {e'}) < card ?E" by (rule card_Diff1_less [OF fin(1)])
    ultimately show ?thesis using False s' b(1) fin(2) by (auto simp: transparent_def)
  qed
  then obtain s1 where s1: "(if \<not> has_memory_left BLOCK_SIZE (io_pool s) then map_option snd (free_memory BLOCK_SIZE s) else Some s) = Some s1"
    "io_inv s1" "transparent s s1" "io_blocks s1 b = Some blk" "card (elems (io_blocks s1)) < pool_capacity (io_pool s1)" by blast
  have q1: "quiet s1" "cinv (view s1)" using s1(2) by (auto simp: io_inv_def)
  have pool1: "live_pool (elems (io_blocks s1)) (io_pool s1)" "block_size (io_pool s1) = BLOCK_SIZE" using cinvD(4,5) [OF q1(2)] by simp_all
  have el: "b_elem blk = None" using cinvD(1) [OF q1(2), of b blk] s1(4) b(2) by (simp add: block_inv_def)
  have mal: "malloc_call (io_env s1) = malloc_ok" using q1(1) by (simp add: quiet_def env_ok_def)
  have "has_memory_left (block_size (io_pool s1)) (io_pool s1)"
    using has_memory_left_iff [of "elems (io_blocks s1)" "io_pool s1"] pool1 s1(5) by (simp add: live_pool_def)
  then obtain e p where al: "allocate malloc_ok (io_pool s1) = Some (Inr e, p)"
    using allocate_cases [of "elems (io_blocks s1)" "io_pool s1"] pool1(1) by (auto simp: live_pool_def)
  then have pa: "pool_alloc (io_pool s1) = Some (e, p)" by (simp add: pool_alloc_def)
  have "same_config (io_pool s1) p" using allocate_inv [OF _ al] pool1(1) by (auto simp: live_pool_def)
  then have "block_size p = BLOCK_SIZE" using pool1(2) by (simp add: same_config_def)
  moreover have "allocate_memory_for_block b s = Some (BLOCK_SIZE,
      s1\<lparr>io_pool := p, io_blocks := (io_blocks s1)(b \<mapsto> blk\<lparr>b_elem := Some e, b_data := Some e, b_valid := True\<rparr>)\<rparr>)"
    using s1(1,4) el mal al by (simp add: allocate_memory_for_block_def allocate_memory_def deref_block_def upd_block_def)
  moreover have "pool_capacity p = pool_capacity (io_pool s)"
    using blocks.alloc_cap [OF pool1(1) pa] s1(3) by (simp add: transparent_def)
  ultimately show ?thesis using s1(2,3,4) blocks.alloc_fresh [OF pool1(1) pa] by blast
qed

end
