(* ===== verification/IOnode_Access.thy ===== *)
theory IOnode_Access
  imports IOnode_Eviction
begin

text \<open>
  Reading and writing blocks: the order of last access, loading a block for a read and
  changing it for a write, from single blocks to the loops of the two handlers.
\<close>

section \<open>The order of last access\<close>

lemma pages_ok_push:
  assumes pg: "pages_ok us dat B" and old: "\<forall>x. B b = Some x \<longrightarrow> b_page x = None" and p: "p \<notin> set us"
    and blk: "b_page blk = Some p" "b_data blk \<noteq> None"
  shows "pages_ok (us @ [p]) (dat(p := Some b)) (B(b \<mapsto> blk))"
  unfolding pages_ok_def
proof (intro conjI allI impI ballI)
  fix b' x assume x: "(B(b \<mapsto> blk)) b' = Some x"
  show "case b_page x of None \<Rightarrow> b_data x = None | Some p' \<Rightarrow> b_data x \<noteq> None \<and> p' \<in> set (us @ [p]) \<and> (dat(p := Some b)) p' = Some b'"
  proof (cases "b' = b")
    case True
    then show ?thesis using x blk by simp
  next
    case False
    then have "case b_page x of None \<Rightarrow> b_data x = None | Some p' \<Rightarrow> b_data x \<noteq> None \<and> p' \<in> set us \<and> dat p' = Some b'"
      using pg x unfolding pages_ok_def by simp
    then show ?thesis using p by (auto split: option.splits)
  qed
next
  fix p' assume p': "p' \<in> set (us @ [p])"
  show "\<exists>b' x. (dat(p := Some b)) p' = Some b' \<and> (B(b \<mapsto> blk)) b' = Some x \<and> b_page x = Some p'"
  proof (cases "p' = p")
    case True
    then show ?thesis using blk by auto
  next
    case False
    then obtain b' x where "dat p' = Some b'" "B b' = Some x" "b_page x = Some p'" using pg p' by (auto simp: pages_ok_def)
    moreover have "b' \<noteq> b" using calculation old by auto
    ultimately show ?thesis using False by auto
  qed
qed

lemma pages_ok_same:
  assumes pg: "pages_ok us dat B" and old: "B b = Some x" "b_page x = Some p" and blk: "b_page blk = Some p" "b_data blk \<noteq> None"
    and us': "set us' = set us"
  shows "pages_ok us' dat (B(b \<mapsto> blk))"
  unfolding pages_ok_def
proof (intro conjI allI impI ballI)
  fix b' y assume y: "(B(b \<mapsto> blk)) b' = Some y"
  have px: "p \<in> set us \<and> dat p = Some b" using pg old unfolding pages_ok_def by fastforce
  show "case b_page y of None \<Rightarrow> b_data y = None | Some p' \<Rightarrow> b_data y \<noteq> None \<and> p' \<in> set us' \<and> dat p' = Some b'"
  proof (cases "b' = b")
    case True
    then show ?thesis using y blk px us' by simp
  next
    case False
    then show ?thesis using pg y unfolding pages_ok_def us' by simp
  qed
next
  fix p' assume "p' \<in> set us'"
  then obtain b' y where "dat p' = Some b'" "B b' = Some y" "b_page y = Some p'" using pg us' by (auto simp: pages_ok_def)
  then show "\<exists>b' y. dat p' = Some b' \<and> (B(b \<mapsto> blk)) b' = Some y \<and> b_page y = Some p'"
    using old blk by (cases "b' = b") auto
qed

text \<open>The queue after an access; the block \<open>b\<close> may have changed otherwise in the meantime.\<close>

lemma access_ok:
  assumes qu: "queue_ok q B" and blk: "b_data blk \<noteq> None"
    and pg: "case b_page blk of None \<Rightarrow> \<forall>x. B b = Some x \<longrightarrow> b_page x = None
             | Some p \<Rightarrow> \<exists>x. B b = Some x \<and> b_page x = Some p"
  shows "\<exists>p q'. lru_access (b_page blk) b dirty q = Some (p, q') \<and> queue_ok q' (B(b \<mapsto> blk\<lparr>b_page := Some p\<rparr>))"
proof -
  from qu obtain us fs ds where i: "aq_inv q us fs ds" "pages_ok us (aq_data q) B" by (auto simp: queue_ok_def)
  show ?thesis
  proof (cases "b_page blk")
    case None
    from aq_push_ok [OF i(1), of b dirty] obtain p q' fs' ds' where
      p: "aq_push b dirty q = Some (p, q')" "aq_inv q' (us @ [p]) fs' ds'" "p \<notin> set us" "aq_data q' = (aq_data q)(p := Some b)" by blast
    have "pages_ok (us @ [p]) ((aq_data q)(p := Some b)) (B(b \<mapsto> blk\<lparr>b_page := Some p\<rparr>))"
      using pg None blk by (intro pages_ok_push [OF i(2) _ p(3)]) simp_all
    then show ?thesis using p None by (auto simp: lru_access_def queue_ok_def)
  next
    case (Some p)
    then obtain x where x: "B b = Some x" "b_page x = Some p" using pg by auto
    then have "p \<in> set us" using i(2) by (force simp: pages_ok_def)
    then obtain us1 us2 where us: "us = us1 @ p # us2" by (meson split_list)
    from aq_touch_ok [of q us1 p us2 fs ds dirty] i(1) obtain q' ds' where
      q': "aq_touch p dirty q = Some q'" "aq_inv q' (us1 @ us2 @ [p]) fs ds'" "aq_data q' = aq_data q" unfolding us by blast
    have "pages_ok (us1 @ us2 @ [p]) (aq_data q) (B(b \<mapsto> blk\<lparr>b_page := Some p\<rparr>))"
      using blk by (intro pages_ok_same [OF i(2) x]) (auto simp: us)
    then show ?thesis using q' Some by (auto simp: lru_access_def queue_ok_def)
  qed
qed

lemma update_access_order_ok:
  assumes qu: "queue_ok (io_queue s) B" and b: "io_blocks s b = Some blk" "b_data blk \<noteq> None"
    and pg: "case b_page blk of None \<Rightarrow> \<forall>x. B b = Some x \<longrightarrow> b_page x = None
             | Some p \<Rightarrow> \<exists>x. B b = Some x \<and> b_page x = Some p"
  shows "\<exists>p q. update_access_order b dirty s = Some (s\<lparr>io_queue := q, io_blocks := (io_blocks s)(b \<mapsto> blk\<lparr>b_page := Some p\<rparr>)\<rparr>) \<and>
    queue_ok q (B(b \<mapsto> blk\<lparr>b_page := Some p\<rparr>))"
proof -
  from access_ok [OF qu b(2) pg, of dirty] obtain p q where
    "lru_access (b_page blk) b dirty (io_queue s) = Some (p, q)" "queue_ok q (B(b \<mapsto> blk\<lparr>b_page := Some p\<rparr>))" by blast
  then show ?thesis using b(1)
    by (intro exI [of _ p] exI [of _ q]) (simp add: update_access_order_def deref_block_def upd_block_def)
qed

section \<open>Giving a block memory and its bytes\<close>

lemma file_of_path: "path_of s n = Some p \<Longrightarrow> \<exists>f. map_find n (io_files s) = Some f \<and> p = io_mount s @ f_path f"
  by (auto simp: path_of_def split: option.splits)

lemma existing_file: "map_find n (io_files s) = Some f \<Longrightarrow> existing s n \<longleftrightarrow> f_exist f = EXISTING"
  by (simp add: existing_def)

lemma loaded_nth:
  "i < nat (b_data_size blk) \<Longrightarrow> nat (b_start blk) + i < length c \<Longrightarrow> loaded blk c m i = c ! (nat (b_start blk) + i)"
  by (auto simp: loaded_def put_bytes_def)

lemma at_block:
  assumes "io_inv s" "blk_at s n st = Some b"
  shows "\<exists>blk. io_blocks s b = Some blk \<and> b_file blk = n \<and> b_start blk = st \<and> (b_exist blk = EXISTING \<longleftrightarrow> existing s n) \<and>
    (b_postponed blk = TO_BE_DELETED \<longleftrightarrow> deleted s n) \<and> (\<not> deleted s n \<longrightarrow> coherent (view s) n blk) \<and> block_inv (view s) b blk \<and>
    (\<exists>f. map_find n (io_files s) = Some f \<and> path_of s n = Some (io_mount s @ f_path f))"
proof -
  have inv: "cinv (view s)" using assms(1) by (simp add: io_inv_def)
  from cinvD(2) [OF inv, of n st b] assms(2) have "at_inv (view s) n st b" by simp
  moreover from this obtain p where "path_of s n = Some p" by (auto simp: at_inv_def)
  moreover from file_of_path [OF this] have "\<exists>f. map_find n (io_files s) = Some f \<and> path_of s n = Some (io_mount s @ f_path f)"
    using calculation by auto
  ultimately show ?thesis using cinvD(1) [OF inv, of b] by (auto simp: at_inv_def)
qed

lemma acquire_ok:
  assumes inv: "io_inv s" and at: "blk_at s n st = Some b" "io_blocks s b = Some blk" "b_data blk = None" "\<not> deleted s n"
    and cap: "0 < pool_capacity (io_pool s)"
  shows "\<exists>s1 e p f sa. allocate_memory_for_block b s = Some (BLOCK_SIZE, sa) \<and>
    sa = s1\<lparr>io_pool := p, io_blocks := (io_blocks s1)(b \<mapsto> blk\<lparr>b_elem := Some e, b_data := Some e, b_valid := True\<rparr>)\<rparr> \<and>
    io_inv s1 \<and> transparent s s1 \<and> io_blocks s1 b = Some blk \<and> e \<notin> elems (io_blocks s1) \<and>
    live_pool (insert e (elems (io_blocks s1))) p \<and> block_size p = BLOCK_SIZE \<and> pool_capacity p = pool_capacity (io_pool s) \<and>
    quiet sa \<and> map_find n (io_files s1) = Some f \<and> path_of s1 n = Some (io_mount s1 @ f_path f) \<and>
    (on_storage blk \<longrightarrow> (\<exists>c g fd k. io_disk s1 (io_mount s1 @ f_path f) = Some c \<and>
       read_from_storage (f_path f) n b sa = Some (readable blk c,
         visited n g fd k (sa\<lparr>io_mem := (io_mem s1)(e := loaded blk c (io_mem s1 e))\<rparr>)) \<and> same_file f g \<and> 0 \<le> fd \<and>
       (\<forall>i x. content_at (view s1) n st i = Some x \<longrightarrow> i < nat (readable blk c) \<and> loaded blk c (io_mem s1 e) i = x)))"
proof -
  from allocate_memory_for_block_ok [OF inv at(2,3) cap] obtain s1 e p where
    al: "allocate_memory_for_block b s = Some (BLOCK_SIZE,
        s1\<lparr>io_pool := p, io_blocks := (io_blocks s1)(b \<mapsto> blk\<lparr>b_elem := Some e, b_data := Some e, b_valid := True\<rparr>)\<rparr>)"
      "io_inv s1" "transparent s s1" "io_blocks s1 b = Some blk" "e \<notin> elems (io_blocks s1)"
      "live_pool (insert e (elems (io_blocks s1))) p" "block_size p = BLOCK_SIZE" "pool_capacity p = pool_capacity (io_pool s)" by blast
  define sa where "sa = s1\<lparr>io_pool := p, io_blocks := (io_blocks s1)(b \<mapsto> blk\<lparr>b_elem := Some e, b_data := Some e, b_valid := True\<rparr>)\<rparr>"
  have tr: "blk_at s1 n st = Some b" "\<not> deleted s1 n" using al(3) at(1,4) by (simp_all add: transparent_def)
  from at_block [OF al(2) tr(1)] al(4) obtain f where ab: "b_file blk = n" "b_start blk = st" "b_exist blk = EXISTING \<longleftrightarrow> existing s1 n"
    "coherent (view s1) n blk" "block_inv (view s1) b blk" "map_find n (io_files s1) = Some f"
    "path_of s1 n = Some (io_mount s1 @ f_path f)" using tr(2) by auto
  have i1: "quiet s1" "cinv (view s1)" using al(2) by (auto simp: io_inv_def)
  have qa: "quiet sa" using i1(1) al(4) by (auto simp: quiet_def sa_def)
  have sh: "block_shape (blk\<lparr>b_elem := Some e, b_data := Some e, b_valid := True\<rparr>)" using ab(5) by (simp add: block_inv_def block_shape_def)
  have rd: "\<exists>c g fd k. io_disk s1 (io_mount s1 @ f_path f) = Some c \<and>
       read_from_storage (f_path f) n b sa = Some (readable blk c,
         visited n g fd k (sa\<lparr>io_mem := (io_mem s1)(e := loaded blk c (io_mem s1 e))\<rparr>)) \<and> same_file f g \<and> 0 \<le> fd \<and>
       (\<forall>i x. content_at (view s1) n st i = Some x \<longrightarrow> i < nat (readable blk c) \<and> loaded blk c (io_mem s1 e) i = x)"
    if os: "on_storage blk"
  proof -
    have "io_disk s1 (io_mount s1 @ f_path f) \<noteq> None"
    proof (cases "b_swapout blk")
      case True
      then have "existing s1 n" using os ab(3) by (simp add: on_storage_def)
      then show ?thesis using cinvD(7) [OF i1(2), of n] ab(7) by simp
    next
      case False
      then show ?thesis using ab(4,7) at(3) by (auto simp: coherent_def)
    qed
    then obtain c where c: "io_disk s1 (io_mount s1 @ f_path f) = Some c" by blast
    have "io_blocks sa b = Some (blk\<lparr>b_elem := Some e, b_data := Some e, b_valid := True\<rparr>)" "map_find n (io_files sa) = Some f"
      "io_disk sa (io_mount sa @ f_path f) = Some c" "io_mem sa = io_mem s1" using ab(6) c by (simp_all add: sa_def)
    from read_from_storage_ok [OF qa this(1) sh _ this(2,3), of e] this(4) obtain g fd k where
      r: "read_from_storage (f_path f) n b sa = Some (readable blk c,
         visited n g fd k (sa\<lparr>io_mem := (io_mem s1)(e := loaded blk c (io_mem s1 e))\<rparr>))" "same_file f g" "0 \<le> fd"
      by (auto simp: readable_def loaded_def)
    have "i < nat (readable blk c) \<and> loaded blk c (io_mem s1 e) i = x" if "content_at (view s1) n st i = Some x" for i x
    proof -
      have "i < nat (b_data_size blk)" "nat (b_start blk) + i < length c" "x = c ! (nat (b_start blk) + i)"
        using that tr(1) al(4) at(3) os ab(7) c by (auto simp: content_at_def block_byte_def split: if_splits)
      then show ?thesis using loaded_nth [of i blk c] by (simp add: readable_def)
    qed
    then show ?thesis using c r by blast
  qed
  show ?thesis
    by (rule exI [of _ s1], rule exI [of _ e], rule exI [of _ p], rule exI [of _ f], rule exI [of _ sa])
      (intro conjI impI rd al(1) [folded sa_def] sa_def al(2-8) qa ab(6,7))
qed

section \<open>Loading a block\<close>

lemma upd_block_id: "io_blocks s b = Some blk \<Longrightarrow> g blk = blk \<Longrightarrow> upd_block b g s = Some s"
  by (cases s) (simp add: upd_block_def deref_block_def fun_upd_idem)

lemma put_view_same_at: "v_at v n st = Some b \<Longrightarrow> (v_at v)(n := (v_at v n)(st \<mapsto> b)) = v_at v"
  by (simp add: fun_upd_idem)

lemma put_transparent:
  assumes inv: "io_inv s1" "blk_at s1 n st = Some b" and put: "puttable (view s1) n st b blk e p"
    and clean: "\<not> b_dirty blk \<Longrightarrow> \<not> deleted s1 n \<Longrightarrow> \<exists>q c. path_of s1 n = Some q \<and> io_disk s1 q = Some c \<and> stored blk c \<and>
      (\<forall>i<nat (b_data_size blk). c ! (nat (b_start blk) + i) = m i)"
    and keep: "\<And>i x. content_at (view s1) n st i = Some x \<Longrightarrow> i < nat (b_data_size blk) \<and> m i = x"
    and Y: "quiet Y" "view Y = put_view n st b blk e m p (view s1)"
    and fr: "io_env Y = io_env s1" "(io_mount Y = io_mount s1 \<and> io_sync_tasks Y = io_sync_tasks s1)" "io_sent Y = io_sent s1" "io_fresh Y = io_fresh s1"
      "pool_capacity p = pool_capacity (io_pool s1)"
  shows "transparent s1 Y"
proof -
  have ci: "cinv (view s1)" using inv(1) by (simp add: io_inv_def)
  have cl: "\<not> b_dirty blk \<Longrightarrow> \<not> v_del (view s1) n \<Longrightarrow> \<exists>q c. v_path (view s1) n = Some q \<and> v_disk (view s1) q = Some c \<and> stored blk c \<and>
      (\<forall>i<nat (b_data_size blk). c ! (nat (b_start blk) + i) = m i)" using clean by simp
  have pv: "cinv (put_view n st b blk e m p (view s1))"
    "content_at (put_view n st b blk e m p (view s1)) n' st' i = (if n' = n \<and> st' = st
       then if i < nat (b_data_size blk) then Some (m i) else None else content_at (view s1) n' st' i)" for n' st' i
    using put_view_ok [OF ci put, of m] cl by blast+
  have at: "(blk_at s1)(n := (blk_at s1 n)(st \<mapsto> b)) = blk_at s1" using put_view_same_at [of "view s1"] inv(2) by simp
  have eq: "blk_at Y = blk_at s1" "path_of Y = path_of s1" "deleted Y = deleted s1" "existing Y = existing s1" "io_pool Y = p"
    using arg_cong [OF Y(2), of v_at] arg_cong [OF Y(2), of v_path] arg_cong [OF Y(2), of v_del] arg_cong [OF Y(2), of v_exist]
      arg_cong [OF Y(2), of v_pool] at by (simp_all add: put_view_def)
  have "content (view s1) n' \<subseteq>\<^sub>m content (view Y) n'" for n'
  proof (rule content_leI)
    fix st' i x assume "content_at (view s1) n' st' i = Some x"
    then show "content_at (view Y) n' st' i = Some x" unfolding Y(2) pv(2) using keep by auto
  qed
  then show ?thesis unfolding transparent_def eq using Y(1) pv(1) fr by (simp add: Y(2))
qed

text \<open>A block is known when it is in memory or the storage has every byte of it.\<close>

definition known :: "ionode \<Rightarrow> ssize_t \<Rightarrow> block \<Rightarrow> bool" where
  "known s n blk \<longleftrightarrow> b_data blk \<noteq> None \<or>
     (on_storage blk \<and> (\<forall>i<nat (b_data_size blk). content (view s) n (b_start blk + int i) \<noteq> None))"

lemma content_block:
  assumes "0 \<le> st" "BLOCK_SIZE dvd st" "i < block_bytes"
  shows "content v n (st + int i) = content_at v n st i"
proof -
  have i: "int i < BLOCK_SIZE" using assms(3) by (simp add: zless_nat_eq_int_zless)
  obtain k where k: "st = BLOCK_SIZE * k" using assms(2) unfolding dvd_def by blast
  have "(st + int i) div BLOCK_SIZE = k" "(st + int i) mod BLOCK_SIZE = int i"
    using i unfolding k by (simp_all add: div_mult_self4 mod_mult_self4)
  then show ?thesis using assms(1) by (simp add: content_def k mult.commute)
qed

lemma load_resident:
  assumes inv: "io_inv s" and at: "blk_at s n st = Some b" "\<not> deleted s n" and b: "io_blocks s b = Some blk" "b_data blk = Some e"
  shows "\<exists>s2 blk2. load_block n b s = Some s \<and> update_access_order b False s = Some s2 \<and> io_inv s2 \<and> transparent s s2 \<and>
    io_blocks s2 b = Some blk2 \<and> b_data blk2 = Some e \<and> b_data_size blk2 = b_data_size blk \<and> io_mem s2 = io_mem s"
proof -
  from inv have i: "quiet s" "cinv (view s)" "queue_ok (io_queue s) (io_blocks s)" by (auto simp: io_inv_def)
  from at_block [OF inv at(1)] b(1) have ab: "b_file blk = n" "b_start blk = st" "b_exist blk = EXISTING \<longleftrightarrow> existing s n"
    "b_postponed blk \<noteq> TO_BE_DELETED" "coherent (view s) n blk" "block_inv (view s) b blk" "path_of s n \<noteq> None" using at(2) by auto
  have pgb: "case b_page blk of None \<Rightarrow> \<forall>x. io_blocks s b = Some x \<longrightarrow> b_page x = None
      | Some p \<Rightarrow> \<exists>x. io_blocks s b = Some x \<and> b_page x = Some p" using b(1) by (simp split: option.splits)
  from update_access_order_ok [OF i(3) b(1) _ pgb, of False] b(2) obtain pg q where
    u: "update_access_order b False s = Some (s\<lparr>io_queue := q, io_blocks := (io_blocks s)(b \<mapsto> blk\<lparr>b_page := Some pg\<rparr>)\<rparr>)"
      "queue_ok q ((io_blocks s)(b \<mapsto> blk\<lparr>b_page := Some pg\<rparr>))" by auto
  let ?Y = "s\<lparr>io_queue := q, io_blocks := (io_blocks s)(b \<mapsto> blk\<lparr>b_page := Some pg\<rparr>)\<rparr>" and ?blk = "blk\<lparr>b_page := Some pg\<rparr>"
  have "blk\<lparr>b_file := n\<rparr> = blk" using ab(1) by (cases blk) simp
  then have l: "load_block n b s = Some s"
    using upd_block_id [of s b blk "\<lambda>blk. blk\<lparr>b_file := n\<rparr>"] b ab(6) by (simp add: load_block_def deref_block_def need_allocation_def block_inv_def)
  have q: "quiet ?Y" using i(1) b(1) by (auto simp: quiet_def)
  have v: "view ?Y = put_view n st b ?blk e (io_mem s e) (io_pool s) (view s)"
    using at(1) by (simp add: put_view_def view_def fun_upd_idem)
  have put: "puttable (view s) n st b ?blk e (io_pool s)"
    using ab b at cinvD(5) [OF i(2)] by (simp add: puttable_def block_inv_def block_shape_def)
  have "transparent s ?Y"
  proof (rule put_transparent [OF inv at(1) put _ _ q v])
    assume "\<not> b_dirty ?blk"
    then show "\<exists>q c. path_of s n = Some q \<and> io_disk s q = Some c \<and> stored ?blk c \<and>
      (\<forall>i<nat (b_data_size ?blk). c ! (nat (b_start ?blk) + i) = io_mem s e i)"
      using ab(5) b(2) by (simp add: coherent_def stored_def)
  next
    fix i x assume "content_at (view s) n st i = Some x"
    then show "i < nat (b_data_size ?blk) \<and> io_mem s e i = x"
      using at(1) b by (simp add: content_at_def block_byte_def split: if_splits)
  qed simp_all
  moreover from this have "io_inv ?Y" using u(2) by (simp add: io_inv_def transparent_def)
  ultimately show ?thesis using l u(1) b(2) by (intro exI [of _ ?Y] exI [of _ ?blk]) simp
qed

lemma load_absent:
  assumes inv: "io_inv s" and at: "blk_at s n st = Some b" "\<not> deleted s n" and b: "io_blocks s b = Some blk" "b_data blk = None"
    and kn: "known s n blk" and cap: "0 < pool_capacity (io_pool s)"
  shows "\<exists>s1 s2 blk2 e. load_block n b s = Some s1 \<and> update_access_order b False s1 = Some s2 \<and> io_inv s2 \<and> transparent s s2 \<and>
    io_blocks s2 b = Some blk2 \<and> b_data blk2 = Some e \<and> b_data_size blk2 = b_data_size blk"
proof -
  from acquire_ok [OF inv at(1) b at(2) cap] obtain s1 e p f sa where al: "allocate_memory_for_block b s = Some (BLOCK_SIZE, sa)"
    and sa: "sa = s1\<lparr>io_pool := p, io_blocks := (io_blocks s1)(b \<mapsto> blk\<lparr>b_elem := Some e, b_data := Some e, b_valid := True\<rparr>)\<rparr>"
    and s1: "io_inv s1" "transparent s s1" "io_blocks s1 b = Some blk" "e \<notin> elems (io_blocks s1)"
      "live_pool (insert e (elems (io_blocks s1))) p" "block_size p = BLOCK_SIZE" "pool_capacity p = pool_capacity (io_pool s)"
      "quiet sa" "map_find n (io_files s1) = Some f" "path_of s1 n = Some (io_mount s1 @ f_path f)"
    and rd: "on_storage blk \<longrightarrow> (\<exists>c g fd k. io_disk s1 (io_mount s1 @ f_path f) = Some c \<and>
       read_from_storage (f_path f) n b sa = Some (readable blk c,
         visited n g fd k (sa\<lparr>io_mem := (io_mem s1)(e := loaded blk c (io_mem s1 e))\<rparr>)) \<and> same_file f g \<and> 0 \<le> fd \<and>
       (\<forall>i x. content_at (view s1) n st i = Some x \<longrightarrow> i < nat (readable blk c) \<and> loaded blk c (io_mem s1 e) i = x))" by blast
  have os: "on_storage blk" using kn b(2) by (simp add: known_def)
  with rd obtain c g fd k where c: "io_disk s1 (io_mount s1 @ f_path f) = Some c"
    "read_from_storage (f_path f) n b sa = Some (readable blk c,
         visited n g fd k (sa\<lparr>io_mem := (io_mem s1)(e := loaded blk c (io_mem s1 e))\<rparr>))" "same_file f g" "0 \<le> fd"
    "\<And>i x. content_at (view s1) n st i = Some x \<Longrightarrow> i < nat (readable blk c) \<and> loaded blk c (io_mem s1 e) i = x" by blast
  have tr: "blk_at s1 n st = Some b" "\<not> deleted s1 n" using s1(2) at by (simp_all add: transparent_def)
  from at_block [OF s1(1) tr(1)] s1(3) have ab: "b_file blk = n" "b_start blk = st" "b_exist blk = EXISTING \<longleftrightarrow> existing s1 n"
    "b_postponed blk \<noteq> TO_BE_DELETED" "block_inv (view s1) b blk" using tr(2) by auto
  have sh: "0 \<le> st" "BLOCK_SIZE dvd st" "0 \<le> b_data_size blk" "b_data_size blk \<le> BLOCK_SIZE"
    using ab(2,5) by (auto simp: block_inv_def block_shape_def)
  have full: "i < nat (readable blk c)" if i: "i < nat (b_data_size blk)" for i
  proof -
    have "i < block_bytes" using i sh(4) by (simp add: zless_nat_eq_int_zless)
    have "content (view s) n (st + int i) \<noteq> None" using kn b(2) i ab(2) by (simp add: known_def)
    moreover have "content (view s) n \<subseteq>\<^sub>m content (view s1) n" using s1(2) at(2) by (simp add: transparent_def)
    ultimately have "content (view s1) n (st + int i) \<noteq> None" by (auto simp: map_le_def dom_def)
    then show ?thesis using content_block [OF sh(1,2) \<open>i < block_bytes\<close>] c(5) by auto
  qed
  have st: "stored blk c"
  proof (cases "nat (b_data_size blk)")
    case 0
    then show ?thesis using sh(3) by (simp add: stored_def)
  next
    case (Suc i)
    then show ?thesis using full [of i] by (auto simp: readable_def stored_def)
  qed
  let ?blk = "blk\<lparr>b_elem := Some e, b_data := Some e, b_valid := True, b_swapout := True\<rparr>"
  define s3 where "s3 = visited n g fd k (sa\<lparr>io_mem := (io_mem s1)(e := loaded blk c (io_mem s1 e))\<rparr>)"
  let ?s4 = "s3\<lparr>io_blocks := (io_blocks s1)(b \<mapsto> ?blk)\<rparr>"
  have s3: "io_blocks s3 = (io_blocks s1)(b \<mapsto> blk\<lparr>b_elem := Some e, b_data := Some e, b_valid := True\<rparr>)" "io_queue s3 = io_queue s1"
    "io_env s3 = io_env s1" "(io_mount s3 = io_mount s1 \<and> io_sync_tasks s3 = io_sync_tasks s1)" "io_sent s3 = io_sent s1" "io_fresh s3 = io_fresh s1"
    by (simp_all add: s3_def sa) (simp add: visited_def)
  have q3: "quiet s3" unfolding s3_def using s1(8,9) sa c(3,4)
    by (intro visited_quiet [of _ n f]) (auto simp: quiet_def)
  have v3: "view s3 = (view s1)\<lparr>v_pool := p, v_blocks := io_blocks s3, v_mem := (io_mem s1)(e := loaded blk c (io_mem s1 e))\<rparr>"
    unfolding s3(1) unfolding s3_def using s1(9) sa c(3) by (subst visited_view [of n _ f]) (simp_all add: view_def)
  have pgn: "b_page blk = None"
    using s1(1,3) b(2) by (force simp: io_inv_def queue_ok_def pages_ok_def split: option.splits)
  have "blk\<lparr>b_file := n\<rparr> = blk" using ab(1) by (cases blk) simp
  then have "upd_block b (\<lambda>blk. blk\<lparr>b_file := n\<rparr>) s = Some s" using upd_block_id [of s b blk] b(1) by simp
  moreover have "read_from_storage (f_path f) n b sa = Some (readable blk c, s3)" using c(2) by (simp add: s3_def)
  moreover have "map_find n (io_files sa) = Some f" "io_blocks sa b = Some (blk\<lparr>b_elem := Some e, b_data := Some e, b_valid := True\<rparr>)"
    using s1(9) by (simp_all add: sa)
  moreover have "upd_block b (\<lambda>blk. blk\<lparr>b_swapout := True\<rparr>) s3 = Some ?s4" by (simp add: upd_block_def deref_block_def s3(1))
  ultimately have l: "load_block n b s = Some ?s4"
    using b al os by (auto simp: load_block_def deref_block_def need_allocation_def on_storage_def)
  have i1: "queue_ok (io_queue ?s4) (io_blocks s1)" "cinv (view s1)" using s1(1) s3(2) by (auto simp: io_inv_def)
  have b4: "io_blocks ?s4 b = Some ?blk" "b_data ?blk \<noteq> None" by simp_all
  from update_access_order_ok [OF i1(1) b4, of False] pgn s1(3) obtain pg q where
    u: "update_access_order b False ?s4 = Some (?s4\<lparr>io_queue := q, io_blocks := (io_blocks ?s4)(b \<mapsto> ?blk\<lparr>b_page := Some pg\<rparr>)\<rparr>)"
      "queue_ok q ((io_blocks s1)(b \<mapsto> ?blk\<lparr>b_page := Some pg\<rparr>))" by auto
  define Y where "Y = s3\<lparr>io_queue := q, io_blocks := (io_blocks s1)(b \<mapsto> ?blk\<lparr>b_page := Some pg\<rparr>)\<rparr>"
  let ?bY = "?blk\<lparr>b_page := Some pg\<rparr>"
  have uY: "update_access_order b False ?s4 = Some Y" using u(1) by (simp add: Y_def)
  have qY: "quiet Y" using q3 s3(1,6) s1(3) by (auto simp: quiet_def Y_def)
  have vY: "view Y = put_view n st b ?bY e (loaded blk c (io_mem s1 e)) p (view s1)"
    using v3 tr(1) by (simp add: Y_def put_view_def view_def fun_upd_idem)
  have put: "puttable (view s1) n st b ?bY e p"
    using ab tr s1 b(2) by (simp add: puttable_def block_inv_def block_shape_def)
  have "transparent s1 Y"
  proof (rule put_transparent [OF s1(1) tr(1) put _ _ qY vY])
    show "\<exists>q c'. path_of s1 n = Some q \<and> io_disk s1 q = Some c' \<and> stored ?bY c' \<and>
      (\<forall>i<nat (b_data_size ?bY). c' ! (nat (b_start ?bY) + i) = loaded blk c (io_mem s1 e) i)"
      using s1(10) c(1) st full loaded_nth [of _ blk c] by (auto simp: stored_def readable_def)
  next
    fix i x assume "content_at (view s1) n st i = Some x"
    from c(5) [OF this] show "i < nat (b_data_size ?bY) \<and> loaded blk c (io_mem s1 e) i = x" by (auto simp: readable_def)
  qed (use s3 s1(2,7) in \<open>simp_all add: Y_def transparent_def\<close>)
  moreover from this have "io_inv Y" using u(2) by (simp add: io_inv_def transparent_def Y_def)
  moreover have "io_blocks Y b = Some ?bY" by (simp add: Y_def)
  ultimately show ?thesis using l uY transparent_trans [OF s1(2)] by (intro exI [of _ ?s4] exI [of _ Y] exI [of _ ?bY] exI [of _ e]) simp
qed

end
