(* ===== verification/IOnode_Write.thy ===== *)
theory IOnode_Write
  imports IOnode_Access
begin

text \<open>
  New blocks and writes: \<^verbatim>\<open>create_new_block\<close>, \<^verbatim>\<open>update_block_data\<close> and the loop of
  \<^verbatim>\<open>_receive_data\<close>. A write makes the bytes it carries the content of the file and keeps every
  other byte that was known.
\<close>

section \<open>New blocks\<close>

definition add_view :: "ssize_t \<Rightarrow> off64_t \<Rightarrow> nat \<Rightarrow> block \<Rightarrow> cview \<Rightarrow> cview" where
  "add_view n st b blk v = v\<lparr>v_at := (v_at v)(n := (v_at v n)(st \<mapsto> b)), v_blocks := (v_blocks v)(b \<mapsto> blk)\<rparr>"

lemma add_view_ok:
  assumes inv: "cinv v" and new: "v_at v n st = None" "v_blocks v b = None" "v_path v n \<noteq> None" "\<not> v_del v n"
    and blk: "block_shape blk" "b_elem blk = None" "b_data blk = None" "\<not> b_dirty blk" "b_file blk = n" "b_start blk = st"
      "b_exist blk = EXISTING \<longleftrightarrow> v_exist v n" "b_postponed blk \<noteq> TO_BE_DELETED" "b_swapout blk"
  shows "cinv (add_view n st b blk v)" "content v m \<subseteq>\<^sub>m content (add_view n st b blk v) m"
proof -
  let ?v = "add_view n st b blk v"
  have f: "v_path ?v = v_path v" "v_mem ?v = v_mem v" "v_at ?v = (v_at v)(n := (v_at v n)(st \<mapsto> b))" "v_del ?v = v_del v"
    "v_exist ?v = v_exist v" "v_disk ?v = v_disk v" "v_pool ?v = v_pool v" "v_blocks ?v = (v_blocks v)(b \<mapsto> blk)"
    by (simp_all add: add_view_def)
  have co: "coherent ?v k x = coherent v k x" "block_byte ?v k x i = block_byte v k x i" for k x i
    unfolding coherent_def block_byte_def f by simp_all
  have own: "b' \<noteq> b" if "v_at v n' st' = Some b'" for n' st' b'
    using cinvD(2) [OF inv that] new(2) by (auto simp: at_inv_def)
  show "cinv ?v" unfolding cinv_def
  proof (intro conjI allI impI)
    fix b1 x assume x: "v_blocks ?v b1 = Some x"
    show "block_inv ?v b1 x"
    proof (cases "b1 = b")
      case True
      then show ?thesis using x blk by (auto simp: f block_inv_def)
    next
      case False
      then have "block_inv v b1 x" using x cinvD(1) [OF inv] by (simp add: f)
      then show ?thesis using new(1) by (auto simp: block_inv_def f)
    qed
  next
    fix n' st' b' assume at: "v_at ?v n' st' = Some b'"
    show "at_inv ?v n' st' b'"
    proof (cases "n' = n \<and> st' = st")
      case True
      then have "b' = b" using at by (simp add: f)
      then show ?thesis using True new blk by (simp add: at_inv_def f co) (simp add: coherent_def)
    next
      case False
      then have at': "v_at v n' st' = Some b'" using at by (auto simp: f split: if_splits)
      from cinvD(2) [OF inv at'] own [OF at'] show ?thesis by (auto simp: at_inv_def f co)
    qed
  next
    fix b1 b2 x y e assume a: "v_blocks ?v b1 = Some x" "v_blocks ?v b2 = Some y" "b_data x = Some e" "b_data y = Some e"
    then show "b1 = b2" using blk(3) cinvD(3) [OF inv] by (auto simp: f split: if_splits)
  next
    have "elems ((v_blocks v)(b \<mapsto> blk)) = elems (v_blocks v)"
    proof (rule set_eqI)
      fix x show "x \<in> elems ((v_blocks v)(b \<mapsto> blk)) \<longleftrightarrow> x \<in> elems (v_blocks v)"
        using new(2) blk(3) unfolding elems_def by (auto split: if_splits) (metis option.distinct(1))
    qed
    then show "live_pool (elems (v_blocks ?v)) (v_pool ?v)" using cinvD(4) [OF inv] by (simp add: f)
  next
    show "block_size (v_pool ?v) = BLOCK_SIZE" using cinvD(5) [OF inv] by (simp add: f)
  next
    fix n m q assume "v_path ?v n = Some q" "v_path ?v m = Some q" "\<not> v_del ?v n" "\<not> v_del ?v m"
    then show "n = m" using cinvD(6) [OF inv] by (simp add: f)
  next
    fix n q assume "v_exist ?v n" "v_path ?v n = Some q"
    then show "v_disk ?v q \<noteq> None" using cinvD(7) [OF inv] by (simp add: f)
  qed
  show "content v m \<subseteq>\<^sub>m content ?v m"
  proof (rule content_leI)
    fix st' i x assume x: "content_at v m st' i = Some x"
    then obtain b' where b': "v_at v m st' = Some b'" by (auto simp: content_at_def split: option.splits)
    then have "v_at ?v m st' = Some b'" "b' \<noteq> b" using new(1) own [OF b'] by (auto simp: f)
    then show "content_at ?v m st' i = Some x" using x b' unfolding content_at_def co f(8) by simp
  qed
qed

text \<open>An operation that may add blocks to files.\<close>

definition extends :: "ionode \<Rightarrow> ionode \<Rightarrow> bool" where
  "extends s s' \<longleftrightarrow> io_inv s' \<and> io_env s' = io_env s \<and> (io_mount s' = io_mount s \<and> io_sync_tasks s' = io_sync_tasks s) \<and> io_sent s' = io_sent s \<and>
     path_of s' = path_of s \<and> deleted s' = deleted s \<and> existing s' = existing s \<and>
     pool_capacity (io_pool s') = pool_capacity (io_pool s) \<and>
     (\<forall>n st b. blk_at s n st = Some b \<longrightarrow> blk_at s' n st = Some b)"

lemma io_append_block_ok:
  assumes inv: "io_inv s" and f: "map_find n (io_files s) = Some f" "\<not> deleted s n" "map_find st (f_blocks f) = None"
    and st: "0 \<le> st" "BLOCK_SIZE dvd st" "0 \<le> sz" "sz \<le> BLOCK_SIZE"
  shows "\<exists>s1. create_new_block st sz False False n s = Some (io_fresh s, s1) \<and>
    (\<exists>s2. upd_iofile n (\<lambda>f. f\<lparr>f_blocks := fst (map_insert st (io_fresh s) (f_blocks f))\<rparr>) s1 = Some s2 \<and>
      extends s s2 \<and> blk_at s2 = (blk_at s)(n := (blk_at s n)(st \<mapsto> io_fresh s)) \<and> io_blocks s2 (io_fresh s) = Some (new_block st sz False (f_exist f) n) \<and>
      (\<forall>m. content (view s) m \<subseteq>\<^sub>m content (view s2) m))"
proof -
  let ?b = "io_fresh s" and ?blk = "new_block st sz False (f_exist f) n"
  from inv have i: "quiet s" "cinv (view s)" "queue_ok (io_queue s) (io_blocks s)" by (auto simp: io_inv_def)
  have fi: "map_inv (io_files s)" "map_inv (f_blocks f)" "f_read_fd f = -1" "f_write_fd f = -1" "io_blocks s ?b = None" "f_pool f = []"
    using i(1) f(1) by (auto simp: quiet_def)
  let ?s1 = "s\<lparr>io_fresh := ?b + 1, io_blocks := (io_blocks s)(?b \<mapsto> ?blk)\<rparr>"
  let ?g = "f\<lparr>f_blocks := map_set st ?b (f_blocks f)\<rparr>"
  let ?s2 = "?s1\<lparr>io_files := map_set n ?g (io_files s)\<rparr>"
  have ins: "fst (map_insert st ?b (f_blocks f)) = map_set st ?b (f_blocks f)"
    using map_insert_eq [OF fi(2)] f(3) by (simp add: map_find_None_iff)
  have c: "create_new_block st sz False False n s = Some (?b, ?s1)" using f(1) by (simp add: create_new_block_def Let_def)
  have u: "upd_iofile n (\<lambda>f. f\<lparr>f_blocks := fst (map_insert st ?b (f_blocks f))\<rparr>) ?s1 = Some ?s2"
    using f(1) ins by (simp add: upd_iofile_def)
  have at: "blk_at ?s2 = (blk_at s)(n := (blk_at s n)(st \<mapsto> ?b))" "path_of ?s2 = path_of s" "deleted ?s2 = deleted s" "existing ?s2 = existing s"
  proof -
    show "blk_at ?s2 = (blk_at s)(n := (blk_at s n)(st \<mapsto> ?b))" by (intro ext) (simp add: blk_at_def f(1))
    show "path_of ?s2 = path_of s" by (intro ext) (simp add: path_of_def f(1) split: option.splits)
    show "deleted ?s2 = deleted s" by (intro ext) (simp add: deleted_def f(1))
    show "existing ?s2 = existing s" by (intro ext) (simp add: existing_def f(1))
  qed
  have v: "view ?s2 = add_view n st ?b ?blk (view s)" unfolding view_def add_view_def at by simp
  have q: "quiet ?s2" using i(1) fi(1-4,6) by (simp add: quiet_def)
  have sh: "block_shape ?blk" using st by (simp add: block_shape_def new_block_def)
  have ex: "b_exist ?blk = EXISTING \<longleftrightarrow> existing s n" using f(1) by (simp add: existing_def new_block_def)
  have none: "blk_at s n st = None" "path_of s n \<noteq> None" using f(1,3) by (simp_all add: blk_at_def path_of_def)
  have fields: "b_elem ?blk = None" "b_data ?blk = None" "\<not> b_dirty ?blk" "b_file ?blk = n" "b_start ?blk = st"
    "b_postponed ?blk \<noteq> TO_BE_DELETED" "b_swapout ?blk" "b_page ?blk = None" by (simp_all add: new_block_def)
  have av: "cinv (view ?s2)" "content (view s) m \<subseteq>\<^sub>m content (view ?s2) m" for m
    unfolding v using add_view_ok [OF i(2), of n st ?b ?blk] none fi(5) f(2) sh fields ex by simp_all
  have qu: "queue_ok (io_queue ?s2) (io_blocks ?s2)"
  proof -
    from i(3) obtain us fs ds where "aq_inv (io_queue s) us fs ds" "pages_ok us (aq_data (io_queue s)) (io_blocks s)" by (auto simp: queue_ok_def)
    moreover from this(2) have "pages_ok us (aq_data (io_queue s)) ((io_blocks s)(?b \<mapsto> ?blk))"
      using fi(5) fields(2,8) unfolding pages_ok_def by (auto split: option.splits) (metis option.distinct(1))+
    ultimately show ?thesis by (auto simp: queue_ok_def)
  qed
  have "extends s ?s2" unfolding extends_def at using av(1) q qu none(1) by (auto simp: io_inv_def)
  then show ?thesis using c u at(1) av(2)
    by (intro exI [of _ ?s1] conjI exI [of _ ?s2]) simp_all
qed

section \<open>Memory for the block\<close>

lemma fill_block_resident:
  assumes inv: "io_inv s" and at: "blk_at s n st = Some b" "\<not> deleted s n" and b: "io_blocks s b = Some blk" "b_data blk = Some e"
  shows "fill_block n b s = Some s" "puttable (view s) n st b blk e (io_pool s)"
    "view s = put_view n st b blk e (io_mem s e) (io_pool s) (view s)"
    "content_at (view s) n st i = Some x \<Longrightarrow> i < nat (b_data_size blk) \<and> io_mem s e i = x"
proof -
  from at_block [OF inv at(1)] b(1) have ab: "b_file blk = n" "b_start blk = st" "b_exist blk = EXISTING \<longleftrightarrow> existing s n"
    "b_postponed blk \<noteq> TO_BE_DELETED" "block_inv (view s) b blk" "path_of s n \<noteq> None" using at(2) by auto
  show "fill_block n b s = Some s" using b ab(5) by (simp add: fill_block_def deref_block_def need_allocation_def block_inv_def)
  have "block_size (io_pool s) = BLOCK_SIZE" using inv cinvD(5) [of "view s"] by (simp add: io_inv_def)
  then show "puttable (view s) n st b blk e (io_pool s)" using ab b at by (simp add: puttable_def block_inv_def)
  show "view s = put_view n st b blk e (io_mem s e) (io_pool s) (view s)"
    using at(1) b(1) by (simp add: put_view_def view_def fun_upd_idem)
  assume "content_at (view s) n st i = Some x"
  then show "i < nat (b_data_size blk) \<and> io_mem s e i = x"
    using at(1) b by (simp add: content_at_def block_byte_def split: if_splits)
qed

lemma fill_block_absent:
  assumes inv: "io_inv s" and at: "blk_at s n st = Some b" "\<not> deleted s n" and b: "io_blocks s b = Some blk" "b_data blk = None"
    and cap: "0 < pool_capacity (io_pool s)"
  shows "\<exists>s1 s2 blk2 e p. fill_block n b s = Some s2 \<and> io_inv s1 \<and> transparent s s1 \<and> quiet s2 \<and>
    puttable (view s1) n st b blk2 e p \<and> view s2 = put_view n st b blk2 e (io_mem s2 e) p (view s1) \<and>
    io_queue s2 = io_queue s1 \<and> pool_capacity p = pool_capacity (io_pool s) \<and> io_env s2 = io_env s1 \<and> (io_mount s2 = io_mount s1 \<and> io_sync_tasks s2 = io_sync_tasks s1) \<and>
    io_sent s2 = io_sent s1 \<and> io_blocks s1 b = Some blk \<and> b_page blk2 = None \<and>
    (\<forall>i x. content_at (view s1) n st i = Some x \<longrightarrow> i < nat (b_data_size blk2) \<and> io_mem s2 e i = x)"
proof -
  from acquire_ok [OF inv at(1) b at(2) cap] obtain s1 e p f sa where al: "allocate_memory_for_block b s = Some (BLOCK_SIZE, sa)"
    and sa: "sa = s1\<lparr>io_pool := p, io_blocks := (io_blocks s1)(b \<mapsto> blk\<lparr>b_elem := Some e, b_data := Some e, b_valid := True\<rparr>)\<rparr>"
    and s1: "io_inv s1" "transparent s s1" "io_blocks s1 b = Some blk" "e \<notin> elems (io_blocks s1)"
      "live_pool (insert e (elems (io_blocks s1))) p" "block_size p = BLOCK_SIZE" "pool_capacity p = pool_capacity (io_pool s)"
      "quiet sa" "map_find n (io_files s1) = Some f" "path_of s1 n = Some (io_mount s1 @ f_path f)"
    and rd: "on_storage blk \<longrightarrow> (\<exists>c g fd k. io_disk s1 (io_mount s1 @ f_path f) = Some c \<and>
       read_from_storage (f_path f) n b sa = Some (readable blk c,
         visited n g fd k (sa\<lparr>io_mem := (io_mem s1)(e := loaded blk c (io_mem s1 e))\<rparr>)) \<and> same_file f g \<and> 0 \<le> fd \<and>
       (\<forall>i x. content_at (view s1) n st i = Some x \<longrightarrow> i < nat (readable blk c) \<and> loaded blk c (io_mem s1 e) i = x))" by blast
  have tr: "blk_at s1 n st = Some b" "\<not> deleted s1 n" using s1(2) at by (simp_all add: transparent_def)
  from at_block [OF s1(1) tr(1)] s1(3) have ab: "b_file blk = n" "b_start blk = st" "b_exist blk = EXISTING \<longleftrightarrow> existing s1 n"
    "b_postponed blk \<noteq> TO_BE_DELETED" "block_inv (view s1) b blk" "path_of s1 n \<noteq> None" using tr(2) by auto
  have pgn: "b_page blk = None"
    using s1(1,3) b(2) by (force simp: io_inv_def queue_ok_def pages_ok_def split: option.splits)
  have put: "puttable (view s1) n st b (blk\<lparr>b_elem := Some e, b_data := Some e, b_data_size := z, b_swapout := w, b_valid := True\<rparr>) e p"
    if "0 \<le> z" "z \<le> BLOCK_SIZE" for z w
    using that ab tr s1 b(2) by (simp add: puttable_def block_inv_def block_shape_def)
  let ?blka = "blk\<lparr>b_elem := Some e, b_data := Some e, b_valid := True\<rparr>"
  have ma: "map_find n (io_files sa) = Some f" "io_blocks sa b = Some ?blka" using s1(9) by (simp_all add: sa)
  have ex: "f_exist f = EXISTING \<or> b_swapout blk = SWAPPED_OUT \<longleftrightarrow> on_storage blk"
    using ab(3) existing_file [OF s1(9)] by (auto simp: on_storage_def)
  have fb: "fill_block n b s = (if on_storage blk then do {
      (r, s3) \<leftarrow> read_from_storage (f_path f) n b sa;
      s4 \<leftarrow> upd_block b (\<lambda>blk. blk\<lparr>b_data_size := r, b_swapout := INBUFFER\<rparr>) s3;
      upd_block b (\<lambda>blk. blk\<lparr>b_valid := True\<rparr>) s4 } else Some sa)"
    using b al ma ex upd_block_id [OF ma(2), of "\<lambda>blk. blk\<lparr>b_valid := True\<rparr>"]
    by (simp add: fill_block_def deref_block_def need_allocation_def case_prod_unfold)
  show ?thesis
  proof (cases "on_storage blk")
    case False
    have "?blka = blk\<lparr>b_elem := Some e, b_data := Some e, b_data_size := b_data_size blk, b_swapout := b_swapout blk, b_valid := True\<rparr>"
      by (cases blk) simp
    then have "puttable (view s1) n st b ?blka e p"
      using put [of "b_data_size blk" "b_swapout blk"] ab(5) by (simp add: block_inv_def block_shape_def)
    moreover have "view sa = put_view n st b ?blka e (io_mem sa e) p (view s1)"
      using tr(1) by (simp add: sa put_view_def view_def fun_upd_idem)
    moreover have "content_at (view s1) n st i = None" for i
      using tr(1) s1(3) b(2) False by (simp add: content_at_def block_byte_def)
    ultimately show ?thesis using fb False s1 pgn
      by (intro exI [of _ s1] exI [of _ sa] exI [of _ ?blka] exI [of _ e] exI [of _ p]) (simp add: sa)
  next
    case True
    with rd obtain c g fd k where c: "io_disk s1 (io_mount s1 @ f_path f) = Some c"
      "read_from_storage (f_path f) n b sa = Some (readable blk c,
           visited n g fd k (sa\<lparr>io_mem := (io_mem s1)(e := loaded blk c (io_mem s1 e))\<rparr>))" "same_file f g" "0 \<le> fd"
      "\<And>i x. content_at (view s1) n st i = Some x \<Longrightarrow> i < nat (readable blk c) \<and> loaded blk c (io_mem s1 e) i = x" by blast
    let ?blk = "blk\<lparr>b_elem := Some e, b_data := Some e, b_data_size := readable blk c, b_swapout := True, b_valid := True\<rparr>"
    define s3 where "s3 = visited n g fd k (sa\<lparr>io_mem := (io_mem s1)(e := loaded blk c (io_mem s1 e))\<rparr>)"
    let ?s4 = "s3\<lparr>io_blocks := (io_blocks s1)(b \<mapsto> ?blk)\<rparr>"
    have s3: "io_blocks s3 = (io_blocks s1)(b \<mapsto> ?blka)" "io_queue s3 = io_queue s1"
      "io_env s3 = io_env s1" "(io_mount s3 = io_mount s1 \<and> io_sync_tasks s3 = io_sync_tasks s1)" "io_sent s3 = io_sent s1" "io_fresh s3 = io_fresh s1"
      "io_mem s3 = (io_mem s1)(e := loaded blk c (io_mem s1 e))"
      by (simp_all add: s3_def sa) (simp add: visited_def)
    have q3: "quiet s3" unfolding s3_def using s1(8,9) sa c(3,4)
      by (intro visited_quiet [of _ n f]) (auto simp: quiet_def)
    have v3: "view s3 = (view s1)\<lparr>v_pool := p, v_blocks := io_blocks s3, v_mem := (io_mem s1)(e := loaded blk c (io_mem s1 e))\<rparr>"
      unfolding s3(1) unfolding s3_def using s1(9) sa c(3) by (subst visited_view [of n _ f]) (simp_all add: view_def)
    have "fill_block n b s = Some ?s4"
      using fb True c(2) [folded s3_def] by (simp add: upd_block_def deref_block_def s3(1))
    moreover have "readable blk c \<le> BLOCK_SIZE" "0 \<le> readable blk c"
      using ab(5) by (auto simp: readable_def block_inv_def block_shape_def min_def)
    moreover have "quiet ?s4" using q3 s3(1,6) s1(3) by (auto simp: quiet_def)
    moreover have "view ?s4 = put_view n st b ?blk e (loaded blk c (io_mem s1 e)) p (view s1)"
      using v3 tr(1) by (simp add: put_view_def view_def fun_upd_idem)
    ultimately show ?thesis using put [of "readable blk c" True] c(5) s1 s3 pgn
      by (intro exI [of _ s1] exI [of _ ?s4] exI [of _ ?blk] exI [of _ e] exI [of _ p]) simp
  qed
qed

section \<open>Storing what was received\<close>

lemma mem_after_blocks: "s\<lparr>io_mem := a, io_blocks := b\<rparr> = s\<lparr>io_blocks := b, io_mem := a\<rparr>"
  by simp

text \<open>\<open>s1\<close> is the state before the block was given memory, \<open>s2\<close> the state after.\<close>

lemma receive_block_ok:
  assumes inv: "io_inv s1" "blk_at s1 n st = Some b" "\<not> deleted s1 n" and q2: "quiet s2" "io_queue s2 = io_queue s1"
    and put: "puttable (view s1) n st b blk2 e p" and v2: "view s2 = put_view n st b blk2 e (io_mem s2 e) p (view s1)"
    and pg: "case b_page blk2 of None \<Rightarrow> \<forall>x. io_blocks s1 b = Some x \<longrightarrow> b_page x = None
             | Some p \<Rightarrow> \<exists>x. io_blocks s1 b = Some x \<and> b_page x = Some p"
    and rg: "0 \<le> off" "0 < sz" "off + sz \<le> BLOCK_SIZE" and rcv: "get_received_data (nat sz) t = Some (bs, t')"
  shows "\<exists>s' blk'. receive_block n b off sz t s2 = Some (sz, t', s') \<and> io_inv s' \<and>
    view s' = put_view n st b blk' e (put_bytes (nat off) bs (io_mem s2 e)) p (view s1) \<and> io_blocks s' b = Some blk' \<and>
    b_data blk' = Some e \<and> b_data_size blk' = max (b_data_size blk2) (off + sz) \<and>
    io_env s' = io_env s2 \<and> (io_mount s' = io_mount s2 \<and> io_sync_tasks s' = io_sync_tasks s2) \<and> io_sent s' = io_sent s2 \<and> puttable (view s1) n st b blk' e p \<and> b_dirty blk'"
proof -
  have i1: "cinv (view s1)" "queue_ok (io_queue s1) (io_blocks s1)" using inv(1) by (auto simp: io_inv_def)
  have B2: "io_blocks s2 = (io_blocks s1)(b \<mapsto> blk2)" and M2: "io_mem s2 = (io_mem s1)(e := io_mem s2 e)"
    and P2: "io_pool s2 = p" "blk_at s2 = (blk_at s1)(n := (blk_at s1 n)(st \<mapsto> b))" "path_of s2 = path_of s1" "deleted s2 = deleted s1"
      "existing s2 = existing s1" "io_disk s2 = io_disk s1"
    using arg_cong [OF v2, of v_blocks] arg_cong [OF v2, of v_mem] arg_cong [OF v2, of v_pool] arg_cong [OF v2, of v_at]
      arg_cong [OF v2, of v_path] arg_cong [OF v2, of v_del] arg_cong [OF v2, of v_exist] arg_cong [OF v2, of v_disk]
    by (simp_all add: put_view_def)
  have M2': "(io_mem s2)(e := m) = (io_mem s1)(e := m)" for m using fun_cong [OF M2] by fastforce
  have e: "b_data blk2 = Some e" "b_elem blk2 = Some e" "block_shape blk2" "path_of s1 n \<noteq> None" using put by (auto simp: puttable_def)
  obtain f where f: "map_find n (io_files s2) = Some f" using e(4) P2(3) file_of_path [of s2 n] by auto
  have u: "u64 (off + sz) = off + sz" "\<not> BLOCK_SIZE < off + sz" using rg by (simp_all add: u64_def BLOCK_SIZE_def)
  define z where "z = max (b_data_size blk2) (off + sz)"
  let ?M = "(io_mem s2)(e := put_bytes (nat off) bs (io_mem s2 e))"
  let ?blk5 = "blk2\<lparr>b_data_size := z, b_receiving := True, b_dirty := True\<rparr>"
  define s5 where "s5 = s2\<lparr>io_blocks := (io_blocks s2)(b \<mapsto> ?blk5), io_mem := ?M,
     io_files := (if b_dirty blk2 then io_files s2 else map_set n (f\<lparr>f_dirty_pages := f_dirty_pages f + 1\<rparr>) (io_files s2))\<rparr>"
  have dd: "b_dirty blk2 \<Longrightarrow> blk2\<lparr>b_data_size := w, b_receiving := v, b_dirty := True\<rparr> = blk2\<lparr>b_data_size := w, b_receiving := v\<rparr>"
    "b_dirty blk2 \<Longrightarrow> blk2\<lparr>b_receiving := v, b_dirty := True\<rparr> = blk2\<lparr>b_receiving := v\<rparr>" for w v by (cases blk2; simp)+
  have r: "receive_block n b off sz t s2 =
      do { s6 \<leftarrow> update_access_order b True s5; s7 \<leftarrow> upd_block b (\<lambda>blk. blk\<lparr>b_receiving := False\<rparr>) s6; Some (sz, t', s7) }"
    using u rg(1,3) rcv e(1) f unfolding s5_def
    by (cases "b_dirty blk2"; cases "b_data_size blk2 < off + sz")
      (simp_all add: receive_block_def upd_block_def deref_block_def upd_iofile_def B2 z_def max_def mem_after_blocks dd)
  have b5: "io_blocks s5 b = Some ?blk5" "b_data ?blk5 \<noteq> None" "queue_ok (io_queue s5) (io_blocks s1)"
    using e(1) i1(2) q2(2) by (simp_all add: s5_def)
  have pg5: "case b_page ?blk5 of None \<Rightarrow> \<forall>x. io_blocks s1 b = Some x \<longrightarrow> b_page x = None
      | Some p \<Rightarrow> \<exists>x. io_blocks s1 b = Some x \<and> b_page x = Some p" using pg by (simp split: option.splits)
  from update_access_order_ok [OF b5(3,1,2) pg5, of True] obtain pp q where
    a: "update_access_order b True s5 = Some (s5\<lparr>io_queue := q, io_blocks := (io_blocks s5)(b \<mapsto> ?blk5\<lparr>b_page := Some pp\<rparr>)\<rparr>)"
      "queue_ok q ((io_blocks s1)(b \<mapsto> ?blk5\<lparr>b_page := Some pp\<rparr>))" by blast
  let ?blk = "blk2\<lparr>b_data_size := z, b_dirty := True, b_page := Some pp, b_receiving := False\<rparr>"
  define s' where "s' = s5\<lparr>io_queue := q, io_blocks := (io_blocks s1)(b \<mapsto> ?blk)\<rparr>"
  have rs: "receive_block n b off sz t s2 = Some (sz, t', s')"
    unfolding r a(1) by (simp add: upd_block_def deref_block_def s'_def s5_def B2)
  have sh: "block_shape ?blk" using e(3) rg by (auto simp: block_shape_def z_def)
  have pt: "puttable (view s1) n st b ?blk e p" using put sh unfolding puttable_def by simp
  have fv: "blk_at s5 = blk_at s2" "path_of s5 = path_of s2" "deleted s5 = deleted s2" "existing s5 = existing s2"
    using f by (auto simp: fun_eq_iff s5_def blk_at_def path_of_def deleted_def existing_def split: option.splits)
  have v': "view s' = put_view n st b ?blk e (put_bytes (nat off) bs (io_mem s2 e)) p (view s1)"
  proof -
    have "blk_at s' = blk_at s2" "path_of s' = path_of s2" "deleted s' = deleted s2" "existing s' = existing s2"
      using fv by (simp_all add: s'_def)
    moreover have "io_mem s' = (io_mem s1)(e := put_bytes (nat off) bs (io_mem s2 e))" using M2' by (auto simp: s'_def s5_def)
    ultimately show ?thesis unfolding view_def put_view_def by (simp add: P2) (simp add: s'_def s5_def P2)
  qed
  have "quiet s'" using q2(1) f inv(2) i1(1) unfolding quiet_def by (auto simp: s'_def s5_def B2 split: if_splits)
  moreover have "cinv (view s')" unfolding v' by (rule put_view_ok(1) [OF i1(1) pt]) simp
  moreover have "queue_ok q ((io_blocks s1)(b \<mapsto> ?blk))"
  proof -
    from a(2) obtain us fs ds where "aq_inv q us fs ds" "pages_ok us (aq_data q) ((io_blocks s1)(b \<mapsto> ?blk5\<lparr>b_page := Some pp\<rparr>))" by (auto simp: queue_ok_def)
    moreover from pages_ok_same [OF this(2), of b "?blk5\<lparr>b_page := Some pp\<rparr>" pp ?blk us] e(1)
    have "pages_ok us (aq_data q) ((io_blocks s1)(b \<mapsto> ?blk))" by simp
    ultimately show ?thesis by (auto simp: queue_ok_def)
  qed
  ultimately have "io_inv s'" by (simp add: io_inv_def s'_def)
  then show ?thesis using rs v' pt e(1) by (intro exI [of _ s'] exI [of _ ?blk]) (simp add: s'_def s5_def z_def)
qed

section \<open>A write of one block\<close>

text \<open>The specification: a file is a partial function from offsets to bytes.\<close>

definition overwrite :: "(off64_t \<Rightarrow> byte option) \<Rightarrow> off64_t \<Rightarrow> byte list \<Rightarrow> off64_t \<Rightarrow> byte option" where
  "overwrite c x bs = (\<lambda>y. if x \<le> y \<and> y < x + int (length bs) then Some (bs ! nat (y - x)) else c y)"

lemma overwrite_Nil [simp]: "overwrite c x [] = c"
  by (rule ext) (auto simp: overwrite_def)

lemma overwrite_append: "overwrite c x (bs @ cs) = overwrite (overwrite c x bs) (x + int (length bs)) cs"
proof
  fix y
  have "nat (y - x) - length bs = nat (y - (x + int (length bs)))" if "x + int (length bs) \<le> y" using that by linarith
  then show "overwrite c x (bs @ cs) y = overwrite (overwrite c x bs) (x + int (length bs)) cs y"
    by (auto simp: overwrite_def nth_append)
qed

lemma overwrite_mono: "c \<subseteq>\<^sub>m c' \<Longrightarrow> overwrite c x bs \<subseteq>\<^sub>m overwrite c' x bs"
  by (auto simp: overwrite_def map_le_def dom_def split: if_splits)

text \<open>The state \<open>s'\<close> has the bytes \<open>bs\<close> at offset \<open>x\<close> of the file \<open>n\<close> and else every byte known before.\<close>

definition stores :: "ionode \<Rightarrow> ssize_t \<Rightarrow> off64_t \<Rightarrow> byte list \<Rightarrow> ionode \<Rightarrow> bool" where
  "stores s n x bs s' \<longleftrightarrow> io_inv s' \<and> io_env s' = io_env s \<and> (io_mount s' = io_mount s \<and> io_sync_tasks s' = io_sync_tasks s) \<and> io_sent s' = io_sent s \<and>
     path_of s' = path_of s \<and> deleted s' = deleted s \<and> existing s' = existing s \<and>
     pool_capacity (io_pool s') = pool_capacity (io_pool s) \<and>
     (\<forall>m. \<not> deleted s m \<longrightarrow> (if m = n then overwrite (content (view s) n) x bs else content (view s) m) \<subseteq>\<^sub>m content (view s') m)"

lemma storesD:
  assumes "stores s n x bs s'"
  shows "\<not> deleted s n \<Longrightarrow> overwrite (content (view s) n) x bs \<subseteq>\<^sub>m content (view s') n"
    "\<not> deleted s m \<Longrightarrow> m \<noteq> n \<Longrightarrow> content (view s) m \<subseteq>\<^sub>m content (view s') m" "deleted s' = deleted s"
  using assms unfolding stores_def by presburger+

lemma stores_trans:
  assumes "stores s n x bs s'" "stores s' n (x + int (length bs)) cs s''"
  shows "stores s n x (bs @ cs) s''"
proof -
  have "(if m = n then overwrite (content (view s) n) x (bs @ cs) else content (view s) m) \<subseteq>\<^sub>m content (view s'') m"
    if "\<not> deleted s m" for m
  proof (cases "m = n")
    case True
    from storesD(1) [OF assms(1)] storesD(1) [OF assms(2)] that
    have "overwrite (content (view s) n) x bs \<subseteq>\<^sub>m content (view s') n"
      and s'': "overwrite (content (view s') n) (x + int (length bs)) cs \<subseteq>\<^sub>m content (view s'') n"
      using True storesD(3) [OF assms(1)] by simp_all
    from overwrite_mono [OF this(1), of "x + int (length bs)" cs] s'' show ?thesis
      unfolding overwrite_append True by (simp add: map_le_trans)
  next
    case False
    have "content (view s) m \<subseteq>\<^sub>m content (view s') m" "content (view s') m \<subseteq>\<^sub>m content (view s'') m"
      using storesD(2) [OF assms(1) that False] storesD(2) [OF assms(2) _ False] storesD(3) [OF assms(1)] that by simp_all
    then show ?thesis using False by (simp add: map_le_trans)
  qed
  then show ?thesis using assms by (simp add: stores_def)
qed

lemma find_or_create_ok:
  assumes inv: "io_inv s" and f: "map_find n (io_files s) = Some f" "\<not> deleted s n"
    and st: "0 \<le> st" "BLOCK_SIZE dvd st" "0 \<le> sz" "sz \<le> BLOCK_SIZE"
  shows "\<exists>b s1. find_or_create_block n st sz s = Some (b, s1) \<and> extends s s1 \<and> blk_at s1 n st = Some b \<and>
    (\<forall>m. content (view s) m \<subseteq>\<^sub>m content (view s1) m)"
proof (cases "map_find st (f_blocks f)")
  case None
  from io_append_block_ok [OF inv f None st] obtain s1 s2 where
    "create_new_block st sz False False n s = Some (io_fresh s, s1)"
    "upd_iofile n (\<lambda>f. f\<lparr>f_blocks := fst (map_insert st (io_fresh s) (f_blocks f))\<rparr>) s1 = Some s2"
    "extends s s2" "blk_at s2 = (blk_at s)(n := (blk_at s n)(st \<mapsto> io_fresh s))" "\<forall>m. content (view s) m \<subseteq>\<^sub>m content (view s2) m" by blast
  then show ?thesis using f(1) None by (simp add: find_or_create_block_def)
next
  case (Some b)
  then show ?thesis using f(1) inv by (simp add: find_or_create_block_def extends_def blk_at_def)
qed

lemma fill_block_ok:
  assumes inv: "io_inv s" and at: "blk_at s n st = Some b" "\<not> deleted s n" and cap: "0 < pool_capacity (io_pool s)"
  shows "\<exists>s1 s2 blk2 e p. fill_block n b s = Some s2 \<and> io_inv s1 \<and> transparent s s1 \<and> quiet s2 \<and>
    puttable (view s1) n st b blk2 e p \<and> view s2 = put_view n st b blk2 e (io_mem s2 e) p (view s1) \<and>
    io_queue s2 = io_queue s1 \<and> pool_capacity p = pool_capacity (io_pool s) \<and> io_env s2 = io_env s1 \<and> (io_mount s2 = io_mount s1 \<and> io_sync_tasks s2 = io_sync_tasks s1) \<and>
    io_sent s2 = io_sent s1 \<and>
    (case b_page blk2 of None \<Rightarrow> \<forall>x. io_blocks s1 b = Some x \<longrightarrow> b_page x = None
             | Some p \<Rightarrow> \<exists>x. io_blocks s1 b = Some x \<and> b_page x = Some p) \<and>
    (\<forall>i x. content_at (view s1) n st i = Some x \<longrightarrow> i < nat (b_data_size blk2) \<and> io_mem s2 e i = x)"
proof -
  from at_block [OF inv at(1)] obtain blk where blk: "io_blocks s b = Some blk" by blast
  show ?thesis
  proof (cases "b_data blk")
    case None
    from fill_block_absent [OF inv at blk None cap] obtain s1 s2 blk2 e p where
      1: "fill_block n b s = Some s2" "io_inv s1" "transparent s s1" "quiet s2"
      "puttable (view s1) n st b blk2 e p" "view s2 = put_view n st b blk2 e (io_mem s2 e) p (view s1)"
      "io_queue s2 = io_queue s1" "pool_capacity p = pool_capacity (io_pool s)" "io_env s2 = io_env s1" "(io_mount s2 = io_mount s1 \<and> io_sync_tasks s2 = io_sync_tasks s1)"
      "io_sent s2 = io_sent s1" "io_blocks s1 b = Some blk" "b_page blk2 = None"
      "\<forall>i x. content_at (view s1) n st i = Some x \<longrightarrow> i < nat (b_data_size blk2) \<and> io_mem s2 e i = x" by blast
    moreover have "b_page blk = None"
      using 1(2,12) None by (force simp: io_inv_def queue_ok_def pages_ok_def split: option.splits)
    ultimately show ?thesis
      by (intro exI [of _ s1] exI [of _ s2] exI [of _ blk2] exI [of _ e] exI [of _ p]) simp
  next
    case (Some e)
    have "quiet s" "cinv (view s)" using inv by (simp_all add: io_inv_def)
    then show ?thesis using fill_block_resident [OF inv at blk Some] inv transparent_refl [of s] blk
      by (intro exI [of _ s] exI [of _ s] exI [of _ blk] exI [of _ e] exI [of _ "io_pool s"]) (simp split: option.splits)
  qed
qed

lemma update_block_data_ok:
  assumes inv: "io_inv s" and f: "map_find n (io_files s) = Some f" "\<not> deleted s n"
    and st: "0 \<le> st" "BLOCK_SIZE dvd st" and rg: "0 \<le> off" "0 < sz" "off + sz \<le> BLOCK_SIZE"
    and rcv: "get_received_data (nat sz) t = Some (bs, t')" "length bs = nat sz" and cap: "0 < pool_capacity (io_pool s)"
  shows "\<exists>s'. update_block_data n st off sz t s = Some (sz, t', s') \<and> stores s n (st + off) bs s'"
proof -
  have sz: "0 \<le> sz" "sz \<le> BLOCK_SIZE" using rg by simp_all
  from find_or_create_ok [OF inv f st sz] obtain b s0 where s0: "find_or_create_block n st sz s = Some (b, s0)" "extends s s0"
    "blk_at s0 n st = Some b" "\<And>m. content (view s) m \<subseteq>\<^sub>m content (view s0) m" by blast
  have i0: "io_inv s0" "\<not> deleted s0 n" "0 < pool_capacity (io_pool s0)" using s0(2) f(2) cap by (simp_all add: extends_def)
  from fill_block_ok [OF i0(1) s0(3) i0(2,3)] obtain s1 s2 blk2 e p where
    s2: "fill_block n b s0 = Some s2" "io_inv s1" "transparent s0 s1" "quiet s2"
      "puttable (view s1) n st b blk2 e p" "view s2 = put_view n st b blk2 e (io_mem s2 e) p (view s1)"
      "io_queue s2 = io_queue s1" "pool_capacity p = pool_capacity (io_pool s0)" "io_env s2 = io_env s1" "(io_mount s2 = io_mount s1 \<and> io_sync_tasks s2 = io_sync_tasks s1)"
      "io_sent s2 = io_sent s1"
      "case b_page blk2 of None \<Rightarrow> \<forall>x. io_blocks s1 b = Some x \<longrightarrow> b_page x = None
             | Some p \<Rightarrow> \<exists>x. io_blocks s1 b = Some x \<and> b_page x = Some p"
    and keep: "\<And>i x. content_at (view s1) n st i = Some x \<Longrightarrow> i < nat (b_data_size blk2) \<and> io_mem s2 e i = x" by blast
  have t1: "blk_at s1 n st = Some b" "\<not> deleted s1 n" using s2(3) s0(3) i0(2) by (simp_all add: transparent_def)
  from receive_block_ok [OF s2(2) t1 s2(4,7,5,6,12) rg rcv(1)] obtain s' blk' where
    s': "receive_block n b off sz t s2 = Some (sz, t', s')" "io_inv s'"
      "view s' = put_view n st b blk' e (put_bytes (nat off) bs (io_mem s2 e)) p (view s1)"
      "b_data_size blk' = max (b_data_size blk2) (off + sz)" "io_env s' = io_env s2" "(io_mount s' = io_mount s2 \<and> io_sync_tasks s' = io_sync_tasks s2)" "io_sent s' = io_sent s2"
      "puttable (view s1) n st b blk' e p" "b_dirty blk'" by (elim exE conjE) (rule that; (assumption | intro conjI)+)
  have fv: "path_of s' = path_of s1" "deleted s' = deleted s1" "existing s' = existing s1" "io_pool s' = p"
    using arg_cong [OF s'(3), of v_path] arg_cong [OF s'(3), of v_del] arg_cong [OF s'(3), of v_exist] arg_cong [OF s'(3), of v_pool]
    by (simp_all add: put_view_def)
  have ci: "cinv (view s1)" using s2(2) by (simp add: io_inv_def)
  have ca: "content_at (view s') m st' i = (if m = n \<and> st' = st then if i < nat (b_data_size blk')
      then Some (put_bytes (nat off) bs (io_mem s2 e) i) else None else content_at (view s1) m st' i)" for m st' i
    unfolding s'(3) by (rule put_view_ok(2) [OF ci s'(8)]) (use s'(9) in simp)
  have le: "content (view s) m \<subseteq>\<^sub>m content (view s1) m" if "\<not> deleted s m" for m
  proof -
    have "\<not> deleted s0 m" using that s0(2) by (simp add: extends_def)
    then show ?thesis using map_le_trans [OF s0(4)] s2(3) by (simp add: transparent_def)
  qed
  have out: "content (view s') m y = Some x"
    if "content (view s1) m y = Some x" "m \<noteq> n \<or> y < st + off \<or> st + off + sz \<le> y" for m y x
  proof -
    let ?st = "y div BLOCK_SIZE * BLOCK_SIZE" and ?i = "nat (y mod BLOCK_SIZE)"
    have y: "0 \<le> y" "content_at (view s1) m ?st ?i = Some x" using that(1) by (simp_all add: content_def split: if_splits)
    have "content_at (view s') m ?st ?i = Some x"
    proof (cases "m = n \<and> ?st = st")
      case True
      then have "?i < nat (b_data_size blk2)" "io_mem s2 e ?i = x" using keep [of ?i x] y(2) by simp_all
      moreover have "\<not> (nat off \<le> ?i \<and> ?i < nat off + length bs)"
      proof -
        have "st + y mod BLOCK_SIZE = y" using conjunct2 [OF True] div_mult_mod_eq [of y BLOCK_SIZE] by linarith
        moreover have "0 \<le> y mod BLOCK_SIZE" by simp
        moreover have "y < st + off \<or> st + off + sz \<le> y" using that(2) True by blast
        ultimately show ?thesis using rg(1,2) unfolding rcv(2) by linarith
      qed
      ultimately show ?thesis using True by (auto simp: ca s'(4) put_bytes_def)
    next
      case False
      then show ?thesis using y(2) by (auto simp: ca)
    qed
    then show ?thesis using y(1) by (simp add: content_def)
  qed
  have inn: "content (view s') n y = Some (bs ! nat (y - (st + off)))" if "st + off \<le> y" "y < st + off + sz" for y
  proof -
    have i: "nat (y - st) < block_bytes" "int (nat (y - st)) = y - st" using that rg by linarith+
    from content_block [OF st i(1), of "view s'" n] i(2)
    have "content (view s') n y = content_at (view s') n st (nat (y - st))" by simp
    moreover have "nat (y - st) - nat off = nat (y - (st + off))" using that rg(1) by linarith
    moreover have "nat off \<le> nat (y - st)" "nat (y - st) < nat off + length bs" "nat (y - st) < nat (b_data_size blk')"
      using that rg unfolding rcv(2) s'(4) by linarith+
    ultimately show ?thesis by (simp add: ca put_bytes_def)
  qed
  have "(if m = n then overwrite (content (view s) n) (st + off) bs else content (view s) m) \<subseteq>\<^sub>m content (view s') m"
    if d: "\<not> deleted s m" for m
    using le [OF d] out [of m] inn rcv(2) rg(2)
    by (auto simp: map_le_def dom_def overwrite_def split: if_splits)
  moreover have "update_block_data n st off sz t s = Some (sz, t', s')" using s0(1) s2(1) s'(1) by (simp add: update_block_data_def)
  ultimately show ?thesis using s'(2,5-7) fv s0(2) s2(3,8-11)
    by (intro exI [of _ s']) (simp add: stores_def extends_def transparent_def)
qed

section \<open>The write request\<close>

text \<open>The bytes a task still has to hand out.\<close>

definition pending :: "io_task \<Rightarrow> nat \<Rightarrow> (nat \<Rightarrow> byte) \<Rightarrow> bool" where
  "pending t p buf \<longleftrightarrow> receive_buffer t = Some buf \<and> recv_ptr t = Some p"

lemma get_received_ok:
  assumes "pending t p buf" "p + k \<le> MAX_TRANSFER_SIZE"
  shows "\<exists>t'. get_received_data k t = Some (get_bytes p k buf, t') \<and> pending t' (p + k) buf \<and> get_receiver_id t' = get_receiver_id t"
proof -
  have "get_bytes 0 4 (put_bytes 16 xs m) = get_bytes 0 4 m" for xs m by (simp add: get_bytes_def put_bytes_def)
  then show ?thesis using assms by (simp add: get_received_data_def pending_def set_extended_data_size_def get_receiver_id_def)
qed

lemma receive_loop_ok:
  assumes "io_inv s" "map_find n (io_files s) \<noteq> None" "\<not> deleted s n" "0 < pool_capacity (io_pool s)"
    and "0 \<le> st" "BLOCK_SIZE dvd st" "0 \<le> off" "off < BLOCK_SIZE" "0 \<le> rem" "rsz = min rem (BLOCK_SIZE - off)"
    and "st + off + rem < 9223372036854775808 - BLOCK_SIZE" "pending t p buf" "p + nat rem \<le> MAX_TRANSFER_SIZE"
  shows "\<exists>t' s'. receive_loop n st off rsz rem t s = Some (t', s') \<and> stores s n (st + off) (get_bytes p (nat rem) buf) s' \<and>
    get_receiver_id t' = get_receiver_id t"
  using assms
proof (induction "nat rem" arbitrary: s st off rsz rem t p rule: less_induct)
  case less
  note a = less.prems
  show ?case
  proof (cases "rem = 0")
    case True
    then show ?thesis using a(1) by (subst receive_loop.simps) (simp add: stores_def get_bytes_def)
  next
    case False
    then have rem: "0 < rem" using a(9) by simp
    have z: "0 < rsz" "off + rsz \<le> BLOCK_SIZE" "rsz \<le> rem" using a(8,10) rem by auto
    from a(2) obtain f where f: "map_find n (io_files s) = Some f" by blast
    from get_received_ok [OF a(12), of "nat rsz"] a(13) z(3) obtain t1 where
      t1: "get_received_data (nat rsz) t = Some (get_bytes p (nat rsz) buf, t1)" "pending t1 (p + nat rsz) buf"
        "get_receiver_id t1 = get_receiver_id t" by fastforce
    from update_block_data_ok [OF a(1) f a(3) a(5,6,7) z(1,2) t1(1) _ a(4)] obtain s1 where
      s1: "update_block_data n st off rsz t s = Some (rsz, t1, s1)" "stores s n (st + off) (get_bytes p (nat rsz) buf) s1" by auto
    have arith: "s64 (rem - rsz) = rem - rsz" "s64 (st + rsz + off) = st + rsz + off"
      "u64 (min (rem - rsz) BLOCK_SIZE) = min (rem - rsz) BLOCK_SIZE"
      using z a(5,7,9,11) by (auto simp: s64_def u64_def BLOCK_SIZE_def min_def)
    have step: "receive_loop n st off rsz rem t s =
        receive_loop n (st + rsz + off) 0 (min (rem - rsz) BLOCK_SIZE) (rem - rsz) t1 s1"
      using rem s1(1) arith by (subst receive_loop.simps) (simp add: Let_def)
    have i1: "io_inv s1" "map_find n (io_files s1) \<noteq> None" "\<not> deleted s1 n" "0 < pool_capacity (io_pool s1)"
    proof -
      have "path_of s1 n \<noteq> None" using s1(2) f by (simp add: stores_def path_of_def)
      then show "map_find n (io_files s1) \<noteq> None" by (auto simp: path_of_def split: option.splits)
    qed (use s1(2) a(3,4) in \<open>auto simp: stores_def\<close>)
    show ?thesis
    proof (cases "rem = rsz")
      case True
      then show ?thesis using step s1(2) t1(3) by (subst (asm) receive_loop.simps) simp
    next
      case False
      then have sz: "rsz = BLOCK_SIZE - off" using a(10) by (simp add: min_def split: if_splits)
      have dv: "BLOCK_SIZE dvd st + rsz + off" using a(6) by (simp add: sz)
      from less.hyps [of "rem - rsz" s1 "st + rsz + off" 0 "min (rem - rsz) BLOCK_SIZE" t1 "p + nat rsz"]
      obtain t' s' where s': "receive_loop n (st + rsz + off) 0 (min (rem - rsz) BLOCK_SIZE) (rem - rsz) t1 s1 = Some (t', s')"
        "stores s1 n (st + rsz + off + 0) (get_bytes (p + nat rsz) (nat (rem - rsz)) buf) s'" "get_receiver_id t' = get_receiver_id t1"
        using i1 a(5,7,9,11,13) z dv t1(2) rem by (auto simp: nat_diff_distrib)
      have sp: "get_bytes p (nat rem) buf = get_bytes p (nat rsz) buf @ get_bytes (p + nat rsz) (nat (rem - rsz)) buf"
        using z get_bytes_split [of p "nat rsz" "nat (rem - rsz)" buf] by (simp add: nat_diff_distrib)
      have "st + off + int (length (get_bytes p (nat rsz) buf)) = st + rsz + off + 0" using z(1) by simp
      then have "stores s n (st + off) (get_bytes p (nat rem) buf) s'"
        unfolding sp using s'(2) by (intro stores_trans [OF s1(2)]) (simp only:)
      then show ?thesis using step s'(1,3) t1(3) by auto
    qed
  qed
qed

end
