(* ===== verification/IOnode_Properties.thy ===== *)
theory IOnode_Properties
  imports IOnode_Write
begin

text \<open>
  What the handlers of an IOnode promise: reads and writes against the files of bytes of
  \<open>content\<close>, eviction, and the errors of the storage and memory paths.
\<close>

lemma load_block_known:
  assumes inv: "io_inv s" and at: "blk_at s n st = Some b" "\<not> deleted s n" and b: "io_blocks s b = Some blk"
    and kn: "known s n blk" and cap: "0 < pool_capacity (io_pool s)"
  shows "\<exists>s1 s2 blk2 e. load_block n b s = Some s1 \<and> update_access_order b False s1 = Some s2 \<and> io_inv s2 \<and> transparent s s2 \<and>
    io_blocks s2 b = Some blk2 \<and> b_data blk2 = Some e \<and> b_data_size blk2 = b_data_size blk"
proof (cases "b_data blk")
  case None
  from load_absent [OF inv at b None kn cap] show ?thesis by blast
next
  case (Some e)
  from load_resident [OF inv at b Some] show ?thesis by blast
qed

lemma send_data_ok:
  assumes inv: "io_inv s" and at: "blk_at s n st = Some b" "\<not> deleted s n" and b: "io_blocks s b = Some blk"
    and kn: "known s n blk" and cap: "0 < pool_capacity (io_pool s)"
    and rg: "0 \<le> off" "0 < sz" "off + sz \<le> BLOCK_SIZE"
    and bs: "length bs = nat sz" "\<And>i. i < nat sz \<Longrightarrow> content (view s) n (st + off + int i) = Some (bs ! i)"
  shows "\<exists>s'. send_data h n st off sz s = Some (SUCCESS, io_send h [F_int SUCCESS] bs s') \<and> io_inv s' \<and> transparent s s'"
proof -
  from at_block [OF inv at(1)] b obtain f where f: "map_find n (io_files s) = Some f" "b_start blk = st" "block_inv (view s) b blk" by auto
  have st: "0 \<le> st" "BLOCK_SIZE dvd st" using f(2,3) by (auto simp: block_inv_def block_shape_def)
  from load_block_known [OF inv at b kn cap] obtain s1 s2 blk2 e where
    s2: "load_block n b s = Some s1" "update_access_order b False s1 = Some s2" "io_inv s2" "transparent s s2"
      "io_blocks s2 b = Some blk2" "b_data blk2 = Some e" "b_data_size blk2 = b_data_size blk" by blast
  have ar: "u64 (off + sz) = off + sz" "s64 sz = sz" "s64 0 = 0" using rg by (simp_all add: u64_def s64_def BLOCK_SIZE_def)
  have end_loop: "send_loop n st' off' sz' 0 ps s' = Some (ps, s')" for st' off' sz' ps s' by (subst send_loop.simps) simp
  have l: "send_loop n st off sz sz [] s = Some ([(e, off, sz)], s2)"
    using f(1) at(1) s2(1,2,5,6) rg(2) ar(3) end_loop by (subst send_loop.simps) (simp add: blk_at_def deref_block_def)
  have "get_bytes (nat off) (nat sz) (io_mem s2 e) = bs"
  proof (rule nth_equalityI)
    fix i assume "i < length (get_bytes (nat off) (nat sz) (io_mem s2 e))"
    then have i: "i < nat sz" by simp
    have "content (view s) n \<subseteq>\<^sub>m content (view s2) n" using s2(4) at(2) by (simp add: transparent_def)
    then have "content (view s2) n (st + off + int i) = Some (bs ! i)" using bs(2) [OF i] by (auto simp: map_le_def dom_def)
    moreover have i2: "nat off + i < block_bytes" "st + off + int i = st + int (nat off + i)" using rg i by linarith+
    ultimately have "content_at (view s2) n st (nat off + i) = Some (bs ! i)" using content_block [OF st i2(1), of "view s2" n] by simp
    moreover have "blk_at s2 n st = Some b" using s2(4) at(1) by (simp add: transparent_def)
    ultimately show "get_bytes (nat off) (nat sz) (io_mem s2 e) ! i = bs ! i"
      using s2(5,6) i by (simp add: content_at_def block_byte_def get_bytes_def split: if_splits)
  qed (use bs(1) in simp)
  then have "send_bytes [(e, off, sz)] s2 = Some bs" using rg by simp
  then have "send_data h n st off sz s = Some (SUCCESS, io_send h [F_int SUCCESS] bs s2)"
    using f(1) l ar(1,2) rg(3) by (simp add: send_data_def Let_def)
  then show ?thesis using s2(3,4) by blast
qed

text \<open>What requests on the content of files leave as it is.\<close>

definition same_files :: "ionode \<Rightarrow> ionode \<Rightarrow> bool" where
  "same_files s s' \<longleftrightarrow> io_sent s' = io_sent s \<and> io_mount s' = io_mount s \<and> path_of s' = path_of s \<and> deleted s' = deleted s \<and>
     existing s' = existing s \<and> pool_capacity (io_pool s') = pool_capacity (io_pool s)"

text \<open>
  A write request returns for every file that is not marked deleted, whatever blocks have to
  be created, loaded or evicted for it; the answer to the sender is queued behind the
  synchronisation of the replicas.
\<close>

lemma receive_data_ok:
  assumes "io_inv s" "map_find n (io_files s) \<noteq> None" "\<not> deleted s n" "0 < pool_capacity (io_pool s)"
    and "0 \<le> st" "BLOCK_SIZE dvd st" "0 \<le> off" "off < BLOCK_SIZE" "0 < sz" "st + off + sz < 9223372036854775808 - BLOCK_SIZE"
    and "receive_buffer t = Some buf" "recv_ptr t = Some p" "p + nat sz \<le> MAX_TRANSFER_SIZE"
  shows "\<exists>s'. receive_data h n st off sz t s = Some (SUCCESS, s') \<and> io_inv s' \<and>
    same_files s s' \<and>
    overwrite (content (view s) n) (st + off) (get_bytes p (nat sz) buf) \<subseteq>\<^sub>m content (view s') n \<and>
    (\<forall>m. m \<noteq> n \<and> \<not> deleted s m \<longrightarrow> content (view s) m \<subseteq>\<^sub>m content (view s') m) \<and>
    io_sync_tasks s' = io_sync_tasks s @ [\<lparr>ds_id = DATA_SYNC_WRITE, ds_file = n, ds_start = st, ds_offset = off, ds_size = sz,
      ds_receiver = get_receiver_id t, ds_handle = h\<rparr>]"
proof -
  let ?rsz = "if u64 (off + sz) > BLOCK_SIZE then u64 (BLOCK_SIZE - off) else sz"
  have pend: "pending t p buf" using assms(11,12) by (simp add: pending_def)
  have sz: "s64 sz = sz" "?rsz = min sz (BLOCK_SIZE - off)"
    using assms(5,7-10) by (auto simp: s64_def u64_def BLOCK_SIZE_def min_def)
  have a9: "0 \<le> sz" using assms(9) by simp
  from receive_loop_ok [OF assms(1-8) a9 sz(2) assms(10) pend assms(13)] obtain t' s1 where
    s1: "receive_loop n st off ?rsz sz t s = Some (t', s1)" "stores s n (st + off) (get_bytes p (nat sz) buf) s1"
      "get_receiver_id t' = get_receiver_id t" by blast
  have "path_of s1 n \<noteq> None" using s1(2) assms(2) by (auto simp: stores_def path_of_def)
  then obtain g where g: "map_find n (io_files s1) = Some g" by (auto simp: path_of_def split: option.splits)
  let ?d = "\<lparr>ds_id = DATA_SYNC_WRITE, ds_file = n, ds_start = st, ds_offset = off, ds_size = sz,
      ds_receiver = get_receiver_id t, ds_handle = h\<rparr>"
  define s' where "s' = s1\<lparr>io_files := map_set n (g\<lparr>f_dirty := True\<rparr>) (io_files s1), io_sync_tasks := io_sync_tasks s1 @ [?d]\<rparr>"
  have r: "receive_data h n st off sz t s = Some (SUCCESS, s')"
    using assms(2) s1(1,3) sz(1) g by (auto simp: receive_data_def upd_iofile_def add_data_sync_task_def s'_def Let_def)
  have fv: "blk_at s' = blk_at s1" "path_of s' = path_of s1" "deleted s' = deleted s1" "existing s' = existing s1"
    using g by (auto simp: fun_eq_iff s'_def blk_at_def path_of_def deleted_def existing_def split: option.splits)
  then have v: "view s' = view s1" by (simp add: view_def) (simp add: s'_def)
  have "quiet s'" using s1(2) g unfolding stores_def io_inv_def quiet_def by (auto simp: s'_def split: if_splits)
  then have "io_inv s'" using s1(2) v by (simp add: io_inv_def stores_def s'_def)
  moreover have "overwrite (content (view s) n) (st + off) (get_bytes p (nat sz) buf) \<subseteq>\<^sub>m content (view s') n"
    unfolding v by (rule storesD(1) [OF s1(2) assms(3)])
  moreover have "content (view s) m \<subseteq>\<^sub>m content (view s') m" if "m \<noteq> n \<and> \<not> deleted s m" for m
    unfolding v using storesD(2) [OF s1(2)] that by blast
  moreover have "io_sync_tasks s' = io_sync_tasks s @ [?d]" using s1(2) by (simp add: stores_def s'_def)
  moreover have "same_files s s'" using s1(2) fv(2-4) by (simp add: stores_def same_files_def) (simp add: s'_def)
  ultimately show ?thesis using r by blast
qed

end
