(* ===== verification/IOnode_Refinement.thy ===== *)
theory IOnode_Refinement
  imports IOnode_Properties
begin

text \<open>
  An IOnode refines a map from file numbers to files of bytes: runs of requests that open
  files, add blocks, write and read, from the start of the node on. The abstract machine has
  no blocks, no cache and no storage; its replies are those the IOnode sends.
\<close>

section \<open>Opening files and adding blocks\<close>

lemma extends_refl: "io_inv s \<Longrightarrow> extends s s"
  by (simp add: extends_def)

lemma extends_trans: "extends s s' \<Longrightarrow> extends s' s'' \<Longrightarrow> extends s s''"
  by (simp add: extends_def)

definition new_blocks_ok :: "(off64_t \<times> size_t) list \<Rightarrow> bool" where
  "new_blocks_ok bl \<longleftrightarrow> distinct (map fst bl) \<and>
     (\<forall>(st, sz) \<in> set bl. 0 \<le> st \<and> BLOCK_SIZE dvd st \<and> 0 \<le> sz \<and> sz \<le> BLOCK_SIZE)"

lemma append_blocks_ok:
  assumes "io_inv s" "map_find n (io_files s) \<noteq> None" "\<not> deleted s n" "new_blocks_ok bl" "\<forall>st \<in> fst ` set bl. blk_at s n st = None"
  shows "\<exists>s'. append_blocks n bl s = Some s' \<and> extends s s' \<and> (\<forall>m. content (view s) m \<subseteq>\<^sub>m content (view s') m)"
  using assms
proof (induction n bl s rule: append_blocks.induct)
  case (1 n s)
  then show ?case by (simp add: extends_refl)
next
  case (2 n st sz bl s)
  from 2(3) obtain f where f: "map_find n (io_files s) = Some f" by blast
  have none: "map_find st (f_blocks f) = None" using 2(6) f by (simp add: blk_at_def)
  have st: "0 \<le> st" "BLOCK_SIZE dvd st" "0 \<le> sz" "sz \<le> BLOCK_SIZE" using 2(5) by (auto simp: new_blocks_ok_def)
  from io_append_block_ok [OF 2(2) f 2(4) none st] obtain s1 s2 where s2:
    "create_new_block st sz False False n s = Some (io_fresh s, s1)"
    "upd_iofile n (\<lambda>f. f\<lparr>f_blocks := fst (map_insert st (io_fresh s) (f_blocks f))\<rparr>) s1 = Some s2"
    "extends s s2" "blk_at s2 = (blk_at s)(n := (blk_at s n)(st \<mapsto> io_fresh s))"
    "\<And>m. content (view s) m \<subseteq>\<^sub>m content (view s2) m" by blast
  have step: "io_append_block n st sz s = Some s2" using s2(1,2) by (simp add: io_append_block_def)
  have i2: "io_inv s2" "map_find n (io_files s2) \<noteq> None" "\<not> deleted s2 n" "new_blocks_ok bl" "\<forall>st \<in> fst ` set bl. blk_at s2 n st = None"
  proof -
    have "path_of s2 n \<noteq> None" using s2(3) f by (simp add: extends_def path_of_def)
    then show "map_find n (io_files s2) \<noteq> None" by (auto simp: path_of_def split: option.splits)
    show "\<forall>st \<in> fst ` set bl. blk_at s2 n st = None" using 2(5,6) s2(4) by (auto simp: new_blocks_ok_def)
  qed (use s2(3) 2(4,5) in \<open>auto simp: extends_def new_blocks_ok_def\<close>)
  from "2.IH" [OF step i2] obtain s' where "append_blocks n bl s2 = Some s'" "extends s2 s'"
    "\<And>m. content (view s2) m \<subseteq>\<^sub>m content (view s') m" by blast
  then show ?case using step extends_trans [OF s2(3)] map_le_trans [OF s2(5)] by auto
qed

lemma open_new_ok:
  assumes inv: "io_inv s" and n: "map_find n (io_files s) = None"
    and path: "\<And>m. path_of s m = Some (io_mount s @ path) \<Longrightarrow> deleted s m" and ex: "exist = EXISTING \<Longrightarrow> io_disk s (io_mount s @ path) \<noteq> None"
  defines "s1 \<equiv> s\<lparr>io_files := fst (map_insert n (new_iofile path exist n) (io_files s))\<rparr>"
  shows "io_inv s1" "content (view s1) = content (view s)" "map_find n (io_files s1) \<noteq> None" "\<not> deleted s1 n"
    "blk_at s1 = blk_at s" "io_env s1 = io_env s" "io_sent s1 = io_sent s" "pool_capacity (io_pool s1) = pool_capacity (io_pool s)"
    "path_of s1 = (path_of s)(n \<mapsto> io_mount s @ path)" "deleted s1 = deleted s" "existing s1 = (existing s)(n := exist = EXISTING)"
    "io_mount s1 = io_mount s"
proof -
  from inv have i: "quiet s" "cinv (view s)" "queue_ok (io_queue s) (io_blocks s)" by (auto simp: io_inv_def)
  have mi: "map_inv (io_files s)" using i(1) by (simp add: quiet_def)
  have s1: "s1 = s\<lparr>io_files := map_set n (new_iofile path exist n) (io_files s)\<rparr>"
    using map_insert_eq [OF mi] n by (simp add: s1_def map_find_None_iff)
  show at: "blk_at s1 = blk_at s" using n mi by (auto simp: fun_eq_iff s1 blk_at_def new_iofile_def)
  show pa: "path_of s1 = (path_of s)(n \<mapsto> io_mount s @ path)" using n mi by (auto simp: fun_eq_iff s1 path_of_def new_iofile_def split: option.splits)
  show de: "deleted s1 = deleted s" using n mi by (auto simp: fun_eq_iff s1 deleted_def new_iofile_def)
  show exi: "existing s1 = (existing s)(n := exist = EXISTING)" using n mi by (auto simp: fun_eq_iff s1 existing_def new_iofile_def)
  have none: "blk_at s n st = None" "path_of s n = None" "\<not> deleted s n" for st using n by (simp_all add: blk_at_def path_of_def deleted_def)
  show "map_find n (io_files s1) \<noteq> None" "\<not> deleted s1 n" using mi de none(3) by (simp_all add: s1)
  show "io_env s1 = io_env s" "io_sent s1 = io_sent s" "pool_capacity (io_pool s1) = pool_capacity (io_pool s)" "io_mount s1 = io_mount s" by (simp_all add: s1)
  have f: "v_path (view s1) = (path_of s)(n \<mapsto> io_mount s @ path)" "v_mem (view s1) = io_mem s" "v_at (view s1) = blk_at s"
    "v_del (view s1) = deleted s" "v_exist (view s1) = (existing s)(n := exist = EXISTING)" "v_disk (view s1) = io_disk s"
    "v_pool (view s1) = io_pool s" "v_blocks (view s1) = io_blocks s"
    by (simp_all add: at pa de exi) (simp_all add: s1)
  have co: "coherent (view s1) k x = coherent (view s) k x" "block_byte (view s1) k x j = block_byte (view s) k x j" if "k \<noteq> n" for k x j
    unfolding coherent_def block_byte_def f unfolding view_simps fun_upd_other [OF that] by (rule refl)+
  have "content_at (view s1) k st j = content_at (view s) k st j" for k st j
    using none(1) [of st] co(2) [of k _ j] unfolding content_at_def f by (cases "k = n") (simp_all split: option.splits)
  then show "content (view s1) = content (view s)" by (auto simp: fun_eq_iff content_def)
  have ci: "cinv (view s1)" unfolding cinv_def
  proof (intro conjI allI impI)
    fix b blk assume "v_blocks (view s1) b = Some blk"
    then have "block_inv (view s) b blk" using cinvD(1) [OF i(2)] unfolding f by simp
    then show "block_inv (view s1) b blk" unfolding block_inv_def f by simp
  next
    fix m st b assume "v_at (view s1) m st = Some b"
    then have at': "blk_at s m st = Some b" unfolding f .
    then have mn: "m \<noteq> n" using none(1) by auto
    from cinvD(2) [OF i(2), of m st b] at' have "at_inv (view s) m st b" by simp
    then show "at_inv (view s1) m st b" using mn unfolding at_inv_def f co(1) [OF mn] by simp
  next
    fix b1 b2 x y e assume "v_blocks (view s1) b1 = Some x" "v_blocks (view s1) b2 = Some y" "b_data x = Some e" "b_data y = Some e"
    then show "b1 = b2" using cinvD(3) [OF i(2), of b1 x b2 y e] unfolding f by simp
  next
    show "live_pool (elems (v_blocks (view s1))) (v_pool (view s1))" using cinvD(4) [OF i(2)] unfolding f by simp
    show "block_size (v_pool (view s1)) = BLOCK_SIZE" using cinvD(5) [OF i(2)] unfolding f by simp
  next
    fix m k p assume a: "v_path (view s1) m = Some p" "v_path (view s1) k = Some p" "\<not> v_del (view s1) m" "\<not> v_del (view s1) k"
    then show "m = k" using path cinvD(6) [OF i(2), of m p k] unfolding f by (auto split: if_splits)
  next
    fix m p assume "v_exist (view s1) m" "v_path (view s1) m = Some p"
    then show "v_disk (view s1) p \<noteq> None" using ex cinvD(7) [OF i(2), of m p] unfolding f by (auto split: if_splits)
  qed
  have "quiet s1" using i(1) mi n by (auto simp: quiet_def s1 new_iofile_def split: if_splits)
  then show "io_inv s1" using ci i(3) by (simp add: io_inv_def) (simp add: s1)
qed

lemma io_open_ok:
  assumes inv: "io_inv s" and n: "map_find n (io_files s) = None" and bl: "new_blocks_ok bl"
    and path: "\<And>m. path_of s m = Some (io_mount s @ path) \<Longrightarrow> deleted s m" and ex: "exist = EXISTING \<Longrightarrow> io_disk s (io_mount s @ path) \<noteq> None"
  shows "\<exists>s'. io_open_file n flag exist path bl [] s = Some (SUCCESS, s') \<and> io_inv s' \<and> io_sent s' = io_sent s \<and>
    pool_capacity (io_pool s') = pool_capacity (io_pool s) \<and> deleted s' = deleted s \<and> io_mount s' = io_mount s \<and>
    existing s' = (existing s)(n := exist = EXISTING) \<and> path_of s' = (path_of s)(n \<mapsto> io_mount s @ path) \<and>
    (\<forall>m. content (view s) m \<subseteq>\<^sub>m content (view s') m)"
proof -
  let ?s1 = "s\<lparr>io_files := fst (map_insert n (new_iofile path exist n) (io_files s))\<rparr>"
  note o = open_new_ok [OF inv n path ex]
  have "blk_at s n st = None" for st using n by (simp add: blk_at_def)
  then have none: "\<forall>st \<in> fst ` set bl. blk_at ?s1 n st = None" using o(5) by simp
  from append_blocks_ok [OF o(1,3,4) bl none] obtain s' where "append_blocks n bl ?s1 = Some s'" "extends ?s1 s'"
    "\<And>m. content (view ?s1) m \<subseteq>\<^sub>m content (view s') m" by blast
  then show ?thesis using n o(2,7-12) by (simp add: io_open_file_def extends_def)
qed

section \<open>The abstract machine\<close>

record io_spec =
  sp_path :: "ssize_t \<Rightarrow> string option"
  sp_data :: "ssize_t \<Rightarrow> off64_t \<Rightarrow> byte option"

type_synonym io_call = "int \<times> io_task \<times> io_request"

definition payload :: "io_task \<Rightarrow> size_t \<Rightarrow> byte list" where
  "payload t sz = (case (receive_buffer t, recv_ptr t) of (Some buf, Some p) \<Rightarrow> get_bytes p (nat sz) buf | _ \<Rightarrow> [])"

fun spec_step :: "io_call \<Rightarrow> io_spec \<Rightarrow> io_spec" where
  "spec_step (h, t, IO_open n flag exist path bl mf nodes) c = c\<lparr>sp_path := (sp_path c)(n \<mapsto> path)\<rparr>"
| "spec_step (h, t, IO_write n st off sz) c =
     c\<lparr>sp_data := (sp_data c)(n := overwrite (sp_data c n) (st + off) (payload t sz))\<rparr>"
| "spec_step _ c = c"

fun spec_reply :: "io_call \<Rightarrow> io_spec \<Rightarrow> io_msg list" where
  "spec_reply (h, t, IO_read n st off sz) c =
     [Io_msg h [F_int SUCCESS] (map (\<lambda>i. the (sp_data c n (st + off + int i))) [0..<nat sz])]"
| "spec_reply (h, t, IO_new_client uri) c = [Io_msg h [F_int SUCCESS] []]"
| "spec_reply _ c = []"

text \<open>
  The requests of the refinement and when they are sent: a new file is opened with a new number,
  under a path no other file has and with aligned blocks; a write carries its data and stays
  below the largest offset; a read stays in one block and asks for bytes that were written.
\<close>

fun admissible :: "io_spec \<Rightarrow> io_call \<Rightarrow> bool" where
  "admissible c (h, t, IO_open n flag exist path bl mf nodes) \<longleftrightarrow> sp_path c n = None \<and> path \<notin> ran (sp_path c) \<and>
     exist = NOT_EXIST \<and> new_blocks_ok bl \<and> nodes = []"
| "admissible c (h, t, IO_write n st off sz) \<longleftrightarrow> sp_path c n \<noteq> None \<and>
     0 \<le> st \<and> BLOCK_SIZE dvd st \<and> 0 \<le> off \<and> off < BLOCK_SIZE \<and> 0 < sz \<and> st + off + sz < 9223372036854775808 - BLOCK_SIZE \<and>
     (case (receive_buffer t, recv_ptr t) of (Some buf, Some p) \<Rightarrow> p + nat sz \<le> MAX_TRANSFER_SIZE | _ \<Rightarrow> False)"
| "admissible c (h, t, IO_read n st off sz) \<longleftrightarrow> 0 \<le> st \<and> BLOCK_SIZE dvd st \<and> 0 \<le> off \<and> 0 < sz \<and> off + sz \<le> BLOCK_SIZE \<and>
     (\<forall>i<nat sz. sp_data c n (st + off + int i) \<noteq> None)"
| "admissible c (h, t, IO_new_client uri) \<longleftrightarrow> True"
| "admissible c (h, t, IO_flush n) \<longleftrightarrow> True"
| "admissible c (h, t, IO_close n) \<longleftrightarrow> True"
| "admissible c (h, t, IO_heart_beat r) \<longleftrightarrow> True"
| "admissible c _ \<longleftrightarrow> False"

fun spec_run :: "io_call list \<Rightarrow> io_spec \<Rightarrow> io_spec \<times> io_msg list" where
  "spec_run [] c = (c, [])"
| "spec_run (r # rs) c = (let (c', ms) = spec_run rs (spec_step r c) in (c', spec_reply r c @ ms))"

fun admissible_run :: "io_spec \<Rightarrow> io_call list \<Rightarrow> bool" where
  "admissible_run c [] \<longleftrightarrow> True"
| "admissible_run c (r # rs) \<longleftrightarrow> admissible c r \<and> admissible_run (spec_step r c) rs"

definition refines :: "ionode \<Rightarrow> io_spec \<Rightarrow> bool" where
  "refines s c \<longleftrightarrow> io_inv s \<and> 0 < pool_capacity (io_pool s) \<and> (\<forall>n. \<not> deleted s n \<and> \<not> existing s n) \<and>
     path_of s = (\<lambda>n. map_option (\<lambda>p. io_mount s @ p) (sp_path c n)) \<and> (\<forall>n. sp_data c n \<subseteq>\<^sub>m content (view s) n)"

text \<open>A block of a file this node created is known when one of its bytes is.\<close>

lemma known_block:
  assumes inv: "io_inv s" and n: "\<not> deleted s n" "\<not> existing s n" and st: "0 \<le> st" "BLOCK_SIZE dvd st" "i < block_bytes"
    and c: "content (view s) n (st + int i) \<noteq> None"
  shows "\<exists>b blk. blk_at s n st = Some b \<and> io_blocks s b = Some blk \<and> known s n blk"
proof -
  from c have "content_at (view s) n st i \<noteq> None" using content_block [OF st] by simp
  then obtain b blk where b: "blk_at s n st = Some b" "io_blocks s b = Some blk" "block_byte (view s) n blk i \<noteq> None"
    by (auto simp: content_at_def split: option.splits)
  from at_block [OF inv b(1)] b(2) n have ab: "b_start blk = st" "b_exist blk \<noteq> EXISTING" "coherent (view s) n blk" "block_inv (view s) b blk" by auto
  have "known s n blk"
  proof (cases "b_data blk")
    case None
    then have os: "on_storage blk" using b(3) by (auto simp: block_byte_def split: if_splits)
    then have "\<not> b_swapout blk" using ab(2) by (simp add: on_storage_def)
    then obtain p d where d: "path_of s n = Some p" "io_disk s p = Some d" "stored blk d" using ab(3) None by (auto simp: coherent_def)
    have "content (view s) n (b_start blk + int j) \<noteq> None" if j: "j < nat (b_data_size blk)" for j
    proof -
      have jb: "j < block_bytes" using j ab(4) by (auto simp: block_inv_def block_shape_def)
      have "content_at (view s) n st j \<noteq> None"
        using b(1,2) None os d j ab(1) by (auto simp: content_at_def block_byte_def stored_def)
      then show ?thesis using content_block [OF st(1,2) jb] ab(1) by simp
    qed
    then show ?thesis using os by (simp add: known_def)
  qed (simp add: known_def)
  then show ?thesis using b by blast
qed

section \<open>Refinement\<close>

lemma refinesD:
  assumes "refines s c"
  shows "io_inv s" "0 < pool_capacity (io_pool s)" "\<not> deleted s n" "\<not> existing s n" "sp_data c n \<subseteq>\<^sub>m content (view s) n"
    "path_of s n = map_option (\<lambda>p. io_mount s @ p) (sp_path c n)" "map_find n (io_files s) = None \<longleftrightarrow> sp_path c n = None"
proof -
  show p: "path_of s n = map_option (\<lambda>p. io_mount s @ p) (sp_path c n)" using assms by (simp add: refines_def)
  show "map_find n (io_files s) = None \<longleftrightarrow> sp_path c n = None" using p by (cases "sp_path c n") (auto simp: path_of_def split: option.splits)
qed (use assms in \<open>auto simp: refines_def\<close>)

lemma step_write:
  assumes r: "refines s c" and a: "admissible c (h, t, IO_write n st off sz)"
  shows "\<exists>s'. receive_data h n st off sz t s = Some (SUCCESS, s') \<and> refines s' (spec_step (h, t, IO_write n st off sz) c) \<and> io_sent s' = io_sent s \<and>
    pool_capacity (io_pool s') = pool_capacity (io_pool s) \<and>
    io_sync_tasks s' = io_sync_tasks s @ [\<lparr>ds_id = DATA_SYNC_WRITE, ds_file = n, ds_start = st, ds_offset = off, ds_size = sz,
      ds_receiver = get_receiver_id t, ds_handle = h\<rparr>]"
proof -
  note i = refinesD [OF r]
  obtain buf p where b: "receive_buffer t = Some buf" "recv_ptr t = Some p" "p + nat sz \<le> MAX_TRANSFER_SIZE"
    using a by (auto split: option.splits)
  have pl: "payload t sz = get_bytes p (nat sz) buf" using b by (simp add: payload_def)
  have rg: "map_find n (io_files s) \<noteq> None" "0 \<le> st" "BLOCK_SIZE dvd st" "0 \<le> off" "off < BLOCK_SIZE" "0 < sz"
    "st + off + sz < 9223372036854775808 - BLOCK_SIZE" using a i(7) [of n] by auto
  from receive_data_ok [OF i(1) rg(1) i(3) i(2) rg(2-7) b, of h] obtain s' where
    s': "receive_data h n st off sz t s = Some (SUCCESS, s')" "io_inv s'" "same_files s s'"
      "overwrite (content (view s) n) (st + off) (payload t sz) \<subseteq>\<^sub>m content (view s') n"
      "\<And>m. m \<noteq> n \<and> \<not> deleted s m \<Longrightarrow> content (view s) m \<subseteq>\<^sub>m content (view s') m"
      "io_sync_tasks s' = io_sync_tasks s @ [\<lparr>ds_id = DATA_SYNC_WRITE, ds_file = n, ds_start = st, ds_offset = off, ds_size = sz,
        ds_receiver = get_receiver_id t, ds_handle = h\<rparr>]" unfolding pl by blast
  have "sp_data (spec_step (h, t, IO_write n st off sz) c) m \<subseteq>\<^sub>m content (view s') m" for m
    using map_le_trans [OF overwrite_mono [OF i(5)] s'(4)] map_le_trans [OF i(5) s'(5)] i(3) by (cases "m = n") simp_all
  then show ?thesis using s'(1-3,6) r by (auto simp: refines_def same_files_def)
qed

lemma step_read:
  assumes r: "refines s c" and a: "admissible c (h, t, IO_read n st off sz)"
  shows "\<exists>s'. send_data h n st off sz s = Some (SUCCESS, s') \<and> refines s' c \<and> io_sent s' = io_sent s @ spec_reply (h, t, IO_read n st off sz) c \<and>
    io_sync_tasks s' = io_sync_tasks s \<and> pool_capacity (io_pool s') = pool_capacity (io_pool s)"
proof -
  note i = refinesD [OF r]
  have rg: "0 \<le> st" "BLOCK_SIZE dvd st" "0 \<le> off" "0 < sz" "off + sz \<le> BLOCK_SIZE" using a by simp_all
  let ?bs = "map (\<lambda>i. the (sp_data c n (st + off + int i))) [0..<nat sz]"
  have bs: "content (view s) n (st + off + int j) = Some (?bs ! j)" if "j < nat sz" for j
    using a i(5) [of n] that by (auto simp: map_le_def dom_def)
  have "st + int (nat off) = st + off + int 0" "nat off < block_bytes" using rg by linarith+
  then have "\<exists>b blk. blk_at s n st = Some b \<and> io_blocks s b = Some blk \<and> known s n blk"
    using bs [of 0] rg(4) by (intro known_block [OF i(1,3,4) rg(1,2), of "nat off"]) simp_all
  then obtain b blk where b: "blk_at s n st = Some b" "io_blocks s b = Some blk" "known s n blk" by blast
  from send_data_ok [OF i(1) b(1) i(3) b(2,3) i(2) rg(3-5) _ bs, of h] obtain s1 where
    s1: "send_data h n st off sz s = Some (SUCCESS, io_send h [F_int SUCCESS] ?bs s1)" "io_inv s1" "transparent s s1" by auto
  let ?s = "io_send h [F_int SUCCESS] ?bs s1"
  have v: "view ?s = view s1" by (simp add: io_send_def view_def)
  have d: "deleted ?s = deleted s" "existing ?s = existing s" "path_of ?s = path_of s" "io_mount ?s = io_mount s"
    "io_sent ?s = io_sent s @ [Io_msg h [F_int SUCCESS] ?bs]" "io_sync_tasks ?s = io_sync_tasks s" "pool_capacity (io_pool ?s) = pool_capacity (io_pool s)"
    using s1(3) by (simp_all add: io_send_def transparent_def)
  have "io_inv ?s" using s1(2) by (simp add: io_inv_def v) (simp add: io_send_def quiet_def)
  moreover have "sp_data c m \<subseteq>\<^sub>m content (view ?s) m" for m
    using map_le_trans [OF i(5)] s1(3) i(3) unfolding v transparent_def by blast
  ultimately have "refines ?s c" using r d by (simp add: refines_def)
  then show ?thesis using s1(1) d(5-7) by auto
qed

lemma step_open:
  assumes r: "refines s c" and a: "admissible c (h, t, IO_open n flag exist path bl mf nodes)"
  shows "\<exists>s'. io_open_file n flag exist path bl nodes s = Some (SUCCESS, s') \<and>
    refines s' (spec_step (h, t, IO_open n flag exist path bl mf nodes) c) \<and> io_sent s' = io_sent s \<and>
    pool_capacity (io_pool s') = pool_capacity (io_pool s)"
proof -
  note i = refinesD [OF r]
  have n: "map_find n (io_files s) = None" using a i(7) by simp
  have "path_of s m \<noteq> Some (io_mount s @ path)" for m
    using a i(6) [of m] by (cases "sp_path c m") (auto simp: ran_def)
  with io_open_ok [OF i(1) n, of bl path exist flag] a obtain s' where
    s': "io_open_file n flag exist path bl nodes s = Some (SUCCESS, s')" "io_inv s'" "io_sent s' = io_sent s" "io_mount s' = io_mount s"
      "pool_capacity (io_pool s') = pool_capacity (io_pool s)" "deleted s' = deleted s" "existing s' = (existing s)(n := exist = EXISTING)"
      "path_of s' = (path_of s)(n \<mapsto> io_mount s @ path)" "\<And>m. content (view s) m \<subseteq>\<^sub>m content (view s') m" by auto
  have "sp_data c m \<subseteq>\<^sub>m content (view s') m" for m using map_le_trans [OF i(5) s'(9)] .
  then have "refines s' (spec_step (h, t, IO_open n flag exist path bl mf nodes) c)"
    using s'(2,4-8) r a by (auto simp: refines_def)
  then show ?thesis using s'(1,3,5) by blast
qed

fun run_io :: "io_call list \<Rightarrow> ionode \<Rightarrow> ionode option" where
  "run_io [] s = Some s"
| "run_io ((h, t, rq) # rs) s = do { (_, s1) \<leftarrow> handle_io_request h t rq s; run_io rs s1 }"

lemma step_refines:
  assumes r: "refines s c" and a: "admissible c (h, t, rq)"
  shows "\<exists>ret s'. handle_io_request h t rq s = Some (ret, s') \<and> refines s' (spec_step (h, t, rq) c) \<and>
    io_sent s' = io_sent s @ spec_reply (h, t, rq) c \<and> pool_capacity (io_pool s') = pool_capacity (io_pool s)"
proof (cases rq)
  case (IO_new_client uri)
  have "view (io_send h [F_int SUCCESS] [] s) = view s" by (simp add: io_send_def view_def)
  then have "refines (io_send h [F_int SUCCESS] [] s) c"
    using r by (simp add: refines_def io_inv_def quiet_def) (simp add: io_send_def)
  then show ?thesis using IO_new_client by (simp add: register_new_client_def) (simp add: io_send_def)
next
  case (IO_close n)
  have "f_read_fd f = -1 \<and> f_write_fd f = -1" if "map_find n (io_files s) = Some f" for f
    using that refinesD(1) [OF r] by (auto simp: io_inv_def quiet_def)
  then show ?thesis using IO_close r by (auto simp: io_close_file_def split: option.splits)
next
  case (IO_write n st off sz)
  from step_write [OF r a [unfolded IO_write]] IO_write show ?thesis by auto
next
  case (IO_read n st off sz)
  from step_read [OF r a [unfolded IO_read]] IO_read show ?thesis by auto
next
  case (IO_open n flag exist path bl mf nodes)
  from step_open [OF r a [unfolded IO_open]] IO_open show ?thesis by auto
qed (use r a in \<open>auto simp: io_flush_file_def split: option.splits\<close>)

lemma run_refines:
  assumes "refines s c" "admissible_run c rs"
  shows "\<exists>s'. run_io rs s = Some s' \<and> refines s' (fst (spec_run rs c)) \<and> io_sent s' = io_sent s @ snd (spec_run rs c) \<and>
    pool_capacity (io_pool s') = pool_capacity (io_pool s)"
  using assms
proof (induction rs arbitrary: s c)
  case (Cons r rs)
  obtain h t rq where rq: "r = (h, t, rq)" by (cases r)
  from step_refines [of s c h t rq] Cons.prems rq obtain ret s1 where
    s1: "handle_io_request h t rq s = Some (ret, s1)" "refines s1 (spec_step r c)" "io_sent s1 = io_sent s @ spec_reply r c"
      "pool_capacity (io_pool s1) = pool_capacity (io_pool s)" by auto
  from Cons.IH [OF s1(2)] Cons.prems(2) obtain s' where "run_io rs s1 = Some s'" "refines s' (fst (spec_run rs (spec_step r c)))"
    "io_sent s' = io_sent s1 @ snd (spec_run rs (spec_step r c))" "pool_capacity (io_pool s') = pool_capacity (io_pool s1)" by auto
  then show ?case using s1 rq by (simp add: case_prod_unfold Let_def)
qed simp

section \<open>From the start of the node\<close>

definition empty_spec :: io_spec where
  "empty_spec = \<lparr>sp_path = (\<lambda>_. None), sp_data = (\<lambda>_ _. None)\<rparr>"

lemma pool_setup_ok:
  assumes "0 < cnt" "cnt < 2147483648"
  shows "live_pool {} (pool_setup BLOCK_SIZE cnt 100 memory_pool_init)" "pool_capacity (pool_setup BLOCK_SIZE cnt 100 memory_pool_init) = nat cnt"
    "block_size (pool_setup BLOCK_SIZE cnt 100 memory_pool_init) = BLOCK_SIZE"
proof -
  let ?p = "memory_pool_new BLOCK_SIZE cnt 100"
  have eq: "pool_setup BLOCK_SIZE cnt 100 memory_pool_init = ?p" by (simp add: memory_pool_new_def)
  have inv: "pool_inv {} ?p" using assms by (intro new_pool_ok) (simp_all add: BLOCK_SIZE_def)
  have u: "u64 (BLOCK_SIZE * u64 cnt) = BLOCK_SIZE * cnt" using assms by (simp add: u64_def BLOCK_SIZE_def)
  have st: "0 < step_size ?p" using assms by (auto simp: memory_pool_new_def pool_setup_def u64_def BLOCK_SIZE_def Let_def)
  show "live_pool {} (pool_setup BLOCK_SIZE cnt 100 memory_pool_init)" using inv st by (simp add: eq live_pool_def)
  show "pool_capacity (pool_setup BLOCK_SIZE cnt 100 memory_pool_init) = nat cnt"
    using u by (simp add: pool_setup_def pool_capacity_def Let_def)
  show "block_size (pool_setup BLOCK_SIZE cnt 100 memory_pool_init) = BLOCK_SIZE" by (simp add: pool_setup_def Let_def)
qed

lemma init_refines:
  assumes "env_ok env" "BLOCK_SIZE \<le> mem" "mem < BLOCK_SIZE * 2147483648"
  shows "refines (ionode_init mem mnt env disk m) empty_spec"
proof -
  let ?s = "ionode_init mem mnt env disk m" and ?cnt = "mem div BLOCK_SIZE"
  have c: "0 < ?cnt" "?cnt < 2147483648" using assms(2,3) by (auto simp: BLOCK_SIZE_def)
  have s32: "s32 ?cnt = ?cnt" using c by (simp add: s32_def)
  note p = pool_setup_ok [OF c]
  have v: "v_blocks (view ?s) = (\<lambda>_. None)" "v_at (view ?s) = (\<lambda>_ _. None)" "v_path (view ?s) = (\<lambda>_. None)" "v_exist (view ?s) = (\<lambda>_. False)"
    "v_del (view ?s) = (\<lambda>_. False)" "v_pool (view ?s) = pool_setup BLOCK_SIZE ?cnt 100 memory_pool_init"
    using s32 by (auto simp: ionode_init_def view_def blk_at_def path_of_def existing_def deleted_def fun_eq_iff)
  have "cinv (view ?s)" unfolding cinv_def v using p by (simp add: elems_def)
  moreover have "quiet ?s" using assms(1) by (simp add: quiet_def ionode_init_def)
  moreover have "queue_ok (io_queue ?s) (io_blocks ?s)"
    unfolding queue_ok_def using aq_new_inv by (auto simp: ionode_init_def pages_ok_def intro!: exI)
  ultimately show ?thesis using p(2) c v(3-6) s32
    by (auto simp: refines_def io_inv_def empty_spec_def ionode_init_def)
qed

text \<open>C5: an IOnode refines files of bytes. From its start, with memory for at least one block and a
  storage that answers every call, every run of the following requests is carried out to its
  end, whatever blocks have to be evicted, written back and loaded again on the way: opening a
  file that the storage does not have yet, under a number and a path no other file has and
  without replicas; writing at most one message of data (1 MiB) to an open file, also across
  a block border; reading bytes that were written and that all lie inside one block; and
  connecting, flushing, closing and heart beats. Every reply is the one the abstract machine gives,
  in the same order: a read answers with exactly the bytes written last at its offsets; and
  every byte of the abstract files is the content the block cache and the storage hold. Reads
  over more than one block, files that exist on the storage, truncation, renaming, removal and
  replicas are outside the statement.\<close>

theorem ionode_refines_files:
  assumes "env_ok env" "BLOCK_SIZE \<le> mem" "mem < BLOCK_SIZE * 2147483648" "admissible_run empty_spec rs"
  shows "\<exists>s'. run_io rs (ionode_init mem mnt env disk m) = Some s' \<and> io_inv s' \<and> io_sent s' = snd (spec_run rs empty_spec) \<and>
    (\<forall>n. sp_data (fst (spec_run rs empty_spec)) n \<subseteq>\<^sub>m content (view s') n)"
proof -
  have "io_sent (ionode_init mem mnt env disk m) = []" by (simp add: ionode_init_def)
  with run_refines [OF init_refines [OF assms(1-3)] assms(4), of mnt disk m] show ?thesis by (auto simp: refines_def)
qed

text \<open>A node with memory for one block: the second write evicts the first block, the read loads it again.\<close>

definition good_env :: storage_env where
  "good_env = \<lparr>opendir_errno = (\<lambda>_. 0), open_ok = (\<lambda>_. True), io_call = (\<lambda>_. Io_done block_bytes), malloc_call = malloc_ok,
     connect_handle = (\<lambda>_. 0), local_uri = ''''\<rparr>"

lemma good_env_ok: "env_ok good_env"
  by (auto simp: env_ok_def good_env_def)

definition data_task :: "byte list \<Rightarrow> io_task" where
  "data_task bs = (extended_IO_task 0)\<lparr>receive_buffer := Some (put_bytes 0 bs (\<lambda>_. 0)), recv_ptr := Some 0\<rparr>"

lemma payload_data_task: "length bs = nat sz \<Longrightarrow> payload (data_task bs) sz = bs"
  by (simp add: payload_def data_task_def)

theorem ionode_refines_files_witness:
  "\<exists>s'. run_io [(1, data_task [], IO_open 7 0 NOT_EXIST ''/a'' [] 0 []), (2, data_task [10, 20, 30], IO_write 7 0 5 3),
      (2, data_task [40], IO_write 7 1048576 0 1), (3, data_task [], IO_read 7 0 6 2)] (ionode_init 1048576 ''/m'' good_env (\<lambda>_. None) (\<lambda>_ _. 0)) = Some s' \<and>
    io_sent s' = [Io_msg 3 [F_int SUCCESS] [20, 30]]"
proof -
  let ?rs = "[(1, data_task [], IO_open 7 0 NOT_EXIST ''/a'' [] 0 []), (2, data_task [10, 20, 30], IO_write 7 0 5 3),
      (2, data_task [40], IO_write 7 1048576 0 1), (3, data_task [], IO_read 7 0 6 2)] :: io_call list"
  have pl: "payload (data_task [10, 20, 30]) 3 = [10, 20, 30]" "payload (data_task [40]) 1 = [40]"
    by (simp_all add: payload_data_task)
  have ad: "admissible_run empty_spec ?rs"
    by (simp add: empty_spec_def new_blocks_ok_def BLOCK_SIZE_def pl) (simp add: data_task_def overwrite_def)
  have ms: "snd (spec_run ?rs empty_spec) = [Io_msg 3 [F_int SUCCESS] [20, 30]]"
    by (simp add: empty_spec_def pl overwrite_def upt_rec)
  have mem: "BLOCK_SIZE \<le> 1048576" "1048576 < BLOCK_SIZE * 2147483648" by (simp_all add: BLOCK_SIZE_def)
  from ionode_refines_files [OF good_env_ok mem ad, of "''/m''" "\<lambda>_. None" "\<lambda>_ _. 0"] show ?thesis unfolding ms by blast
qed

end
