(* ===== verification/IOnode_Errors.thy ===== *)
theory IOnode_Errors
  imports IOnode_Refinement
begin

text \<open>
  Executions in which an IOnode does not answer with the content of the file: a storage that
  returns less than was asked for, a write back that fails, a request over two blocks with memory
  for one, and a node with the memory limit it has when none is configured.
\<close>

lemma bind_weak: "x = y \<Longrightarrow> Option.bind x f = Option.bind y f"
  by simp

lemma let_weak: "x = y \<Longrightarrow> Let x f = Let y f"
  by simp

lemmas call_eval = Let_def read_loop.simps write_loop.simps push_elems.simps swap_out_loop.simps send_loop.simps receive_loop.simps
  io_open_file_def send_data_def load_block_def allocate_memory_for_block_def allocate_memory_def
  has_memory_left_def allocate_def allocate_more_memory_def pop_head_def read_from_storage_def open_remote_file_def
  open_too_many_files_def check_directory_def open64_def upd_iofile_def upd_block_def deref_block_def lseek_def readv_call_def
  close_remote_file_def close_fd_def update_access_order_def lru_access_def aq_push_def is_full_def set_data_def aq_touch_def
  io_append_block_def create_new_block_def new_block_def new_iofile_def need_allocation_def io_real_path_def pool_setup_def memory_pool_init_def
  access_queue_new_def u64_def s64_def s32_def BLOCK_SIZE_def ionode_init_def io_send_def get_bytes_def put_bytes_def
  free_memory_def swap_out_def write_to_storage_def need_writeback_def writeback_def free_data_def block_free_memory_def write_call_def write_at_def
  push_dirty_page_def del_dirty_page_def aq_enqueue_def insert_after_def set_next_def set_prev_def aq_pop_def is_empty_def free_def
  is_in_dirty_queue_def good_env_def

lemmas write_eval = receive_data_def update_block_data_def find_or_create_block_def fill_block_def receive_block_def data_task_def
  get_received_data_def set_extended_data_size_def get_extended_data_size_def add_data_sync_task_def get_receiver_id_def
  extended_IO_task_def set_sender_id_def set_message_size_def

section \<open>A block delivered in parts\<close>

lemma readv_part:
  assumes "io_fds s = [(fd, rp, pos)]" "io_disk s rp = Some c" "io_call (io_env s) (io_calls s) = Io_done k"
    "k \<le> len" "pos + k \<le> length c" "base + k \<le> block_bytes"
  shows "readv_call fd e base len s = Some (int k, 0, s\<lparr>io_calls := io_calls s + 1,
    io_mem := (io_mem s)(e := put_bytes base (take k (drop pos c)) (io_mem s e)), io_fds := [(fd, rp, pos + k)]\<rparr>)"
proof -
  have "min k (min len (length c - pos)) = k" using assms(4,5) by simp
  then show ?thesis using assms by (simp add: readv_call_def Let_def)
qed

lemma read_three_parts:
  assumes s: "io_fds s = [(fd, rp, pos)]" "io_disk s rp = Some c"
    and calls: "io_call (io_env s) (io_calls s) = Io_done k1" "io_call (io_env s) (io_calls s + 1) = Io_done k2"
      "io_call (io_env s) (io_calls s + 2) = Io_done k3"
    and k: "0 < k1" "0 < k2" "0 < k3" "k1 + k2 + k3 \<le> block_bytes" "pos + k1 + k2 + k3 \<le> length c"
  shows "read_loop fd e 0 (k1 + k2 + k3) s = Some (0, s\<lparr>io_calls := io_calls s + 3, io_fds := [(fd, rp, pos + k1 + k2 + k3)],
    io_mem := (io_mem s)(e := put_bytes k2 (take k3 (drop (pos + k1 + k2) c)) (put_bytes k1 (take k2 (drop (pos + k1) c))
      (put_bytes 0 (take k1 (drop pos c)) (io_mem s e))))\<rparr>)"
proof -
  let ?m1 = "put_bytes 0 (take k1 (drop pos c)) (io_mem s e)"
  let ?m2 = "put_bytes k1 (take k2 (drop (pos + k1) c)) ?m1"
  let ?m3 = "put_bytes k2 (take k3 (drop (pos + k1 + k2) c)) ?m2"
  let ?s1 = "s\<lparr>io_calls := io_calls s + 1, io_mem := (io_mem s)(e := ?m1), io_fds := [(fd, rp, pos + k1)]\<rparr>"
  let ?s2 = "s\<lparr>io_calls := io_calls s + 2, io_mem := (io_mem s)(e := ?m2), io_fds := [(fd, rp, pos + k1 + k2)]\<rparr>"
  let ?s3 = "s\<lparr>io_calls := io_calls s + 3, io_mem := (io_mem s)(e := ?m3), io_fds := [(fd, rp, pos + k1 + k2 + k3)]\<rparr>"
  have c1: "readv_call fd e 0 (k1 + k2 + k3) s = Some (int k1, 0, ?s1)" using readv_part [OF s calls(1)] k by simp
  have c2: "readv_call fd e k1 (k2 + k3) ?s1 = Some (int k2, 0, ?s2)"
    using readv_part [of ?s1 fd rp "pos + k1" c k2 "k2 + k3" k1 e] s calls(2) k by simp
  have c3: "readv_call fd e k2 k3 ?s2 = Some (int k3, 0, ?s3)"
    using readv_part [of ?s2 fd rp "pos + k1 + k2" c k3 k3 k2 e] s calls(3) k by simp
  have "read_loop fd e 0 (k1 + k2 + k3) s = read_loop fd e k1 (k2 + k3) ?s1" using read_loop_step [OF c1] k by simp
  also have "\<dots> = read_loop fd e k2 k3 ?s2" using read_loop_step [OF c2] k by simp
  also have "\<dots> = read_loop fd e k3 0 ?s3" using read_loop_step [OF c3] k by simp
  also have "\<dots> = Some (0, ?s3)" by (subst read_loop.simps) simp
  finally show ?thesis by simp
qed

text \<open>C31: a block that the storage delivers in three parts is not read correctly. Whenever the
  block lies in the file and the three read calls for it return \<open>k1\<close>, \<open>k2\<close> and \<open>k3\<close> bytes, all of
  it is reported as read, but the third part is put at \<open>k2\<close>, where the code continues after the
  second part, instead of \<open>k1 + k2\<close>: it overwrites bytes of the parts before it, and
  the memory behind all three parts keeps what it held before.\<close>

theorem split_read_corrupts:
  assumes idle: "storage_idle s" and b: "io_blocks s b = Some blk" "b_data blk = Some e" "0 \<le> b_start blk"
    and sz: "b_data_size blk = int (k1 + k2 + k3)" "k1 + k2 + k3 \<le> block_bytes" "0 < k1" "0 < k2" "0 < k3"
    and f: "map_find n (io_files s) = Some f" "io_disk s (io_mount s @ f_path f) = Some c"
      "nat (b_start blk) + k1 + k2 + k3 \<le> length c"
    and calls: "io_call (io_env s) (io_calls s) = Io_done k1" "io_call (io_env s) (io_calls s + 1) = Io_done k2"
      "io_call (io_env s) (io_calls s + 2) = Io_done k3"
  shows "\<exists>s'. read_from_storage (f_path f) n b s = Some (b_data_size blk, s') \<and>
    get_bytes k2 k3 (io_mem s' e) = take k3 (drop (nat (b_start blk) + k1 + k2) c) \<and>
    (\<forall>j<min k1 k2. io_mem s' e j = c ! (nat (b_start blk) + j)) \<and>
    (\<forall>j. k1 + k2 \<le> j \<and> k2 + k3 \<le> j \<longrightarrow> io_mem s' e j = io_mem s e j)"
proof -
  let ?rp = "io_mount s @ f_path f" and ?fd = "io_fd_fresh s" and ?st = "nat (b_start blk)"
  let ?f1 = "f\<lparr>f_read_fd := ?fd\<rparr>"
  have idle': "map_inv (io_files s)" "?fd \<noteq> -1" "f_write_fd f = -1" using idle f(1) by (auto simp: storage_idle_def)
  have dk: "(io_disk s)(?rp \<mapsto> file_content ?rp s) = io_disk s" using f(2) by (auto simp: fun_upd_idem)
  define s2 where "s2 = s\<lparr>io_open_count := 1, io_fds := [(?fd, ?rp, ?st)], io_fd_fresh := ?fd + 1, io_files := map_set n ?f1 (io_files s)\<rparr>"
  let ?m = "put_bytes k2 (take k3 (drop (?st + k1 + k2) c)) (put_bytes k1 (take k2 (drop (?st + k1) c))
      (put_bytes 0 (take k1 (drop ?st c)) (io_mem s e)))"
  define s3 where "s3 = s2\<lparr>io_calls := io_calls s + 3, io_fds := [(?fd, ?rp, ?st + k1 + k2 + k3)], io_mem := (io_mem s)(e := ?m)\<rparr>"
  have op: "open_remote_file n ?rp READ_FILE s = Some (?fd, s\<lparr>io_open_count := 1, io_fds := [(?fd, ?rp, 0)],
      io_fd_fresh := ?fd + 1, io_files := map_set n ?f1 (io_files s)\<rparr>)"
    using open_remote_ok [OF idle f(1), of READ_FILE ?rp] f(2) dk by simp
  have ls: "lseek ?fd (b_start blk) (s\<lparr>io_open_count := 1, io_fds := [(?fd, ?rp, 0)], io_fd_fresh := ?fd + 1,
      io_files := map_set n ?f1 (io_files s)\<rparr>) = (b_start blk, s2)"
    using b(3) by (simp add: lseek_def s2_def)
  have rd: "read_loop ?fd e 0 (k1 + k2 + k3) s2 = Some (0, s3)"
    using read_three_parts [of s2 ?fd ?rp ?st c k1 k2 k3 e] calls sz(2-5) f(2,3) by (simp add: s2_def s3_def)
  have "map_find n (io_files s3) = Some ?f1" "map_inv (io_files s3)" "io_fds s3 = [(?fd, ?rp, ?st + k1 + k2 + k3)]" "io_open_count s3 = 1"
    using idle'(1) by (simp_all add: s3_def s2_def)
  from close_remote_ok [OF this idle'(2), of READ_FILE] idle'(3) obtain g where
    g: "close_remote_file n READ_FILE s3 = Some (s3\<lparr>io_fds := [], io_open_count := 0, io_files := map_set n g (io_files s3)\<rparr>)" by auto
  have "b_start blk \<noteq> -1" "nat (b_data_size blk) = k1 + k2 + k3" using b(3) sz(1) by simp_all
  then have "read_from_storage (f_path f) n b s =
      Some (b_data_size blk, s3\<lparr>io_fds := [], io_open_count := 0, io_files := map_set n g (io_files s3)\<rparr>)"
    using b(1,2) op ls rd g sz(1) by (simp add: read_from_storage_def deref_block_def io_real_path_def)
  moreover have "get_bytes k2 k3 ?m = take k3 (drop (?st + k1 + k2) c)"
    using f(3) get_put_same [of k2 "take k3 (drop (?st + k1 + k2) c)"] by simp
  moreover have "?m j = c ! (?st + j)" if "j < min k1 k2" for j using that f(3) by (simp add: put_bytes_def)
  moreover have "?m j = io_mem s e j" if "k1 + k2 \<le> j" "k2 + k3 \<le> j" for j using that by (auto simp: put_bytes_def)
  ultimately show ?thesis by (intro exI [of _ "s3\<lparr>io_fds := [], io_open_count := 0, io_files := map_set n g (io_files s3)\<rparr>"]) (simp add: s3_def)
qed

theorem split_read_corrupts_witness:
  "\<exists>s0 s s'. run_io [(1, data_task [], IO_open 7 0 EXISTING ''/a'' [(0, 3)] 0 [])]
      (ionode_init 1048576 ''/m'' (good_env\<lparr>io_call := (\<lambda>_. Io_done 1)\<rparr>) [''/m/a'' \<mapsto> [10, 20, 30]] (\<lambda>_ _. 0)) = Some s0 \<and>
    allocate_memory_for_block 0 s0 = Some (BLOCK_SIZE, s) \<and> read_from_storage ''/a'' 7 0 s = Some (3, s') \<and>
    get_bytes 0 3 (io_mem s' 0) = [10, 30, 0]"
proof -
  have "\<exists>s0 s blk f. run_io [(1, data_task [], IO_open 7 0 EXISTING ''/a'' [(0, 3)] 0 [])]
      (ionode_init 1048576 ''/m'' (good_env\<lparr>io_call := (\<lambda>_. Io_done 1)\<rparr>) [''/m/a'' \<mapsto> [10, 20, 30]] (\<lambda>_ _. 0)) = Some s0 \<and>
    allocate_memory_for_block 0 s0 = Some (BLOCK_SIZE, s) \<and> storage_idle s \<and> io_blocks s 0 = Some blk \<and> b_data blk = Some 0 \<and>
    b_start blk = 0 \<and> b_data_size blk = int (1 + 1 + 1) \<and> map_find 7 (io_files s) = Some f \<and> f_path f = ''/a'' \<and> io_mount s = ''/m'' \<and>
    io_disk s ''/m/a'' = Some [10, 20, 30] \<and> io_call (io_env s) = (\<lambda>_. Io_done 1) \<and> io_mem s 0 = (\<lambda>_. 0)"
    by (simp add: call_eval storage_idle_def cong: bind_weak let_weak option.case_cong_weak)
  then obtain s0 s blk f where s: "run_io [(1, data_task [], IO_open 7 0 EXISTING ''/a'' [(0, 3)] 0 [])]
      (ionode_init 1048576 ''/m'' (good_env\<lparr>io_call := (\<lambda>_. Io_done 1)\<rparr>) [''/m/a'' \<mapsto> [10, 20, 30]] (\<lambda>_ _. 0)) = Some s0"
    "allocate_memory_for_block 0 s0 = Some (BLOCK_SIZE, s)" "storage_idle s" "io_blocks s 0 = Some blk" "b_data blk = Some 0"
    "b_start blk = 0" "b_data_size blk = int (1 + 1 + 1)" "map_find 7 (io_files s) = Some f" "f_path f = ''/a''" "io_mount s = ''/m''"
    "io_disk s ''/m/a'' = Some [10, 20, 30]" "io_call (io_env s) = (\<lambda>_. Io_done 1)" "io_mem s 0 = (\<lambda>_. 0)" by blast
  from split_read_corrupts [OF s(3,4,5) _ s(7) _ _ _ _ s(8), of "[10, 20, 30]"] s(6,9-12) obtain s' where
    s': "read_from_storage ''/a'' 7 0 s = Some (b_data_size blk, s')" "get_bytes 1 1 (io_mem s' 0) = [30]"
      "\<forall>j<1. io_mem s' 0 j = [10, 20, 30] ! j" "\<forall>j. 2 \<le> j \<longrightarrow> io_mem s' 0 j = io_mem s 0 j"
    by (auto simp: BLOCK_SIZE_def numeral_2_eq_2)
  then have "io_mem s' 0 0 = 10" "io_mem s' 0 1 = 30" "io_mem s' 0 2 = 0" using s(13) by (simp_all add: get_bytes_def)
  then have "get_bytes 0 3 (io_mem s' 0) = [10, 30, 0]" by (simp add: get_bytes_def upt_rec numeral_2_eq_2)
  then show ?thesis using s(1,2,7) s'(1) by auto
qed

section \<open>A write back that fails\<close>

lemma write_error:
  assumes "io_fds s = [(fd, x)]" "io_call (io_env s) (io_calls s) = Io_error err" "err \<noteq> EINVAL" "err \<noteq> EAGAIN" "len \<noteq> 0"
  shows "write_loop fd e base len s = Some (len, s\<lparr>io_calls := io_calls s + 1\<rparr>)"
  using assms by (subst write_loop.simps) (cases x; simp add: write_call_def Let_def)

lemma failed_write_to_storage:
  assumes idle: "storage_idle s" and b: "io_blocks s b = Some blk" "b_data blk = Some e" "0 \<le> b_start blk" "0 < b_data_size blk"
      "\<not> b_receiving blk" "\<not> b_writing blk" "b_postponed blk \<noteq> TO_BE_DELETED"
    and f: "map_find (b_file blk) (io_files s) = Some f"
    and call: "io_call (io_env s) (io_calls s) = Io_error err" "err \<noteq> EINVAL" "err \<noteq> EAGAIN"
  shows "\<exists>s'. write_to_storage b s = Some (0, s') \<and> io_blocks s' = (io_blocks s)(b \<mapsto> blk\<lparr>b_dirty := False\<rparr>) \<and>
    (\<forall>p. file_content p s' = file_content p s) \<and> io_sent s' = io_sent s \<and> io_pool s' = io_pool s"
proof -
  let ?n = "b_file blk" and ?rp = "io_mount s @ f_path f" and ?fd = "io_fd_fresh s"
  let ?f2 = "f\<lparr>f_write_fd := ?fd\<rparr>"
  let ?s1 = "s\<lparr>io_blocks := (io_blocks s)(b \<mapsto> blk\<lparr>b_dirty := False\<rparr>)\<rparr>"
  define s2 where "s2 = ?s1\<lparr>io_open_count := 1, io_disk := (io_disk s)(?rp \<mapsto> file_content ?rp s), io_fds := [(?fd, ?rp, 0)],
    io_fd_fresh := ?fd + 1, io_files := map_set ?n ?f2 (io_files s)\<rparr>"
  define s4 where "s4 = s2\<lparr>io_blocks := (io_blocks s)(b \<mapsto> blk\<lparr>b_dirty := False, b_writing := True\<rparr>), io_fds := [(?fd, ?rp, nat (b_start blk))]\<rparr>"
  define s6 where "s6 = s4\<lparr>io_calls := io_calls s + 1, io_blocks := (io_blocks s)(b \<mapsto> blk\<lparr>b_dirty := False\<rparr>)\<rparr>"
  have inv: "map_inv (io_files s)" "?fd \<noteq> -1" "f_read_fd f = -1" using idle f by (auto simp: storage_idle_def)
  have "storage_idle ?s1" using idle by (simp add: storage_idle_def)
  from open_remote_ok [OF this, of ?n f WRITE_FILE ?rp] f have op: "open_remote_file ?n ?rp WRITE_FILE ?s1 = Some (?fd, s2)"
    by (simp add: s2_def)
  have up: "upd_block b (\<lambda>blk. blk\<lparr>b_writing := True\<rparr>) s2 =
      Some (s2\<lparr>io_blocks := (io_blocks s)(b \<mapsto> blk\<lparr>b_dirty := False, b_writing := True\<rparr>)\<rparr>)"
    "upd_block b (\<lambda>blk. blk\<lparr>b_writing := False\<rparr>) (s4\<lparr>io_calls := io_calls s + 1\<rparr>) = Some s6"
    using b(6) by (simp_all add: upd_block_def deref_block_def s2_def s4_def s6_def) (cases blk, simp)
  have ls: "lseek ?fd (b_start blk) (s2\<lparr>io_blocks := (io_blocks s)(b \<mapsto> blk\<lparr>b_dirty := False, b_writing := True\<rparr>)\<rparr>) = (b_start blk, s4)"
    using b(3) by (simp add: lseek_def s2_def s4_def)
  have w: "write_loop ?fd e 0 (nat (b_data_size blk)) s4 = Some (nat (b_data_size blk), s4\<lparr>io_calls := io_calls s + 1\<rparr>)"
    using write_error [of s4 ?fd _ err "nat (b_data_size blk)" e 0] call b(4) by (simp add: s4_def s2_def)
  have "map_find ?n (io_files s6) = Some ?f2" "map_inv (io_files s6)" "io_fds s6 = [(?fd, ?rp, nat (b_start blk))]" "io_open_count s6 = 1"
    using inv by (simp_all add: s6_def s4_def s2_def)
  from close_remote_ok [OF this inv(2), of WRITE_FILE] inv(3) obtain g where
    g: "close_remote_file ?n WRITE_FILE s6 = Some (s6\<lparr>io_fds := [], io_open_count := 0, io_files := map_set ?n g (io_files s6)\<rparr>)" by auto
  have "b_start blk \<noteq> -1" using b(3) by simp
  then have "write_to_storage b s = Some (0, s6\<lparr>io_fds := [], io_open_count := 0, io_files := map_set ?n g (io_files s6)\<rparr>)"
    unfolding write_to_storage_def upd_block_def [of b "\<lambda>blk. blk\<lparr>b_dirty := False\<rparr>"] deref_block_def
    using b f op up ls w g by (simp add: io_real_path_def)
  then show ?thesis by (simp add: s6_def s4_def s2_def)
qed

text \<open>C34: a write back that fails loses the data. Whenever a dirty block in memory is written back for its
  eviction and the storage answers the write call with an error (other than \<^verbatim>\<open>EINVAL\<close> and
  \<^verbatim>\<open>EAGAIN\<close>, after which the code tries again), the write back returns as if nothing had
  happened and the block does not need a write back any more, although no file of the
  storage has changed; freeing the block then gives its memory back, and the block
  is marked as one to be loaded from the storage.\<close>

theorem failed_writeback_loses_data:
  assumes idle: "storage_idle s" and b: "io_blocks s b = Some blk" "b_data blk = Some e" "0 \<le> b_start blk" "0 < b_data_size blk"
      "\<not> b_receiving blk" "\<not> b_writing blk" "b_postponed blk \<noteq> TO_BE_DELETED"
    and dirty: "b_dirty blk" "b_valid blk" "b_elem blk = Some e"
    and f: "map_find (b_file blk) (io_files s) = Some f"
    and call: "io_call (io_env s) (io_calls s) = Io_error err" "err \<noteq> EINVAL" "err \<noteq> EAGAIN"
  shows "need_writeback b s = Some True \<and>
    (\<exists>s1 s2. writeback b s = Some (0, s1) \<and> need_writeback b s1 = Some False \<and> free_data b s1 = Some (BLOCK_SIZE, s2) \<and>
      io_blocks s2 b = Some (blk\<lparr>b_dirty := False, b_data := None, b_elem := None, b_page := None, b_swapout := SWAPPED_OUT\<rparr>) \<and>
      io_pool s2 = free e (io_pool s) \<and> (\<forall>p. file_content p s2 = file_content p s) \<and> io_sent s2 = io_sent s)"
proof -
  from failed_write_to_storage [OF idle b f call] obtain s1 where s1: "write_to_storage b s = Some (0, s1)"
    "io_blocks s1 = (io_blocks s)(b \<mapsto> blk\<lparr>b_dirty := False\<rparr>)" "\<forall>p. file_content p s1 = file_content p s"
    "io_sent s1 = io_sent s" "io_pool s1 = io_pool s" by blast
  let ?blk = "blk\<lparr>b_dirty := False, b_data := None, b_elem := None, b_page := None, b_swapout := SWAPPED_OUT\<rparr>"
  let ?s2 = "s1\<lparr>io_pool := free e (io_pool s), io_blocks := (io_blocks s)(b \<mapsto> ?blk)\<rparr>"
  have "free_data b s1 = Some (BLOCK_SIZE, ?s2)"
    using s1(2,5) b(2,6) dirty(2,3) by (simp add: free_data_def block_free_memory_def deref_block_def upd_block_def)
  moreover have "writeback b s = Some (0, s1)" "need_writeback b s = Some True" "need_writeback b s1 = Some False"
    using s1(1,2) b(1) dirty(1) by (simp_all add: writeback_def need_writeback_def deref_block_def)
  ultimately show ?thesis using s1(3,4) by simp
qed

theorem failed_writeback_loses_data_witness:
  "\<exists>s s1 s2. run_io [(1, data_task [], IO_open 7 0 NOT_EXIST ''/a'' [] 0 []), (2, data_task [9], IO_write 7 0 0 1)]
      (ionode_init 1048576 ''/m'' (good_env\<lparr>io_call := (\<lambda>_. Io_error 5)\<rparr>) (\<lambda>_. None) (\<lambda>_ _. 0)) = Some s \<and>
    content (view s) 7 0 = Some 9 \<and> writeback 0 s = Some (0, s1) \<and> free_data 0 s1 = Some (BLOCK_SIZE, s2) \<and>
    file_content ''/m/a'' s2 = []"
proof -
  have "\<exists>s blk f. run_io [(1, data_task [], IO_open 7 0 NOT_EXIST ''/a'' [] 0 []), (2, data_task [9], IO_write 7 0 0 1)]
      (ionode_init 1048576 ''/m'' (good_env\<lparr>io_call := (\<lambda>_. Io_error 5)\<rparr>) (\<lambda>_. None) (\<lambda>_ _. 0)) = Some s \<and>
    io_blocks s 0 = Some blk \<and> storage_idle s \<and> b_data blk = Some 0 \<and> b_start blk = 0 \<and> b_data_size blk = 1 \<and> \<not> b_receiving blk \<and>
    \<not> b_writing blk \<and> b_postponed blk \<noteq> TO_BE_DELETED \<and> b_dirty blk \<and> b_valid blk \<and> b_elem blk = Some 0 \<and> b_file blk = 7 \<and>
    map_find 7 (io_files s) = Some f \<and> map_find 0 (f_blocks f) = Some 0 \<and> io_mem s 0 0 = 9 \<and> io_call (io_env s) = (\<lambda>_. Io_error 5) \<and>
    io_disk s ''/m/a'' = None"
    by (simp add: call_eval write_eval storage_idle_def cong: bind_weak let_weak option.case_cong_weak)
  then obtain s blk f where s: "run_io [(1, data_task [], IO_open 7 0 NOT_EXIST ''/a'' [] 0 []), (2, data_task [9], IO_write 7 0 0 1)]
      (ionode_init 1048576 ''/m'' (good_env\<lparr>io_call := (\<lambda>_. Io_error 5)\<rparr>) (\<lambda>_. None) (\<lambda>_ _. 0)) = Some s"
    and b: "io_blocks s 0 = Some blk" "storage_idle s" "b_data blk = Some 0" "b_start blk = 0" "b_data_size blk = 1" "\<not> b_receiving blk"
      "\<not> b_writing blk" "b_postponed blk \<noteq> TO_BE_DELETED" "b_dirty blk" "b_valid blk" "b_elem blk = Some 0" "b_file blk = 7"
      "map_find 7 (io_files s) = Some f" "map_find 0 (f_blocks f) = Some 0" "io_mem s 0 0 = 9" "io_call (io_env s) = (\<lambda>_. Io_error 5)"
      "io_disk s ''/m/a'' = None" by blast
  have "content (view s) 7 0 = Some 9"
    using b(1,3,5,13-15) by (simp add: content_def content_at_def block_byte_def view_def blk_at_def)
  moreover from failed_writeback_loses_data [OF b(2,1,3) _ _ b(6-11), of f 5] b(4,5,12,13,16) obtain s1 s2 where
    "writeback 0 s = Some (0, s1)" "free_data 0 s1 = Some (BLOCK_SIZE, s2)" "\<forall>p. file_content p s2 = file_content p s" by auto
  ultimately show ?thesis using s b(17) by auto
qed

section \<open>A request over two blocks with memory for one\<close>

text \<open>A pool with room for one element has only the element 0.\<close>

lemma single_element:
  assumes "io_inv s" "pool_capacity (io_pool s) = 1" "io_blocks s b = Some blk" "b_data blk = Some e"
  shows "e = 0"
proof -
  have pi: "pool_inv (elems (io_blocks s)) (io_pool s)" using assms(1) cinvD(4) [of "view s"] by (simp add: io_inv_def live_pool_def)
  then have "elems (io_blocks s) \<subseteq> {..<pool_fresh (io_pool s)}" by (auto simp: pool_inv_def elems_ok_def)
  moreover have "pool_fresh (io_pool s) \<le> 1" using pool_fresh_bound [OF pi] assms(2) by simp
  moreover have "e \<in> elems (io_blocks s)" using elemsI [of "io_blocks s" b blk] assms(3,4) by simp
  ultimately show ?thesis by auto
qed

lemma resident_bytes:
  assumes "blk_at s n st = Some b" "io_blocks s b = Some blk" "b_data blk = Some e" "0 \<le> st" "BLOCK_SIZE dvd st"
    and "\<And>i. i < k \<Longrightarrow> content (view s) n (st + int (off + i)) = Some (g i)" "off + k \<le> block_bytes"
  shows "get_bytes off k (io_mem s e) = map g [0..<k]"
proof (rule nth_equalityI)
  fix i assume "i < length (get_bytes off k (io_mem s e))"
  then have i: "i < k" by simp
  then have "content_at (view s) n st (off + i) = Some (g i)"
    using assms(6) [OF i] assms(7) content_block [OF assms(4,5), of "off + i" "view s" n] by simp
  then show "get_bytes off k (io_mem s e) ! i = map g [0..<k] ! i"
    using assms(1-3) i by (simp add: content_at_def block_byte_def get_bytes_def split: if_splits)
qed simp

lemma send_two_blocks_one_element:
  assumes inv: "io_inv s" "\<not> deleted s n" "pool_capacity (io_pool s) = 1"
    and b1: "blk_at s n st = Some b1" "io_blocks s b1 = Some blk1" "known s n blk1"
    and b2: "blk_at s n (st + BLOCK_SIZE) = Some b2"
      "\<And>s'. io_inv s' \<Longrightarrow> transparent s s' \<Longrightarrow> \<exists>blk. io_blocks s' b2 = Some blk \<and> known s' n blk"
    and rg: "0 \<le> st" "BLOCK_SIZE dvd st" "st + BLOCK_SIZE < 9223372036854775808" "0 \<le> off" "off < BLOCK_SIZE" "BLOCK_SIZE < off + sz" "sz \<le> BLOCK_SIZE"
    and g1: "\<And>i. i < nat (BLOCK_SIZE - off) \<Longrightarrow> content (view s) n (st + BLOCK_SIZE + off + int i) = Some (g1 i)"
    and g2: "\<And>i. i < nat (off + sz - BLOCK_SIZE) \<Longrightarrow> content (view s) n (st + BLOCK_SIZE + int i) = Some (g2 i)"
  shows "\<exists>s'. send_data h n st off sz s = Some (SUCCESS,
    io_send h [F_int SUCCESS] (map g1 [0..<nat (BLOCK_SIZE - off)] @ map g2 [0..<nat (off + sz - BLOCK_SIZE)]) s') \<and> transparent s s'"
proof -
  let ?k1 = "BLOCK_SIZE - off" and ?k2 = "off + sz - BLOCK_SIZE" and ?st2 = "st + BLOCK_SIZE"
  from load_block_known [OF inv(1) b1(1) inv(2) b1(2,3)] inv(3) obtain s1 s2 blk1' e1 where
    s2: "load_block n b1 s = Some s1" "update_access_order b1 False s1 = Some s2" "io_inv s2" "transparent s s2"
      "io_blocks s2 b1 = Some blk1'" "b_data blk1' = Some e1" by auto
  have t2: "blk_at s2 n ?st2 = Some b2" "\<not> deleted s2 n" "pool_capacity (io_pool s2) = 1" using s2(4) b2(1) inv(2,3) by (simp_all add: transparent_def)
  from b2(2) [OF s2(3,4)] obtain blk2 where blk2: "io_blocks s2 b2 = Some blk2" "known s2 n blk2" by blast
  from load_block_known [OF s2(3) t2(1,2) blk2] t2(3) obtain s3 s4 blk2' e2 where
    s4: "load_block n b2 s2 = Some s3" "update_access_order b2 False s3 = Some s4" "io_inv s4" "transparent s2 s4"
      "io_blocks s4 b2 = Some blk2'" "b_data blk2' = Some e2" by auto
  have tr: "transparent s s4" using transparent_trans [OF s2(4) s4(4)] .
  have e: "e1 = 0" "e2 = 0"
    using single_element [OF s2(3) t2(3) s2(5,6)] single_element [OF s4(3) _ s4(5,6)] tr inv(3) by (simp_all add: transparent_def)
  have at4: "blk_at s4 n ?st2 = Some b2" using tr b2(1) by (simp add: transparent_def)
  have le: "content (view s) n \<subseteq>\<^sub>m content (view s4) n" using tr inv(2) by (simp add: transparent_def)
  have st2: "0 \<le> ?st2" "BLOCK_SIZE dvd ?st2" using rg(1,2) by (simp_all add: BLOCK_SIZE_def)
  have get1: "get_bytes (nat off) (nat ?k1) (io_mem s4 0) = map g1 [0..<nat ?k1]"
    using le g1 rg(4,5) by (intro resident_bytes [OF at4 s4(5,6) [unfolded e] st2]) (auto simp: map_le_def dom_def add.assoc nat_add_distrib [symmetric])
  have get2: "get_bytes 0 (nat ?k2) (io_mem s4 0) = map g2 [0..<nat ?k2]"
    using le g2 rg by (intro resident_bytes [OF at4 s4(5,6) [unfolded e] st2]) (auto simp: map_le_def dom_def)
  have f: "map_find n (io_files s) \<noteq> None" "map_find n (io_files s2) \<noteq> None" using b1(1) t2(1) by (auto simp: blk_at_def split: option.splits)
  have ar: "u64 (off + sz) = off + sz" "u64 ?k1 = ?k1" "s64 sz = sz" "s64 (sz - ?k1) = ?k2" "u64 (min ?k2 BLOCK_SIZE) = ?k2" "s64 ?st2 = ?st2" "s64 0 = 0"
    using rg by (simp_all add: u64_def s64_def BLOCK_SIZE_def)
  have l0: "send_loop n st' off' sz' 0 ps s' = Some (ps, s')" for st' off' sz' ps s' by (subst send_loop.simps) simp
  have l2: "send_loop n ?st2 0 ?k2 ?k2 ps s2 = Some (ps @ [(0, 0, ?k2)], s4)" for ps
    using f(2) t2(1) s4(1,2,5,6) e rg ar(7) l0 by (subst send_loop.simps) (auto simp: blk_at_def deref_block_def)
  have l1: "send_loop n st off ?k1 sz [] s = Some ([(0, off, ?k1), (0, 0, ?k2)], s4)"
    using f(1) b1(1) s2(1,2,5,6) e rg ar(4-6) l2 by (subst send_loop.simps) (auto simp: blk_at_def deref_block_def Let_def)
  have "send_bytes [(0, off, ?k1), (0, 0, ?k2)] s4 = Some (map g1 [0..<nat ?k1] @ map g2 [0..<nat ?k2])"
    using get1 get2 rg by simp
  then have "send_data h n st off sz s = Some (SUCCESS, io_send h [F_int SUCCESS] (map g1 [0..<nat ?k1] @ map g2 [0..<nat ?k2]) s4)"
    using f(1) l1 ar(1-3) rg(6) by (auto simp: send_data_def Let_def)
  then show ?thesis using tr by blast
qed

lemma run_io_append: "run_io (rs @ rs') s = Option.bind (run_io rs s) (run_io rs')"
  by (induction rs s rule: run_io.induct) (auto simp: bind_eq_Some_conv split: bind_splits)

lemma init_capacity:
  assumes "BLOCK_SIZE \<le> mem" "mem < BLOCK_SIZE * 2147483648"
  shows "pool_capacity (io_pool (ionode_init mem mnt env disk m)) = nat (mem div BLOCK_SIZE)"
proof -
  let ?cnt = "mem div BLOCK_SIZE"
  have c: "0 < ?cnt" "?cnt < 2147483648" using assms by (auto simp: BLOCK_SIZE_def)
  then have "s32 ?cnt = ?cnt" by (simp add: s32_def)
  then show ?thesis using pool_setup_ok(2) [OF c] by (simp add: ionode_init_def)
qed

text \<open>C30: a read over two blocks by a node with memory for one block is answered wrongly. After every run
  that the abstract machine of C5 describes, a request of at most one block of data that
  starts in the block at \<open>st\<close> and ends in the next one, all bytes of which and all bytes of
  the second block from \<open>off\<close> on were written, is answered with SUCCESS, but
  the bytes of the first block are not the ones at \<open>st + off\<close>: they are those one
  block further, at \<open>st + BLOCK_SIZE + off\<close>. The pieces of the reply point into the memory of the
  blocks, and loading the second block evicts the first and takes its memory.\<close>

theorem two_block_read_single_buffer:
  assumes env: "env_ok env" "BLOCK_SIZE \<le> mem" "mem < 2 * BLOCK_SIZE"
    and run: "admissible_run empty_spec rs" "D = sp_data (fst (spec_run rs empty_spec)) n"
    and rg: "0 \<le> st" "BLOCK_SIZE dvd st" "st + BLOCK_SIZE < 9223372036854775808" "0 \<le> off" "off < BLOCK_SIZE" "BLOCK_SIZE < off + sz" "sz \<le> BLOCK_SIZE"
    and D: "\<And>x. st + off \<le> x \<Longrightarrow> x < st + off + sz \<Longrightarrow> D x \<noteq> None"
      "\<And>x. st + BLOCK_SIZE + off \<le> x \<Longrightarrow> x < st + BLOCK_SIZE + BLOCK_SIZE \<Longrightarrow> D x \<noteq> None"
  shows "\<exists>s'. run_io (rs @ [(h, t, IO_read n st off sz)]) (ionode_init mem mnt env disk m) = Some s' \<and>
    io_sent s' = snd (spec_run rs empty_spec) @ [Io_msg h [F_int SUCCESS]
      (map (\<lambda>i. the (D (st + BLOCK_SIZE + off + int i))) [0..<nat (BLOCK_SIZE - off)] @
       map (\<lambda>i. the (D (st + BLOCK_SIZE + int i))) [0..<nat (off + sz - BLOCK_SIZE)])]"
proof -
  have mem: "mem < BLOCK_SIZE * 2147483648" "mem div BLOCK_SIZE = 1" using env(2,3) by (simp_all add: BLOCK_SIZE_def)
  have sent0: "io_sent (ionode_init mem mnt env disk m) = []" by (simp add: ionode_init_def)
  from run_refines [OF init_refines [OF env(1,2) mem(1)] run(1), of mnt disk m] init_capacity [OF env(2) mem(1)] mem(2) sent0 obtain s where
    s: "run_io rs (ionode_init mem mnt env disk m) = Some s" "refines s (fst (spec_run rs empty_spec))"
      "io_sent s = snd (spec_run rs empty_spec)" "pool_capacity (io_pool s) = 1" by auto
  note i = refinesD [OF s(2)]
  have c: "content (view s) n x = Some (the (D x))" if "D x \<noteq> None" for x
    using i(5) [of n] that run(2) by (auto simp: map_le_def dom_def)
  have st2: "0 \<le> st + BLOCK_SIZE" "BLOCK_SIZE dvd st + BLOCK_SIZE" "0 < block_bytes" using rg(1,2) by (simp_all add: BLOCK_SIZE_def)
  have k1: "nat off < block_bytes" "content (view s) n (st + int (nat off)) \<noteq> None"
    using c [of "st + off"] D(1) [of "st + off"] rg(4-7) by auto
  have k2: "content (view s) n (st + BLOCK_SIZE + int 0) \<noteq> None"
    using c [of "st + BLOCK_SIZE"] D(1) [of "st + BLOCK_SIZE"] rg(4-7) by simp
  from known_block [OF i(1,3,4) rg(1,2) k1] obtain b1 blk1 where
    b1: "blk_at s n st = Some b1" "io_blocks s b1 = Some blk1" "known s n blk1" by blast
  from known_block [OF i(1,3,4) st2 k2] obtain b2 where b2: "blk_at s n (st + BLOCK_SIZE) = Some b2" by blast
  have kn: "\<exists>blk. io_blocks s' b2 = Some blk \<and> known s' n blk" if "io_inv s'" "transparent s s'" for s'
  proof -
    have t: "\<not> deleted s' n" "\<not> existing s' n" "blk_at s' n (st + BLOCK_SIZE) = Some b2" "content (view s) n \<subseteq>\<^sub>m content (view s') n"
      using that(2) i(3,4) b2 by (simp_all add: transparent_def)
    then have "content (view s') n (st + BLOCK_SIZE + int 0) \<noteq> None" using k2 by (auto simp: map_le_def dom_def)
    from known_block [OF that(1) t(1,2) st2 this] t(3) show ?thesis by auto
  qed
  from send_two_blocks_one_element [OF i(1,3) s(4) b1 b2 kn rg, of "\<lambda>i. the (D (st + BLOCK_SIZE + off + int i))"
      "\<lambda>i. the (D (st + BLOCK_SIZE + int i))" h] obtain s' where
    s': "send_data h n st off sz s = Some (SUCCESS, io_send h [F_int SUCCESS]
      (map (\<lambda>i. the (D (st + BLOCK_SIZE + off + int i))) [0..<nat (BLOCK_SIZE - off)] @
       map (\<lambda>i. the (D (st + BLOCK_SIZE + int i))) [0..<nat (off + sz - BLOCK_SIZE)]) s')" "transparent s s'"
    using c D rg by auto
  have "io_sent s' = io_sent s" using s'(2) by (simp add: transparent_def)
  then show ?thesis using s(1,3) s'(1) by (simp add: run_io_append io_send_def)
qed

theorem two_block_read_single_buffer_witness:
  "\<exists>s'. run_io ([(1, data_task [], IO_open 7 0 NOT_EXIST ''/a'' [] 0 []), (2, data_task [1], IO_write 7 0 1048575 1),
      (2, data_task [2], IO_write 7 1048576 0 1), (2, data_task [3], IO_write 7 1048576 1048575 1)] @ [(3, data_task [], IO_read 7 0 1048575 2)])
      (ionode_init 1048576 ''/m'' good_env (\<lambda>_. None) (\<lambda>_ _. 0)) = Some s' \<and>
    io_sent s' = [Io_msg 3 [F_int SUCCESS] [3, 2]]"
proof -
  let ?rs = "[(1, data_task [], IO_open 7 0 NOT_EXIST ''/a'' [] 0 []), (2, data_task [1], IO_write 7 0 1048575 1),
      (2, data_task [2], IO_write 7 1048576 0 1), (2, data_task [3], IO_write 7 1048576 1048575 1)] :: io_call list"
  define D where "D = sp_data (fst (spec_run ?rs empty_spec)) 7"
  have pl: "payload (data_task [x]) 1 = [x]" for x by (simp add: payload_data_task)
  have ad: "admissible_run empty_spec ?rs"
    by (simp add: empty_spec_def new_blocks_ok_def BLOCK_SIZE_def pl) (simp add: data_task_def)
  have ms: "snd (spec_run ?rs empty_spec) = []" by (simp add: empty_spec_def)
  have D: "D 1048575 = Some 1" "D 1048576 = Some 2" "D 2097151 = Some 3"
    by (simp_all add: D_def empty_spec_def pl overwrite_def)
  have "D x \<noteq> None" if "0 + 1048575 \<le> x" "x < 0 + 1048575 + 2" for x :: int
  proof -
    from that have "x = 1048575 \<or> x = 1048576" by linarith
    then show ?thesis using D by auto
  qed
  moreover have "D x \<noteq> None" if "0 + BLOCK_SIZE + 1048575 \<le> x" "x < 0 + BLOCK_SIZE + BLOCK_SIZE" for x :: int
  proof -
    from that have "x = 2097151" by (simp add: BLOCK_SIZE_def)
    then show ?thesis using D by simp
  qed
  moreover have "BLOCK_SIZE \<le> 1048576" "1048576 < 2 * BLOCK_SIZE" "0 + BLOCK_SIZE < 9223372036854775808" "1048575 < BLOCK_SIZE"
    "BLOCK_SIZE < 1048575 + 2" "2 \<le> BLOCK_SIZE" by (simp_all add: BLOCK_SIZE_def)
  ultimately show ?thesis
    using two_block_read_single_buffer [OF good_env_ok _ _ ad D_def, of 1048576 0 1048575 2 3 "data_task []" "''/m''" "\<lambda>_. None" "\<lambda>_ _. 0"]
    unfolding ms using D by (simp add: BLOCK_SIZE_def)
qed

section \<open>No memory limit configured\<close>

text \<open>Without a configured memory limit a node has memory for no block (the limit is then the
  constant 10000 bytes, less than one block): the first write ends the process with the
  exception of the pool, whatever the storage and the memory hold.\<close>

theorem default_limit_no_memory:
  "\<not> has_memory_left BLOCK_SIZE (io_pool (ionode_init 10000 mnt good_env disk m)) \<and>
   run_io [(1, data_task [], IO_open 7 0 NOT_EXIST ''/a'' [] 0 []), (2, data_task [9], IO_write 7 0 0 1)]
     (ionode_init 10000 mnt good_env disk m) = None"
  by (simp add: call_eval write_eval cong: bind_weak let_weak option.case_cong_weak)

end
