(* ===== verification/Id_Pool.thy ===== *)
theory Id_Pool
  imports Allocator
begin

text \<open>
  The two number pools of the master (Master/src/Master.cpp): node numbers
  (\<^verbatim>\<open>_node_id_pool\<close>, \<^verbatim>\<open>_current_node_number\<close>, \<^verbatim>\<open>_get_node_id\<close>) and file numbers
  (\<^verbatim>\<open>_file_no_pool\<close>, \<^verbatim>\<open>_current_file_no\<close>, \<^verbatim>\<open>_file_number\<close>, \<^verbatim>\<open>_get_file_no\<close>,
  \<^verbatim>\<open>_release_file_no\<close>). A \<^verbatim>\<open>bool\<close> array is a function on its indices.
\<close>

section \<open>Operations\<close>

abbreviation "MAX_IONODE \<equiv> 1000 :: nat"
abbreviation "MAX_FILE_NUMBER \<equiv> 1000000 :: nat"

record id_pool =
  id_used :: "nat \<Rightarrow> bool"
  id_current :: nat
  id_count :: int

text \<open>The scanning loop: the first free index from \<open>k\<close> on, or the bound.\<close>

function scan_free :: "(nat \<Rightarrow> bool) \<Rightarrow> nat \<Rightarrow> nat \<Rightarrow> nat" where
  "scan_free pool k mx = (if k < mx then (if \<not> pool k then k else scan_free pool (k + 1) mx) else k)"
  by pat_completeness auto
termination by (relation "measure (\<lambda>(_, k, mx). mx - k)") auto

declare scan_free.simps [simp del]

text \<open>\<open>registered\<close> is the size of the map of registered nodes.\<close>

definition get_node_id :: "int \<Rightarrow> id_pool \<Rightarrow> int \<times> id_pool" where
  "get_node_id registered p =
     (if int MAX_IONODE = registered then (-1, p)
      else let k = scan_free (id_used p) (id_current p) MAX_IONODE in
        if k < MAX_IONODE then (int k, p\<lparr>id_used := (id_used p)(k := True), id_current := k\<rparr>)
        else let k = scan_free (id_used p) 0 MAX_IONODE in
          if k < MAX_IONODE then (int k, p\<lparr>id_used := (id_used p)(k := True), id_current := k\<rparr>)
          else (-1, p\<lparr>id_current := k\<rparr>))"

definition get_file_no :: "id_pool \<Rightarrow> int \<times> id_pool" where
  "get_file_no p =
     (if int MAX_FILE_NUMBER = id_count p then (-1, p)
      else let k = scan_free (id_used p) (id_current p) MAX_FILE_NUMBER in
        if k < MAX_FILE_NUMBER then
          (int k, p\<lparr>id_used := (id_used p)(k := True), id_count := id_count p + 1, id_current := k + 1\<rparr>)
        else let k = scan_free (id_used p) 0 MAX_FILE_NUMBER in
          if k < MAX_FILE_NUMBER then
            (int k, p\<lparr>id_used := (id_used p)(k := True), id_count := id_count p + 1, id_current := k + 1\<rparr>)
          else (-1, p\<lparr>id_current := k\<rparr>))"

text \<open>The index is not checked; -1 writes before the array, which is None.\<close>

definition release_file_no :: "int \<Rightarrow> id_pool \<Rightarrow> id_pool option" where
  "release_file_no file_no p =
     (if 0 \<le> file_no \<and> file_no < int MAX_FILE_NUMBER
      then Some (p\<lparr>id_count := id_count p - 1, id_used := (id_used p)(nat file_no := False)\<rparr>)
      else None)"

definition id_pool_init :: id_pool where
  "id_pool_init = \<lparr>id_used = (\<lambda>_. False), id_current = 0, id_count = 0\<rparr>"

section \<open>Scanning\<close>

lemma scan_free_bounds: "k \<le> mx \<Longrightarrow> k \<le> scan_free pool k mx \<and> scan_free pool k mx \<le> mx"
proof (induction pool k mx rule: scan_free.induct)
  case (1 pool k mx)
  then show ?case
    by (cases "k < mx \<and> pool k") (auto simp: scan_free.simps [of pool k mx])
qed

lemma scan_free_found: "scan_free pool k mx < mx \<Longrightarrow> \<not> pool (scan_free pool k mx)"
proof (induction pool k mx rule: scan_free.induct)
  case (1 pool k mx)
  then show ?case
    by (cases "k < mx \<and> pool k") (auto simp: scan_free.simps [of pool k mx] split: if_splits)
qed

lemma scan_free_least: "k \<le> i \<Longrightarrow> i < scan_free pool k mx \<Longrightarrow> pool i"
proof (induction pool k mx rule: scan_free.induct)
  case (1 pool k mx)
  then show ?case
    by (cases "i = k") (auto simp: scan_free.simps [of pool k mx] split: if_splits)
qed

definition used_ids :: "nat \<Rightarrow> id_pool \<Rightarrow> nat set" where
  "used_ids mx p = {k. k < mx \<and> id_used p k}"

lemma used_ids_finite [simp]: "finite (used_ids mx p)"
  by (simp add: used_ids_def)

lemma used_ids_card: "card (used_ids mx p) \<le> mx"
proof -
  have "used_ids mx p \<subseteq> {..<mx}" by (auto simp: used_ids_def)
  then show ?thesis using card_mono [of "{..<mx}" "used_ids mx p"] by simp
qed

lemma scan_full: "\<not> scan_free (id_used p) 0 mx < mx \<Longrightarrow> used_ids mx p = {..<mx}"
  using scan_free_least [of 0 _ "id_used p" mx] by (auto simp: used_ids_def)

lemma used_ids_take:
  "k < mx \<Longrightarrow> used_ids mx (p\<lparr>id_used := (id_used p)(k := True), id_current := c\<rparr>) = insert k (used_ids mx p)"
  "k < mx \<Longrightarrow> used_ids mx (p\<lparr>id_used := (id_used p)(k := True), id_count := n, id_current := c\<rparr>)
     = insert k (used_ids mx p)"
  by (auto simp: used_ids_def)

text \<open>Node numbers: the number returned was free and is marked, and nothing else changes.\<close>

lemma get_node_id_cases:
  "(\<exists>k p'. get_node_id n p = (int k, p') \<and> k < MAX_IONODE \<and> \<not> id_used p k \<and>
      id_used p' = (id_used p)(k := True)) \<or>
   (\<exists>p'. get_node_id n p = (-1, p') \<and> id_used p' = id_used p \<and>
      (n = int MAX_IONODE \<or> used_ids MAX_IONODE p = {..<MAX_IONODE}))"
proof -
  let ?k1 = "scan_free (id_used p) (id_current p) MAX_IONODE"
  let ?k2 = "scan_free (id_used p) 0 MAX_IONODE"
  consider "n = int MAX_IONODE" | "n \<noteq> int MAX_IONODE" "?k1 < MAX_IONODE"
    | "n \<noteq> int MAX_IONODE" "\<not> ?k1 < MAX_IONODE" "?k2 < MAX_IONODE"
    | "n \<noteq> int MAX_IONODE" "\<not> ?k1 < MAX_IONODE" "\<not> ?k2 < MAX_IONODE" by blast
  then show ?thesis
  proof cases
    case 1
    then show ?thesis by (simp add: get_node_id_def)
  next
    case 2
    then show ?thesis using scan_free_found [OF 2(2)] by (auto simp: get_node_id_def Let_def)
  next
    case 3
    then show ?thesis using scan_free_found [OF 3(3)] by (auto simp: get_node_id_def Let_def)
  next
    case 4
    then show ?thesis using scan_full [OF 4(3)] by (auto simp: get_node_id_def Let_def)
  qed
qed

section \<open>Both pools are allocators\<close>

text \<open>The invariants: the set of used numbers, and for file numbers their exact count.\<close>

definition file_nos_inv :: "nat set \<Rightarrow> id_pool \<Rightarrow> bool" where
  "file_nos_inv L p \<longleftrightarrow> used_ids MAX_FILE_NUMBER p = L \<and> id_count p = int (card L)"

definition alloc_file_no :: "id_pool \<Rightarrow> (nat \<times> id_pool) option" where
  "alloc_file_no p = (case get_file_no p of (n, p') \<Rightarrow> if n = -1 then None else Some (nat n, p'))"

definition free_file_no :: "nat \<Rightarrow> id_pool \<Rightarrow> id_pool" where
  "free_file_no n p = the (release_file_no (int n) p)"

lemma get_file_no_cases:
  assumes "file_nos_inv L p"
  shows "(\<exists>k p'. get_file_no p = (int k, p') \<and> k < MAX_FILE_NUMBER \<and> k \<notin> L \<and> file_nos_inv (insert k L) p')
         \<or> (card L = MAX_FILE_NUMBER \<and> get_file_no p = (-1, p))"
proof -
  have L: "used_ids MAX_FILE_NUMBER p = L" "id_count p = int (card L)" "finite L"
    using assms by (auto simp: file_nos_inv_def)
  have found: "k \<notin> L \<and> file_nos_inv (insert k L)
      (p\<lparr>id_used := (id_used p)(k := True), id_count := id_count p + 1, id_current := k + 1\<rparr>)"
    if "k < MAX_FILE_NUMBER" "\<not> id_used p k" for k
  proof -
    have "k \<notin> L" using that L(1) by (auto simp: used_ids_def)
    then show ?thesis using that L used_ids_take(2) by (simp add: file_nos_inv_def)
  qed
  let ?k1 = "scan_free (id_used p) (id_current p) MAX_FILE_NUMBER"
  let ?k2 = "scan_free (id_used p) 0 MAX_FILE_NUMBER"
  show ?thesis
  proof (cases "int MAX_FILE_NUMBER = id_count p")
    case True
    then show ?thesis using L by (simp add: get_file_no_def)
  next
    case False
    then have "?k2 < MAX_FILE_NUMBER"
      using scan_full [of p MAX_FILE_NUMBER] L by force
    then show ?thesis
      using False found [of ?k1] found [of ?k2] scan_free_found
      by (cases "?k1 < MAX_FILE_NUMBER") (force simp: get_file_no_def Let_def)+
  qed
qed

lemma release_file_no_inv:
  assumes "file_nos_inv L p" "k \<in> L"
  shows "\<exists>p'. release_file_no (int k) p = Some p' \<and> file_nos_inv (L - {k}) p'"
proof -
  have L: "used_ids MAX_FILE_NUMBER p = L" "id_count p = int (card L)" "k < MAX_FILE_NUMBER"
    using assms by (auto simp: file_nos_inv_def used_ids_def)
  have "finite L" using L(1) by auto
  then have "int (card (L - {k})) = int (card L) - 1"
    using assms(2) by (simp add: card_Diff_singleton of_nat_diff card_gt_0_iff Suc_leI)
       (metis Suc_leI card_gt_0_iff empty_iff of_nat_1 of_nat_diff One_nat_def)
  moreover have "used_ids MAX_FILE_NUMBER (p\<lparr>id_count := id_count p - 1,
      id_used := (id_used p)(k := False)\<rparr>) = L - {k}"
    using L(1) by (auto simp: used_ids_def)
  ultimately show ?thesis using L by (simp add: release_file_no_def file_nos_inv_def)
qed

interpretation file_nos: block_allocator alloc_file_no free_file_no file_nos_inv "\<lambda>_. MAX_FILE_NUMBER"
proof
  fix L p a p'
  assume "file_nos_inv L p" "alloc_file_no p = Some (a, p')"
  then show "a \<notin> L \<and> file_nos_inv (insert a L) p'"
    using get_file_no_cases [of L p] by (auto simp: alloc_file_no_def split: prod.splits if_splits)
next
  fix L p
  assume "file_nos_inv L p" "card L < MAX_FILE_NUMBER"
  then show "alloc_file_no p \<noteq> None"
    using get_file_no_cases [of L p] by (auto simp: alloc_file_no_def split: prod.splits if_splits)
next
  fix L p a
  assume "file_nos_inv L p" "a \<in> L"
  then show "file_nos_inv (L - {a}) (free_file_no a p) \<and> MAX_FILE_NUMBER = MAX_FILE_NUMBER"
    using release_file_no_inv by (force simp: free_file_no_def)
next
  fix L p
  assume "file_nos_inv L p"
  then show "finite L \<and> card L \<le> MAX_FILE_NUMBER"
    using used_ids_card by (auto simp: file_nos_inv_def)
qed auto

end
