(* ===== verification/Master_State.thy ===== *)
theory Master_State
  imports HFS_Const File_Blocks Id_Pool IO_Task "HOL-Library.Monad_Syntax"
begin

unbundle bit_operations_syntax

text \<open>
  The state of the master and the internal operations of its request handlers
  (Master/include/Master.h, Master/include/Master\_basic.h, Master/src/Master\_basic.cpp,
  Master/src/Master.cpp): node selection, opening, creating and removing files.

  \<^item> A \<^verbatim>\<open>node_info*\<close> is an address into \<open>node_heap\<close>; sets of such pointers are ordered by
    address, as \<^verbatim>\<open>std::set<node_info*>\<close> is, and the address \<^verbatim>\<open>new\<close> returns is an argument.
  \<^item> An \<^verbatim>\<open>open_file_info*\<close> is an address into \<open>file_heap\<close>.
  \<^item> A \<^verbatim>\<open>Master_file_stat*\<close> points to the value of a node of \<^verbatim>\<open>_file_stat_pool\<close> and is the path
    that is its key (\<^verbatim>\<open>full_path\<close> is that iterator).
  \<^item> \<^verbatim>\<open>_current_IOnode\<close> is the key its iterator stands at, None for \<^verbatim>\<open>end()\<close>.
  \<^item> Following a null or dangling pointer or an \<^verbatim>\<open>end()\<close> iterator is undefined: the operation
    is None. A C++ exception is a value of the sum type.
  \<^item> Sending a task appends to \<open>sent\<close>: the connection, the values pushed and, for a
    directory listing, the names. The messages that carry lists (blocks, nodes, names) are
    checked against the size of the task's buffer, and overrunning it is undefined; the others
    have a fixed number of values, the only strings among them taken from a request that
    also held another value of at least that size. A remote task queued for the file system below appends
    to \<open>remote_tasks\<close>; a file or directory created in the backup tree to \<open>backups\<close>.
\<close>

section \<open>Constants\<close>


definition NUM_OF_REPLICA :: int where "NUM_OF_REPLICA = 0"

section \<open>State\<close>

record node_info =
  ni_handle :: int
  ni_id :: ssize_t
  ni_uri :: string
  stored_files :: "int list"
  avaliable_memory :: size_t
  total_memory :: size_t

record master_file_stat =
  fs_status :: stat
  fs_name :: string
  external_flag :: c_int
  external_master :: c_int
  external_name :: string
  exist_flag :: c_int
  opened_file_info :: "nat option"

record open_file_info =
  of_file_no :: ssize_t
  of_block_list :: block_list
  of_IOnodes_set :: "nat list"
  primary_replica_node :: "nat option"
  of_block_size :: size_t
  open_count :: c_int
  of_flag :: c_int
  of_file_status :: string

datatype outmsg = Msg int "field list" "string list" | Stale_task

record master =
  registered_IOnodes :: "(ssize_t, nat) std_map"
  node_heap :: "(nat, node_info) std_map"
  file_stat_pool :: "(string, master_file_stat) std_map"
  buffered_files :: "(ssize_t, nat) std_map"
  file_heap :: "(nat, open_file_info) std_map"
  file_fresh :: nat
  IOnode_handle :: "nat list"
  node_ids :: id_pool
  file_nos :: id_pool
  mount_point :: string
  backup_point :: string
  master_number :: c_int
  master_total_size :: c_int
  current_IOnode :: "ssize_t option"
  sent :: "outmsg list"
  remote_tasks :: "(c_int \<times> string \<times> mode_t) list"
  backups :: "(string \<times> mode_t) list"

text \<open>What the operating system answers: the time and the ids of the process.\<close>

record os_env =
  env_time :: time_t
  env_uid :: int
  env_gid :: int

datatype master_exn = Runtime_error | Bad_alloc | Invalid_argument

definition zero_stat :: stat where
  "zero_stat = \<lparr>st_dev = 0, st_ino = 0, st_nlink = 0, st_mode = 0, st_uid = 0, st_gid = 0,
     st_rdev = 0, st_size = 0, st_blksize = 0, st_blocks = 0, st_atime = 0, st_mtime = 0, st_ctime = 0\<rparr>"

definition Master_file_stat :: master_file_stat where
  "Master_file_stat = \<lparr>fs_status = zero_stat, fs_name = [], external_flag = INTERNAL,
     external_master = 0, external_name = [], exist_flag = 0, opened_file_info = None\<rparr>"

definition new_open_file_info :: "ssize_t \<Rightarrow> c_int \<Rightarrow> string \<Rightarrow> open_file_info" where
  "new_open_file_info file_no flag path = \<lparr>of_file_no = file_no, of_block_list = [],
     of_IOnodes_set = [], primary_replica_node = None, of_block_size = 0, open_count = 1,
     of_flag = flag, of_file_status = path\<rparr>"

definition new_node_info :: "ssize_t \<Rightarrow> string \<Rightarrow> size_t \<Rightarrow> int \<Rightarrow> node_info" where
  "new_node_info i uri mem handle = \<lparr>ni_handle = handle, ni_id = i, ni_uri = uri,
     stored_files = [], avaliable_memory = mem, total_memory = mem\<rparr>"

definition is_external :: "master_file_stat \<Rightarrow> bool" where
  "is_external fs \<longleftrightarrow> EXTERNAL = external_flag fs"

definition get_real_path :: "string \<Rightarrow> master \<Rightarrow> string" where
  "get_real_path path s = mount_point s @ path"

definition send :: "int \<Rightarrow> field list \<Rightarrow> master \<Rightarrow> master" where
  "send handle msg s = s\<lparr>sent := sent s @ [Msg handle msg []]\<rparr>"

text \<open>
  A message with a list of values is pushed value by value into a buffer of fixed size; an
  overrun is undefined.
\<close>

definition send_checked :: "int \<Rightarrow> field list \<Rightarrow> master \<Rightarrow> master option" where
  "send_checked handle msg s = (if msg_fits msg then Some (send handle msg s) else None)"

definition add_remote_task :: "c_int \<Rightarrow> string \<Rightarrow> mode_t \<Rightarrow> master \<Rightarrow> master" where
  "add_remote_task code path mode s = s\<lparr>remote_tasks := remote_tasks s @ [(code, path, mode)]\<rparr>"

text \<open>Following pointers.\<close>

definition deref_node :: "nat \<Rightarrow> master \<Rightarrow> node_info option" where
  "deref_node p s = map_find p (node_heap s)"

definition upd_node :: "nat \<Rightarrow> (node_info \<Rightarrow> node_info) \<Rightarrow> master \<Rightarrow> master option" where
  "upd_node p g s = do { ni \<leftarrow> deref_node p s; Some (s\<lparr>node_heap := map_set p (g ni) (node_heap s)\<rparr>) }"

definition deref_file :: "nat \<Rightarrow> master \<Rightarrow> open_file_info option" where
  "deref_file a s = map_find a (file_heap s)"

definition upd_file :: "nat \<Rightarrow> (open_file_info \<Rightarrow> open_file_info) \<Rightarrow> master \<Rightarrow> master option" where
  "upd_file a g s = do { ofi \<leftarrow> deref_file a s; Some (s\<lparr>file_heap := map_set a (g ofi) (file_heap s)\<rparr>) }"

definition deref_stat :: "string \<Rightarrow> master \<Rightarrow> master_file_stat option" where
  "deref_stat path s = map_find path (file_stat_pool s)"

definition upd_stat :: "string \<Rightarrow> (master_file_stat \<Rightarrow> master_file_stat) \<Rightarrow> master \<Rightarrow> master option" where
  "upd_stat path g s =
     do { fs \<leftarrow> deref_stat path s; Some (s\<lparr>file_stat_pool := map_set path (g fs) (file_stat_pool s)\<rparr>) }"

section \<open>Nodes\<close>

fun find_by_uri :: "string \<Rightarrow> (ssize_t, nat) std_map \<Rightarrow> master \<Rightarrow> bool option" where
  "find_by_uri uri [] s = Some False"
| "find_by_uri uri ((k, p) # it) s =
     do { ni \<leftarrow> deref_node p s; if ni_uri ni = uri then Some True else find_by_uri uri it s }"

text \<open>\<open>addr\<close> is the address of the new \<^verbatim>\<open>node_info\<close>.\<close>

definition add_IOnode :: "nat \<Rightarrow> string \<Rightarrow> size_t \<Rightarrow> int \<Rightarrow> master \<Rightarrow> (ssize_t \<times> master) option" where
  "add_IOnode addr node_uri mem handle s =
     (let (i, ids) = get_node_id (map_size (registered_IOnodes s)) (node_ids s);
          s1 = s\<lparr>node_ids := ids\<rparr>
      in if i = -1 then Some (-1, s1)
         else do {
           found \<leftarrow> find_by_uri node_uri (registered_IOnodes s1) s1;
           if found then Some (-1, s1)
           else let (reg, ins) = map_insert i addr (registered_IOnodes s1);
                    s2 = s1\<lparr>registered_IOnodes := reg,
                            node_heap := map_set addr (new_node_info i node_uri mem handle) (node_heap s1)\<rparr>
                in do {
                  node \<leftarrow> map_find i (registered_IOnodes s2);
                  Some (i, s2\<lparr>IOnode_handle := set_insert node (IOnode_handle s2)\<rparr>)
                }
         })"

definition get_next_IOnode :: "master \<Rightarrow> (nat option \<times> master) option" where
  "get_next_IOnode s =
     (case registered_IOnodes s of
        [] \<Rightarrow> Some (None, s)
      | (k0, _) # _ \<Rightarrow>
          (let k = (case current_IOnode s of None \<Rightarrow> k0 | Some k \<Rightarrow> k)
           in do {
             p \<leftarrow> map_find k (registered_IOnodes s);
             Some (Some p, s\<lparr>current_IOnode := map_next k (registered_IOnodes s)\<rparr>)
           }))"

text \<open>The replica loop of \<^verbatim>\<open>_select_IOnode\<close>; \<open>it\<close> is \<^verbatim>\<open>_replica_IOnode\<close>.\<close>

fun select_replicas :: "nat \<Rightarrow> ssize_t \<Rightarrow> ssize_t option \<Rightarrow> nat list \<Rightarrow> master \<Rightarrow> (nat list \<times> master) option" where
  "select_replicas 0 file_no it pool s = Some (pool, s)"
| "select_replicas (Suc n) file_no it pool s =
     do {
       k \<leftarrow> (case it of
               Some k \<Rightarrow> Some k
             | None \<Rightarrow> (case registered_IOnodes s of [] \<Rightarrow> None | (k0, _) # _ \<Rightarrow> Some k0));
       p \<leftarrow> map_find k (registered_IOnodes s);
       s1 \<leftarrow> upd_node p (\<lambda>ni. ni\<lparr>stored_files := set_insert file_no (stored_files ni)\<rparr>) s;
       select_replicas n file_no (map_next k (registered_IOnodes s1)) (set_insert p pool) s1
     }"

definition select_IOnode :: "ssize_t \<Rightarrow> int \<Rightarrow> master \<Rightarrow> ((master_exn + (nat \<times> nat list)) \<times> master) option" where
  "select_IOnode file_no num_of_nodes s =
     (if map_size (registered_IOnodes s) = 0 then Some (Inl Runtime_error, s)
      else do {
        (mp, s1) \<leftarrow> get_next_IOnode s;
        main \<leftarrow> mp;
        s2 \<leftarrow> upd_node main (\<lambda>ni. ni\<lparr>stored_files := set_insert file_no (stored_files ni)\<rparr>) s1;
        let num = (if map_size (registered_IOnodes s2) - 1 < num_of_nodes
                   then map_size (registered_IOnodes s2) - 1 else num_of_nodes);
        (pool, s3) \<leftarrow> select_replicas (nat num) file_no (current_IOnode s2) [] s2;
        Some (Inr (main, pool), s3)
      })"

section \<open>Opening files\<close>

definition block_fields :: "block_list \<Rightarrow> field list" where
  "block_fields bl = concat (map (\<lambda>(k, v). [F_off k, F_size v]) bl)"

fun node_fields :: "nat list \<Rightarrow> master \<Rightarrow> field list option" where
  "node_fields [] s = Some []"
| "node_fields (p # ps) s =
     do { ni \<leftarrow> deref_node p s; fs \<leftarrow> node_fields ps s; Some (F_off (ni_id ni) # F_str (ni_uri ni) # fs) }"

definition send_replica_nodes_info :: "nat list \<Rightarrow> master \<Rightarrow> field list option" where
  "send_replica_nodes_info nodes s =
     do { fs \<leftarrow> node_fields nodes s; Some (F_int MAIN_REPLICA # F_int (int (length nodes)) # fs) }"

definition send_open_request_to_IOnodes :: "nat \<Rightarrow> nat \<Rightarrow> master \<Rightarrow> master option" where
  "send_open_request_to_IOnodes a node s =
     do {
       ofi \<leftarrow> deref_file a s;
       ni \<leftarrow> deref_node node s;
       fs \<leftarrow> deref_stat (of_file_status ofi) s;
       rep \<leftarrow> (if primary_replica_node ofi = Some node
              then send_replica_nodes_info (of_IOnodes_set ofi) s
              else Some [F_int SUB_REPLICA, F_int 0]);
       send_checked (ni_handle ni)
         ([F_int OPEN_FILE, F_off (of_file_no ofi), F_int (of_flag ofi), F_int (exist_flag fs),
           F_str (of_file_status ofi), F_int (int (length (of_block_list ofi)))]
          @ block_fields (of_block_list ofi) @ rep) s
     }"

fun send_open_requests :: "nat \<Rightarrow> nat list \<Rightarrow> master \<Rightarrow> master option" where
  "send_open_requests a [] s = Some s"
| "send_open_requests a (p # ps) s =
     do { s1 \<leftarrow> send_open_request_to_IOnodes a p s; send_open_requests a ps s1 }"

definition create_new_backup_file :: "string \<Rightarrow> mode_t \<Rightarrow> master \<Rightarrow> master" where
  "create_new_backup_file path mode s =
     (if S_IFREG AND mode \<noteq> 0 \<or> S_IFDIR AND mode \<noteq> 0
      then s\<lparr>backups := backups s @ [(backup_point s @ path, mode)]\<rparr> else s)"

definition create_new_file_stat :: "os_env \<Rightarrow> string \<Rightarrow> c_int \<Rightarrow> mode_t \<Rightarrow> master \<Rightarrow> master option" where
  "create_new_file_stat env path exist mode s =
     (let st = zero_stat\<lparr>st_mtime := env_time env, st_atime := env_time env, st_ctime := env_time env,
                         st_size := 0, st_uid := env_uid env, st_gid := env_gid env,
                         st_mode := mode, st_blksize := 1048576\<rparr>;
          s1 = s\<lparr>file_stat_pool := fst (map_insert path Master_file_stat (file_stat_pool s))\<rparr>
      in do {
        s2 \<leftarrow> upd_stat path (\<lambda>fs. fs\<lparr>exist_flag := exist, fs_status := st\<rparr>) s1;
        Some (create_new_backup_file path mode s2)
      })"

text \<open>
  The object and the map entry are created before the nodes are selected; when that throws,
  only the file number is given back.
\<close>

definition create_new_open_file_info ::
    "ssize_t \<Rightarrow> c_int \<Rightarrow> string \<Rightarrow> master \<Rightarrow> ((master_exn + nat) \<times> master) option" where
  "create_new_open_file_info file_no flag path s =
     do {
       fs \<leftarrow> deref_stat path s;
       let a = file_fresh s;
       let s1 = s\<lparr>file_fresh := a + 1,
                  file_heap := map_set a ((new_open_file_info file_no flag path)
                                 \<lparr>of_block_size := get_block_size (u64 (st_size (fs_status fs)))\<rparr>) (file_heap s),
                  buffered_files := fst (map_insert file_no a (buffered_files s))\<rparr>;
       s2 \<leftarrow> upd_stat path (\<lambda>fs. fs\<lparr>opened_file_info := Some a\<rparr>) s1;
       let num = (if u64 NUM_OF_REPLICA > map_size (registered_IOnodes s2)
                  then map_size (registered_IOnodes s2) else NUM_OF_REPLICA);
       (r, s3) \<leftarrow> select_IOnode file_no num s2;
       case r of
         Inl e \<Rightarrow> do {
           nos \<leftarrow> release_file_no file_no (file_nos s3);
           Some (Inl e, s3\<lparr>file_nos := nos\<rparr>)
         }
       | Inr (main, pool) \<Rightarrow> do {
           bl \<leftarrow> create_block_list (u64 (st_size (fs_status fs))) (get_block_size (u64 (st_size (fs_status fs)))) [];
           s4 \<leftarrow> upd_file a (\<lambda>ofi. ofi\<lparr>primary_replica_node := Some main, of_IOnodes_set := pool,
                                     of_block_list := bl\<rparr>) s3;
           s5 \<leftarrow> send_open_request_to_IOnodes a main s4;
           s6 \<leftarrow> send_open_requests a pool s5;
           Some (Inr a, s6)
         }
     }"

definition open_file ::
    "os_env \<Rightarrow> string \<Rightarrow> c_int \<Rightarrow> mode_t \<Rightarrow> master \<Rightarrow> ((master_exn + ssize_t) \<times> master) option" where
  "open_file env path flag mode s =
     (case map_find path (file_stat_pool s) of
        None \<Rightarrow>
          (let (file_no, nos) = get_file_no (file_nos s); s1 = s\<lparr>file_nos := nos\<rparr> in
           if file_no \<noteq> -1 then do {
             s2 \<leftarrow> create_new_file_stat env path NOT_EXIST (S_IFREG OR mode) s1;
             (r, s3) \<leftarrow> create_new_open_file_info file_no flag path s2;
             case r of Inl e \<Rightarrow> Some (Inl e, s3) | Inr a \<Rightarrow> Some (Inr file_no, s3)
           }
           else Some (Inl Bad_alloc, s1))
      | Some fs \<Rightarrow>
          (case opened_file_info fs of
             None \<Rightarrow>
               (let (file_no, nos) = get_file_no (file_nos s) in do {
                  (r, s2) \<leftarrow> create_new_open_file_info file_no flag path (s\<lparr>file_nos := nos\<rparr>);
                  case r of
                    Inl e \<Rightarrow> Some (Inl e, s2)
                  | Inr a \<Rightarrow> do {
                      s3 \<leftarrow> upd_file a (\<lambda>ofi. ofi\<lparr>open_count := open_count ofi + 1\<rparr>) s2;
                      Some (Inr file_no, s3)
                    }
                })
           | Some a \<Rightarrow> do {
               ofi \<leftarrow> deref_file a s;
               s1 \<leftarrow> upd_file a (\<lambda>ofi. ofi\<lparr>open_count := open_count ofi + 1\<rparr>) s;
               Some (Inr (of_file_no ofi), s1)
             }))"

section \<open>Removing files\<close>

definition send_remove_request :: "nat \<Rightarrow> ssize_t \<Rightarrow> master \<Rightarrow> master option" where
  "send_remove_request node file_no s =
     do { ni \<leftarrow> deref_node node s; Some (send (ni_handle ni) [F_int UNLINK, F_off file_no] s) }"

definition remove_from_node :: "ssize_t \<Rightarrow> nat \<Rightarrow> master \<Rightarrow> master option" where
  "remove_from_node file_no node s =
     do {
       s1 \<leftarrow> send_remove_request node file_no s;
       upd_node node (\<lambda>ni. ni\<lparr>stored_files := set_erase file_no (stored_files ni)\<rparr>) s1
     }"

fun remove_from_nodes :: "ssize_t \<Rightarrow> nat list \<Rightarrow> master \<Rightarrow> master option" where
  "remove_from_nodes file_no [] s = Some s"
| "remove_from_nodes file_no (p # ps) s =
     do { s1 \<leftarrow> remove_from_node file_no p s; remove_from_nodes file_no ps s1 }"

definition remove_open_file :: "nat \<Rightarrow> master \<Rightarrow> master option" where
  "remove_open_file a s =
     do {
       ofi \<leftarrow> deref_file a s;
       let file_no = of_file_no ofi;
       main \<leftarrow> primary_replica_node ofi;
       s1 \<leftarrow> remove_from_node file_no main s;
       s2 \<leftarrow> remove_from_nodes file_no (of_IOnodes_set ofi) s1;
       nos \<leftarrow> release_file_no file_no (file_nos s2);
       Some (s2\<lparr>buffered_files := map_erase file_no (buffered_files s2),
                file_heap := map_erase a (file_heap s2), file_nos := nos\<rparr>)
     }"

definition remove_open_file_no :: "ssize_t \<Rightarrow> master \<Rightarrow> master option" where
  "remove_open_file_no file_no s =
     (case map_find file_no (buffered_files s) of None \<Rightarrow> Some s | Some a \<Rightarrow> remove_open_file a s)"

definition remove_file :: "string \<Rightarrow> master \<Rightarrow> (c_int \<times> master) option" where
  "remove_file path s =
     (case map_find path (file_stat_pool s) of
        None \<Rightarrow> Some (FAILURE, s)
      | Some fs \<Rightarrow> do {
          s1 \<leftarrow> (case opened_file_info fs of None \<Rightarrow> Some s | Some a \<Rightarrow> remove_open_file a s);
          Some (SUCCESS, s1\<lparr>file_stat_pool := map_erase path (file_stat_pool s1)\<rparr>)
        })"

end
