(* ===== verification/Master_Failure.thy ===== *)
theory Master_Failure
  imports Master_State
begin

text \<open>
  What the master does when an IOnode fails (Master/src/Master.cpp): the other nodes are
  told, the files the node stored get another node, and the node leaves the tables. As in
  the sources, a replacement is looked for only while the file has at least
  \<^verbatim>\<open>NUM_OF_REPLICA\<close> replicas, and the loop that looks for it stops at the first node that is
  not both the failed node and a replica of the file.
\<close>

fun get_node_info_from_handle :: "int \<Rightarrow> nat list \<Rightarrow> master \<Rightarrow> nat option option" where
  "get_node_info_from_handle handle [] s = Some None"
| "get_node_info_from_handle handle (p # ps) s =
     do { ni \<leftarrow> deref_node p s;
          if ni_handle ni = handle then Some (Some p) else get_node_info_from_handle handle ps s }"

fun send_remove_IOnode_request :: "nat \<Rightarrow> (ssize_t, nat) std_map \<Rightarrow> master \<Rightarrow> master option" where
  "send_remove_IOnode_request node [] s = Some s"
| "send_remove_IOnode_request node ((_, p) # it) s =
     (if node \<noteq> p then do {
        ni \<leftarrow> deref_node p s;
        removed \<leftarrow> deref_node node s;
        send_remove_IOnode_request node it (send (ni_handle ni) [F_int REMOVE_IONODE, F_off (ni_id removed)] s)
      } else send_remove_IOnode_request node it s)"

text \<open>The file's own pointer \<^verbatim>\<open>*begin(IOnodes_set)\<close>; on an empty set it is undefined.\<close>

definition set_begin :: "'a list \<Rightarrow> 'a option" where
  "set_begin xs = (case xs of [] \<Rightarrow> None | x # _ \<Rightarrow> Some x)"

fun remove_IOnode_buffered_file :: "nat \<Rightarrow> int list \<Rightarrow> master \<Rightarrow> master option" where
  "remove_IOnode_buffered_file node [] s = Some s"
| "remove_IOnode_buffered_file node (file_no # it) s =
     do {
       a \<leftarrow> map_find file_no (buffered_files s);
       s1 \<leftarrow> upd_file a (\<lambda>ofi. ofi\<lparr>of_IOnodes_set := set_erase node (of_IOnodes_set ofi)\<rparr>) s;
       ofi \<leftarrow> deref_file a s1;
       s2 \<leftarrow> (if primary_replica_node ofi = Some node then do {
                p \<leftarrow> set_begin (of_IOnodes_set ofi);
                upd_file a (\<lambda>ofi. ofi\<lparr>primary_replica_node := Some p\<rparr>) s1
              } else Some s1);
       remove_IOnode_buffered_file node it s2
     }"

partial_function (option) replace_IOnode_loop :: "nat list \<Rightarrow> nat \<Rightarrow> master \<Rightarrow> (nat option \<times> master) option" where
  "replace_IOnode_loop node_pool old_node s =
     Option.bind (get_next_IOnode s) (\<lambda>(new_node, s1).
       if new_node = Some old_node \<and> old_node \<in> set node_pool
       then replace_IOnode_loop node_pool old_node s1 else Some (new_node, s1))"

definition allocate_replace_IOnode :: "nat list \<Rightarrow> nat \<Rightarrow> master \<Rightarrow> (nat option \<times> master) option" where
  "allocate_replace_IOnode node_pool old_node s =
     (if u64 NUM_OF_REPLICA > int (length node_pool) then Some (None, s)
      else replace_IOnode_loop node_pool old_node s)"

definition resend_replica_nodes_info_to_new_node :: "nat \<Rightarrow> nat \<Rightarrow> nat \<Rightarrow> master \<Rightarrow> master option" where
  "resend_replica_nodes_info_to_new_node a primary new_node s =
     do {
       ofi \<leftarrow> deref_file a s;
       pn \<leftarrow> deref_node primary s;
       nn \<leftarrow> deref_node new_node s;
       rep \<leftarrow> send_replica_nodes_info (of_IOnodes_set ofi) s;
       send_checked (ni_handle pn)
         ([F_int PROMOTED_TO_PRIMARY_REPLICA, F_off (of_file_no ofi), F_off (ni_id nn)] @ rep) s
     }"

definition replace_replica_nodes_info :: "nat \<Rightarrow> nat \<Rightarrow> nat \<Rightarrow> master \<Rightarrow> master option" where
  "replace_replica_nodes_info a new_IOnode replaced s =
     do {
       ofi \<leftarrow> deref_file a s;
       primary \<leftarrow> primary_replica_node ofi;
       pn \<leftarrow> deref_node primary s;
       rn \<leftarrow> deref_node replaced s;
       nn \<leftarrow> deref_node new_IOnode s;
       send_checked (ni_handle pn)
         [F_int REPLACE_REPLICA, F_off (of_file_no ofi), F_off (ni_id rn), F_off (ni_id nn), F_str (ni_uri nn)] s
     }"

text \<open>The body of the loop of \<^verbatim>\<open>_recreate_replicas\<close> for one file.\<close>

definition recreate_replica :: "nat \<Rightarrow> int \<Rightarrow> master \<Rightarrow> master option" where
  "recreate_replica node file_no s =
     do {
       a \<leftarrow> map_find file_no (buffered_files s);
       ofi0 \<leftarrow> deref_file a s;
       (new_node, s1) \<leftarrow> allocate_replace_IOnode (of_IOnodes_set ofi0) node s;
       s2 \<leftarrow> upd_file a (\<lambda>ofi. ofi\<lparr>of_IOnodes_set := set_erase node (of_IOnodes_set ofi)\<rparr>) s1;
       ofi \<leftarrow> deref_file a s2;
       case new_node of
         Some new_IOnode \<Rightarrow> do {
           s3 \<leftarrow> (if primary_replica_node ofi = Some node then do {
                    p \<leftarrow> set_begin (of_IOnodes_set ofi);
                    s3 \<leftarrow> upd_file a (\<lambda>ofi. ofi\<lparr>primary_replica_node := Some p,
                            of_IOnodes_set := set_insert new_IOnode (set_erase p (of_IOnodes_set ofi))\<rparr>) s2;
                    resend_replica_nodes_info_to_new_node a p new_IOnode s3
                  } else do {
                    s3 \<leftarrow> upd_file a (\<lambda>ofi. ofi\<lparr>of_IOnodes_set := set_insert new_IOnode (of_IOnodes_set ofi)\<rparr>) s2;
                    replace_replica_nodes_info a new_IOnode node s3
                  });
           send_open_request_to_IOnodes a new_IOnode s3
         }
       | None \<Rightarrow>
           (if primary_replica_node ofi = Some node \<and> of_IOnodes_set ofi \<noteq> [] then do {
              p \<leftarrow> set_begin (of_IOnodes_set ofi);
              upd_file a (\<lambda>ofi. ofi\<lparr>primary_replica_node := Some p,
                of_IOnodes_set := set_erase p (of_IOnodes_set ofi)\<rparr>) s2
            } else Some s2)
     }"

fun recreate_replica_loop :: "nat \<Rightarrow> int list \<Rightarrow> master \<Rightarrow> master option" where
  "recreate_replica_loop node [] s = Some s"
| "recreate_replica_loop node (file_no # it) s =
     do { s1 \<leftarrow> recreate_replica node file_no s; recreate_replica_loop node it s1 }"

definition recreate_replicas :: "nat \<Rightarrow> master \<Rightarrow> master option" where
  "recreate_replicas node s =
     do {
       ni \<leftarrow> deref_node node s;
       if map_size (registered_IOnodes s) = 1 then remove_IOnode_buffered_file node (stored_files ni) s
       else recreate_replica_loop node (stored_files ni) s
     }"

text \<open>
  \<^verbatim>\<open>_current_IOnode->first\<close> is read whenever nodes are registered, also when the iterator is
  at the end.
\<close>

definition remove_IOnode :: "nat \<Rightarrow> master \<Rightarrow> master option" where
  "remove_IOnode node s =
     do {
       ni \<leftarrow> deref_node node s;
       s1 \<leftarrow> (if map_size (registered_IOnodes s) \<noteq> 0 then do {
                k \<leftarrow> current_IOnode s;
                _ \<leftarrow> map_find k (registered_IOnodes s);
                Some (if k = ni_id ni then s\<lparr>current_IOnode := map_next k (registered_IOnodes s)\<rparr> else s)
              } else Some s);
       Some (s1\<lparr>registered_IOnodes := map_erase (ni_id ni) (registered_IOnodes s1),
                node_heap := map_erase node (node_heap s1)\<rparr>)
     }"

definition unregister_IOnode :: "nat \<Rightarrow> master \<Rightarrow> master option" where
  "unregister_IOnode node s =
     remove_IOnode node (s\<lparr>IOnode_handle := set_erase node (IOnode_handle s)\<rparr>)"

definition IOnode_failure_handler :: "nat \<Rightarrow> master \<Rightarrow> master option" where
  "IOnode_failure_handler node s =
     do {
       s1 \<leftarrow> send_remove_IOnode_request node (registered_IOnodes s) s;
       s2 \<leftarrow> recreate_replicas node s1;
       unregister_IOnode node s2
     }"

text \<open>A handle that belongs to no IOnode is a client's; its connection is dropped.\<close>

definition parse_node_failure :: "int \<Rightarrow> master \<Rightarrow> (c_int \<times> master) option" where
  "parse_node_failure handle s =
     do {
       node \<leftarrow> get_node_info_from_handle handle (IOnode_handle s) s;
       case node of
         Some p \<Rightarrow> do { s1 \<leftarrow> IOnode_failure_handler p s; Some (SUCCESS, s1) }
       | None \<Rightarrow> Some (SUCCESS, s)
     }"

definition parse_IOnode_failure :: "ssize_t \<Rightarrow> master \<Rightarrow> (c_int \<times> master) option" where
  "parse_IOnode_failure IOnode_id s =
     (case map_find IOnode_id (registered_IOnodes s) of
        Some p \<Rightarrow> do { s1 \<leftarrow> IOnode_failure_handler p s; Some (SUCCESS, s1) }
      | None \<Rightarrow> Some (SUCCESS, s))"

text \<open>The node number is given back only here; no code calls it.\<close>

definition delete_IOnode :: "int \<Rightarrow> master \<Rightarrow> (ssize_t \<times> master) option" where
  "delete_IOnode handle s =
     do {
       np \<leftarrow> get_node_info_from_handle handle (IOnode_handle s) s;
       p \<leftarrow> np;
       ni \<leftarrow> deref_node p s;
       let i = ni_id ni;
       if 0 \<le> i \<and> i < int MAX_IONODE then
         Some (i, s\<lparr>registered_IOnodes := map_erase i (registered_IOnodes s),
                    IOnode_handle := set_erase p (IOnode_handle s),
                    node_ids := (node_ids s)\<lparr>id_used := (id_used (node_ids s))(nat i := False)\<rparr>,
                    node_heap := map_erase p (node_heap s)\<rparr>)
       else None
     }"

text \<open>The nodes the heart beat asks: handle and node id of every registered handle.\<close>

fun get_IOnode_handle_map :: "nat list \<Rightarrow> master \<Rightarrow> (nat, ssize_t) std_map \<Rightarrow> (nat, ssize_t) std_map option" where
  "get_IOnode_handle_map [] s m = Some m"
| "get_IOnode_handle_map (p # ps) s m =
     do { ni \<leftarrow> deref_node p s; get_IOnode_handle_map ps s (fst (map_insert p (ni_id ni) m)) }"

end
