(* ===== verification/Master_Requests.thy ===== *)
theory Master_Requests
  imports Master_Failure
begin

text \<open>
  The request handlers of the master (\<^verbatim>\<open>_parse_...\<close> of Master/src/Master.cpp) and their
  dispatcher. A handler takes the values its \<^verbatim>\<open>pop\<close> calls read, the connection the request
  came from and the state; it returns the handler's result and the new state, in which the
  response and the requests to the IOnodes have been sent. The dispatcher takes the popped
  values as a field list; a message whose fields do not have the types the handler pops is
  None.
\<close>

section \<open>Nodes and clients\<close>

definition parse_register_IOnode :: "nat \<Rightarrow> int \<Rightarrow> size_t \<Rightarrow> string \<Rightarrow> master \<Rightarrow> (c_int \<times> master) option" where
  "parse_register_IOnode addr handle mem uri s =
     do { (i, s1) \<leftarrow> add_IOnode addr uri mem handle s; Some (SUCCESS, send handle [F_off i] s1) }"

definition parse_new_client :: "int \<Rightarrow> string \<Rightarrow> master \<Rightarrow> (c_int \<times> master) option" where
  "parse_new_client handle uri s = Some (SUCCESS, send handle [F_int SUCCESS] s)"

section \<open>Opening, reading and writing\<close>

text \<open>
  The \<^verbatim>\<open>try\<close> block of \<^verbatim>\<open>_parse_open_file\<close> and its handlers. The reply is read from
  \<^verbatim>\<open>_buffered_files.at(file_no)\<close>; no handler catches the \<^verbatim>\<open>out_of_range\<close> of that call.
\<close>

definition open_and_reply :: "os_env \<Rightarrow> int \<Rightarrow> string \<Rightarrow> c_int \<Rightarrow> mode_t \<Rightarrow> master \<Rightarrow> (c_int \<times> master) option" where
  "open_and_reply env handle path flag mode s =
     do {
       (r, s1) \<leftarrow> open_file env path flag mode s;
       case r of
         Inl Runtime_error \<Rightarrow> Some (FAILURE, send handle [F_int UNKNOWN_ERROR] s1)
       | Inl Invalid_argument \<Rightarrow> Some (FAILURE, send handle [F_int FILE_NOT_FOUND] s1)
       | Inl Bad_alloc \<Rightarrow> Some (FAILURE, send handle [F_int TOO_MANY_FILES] s1)
       | Inr file_no \<Rightarrow> do {
           a \<leftarrow> map_find file_no (buffered_files s1);
           ofi \<leftarrow> deref_file a s1;
           fs \<leftarrow> deref_stat (of_file_status ofi) s1;
           Some (SUCCESS, send handle ([F_int SUCCESS, F_off file_no, F_size (of_block_size ofi)]
                                       @ attr_fields (fs_status fs)) s1)
         }
     }"

text \<open>The mode is popped only when the flag has \<^verbatim>\<open>O_CREAT\<close>; the default is \<^verbatim>\<open>S_IFREG|0660\<close>.\<close>

definition parse_open_file ::
    "os_env \<Rightarrow> int \<Rightarrow> string \<Rightarrow> c_int \<Rightarrow> mode_t \<Rightarrow> master \<Rightarrow> (c_int \<times> master) option" where
  "parse_open_file env handle path flag popped_mode s =
     (let creat = (flag AND O_CREAT \<noteq> 0);
          mode = (if creat then popped_mode else S_IFREG OR 432);
          flag' = (if creat then flag AND NOT (O_CREAT OR O_TRUNC) else flag)
      in case map_find path (file_stat_pool s) of
           Some fs \<Rightarrow>
             (if is_external fs then Some (SUCCESS, send handle [F_int (external_master fs)] s)
              else open_and_reply env handle path flag' mode s)
         | None \<Rightarrow> open_and_reply env handle path flag' mode s)"

text \<open>\<^verbatim>\<open>_send_block_info\<close> pushes 16 bytes for every block; the buffer ends after some 240 of them.\<close>

definition block_info_fields :: "size_t \<Rightarrow> nat list \<Rightarrow> block_list \<Rightarrow> master \<Rightarrow> field list option" where
  "block_info_fields file_size nodes bl s =
     do {
       nf \<leftarrow> node_fields nodes s;
       let msg = [F_int SUCCESS, F_size file_size, F_int (int (length nodes))] @ nf
                 @ [F_int (int (length bl))] @ block_fields bl;
       if msg_fits msg then Some msg else None
     }"

definition parse_read_file :: "int \<Rightarrow> ssize_t \<Rightarrow> off64_t \<Rightarrow> size_t \<Rightarrow> master \<Rightarrow> (c_int \<times> master) option" where
  "parse_read_file handle file_no start_point sz s =
     (case map_find file_no (buffered_files s) of
        None \<Rightarrow> Some (FAILURE, send handle [F_int OUT_OF_RANGE] s)
      | Some a \<Rightarrow> do {
          ofi \<leftarrow> deref_file a s;
          bl \<leftarrow> select_node_block_set start_point sz (of_block_list ofi);
          fs \<leftarrow> deref_stat (of_file_status ofi) s;
          main \<leftarrow> primary_replica_node ofi;
          msg \<leftarrow> block_info_fields (u64 (st_size (fs_status fs))) [main] bl s;
          Some (SUCCESS, send handle msg s)
        })"

text \<open>\<^verbatim>\<open>Recv_attr\<close> into the file's status; the size never becomes smaller.\<close>

definition recv_file_attr :: "stat \<Rightarrow> master_file_stat \<Rightarrow> master_file_stat" where
  "recv_file_attr attr fs =
     (let original_size = st_size (fs_status fs);
          st = attr\<lparr>st_dev := 0, st_ino := 0, st_nlink := 0, st_rdev := 0, st_blocks := 0\<rparr>
      in fs\<lparr>fs_status := (if original_size > st_size st then st\<lparr>st_size := original_size\<rparr> else st)\<rparr>)"

definition parse_write_file ::
    "int \<Rightarrow> ssize_t \<Rightarrow> stat \<Rightarrow> off64_t \<Rightarrow> size_t \<Rightarrow> master \<Rightarrow> (c_int \<times> master) option" where
  "parse_write_file handle file_no attr start_point sz s =
     (case map_find file_no (buffered_files s) of
        None \<Rightarrow> Some (FAILURE, send handle [F_int OUT_OF_RANGE] s)
      | Some a \<Rightarrow> do {
          ofi \<leftarrow> deref_file a s;
          s1 \<leftarrow> upd_stat (of_file_status ofi) (recv_file_attr attr) s;
          bl' \<leftarrow> allocate_new_blocks_for_writing start_point sz (of_block_list ofi);
          s2 \<leftarrow> upd_file a (\<lambda>ofi. ofi\<lparr>of_block_list := bl'\<rparr>) s1;
          bl \<leftarrow> select_node_block_set start_point sz bl';
          fs \<leftarrow> deref_stat (of_file_status ofi) s2;
          main \<leftarrow> primary_replica_node ofi;
          msg \<leftarrow> block_info_fields (u64 (st_size (fs_status fs))) [main] bl s2;
          Some (SUCCESS, send handle msg s2)
        })"

definition parse_meta_update :: "ssize_t \<Rightarrow> stat \<Rightarrow> master \<Rightarrow> (c_int \<times> master) option" where
  "parse_meta_update file_no attr s =
     (case map_find file_no (buffered_files s) of
        None \<Rightarrow> Some (FAILURE, s)
      | Some a \<Rightarrow> do {
          ofi \<leftarrow> deref_file a s;
          s1 \<leftarrow> upd_stat (of_file_status ofi) (recv_file_attr attr) s;
          Some (SUCCESS, s1)
        })"

text \<open>The reply task is enqueued in the \<^verbatim>\<open>try\<close> block and again after it.\<close>

definition parse_flush_file :: "int \<Rightarrow> ssize_t \<Rightarrow> master \<Rightarrow> (c_int \<times> master) option" where
  "parse_flush_file handle file_no s =
     (case map_find file_no (buffered_files s) of
        None \<Rightarrow> Some (FAILURE, send handle [F_int FAILURE] s)
      | Some a \<Rightarrow> do {
          ofi \<leftarrow> deref_file a s;
          let s1 = send handle [F_int SUCCESS] s;
          main \<leftarrow> primary_replica_node ofi;
          ni \<leftarrow> deref_node main s1;
          let s2 = send (ni_handle ni) [F_int FLUSH_FILE, F_off file_no] s1;
          Some (SUCCESS, s2\<lparr>sent := sent s2 @ [Stale_task]\<rparr>)
        })"

definition parse_close_file :: "int \<Rightarrow> ssize_t \<Rightarrow> master \<Rightarrow> (c_int \<times> master) option" where
  "parse_close_file handle file_no s =
     (case map_find file_no (buffered_files s) of
        None \<Rightarrow> Some (FAILURE, send handle [F_int FAILURE] s)
      | Some a \<Rightarrow> do {
          let s1 = send handle [F_int SUCCESS] s;
          ofi \<leftarrow> deref_file a s1;
          main \<leftarrow> primary_replica_node ofi;
          ni \<leftarrow> deref_node main s1;
          Some (SUCCESS, send (ni_handle ni) [F_int CLOSE_FILE, F_off file_no] s1)
        })"

section \<open>Names and attributes\<close>

definition parse_attr :: "int \<Rightarrow> string \<Rightarrow> master \<Rightarrow> (c_int \<times> master) option" where
  "parse_attr handle path s =
     (case map_find path (file_stat_pool s) of
        None \<Rightarrow> Some (FAILURE, send handle [F_int (master_number s), F_int (- ENOENT)] s)
      | Some fs \<Rightarrow>
          if is_external fs then Some (SUCCESS, send handle [F_int (external_master fs)] s)
          else Some (SUCCESS, send handle ([F_int (master_number s), F_int SUCCESS]
                                            @ attr_fields (fs_status fs)) s))"

text \<open>
  The loop of \<^verbatim>\<open>_get_file_stat_from_dir\<close> over the entries from \<^verbatim>\<open>lower_bound(dir)\<close> on.
\<close>

fun list_dir_loop :: "string \<Rightarrow> nat \<Rightarrow> (string, 'v) std_map \<Rightarrow> string list \<Rightarrow> string list" where
  "list_dir_loop dir start_pos [] acc = acc"
| "list_dir_loop dir start_pos ((file_name, _) # it) acc =
     (if take (length dir) file_name = dir
      then list_dir_loop dir start_pos it
             (set_insert (takeWhile (\<lambda>c. c \<noteq> CHR ''/'') (drop start_pos file_name)) acc)
      else acc)"

definition get_file_stat_from_dir :: "string \<Rightarrow> (string, 'v) std_map \<Rightarrow> string list option" where
  "get_file_stat_from_dir dir pool =
     (if dir = [] then None
      else let start_pos = (if last dir \<noteq> CHR ''/'' then length dir + 1 else length dir);
               it = lower_bound dir pool;
               it' = (case it of (k, _) # rest \<Rightarrow> if k = dir then rest else it | [] \<Rightarrow> it)
           in Some (list_dir_loop dir start_pos it' []))"

text \<open>The names go into the preallocated area behind the message.\<close>

definition parse_readdir :: "int \<Rightarrow> string \<Rightarrow> master \<Rightarrow> (c_int \<times> master) option" where
  "parse_readdir handle path s =
     do {
       files \<leftarrow> get_file_stat_from_dir path (file_stat_pool s);
       if names_fit files then
       Some (SUCCESS, s\<lparr>sent := sent s @ [Msg handle [F_int SUCCESS, F_int (int (length files))] files]\<rparr>)
       else None
     }"

definition parse_unlink :: "int \<Rightarrow> string \<Rightarrow> master \<Rightarrow> (c_int \<times> master) option" where
  "parse_unlink handle path s =
     do {
       (r, s1) \<leftarrow> remove_file path s;
       let s2 = add_remote_task UNLINK (get_real_path path s1) 0 s1;
       if r = SUCCESS then Some (SUCCESS, send handle [F_int SUCCESS] s2)
       else Some (FAILURE, send handle [F_int (- ENOENT)] s2)
     }"

definition parse_rmdir :: "int \<Rightarrow> string \<Rightarrow> master \<Rightarrow> (c_int \<times> master) option" where
  "parse_rmdir handle path s =
     do {
       (r, s1) \<leftarrow> remove_file path s;
       let s2 = add_remote_task RM_DIR (get_real_path path s1) 0 s1;
       if r = SUCCESS then Some (SUCCESS, send handle [F_int SUCCESS] s2)
       else Some (FAILURE, send handle [F_int (- ENOENT)] s2)
     }"

definition parse_access :: "int \<Rightarrow> string \<Rightarrow> c_int \<Rightarrow> master \<Rightarrow> (c_int \<times> master) option" where
  "parse_access handle path mode s =
     (case map_find path (file_stat_pool s) of
        None \<Rightarrow> Some (FAILURE, send handle [F_int (master_number s), F_int (- ENOENT)] s)
      | Some fs \<Rightarrow>
          if is_external fs then Some (SUCCESS, send handle [F_int (external_master fs)] s)
          else Some (SUCCESS, send handle [F_int (master_number s), F_int SUCCESS] s))"

text \<open>The reply to \<^verbatim>\<open>mkdir\<close> carries no value.\<close>

definition parse_mkdir :: "os_env \<Rightarrow> int \<Rightarrow> string \<Rightarrow> mode_t \<Rightarrow> master \<Rightarrow> (c_int \<times> master) option" where
  "parse_mkdir env handle path mode s =
     do {
       let mode' = mode OR S_IFDIR;
       s1 \<leftarrow> create_new_file_stat env path NOT_EXIST mode' s;
       let s2 = add_remote_task MKDIR (get_real_path path s1) mode' s1;
       Some (SUCCESS, send handle [] s2)
     }"

text \<open>The new path came in a request that also held the old one, so it fits.\<close>

definition send_rename_request :: "ssize_t \<Rightarrow> string \<Rightarrow> nat \<Rightarrow> master \<Rightarrow> master option" where
  "send_rename_request file_no path node s =
     do { ni \<leftarrow> deref_node node s;
          Some (send (ni_handle ni) [F_int RENAME, F_off file_no, F_str path] s) }"

lemma rename_request_fits:
  "msg_fits [F_int RENAME, F_str old_path, F_str new_path, F_int new_master] \<Longrightarrow>
     msg_fits [F_int RENAME, F_off file_no, F_str new_path]"
  by (simp add: msg_fits_def)

fun send_to_nodes :: "(nat \<Rightarrow> master \<Rightarrow> master option) \<Rightarrow> nat list \<Rightarrow> master \<Rightarrow> master option" where
  "send_to_nodes req [] s = Some s"
| "send_to_nodes req (p # ps) s = do { s1 \<leftarrow> req p s; send_to_nodes req ps s1 }"

definition rename_local_file :: "master_file_stat \<Rightarrow> string \<Rightarrow> master \<Rightarrow> master option" where
  "rename_local_file fs new_path s =
     do {
       let s1 = s\<lparr>file_stat_pool := fst (map_insert new_path fs (file_stat_pool s))\<rparr>;
       nfs \<leftarrow> deref_stat new_path s1;
       case opened_file_info nfs of
         None \<Rightarrow> Some s1
       | Some a \<Rightarrow> do {
           s2 \<leftarrow> upd_file a (\<lambda>ofi. ofi\<lparr>of_file_status := new_path\<rparr>) s1;
           ofi \<leftarrow> deref_file a s2;
           main \<leftarrow> primary_replica_node ofi;
           s3 \<leftarrow> send_rename_request (of_file_no ofi) new_path main s2;
           send_to_nodes (send_rename_request (of_file_no ofi) new_path) (of_IOnodes_set ofi) s3
         }
     }"

text \<open>
  The iterator \<^verbatim>\<open>required_file\<close> is taken before the file with the new name is removed; when
  both names are the same it is dangling afterwards.
\<close>

definition parse_rename :: "int \<Rightarrow> string \<Rightarrow> string \<Rightarrow> c_int \<Rightarrow> master \<Rightarrow> (c_int \<times> master) option" where
  "parse_rename handle old_path new_path new_master s =
     do {
       let required = (map_find old_path (file_stat_pool s) \<noteq> None);
       s2 \<leftarrow> (if new_master = MYSELF then do {
                (_, s1) \<leftarrow> remove_file new_path s;
                if required then do {
                  fs \<leftarrow> map_find old_path (file_stat_pool s1);
                  s2 \<leftarrow> rename_local_file fs new_path s1;
                  Some (s2\<lparr>file_stat_pool := map_erase old_path (file_stat_pool s2)\<rparr>)
                } else Some s1
              }
              else if required
                   then upd_stat old_path (\<lambda>fs. fs\<lparr>external_flag := RENAMED, external_name := new_path\<rparr>) s
                   else Some s);
       Some (SUCCESS, send handle [F_int SUCCESS] s2)
     }"

definition send_truncate_request :: "ssize_t \<Rightarrow> off64_t \<Rightarrow> ssize_t \<Rightarrow> nat \<Rightarrow> master \<Rightarrow> master option" where
  "send_truncate_request fd block_start sz node s =
     do { ni \<leftarrow> deref_node node s;
          Some (send (ni_handle ni) [F_int TRUNCATE, F_off fd, F_off block_start, F_off (sz - block_start)] s) }"

function truncate_blocks_loop :: "off64_t \<Rightarrow> ssize_t \<Rightarrow> block_list \<Rightarrow> block_list" where
  "truncate_blocks_loop block_start sz bl =
     (if block_start + BLOCK_SIZE \<le> sz
      then truncate_blocks_loop (block_start + BLOCK_SIZE) sz (map_erase block_start bl) else bl)"
  by pat_completeness auto
termination by (relation "measure (\<lambda>(b, sz, _). nat (sz - b))") (auto simp: BLOCK_SIZE_def)

declare truncate_blocks_loop.simps [simp del]

definition parse_truncate_file :: "int \<Rightarrow> string \<Rightarrow> ssize_t \<Rightarrow> master \<Rightarrow> (c_int \<times> master) option" where
  "parse_truncate_file handle path sz s =
     (case map_find path (file_stat_pool s) of
        None \<Rightarrow> Some (FAILURE, send handle [F_int (master_number s), F_int (- ENOENT)] s)
      | Some fs \<Rightarrow>
          if is_external fs then Some (SUCCESS, send handle [F_int (external_master fs)] s)
          else do {
            a \<leftarrow> opened_file_info fs;
            ofi \<leftarrow> deref_file a s;
            st \<leftarrow> deref_stat (of_file_status ofi) s;
            s1 \<leftarrow> (if st_size (fs_status st) > sz then do {
                     let b = get_block_start_point sz;
                     main \<leftarrow> primary_replica_node ofi;
                     s1 \<leftarrow> send_truncate_request (of_file_no ofi) b sz main s;
                     s2 \<leftarrow> send_to_nodes (send_truncate_request (of_file_no ofi) b sz) (of_IOnodes_set ofi) s1;
                     upd_file a (\<lambda>ofi. ofi\<lparr>of_block_list :=
                       truncate_blocks_loop (b + BLOCK_SIZE) sz (of_block_list ofi)\<rparr>) s2
                   } else Some s);
            s2 \<leftarrow> upd_stat (of_file_status ofi) (\<lambda>fs. fs\<lparr>fs_status := (fs_status fs)\<lparr>st_size := sz\<rparr>\<rparr>) s1;
            Some (SUCCESS, send handle [F_int (master_number s2), F_int SUCCESS] s2)
          })"

definition parse_rename_migrating :: "int \<Rightarrow> string \<Rightarrow> c_int \<Rightarrow> master \<Rightarrow> (c_int \<times> master) option" where
  "parse_rename_migrating handle path old_master s =
     do {
       let s1 = s\<lparr>file_stat_pool := fst (map_insert path Master_file_stat (file_stat_pool s))\<rparr>;
       s2 \<leftarrow> upd_stat path (\<lambda>fs. fs\<lparr>external_flag := EXTERNAL, external_master := old_master\<rparr>) s1;
       Some (SUCCESS, send handle [F_int SUCCESS] s2)
     }"

text \<open>The connection is closed; the master's tables do not change.\<close>

definition parse_close_client :: "int \<Rightarrow> master \<Rightarrow> (c_int \<times> master) option" where
  "parse_close_client handle s = Some (SUCCESS, s)"

section \<open>The dispatcher\<close>

text \<open>
  A request is the values the handler of its code pops: for \<^verbatim>\<open>open\<close> the mode is there only
  with \<^verbatim>\<open>O_CREAT\<close>.
\<close>

datatype master_request =
    Register size_t string
  | New_client string
  | Open_file string c_int mode_t
  | Read_file ssize_t off64_t size_t
  | Write_file ssize_t stat off64_t size_t
  | Update_meta ssize_t stat
  | Flush_file ssize_t
  | Close_file ssize_t
  | Get_attr string
  | Read_dir string
  | Unlink string
  | Rm_dir string
  | Access string c_int
  | Mkdir string mode_t
  | Rename string string c_int
  | Rename_migrating string c_int
  | Truncate string ssize_t
  | Close_client
  | Node_failure
  | IOnode_failure ssize_t
  | Unknown_request c_int

definition recv_stat :: "field list \<Rightarrow> (stat \<times> field list) option" where
  "recv_stat fs =
     (case fs of
        F_u32 md # F_u32 uid # F_u32 gid # F_off sz # F_off at # F_off mt # F_off ct # F_off bs # rest \<Rightarrow>
          Some (zero_stat\<lparr>st_mode := md, st_uid := uid, st_gid := gid, st_size := sz, st_blksize := bs,
                          st_atime := at, st_mtime := mt, st_ctime := ct\<rparr>, rest)
      | _ \<Rightarrow> None)"

definition decode_request :: "field list \<Rightarrow> master_request option" where
  "decode_request msg =
     (case msg of
        F_int request # args \<Rightarrow>
          if request = REGISTER then
            (case args of [F_size mem, F_str uri] \<Rightarrow> Some (Register mem uri) | _ \<Rightarrow> None)
          else if request = NEW_CLIENT then
            (case args of [F_str uri] \<Rightarrow> Some (New_client uri) | _ \<Rightarrow> None)
          else if request = OPEN_FILE then
            (case args of
               [F_str path, F_int flag] \<Rightarrow>
                 if flag AND O_CREAT = 0 then Some (Open_file path flag 0) else None
             | [F_str path, F_int flag, F_u32 mode] \<Rightarrow>
                 if flag AND O_CREAT \<noteq> 0 then Some (Open_file path flag mode) else None
             | _ \<Rightarrow> None)
          else if request = READ_FILE then
            (case args of [F_off n, F_off start, F_size sz] \<Rightarrow> Some (Read_file n start sz) | _ \<Rightarrow> None)
          else if request = WRITE_FILE then
            (case args of
               F_off n # rest \<Rightarrow>
                 (case recv_stat rest of
                    Some (st, [F_off start, F_size sz]) \<Rightarrow> Some (Write_file n st start sz)
                  | _ \<Rightarrow> None)
             | _ \<Rightarrow> None)
          else if request = FLUSH_FILE then (case args of [F_off n] \<Rightarrow> Some (Flush_file n) | _ \<Rightarrow> None)
          else if request = CLOSE_FILE then (case args of [F_off n] \<Rightarrow> Some (Close_file n) | _ \<Rightarrow> None)
          else if request = GET_ATTR then (case args of [F_str p] \<Rightarrow> Some (Get_attr p) | _ \<Rightarrow> None)
          else if request = UPDATE_META then
            (case args of
               F_off n # rest \<Rightarrow>
                 (case recv_stat rest of Some (st, []) \<Rightarrow> Some (Update_meta n st) | _ \<Rightarrow> None)
             | _ \<Rightarrow> None)
          else if request = READ_DIR then (case args of [F_str p] \<Rightarrow> Some (Read_dir p) | _ \<Rightarrow> None)
          else if request = RM_DIR then (case args of [F_str p] \<Rightarrow> Some (Rm_dir p) | _ \<Rightarrow> None)
          else if request = UNLINK then (case args of [F_str p] \<Rightarrow> Some (Unlink p) | _ \<Rightarrow> None)
          else if request = ACCESS then
            (case args of [F_str p, F_int md] \<Rightarrow> Some (Access p md) | _ \<Rightarrow> None)
          else if request = RENAME then
            (case args of [F_str p, F_str q, F_int m] \<Rightarrow> Some (Rename p q m) | _ \<Rightarrow> None)
          else if request = RENAME_MIGRATING then
            (case args of [F_str p, F_int m] \<Rightarrow> Some (Rename_migrating p m) | _ \<Rightarrow> None)
          else if request = MKDIR then
            (case args of [F_str p, F_u32 md] \<Rightarrow> Some (Mkdir p md) | _ \<Rightarrow> None)
          else if request = TRUNCATE then
            (case args of [F_str p, F_off sz] \<Rightarrow> Some (Truncate p sz) | _ \<Rightarrow> None)
          else if request = CLOSE_CLIENT then (case args of [] \<Rightarrow> Some Close_client | _ \<Rightarrow> None)
          else if request = NODE_FAILURE then (case args of [] \<Rightarrow> Some Node_failure | _ \<Rightarrow> None)
          else if request = IONODE_FAILURE then
            (case args of [F_off i] \<Rightarrow> Some (IOnode_failure i) | _ \<Rightarrow> None)
          else Some (Unknown_request request)
      | _ \<Rightarrow> None)"

fun handle_request :: "os_env \<Rightarrow> nat \<Rightarrow> int \<Rightarrow> master_request \<Rightarrow> master \<Rightarrow> (c_int \<times> master) option" where
  "handle_request env addr h (Register mem uri) s = parse_register_IOnode addr h mem uri s"
| "handle_request env addr h (New_client uri) s = parse_new_client h uri s"
| "handle_request env addr h (Open_file path flag mode) s = parse_open_file env h path flag mode s"
| "handle_request env addr h (Read_file n start sz) s = parse_read_file h n start sz s"
| "handle_request env addr h (Write_file n st start sz) s = parse_write_file h n st start sz s"
| "handle_request env addr h (Update_meta n st) s = parse_meta_update n st s"
| "handle_request env addr h (Flush_file n) s = parse_flush_file h n s"
| "handle_request env addr h (Close_file n) s = parse_close_file h n s"
| "handle_request env addr h (Get_attr path) s = parse_attr h path s"
| "handle_request env addr h (Read_dir path) s = parse_readdir h path s"
| "handle_request env addr h (Unlink path) s = parse_unlink h path s"
| "handle_request env addr h (Rm_dir path) s = parse_rmdir h path s"
| "handle_request env addr h (Access path md) s = parse_access h path md s"
| "handle_request env addr h (Mkdir path md) s = parse_mkdir env h path md s"
| "handle_request env addr h (Rename p q m) s = parse_rename h p q m s"
| "handle_request env addr h (Rename_migrating path m) s = parse_rename_migrating h path m s"
| "handle_request env addr h (Truncate path sz) s = parse_truncate_file h path sz s"
| "handle_request env addr h Close_client s = parse_close_client h s"
| "handle_request env addr h Node_failure s = parse_node_failure h s"
| "handle_request env addr h (IOnode_failure i) s = parse_IOnode_failure i s"
| "handle_request env addr h (Unknown_request c) s = Some (SUCCESS, s)"

text \<open>The dispatcher ignores the handler's result.\<close>

definition parse_request :: "os_env \<Rightarrow> nat \<Rightarrow> int \<Rightarrow> field list \<Rightarrow> master \<Rightarrow> (c_int \<times> master) option" where
  "parse_request env addr h msg s =
     do { rq \<leftarrow> decode_request msg; (_, s1) \<leftarrow> handle_request env addr h rq s; Some (SUCCESS, s1) }"

end
