(* ===== verification/Master_Naming.thy ===== *)
theory Master_Naming
  imports Master_Requests
begin

text \<open>
  Directory listings: \<^verbatim>\<open>_get_file_stat_from_dir\<close> walks the ordered path table from
  \<^verbatim>\<open>lower_bound(dir)\<close> while the paths start with \<open>dir\<close>. Because paths are ordered
  lexicographically these are all the paths that do.
\<close>

lemma lex_prefix_convex:
  fixes d x y :: string
  assumes "d \<le> x" "x \<le> y" "take (length d) y = d"
  shows "take (length d) x = d"
  using assms
proof (induction d arbitrary: x y)
  case (Cons c d)
  from Cons.prems(3) obtain y' where y: "y = c # y'" "take (length d) y' = d" by (cases y) auto
  from Cons.prems(1) obtain b x' where x: "x = b # x'" by (cases x) auto
  have "b = c" using Cons.prems(1,2) x y by auto
  then show ?case using Cons.IH [of x' y'] Cons.prems x y by auto
qed simp

lemma prefix_le:
  fixes d y :: string
  assumes "take (length d) y = d"
  shows "d \<le> y"
  using assms
proof (induction d arbitrary: y)
  case (Cons c d)
  then show ?case by (cases y) auto
qed simp

abbreviation has_prefix :: "string \<Rightarrow> string \<Rightarrow> bool" where
  "has_prefix d x \<equiv> take (length d) x = d"

lemma list_dir_loop_set:
  assumes "map_inv m" "\<forall>k\<in>map_keys m. d \<le> k"
  shows "set (list_dir_loop d n m acc) =
     set acc \<union> (\<lambda>x. takeWhile (\<lambda>c. c \<noteq> CHR ''/'') (drop n x)) ` {x\<in>map_keys m. has_prefix d x}"
  using assms
proof (induction d n m acc rule: list_dir_loop.induct)
  case (2 d n file_name v it acc)
  show ?case
  proof (cases "has_prefix d file_name")
    case True
    then show ?thesis using 2 by auto
  next
    case False
    have "\<not> has_prefix d x" if "x \<in> map_keys it" for x
      using lex_prefix_convex [of d file_name x] that 2(2,3) False by fastforce
    then show ?thesis using False by auto
  qed
qed simp

lemma list_dir_loop_sorted:
  "sorted_wrt (<) acc \<Longrightarrow> sorted_wrt (<) (list_dir_loop d n m acc)"
  by (induction d n m acc rule: list_dir_loop.induct) auto

lemma get_file_stat_from_dir_set:
  assumes m: "map_inv m" and d: "d \<noteq> []"
  shows "\<exists>files. get_file_stat_from_dir d m = Some files \<and> sorted_wrt (<) files \<and>
     set files = (\<lambda>x. takeWhile (\<lambda>c. c \<noteq> CHR ''/'') (drop (if last d \<noteq> CHR ''/'' then length d + 1 else length d) x))
                   ` {x\<in>map_keys m. has_prefix d x \<and> x \<noteq> d}"
proof -
  define it where "it = lower_bound d m"
  define it' where "it' = (case it of (k, _) # rest \<Rightarrow> if k = d then rest else it | [] \<Rightarrow> it)"
  have it: "it = filter (\<lambda>(k, _). d \<le> k) m" by (simp add: it_def lower_bound_spec [OF m])
  have mi: "map_inv it" using m unfolding it map_inv_def by (simp add: sorted_wrt_map sorted_wrt_filter)
  have keys: "map_keys it = {x\<in>map_keys m. d \<le> x}" by (force simp: it)
  have it': "map_inv it' \<and> map_keys it' = map_keys it - {d}"
  proof (cases it)
    case (Cons kv rest)
    obtain k v where kv: "kv = (k, v)" by (cases kv)
    have rest: "\<forall>x\<in>map_keys rest. k < x" "map_inv rest" "d \<le> k" using mi keys Cons kv by auto
    show ?thesis
    proof (cases "k = d")
      case True
      then have "d \<notin> map_keys rest" using rest(1) by blast
      then show ?thesis using True Cons kv rest(2) by (simp add: it'_def)
    next
      case False
      then have "d \<notin> map_keys it" using rest(1,3) Cons kv by fastforce
      then show ?thesis using False Cons kv mi by (simp add: it'_def)
    qed
  qed (simp add: it'_def)
  note it' = it' [THEN conjunct1] it' [THEN conjunct2]
  have "{x\<in>map_keys it'. has_prefix d x} = {x\<in>map_keys m. has_prefix d x \<and> x \<noteq> d}"
    using prefix_le [of d] by (auto simp: it'(2) keys)
  moreover have "\<forall>k\<in>map_keys it'. d \<le> k" using it'(2) keys by auto
  ultimately show ?thesis
    using d list_dir_loop_set [OF it'(1)] list_dir_loop_sorted [of "[]" d _ it']
    by (simp add: get_file_stat_from_dir_def Let_def it_def [symmetric] it'_def [symmetric])
qed

section \<open>Loading the names at the start\<close>

text \<open>
  \<^verbatim>\<open>file_path_hash\<close> (Common/include/CBB\_internal.h) assigns a path to one of the masters; the
  value of \<^verbatim>\<open>std::hash<std::string>\<close> is unspecified and an argument. The directory below the
  mount point is a tree; \<^verbatim>\<open>opendir\<close> may fail on a directory, and then the constructor throws.
  Paths longer than the \<^verbatim>\<open>PATH_MAX\<close> buffer are outside the model.
\<close>

definition file_path_hash :: "(string \<Rightarrow> size_t) \<Rightarrow> string \<Rightarrow> c_int \<Rightarrow> c_int" where
  "file_path_hash string_hash file_path number = s32 (u64 (string_hash file_path) mod u64 number)"

datatype remote_item = Remote_item (item_name: string) (item_stat: stat) (item_dir: "remote_item list option option")

definition add_remote :: "(string \<Rightarrow> size_t) \<Rightarrow> c_int \<Rightarrow> c_int \<Rightarrow> string \<Rightarrow> string \<Rightarrow> stat \<Rightarrow>
    (string, master_file_stat) std_map \<Rightarrow> (string, master_file_stat) std_map" where
  "add_remote hash number tot path name st pool =
     (if number = file_path_hash hash path tot
      then fst (map_insert path (Master_file_stat\<lparr>fs_status := st, fs_name := name, exist_flag := EXISTING\<rparr>) pool)
      else pool)"

fun dfs_item :: "(string \<Rightarrow> size_t) \<Rightarrow> c_int \<Rightarrow> c_int \<Rightarrow> string \<Rightarrow> remote_item \<Rightarrow>
      (string, master_file_stat) std_map \<Rightarrow> (string, master_file_stat) std_map option"
  and dfs_items_in_remote :: "(string \<Rightarrow> size_t) \<Rightarrow> c_int \<Rightarrow> c_int \<Rightarrow> string \<Rightarrow> remote_item list \<Rightarrow>
      (string, master_file_stat) std_map \<Rightarrow> (string, master_file_stat) std_map option" where
  "dfs_item hash number tot dir (Remote_item name st sub) pool =
     (if name = ''.'' \<or> name = ''..'' then Some pool
      else let pool1 = add_remote hash number tot (dir @ name) name st pool
           in case sub of
                None \<Rightarrow> Some pool1
              | Some None \<Rightarrow> None
              | Some (Some items) \<Rightarrow> dfs_items_in_remote hash number tot (dir @ name @ ''/'') items pool1)"
| "dfs_items_in_remote hash number tot dir [] pool = Some pool"
| "dfs_items_in_remote hash number tot dir (it # its) pool =
     do { pool1 \<leftarrow> dfs_item hash number tot dir it pool; dfs_items_in_remote hash number tot dir its pool1 }"

definition buffer_all_meta_data_from_remote :: "(string \<Rightarrow> size_t) \<Rightarrow> c_int \<Rightarrow> c_int \<Rightarrow> stat \<Rightarrow> remote_item list option \<Rightarrow>
    (string, master_file_stat) std_map option" where
  "buffer_all_meta_data_from_remote hash number tot root_stat root =
     do {
       items \<leftarrow> root;
       dfs_items_in_remote hash number tot ''/'' items
         (fst (map_insert ''/'' (Master_file_stat\<lparr>fs_status := root_stat, fs_name := ''/'', exist_flag := EXISTING\<rparr>) []))
     }"

text \<open>The paths below a directory.\<close>

fun item_paths :: "string \<Rightarrow> remote_item \<Rightarrow> string set" and items_paths :: "string \<Rightarrow> remote_item list \<Rightarrow> string set" where
  "item_paths dir (Remote_item name st sub) =
     (if name = ''.'' \<or> name = ''..'' then {}
      else insert (dir @ name) (case sub of Some (Some items) \<Rightarrow> items_paths (dir @ name @ ''/'') items | _ \<Rightarrow> {}))"
| "items_paths dir [] = {}"
| "items_paths dir (it # its) = item_paths dir it \<union> items_paths dir its"

lemma dfs_keys:
  "map_inv pool \<Longrightarrow> dfs_item hash number tot dir it pool = Some pool' \<Longrightarrow>
     map_inv pool' \<and> map_keys pool' = map_keys pool \<union> {p\<in>item_paths dir it. file_path_hash hash p tot = number}"
  "map_inv pool \<Longrightarrow> dfs_items_in_remote hash number tot dir its pool = Some pool' \<Longrightarrow>
     map_inv pool' \<and> map_keys pool' = map_keys pool \<union> {p\<in>items_paths dir its. file_path_hash hash p tot = number}"
proof (induction hash number tot dir it pool and hash number tot dir its pool arbitrary: pool' and pool'
    rule: dfs_item_dfs_items_in_remote.induct)
  case (1 hash number tot dir name st sub pool)
  let ?p1 = "add_remote hash number tot (dir @ name) name st pool"
  have p1: "map_inv ?p1"
    "map_keys ?p1 = map_keys pool \<union> {p. p = dir @ name \<and> file_path_hash hash p tot = number}"
    using 1(2) by (auto simp: add_remote_def)
  show ?case
  proof (cases "name = ''.'' \<or> name = ''..''")
    case True
    then show ?thesis using 1 by auto
  next
    case False
    then consider "sub = None" "pool' = ?p1" | items where "sub = Some (Some items)"
      "dfs_items_in_remote hash number tot (dir @ name @ ''/'') items ?p1 = Some pool'"
      using 1(3) by (auto simp: Let_def split: option.splits)
    then show ?thesis
    proof cases
      case 1
      then show ?thesis using p1 False by auto
    next
      case 2
      then show ?thesis using "1.IH" [OF False refl 2(1) refl p1(1) 2(2)] p1(2) False by auto
    qed
  qed
next
  case (3 hash number tot dir it its pool)
  from 3(4) obtain p1 where p1: "dfs_item hash number tot dir it pool = Some p1"
    "dfs_items_in_remote hash number tot dir its p1 = Some pool'" by (auto simp: bind_eq_Some_conv)
  from 3(1) [OF 3(3) p1(1)] 3(2) [OF p1(1) _ p1(2)] show ?case by auto
qed auto

lemma file_path_hash_range:
  assumes "0 < tot" "tot < 2147483648"
  shows "0 \<le> file_path_hash hash path tot \<and> file_path_hash hash path tot < tot"
proof -
  have "u64 tot = tot" using assms by (intro u64_id) auto
  then have "0 \<le> u64 (hash path) mod u64 tot" "u64 (hash path) mod u64 tot < tot" using assms by simp_all
  then show ?thesis using assms by (simp add: file_path_hash_def s32_id)
qed

text \<open>C22: At the start a master loads exactly the paths below the mount point that hash to its number
  (and the root); every path hashes to one of the masters' numbers, so the masters together
  load every path and no path but the root twice.\<close>

theorem loaded_names:
  assumes "buffer_all_meta_data_from_remote hash number tot st (Some items) = Some pool" "0 < tot" "tot < 2147483648"
  shows "map_inv pool \<and>
    map_keys pool = insert ''/'' {p\<in>items_paths ''/'' items. file_path_hash hash p tot = number} \<and>
    (\<forall>p. 0 \<le> file_path_hash hash p tot \<and> file_path_hash hash p tot < tot)"
proof -
  have "dfs_items_in_remote hash number tot ''/'' items
      [(''/'', Master_file_stat\<lparr>fs_status := st, fs_name := ''/'', exist_flag := EXISTING\<rparr>)] = Some pool"
    using assms(1) by (simp add: buffer_all_meta_data_from_remote_def)
  from dfs_keys(2) [OF _ this] show ?thesis using file_path_hash_range [OF assms(2,3)] by auto
qed

theorem loaded_names_witness:
  "\<exists>pool. buffer_all_meta_data_from_remote (\<lambda>p. int (length p)) 0 2 zero_stat
     (Some [Remote_item ''.'' zero_stat None, Remote_item ''d'' zero_stat (Some (Some [Remote_item ''xy'' zero_stat None]))]) = Some pool \<and>
     map_keys pool = {''/'', ''/d''}"
proof -
  let ?items = "[Remote_item ''.'' zero_stat None, Remote_item ''d'' zero_stat (Some (Some [Remote_item ''xy'' zero_stat None]))]"
  obtain pool where pool: "buffer_all_meta_data_from_remote (\<lambda>p. int (length p)) 0 2 zero_stat (Some ?items) = Some pool"
    by (simp add: buffer_all_meta_data_from_remote_def)
  have "insert ''/'' {p\<in>items_paths ''/'' ?items. file_path_hash (\<lambda>p. int (length p)) p 2 = 0} = {''/'', ''/d''}"
    by (auto simp: file_path_hash_def u64_def s32_def)
  with loaded_names [OF pool] pool show ?thesis by auto
qed

end
