(* ===== verification/Client_State.thy ===== *)
theory Client_State
  imports Master_Naming
begin

text \<open>
  The client (Client/include/CBB\_basic.h, Client/src/CBB\_basic.cpp, Client/include/CBB\_client.h,
  Client/src/CBB\_client.cpp): its state, the table of descriptors, the connections, and how it
  asks the servers.

  \<^item> A \<^verbatim>\<open>file_meta*\<close> is an address into \<open>cl_metas\<close>; the iterator \<^verbatim>\<open>it\<close> of a file into the map of
    paths is its key. A \<^verbatim>\<open>SCBB*\<close> is an index into the list of masters.
  \<^item> The servers and the network are the parameter \<open>srv\<close> over a world \<open>'w\<close>: the answer to a
    query on a connection, the answer to the first query on a new connection, a message that is
    not answered, and the clock. An answer None is a connection that broke:
    \<^verbatim>\<open>get_query_response\<close> then throws \<^verbatim>\<open>std::runtime_error\<close>, the outcome \<open>Thrown\<close>, with the state
    reached so far.
  \<^item> None stands for undefined behaviour, for a loop that does not end and for an exception that
    ends the process: an \<^verbatim>\<open>std::out_of_range\<close> that is not caught violates the exception
    specification \<^verbatim>\<open>throw(std::runtime_error)\<close>.
  \<^item> The connection to the servers is up (\<^verbatim>\<open>CHECK_INIT\<close>); one thread uses the client.
\<close>

abbreviation (input) "INIT_FD \<equiv> 1000 :: int"
abbreviation (input) "MAX_FILE \<equiv> 10000 :: int"
abbreviation (input) "CBB_COMM_RETRY \<equiv> 10 :: nat"
abbreviation (input) "NO_NEED_UPDATE \<equiv> 4 :: int"
abbreviation (input) "UPDATE_META_ONLY \<equiv> 5 :: int"
abbreviation (input) "NEED_UPDATE \<equiv> 6 :: int"
abbreviation (input) "GET_FILE_META \<equiv> 11 :: int"
abbreviation (input) "EMFILE \<equiv> 24 :: int"
abbreviation (input) "EBADF \<equiv> 9 :: int"
abbreviation (input) "EBADFD \<equiv> 77 :: int"
abbreviation (input) "O_APPEND \<equiv> 1024 :: int"
abbreviation (input) "O_WRONLY \<equiv> 1 :: int"
abbreviation (input) "O_RDWR \<equiv> 2 :: int"
abbreviation (input) "SEEK_SET \<equiv> 0 :: int"
abbreviation (input) "SEEK_CUR \<equiv> 1 :: int"
abbreviation (input) "SEEK_END \<equiv> 2 :: int"

section \<open>State\<close>

record SCBB =
  sc_IOnodes :: "(ssize_t, int) std_map"
  sc_id :: c_int
  sc_master :: int

record file_meta =
  fm_remote_file_no :: ssize_t
  fm_open_count :: c_int
  fm_block_size :: size_t
  fm_stat :: stat
  fm_opened_fd :: "int list"
  fm_SCBB :: nat
  fm_IOnodes :: "ssize_t list"
  fm_blocks :: block_list
  fm_need_update :: bool
  fm_it :: string

record opened_file_info =
  op_current_point :: off64_t
  op_fd :: c_int
  op_flag :: c_int
  op_meta :: nat

record 'w client =
  cl_fid_now :: c_int
  cl_files :: "(c_int, opened_file_info) std_map"
  cl_opened :: "int \<Rightarrow> bool"
  cl_paths :: "(string, nat) std_map"
  cl_metas :: "nat \<Rightarrow> file_meta option"
  cl_fresh :: nat
  cl_masters :: "SCBB list"
  cl_using_cache :: bool
  cl_errno :: c_int
  cl_world :: 'w

record 'w server =
  srv_query :: "int \<Rightarrow> field list \<Rightarrow> byte list \<Rightarrow> 'w \<Rightarrow> (field list \<times> byte list) option \<times> 'w"
  srv_connect :: "string \<Rightarrow> field list \<Rightarrow> 'w \<Rightarrow> (int \<times> field list) option \<times> 'w"
  srv_post :: "int \<Rightarrow> field list \<Rightarrow> 'w \<Rightarrow> 'w"
  srv_time :: "'w \<Rightarrow> time_t"
  srv_hash :: "string \<Rightarrow> size_t"

datatype 'a outcome = Ret 'a | Thrown

type_synonym ('a, 'w) result = "('a outcome \<times> 'w client) option"

definition client_init :: "bool \<Rightarrow> 'w \<Rightarrow> 'w client" where
  "client_init using_cache w = \<lparr>cl_fid_now = 0, cl_files = [], cl_opened = (\<lambda>_. False), cl_paths = [],
     cl_metas = (\<lambda>_. None), cl_fresh = 0, cl_masters = [], cl_using_cache = using_cache, cl_errno = 0, cl_world = w\<rparr>"

definition new_file_meta :: "ssize_t \<Rightarrow> size_t \<Rightarrow> stat \<Rightarrow> nat \<Rightarrow> file_meta" where
  "new_file_meta no bsz st scbb = \<lparr>fm_remote_file_no = no, fm_open_count = 0, fm_block_size = bsz, fm_stat = st,
     fm_opened_fd = [], fm_SCBB = scbb, fm_IOnodes = [], fm_blocks = [], fm_need_update = False, fm_it = []\<rparr>"

definition new_SCBB :: "c_int \<Rightarrow> int \<Rightarrow> SCBB" where
  "new_SCBB i handle = \<lparr>sc_IOnodes = [], sc_id = i, sc_master = handle\<rparr>"

definition deref_meta :: "nat \<Rightarrow> 'w client \<Rightarrow> file_meta option" where
  "deref_meta p c = cl_metas c p"

definition upd_meta :: "nat \<Rightarrow> (file_meta \<Rightarrow> file_meta) \<Rightarrow> 'w client \<Rightarrow> 'w client option" where
  "upd_meta p g c = do { m \<leftarrow> deref_meta p c; Some (c\<lparr>cl_metas := (cl_metas c)(p \<mapsto> g m)\<rparr>) }"

definition upd_opened :: "c_int \<Rightarrow> (opened_file_info \<Rightarrow> opened_file_info) \<Rightarrow> 'w client \<Rightarrow> 'w client option" where
  "upd_opened fid g c = do { f \<leftarrow> map_find fid (cl_files c); Some (c\<lparr>cl_files := map_set fid (g f) (cl_files c)\<rparr>) }"

definition get_SCBB :: "nat \<Rightarrow> 'w client \<Rightarrow> SCBB option" where
  "get_SCBB i c = (if i < length (cl_masters c) then Some (cl_masters c ! i) else None)"

definition upd_SCBB :: "nat \<Rightarrow> (SCBB \<Rightarrow> SCBB) \<Rightarrow> 'w client \<Rightarrow> 'w client option" where
  "upd_SCBB i g c = do { sc \<leftarrow> get_SCBB i c; Some (c\<lparr>cl_masters := (cl_masters c)[i := g sc]\<rparr>) }"

definition set_errno :: "c_int \<Rightarrow> 'w client \<Rightarrow> 'w client" where
  "set_errno e c = c\<lparr>cl_errno := e\<rparr>"

section \<open>Descriptors\<close>

definition fd_to_fid :: "c_int \<Rightarrow> c_int" where "fd_to_fid fd = fd - INIT_FD"
definition fid_to_fd :: "c_int \<Rightarrow> c_int" where "fid_to_fd fid = fid + INIT_FD"

definition interpret_fd :: "c_int \<Rightarrow> bool" where
  "interpret_fd fd \<longleftrightarrow> \<not> fd < INIT_FD"

function fid_scan :: "(int \<Rightarrow> bool) \<Rightarrow> c_int \<Rightarrow> c_int \<Rightarrow> c_int option" where
  "fid_scan used i bound = (if i < bound then if \<not> used i then Some i else fid_scan used (i + 1) bound else None)"
  by pat_completeness auto
termination by (relation "measure (\<lambda>(_, i, b). nat (b - i))") auto

declare fid_scan.simps [simp del]

definition get_fid :: "'w client \<Rightarrow> c_int \<times> 'w client" where
  "get_fid c =
     (case fid_scan (cl_opened c) (cl_fid_now c) MAX_FILE of
        Some i \<Rightarrow> (i, c\<lparr>cl_opened := (cl_opened c)(i := True), cl_fid_now := i\<rparr>)
      | None \<Rightarrow>
          (case fid_scan (cl_opened c) 0 (cl_fid_now c) of
             Some i \<Rightarrow> (i, c\<lparr>cl_opened := (cl_opened c)(i := True), cl_fid_now := i\<rparr>)
           | None \<Rightarrow> (-1, c)))"

section \<open>Paths\<close>

definition interpret_path :: "string option \<Rightarrow> string \<Rightarrow> bool" where
  "interpret_path mount path \<longleftrightarrow>
     (case mount of None \<Rightarrow> False | Some m \<Rightarrow> take (length m) path = m)"

definition get_relative_path :: "string \<Rightarrow> string \<Rightarrow> string" where
  "get_relative_path mount path = drop (length mount) path"

text \<open>The number of masters is read once, after the registration.\<close>

definition get_master_number_from_path :: "'w server \<Rightarrow> string \<Rightarrow> 'w client \<Rightarrow> c_int" where
  "get_master_number_from_path srv path c = file_path_hash (srv_hash srv) path (int (length (cl_masters c)))"

text \<open>\<^verbatim>\<open>master_handle_list.at\<close>; a negative number becomes a large index.\<close>

definition get_master_handle_from_master_number :: "c_int \<Rightarrow> 'w client \<Rightarrow> int option" where
  "get_master_handle_from_master_number n c = (if n < 0 then None else map_option sc_master (get_SCBB (nat n) c))"

definition get_master_handle :: "file_meta \<Rightarrow> 'w client \<Rightarrow> int option" where
  "get_master_handle m c = map_option sc_master (get_SCBB (fm_SCBB m) c)"

section \<open>Asking the servers\<close>

definition post :: "'w server \<Rightarrow> int \<Rightarrow> field list \<Rightarrow> 'w client \<Rightarrow> 'w client" where
  "post srv h msg c = c\<lparr>cl_world := srv_post srv h msg (cl_world c)\<rparr>"

text \<open>
  What a client does when a connection breaks: when the handle is the one of an IOnode, a report
  goes to master 0 and names IOnode 0, whatever the IOnode.
\<close>

fun find_scbb_by_handle :: "int \<Rightarrow> SCBB list \<Rightarrow> SCBB option" where
  "find_scbb_by_handle handle [] = None"
| "find_scbb_by_handle handle (scbb # l) =
     (if list_ex (\<lambda>(_, h). handle = h) (sc_IOnodes scbb) then Some scbb else find_scbb_by_handle handle l)"

definition report_IOnode_failure :: "'w server \<Rightarrow> int \<Rightarrow> 'w client \<Rightarrow> c_int \<times> 'w client" where
  "report_IOnode_failure srv handle c =
     (case find_scbb_by_handle handle (cl_masters c) of
        None \<Rightarrow> (FAILURE, c)
      | Some _ \<Rightarrow> (SUCCESS, post srv (sc_master (cl_masters c ! 0)) [F_int IONODE_FAILURE, F_off 0] c))"

text \<open>\<^verbatim>\<open>send_query\<close> and \<^verbatim>\<open>get_query_response\<close>.\<close>

definition get_query_response :: "'w server \<Rightarrow> int \<Rightarrow> field list \<Rightarrow> byte list \<Rightarrow> 'w client \<Rightarrow>
    (field list \<times> byte list) outcome \<times> 'w client" where
  "get_query_response srv h msg data c =
     (case srv_query srv h msg data (cl_world c) of
        (None, w) \<Rightarrow> (Thrown, snd (report_IOnode_failure srv h (c\<lparr>cl_world := w\<rparr>)))
      | (Some r, w) \<Rightarrow> (Ret r, c\<lparr>cl_world := w\<rparr>))"

definition query :: "'w server \<Rightarrow> int \<Rightarrow> field list \<Rightarrow> byte list \<Rightarrow> 'w client \<Rightarrow>
    (field list \<Rightarrow> byte list \<Rightarrow> 'w client \<Rightarrow> ('a, 'w) result) \<Rightarrow> ('a, 'w) result" where
  "query srv h msg data c k =
     (case get_query_response srv h msg data c of
        (Thrown, c1) \<Rightarrow> Some (Thrown, c1)
      | (Ret (rs, d), c1) \<Rightarrow> k rs d c1)"

text \<open>\<^verbatim>\<open>pop(int&)\<close> of a response.\<close>

definition pop_ret :: "field list \<Rightarrow> (c_int \<times> field list) option" where
  "pop_ret rs = (case rs of F_int r # rest \<Rightarrow> Some (r, rest) | _ \<Rightarrow> None)"

text \<open>The public operations repeat what a broken connection interrupted.\<close>

fun retry :: "nat \<Rightarrow> 'a \<Rightarrow> ('s \<Rightarrow> ('a outcome \<times> 's) option) \<Rightarrow> 's \<Rightarrow> ('a \<times> 's) option" where
  "retry 0 ret op c = Some (ret, c)"
| "retry (Suc i) ret op c =
     do {
       (r, c1) \<leftarrow> op c;
       case r of Ret v \<Rightarrow> Some (v, c1) | Thrown \<Rightarrow> retry i ret op c1
     }"

section \<open>Registration\<close>

fun master_config_ips :: "nat \<Rightarrow> string \<Rightarrow> string list" where
  "master_config_ips 0 s = []"
| "master_config_ips (Suc k) s =
     (if s = [] then []
      else if CHR '','' \<in> set s
      then takeWhile (\<lambda>x. x \<noteq> CHR '','') s # master_config_ips k (tl (dropWhile (\<lambda>x. x \<noteq> CHR '','') s))
      else [s])"

fun register_loop :: "'w server \<Rightarrow> string list \<Rightarrow> c_int \<Rightarrow> c_int \<Rightarrow> 'w client \<Rightarrow> (c_int \<times> 'w client) option" where
  "register_loop srv [] counter ret c = Some (ret, c)"
| "register_loop srv (ip # ips) counter ret c =
     (case srv_connect srv ip [F_int NEW_CLIENT] (cl_world c) of
        (None, w) \<Rightarrow> Some (-1, c\<lparr>cl_world := w\<rparr>)
      | (Some (h, rs), w) \<Rightarrow> do {
          (ret1, _) \<leftarrow> pop_ret rs;
          register_loop srv ips (counter + 1) ret1 (c\<lparr>cl_world := w, cl_masters := cl_masters c @ [new_SCBB counter h]\<rparr>)
        })"

definition register_to_master :: "'w server \<Rightarrow> string option \<Rightarrow> 'w client \<Rightarrow> (c_int \<times> 'w client) option" where
  "register_to_master srv master_ip_list c =
     (case master_ip_list of
        None \<Rightarrow> Some (-1, c)
      | Some l \<Rightarrow> register_loop srv (master_config_ips (Suc (length l)) l) 0 0 c)"

end
