(* ===== verification/Client_IO.thy ===== *)
theory Client_IO
  imports Client_State
begin

text \<open>
  Reading and writing (Client/src/CBB\_client.cpp): the blocks of a request from the master or
  from the cache, the transfer to and from the IOnode, the sizes and times kept locally.
\<close>

section \<open>Blocks\<close>

text \<open>\<^verbatim>\<open>_get_IOnode_handle\<close>: the handle, 0 for the null pointer when the node refuses.\<close>

definition get_IOnode_handle :: "'w server \<Rightarrow> nat \<Rightarrow> ssize_t \<Rightarrow> string \<Rightarrow> 'w client \<Rightarrow> (int option, 'w) result" where
  "get_IOnode_handle srv sci i ip c =
     do {
       sc \<leftarrow> get_SCBB sci c;
       case map_find i (sc_IOnodes sc) of
         Some h \<Rightarrow> Some (Ret (Some h), c)
       | None \<Rightarrow>
           (case srv_connect srv ip [F_int NEW_CLIENT] (cl_world c) of
              (None, w) \<Rightarrow> Some (Thrown, c\<lparr>cl_world := w\<rparr>)
            | (Some (h, rs), w) \<Rightarrow> do {
                (ret, _) \<leftarrow> pop_ret rs;
                if ret = SUCCESS then do {
                  c1 \<leftarrow> upd_SCBB sci (\<lambda>sc. sc\<lparr>sc_IOnodes := fst (map_insert i h (sc_IOnodes sc))\<rparr>) (c\<lparr>cl_world := w\<rparr>);
                  Some (Ret (Some h), c1)
                } else Some (Ret None, c\<lparr>cl_world := w\<rparr>)
              })
     }"

type_synonym node_pool = "(ssize_t, int option) std_map"

fun parse_nodes :: "'w server \<Rightarrow> nat \<Rightarrow> nat \<Rightarrow> nat \<Rightarrow> field list \<Rightarrow> node_pool \<Rightarrow> 'w client \<Rightarrow> (field list \<times> node_pool, 'w) result" where
  "parse_nodes srv sci p 0 rs pool c = Some (Ret (rs, pool), c)"
| "parse_nodes srv sci p (Suc k) rs pool c =
     (case rs of
        F_off i # F_str uri # rest \<Rightarrow> do {
          (r, c1) \<leftarrow> get_IOnode_handle srv sci i uri c;
          case r of
            Thrown \<Rightarrow> Some (Thrown, c1)
          | Ret h \<Rightarrow> do {
              c2 \<leftarrow> upd_meta p (\<lambda>m. m\<lparr>fm_IOnodes := set_insert i (fm_IOnodes m)\<rparr>) c1;
              parse_nodes srv sci p k rest (fst (map_insert i h pool)) c2
            }
        }
      | _ \<Rightarrow> None)"

fun parse_block_list :: "nat \<Rightarrow> nat \<Rightarrow> field list \<Rightarrow> block_list \<Rightarrow> 'w client \<Rightarrow> (field list \<times> block_list \<times> 'w client) option" where
  "parse_block_list p 0 rs bl c = Some (rs, bl, c)"
| "parse_block_list p (Suc k) rs bl c =
     (case rs of
        F_off st # F_size sz # rest \<Rightarrow> do {
          c1 \<leftarrow> (if cl_using_cache c then upd_meta p (\<lambda>m. m\<lparr>fm_blocks := fst (map_insert st sz (fm_blocks m))\<rparr>) c else Some c);
          parse_block_list p k rest (fst (map_insert st sz bl)) c1
        }
      | _ \<Rightarrow> None)"

definition parse_blocks_from_master :: "'w server \<Rightarrow> nat \<Rightarrow> nat \<Rightarrow> field list \<Rightarrow> block_list \<Rightarrow> node_pool \<Rightarrow> 'w client \<Rightarrow>
    (block_list \<times> node_pool, 'w) result" where
  "parse_blocks_from_master srv sci p rs bl pool c =
     do {
       (count, rs1) \<leftarrow> pop_ret rs;
       (r, c1) \<leftarrow> parse_nodes srv sci p (nat count) rs1 pool c;
       case r of
         Thrown \<Rightarrow> Some (Thrown, c1)
       | Ret (rs2, pool1) \<Rightarrow> do {
           (count2, rs3) \<leftarrow> pop_ret rs2;
           (_, bl1, c2) \<leftarrow> parse_block_list p (nat count2) rs3 bl c1;
           Some (Ret (bl1, pool1), c2)
         }
     }"

section \<open>Sizes and times\<close>

definition update_file_size_from_master :: "field list \<Rightarrow> nat \<Rightarrow> 'w client \<Rightarrow> (field list \<times> 'w client) option" where
  "update_file_size_from_master rs p c =
     (case rs of
        F_size file_size # rest \<Rightarrow> do {
          c1 \<leftarrow> upd_meta p (\<lambda>m. if file_size > u64 (st_size (fm_stat m))
                               then m\<lparr>fm_stat := (fm_stat m)\<lparr>st_size := s64 file_size\<rparr>\<rparr> else m) c;
          Some (rest, c1)
        }
      | _ \<Rightarrow> None)"

definition write_update_file_size :: "off64_t \<Rightarrow> size_t \<Rightarrow> file_meta \<Rightarrow> file_meta" where
  "write_update_file_size pos sz m =
     (if u64 (pos + sz) > u64 (st_size (fm_stat m))
      then m\<lparr>fm_stat := (fm_stat m)\<lparr>st_size := s64 (pos + sz)\<rparr>\<rparr> else m)"

definition update_file_size :: "c_int \<Rightarrow> size_t \<Rightarrow> 'w client \<Rightarrow> (c_int \<times> 'w client) option" where
  "update_file_size fd sz c =
     (case map_find (fd_to_fid fd) (cl_files c) of
        None \<Rightarrow> Some (-1, set_errno EBADFD c)
      | Some f \<Rightarrow> do {
          c1 \<leftarrow> upd_meta (op_meta f) (\<lambda>m. (if u64 (st_size (fm_stat m)) < sz
                  then m\<lparr>fm_stat := (fm_stat m)\<lparr>st_size := s64 sz\<rparr>\<rparr> else m)\<lparr>fm_need_update := True\<rparr>) c;
          Some (0, c1)
        })"

definition update_access_time :: "'w server \<Rightarrow> c_int \<Rightarrow> 'w client \<Rightarrow> (c_int \<times> 'w client) option" where
  "update_access_time srv fd c =
     (case map_find (fd_to_fid fd) (cl_files c) of
        None \<Rightarrow> Some (-1, set_errno EBADFD c)
      | Some f \<Rightarrow> do {
          let t = srv_time srv (cl_world c);
          c1 \<leftarrow> upd_meta (op_meta f) (\<lambda>m. m\<lparr>fm_stat := (fm_stat m)\<lparr>st_mtime := t, st_atime := t\<rparr>, fm_need_update := True\<rparr>) c;
          Some (0, c1)
        })"

definition get_file_size :: "c_int \<Rightarrow> 'w client \<Rightarrow> size_t option" where
  "get_file_size fd c =
     do {
       f \<leftarrow> map_find (fd_to_fid fd) (cl_files c);
       m \<leftarrow> deref_meta (op_meta f) c;
       Some (u64 (st_size (fm_stat m)))
     }"

section \<open>Where the blocks come from\<close>

definition get_blocks_from_master :: "'w server \<Rightarrow> nat \<Rightarrow> off64_t \<Rightarrow> size_t \<Rightarrow> block_list \<Rightarrow> node_pool \<Rightarrow> c_int \<Rightarrow> 'w client \<Rightarrow>
    (c_int \<times> block_list \<times> node_pool, 'w) result" where
  "get_blocks_from_master srv p start_point sz bl pool mode c =
     do {
       m0 \<leftarrow> deref_meta p c;
       h \<leftarrow> get_master_handle m0 c;
       c1 \<leftarrow> (if mode = WRITE_FILE then upd_meta p (write_update_file_size start_point sz) c else Some c);
       m \<leftarrow> deref_meta p c1;
       query srv h ([F_int mode, F_off (fm_remote_file_no m)] @ (if mode = WRITE_FILE then attr_fields (fm_stat m) else [])
                    @ [F_off start_point, F_size sz]) [] c1 (\<lambda>rs _ c2. do {
         (ret, rs1) \<leftarrow> pop_ret rs;
         if ret = SUCCESS then do {
           (rs2, c3) \<leftarrow> update_file_size_from_master rs1 p c2;
           (r, c4) \<leftarrow> parse_blocks_from_master srv (fm_SCBB m) p rs2 bl pool c3;
           case r of Thrown \<Rightarrow> Some (Thrown, c4) | Ret (bl1, pool1) \<Rightarrow> Some (Ret (SUCCESS, bl1, pool1), c4)
         } else Some (Ret (-1, bl, pool), set_errno (- ret) c2)
       })
     }"

definition write_over_block :: "off64_t \<Rightarrow> size_t \<Rightarrow> file_meta \<Rightarrow> c_int" where
  "write_over_block start_point sz m =
     (if s64 (sz + start_point) > st_size (fm_stat m) then
        (if u64 (s64 (sz + start_point)) > u64 (get_block_start_point (st_size (fm_stat m)) + fm_block_size m)
         then NEED_UPDATE else UPDATE_META_ONLY)
      else NO_NEED_UPDATE)"

text \<open>\<^verbatim>\<open>get_IOnode_handle\<close> of the \<^verbatim>\<open>SCBB\<close> is \<^verbatim>\<open>operator[]\<close>: a node that is not connected gets an empty handle.\<close>

fun cached_nodes :: "ssize_t list \<Rightarrow> nat \<Rightarrow> node_pool \<Rightarrow> 'w client \<Rightarrow> (node_pool \<times> 'w client) option" where
  "cached_nodes [] sci pool c = Some (pool, c)"
| "cached_nodes (i # is) sci pool c =
     do {
       sc \<leftarrow> get_SCBB sci c;
       case map_find i (sc_IOnodes sc) of
         Some h \<Rightarrow> cached_nodes is sci (fst (map_insert i (Some h) pool)) c
       | None \<Rightarrow> do {
           c1 \<leftarrow> upd_SCBB sci (\<lambda>sc. sc\<lparr>sc_IOnodes := map_set i 0 (sc_IOnodes sc)\<rparr>) c;
           cached_nodes is sci (fst (map_insert i (Some 0) pool)) c1
         }
     }"

text \<open>\<^verbatim>\<open>MAX\<close> of the block and the request; the remaining size wraps around.\<close>

fun cached_blocks :: "(off64_t \<times> size_t) list \<Rightarrow> size_t \<Rightarrow> block_list \<Rightarrow> size_t \<times> block_list" where
  "cached_blocks [] sz bl = (sz, bl)"
| "cached_blocks ((st, bsz) # it) sz bl =
     (if 0 < sz then
        (let IO_size = max bsz sz in cached_blocks it (u64 (sz - IO_size)) (fst (map_insert st IO_size bl)))
      else (sz, bl))"

definition get_blocks_from_cache :: "nat \<Rightarrow> off64_t \<Rightarrow> size_t \<Rightarrow> block_list \<Rightarrow> node_pool \<Rightarrow> 'w client \<Rightarrow>
    (c_int \<times> block_list \<times> node_pool \<times> 'w client) option" where
  "get_blocks_from_cache p start_point sz bl pool c =
     do {
       m \<leftarrow> deref_meta p c;
       let ret = write_over_block start_point sz m;
       if fm_blocks m = [] then Some (NEED_UPDATE, bl, pool, c)
       else if ret = NEED_UPDATE then Some (NEED_UPDATE, bl, pool, c)
       else do {
         let ret1 = (if fm_need_update m then UPDATE_META_ONLY else ret);
         (pool1, c1) \<leftarrow> cached_nodes (fm_IOnodes m) (fm_SCBB m) pool c;
         let bst = get_block_start_point start_point;
         let it = (if map_find bst (fm_blocks m) = None then [] else lower_bound bst (fm_blocks m));
         let (rest, bl1) = cached_blocks it sz bl;
         Some (if 0 < rest then NEED_UPDATE else ret1, bl1, pool1, c1)
       }
     }"

definition update_meta :: "'w server \<Rightarrow> nat \<Rightarrow> off64_t \<Rightarrow> size_t \<Rightarrow> 'w client \<Rightarrow> (c_int \<times> 'w client) option" where
  "update_meta srv p start_point sz c =
     do {
       c1 \<leftarrow> upd_meta p (write_update_file_size start_point sz) c;
       m \<leftarrow> deref_meta p c1;
       h \<leftarrow> get_master_handle m c1;
       Some (SUCCESS, post srv h ([F_int UPDATE_META, F_off (fm_remote_file_no m)] @ attr_fields (fm_stat m)) c1)
     }"

section \<open>Transfers\<close>

fun find_start_point_loop :: "block_list \<Rightarrow> off64_t \<Rightarrow> off64_t \<Rightarrow> off64_t" where
  "find_start_point_loop [] end_start_point ret = ret"
| "find_start_point_loop ((st, _) # bl) end_start_point ret =
     (if end_start_point < st then ret else find_start_point_loop bl end_start_point st)"

text \<open>The caller has read the first block already.\<close>

definition find_start_point :: "block_list \<Rightarrow> off64_t \<Rightarrow> ssize_t \<Rightarrow> off64_t" where
  "find_start_point bl start_point update_size =
     (case bl of [] \<Rightarrow> start_point | (st, _) # _ \<Rightarrow> find_start_point_loop bl (s64 (start_point + update_size)) st)"

text \<open>
  One query of a transfer. \<open>Again\<close>: the IOnode does not have the file yet and is asked again,
  or it answered with another error, which is not looked at. The null handle is undefined.
\<close>

datatype transfer = Moved "byte list" | Again | Broken

definition IO_query :: "'w server \<Rightarrow> int option \<Rightarrow> field list \<Rightarrow> byte list \<Rightarrow> 'w client \<Rightarrow> (transfer \<times> 'w client) option" where
  "IO_query srv handle msg data c =
     do {
       h \<leftarrow> handle;
       case get_query_response srv h msg data c of
         (Thrown, c1) \<Rightarrow> Some (Broken, c1)
       | (Ret (rs, d), c1) \<Rightarrow> do {
           (ret, _) \<leftarrow> pop_ret rs;
           Some (if ret = SUCCESS then Moved d else Again, c1)
         }
     }"

partial_function (option) read_IOnode_loop :: "'w server \<Rightarrow> ssize_t \<Rightarrow> block_list \<Rightarrow> int option \<Rightarrow> off64_t \<Rightarrow> off64_t \<Rightarrow> size_t \<Rightarrow>
    byte list \<Rightarrow> 'w client \<Rightarrow> (byte list, 'w) result" where
  "read_IOnode_loop srv file_no bl handle start_point pos read_size buf c =
     (if 0 < read_size then
        Option.bind (IO_query srv handle [F_int READ_FILE, F_off file_no, F_off start_point, F_off (pos - start_point),
            F_size (min read_size (int MAX_TRANSFER_SIZE))] [] c) (\<lambda>(r, c1).
          (case r of
             Broken \<Rightarrow> Some (Thrown, c1)
           | Again \<Rightarrow> read_IOnode_loop srv file_no bl handle start_point pos read_size buf c1
           | Moved d \<Rightarrow>
               read_IOnode_loop srv file_no bl handle (find_start_point bl start_point (int (length d)))
                 (pos + int (length d)) (u64 (read_size - int (length d))) (buf @ d) c1))
      else Some (Ret buf, c))"

definition read_from_IOnode :: "'w server \<Rightarrow> nat \<Rightarrow> block_list \<Rightarrow> node_pool \<Rightarrow> off64_t \<Rightarrow> size_t \<Rightarrow> 'w client \<Rightarrow> (byte list, 'w) result" where
  "read_from_IOnode srv p bl pool offset sz c =
     do {
       m \<leftarrow> deref_meta p c;
       (start_point, _) \<leftarrow> (case bl of [] \<Rightarrow> None | b # _ \<Rightarrow> Some b);
       (_, handle) \<leftarrow> (case pool of [] \<Rightarrow> None | e # _ \<Rightarrow> Some e);
       if u64 (sz + offset) > u64 (st_size (fm_stat m)) then
         (if st_size (fm_stat m) > offset
          then read_IOnode_loop srv (fm_remote_file_no m) bl handle start_point offset (u64 (st_size (fm_stat m) - offset)) [] c
          else Some (Ret [], c))
       else read_IOnode_loop srv (fm_remote_file_no m) bl handle start_point offset sz [] c
     }"

partial_function (option) write_IOnode_loop :: "'w server \<Rightarrow> ssize_t \<Rightarrow> block_list \<Rightarrow> int option \<Rightarrow> off64_t \<Rightarrow> off64_t \<Rightarrow>
    byte list \<Rightarrow> ssize_t \<Rightarrow> 'w client \<Rightarrow> (ssize_t, 'w) result" where
  "write_IOnode_loop srv file_no bl handle start_point pos buf ans c =
     (if buf \<noteq> [] then
        (let IO_size = min (length buf) MAX_TRANSFER_SIZE in
         Option.bind (IO_query srv handle [F_int WRITE_FILE, F_off file_no, F_off start_point, F_off (pos - start_point),
            F_size (int IO_size)] (take IO_size buf) c) (\<lambda>(r, c1).
          (case r of
             Broken \<Rightarrow> Some (Thrown, c1)
           | Again \<Rightarrow> write_IOnode_loop srv file_no bl handle start_point pos buf ans c1
           | Moved _ \<Rightarrow>
               write_IOnode_loop srv file_no bl handle (find_start_point bl start_point (int IO_size))
                 (pos + int IO_size) (drop IO_size buf) (ans + int IO_size) c1)))
      else Some (Ret ans, c))"

definition write_to_IOnode :: "'w server \<Rightarrow> nat \<Rightarrow> block_list \<Rightarrow> node_pool \<Rightarrow> byte list \<Rightarrow> off64_t \<Rightarrow> 'w client \<Rightarrow> (ssize_t, 'w) result" where
  "write_to_IOnode srv p bl pool buf offset c =
     do {
       m \<leftarrow> deref_meta p c;
       (start_point, _) \<leftarrow> (case bl of [] \<Rightarrow> None | b # _ \<Rightarrow> Some b);
       (_, handle) \<leftarrow> (case pool of [] \<Rightarrow> None | e # _ \<Rightarrow> Some e);
       write_IOnode_loop srv (fm_remote_file_no m) bl handle start_point offset buf 0 c
     }"

section \<open>read and write\<close>

text \<open>
  \<^verbatim>\<open>remote_IO\<close> up to the transfer: the blocks and the node. When the cache has every block and
  there is nothing to tell the master, the result is \<^verbatim>\<open>NO_NEED_UPDATE\<close>, which is not \<^verbatim>\<open>SUCCESS\<close>.
\<close>

definition remote_IO_blocks :: "'w server \<Rightarrow> nat \<Rightarrow> off64_t \<Rightarrow> size_t \<Rightarrow> c_int \<Rightarrow> 'w client \<Rightarrow>
    (c_int \<times> block_list \<times> node_pool, 'w) result" where
  "remote_IO_blocks srv p start_point sz mode c =
     (if cl_using_cache c then do {
        (ret, bl, pool, c1) \<leftarrow> get_blocks_from_cache p start_point sz [] [] c;
        if ret = NEED_UPDATE then get_blocks_from_master srv p start_point sz bl pool mode c1
        else if ret = UPDATE_META_ONLY then do {
          (ret1, c2) \<leftarrow> update_meta srv p start_point sz c1;
          Some (Ret (ret1, bl, pool), c2)
        } else Some (Ret (ret, bl, pool), c1)
      } else get_blocks_from_master srv p start_point sz [] [] mode c)"

definition remote_read :: "'w server \<Rightarrow> nat \<Rightarrow> off64_t \<Rightarrow> size_t \<Rightarrow> 'w client \<Rightarrow> (byte list, 'w) result" where
  "remote_read srv p start_point sz c =
     do {
       (r, c1) \<leftarrow> remote_IO_blocks srv p start_point sz READ_FILE c;
       case r of
         Thrown \<Rightarrow> Some (Thrown, c1)
       | Ret (ret, bl, pool) \<Rightarrow>
           if ret = SUCCESS then read_from_IOnode srv p bl pool start_point sz c1
           else Some (Ret [], set_errno EINVAL c1)
     }"

definition remote_write :: "'w server \<Rightarrow> nat \<Rightarrow> byte list \<Rightarrow> off64_t \<Rightarrow> 'w client \<Rightarrow> (ssize_t, 'w) result" where
  "remote_write srv p buf start_point c =
     do {
       (r, c1) \<leftarrow> remote_IO_blocks srv p start_point (int (length buf)) WRITE_FILE c;
       case r of
         Thrown \<Rightarrow> Some (Thrown, c1)
       | Ret (ret, bl, pool) \<Rightarrow>
           if ret = SUCCESS then write_to_IOnode srv p bl pool buf start_point c1
           else Some (Ret 0, set_errno EINVAL c1)
     }"

definition client_read :: "'w server \<Rightarrow> c_int \<Rightarrow> size_t \<Rightarrow> 'w client \<Rightarrow> (ssize_t \<times> byte list, 'w) result" where
  "client_read srv fd sz c =
     (if sz = 0 then Some (Ret (0, []), c)
      else case map_find (fd_to_fid fd) (cl_files c) of
        None \<Rightarrow> Some (Ret (-1, []), set_errno EBADFD c)
      | Some f \<Rightarrow> do {
          m \<leftarrow> deref_meta (op_meta f) c;
          let over = u64 (sz + op_current_point f) > u64 (st_size (fm_stat m));
          if over \<and> \<not> st_size (fm_stat m) > op_current_point f then Some (Ret (0, []), c)
          else do {
            let sz1 = (if over then u64 (st_size (fm_stat m) - op_current_point f) else sz);
            (r, c1) \<leftarrow> remote_read srv (op_meta f) (op_current_point f) sz1 c;
            case r of
              Thrown \<Rightarrow> Some (Thrown, c1)
            | Ret d \<Rightarrow> do {
                c2 \<leftarrow> upd_opened (fd_to_fid fd) (\<lambda>f. f\<lparr>op_current_point := op_current_point f + int (length d)\<rparr>) c1;
                Some (Ret (int (length d), d), c2)
              }
          }
        })"

text \<open>The number of bytes written goes through an \<^verbatim>\<open>int\<close>.\<close>

definition client_write :: "'w server \<Rightarrow> c_int \<Rightarrow> byte list \<Rightarrow> 'w client \<Rightarrow> (ssize_t, 'w) result" where
  "client_write srv fd buf c =
     (if buf = [] then Some (Ret 0, c)
      else case map_find (fd_to_fid fd) (cl_files c) of
        None \<Rightarrow> Some (Ret (-1), set_errno EBADFD c)
      | Some f \<Rightarrow> do {
          (_, c1) \<leftarrow> update_access_time srv fd c;
          (r, c2) \<leftarrow> remote_write srv (op_meta f) buf (op_current_point f) c1;
          case r of
            Thrown \<Rightarrow> Some (Thrown, c2)
          | Ret n \<Rightarrow> do {
              c3 \<leftarrow> upd_opened (fd_to_fid fd) (\<lambda>f. f\<lparr>op_current_point := op_current_point f + s32 n\<rparr>) c2;
              Some (Ret (s32 n), c3)
            }
        })"

end
