(* ===== verification/Client_Files.thy ===== *)
theory Client_Files
  imports Client_IO
begin

text \<open>
  Files and names (Client/src/CBB\_client.cpp): open, close, flush, lseek, attributes,
  directories, unlink, rename, truncate, and the public operations that repeat them.
\<close>

section \<open>open\<close>

definition create_new_file :: "field list \<Rightarrow> nat \<Rightarrow> 'w client \<Rightarrow> (nat \<times> 'w client) option" where
  "create_new_file rs scbb c =
     (case rs of
        F_off remote_file_no # F_size block_size # rest \<Rightarrow> do {
          (st, _) \<leftarrow> recv_stat rest;
          let p = cl_fresh c;
          Some (p, c\<lparr>cl_metas := (cl_metas c)(p \<mapsto> new_file_meta remote_file_no block_size st scbb), cl_fresh := p + 1\<rparr>)
        }
      | _ \<Rightarrow> None)"

text \<open>
  \<^verbatim>\<open>remote_open\<close>; None in the outcome is the null pointer. The loop compares the number with
  itself and ends after one query. The flag is sent only with \<^verbatim>\<open>O_CREAT\<close>, the mode always.
\<close>

definition remote_open :: "'w server \<Rightarrow> string \<Rightarrow> c_int \<Rightarrow> mode_t \<Rightarrow> 'w client \<Rightarrow> (nat option, 'w) result" where
  "remote_open srv path flag mode c =
     do {
       let n = get_master_number_from_path srv path c;
       h \<leftarrow> get_master_handle_from_master_number n c;
       query srv h ([F_int OPEN_FILE, F_str path] @ (if flag AND O_CREAT \<noteq> 0 then [F_int flag] else []) @ [F_u32 mode]) [] c
         (\<lambda>rs _ c1. do {
           (ret, rs1) \<leftarrow> pop_ret rs;
           if ret = SUCCESS then do {
             (p, c2) \<leftarrow> create_new_file rs1 (nat n) c1;
             Some (Ret (Some p), c2)
           } else Some (Ret None, set_errno (- ret) c1)
         })
     }"

definition opened_file :: "c_int \<Rightarrow> c_int \<Rightarrow> nat \<Rightarrow> opened_file_info" where
  "opened_file fd flag p = \<lparr>op_current_point = 0, op_fd = fd, op_flag = flag, op_meta = p\<rparr>"

text \<open>
  The part of \<^verbatim>\<open>_open\<close> after the file's meta data is there; the descriptor table has no entry
  for a free number.
\<close>

definition open_fid :: "c_int \<Rightarrow> c_int \<Rightarrow> nat \<Rightarrow> 'w client \<Rightarrow> (c_int \<times> 'w client) option" where
  "open_fid fid flag p c =
     do {
       let fd = fid_to_fd fid;
       c1 \<leftarrow> upd_meta p (\<lambda>m. m\<lparr>fm_open_count := fm_open_count m + 1\<rparr>) c;
       let c2 = c1\<lparr>cl_files := fst (map_insert fid (opened_file fd flag p) (cl_files c1))\<rparr>;
       c3 \<leftarrow> upd_meta p (\<lambda>m. m\<lparr>fm_opened_fd := set_insert fd (fm_opened_fd m)\<rparr>) c2;
       m \<leftarrow> deref_meta p c3;
       c4 \<leftarrow> (if flag AND O_APPEND \<noteq> 0 then upd_opened fid (\<lambda>f. f\<lparr>op_current_point := st_size (fm_stat m)\<rparr>) c3 else Some c3);
       Some (fd, set_errno 0 c4)
     }"

text \<open>The null pointer of a refused open is dereferenced.\<close>

definition client_open :: "'w server \<Rightarrow> string \<Rightarrow> c_int \<Rightarrow> mode_t \<Rightarrow> 'w client \<Rightarrow> (c_int, 'w) result" where
  "client_open srv path flag mode c =
     (let (fid, c1) = get_fid c in
      if fid = -1 then Some (Ret (-1), set_errno EMFILE c1)
      else case map_find path (cl_paths c) of
        Some p \<Rightarrow> do { (fd, c2) \<leftarrow> open_fid fid flag p c1; Some (Ret fd, c2) }
      | None \<Rightarrow> do {
          (r, c2) \<leftarrow> remote_open srv path flag mode c1;
          case r of
            Thrown \<Rightarrow> Some (Thrown, c2)
          | Ret None \<Rightarrow> None
          | Ret (Some p) \<Rightarrow> do {
              c3 \<leftarrow> upd_meta p (\<lambda>m. m\<lparr>fm_it := path\<rparr>) (c2\<lparr>cl_paths := fst (map_insert path p (cl_paths c2))\<rparr>);
              (fd, c4) \<leftarrow> open_fid fid flag p c3;
              Some (Ret fd, c4)
            }
        })"

section \<open>close\<close>

text \<open>The iterator of a file's meta data must still point to its entry.\<close>

definition meta_path :: "nat \<Rightarrow> 'w client \<Rightarrow> string option" where
  "meta_path p c = do { m \<leftarrow> deref_meta p c; if map_find (fm_it m) (cl_paths c) = Some p then Some (fm_it m) else None }"

definition delete_file_meta :: "nat \<Rightarrow> 'w client \<Rightarrow> 'w client option" where
  "delete_file_meta p c =
     do {
       c1 \<leftarrow> upd_meta p (\<lambda>m. m\<lparr>fm_open_count := fm_open_count m - 1\<rparr>) c;
       m \<leftarrow> deref_meta p c1;
       if fm_open_count m \<le> 0 then do {
         path \<leftarrow> meta_path p c1;
         Some (c1\<lparr>cl_paths := map_erase path (cl_paths c1), cl_metas := (cl_metas c1)(p := None)\<rparr>)
       } else Some c1
     }"

text \<open>The destructor of the table's entry removes the descriptor from the file's set.\<close>

definition delete_open_file :: "c_int \<Rightarrow> 'w client \<Rightarrow> 'w client option" where
  "delete_open_file fid c =
     do {
       f \<leftarrow> map_find fid (cl_files c);
       let c1 = c\<lparr>cl_opened := (cl_opened c)(fid := False), cl_files := map_erase fid (cl_files c)\<rparr>;
       c2 \<leftarrow> upd_meta (op_meta f) (\<lambda>m. m\<lparr>fm_opened_fd := set_erase (op_fd f) (fm_opened_fd m)\<rparr>) c1;
       delete_file_meta (op_meta f) c2
     }"

text \<open>
  The handle is looked up before the \<^verbatim>\<open>try\<close>, so that an unknown descriptor ends the process.
  \<open>fd_request\<close> is what \<^verbatim>\<open>_close\<close> and \<^verbatim>\<open>_flush\<close> share.
\<close>

definition fd_request :: "'w server \<Rightarrow> c_int \<Rightarrow> c_int \<Rightarrow> 'w client \<Rightarrow> ('w client \<Rightarrow> (c_int, 'w) result) \<Rightarrow> (c_int, 'w) result" where
  "fd_request srv code fd c k =
     do {
       f \<leftarrow> map_find (fd_to_fid fd) (cl_files c);
       m \<leftarrow> deref_meta (op_meta f) c;
       h \<leftarrow> get_master_handle m c;
       query srv h [F_int code, F_off (fm_remote_file_no m)] [] c (\<lambda>rs _ c1. do {
         (ret, _) \<leftarrow> pop_ret rs;
         if ret = SUCCESS then k c1 else Some (Ret (-1), set_errno (- ret) c1)
       })
     }"

definition client_close :: "'w server \<Rightarrow> c_int \<Rightarrow> 'w client \<Rightarrow> (c_int, 'w) result" where
  "client_close srv fd c =
     fd_request srv CLOSE_FILE fd c (\<lambda>c1. do { c2 \<leftarrow> delete_open_file (fd_to_fid fd) c1; Some (Ret 0, c2) })"

definition client_flush :: "'w server \<Rightarrow> c_int \<Rightarrow> 'w client \<Rightarrow> (c_int, 'w) result" where
  "client_flush srv fd c = fd_request srv FLUSH_FILE fd c (\<lambda>c1. Some (Ret 0, c1))"

text \<open>The result is the offset of the call, not the new position.\<close>

definition client_lseek :: "c_int \<Rightarrow> off64_t \<Rightarrow> c_int \<Rightarrow> 'w client \<Rightarrow> (off64_t \<times> 'w client) option" where
  "client_lseek fd offset whence c =
     (case map_find (fd_to_fid fd) (cl_files c) of
        None \<Rightarrow> Some (-1, set_errno EBADF c)
      | Some f \<Rightarrow> do {
          pos \<leftarrow> (if whence = SEEK_SET then Some offset
                 else if whence = SEEK_CUR then Some (op_current_point f + offset)
                 else if whence = SEEK_END then map_option (\<lambda>m. st_size (fm_stat m) + offset) (deref_meta (op_meta f) c)
                 else Some (op_current_point f));
          c1 \<leftarrow> upd_opened (fd_to_fid fd) (\<lambda>f. f\<lparr>op_current_point := pos\<rparr>) c;
          Some (offset, c1)
        })"

definition client_tell :: "c_int \<Rightarrow> 'w client \<Rightarrow> off64_t option" where
  "client_tell fd c = map_option op_current_point (map_find (fd_to_fid fd) (cl_files c))"

section \<open>Names\<close>

text \<open>
  The loop of \<^verbatim>\<open>remote_getattr\<close>, \<^verbatim>\<open>remote_access\<close> and \<^verbatim>\<open>_truncate\<close>: the first value of a response is the
  number of the master that has the file. With another number than the one asked the loop is
  meant to ask that master; its condition calls \<^verbatim>\<open>response_dequeue\<close>, whose result is 0, so that the
  loop ends with a response that has been released, and the second value is popped from it.
\<close>

definition master_query :: "'w server \<Rightarrow> string \<Rightarrow> field list \<Rightarrow> 'w client \<Rightarrow>
    (field list \<Rightarrow> 'w client \<Rightarrow> ('a, 'w) result) \<Rightarrow> ('a, 'w) result" where
  "master_query srv path msg c k =
     do {
       let n = get_master_number_from_path srv path c;
       h \<leftarrow> get_master_handle_from_master_number n c;
       query srv h msg [] c (\<lambda>rs _ c1. do {
         (n1, rs1) \<leftarrow> pop_ret rs;
         _ \<leftarrow> get_master_handle_from_master_number n1 c1;
         if n1 = n then k rs1 c1 else None
       })
     }"

text \<open>A reply that is one result: 0, or the error in \<^verbatim>\<open>errno\<close> and as the result.\<close>

definition reply_result :: "field list \<Rightarrow> 'w client \<Rightarrow> (c_int, 'w) result" where
  "reply_result rs c =
     do {
       (ret, _) \<leftarrow> pop_ret rs;
       if ret = SUCCESS then Some (Ret 0, c) else Some (Ret ret, set_errno (- ret) c)
     }"

definition remote_getattr :: "'w server \<Rightarrow> string \<Rightarrow> 'w client \<Rightarrow> (c_int \<times> stat option, 'w) result" where
  "remote_getattr srv path c =
     master_query srv path [F_int GET_ATTR, F_str path] c (\<lambda>rs c1. do {
       (ret, rs1) \<leftarrow> pop_ret rs;
       if ret = SUCCESS then do { (st, _) \<leftarrow> recv_stat rs1; Some (Ret (ret, Some st), c1) }
       else Some (Ret (ret, None), set_errno (- ret) c1)
     })"

definition get_local_attr :: "string \<Rightarrow> 'w client \<Rightarrow> (c_int \<times> stat option) option" where
  "get_local_attr path c =
     (case map_find path (cl_paths c) of
        None \<Rightarrow> Some (FAILURE, None)
      | Some p \<Rightarrow> do { m \<leftarrow> deref_meta p c; Some (SUCCESS, Some (fm_stat m)) })"

definition client_getattr :: "'w server \<Rightarrow> string \<Rightarrow> 'w client \<Rightarrow> (c_int \<times> stat option, 'w) result" where
  "client_getattr srv path c =
     do {
       (ret, st) \<leftarrow> get_local_attr path c;
       if ret = SUCCESS then Some (Ret (0, st), c) else remote_getattr srv path c
     }"

definition remote_access :: "'w server \<Rightarrow> string \<Rightarrow> c_int \<Rightarrow> 'w client \<Rightarrow> (c_int, 'w) result" where
  "remote_access srv path mode c =
     master_query srv path [F_int ACCESS, F_str path, F_int mode] c reply_result"

definition client_access :: "'w server \<Rightarrow> string \<Rightarrow> c_int \<Rightarrow> 'w client \<Rightarrow> (c_int, 'w) result" where
  "client_access srv path mode c =
     (if map_find path (cl_paths c) \<noteq> None then Some (Ret 0, c) else remote_access srv path mode c)"

text \<open>
  The response is bound to a variable inside the loop that hides the one used after it, which is
  still null.
\<close>

definition remote_stat :: "'w server \<Rightarrow> string \<Rightarrow> 'w client \<Rightarrow> (c_int \<times> stat, 'w) result" where
  "remote_stat srv path c =
     do {
       let n = get_master_number_from_path srv path c;
       h \<leftarrow> get_master_handle_from_master_number n c;
       query srv h [F_int GET_FILE_META, F_str path] [] c (\<lambda>_ _ _. None)
     }"

definition path_request :: "'w server \<Rightarrow> string \<Rightarrow> field list \<Rightarrow> 'w client \<Rightarrow>
    (field list \<Rightarrow> 'w client \<Rightarrow> (c_int, 'w) result) \<Rightarrow> (c_int, 'w) result" where
  "path_request srv path msg c k =
     do {
       h \<leftarrow> get_master_handle_from_master_number (get_master_number_from_path srv path c) c;
       query srv h msg [] c (\<lambda>rs _ c1. k rs c1)
     }"

definition client_rmdir :: "'w server \<Rightarrow> string \<Rightarrow> 'w client \<Rightarrow> (c_int, 'w) result" where
  "client_rmdir srv path c = path_request srv path [F_int RM_DIR, F_str path] c reply_result"

definition client_mkdir :: "'w server \<Rightarrow> string \<Rightarrow> mode_t \<Rightarrow> 'w client \<Rightarrow> (c_int, 'w) result" where
  "client_mkdir srv path mode c = path_request srv path [F_int MKDIR, F_str path, F_u32 mode] c reply_result"

text \<open>
  The loop over the file's descriptors. A close that succeeds erases the element the iterator
  points to, and the next step of the loop uses it.
\<close>

fun close_local_loop :: "'w server \<Rightarrow> nat \<Rightarrow> c_int list \<Rightarrow> 'w client \<Rightarrow> (unit, 'w) result" where
  "close_local_loop srv p [] c = Some (Ret (), c)"
| "close_local_loop srv p (fd # fds) c =
     do {
       (r, c1) \<leftarrow> client_close srv fd c;
       case r of
         Thrown \<Rightarrow> Some (Thrown, c1)
       | Ret ret \<Rightarrow>
           if ret = 0 then None
           else do {
             c2 \<leftarrow> upd_meta p (\<lambda>m. m\<lparr>fm_open_count := fm_open_count m - 1\<rparr>) c1;
             close_local_loop srv p fds c2
           }
     }"

definition close_local_opened_file :: "'w server \<Rightarrow> string \<Rightarrow> 'w client \<Rightarrow> (c_int, 'w) result" where
  "close_local_opened_file srv path c =
     (case map_find path (cl_paths c) of
        None \<Rightarrow> Some (Ret (-1), c)
      | Some p \<Rightarrow> do {
          m \<leftarrow> deref_meta p c;
          (r, c1) \<leftarrow> close_local_loop srv p (fm_opened_fd m) c;
          case r of
            Thrown \<Rightarrow> Some (Thrown, c1)
          | Ret _ \<Rightarrow> do { c2 \<leftarrow> delete_file_meta p c1; Some (Ret 0, c2) }
        })"

definition client_unlink :: "'w server \<Rightarrow> string \<Rightarrow> 'w client \<Rightarrow> (c_int, 'w) result" where
  "client_unlink srv path c =
     path_request srv path [F_int UNLINK, F_str path] c (\<lambda>rs c1. do {
       (ret, _) \<leftarrow> pop_ret rs;
       if ret = SUCCESS then do {
         (r, c2) \<leftarrow> close_local_opened_file srv path c1;
         Some (case r of Thrown \<Rightarrow> Thrown | Ret _ \<Rightarrow> Ret 0, c2)
       } else Some (Ret ret, set_errno (- ret) c1)
     })"

text \<open>
  Without a change of the master the new name replaces the old one. An entry that the new name
  has already is kept, and the file's own entry is lost. The answer of the old master to a
  migration is not looked at.
\<close>

definition rename_local :: "string \<Rightarrow> string \<Rightarrow> 'w client \<Rightarrow> 'w client option" where
  "rename_local old_name new_name c =
     (case map_find old_name (cl_paths c) of
        None \<Rightarrow> Some c
      | Some p \<Rightarrow> do {
          let paths = map_erase old_name (fst (map_insert new_name p (cl_paths c)));
          q \<leftarrow> map_find new_name paths;
          upd_meta q (\<lambda>m. m\<lparr>fm_it := new_name\<rparr>) (c\<lparr>cl_paths := paths\<rparr>)
        })"

definition client_rename :: "'w server \<Rightarrow> string \<Rightarrow> string \<Rightarrow> 'w client \<Rightarrow> (c_int, 'w) result" where
  "client_rename srv old_name new_name c =
     do {
       let new_n = get_master_number_from_path srv new_name c;
       let old_n = get_master_number_from_path srv old_name c;
       old_h \<leftarrow> get_master_handle_from_master_number old_n c;
       new_h \<leftarrow> get_master_handle_from_master_number new_n c;
       c1 \<leftarrow> rename_local old_name new_name c;
       if new_n = old_n
       then query srv old_h [F_int RENAME, F_str old_name, F_str new_name, F_int MYSELF] [] c1 (\<lambda>rs _ c2. reply_result rs c2)
       else query srv old_h [F_int RENAME, F_str old_name, F_str new_name, F_int new_n] [] c1 (\<lambda>rs _ c2. do {
              _ \<leftarrow> pop_ret rs;
              query srv new_h [F_int RENAME_MIGRATING, F_str new_name, F_int old_n] [] c2 (\<lambda>rs1 _ c3. reply_result rs1 c3)
            })
     }"

definition client_truncate :: "'w server \<Rightarrow> string \<Rightarrow> off64_t \<Rightarrow> 'w client \<Rightarrow> (c_int, 'w) result" where
  "client_truncate srv path sz c =
     master_query srv path [F_int TRUNCATE, F_str path, F_off sz] c reply_result"

definition client_ftruncate :: "'w server \<Rightarrow> c_int \<Rightarrow> off64_t \<Rightarrow> 'w client \<Rightarrow> (c_int, 'w) result" where
  "client_ftruncate srv fd sz c =
     do {
       f \<leftarrow> map_find (fd_to_fid fd) (cl_files c);
       c1 \<leftarrow> upd_meta (op_meta f) (\<lambda>m. m\<lparr>fm_stat := (fm_stat m)\<lparr>st_size := sz\<rparr>\<rparr>) c;
       (_, c2) \<leftarrow> update_access_time srv fd c1;
       path \<leftarrow> meta_path (op_meta f) c2;
       client_truncate srv path sz c2
     }"

section \<open>Directories\<close>

text \<open>
  One buffer takes the listings of all masters. Each listing is copied to the start of the
  buffer; the read position goes on from where the previous master's listing ended.
\<close>

fun readdir_loop :: "'w server \<Rightarrow> string \<Rightarrow> SCBB list \<Rightarrow> string_buf \<Rightarrow> 'w client \<times> string list \<Rightarrow>
    (c_int outcome \<times> 'w client \<times> string list) option" where
  "readdir_loop srv path [] files (c, dir) = Some (Ret 0, c, dir)"
| "readdir_loop srv path (scbb # l) files (c, dir) =
     (case get_query_response srv (sc_master scbb) [F_int READ_DIR, F_str path] [] c of
        (Thrown, c1) \<Rightarrow> Some (Thrown, c1, dir)
      | (Ret (rs, d), c1) \<Rightarrow> do {
          (ret, rs1) \<leftarrow> pop_ret rs;
          if ret = SUCCESS then do {
            (count, _) \<leftarrow> pop_ret rs1;
            (names, files1) \<leftarrow> string_buf_pop_strings (nat count) (files\<lparr>str_bytes := put_bytes 0 d (str_bytes files)\<rparr>);
            readdir_loop srv path l files1 (c1, fold set_insert names dir)
          } else Some (Ret ret, set_errno (- ret) c1, dir)
        })"

text \<open>\<open>garbage\<close> is what the new buffer holds.\<close>

definition client_readdir :: "'w server \<Rightarrow> (nat \<Rightarrow> byte) \<Rightarrow> string \<Rightarrow> 'w client \<times> string list \<Rightarrow>
    (c_int outcome \<times> 'w client \<times> string list) option" where
  "client_readdir srv garbage path st =
     readdir_loop srv path (cl_masters (fst st))
       \<lparr>str_bytes = garbage, str_total = MAX_EXTENDED_MESSAGE_SIZE, str_cur = 0\<rparr> st"

section \<open>The public operations\<close>

definition CBB_open :: "'w server \<Rightarrow> string \<Rightarrow> c_int \<Rightarrow> mode_t \<Rightarrow> 'w client \<Rightarrow> (c_int \<times> 'w client) option" where
  "CBB_open srv path flag mode = retry CBB_COMM_RETRY FAILURE (client_open srv path flag mode)"

definition CBB_read :: "'w server \<Rightarrow> c_int \<Rightarrow> size_t \<Rightarrow> 'w client \<Rightarrow> ((ssize_t \<times> byte list) \<times> 'w client) option" where
  "CBB_read srv fd sz = retry CBB_COMM_RETRY (FAILURE, []) (client_read srv fd sz)"

definition CBB_write :: "'w server \<Rightarrow> c_int \<Rightarrow> byte list \<Rightarrow> 'w client \<Rightarrow> (ssize_t \<times> 'w client) option" where
  "CBB_write srv fd buf = retry CBB_COMM_RETRY FAILURE (client_write srv fd buf)"

definition CBB_close :: "'w server \<Rightarrow> c_int \<Rightarrow> 'w client \<Rightarrow> (c_int \<times> 'w client) option" where
  "CBB_close srv fd = retry CBB_COMM_RETRY FAILURE (client_close srv fd)"

definition CBB_flush :: "'w server \<Rightarrow> c_int \<Rightarrow> 'w client \<Rightarrow> (c_int \<times> 'w client) option" where
  "CBB_flush srv fd = retry CBB_COMM_RETRY FAILURE (client_flush srv fd)"

definition CBB_getattr :: "'w server \<Rightarrow> string \<Rightarrow> 'w client \<Rightarrow> ((c_int \<times> stat option) \<times> 'w client) option" where
  "CBB_getattr srv path = retry CBB_COMM_RETRY (FAILURE, None) (client_getattr srv path)"

definition CBB_readdir :: "'w server \<Rightarrow> (nat \<Rightarrow> byte) \<Rightarrow> string \<Rightarrow> 'w client \<times> string list \<Rightarrow>
    (c_int \<times> 'w client \<times> string list) option" where
  "CBB_readdir srv garbage path = retry CBB_COMM_RETRY FAILURE (client_readdir srv garbage path)"

definition CBB_unlink :: "'w server \<Rightarrow> string \<Rightarrow> 'w client \<Rightarrow> (c_int \<times> 'w client) option" where
  "CBB_unlink srv path = retry CBB_COMM_RETRY FAILURE (client_unlink srv path)"

text \<open>\<^verbatim>\<open>rmdir\<close> and \<^verbatim>\<open>truncate\<close> start from 0: when no attempt succeeds they report success.\<close>

definition CBB_rmdir :: "'w server \<Rightarrow> string \<Rightarrow> 'w client \<Rightarrow> (c_int \<times> 'w client) option" where
  "CBB_rmdir srv path = retry CBB_COMM_RETRY 0 (client_rmdir srv path)"

definition CBB_access :: "'w server \<Rightarrow> string \<Rightarrow> c_int \<Rightarrow> 'w client \<Rightarrow> (c_int \<times> 'w client) option" where
  "CBB_access srv path mode = retry CBB_COMM_RETRY FAILURE (client_access srv path mode)"

definition CBB_stat :: "'w server \<Rightarrow> string \<Rightarrow> 'w client \<Rightarrow> ((c_int \<times> stat) \<times> 'w client) option" where
  "CBB_stat srv path = retry CBB_COMM_RETRY (FAILURE, zero_stat) (remote_stat srv path)"

definition CBB_rename :: "'w server \<Rightarrow> string \<Rightarrow> string \<Rightarrow> 'w client \<Rightarrow> (c_int \<times> 'w client) option" where
  "CBB_rename srv old_name new_name = retry CBB_COMM_RETRY FAILURE (client_rename srv old_name new_name)"

definition CBB_mkdir :: "'w server \<Rightarrow> string \<Rightarrow> mode_t \<Rightarrow> 'w client \<Rightarrow> (c_int \<times> 'w client) option" where
  "CBB_mkdir srv path mode = retry CBB_COMM_RETRY FAILURE (client_mkdir srv path mode)"

definition CBB_truncate :: "'w server \<Rightarrow> string \<Rightarrow> off64_t \<Rightarrow> 'w client \<Rightarrow> (c_int \<times> 'w client) option" where
  "CBB_truncate srv path sz = retry CBB_COMM_RETRY 0 (client_truncate srv path sz)"

definition CBB_ftruncate :: "'w server \<Rightarrow> c_int \<Rightarrow> off64_t \<Rightarrow> 'w client \<Rightarrow> (c_int \<times> 'w client) option" where
  "CBB_ftruncate srv fd sz = retry CBB_COMM_RETRY FAILURE (client_ftruncate srv fd sz)"

section \<open>Shutdown\<close>

text \<open>An exception in the destructor ends the process.\<close>

fun destroy_files :: "'w server \<Rightarrow> (c_int, opened_file_info) std_map \<Rightarrow> 'w client \<Rightarrow> 'w client option" where
  "destroy_files srv [] c = Some c"
| "destroy_files srv ((_, f) # l) c =
     do {
       m \<leftarrow> deref_meta (op_meta f) c;
       h \<leftarrow> get_master_handle m c;
       case get_query_response srv h [F_int CLOSE_FILE, F_off (fm_remote_file_no m)] [] c of
         (Thrown, _) \<Rightarrow> None
       | (Ret (rs, _), c1) \<Rightarrow> do { _ \<leftarrow> pop_ret rs; destroy_files srv l c1 }
     }"

fun destroy_connections :: "'w server \<Rightarrow> SCBB list \<Rightarrow> 'w client \<Rightarrow> 'w client" where
  "destroy_connections srv [] c = c"
| "destroy_connections srv (scbb # l) c =
     destroy_connections srv l
       (fold (\<lambda>(_, h). post srv h [F_int CLOSE_CLIENT]) (sc_IOnodes scbb) (post srv (sc_master scbb) [F_int CLOSE_CLIENT] c))"

definition client_destroy :: "'w server \<Rightarrow> 'w client \<Rightarrow> 'w client option" where
  "client_destroy srv c =
     do { c1 \<leftarrow> destroy_files srv (cl_files c) c; Some (destroy_connections srv (cl_masters c1) c1) }"

end
