(* ===== verification/Client_Invariant.thy ===== *)
theory Client_Invariant
  imports Client_Files
begin

text \<open>
  The tables of the client: descriptors, files and paths agree in every state the public
  operations reach, whatever the servers answer and wherever a connection breaks.
\<close>

section \<open>The invariant\<close>

definition meta_ok :: "'w client \<Rightarrow> nat \<Rightarrow> file_meta \<Rightarrow> bool" where
  "meta_ok c p m \<longleftrightarrow> p < cl_fresh c \<and> sorted_wrt (<) (fm_opened_fd m) \<and> fm_open_count m = int (length (fm_opened_fd m)) \<and>
     set (fm_opened_fd m) = {op_fd f |fid f. map_find fid (cl_files c) = Some f \<and> op_meta f = p}"

definition client_inv :: "'w client \<Rightarrow> bool" where
  "client_inv c \<longleftrightarrow> map_inv (cl_files c) \<and> map_inv (cl_paths c) \<and> 0 \<le> cl_fid_now c \<and> cl_fid_now c < MAX_FILE \<and>
     (\<forall>fid f. map_find fid (cl_files c) = Some f \<longrightarrow>
        0 \<le> fid \<and> fid < MAX_FILE \<and> cl_opened c fid \<and> op_fd f = fid_to_fd fid \<and> cl_metas c (op_meta f) \<noteq> None) \<and>
     (\<forall>path p. map_find path (cl_paths c) = Some p \<longrightarrow> (\<exists>m. cl_metas c p = Some m \<and> fm_it m = path)) \<and>
     (\<forall>p m. cl_metas c p = Some m \<longrightarrow> meta_ok c p m)"

lemma client_invD:
  assumes "client_inv c"
  shows "map_inv (cl_files c)" "map_inv (cl_paths c)" "0 \<le> cl_fid_now c" "cl_fid_now c < MAX_FILE"
    and "map_find fid (cl_files c) = Some f \<Longrightarrow> 0 \<le> fid \<and> fid < MAX_FILE \<and> cl_opened c fid \<and> op_fd f = fid_to_fd fid"
    and "map_find fid (cl_files c) = Some f \<Longrightarrow> cl_metas c (op_meta f) \<noteq> None"
    and "map_find path (cl_paths c) = Some p \<Longrightarrow> \<exists>m. cl_metas c p = Some m \<and> fm_it m = path"
    and "cl_metas c p = Some m \<Longrightarrow> meta_ok c p m"
  using assms unfolding client_inv_def by blast+

text \<open>What the invariant reads of a client.\<close>

definition meta_shape :: "file_meta \<Rightarrow> c_int \<times> int list \<times> string" where
  "meta_shape m = (fm_open_count m, fm_opened_fd m, fm_it m)"

definition file_shape :: "opened_file_info \<Rightarrow> c_int \<times> nat" where
  "file_shape f = (op_fd f, op_meta f)"

definition same_shape :: "'w client \<Rightarrow> 'w client \<Rightarrow> bool" where
  "same_shape c c' \<longleftrightarrow> cl_opened c' = cl_opened c \<and> cl_fid_now c' = cl_fid_now c \<and> cl_paths c' = cl_paths c \<and> cl_fresh c' = cl_fresh c \<and>
     (map_inv (cl_files c) \<longrightarrow> map_inv (cl_files c')) \<and>
     (\<forall>fid. map_option file_shape (map_find fid (cl_files c')) = map_option file_shape (map_find fid (cl_files c))) \<and>
     (\<forall>p. map_option meta_shape (cl_metas c' p) = map_option meta_shape (cl_metas c p))"

lemma same_shape_refl [simp]: "same_shape c c"
  by (simp add: same_shape_def)

lemma same_shape_trans: "same_shape c c' \<Longrightarrow> same_shape c' c'' \<Longrightarrow> same_shape c c''"
  by (simp add: same_shape_def)

lemma map_option_same: "map_option h x = map_option h y \<Longrightarrow> x = Some a \<Longrightarrow> \<exists>b. y = Some b \<and> h b = h a"
  by (cases y) auto

lemma shape_find:
  assumes "same_shape c c'"
  shows "map_find fid (cl_files c') = Some f \<Longrightarrow> \<exists>g. map_find fid (cl_files c) = Some g \<and> op_fd g = op_fd f \<and> op_meta g = op_meta f"
    and "map_find fid (cl_files c) = Some f \<Longrightarrow> \<exists>g. map_find fid (cl_files c') = Some g \<and> op_fd g = op_fd f \<and> op_meta g = op_meta f"
    and "cl_metas c' p = Some m \<Longrightarrow> \<exists>l. cl_metas c p = Some l \<and> meta_shape l = meta_shape m"
    and "cl_metas c p = Some m \<Longrightarrow> \<exists>l. cl_metas c' p = Some l \<and> meta_shape l = meta_shape m"
proof -
  have f: "map_option file_shape (map_find fid (cl_files c')) = map_option file_shape (map_find fid (cl_files c))"
    and m: "map_option meta_shape (cl_metas c' p) = map_option meta_shape (cl_metas c p)" using assms by (simp_all add: same_shape_def)
  show "map_find fid (cl_files c') = Some f \<Longrightarrow> \<exists>g. map_find fid (cl_files c) = Some g \<and> op_fd g = op_fd f \<and> op_meta g = op_meta f"
    using map_option_same [OF f] by (simp add: file_shape_def)
  show "map_find fid (cl_files c) = Some f \<Longrightarrow> \<exists>g. map_find fid (cl_files c') = Some g \<and> op_fd g = op_fd f \<and> op_meta g = op_meta f"
    using map_option_same [OF f [symmetric]] by (simp add: file_shape_def)
  show "cl_metas c' p = Some m \<Longrightarrow> \<exists>l. cl_metas c p = Some l \<and> meta_shape l = meta_shape m" using map_option_same [OF m] .
  show "cl_metas c p = Some m \<Longrightarrow> \<exists>l. cl_metas c' p = Some l \<and> meta_shape l = meta_shape m" using map_option_same [OF m [symmetric]] .
qed

lemma client_inv_shape:
  assumes "client_inv c" "same_shape c c'"
  shows "client_inv c'"
proof -
  note f = shape_find [OF assms(2)]
  have s: "cl_opened c' = cl_opened c" "cl_fid_now c' = cl_fid_now c" "cl_paths c' = cl_paths c" "cl_fresh c' = cl_fresh c" "map_inv (cl_files c')"
    using assms by (auto simp: same_shape_def client_inv_def)
  have files: "{op_fd f |fid f. map_find fid (cl_files c') = Some f \<and> op_meta f = p} = {op_fd f |fid f. map_find fid (cl_files c) = Some f \<and> op_meta f = p}" for p
    using f(1,2) by (auto, metis, metis)
  have mo: "meta_ok c' p m" if "cl_metas c' p = Some m" for p m
  proof -
    from f(3) [OF that] obtain l where l: "cl_metas c p = Some l" "meta_shape l = meta_shape m" by blast
    from client_invD(8) [OF assms(1) l(1)] have "meta_ok c p l" .
    moreover have "fm_open_count l = fm_open_count m" "fm_opened_fd l = fm_opened_fd m" using l(2) by (simp_all add: meta_shape_def)
    ultimately show ?thesis unfolding meta_ok_def files s(4) by simp
  qed
  have fi: "0 \<le> fid \<and> fid < MAX_FILE \<and> cl_opened c fid \<and> op_fd h = fid_to_fd fid \<and> cl_metas c' (op_meta h) \<noteq> None"
    if "map_find fid (cl_files c') = Some h" for fid h
  proof -
    from f(1) [OF that] obtain g where g: "map_find fid (cl_files c) = Some g" "op_fd g = op_fd h" "op_meta g = op_meta h" by blast
    show ?thesis using client_invD(5,6) [OF assms(1) g(1)] g(2,3) f(4) by auto
  qed
  have pa: "\<exists>m. cl_metas c' p = Some m \<and> fm_it m = path" if "map_find path (cl_paths c) = Some p" for path p
  proof -
    from client_invD(7) [OF assms(1) that] obtain m where "cl_metas c p = Some m" "fm_it m = path" by blast
    then show ?thesis using f(4) [of p m] by (auto simp: meta_shape_def)
  qed
  show ?thesis using assms(1) s fi mo pa by (simp add: client_inv_def)
qed

section \<open>Operations that keep the shape\<close>

lemma shape_world [simp]: "same_shape c (c\<lparr>cl_world := w\<rparr>)" "same_shape c (set_errno e c)" "same_shape c (c\<lparr>cl_masters := ms\<rparr>)"
  by (simp_all add: same_shape_def set_errno_def)

lemma shape_upd_meta: "upd_meta p g c = Some c' \<Longrightarrow> (\<And>m. meta_shape (g m) = meta_shape m) \<Longrightarrow> same_shape c c'"
  by (auto simp: upd_meta_def deref_meta_def bind_eq_Some_conv same_shape_def)

lemma shape_upd_opened:
  assumes "upd_opened fid g c = Some c'" "\<And>f. file_shape (g f) = file_shape f"
  shows "same_shape c c'"
proof -
  from assms(1) obtain f where "map_find fid (cl_files c) = Some f" "c' = c\<lparr>cl_files := map_set fid (g f) (cl_files c)\<rparr>"
    by (auto simp: upd_opened_def bind_eq_Some_conv)
  then show ?thesis using assms(2) by (auto simp: same_shape_def)
qed

lemma shape_upd_SCBB: "upd_SCBB i g c = Some c' \<Longrightarrow> same_shape c c'"
  by (auto simp: upd_SCBB_def bind_eq_Some_conv)

lemma shape_response: "get_query_response srv h msg d c = (r, c') \<Longrightarrow> same_shape c c'"
  by (auto simp: get_query_response_def report_IOnode_failure_def post_def same_shape_def split: prod.splits option.splits)

lemma shape_query:
  assumes "query srv h msg d c k = Some (r, c')" "\<And>rs d c1. same_shape c c1 \<Longrightarrow> k rs d c1 = Some (r, c') \<Longrightarrow> same_shape c c'"
  shows "same_shape c c'"
  using assms by (auto simp: query_def dest!: shape_response split: prod.splits outcome.splits)

text \<open>An operation that goes on with the result of another one unless that threw.\<close>

lemma bind_outcomeE:
  assumes "X \<bind> (\<lambda>(r, c1). case r of Ret v \<Rightarrow> K v c1 | Thrown \<Rightarrow> Some (Thrown, c1)) = Some (r', c')"
  obtains (thrown) "X = Some (Thrown, c')" | (ret) v c1 where "X = Some (Ret v, c1)" "K v c1 = Some (r', c')"
  using assms by (cases X) (auto split: outcome.splits)

lemma shape_IO_query:
  assumes "IO_query srv h msg d c = Some (r, c')"
  shows "same_shape c c'"
proof -
  from assms obtain y where y: "h = Some y" by (cases h) (auto simp: IO_query_def)
  obtain q c1 where q: "get_query_response srv y msg d c = (q, c1)" by (cases "get_query_response srv y msg d c")
  have "c' = c1" using assms y q by (cases q) (auto simp: IO_query_def bind_eq_Some_conv)
  then show ?thesis using shape_response [OF q] by simp
qed

lemma shape_read_loop:
  assumes "read_IOnode_loop srv n bl h st pos sz buf c = Some r"
  shows "same_shape c (snd r)"
  using assms
proof (rule read_IOnode_loop.raw_induct [where P = "\<lambda>srv n bl h st pos sz buf c r. same_shape c (snd r)", rotated])
  fix loop :: "'w server \<Rightarrow> _" and srv n bl h st pos sz buf c r
  assume IH: "\<And>srv n bl h st pos sz buf c r. loop srv n bl h st pos sz buf c = Some r \<Longrightarrow> same_shape c (snd r)"
    and b: "(if 0 < sz then IO_query srv h [F_int READ_FILE, F_off n, F_off st, F_off (pos - st), F_size (min sz (int MAX_TRANSFER_SIZE))] [] c \<bind>
        (\<lambda>(r, c1). case r of Moved d \<Rightarrow> loop srv n bl h (find_start_point bl st (int (length d))) (pos + int (length d)) (u64 (sz - int (length d))) (buf @ d) c1
          | Again \<Rightarrow> loop srv n bl h st pos sz buf c1 | Broken \<Rightarrow> Some (Thrown, c1)) else Some (Ret buf, c)) = Some r"
  show "same_shape c (snd r)"
  proof (cases "0 < sz")
    case True
    with b obtain q c1 where q: "IO_query srv h [F_int READ_FILE, F_off n, F_off st, F_off (pos - st), F_size (min sz (int MAX_TRANSFER_SIZE))] [] c = Some (q, c1)"
      "(case q of Moved d \<Rightarrow> loop srv n bl h (find_start_point bl st (int (length d))) (pos + int (length d)) (u64 (sz - int (length d))) (buf @ d) c1
          | Again \<Rightarrow> loop srv n bl h st pos sz buf c1 | Broken \<Rightarrow> Some (Thrown, c1)) = Some r" by (auto simp: bind_eq_Some_conv)
    have "same_shape c1 (snd r)" using q(2) IH by (cases q) auto
    then show ?thesis using shape_IO_query [OF q(1)] same_shape_trans by blast
  qed (use b in auto)
qed

lemma shape_write_loop:
  assumes "write_IOnode_loop srv n bl h st pos buf ans c = Some r"
  shows "same_shape c (snd r)"
  using assms
proof (rule write_IOnode_loop.raw_induct [where P = "\<lambda>srv n bl h st pos buf ans c r. same_shape c (snd r)", rotated])
  fix loop :: "'w server \<Rightarrow> _" and srv n bl h st pos buf ans c r
  assume IH: "\<And>srv n bl h st pos buf ans c r. loop srv n bl h st pos buf ans c = Some r \<Longrightarrow> same_shape c (snd r)"
    and b: "(if buf \<noteq> [] then let k = min (length buf) MAX_TRANSFER_SIZE in
        IO_query srv h [F_int WRITE_FILE, F_off n, F_off st, F_off (pos - st), F_size (int k)] (take k buf) c \<bind>
        (\<lambda>(r, c1). case r of Moved d \<Rightarrow> loop srv n bl h (find_start_point bl st (int k)) (pos + int k) (drop k buf) (ans + int k) c1
          | Again \<Rightarrow> loop srv n bl h st pos buf ans c1 | Broken \<Rightarrow> Some (Thrown, c1)) else Some (Ret ans, c)) = Some r"
  show "same_shape c (snd r)"
  proof (cases "buf = []")
    case False
    define k where "k = min (length buf) MAX_TRANSFER_SIZE"
    from False b obtain q c1 where q: "IO_query srv h [F_int WRITE_FILE, F_off n, F_off st, F_off (pos - st), F_size (int k)] (take k buf) c = Some (q, c1)"
      "(case q of Moved d \<Rightarrow> loop srv n bl h (find_start_point bl st (int k)) (pos + int k) (drop k buf) (ans + int k) c1
          | Again \<Rightarrow> loop srv n bl h st pos buf ans c1 | Broken \<Rightarrow> Some (Thrown, c1)) = Some r"
      by (auto simp: bind_eq_Some_conv Let_def k_def [symmetric])
    have "same_shape c1 (snd r)" using q(2) IH by (cases q) auto
    then show ?thesis using shape_IO_query [OF q(1)] same_shape_trans by blast
  qed (use b in auto)
qed

lemma shape_handle: "get_IOnode_handle srv k i ip c = Some (r, c') \<Longrightarrow> same_shape c c'"
  by (auto simp: get_IOnode_handle_def bind_eq_Some_conv dest!: shape_upd_SCBB split: option.splits prod.splits if_splits
      intro: same_shape_trans [OF shape_world(1)])

lemma shape_nodes: "parse_nodes srv k p m rs pool c = Some (r, c') \<Longrightarrow> same_shape c c'"
proof (induction srv k p m rs pool c rule: parse_nodes.induct)
  case (2 srv k p m rs pool c)
  from 2(2) obtain i uri rest h c1 where c1: "get_IOnode_handle srv k i uri c = Some (h, c1)" "rs = F_off i # F_str uri # rest"
    "(case h of Thrown \<Rightarrow> Some (Thrown, c1)
        | Ret h \<Rightarrow> upd_meta p (\<lambda>m. m\<lparr>fm_IOnodes := set_insert i (fm_IOnodes m)\<rparr>) c1 \<bind> parse_nodes srv k p m rest (fst (map_insert i h pool))) = Some (r, c')"
    by (auto simp: bind_eq_Some_conv split: list.splits field.splits)
  show ?case
  proof (cases h)
    case (Ret x)
    with c1(3) obtain c2 where c2: "upd_meta p (\<lambda>m. m\<lparr>fm_IOnodes := set_insert i (fm_IOnodes m)\<rparr>) c1 = Some c2"
      "parse_nodes srv k p m rest (fst (map_insert i x pool)) c2 = Some (r, c')" by (auto simp: bind_eq_Some_conv)
    have "same_shape c2 c'" using "2.IH" c1(1,2) Ret c2 by blast
    moreover have "same_shape c1 c2" by (rule shape_upd_meta [OF c2(1)]) (simp add: meta_shape_def)
    ultimately show ?thesis using shape_handle [OF c1(1)] same_shape_trans by blast
  qed (use c1 shape_handle in auto)
qed simp

lemma shape_block_list: "parse_block_list p m rs bl c = Some (a, b, c') \<Longrightarrow> same_shape c c'"
proof (induction p m rs bl c rule: parse_block_list.induct)
  case (2 p m rs bl c)
  from 2(2) obtain st sz rest c1 where c1: "rs = F_off st # F_size sz # rest"
    "(if cl_using_cache c then upd_meta p (\<lambda>m. m\<lparr>fm_blocks := fst (map_insert st sz (fm_blocks m))\<rparr>) c else Some c) = Some c1"
    "parse_block_list p m rest (fst (map_insert st sz bl)) c1 = Some (a, b, c')"
    by (auto simp: bind_eq_Some_conv split: list.splits field.splits)
  have "same_shape c c1" using c1(2) by (auto split: if_splits intro!: shape_upd_meta simp: meta_shape_def)
  moreover have "same_shape c1 c'" using "2.IH" c1 by blast
  ultimately show ?case by (rule same_shape_trans)
qed simp

lemma shape_parse:
  assumes "parse_blocks_from_master srv k p rs bl pool c = Some (r, c')"
  shows "same_shape c c'"
proof -
  from assms obtain m rs1 where m: "pop_ret rs = Some (m, rs1)" by (auto simp: parse_blocks_from_master_def bind_eq_Some_conv)
  from assms m have "parse_nodes srv k p (nat m) rs1 pool c \<bind> (\<lambda>(r, c1). case r of Ret v \<Rightarrow>
      (\<lambda>(rs2, pool1) c1. do { (count2, rs3) \<leftarrow> pop_ret rs2; (_, bl1, c2) \<leftarrow> parse_block_list p (nat count2) rs3 bl c1; Some (Ret (bl1, pool1), c2) }) v c1
      | Thrown \<Rightarrow> Some (Thrown, c1)) = Some (r, c')"
    by (simp add: parse_blocks_from_master_def) (auto simp: bind_eq_Some_conv split: outcome.splits)
  then show ?thesis
  proof (cases rule: bind_outcomeE)
    case (ret v c1)
    then have "same_shape c1 c'" by (auto simp: bind_eq_Some_conv dest!: shape_block_list split: prod.splits)
    then show ?thesis using shape_nodes [OF ret(1)] same_shape_trans by blast
  qed (rule shape_nodes)
qed

lemma shape_file_size: "update_file_size_from_master rs p c = Some (rs', c') \<Longrightarrow> same_shape c c'"
  by (auto simp: update_file_size_from_master_def bind_eq_Some_conv meta_shape_def split: list.splits field.splits elim!: shape_upd_meta)

lemma shape_access_time: "update_access_time srv fd c = Some (r, c') \<Longrightarrow> same_shape c c'"
  by (auto simp: update_access_time_def bind_eq_Some_conv meta_shape_def Let_def split: option.splits elim!: shape_upd_meta)

text \<open>The same for an operation, whatever its result.\<close>

definition keeps :: "'w client \<Rightarrow> ('a \<times> 'w client) option \<Rightarrow> bool" where
  "keeps c X \<longleftrightarrow> (\<forall>r c'. X = Some (r, c') \<longrightarrow> same_shape c c')"

lemma keepsI: "(\<And>r c'. X = Some (r, c') \<Longrightarrow> same_shape c c') \<Longrightarrow> keeps c X"
  by (simp add: keeps_def)

lemma keepsD: "keeps c X \<Longrightarrow> X = Some (r, c') \<Longrightarrow> same_shape c c'"
  by (simp add: keeps_def)

lemma keeps_None [simp]: "keeps c None"
  by (simp add: keeps_def)

lemma keeps_Some [simp]: "keeps c (Some (r, c')) \<longleftrightarrow> same_shape c c'"
  by (simp add: keeps_def)

lemma keeps_bind: "keeps c X \<Longrightarrow> (\<And>r c1. same_shape c c1 \<Longrightarrow> keeps c1 (K (r, c1))) \<Longrightarrow> keeps c (X \<bind> K)"
  by (auto simp: keeps_def bind_eq_Some_conv intro: same_shape_trans)

lemma keeps_bind_client: "(\<And>c1. X = Some c1 \<Longrightarrow> same_shape c c1) \<Longrightarrow> (\<And>c1. X = Some c1 \<Longrightarrow> keeps c1 (K c1)) \<Longrightarrow> keeps c (X \<bind> K)"
  by (auto simp: keeps_def bind_eq_Some_conv intro: same_shape_trans)

lemma keeps_bind_pure: "(\<And>x. X = Some x \<Longrightarrow> keeps c (K x)) \<Longrightarrow> keeps c (X \<bind> K)"
  by (auto simp: keeps_def bind_eq_Some_conv)

lemma keeps_then: "same_shape c c1 \<Longrightarrow> keeps c1 X \<Longrightarrow> keeps c X"
  by (auto simp: keeps_def intro: same_shape_trans)

lemma keeps_query: "(\<And>rs d c1. keeps c1 (k rs d c1)) \<Longrightarrow> keeps c (query srv h msg d c k)"
  by (rule keepsI, erule shape_query) (auto simp: keeps_def intro: same_shape_trans)

lemma keeps_file_size: "keeps c (update_file_size_from_master rs p c)"
  by (rule keepsI) (rule shape_file_size)

lemma keeps_parse: "keeps c (parse_blocks_from_master srv k p rs bl pool c)"
  by (rule keepsI) (rule shape_parse)

lemma keeps_access_time: "keeps c (update_access_time srv fd c)"
  by (rule keepsI) (rule shape_access_time)

lemma keeps_read_loop: "keeps c (read_IOnode_loop srv n bl h st pos sz buf c)"
  by (rule keepsI) (auto dest: shape_read_loop)

lemma keeps_write_loop: "keeps c (write_IOnode_loop srv n bl h st pos buf ans c)"
  by (rule keepsI) (auto dest: shape_write_loop)

lemma keeps_blocks_master: "keeps c (get_blocks_from_master srv p st sz bl pool mode c)"
proof -
  have k: "keeps c2 (do {
         (ret, rs1) \<leftarrow> pop_ret rs;
         if ret = SUCCESS then do {
           (rs2, c3) \<leftarrow> update_file_size_from_master rs1 p c2;
           (r, c4) \<leftarrow> parse_blocks_from_master srv (fm_SCBB m) p rs2 bl pool c3;
           case r of Thrown \<Rightarrow> Some (Thrown, c4) | Ret (bl1, pool1) \<Rightarrow> Some (Ret (SUCCESS, bl1, pool1), c4)
         } else Some (Ret (-1, bl, pool), set_errno (- ret) c2) })" for m rs c2
    by (rule keeps_bind_pure) (auto intro!: keeps_bind keeps_file_size keeps_parse split: prod.split outcome.split)
  have u: "(if mode = WRITE_FILE then upd_meta p (write_update_file_size st sz) c else Some c) = Some c1 \<Longrightarrow> same_shape c c1" for c1
    by (auto split: if_splits intro!: shape_upd_meta simp: meta_shape_def write_update_file_size_def)
  show ?thesis unfolding get_blocks_from_master_def
    by (rule keeps_bind_pure, rule keeps_bind_pure, rule keeps_bind_client, erule u, rule keeps_bind_pure, rule keeps_query, rule k)
qed

lemma keeps_cached_nodes: "keeps c (cached_nodes is k pool c)"
proof (induction "is" k pool c rule: cached_nodes.induct)
  case (2 i "is" k pool c)
  show ?case unfolding cached_nodes.simps
  proof (intro keeps_bind_pure)
    fix sc assume sc: "get_SCBB k c = Some sc"
    show "keeps c (case map_find i (sc_IOnodes sc) of
         Some h \<Rightarrow> cached_nodes is k (fst (map_insert i (Some h) pool)) c
       | None \<Rightarrow> upd_SCBB k (\<lambda>sc. sc\<lparr>sc_IOnodes := map_set i 0 (sc_IOnodes sc)\<rparr>) c \<bind> cached_nodes is k (fst (map_insert i (Some 0) pool)))"
      using 2(1) [OF sc] 2(2) [OF sc] by (auto split: option.split intro!: keeps_bind_client shape_upd_SCBB)
  qed
qed simp

lemma shape_blocks_cache:
  assumes "get_blocks_from_cache p st sz bl pool c = Some (ret, bl', pool', c')"
  shows "same_shape c c'"
proof -
  from assms have "c' = c \<or> (\<exists>(m :: file_meta) pool1. cached_nodes (fm_IOnodes m) (fm_SCBB m) pool c = Some (pool1, c'))"
    by (auto simp: get_blocks_from_cache_def bind_eq_Some_conv Let_def case_prod_unfold split: if_splits)
  then show ?thesis using keepsD [OF keeps_cached_nodes] by auto
qed

lemma keeps_update_meta: "keeps c (update_meta srv p st sz c)"
  unfolding update_meta_def
proof (intro keeps_bind_client keeps_bind_pure)
  fix c1 assume "upd_meta p (write_update_file_size st sz) c = Some c1"
  then show "same_shape c c1" by (rule shape_upd_meta) (simp add: meta_shape_def write_update_file_size_def)
qed (simp add: post_def)

lemma keeps_blocks: "keeps c (remote_IO_blocks srv p st sz mode c)"
proof (cases "cl_using_cache c")
  case True
  show ?thesis
  proof (rule keepsI)
    fix r c' assume r: "remote_IO_blocks srv p st sz mode c = Some (r, c')"
    with True obtain ret bl pool c1 where c1: "get_blocks_from_cache p st sz [] [] c = Some (ret, bl, pool, c1)" by (auto simp: remote_IO_blocks_def bind_eq_Some_conv)
    have "keeps c1 (if ret = NEED_UPDATE then get_blocks_from_master srv p st sz bl pool mode c1
        else if ret = UPDATE_META_ONLY then do { (ret1, c2) \<leftarrow> update_meta srv p st sz c1; Some (Ret (ret1, bl, pool), c2) }
        else Some (Ret (ret, bl, pool), c1))" by (auto intro!: keeps_blocks_master keeps_bind keeps_update_meta)
    then have "keeps c1 (remote_IO_blocks srv p st sz mode c)" using True c1 by (simp add: remote_IO_blocks_def)
    then show "same_shape c c'" using r by (intro same_shape_trans [OF shape_blocks_cache [OF c1]]) (rule keepsD)
  qed
qed (simp add: remote_IO_blocks_def keeps_blocks_master)

lemma keeps_remote_read: "keeps c (remote_read srv p st sz c)"
  unfolding remote_read_def
proof (rule keeps_bind [OF keeps_blocks])
  fix r :: "(int \<times> block_list \<times> node_pool) outcome" and c1 :: "'a client"
  have "keeps c1 (read_from_IOnode srv p bl pool st sz c1)" for bl pool
    unfolding read_from_IOnode_def
    by (auto intro!: keeps_bind_pure keeps_read_loop)
  then show "keeps c1 (case (r, c1) of (r, c1) \<Rightarrow> (case r of Thrown \<Rightarrow> Some (Thrown, c1) | Ret (ret, bl, pool) \<Rightarrow>
      if ret = SUCCESS then read_from_IOnode srv p bl pool st sz c1 else Some (Ret [], set_errno EINVAL c1)))"
    by (auto split: outcome.split)
qed

lemma keeps_remote_write: "keeps c (remote_write srv p buf st c)"
  unfolding remote_write_def
proof (rule keeps_bind [OF keeps_blocks])
  fix r :: "(int \<times> block_list \<times> node_pool) outcome" and c1 :: "'a client"
  have "keeps c1 (write_to_IOnode srv p bl pool buf st c1)" for bl pool
    unfolding write_to_IOnode_def by (auto intro!: keeps_bind_pure keeps_write_loop)
  then show "keeps c1 (case (r, c1) of (r, c1) \<Rightarrow> (case r of Thrown \<Rightarrow> Some (Thrown, c1) | Ret (ret, bl, pool) \<Rightarrow>
      if ret = SUCCESS then write_to_IOnode srv p bl pool buf st c1 else Some (Ret 0, set_errno EINVAL c1)))"
    by (auto split: outcome.split)
qed

lemma keeps_client_read: "keeps c (client_read srv fd sz c)"
proof -
  have r: "keeps c (do {
      (r, c1) \<leftarrow> remote_read srv p st k c;
      case r of Thrown \<Rightarrow> Some (Thrown, c1)
      | Ret d \<Rightarrow> do {
          c2 \<leftarrow> upd_opened (fd_to_fid fd) (\<lambda>f. f\<lparr>op_current_point := op_current_point f + int (length d)\<rparr>) c1;
          Some (Ret (int (length d), d), c2)
        } })" for p st k
    by (rule keeps_bind [OF keeps_remote_read])
      (auto split: outcome.split simp: file_shape_def intro!: keeps_bind_client elim!: shape_upd_opened)
  show ?thesis unfolding client_read_def by (auto simp: Let_def split: option.split intro!: keeps_bind_pure r)
qed

lemma keeps_client_write: "keeps c (client_write srv fd buf c)"
proof -
  have r: "keeps c1 (do {
      (r, c2) \<leftarrow> remote_write srv p buf st c1;
      case r of Thrown \<Rightarrow> Some (Thrown, c2)
      | Ret n \<Rightarrow> do {
          c3 \<leftarrow> upd_opened (fd_to_fid fd) (\<lambda>f. f\<lparr>op_current_point := op_current_point f + s32 n\<rparr>) c2;
          Some (Ret (s32 n), c3)
        } })" for p st and c1 :: "'a client"
    by (rule keeps_bind [OF keeps_remote_write])
      (auto split: outcome.split simp: file_shape_def intro!: keeps_bind_client elim!: shape_upd_opened)
  show ?thesis unfolding client_write_def by (auto split: option.split intro!: keeps_bind [OF keeps_access_time] r)
qed

lemma keeps_fd_request: "(\<And>c1. keeps c1 (k c1)) \<Longrightarrow> keeps c (fd_request srv code fd c k)"
  unfolding fd_request_def by (intro keeps_bind_pure keeps_query) (auto)

lemma keeps_client_flush: "keeps c (client_flush srv fd c)"
  unfolding client_flush_def by (rule keeps_fd_request) simp

lemma keeps_client_lseek: "keeps c (client_lseek fd offset whence c)"
proof (cases "map_find (fd_to_fid fd) (cl_files c)")
  case (Some f)
  have u: "keeps c (upd_opened (fd_to_fid fd) (\<lambda>f. f\<lparr>op_current_point := pos\<rparr>) c \<bind> (\<lambda>c1. Some (offset, c1)))" for pos
    by (auto simp: file_shape_def intro!: keeps_bind_client elim!: shape_upd_opened)
  show ?thesis unfolding client_lseek_def Some option.case by (rule keeps_bind_pure) (rule u)
qed (simp add: client_lseek_def)

lemma keeps_master_query: "(\<And>rs c1. keeps c1 (k rs c1)) \<Longrightarrow> keeps c (master_query srv path msg c k)"
  unfolding master_query_def Let_def by (intro keeps_bind_pure keeps_query) (auto intro!: keeps_bind_pure)

lemma keeps_path_request: "(\<And>rs c1. keeps c1 (k rs c1)) \<Longrightarrow> keeps c (path_request srv path msg c k)"
  unfolding path_request_def by (intro keeps_bind_pure keeps_query)

lemma keeps_reply_result: "keeps c (reply_result rs c)"
  unfolding reply_result_def by (rule keeps_bind_pure) auto

lemma keeps_client_getattr: "keeps c (client_getattr srv path c)"
proof -
  have "keeps c (remote_getattr srv path c)" unfolding remote_getattr_def
    by (intro keeps_master_query keeps_bind_pure) (auto intro!: keeps_bind_pure)
  then show ?thesis unfolding client_getattr_def by (auto intro!: keeps_bind_pure)
qed

lemma keeps_client_access: "keeps c (client_access srv path mode c)"
  unfolding client_access_def remote_access_def by (auto intro!: keeps_master_query keeps_reply_result)

lemma keeps_remote_stat: "keeps c (remote_stat srv path c)"
  unfolding remote_stat_def Let_def by (intro keeps_bind_pure keeps_query) simp

lemma keeps_client_rmdir: "keeps c (client_rmdir srv path c)"
  unfolding client_rmdir_def by (intro keeps_path_request keeps_reply_result)

lemma keeps_client_mkdir: "keeps c (client_mkdir srv path mode c)"
  unfolding client_mkdir_def by (intro keeps_path_request keeps_reply_result)

lemma keeps_client_truncate: "keeps c (client_truncate srv path sz c)"
  unfolding client_truncate_def by (intro keeps_master_query keeps_reply_result)

lemma keeps_client_ftruncate: "keeps c (client_ftruncate srv fd sz c)"
  unfolding client_ftruncate_def
  by (rule keeps_bind_pure, rule keeps_bind_client, erule shape_upd_meta, simp add: meta_shape_def, rule keeps_bind [OF keeps_access_time])
    (auto intro!: keeps_bind_pure keeps_client_truncate)

lemma shape_readdir_loop: "readdir_loop srv path l files (c, dir) = Some (r, c', dir') \<Longrightarrow> same_shape c c'"
proof (induction srv path l files "(c, dir)" arbitrary: c dir rule: readdir_loop.induct)
  case (2 srv path scbb l files c dir)
  obtain q c1 where q: "get_query_response srv (sc_master scbb) [F_int READ_DIR, F_str path] [] c = (q, c1)" by (rule prod.exhaust)
  have "same_shape c1 c'"
  proof (cases q)
    case Thrown
    then show ?thesis using 2(2) q by simp
  next
    case (Ret x)
    obtain rs d where x: "x = (rs, d)" by (rule prod.exhaust)
    from 2(2) q Ret x obtain ret rs1 where ret: "pop_ret rs = Some (ret, rs1)" by (auto simp: bind_eq_Some_conv)
    show ?thesis
    proof (cases "ret = SUCCESS")
      case True
      with 2(2) q Ret x ret obtain count z names files1 where z: "pop_ret rs1 = Some (count, z)"
        "string_buf_pop_strings (nat count) (files\<lparr>str_bytes := put_bytes 0 d (str_bytes files)\<rparr>) = Some (names, files1)"
        "readdir_loop srv path l files1 (c1, fold set_insert names dir) = Some (r, c', dir')" by (auto simp: bind_eq_Some_conv)
      show ?thesis by (rule 2(1) [OF q [symmetric] Ret x [symmetric] ret refl True z(1) refl z(2) refl z(3)])
    qed (use 2(2) q Ret x ret in auto)
  qed
  then show ?case using shape_response [OF q] same_shape_trans by blast
qed simp

lemma shape_client_readdir: "client_readdir srv g path (c, dir) = Some (r, c', dir') \<Longrightarrow> same_shape c c'"
  unfolding client_readdir_def by (rule shape_readdir_loop)


section \<open>Operations that change the tables\<close>

text \<open>Simp rules for a lookup after an insertion into a free place.\<close>

lemma map_insert_free: "map_inv m \<Longrightarrow> map_find k m = None \<Longrightarrow> map_find k' (fst (map_insert k v m)) = (if k' = k then Some v else map_find k' m)"
  by (simp add: map_insert_find map_find_None_iff)

lemma set_insert_length: "k \<notin> set xs \<Longrightarrow> length (set_insert k xs) = Suc (length xs)"
  by (induction k xs rule: set_insert.induct) auto

lemma set_erase_length: "distinct xs \<Longrightarrow> k \<in> set xs \<Longrightarrow> Suc (length (set_erase k xs)) = length xs"
  by (induction xs) (auto simp: set_erase_def intro!: arg_cong [where f = length] filter_True)

lemma fid_to_fd_eq [simp]: "fid_to_fd a = fid_to_fd b \<longleftrightarrow> a = b"
  by (simp add: fid_to_fd_def)

text \<open>A file that is found has its descriptor in its meta data, and only there.\<close>

lemma opened_fd_iff:
  assumes "client_inv c" "cl_metas c p = Some m"
  shows "fid_to_fd fid \<in> set (fm_opened_fd m) \<longleftrightarrow> (\<exists>f. map_find fid (cl_files c) = Some f \<and> op_meta f = p)"
proof -
  have "fid_to_fd fid \<in> set (fm_opened_fd m) \<longleftrightarrow> (\<exists>x f. fid_to_fd fid = op_fd f \<and> map_find x (cl_files c) = Some f \<and> op_meta f = p)"
    using client_invD(8) [OF assms] by (auto simp: meta_ok_def)
  then show ?thesis using client_invD(5) [OF assms(1)] by (metis fid_to_fd_eq)
qed

lemma meta_fresh: "client_inv c \<Longrightarrow> cl_metas c p = Some m \<Longrightarrow> p < cl_fresh c"
  using client_invD(8) by (auto simp: meta_ok_def)

text \<open>A meta data record belongs to its files as the list of its descriptors says.\<close>

lemma meta_okI:
  assumes "p < cl_fresh c" "sorted_wrt (<) (fm_opened_fd m)" "fm_open_count m = int (length (fm_opened_fd m))"
    "\<And>fid f. map_find fid (cl_files c) = Some f \<Longrightarrow> op_fd f = fid_to_fd fid"
    "\<And>fd. fd \<in> set (fm_opened_fd m) \<Longrightarrow> \<exists>fid. fd = fid_to_fd fid"
    "\<And>fid. fid_to_fd fid \<in> set (fm_opened_fd m) \<longleftrightarrow> (\<exists>f. map_find fid (cl_files c) = Some f \<and> op_meta f = p)"
  shows "meta_ok c p m"
proof -
  have "set (fm_opened_fd m) = {op_fd f |fid f. map_find fid (cl_files c) = Some f \<and> op_meta f = p}"
    using assms(4-6) by (auto, metis+)
  then show ?thesis using assms(1-3) by (simp add: meta_ok_def)
qed

lemma fd_is_fid: "\<exists>fid. fd = fid_to_fd fid"
  by (rule exI [of _ "fd - INIT_FD"]) (simp add: fid_to_fd_def)

lemma meta_ok_iff:
  assumes "\<And>fid f. map_find fid (cl_files c) = Some f \<Longrightarrow> op_fd f = fid_to_fd fid"
  shows "meta_ok c p m \<longleftrightarrow> p < cl_fresh c \<and> sorted_wrt (<) (fm_opened_fd m) \<and> fm_open_count m = int (length (fm_opened_fd m)) \<and>
     (\<forall>fid. fid_to_fd fid \<in> set (fm_opened_fd m) \<longleftrightarrow> (\<exists>f. map_find fid (cl_files c) = Some f \<and> op_meta f = p))"
proof
  assume m: "meta_ok c p m"
  then have "fid_to_fd fid \<in> set (fm_opened_fd m) \<longleftrightarrow> (\<exists>x f. fid_to_fd fid = op_fd f \<and> map_find x (cl_files c) = Some f \<and> op_meta f = p)" for fid
    by (auto simp: meta_ok_def)
  then show "p < cl_fresh c \<and> sorted_wrt (<) (fm_opened_fd m) \<and> fm_open_count m = int (length (fm_opened_fd m)) \<and>
     (\<forall>fid. fid_to_fd fid \<in> set (fm_opened_fd m) \<longleftrightarrow> (\<exists>f. map_find fid (cl_files c) = Some f \<and> op_meta f = p))"
    using m assms by (auto simp: meta_ok_def) (metis fid_to_fd_eq)+
qed (intro meta_okI fd_is_fid; use assms in blast)

text \<open>The invariant by its parts, for the states before and after a change.\<close>

lemma client_invI:
  assumes "map_inv (cl_files c)" "map_inv (cl_paths c)" "0 \<le> cl_fid_now c" "cl_fid_now c < MAX_FILE"
    "\<And>fid f. map_find fid (cl_files c) = Some f \<Longrightarrow> 0 \<le> fid \<and> fid < MAX_FILE \<and> cl_opened c fid \<and> op_fd f = fid_to_fd fid \<and> cl_metas c (op_meta f) \<noteq> None"
    "\<And>path p. map_find path (cl_paths c) = Some p \<Longrightarrow> \<exists>m. cl_metas c p = Some m \<and> fm_it m = path"
    "\<And>p m. cl_metas c p = Some m \<Longrightarrow> p < cl_fresh c \<and> sorted_wrt (<) (fm_opened_fd m) \<and> fm_open_count m = int (length (fm_opened_fd m)) \<and>
       (\<forall>fid. fid_to_fd fid \<in> set (fm_opened_fd m) \<longleftrightarrow> (\<exists>f. map_find fid (cl_files c) = Some f \<and> op_meta f = p))"
  shows "client_inv c"
  unfolding client_inv_def
proof (intro conjI allI impI)
  fix p m assume "cl_metas c p = Some m"
  then show "meta_ok c p m" using assms(7) meta_ok_iff [of c p m] assms(5) by blast
qed (use assms in blast)+

lemma client_inv_meta:
  assumes "client_inv c" "cl_metas c p = Some m"
  shows "p < cl_fresh c \<and> sorted_wrt (<) (fm_opened_fd m) \<and> fm_open_count m = int (length (fm_opened_fd m)) \<and>
     (\<forall>x. fid_to_fd x \<in> set (fm_opened_fd m) \<longleftrightarrow> (\<exists>f. map_find x (cl_files c) = Some f \<and> op_meta f = p))"
  using client_invD(5,8) [OF assms(1)] assms(2) meta_ok_iff [of c p m] by blast

lemma inv_add_file:
  assumes inv: "client_inv c" and free: "map_find fid (cl_files c) = None" and b: "0 \<le> fid" "fid < MAX_FILE" "cl_opened c fid"
    and g: "op_fd g = fid_to_fd fid" "op_meta g = p" and m: "cl_metas c p = Some m"
    and m': "meta_shape m' = (fm_open_count m + 1, set_insert (fid_to_fd fid) (fm_opened_fd m), fm_it m)"
    and c': "cl_files c' = fst (map_insert fid g (cl_files c))" "cl_metas c' = (cl_metas c)(p \<mapsto> m')" "cl_opened c' = cl_opened c"
      "cl_paths c' = cl_paths c" "cl_fresh c' = cl_fresh c" "cl_fid_now c' = cl_fid_now c"
  shows "client_inv c'"
proof (rule client_invI)
  note D = client_invD [OF inv] and old = client_inv_meta [OF inv]
  have fnd: "map_find x (cl_files c') = (if x = fid then Some g else map_find x (cl_files c))" for x by (simp add: c'(1) map_insert_free [OF D(1) free])
  have s: "fm_open_count m' = fm_open_count m + 1" "fm_opened_fd m' = set_insert (fid_to_fd fid) (fm_opened_fd m)" "fm_it m' = fm_it m"
    using m' by (simp_all add: meta_shape_def)
  have nin: "fid_to_fd fid \<notin> set (fm_opened_fd m)" using old [OF m] free by auto
  show "map_inv (cl_files c')" "map_inv (cl_paths c')" "0 \<le> cl_fid_now c'" "cl_fid_now c' < MAX_FILE" using D(1-4) c' by simp_all
  show "0 \<le> x \<and> x < MAX_FILE \<and> cl_opened c' x \<and> op_fd f = fid_to_fd x \<and> cl_metas c' (op_meta f) \<noteq> None" if "map_find x (cl_files c') = Some f" for x f
    using that D(5,6) b g c' unfolding fnd by (auto split: if_splits)
  show "\<exists>k. cl_metas c' q = Some k \<and> fm_it k = path" if "map_find path (cl_paths c') = Some q" for path q
    using D(7) [of path q] that m s(3) c'(2,4) by auto
  show "q < cl_fresh c' \<and> sorted_wrt (<) (fm_opened_fd k) \<and> fm_open_count k = int (length (fm_opened_fd k)) \<and>
       (\<forall>x. fid_to_fd x \<in> set (fm_opened_fd k) \<longleftrightarrow> (\<exists>f. map_find x (cl_files c') = Some f \<and> op_meta f = q))" if "cl_metas c' q = Some k" for q k
    using that old [of q k] old [OF m] s nin g(2) free c'(2,5) unfolding fnd
    by (cases "q = p") (auto simp: set_insert_length)
qed

lemma inv_remove_file:
  assumes inv: "client_inv c" and f: "map_find fid (cl_files c) = Some f" "op_meta f = p" and m: "cl_metas c p = Some m"
    and m': "meta_shape m' = (fm_open_count m - 1, set_erase (fid_to_fd fid) (fm_opened_fd m), fm_it m)"
    and c': "cl_files c' = map_erase fid (cl_files c)" "cl_metas c' = (cl_metas c)(p \<mapsto> m')" "cl_opened c' = (cl_opened c)(fid := False)"
      "cl_paths c' = cl_paths c" "cl_fresh c' = cl_fresh c" "cl_fid_now c' = cl_fid_now c"
  shows "client_inv c'"
proof (rule client_invI)
  note D = client_invD [OF inv] and old = client_inv_meta [OF inv]
  have fnd: "map_find x (cl_files c') = (if x = fid then None else map_find x (cl_files c))" for x by (simp add: c'(1) D(1))
  have s: "fm_open_count m' = fm_open_count m - 1" "fm_opened_fd m' = set_erase (fid_to_fd fid) (fm_opened_fd m)" "fm_it m' = fm_it m"
    using m' by (simp_all add: meta_shape_def)
  have "fid_to_fd fid \<in> set (fm_opened_fd m)" using old [OF m] f by auto
  then have len: "int (length (set_erase (fid_to_fd fid) (fm_opened_fd m))) = int (length (fm_opened_fd m)) - 1"
    using set_erase_length [of "fm_opened_fd m" "fid_to_fd fid"] old [OF m] strict_sorted_iff by fastforce
  show "map_inv (cl_files c')" "map_inv (cl_paths c')" "0 \<le> cl_fid_now c'" "cl_fid_now c' < MAX_FILE" using D(1-4) c' by simp_all
  show "0 \<le> x \<and> x < MAX_FILE \<and> cl_opened c' x \<and> op_fd h = fid_to_fd x \<and> cl_metas c' (op_meta h) \<noteq> None" if "map_find x (cl_files c') = Some h" for x h
    using that D(5,6) c' unfolding fnd by (auto split: if_splits)
  show "\<exists>k. cl_metas c' q = Some k \<and> fm_it k = path" if "map_find path (cl_paths c') = Some q" for path q
    using D(7) [of path q] that m s(3) c'(2,4) by auto
  show "q < cl_fresh c' \<and> sorted_wrt (<) (fm_opened_fd k) \<and> fm_open_count k = int (length (fm_opened_fd k)) \<and>
       (\<forall>x. fid_to_fd x \<in> set (fm_opened_fd k) \<longleftrightarrow> (\<exists>f. map_find x (cl_files c') = Some f \<and> op_meta f = q))" if "cl_metas c' q = Some k" for q k
    using that old [of q k] old [OF m] s len f c'(2,5) unfolding fnd
    by (cases "q = p") auto
qed

lemma fid_scan_Some: "fid_scan used i b = Some x \<Longrightarrow> i \<le> x \<and> x < b \<and> \<not> used x"
proof (induction used i b rule: fid_scan.induct)
  case (1 used i b)
  then show ?case by (subst (asm) fid_scan.simps) (auto split: if_splits)
qed

lemma fid_scan_None: "fid_scan used i b = None \<Longrightarrow> i \<le> x \<Longrightarrow> x < b \<Longrightarrow> used x"
proof (induction used i b rule: fid_scan.induct)
  case (1 used i b)
  then show ?case by (subst (asm) fid_scan.simps) (cases "x = i", auto split: if_splits)
qed

lemma get_fid_found:
  assumes "client_inv c" "get_fid c = (fid, c1)" "fid \<noteq> -1"
  shows "0 \<le> fid" "fid < MAX_FILE" "\<not> cl_opened c fid" "c1 = c\<lparr>cl_opened := (cl_opened c)(fid := True), cl_fid_now := fid\<rparr>"
  using assms client_invD(3,4) [OF assms(1)] by (auto simp: get_fid_def dest!: fid_scan_Some split: option.splits)

lemma inv_get_fid:
  assumes "client_inv c" "get_fid c = (fid, c1)" "fid \<noteq> -1"
  shows "client_inv c1" "map_find fid (cl_files c1) = None"
proof -
  note g = get_fid_found [OF assms] and D = client_invD [OF assms(1)]
  have "map_find fid (cl_files c) = None" using D(5) [of fid] g(3) by (cases "map_find fid (cl_files c)") auto
  then show "map_find fid (cl_files c1) = None" using g(4) by simp
  show "client_inv c1"
    by (rule client_invI) (use D g(1,2) client_inv_meta [OF assms(1)] in \<open>auto simp: g(4)\<close>)
qed

lemma inv_add_meta:
  assumes inv: "client_inv c" and new: "map_find path (cl_paths c) = None" and m: "meta_shape m = (0, [], path)"
    and c': "cl_files c' = cl_files c" "cl_metas c' = (cl_metas c)(cl_fresh c \<mapsto> m)" "cl_opened c' = cl_opened c"
      "cl_paths c' = fst (map_insert path (cl_fresh c) (cl_paths c))" "cl_fresh c' = cl_fresh c + 1" "cl_fid_now c' = cl_fid_now c"
  shows "client_inv c'"
proof (rule client_invI)
  note D = client_invD [OF inv] and old = client_inv_meta [OF inv]
  have s: "fm_open_count m = 0" "fm_opened_fd m = []" "fm_it m = path" using m by (simp_all add: meta_shape_def)
  have out: "cl_metas c (cl_fresh c) = None" using old [of "cl_fresh c"] by (cases "cl_metas c (cl_fresh c)") auto
  have un: "op_meta f \<noteq> cl_fresh c" if "map_find x (cl_files c) = Some f" for x f using D(6) [OF that] out by auto
  show "map_inv (cl_files c')" "map_inv (cl_paths c')" "0 \<le> cl_fid_now c'" "cl_fid_now c' < MAX_FILE" using D(1-4) c' by simp_all
  show "0 \<le> x \<and> x < MAX_FILE \<and> cl_opened c' x \<and> op_fd h = fid_to_fd x \<and> cl_metas c' (op_meta h) \<noteq> None" if "map_find x (cl_files c') = Some h" for x h
    using that D(5,6) c' by auto
  show "\<exists>k. cl_metas c' q = Some k \<and> fm_it k = l" if "map_find l (cl_paths c') = Some q" for l q
    using that D(7) [of l q] s(3) out unfolding c'(2,4) map_insert_free [OF D(2) new] by (auto split: if_splits)
  show "q < cl_fresh c' \<and> sorted_wrt (<) (fm_opened_fd k) \<and> fm_open_count k = int (length (fm_opened_fd k)) \<and>
       (\<forall>x. fid_to_fd x \<in> set (fm_opened_fd k) \<longleftrightarrow> (\<exists>f. map_find x (cl_files c') = Some f \<and> op_meta f = q))" if "cl_metas c' q = Some k" for q k
    using that old [of q k] s un unfolding c'(1,2,5) by (auto split: if_splits)
qed

lemma inv_remove_meta:
  assumes inv: "client_inv c" and m: "cl_metas c p = Some m" "fm_open_count m \<le> 0" "fm_it m = path"
    and c': "cl_files c' = cl_files c" "cl_metas c' = (cl_metas c)(p := None)" "cl_opened c' = cl_opened c"
      "cl_paths c' = map_erase path (cl_paths c)" "cl_fresh c' = cl_fresh c" "cl_fid_now c' = cl_fid_now c"
  shows "client_inv c'"
proof (rule client_invI)
  note D = client_invD [OF inv] and old = client_inv_meta [OF inv]
  have "fm_opened_fd m = []" using old [OF m(1)] m(2) by auto
  then have un: "op_meta f \<noteq> p" if "map_find x (cl_files c) = Some f" for x f using old [OF m(1)] that by auto
  show "map_inv (cl_files c')" "map_inv (cl_paths c')" "0 \<le> cl_fid_now c'" "cl_fid_now c' < MAX_FILE" using D(1-4) c' by simp_all
  show "0 \<le> x \<and> x < MAX_FILE \<and> cl_opened c' x \<and> op_fd h = fid_to_fd x \<and> cl_metas c' (op_meta h) \<noteq> None" if "map_find x (cl_files c') = Some h" for x h
    using that D(5,6) un c' by auto
  show "\<exists>k. cl_metas c' q = Some k \<and> fm_it k = l" if "map_find l (cl_paths c') = Some q" for l q
    using that D(2) D(7) [of l q] m unfolding c'(2,4) by (auto split: if_splits)
  show "q < cl_fresh c' \<and> sorted_wrt (<) (fm_opened_fd k) \<and> fm_open_count k = int (length (fm_opened_fd k)) \<and>
       (\<forall>x. fid_to_fd x \<in> set (fm_opened_fd k) \<longleftrightarrow> (\<exists>f. map_find x (cl_files c') = Some f \<and> op_meta f = q))" if "cl_metas c' q = Some k" for q k
    using that old [of q k] unfolding c'(1,2,5) by (auto split: if_splits)
qed


section \<open>The public operations\<close>

lemma inv_open_fid:
  assumes inv: "client_inv c" and free: "map_find fid (cl_files c) = None" and b: "0 \<le> fid" "fid < MAX_FILE" "cl_opened c fid"
    and r: "open_fid fid flag p c = Some (fd, c')"
  shows "client_inv c'"
proof -
  let ?g = "opened_file (fid_to_fd fid) flag p"
  from r obtain c1 c3 k c4 where c: "upd_meta p (\<lambda>m. m\<lparr>fm_open_count := fm_open_count m + 1\<rparr>) c = Some c1"
    "upd_meta p (\<lambda>m. m\<lparr>fm_opened_fd := set_insert (fid_to_fd fid) (fm_opened_fd m)\<rparr>) (c1\<lparr>cl_files := fst (map_insert fid ?g (cl_files c1))\<rparr>) = Some c3"
    "(if flag AND O_APPEND \<noteq> 0 then upd_opened fid (\<lambda>f. f\<lparr>op_current_point := k\<rparr>) c3 else Some c3) = Some c4" "c' = set_errno 0 c4"
    by (auto simp only: open_fid_def bind_eq_Some_conv Let_def)
  from c(1) obtain m where m: "cl_metas c p = Some m" by (auto simp: upd_meta_def deref_meta_def bind_eq_Some_conv)
  let ?m = "m\<lparr>fm_open_count := fm_open_count m + 1, fm_opened_fd := set_insert (fid_to_fd fid) (fm_opened_fd m)\<rparr>"
  have "client_inv c3"
    by (rule inv_add_file [OF inv free b _ _ m, where g = ?g and m' = ?m])
      (use c(1,2) m in \<open>auto simp: opened_file_def meta_shape_def upd_meta_def deref_meta_def\<close>)
  moreover have "same_shape c3 c4" using c(3) by (auto simp: file_shape_def split: if_splits elim!: shape_upd_opened)
  ultimately show ?thesis using c(4) by (auto intro: client_inv_shape shape_world(2) same_shape_trans)
qed

lemma create_new_file_fields:
  assumes "create_new_file rs k c = Some (p, c')"
  shows "p = cl_fresh c \<and> (\<exists>m. c' = c\<lparr>cl_metas := (cl_metas c)(p \<mapsto> m), cl_fresh := p + 1\<rparr> \<and> meta_shape m = (0, [], []))"
  using assms by (auto simp: create_new_file_def bind_eq_Some_conv Let_def new_file_meta_def meta_shape_def split: list.splits field.splits)

lemma response_files: "get_query_response srv h msg d c = (r, c') \<Longrightarrow> cl_files c' = cl_files c \<and> cl_opened c' = cl_opened c \<and> cl_metas c' = cl_metas c \<and> cl_paths c' = cl_paths c"
  by (auto simp: get_query_response_def report_IOnode_failure_def post_def split: prod.splits option.splits)

lemma remote_open_result:
  assumes "remote_open srv path flag mode c = Some (r, c')"
  shows "(\<exists>c1 m. same_shape c c1 \<and> cl_files c1 = cl_files c \<and> r = Ret (Some (cl_fresh c1)) \<and> meta_shape m = (0, [], []) \<and>
      c' = c1\<lparr>cl_metas := (cl_metas c1)(cl_fresh c1 \<mapsto> m), cl_fresh := cl_fresh c1 + 1\<rparr>) \<or> ((r = Ret None \<or> r = Thrown) \<and> same_shape c c' \<and> cl_files c' = cl_files c)"
proof -
  obtain h where h: "get_master_handle_from_master_number (get_master_number_from_path srv path c) c = Some h"
    using assms by (auto simp: remote_open_def Let_def bind_eq_Some_conv)
  let ?msg = "[F_int OPEN_FILE, F_str path] @ (if flag AND O_CREAT \<noteq> 0 then [F_int flag] else []) @ [F_u32 mode]"
  obtain q c1 where q: "get_query_response srv h ?msg [] c = (q, c1)" by (rule prod.exhaust)
  note s = shape_response [OF q] and f = response_files [OF q]
  show ?thesis
  proof (cases q)
    case Thrown
    then show ?thesis using assms h q s f by (simp add: remote_open_def Let_def query_def)
  next
    case (Ret x)
    obtain rs d where x: "x = (rs, d)" by (rule prod.exhaust)
    from assms h q Ret x obtain ret rs1 where ret: "pop_ret rs = Some (ret, rs1)"
      "(if ret = SUCCESS then create_new_file rs1 (nat (get_master_number_from_path srv path c)) c1 \<bind> (\<lambda>(p, c2). Some (Ret (Some p), c2))
        else Some (Ret None, set_errno (- ret) c1)) = Some (r, c')" by (auto simp: remote_open_def Let_def query_def bind_eq_Some_conv)
    show ?thesis
    proof (cases "ret = SUCCESS")
      case True
      with ret(2) obtain p c2 where p: "create_new_file rs1 (nat (get_master_number_from_path srv path c)) c1 = Some (p, c2)" "r = Ret (Some p)" "c' = c2"
        by (auto simp: bind_eq_Some_conv)
      from create_new_file_fields [OF p(1)] p(2,3) s f show ?thesis by blast
    next
      case False
      then show ?thesis using ret(2) f same_shape_trans [OF s shape_world(2)] by (auto simp: set_errno_def)
    qed
  qed
qed

lemma inv_client_open:
  assumes inv: "client_inv c" and r: "client_open srv path flag mode c = Some (r, c')"
  shows "client_inv c'"
proof -
  obtain fid c1 where g: "get_fid c = (fid, c1)" by (rule prod.exhaust)
  show ?thesis
  proof (cases "fid = -1")
    case True
    with g have "c1 = c" using get_fid_found(1) [OF inv] inv client_invD(3) [OF inv]
      by (auto simp: get_fid_def dest!: fid_scan_Some split: option.splits)
    then show ?thesis using r g True inv by (auto simp: client_open_def intro: client_inv_shape shape_world(2))
  next
    case False
    note G = get_fid_found [OF inv g False] inv_get_fid [OF inv g False]
    have op: "cl_opened c1 fid" "cl_paths c1 = cl_paths c" using G(4) by simp_all
    show ?thesis
    proof (cases "map_find path (cl_paths c)")
      case (Some p)
      then have "\<exists>fd. open_fid fid flag p c1 = Some (fd, c')" using r g False by (auto simp: client_open_def bind_eq_Some_conv)
      then show ?thesis using inv_open_fid [OF G(5,6,1,2) op(1)] by blast
    next
      case None
      with r g False obtain x c2 where x: "remote_open srv path flag mode c1 = Some (x, c2)" by (auto simp: client_open_def bind_eq_Some_conv)
      from remote_open_result [OF x] show ?thesis
      proof (elim disjE exE conjE)
        fix d m assume d: "same_shape c1 d" "x = Ret (Some (cl_fresh d))" "meta_shape m = (0, [], [])"
          "c2 = d\<lparr>cl_metas := (cl_metas d)(cl_fresh d \<mapsto> m), cl_fresh := cl_fresh d + 1\<rparr>"
        let ?p = "cl_fresh d"
        let ?c3 = "c2\<lparr>cl_paths := fst (map_insert path ?p (cl_paths c2)), cl_metas := (cl_metas c2)(?p \<mapsto> m\<lparr>fm_it := path\<rparr>)\<rparr>"
        have ms: "meta_shape (m\<lparr>fm_it := path\<rparr>) = (0, [], path)" using d(3) by (simp add: meta_shape_def)
        have inv3: "client_inv ?c3"
          by (rule inv_add_meta [OF client_inv_shape [OF G(5) d(1)] _ ms]) (use d(1) None op in \<open>auto simp: d(4) same_shape_def\<close>)
        have fr: "map_find fid (cl_files ?c3) = None" "cl_opened ?c3 fid" using d(1) G(6) op shape_find(1) [OF d(1), of fid]
          by (cases "map_find fid (cl_files d)", auto simp: d(4) same_shape_def)
        from r g False None x d(2) have "\<exists>fd. open_fid fid flag ?p ?c3 = Some (fd, c')"
          by (auto simp: client_open_def bind_eq_Some_conv upd_meta_def deref_meta_def d(4))
        then show ?thesis using inv_open_fid [OF inv3 fr(1) G(1,2) fr(2)] by blast
      next
        assume d: "same_shape c1 c2" "x = Ret None"
        then show ?thesis using r g False None x by (auto simp: client_open_def)
      next
        assume d: "same_shape c1 c2" "x = Thrown"
        then show ?thesis using r g False None x client_inv_shape [OF G(5)] by (auto simp: client_open_def)
      qed
    qed
  qed
qed


lemma inv_delete_open_file:
  assumes inv: "client_inv c" and r: "delete_open_file fid c = Some c'"
  shows "client_inv c'"
proof -
  from r obtain f c2 where f: "map_find fid (cl_files c) = Some f"
    and c2: "upd_meta (op_meta f) (\<lambda>m. m\<lparr>fm_opened_fd := set_erase (op_fd f) (fm_opened_fd m)\<rparr>)
        (c\<lparr>cl_opened := (cl_opened c)(fid := False), cl_files := map_erase fid (cl_files c)\<rparr>) = Some c2" "delete_file_meta (op_meta f) c2 = Some c'"
    by (auto simp only: delete_open_file_def bind_eq_Some_conv Let_def)
  let ?p = "op_meta f"
  from c2(2) obtain c3 m' where c3: "upd_meta ?p (\<lambda>m. m\<lparr>fm_open_count := fm_open_count m - 1\<rparr>) c2 = Some c3" "cl_metas c3 ?p = Some m'"
    "(if fm_open_count m' \<le> 0 then meta_path ?p c3 \<bind> (\<lambda>path. Some (c3\<lparr>cl_paths := map_erase path (cl_paths c3), cl_metas := (cl_metas c3)(?p := None)\<rparr>))
      else Some c3) = Some c'"
    by (auto simp only: delete_file_meta_def deref_meta_def bind_eq_Some_conv)
  from client_invD(6) [OF inv f] obtain m where m: "cl_metas c ?p = Some m" by blast
  have fd: "op_fd f = fid_to_fd fid" using client_invD(5) [OF inv f] by blast
  have inv3: "client_inv c3"
    by (rule inv_remove_file [OF inv f refl m, where m' = "m\<lparr>fm_opened_fd := set_erase (fid_to_fd fid) (fm_opened_fd m), fm_open_count := fm_open_count m - 1\<rparr>"])
      (use c2(1) c3(1) m fd in \<open>auto simp: meta_shape_def upd_meta_def deref_meta_def\<close>)
  show ?thesis
  proof (cases "fm_open_count m' \<le> 0")
    case True
    with c3(3) obtain path where p: "meta_path ?p c3 = Some path" "c' = c3\<lparr>cl_paths := map_erase path (cl_paths c3), cl_metas := (cl_metas c3)(?p := None)\<rparr>"
      by (auto simp: bind_eq_Some_conv)
    have "fm_it m' = path" using p(1) c3(2) by (auto simp: meta_path_def deref_meta_def split: if_splits)
    then show ?thesis by (rule inv_remove_meta [OF inv3 c3(2) True]) (simp_all add: p(2))
  qed (use c3(3) inv3 in auto)
qed

lemma inv_fd_request:
  assumes inv: "client_inv c" and r: "fd_request srv code fd c k = Some (r, c')"
    and k: "\<And>c1. client_inv c1 \<Longrightarrow> k c1 = Some (r, c') \<Longrightarrow> client_inv c'"
  shows "client_inv c'"
proof -
  from r obtain h msg where q: "query srv h msg [] c (\<lambda>rs _ c1. do { (ret, _) \<leftarrow> pop_ret rs; if ret = SUCCESS then k c1 else Some (Ret (-1), set_errno (- ret) c1) }) = Some (r, c')"
    by (auto simp: fd_request_def bind_eq_Some_conv)
  obtain x c1 where x: "get_query_response srv h msg [] c = (x, c1)" by (rule prod.exhaust)
  have inv1: "client_inv c1" using client_inv_shape [OF inv shape_response [OF x]] .
  show ?thesis
  proof (cases x)
    case (Ret y)
    obtain rs d where y: "y = (rs, d)" by (rule prod.exhaust)
    from q x Ret y obtain ret where "(if ret = SUCCESS then k c1 else Some (Ret (-1), set_errno (- ret) c1)) = Some (r, c')"
      by (auto simp: query_def bind_eq_Some_conv)
    then show ?thesis using k [OF inv1] client_inv_shape [OF inv1 shape_world(2)] by (auto split: if_splits)
  qed (use q x inv1 in \<open>auto simp: query_def\<close>)
qed

lemma inv_client_close:
  assumes "client_inv c" "client_close srv fd c = Some (r, c')"
  shows "client_inv c'"
  using assms(2) unfolding client_close_def
  by (rule inv_fd_request [OF assms(1)]) (auto simp: bind_eq_Some_conv intro: inv_delete_open_file)

lemma inv_rename_local:
  assumes inv: "client_inv c" and r: "rename_local old_name new_name c = Some c'"
  shows "client_inv c'"
proof (cases "map_find old_name (cl_paths c)")
  case (Some p)
  note D = client_invD [OF inv] and old = client_inv_meta [OF inv]
  let ?paths = "map_erase old_name (fst (map_insert new_name p (cl_paths c)))"
  from r Some obtain q where q: "map_find new_name ?paths = Some q" "upd_meta q (\<lambda>m. m\<lparr>fm_it := new_name\<rparr>) (c\<lparr>cl_paths := ?paths\<rparr>) = Some c'"
    by (auto simp: rename_local_def bind_eq_Some_conv Let_def)
  from q(2) obtain m where m: "cl_metas c q = Some m" "c' = c\<lparr>cl_paths := ?paths, cl_metas := (cl_metas c)(q \<mapsto> m\<lparr>fm_it := new_name\<rparr>)\<rparr>"
    by (auto simp: upd_meta_def deref_meta_def bind_eq_Some_conv)
  have fnd: "map_find l ?paths = (if l = old_name then None else if l = new_name \<and> new_name \<notin> map_keys (cl_paths c) then Some p else map_find l (cl_paths c))" for l
    using D(2) by (simp add: map_insert_find)
  show ?thesis
  proof (rule client_invI)
    show "map_inv (cl_files c')" "map_inv (cl_paths c')" "0 \<le> cl_fid_now c'" "cl_fid_now c' < MAX_FILE" using D(1-4) by (simp_all add: m(2))
    show "0 \<le> x \<and> x < MAX_FILE \<and> cl_opened c' x \<and> op_fd h = fid_to_fd x \<and> cl_metas c' (op_meta h) \<noteq> None" if "map_find x (cl_files c') = Some h" for x h
      using that D(5,6) by (auto simp: m(2))
    show "k < cl_fresh c' \<and> sorted_wrt (<) (fm_opened_fd n) \<and> fm_open_count n = int (length (fm_opened_fd n)) \<and>
       (\<forall>x. fid_to_fd x \<in> set (fm_opened_fd n) \<longleftrightarrow> (\<exists>f. map_find x (cl_files c') = Some f \<and> op_meta f = k))" if "cl_metas c' k = Some n" for k n
      using that old [of k n] old [OF m(1)] by (auto simp: m(2) split: if_splits)
    show "\<exists>n. cl_metas c' k = Some n \<and> fm_it n = l" if l: "map_find l (cl_paths c') = Some k" for l k
    proof -
      have l': "map_find l ?paths = Some k" using l by (simp add: m(2))
      have "l = new_name" if "k = q"
      proof (rule ccontr)
        assume ne: "l \<noteq> new_name"
        then have lk: "l \<noteq> old_name" "map_find l (cl_paths c) = Some q" using l' that unfolding fnd by (auto split: if_splits)
        have "fm_it m = l" using D(7) [OF lk(2)] m(1) by auto
        moreover have "fm_it m = old_name \<or> fm_it m = new_name"
          using q(1) D(7) [OF Some] D(7) [of new_name q] m(1) unfolding fnd by (auto split: if_splits)
        ultimately show False using ne lk(1) by simp
      qed
      moreover have "\<exists>n. cl_metas c k = Some n \<and> (k \<noteq> q \<longrightarrow> fm_it n = l)"
        using l' D(7) [of l k] D(7) [OF Some] q(1) unfolding fnd by (auto split: if_splits)
      ultimately show ?thesis by (auto simp: m(2))
    qed
  qed
qed (use assms in \<open>simp add: rename_local_def\<close>)

lemma inv_client_rename:
  assumes inv: "client_inv c" and r: "client_rename srv old_name new_name c = Some (r, c')"
  shows "client_inv c'"
proof -
  from r obtain old_h new_h c1 where c1: "rename_local old_name new_name c = Some c1"
    and q: "(if get_master_number_from_path srv new_name c = get_master_number_from_path srv old_name c
       then query srv old_h [F_int RENAME, F_str old_name, F_str new_name, F_int MYSELF] [] c1 (\<lambda>rs _ c2. reply_result rs c2)
       else query srv old_h [F_int RENAME, F_str old_name, F_str new_name, F_int (get_master_number_from_path srv new_name c)] [] c1 (\<lambda>rs _ c2. do {
              _ \<leftarrow> pop_ret rs;
              query srv new_h [F_int RENAME_MIGRATING, F_str new_name, F_int (get_master_number_from_path srv old_name c)] [] c2 (\<lambda>rs1 _ c3. reply_result rs1 c3)
            })) = Some (r, c')" (is "?X = _")
    by (auto simp only: client_rename_def bind_eq_Some_conv Let_def)
  have "keeps c1 ?X" by (auto intro!: keeps_query keeps_bind_pure keeps_reply_result)
  then show ?thesis using q by (intro client_inv_shape [OF inv_rename_local [OF inv c1]]) (rule keepsD)
qed


lemma shape_client_unlink:
  assumes new: "map_find path (cl_paths c) = None" and r: "client_unlink srv path c = Some (r, c')"
  shows "same_shape c c'"
proof -
  from r obtain h where q: "query srv h [F_int UNLINK, F_str path] [] c (\<lambda>rs _ c1. do {
       (ret, _) \<leftarrow> pop_ret rs;
       if ret = SUCCESS then do {
         (r, c2) \<leftarrow> close_local_opened_file srv path c1;
         Some (case r of Thrown \<Rightarrow> Thrown | Ret _ \<Rightarrow> Ret 0, c2)
       } else Some (Ret ret, set_errno (- ret) c1)
     }) = Some (r, c')" by (auto simp only: client_unlink_def path_request_def bind_eq_Some_conv)
  from q show ?thesis
  proof (rule shape_query)
    fix rs d c1 assume s: "same_shape c c1" and k: "(do {
       (ret, _) \<leftarrow> pop_ret rs;
       if ret = SUCCESS then do {
         (r, c2) \<leftarrow> close_local_opened_file srv path c1;
         Some (case r of Thrown \<Rightarrow> Thrown | Ret _ \<Rightarrow> Ret 0, c2)
       } else Some (Ret ret, set_errno (- ret) c1)
     }) = Some (r, c')"
    have "map_find path (cl_paths c1) = None" using s new by (simp add: same_shape_def)
    then have "same_shape c1 c'" using k by (auto simp: bind_eq_Some_conv close_local_opened_file_def split: if_splits)
    then show "same_shape c c'" using s same_shape_trans by blast
  qed
qed

text \<open>The public operations repeat the operation on the state that the broken attempt left.\<close>

lemma retry_inv:
  assumes "\<And>c r c'. I c \<Longrightarrow> op c = Some (r, c') \<Longrightarrow> I c'" "I c" "retry n v op c = Some (x, c')"
  shows "I c'"
  using assms(2,3)
proof (induction n arbitrary: c)
  case (Suc n)
  then obtain r c1 where "op c = Some (r, c1)" "(case r of Ret v \<Rightarrow> Some (v, c1) | Thrown \<Rightarrow> retry n v op c1) = Some (x, c')"
    by (auto simp: bind_eq_Some_conv)
  then show ?case using assms(1) [OF Suc.prems(1)] Suc.IH by (cases r) auto
qed simp

datatype public_op =
    P_open string c_int mode_t
  | P_close c_int
  | P_read c_int size_t
  | P_write c_int "byte list"
  | P_flush c_int
  | P_lseek c_int off64_t c_int
  | P_getattr string
  | P_access string c_int
  | P_stat string
  | P_mkdir string mode_t
  | P_rmdir string
  | P_readdir "nat \<Rightarrow> byte" string
  | P_unlink string
  | P_rename string string
  | P_truncate string off64_t
  | P_ftruncate c_int off64_t

fun public_call :: "'w server \<Rightarrow> public_op \<Rightarrow> 'w client \<Rightarrow> 'w client option" where
  "public_call srv (P_open path flag mode) c = map_option snd (CBB_open srv path flag mode c)"
| "public_call srv (P_close fd) c = map_option snd (CBB_close srv fd c)"
| "public_call srv (P_read fd sz) c = map_option snd (CBB_read srv fd sz c)"
| "public_call srv (P_write fd buf) c = map_option snd (CBB_write srv fd buf c)"
| "public_call srv (P_flush fd) c = map_option snd (CBB_flush srv fd c)"
| "public_call srv (P_lseek fd offset whence) c = map_option snd (client_lseek fd offset whence c)"
| "public_call srv (P_getattr path) c = map_option snd (CBB_getattr srv path c)"
| "public_call srv (P_access path mode) c = map_option snd (CBB_access srv path mode c)"
| "public_call srv (P_stat path) c = map_option snd (CBB_stat srv path c)"
| "public_call srv (P_mkdir path mode) c = map_option snd (CBB_mkdir srv path mode c)"
| "public_call srv (P_rmdir path) c = map_option snd (CBB_rmdir srv path c)"
| "public_call srv (P_readdir garbage path) c = map_option (fst \<circ> snd) (CBB_readdir srv garbage path (c, []))"
| "public_call srv (P_unlink path) c = map_option snd (CBB_unlink srv path c)"
| "public_call srv (P_rename old_name new_name) c = map_option snd (CBB_rename srv old_name new_name c)"
| "public_call srv (P_truncate path sz) c = map_option snd (CBB_truncate srv path sz c)"
| "public_call srv (P_ftruncate fd sz) c = map_option snd (CBB_ftruncate srv fd sz c)"

text \<open>An unlink of a file that this client has open is left out: what follows it depends on undefined behaviour.\<close>

fun call_ok :: "public_op \<Rightarrow> 'w client \<Rightarrow> bool" where
  "call_ok (P_unlink path) c \<longleftrightarrow> map_find path (cl_paths c) = None"
| "call_ok _ c \<longleftrightarrow> True"

text \<open>A client after its start and any number of calls, against any servers.\<close>

inductive client_reachable :: "'w server \<Rightarrow> 'w client \<Rightarrow> bool" for srv :: "'w server" where
  start: "register_to_master srv ips (client_init cache w) = Some (ret, c) \<Longrightarrow> client_reachable srv c"
| call: "client_reachable srv c \<Longrightarrow> call_ok op c \<Longrightarrow> public_call srv op c = Some c' \<Longrightarrow> client_reachable srv c'"

lemma shape_register: "register_loop srv ips n ret c = Some (r, c') \<Longrightarrow> same_shape c c'"
proof (induction srv ips n ret c rule: register_loop.induct)
  case (2 srv ip ips n ret c)
  show ?case
  proof (cases "srv_connect srv ip [F_int NEW_CLIENT] (cl_world c)")
    case (Pair x w)
    show ?thesis
    proof (cases x)
      case None
      then show ?thesis using 2(2) Pair by auto
    next
      case (Some y)
      obtain h rs where y: "y = (h, rs)" by (rule prod.exhaust)
      let ?c = "c\<lparr>cl_world := w, cl_masters := cl_masters c @ [new_SCBB n h]\<rparr>"
      from 2(2) Pair Some y obtain ret1 z where z: "pop_ret rs = Some (ret1, z)" "register_loop srv ips (n + 1) ret1 ?c = Some (r, c')"
        by (auto simp: bind_eq_Some_conv)
      have "same_shape ?c c'" using 2(1) Pair Some y z by simp
      moreover have "same_shape c ?c" by (simp add: same_shape_def)
      ultimately show ?thesis using same_shape_trans by blast
    qed
  qed
qed simp

lemma inv_start: "register_to_master srv ips (client_init cache w) = Some (ret, c) \<Longrightarrow> client_inv c"
proof -
  assume r: "register_to_master srv ips (client_init cache w) = Some (ret, c)"
  have "client_inv (client_init cache w)" by (simp add: client_inv_def client_init_def)
  moreover have "same_shape (client_init cache w) c" using r by (auto simp: register_to_master_def split: option.splits dest: shape_register)
  ultimately show ?thesis by (rule client_inv_shape)
qed

lemma inv_keeps: "client_inv c \<Longrightarrow> keeps c X \<Longrightarrow> X = Some (r, c') \<Longrightarrow> client_inv c'"
  by (erule client_inv_shape) (rule keepsD)

lemma inv_public_call:
  assumes inv: "client_inv c" and ok: "call_ok op c" and r: "public_call srv op c = Some c'"
  shows "client_inv c'"
proof (cases op)
  case (P_readdir garbage path)
  with r obtain ret dir' where d: "retry CBB_COMM_RETRY FAILURE (client_readdir srv garbage path) (c, []) = Some (ret, (c', dir'))"
    by (auto simp: CBB_readdir_def simp del: retry.simps)
  have s: "client_inv (fst t')" if "client_inv (fst t)" "client_readdir srv garbage path t = Some (x, t')" for t x t'
    using client_inv_shape [OF that(1) shape_client_readdir [of srv garbage path "fst t" "snd t" x "fst t'" "snd t'"]] that(2) by simp
  have "client_inv (fst (c', dir'))"
    by (rule retry_inv [where I = "\<lambda>t. client_inv (fst t)", OF s _ d]) (simp_all add: inv)
  then show ?thesis by simp
next
  case (P_unlink path)
  let ?I = "\<lambda>c. client_inv c \<and> map_find path (cl_paths c) = None"
  from P_unlink r obtain ret where d: "retry CBB_COMM_RETRY FAILURE (client_unlink srv path) c = Some (ret, c')"
    by (auto simp: CBB_unlink_def simp del: retry.simps)
  have s: "?I c1'" if "?I c1" "client_unlink srv path c1 = Some (x, c1')" for c1 x c1'
  proof -
    have "same_shape c1 c1'" using shape_client_unlink [OF conjunct2 [OF that(1)] that(2)] .
    then show ?thesis using that(1) client_inv_shape [of c1 c1'] by (simp add: same_shape_def)
  qed
  have "?I c'" by (rule retry_inv [where I = ?I, OF s _ d]) (use inv ok P_unlink in simp_all)
  then show ?thesis by simp
next
  case (P_lseek fd offset whence)
  then show ?thesis using r inv inv_keeps [OF _ keeps_client_lseek] by auto
qed (use r inv in \<open>auto simp: CBB_open_def CBB_close_def CBB_read_def CBB_write_def CBB_flush_def CBB_getattr_def CBB_access_def CBB_stat_def
      CBB_mkdir_def CBB_rmdir_def CBB_rename_def CBB_truncate_def CBB_ftruncate_def
    intro: inv_client_open inv_client_close inv_client_rename inv_keeps [OF _ keeps_client_read] inv_keeps [OF _ keeps_client_write]
      inv_keeps [OF _ keeps_client_flush] inv_keeps [OF _ keeps_client_getattr] inv_keeps [OF _ keeps_client_access]
      inv_keeps [OF _ keeps_remote_stat] inv_keeps [OF _ keeps_client_mkdir] inv_keeps [OF _ keeps_client_rmdir]
      inv_keeps [OF _ keeps_client_truncate] inv_keeps [OF _ keeps_client_ftruncate]
    elim!: retry_inv [where I = client_inv, rotated 2]\<close>)


section \<open>Descriptors from open to close\<close>

lemma retry_result:
  assumes "\<And>c c'. I c \<Longrightarrow> op c = Some (Thrown, c') \<Longrightarrow> I c'" "I c" "retry n v op c = Some (x, c')"
  shows "(\<exists>c0. I c0 \<and> op c0 = Some (Ret x, c')) \<or> x = v"
  using assms(2,3)
proof (induction n arbitrary: c)
  case (Suc n)
  then obtain r c1 where r: "op c = Some (r, c1)" "(case r of Ret v \<Rightarrow> Some (v, c1) | Thrown \<Rightarrow> retry n v op c1) = Some (x, c')"
    by (auto simp: bind_eq_Some_conv)
  show ?case
  proof (cases r)
    case (Ret y)
    then show ?thesis using r Suc.prems(1) by auto
  next
    case Thrown
    then show ?thesis using r Suc.IH [OF assms(1) [OF Suc.prems(1)]] by auto
  qed
qed simp

definition descriptor_of :: "string \<Rightarrow> c_int \<Rightarrow> c_int \<Rightarrow> 'w client \<Rightarrow> bool" where
  "descriptor_of path flag fd c \<longleftrightarrow> (\<exists>f m. map_find (fd_to_fid fd) (cl_files c) = Some f \<and> op_fd f = fd \<and> op_flag f = flag \<and>
     map_find path (cl_paths c) = Some (op_meta f) \<and> cl_metas c (op_meta f) = Some m \<and> fd \<in> set (fm_opened_fd m) \<and>
     op_current_point f = (if flag AND O_APPEND \<noteq> 0 then st_size (fm_stat m) else 0))"

lemma open_fid_gives:
  assumes inv: "map_inv (cl_files c)" and free: "map_find fid (cl_files c) = None" and r: "open_fid fid flag p c = Some (fd, c')"
    and p: "map_find path (cl_paths c) = Some p"
  shows "fd = fid_to_fd fid" "descriptor_of path flag fd c'" "x \<noteq> fid \<Longrightarrow> map_find x (cl_files c') = map_find x (cl_files c)"
proof -
  let ?g = "opened_file (fid_to_fd fid) flag p"
  from r obtain c1 c3 m c4 where c: "upd_meta p (\<lambda>m. m\<lparr>fm_open_count := fm_open_count m + 1\<rparr>) c = Some c1"
    "upd_meta p (\<lambda>m. m\<lparr>fm_opened_fd := set_insert (fid_to_fd fid) (fm_opened_fd m)\<rparr>) (c1\<lparr>cl_files := fst (map_insert fid ?g (cl_files c1))\<rparr>) = Some c3"
    "deref_meta p c3 = Some m"
    "(if flag AND O_APPEND \<noteq> 0 then upd_opened fid (\<lambda>f. f\<lparr>op_current_point := st_size (fm_stat m)\<rparr>) c3 else Some c3) = Some c4" "c' = set_errno 0 c4"
    "fd = fid_to_fd fid"
    by (auto simp only: open_fid_def bind_eq_Some_conv Let_def)
  show "fd = fid_to_fd fid" by (rule c(6))
  have f1: "cl_files c1 = cl_files c" "cl_paths c1 = cl_paths c" using c(1) by (auto simp: upd_meta_def bind_eq_Some_conv)
  have f3: "map_find y (cl_files c3) = (if y = fid then Some ?g else map_find y (cl_files c))" for y
    using c(2) f1 map_insert_free [OF inv free] by (auto simp: upd_meta_def bind_eq_Some_conv)
  have f4: "map_find y (cl_files c4) = (if y = fid then Some (?g\<lparr>op_current_point := (if flag AND O_APPEND \<noteq> 0 then st_size (fm_stat m) else 0)\<rparr>) else map_find y (cl_files c))"
    "cl_metas c4 p = Some m" "cl_paths c4 = cl_paths c" for y
    using c(2,3,4) f1 f3 [of y] f3 [of fid] by (auto simp: upd_opened_def upd_meta_def deref_meta_def opened_file_def bind_eq_Some_conv split: if_splits)
  have "fid_to_fd fid \<in> set (fm_opened_fd m)" using c(2,3) by (auto simp: upd_meta_def deref_meta_def bind_eq_Some_conv)
  then show "descriptor_of path flag fd c'" using f4(1) [of fid] f4(2,3) p c(5,6)
    by (simp add: descriptor_of_def set_errno_def opened_file_def fd_to_fid_def fid_to_fd_def)
  show "map_find x (cl_files c') = map_find x (cl_files c)" if "x \<noteq> fid" using f4(1) [of x] that c(5) by (simp add: set_errno_def)
qed


lemma client_open_Thrown:
  assumes "client_open srv path flag mode c = Some (Thrown, c')"
  shows "cl_files c' = cl_files c"
proof -
  obtain fid c1 where g: "get_fid c = (fid, c1)" by (rule prod.exhaust)
  have f1: "cl_files c1 = cl_files c" using g by (auto simp: get_fid_def split: option.splits)
  from assms g have *: "fid \<noteq> -1" "map_find path (cl_paths c) = None"
    by (auto simp: client_open_def bind_eq_Some_conv split: if_splits option.splits)
  with assms g obtain x c2 where x: "remote_open srv path flag mode c1 = Some (x, c2)" by (auto simp: client_open_def bind_eq_Some_conv)
  then have "x = Thrown \<and> c2 = c'" using assms g * by (cases x) (auto simp: client_open_def bind_eq_Some_conv split: option.splits)
  then show ?thesis using f1 remote_open_result [OF x] by auto
qed

lemma client_open_Ret:
  assumes inv: "client_inv c" and r: "client_open srv path flag mode c = Some (Ret fd, c')" and fd: "fd \<noteq> -1"
  shows "interpret_fd fd" "fd < INIT_FD + MAX_FILE" "map_find (fd_to_fid fd) (cl_files c) = None" "descriptor_of path flag fd c'"
    "x \<noteq> fd_to_fid fd \<Longrightarrow> map_find x (cl_files c') = map_find x (cl_files c)"
proof -
  obtain fid c1 where g: "get_fid c = (fid, c1)" by (rule prod.exhaust)
  then have ne: "fid \<noteq> -1" using r fd by (auto simp: client_open_def)
  note G = get_fid_found [OF inv g ne] inv_get_fid [OF inv g ne]
  have f1: "cl_files c1 = cl_files c" "cl_paths c1 = cl_paths c" using G(4) by simp_all
  have "\<exists>p c3. open_fid fid flag p c3 = Some (fd, c') \<and> cl_files c3 = cl_files c \<and> map_find path (cl_paths c3) = Some p"
  proof (cases "map_find path (cl_paths c)")
    case (Some p)
    then have "open_fid fid flag p c1 = Some (fd, c')" using r g ne by (auto simp: client_open_def bind_eq_Some_conv)
    then show ?thesis using f1 Some by (intro exI [of _ p] exI [of _ c1]) simp
  next
    case None
    with r g ne obtain y c2 where y: "remote_open srv path flag mode c1 = Some (y, c2)" by (auto simp: client_open_def bind_eq_Some_conv)
    then obtain p where p: "y = Ret (Some p)" using r g ne None by (cases y) (auto simp: client_open_def split: option.splits)
    with r g ne None y obtain c3 where x: "remote_open srv path flag mode c1 = Some (Ret (Some p), c2)"
      "upd_meta p (\<lambda>m. m\<lparr>fm_it := path\<rparr>) (c2\<lparr>cl_paths := fst (map_insert path p (cl_paths c2))\<rparr>) = Some c3" "open_fid fid flag p c3 = Some (fd, c')"
      by (auto simp: client_open_def bind_eq_Some_conv)
    have f2: "cl_files c2 = cl_files c" "cl_paths c2 = cl_paths c" using remote_open_result [OF x(1)] f1 by (auto simp: same_shape_def)
    have "cl_files c3 = cl_files c" "map_find path (cl_paths c3) = Some p"
      using x(2) f2 None map_insert_free [OF client_invD(2) [OF inv] None] by (auto simp: upd_meta_def bind_eq_Some_conv)
    then show ?thesis using x(3) by blast
  qed
  then obtain p c3 where c3: "open_fid fid flag p c3 = Some (fd, c')" "cl_files c3 = cl_files c" "map_find path (cl_paths c3) = Some p" by blast
  have free: "map_find fid (cl_files c3) = None" "map_inv (cl_files c3)" using G(6) f1 c3(2) client_invD(1) [OF inv] by simp_all
  note o = open_fid_gives [OF free(2,1) c3(1,3)]
  have e: "fd_to_fid fd = fid" by (simp add: o(1) fid_to_fd_def fd_to_fid_def)
  show "interpret_fd fd" "fd < INIT_FD + MAX_FILE" using G(1,2) o(1) by (simp_all add: interpret_fd_def fid_to_fd_def)
  show "map_find (fd_to_fid fd) (cl_files c) = None" using free c3(2) e by simp
  show "descriptor_of path flag fd c'" by (rule o(2))
  show "x \<noteq> fd_to_fid fd \<Longrightarrow> map_find x (cl_files c') = map_find x (cl_files c)" using o(3) e c3(2) by simp
qed

lemma CBB_open_Ret:
  assumes inv: "client_inv c" and r: "CBB_open srv path flag mode c = Some (fd, c')" and fd: "fd \<noteq> -1"
  shows "\<exists>c0. client_inv c0 \<and> cl_files c0 = cl_files c \<and> client_open srv path flag mode c0 = Some (Ret fd, c')"
proof -
  let ?I = "\<lambda>d. client_inv d \<and> cl_files d = cl_files c"
  have "?I d'" if "?I d" "client_open srv path flag mode d = Some (Thrown, d')" for d d'
    using that inv_client_open [OF _ that(2)] client_open_Thrown [OF that(2)] by simp
  from retry_result [where I = ?I, OF this _ r [unfolded CBB_open_def]] show ?thesis using inv fd by auto
qed

lemma fd_request_Thrown:
  assumes "fd_request srv code fd c k = Some (Thrown, c')" "\<And>c1 d. k c1 \<noteq> Some (Thrown, d)"
  shows "cl_files c' = cl_files c"
proof -
  from assms(1) obtain h msg where q: "query srv h msg [] c (\<lambda>rs _ c1. do { (ret, _) \<leftarrow> pop_ret rs;
      if ret = SUCCESS then k c1 else Some (Ret (-1), set_errno (- ret) c1) }) = Some (Thrown, c')" by (auto simp: fd_request_def bind_eq_Some_conv)
  obtain x c1 where x: "get_query_response srv h msg [] c = (x, c1)" by (rule prod.exhaust)
  have "c1 = c'" using q x assms(2) by (cases x) (auto simp: query_def bind_eq_Some_conv split: if_splits)
  then show ?thesis using response_files [OF x] by simp
qed

lemma delete_open_file_fields:
  "delete_open_file fid c = Some c' \<Longrightarrow> cl_files c' = map_erase fid (cl_files c) \<and> cl_opened c' = (cl_opened c)(fid := False)"
  by (auto simp: delete_open_file_def delete_file_meta_def upd_meta_def Let_def bind_eq_Some_conv split: if_splits)

lemma client_close_0:
  assumes "client_close srv fd c = Some (Ret 0, c')"
  shows "cl_files c' = map_erase (fd_to_fid fd) (cl_files c)" "\<not> cl_opened c' (fd_to_fid fd)"
proof -
  from assms obtain h msg where q: "query srv h msg [] c (\<lambda>rs _ c1. do { (ret, _) \<leftarrow> pop_ret rs;
      if ret = SUCCESS then delete_open_file (fd_to_fid fd) c1 \<bind> (\<lambda>c2. Some (Ret 0, c2)) else Some (Ret (-1), set_errno (- ret) c1) }) = Some (Ret (0 :: int), c')"
    by (auto simp: client_close_def fd_request_def bind_eq_Some_conv)
  obtain x c1 where x: "get_query_response srv h msg [] c = (x, c1)" by (rule prod.exhaust)
  have d: "delete_open_file (fd_to_fid fd) c1 = Some c'"
    using q x by (auto simp: query_def bind_eq_Some_conv split: outcome.splits if_splits)
  show "cl_files c' = map_erase (fd_to_fid fd) (cl_files c)" "\<not> cl_opened c' (fd_to_fid fd)"
    using delete_open_file_fields [OF d] response_files [OF x] by simp_all
qed

lemma CBB_close_0:
  assumes inv: "client_inv c" and r: "CBB_close srv fd c = Some (0, c')"
  shows "map_find x (cl_files c') = (if x = fd_to_fid fd then None else map_find x (cl_files c))" "\<not> cl_opened c' (fd_to_fid fd)"
proof -
  let ?I = "\<lambda>d. cl_files d = cl_files c"
  have t: "?I d'" if "?I d" "client_close srv fd d = Some (Thrown, d')" for d d'
    using that(1) fd_request_Thrown [OF that(2) [unfolded client_close_def]] by (simp add: bind_eq_Some_conv)
  have "(\<exists>c0. ?I c0 \<and> client_close srv fd c0 = Some (Ret 0, c')) \<or> (0 :: int) = FAILURE"
    by (rule retry_result [where I = ?I, OF _ refl r [unfolded CBB_close_def]]) (rule t)
  then obtain c0 where c0: "cl_files c0 = cl_files c" "client_close srv fd c0 = Some (Ret 0, c')" by auto
  show "map_find x (cl_files c') = (if x = fd_to_fid fd then None else map_find x (cl_files c))" "\<not> cl_opened c' (fd_to_fid fd)"
    using client_close_0 [OF c0(2)] c0(1) client_invD(1) [OF inv] by simp_all
qed

lemma client_reachable_inv: "client_reachable srv c \<Longrightarrow> client_inv c"
  by (induction rule: client_reachable.induct) (auto intro: inv_start inv_public_call)


section \<open>The tables of a client\<close>

text \<open>Servers that grant every request, for concrete executions.\<close>

definition granting_server :: "nat server" where
  "granting_server = \<lparr>srv_query = (\<lambda>h msg d w. (Some ([F_int SUCCESS, F_off 5, F_size 4096] @ attr_fields zero_stat, []), w + 1)),
     srv_connect = (\<lambda>ip msg w. (Some (1, [F_int SUCCESS]), w + 1)), srv_post = (\<lambda>h msg w. w + 1), srv_time = (\<lambda>w. 7), srv_hash = (\<lambda>s. 0)\<rparr>"

definition started_client :: "nat client" where
  "started_client = (client_init False 0)\<lparr>cl_masters := [new_SCBB 0 1], cl_world := 1\<rparr>"

lemma started_reachable: "client_reachable granting_server started_client"
  by (rule client_reachable.start [where ips = "Some ''m''" and cache = False and w = 0 and ret = 0])
    (simp add: register_to_master_def granting_server_def started_client_def client_init_def pop_ret_def)

lemma opened_execution:
  "\<exists>c. CBB_open granting_server ''/a'' O_CREAT 420 started_client = Some (1000, c) \<and> map_find 0 (cl_files c) \<noteq> None"
proof -
  have "map_option (\<lambda>(fd, c). (fd, map_find 0 (cl_files c) \<noteq> None)) (CBB_open granting_server ''/a'' O_CREAT 420 started_client) = Some (1000, True)"
    by code_simp
  then show ?thesis by (elim map_option_eq_Some [THEN iffD1, THEN exE] conjE) (simp only: case_prod_unfold prod.inject, metis prod.collapse)
qed

text \<open>C7: In every state that a client reaches from its registration by the public operations (open,
  close, read, write, flush, lseek, the attributes, the directories, rename, truncate, unlink of a
  file that it does not have open), with any servers, answers and broken connections, repeated
  attempts included: every entry of the descriptor table is a used number within the bounds, with
  its descriptor and existing meta data; every path leads to meta data that carries it; and the
  open count of a file is the number of the descriptors in its set, which are those of the table.
\<close>

theorem client_tables_agree:
  assumes "client_reachable srv c"
  shows "client_inv c"
  using assms by (rule client_reachable_inv)

theorem client_tables_agree_witness:
  "\<exists>c. client_reachable granting_server c \<and> map_find 0 (cl_files c) \<noteq> None \<and> client_inv c"
proof -
  from opened_execution obtain c where c: "CBB_open granting_server ''/a'' O_CREAT 420 started_client = Some (1000, c)" "map_find 0 (cl_files c) \<noteq> None" by blast
  have "client_reachable granting_server c"
    by (rule client_reachable.call [OF started_reachable, where op = "P_open ''/a'' O_CREAT 420"]) (simp_all only: call_ok.simps public_call.simps c(1) option.map snd_conv)
  then show ?thesis using c(2) client_tables_agree by blast
qed

text \<open>C8: A descriptor that open returns is in range, was free, and in the new state stands for the
  file of the path, at position 0 or, with \<^verbatim>\<open>O_APPEND\<close>, at the end of the file; all other
  descriptors are as before. When close then reports success the table has the entries from
  before the open again and the number is free.
\<close>

theorem open_close_descriptor:
  assumes "client_reachable srv c" "CBB_open srv path flag mode c = Some (fd, c1)" "fd \<noteq> -1"
  shows "interpret_fd fd \<and> fd < INIT_FD + MAX_FILE \<and> map_find (fd_to_fid fd) (cl_files c) = None \<and> descriptor_of path flag fd c1 \<and>
    (\<forall>x. x \<noteq> fd_to_fid fd \<longrightarrow> map_find x (cl_files c1) = map_find x (cl_files c)) \<and>
    (\<forall>c2. CBB_close srv fd c1 = Some (0, c2) \<longrightarrow>
       (\<forall>x. map_find x (cl_files c2) = map_find x (cl_files c)) \<and> \<not> cl_opened c2 (fd_to_fid fd))"
proof -
  note inv = client_reachable_inv [OF assms(1)]
  from CBB_open_Ret [OF inv assms(2,3)] obtain c0 where
    c0: "client_inv c0" "cl_files c0 = cl_files c" "client_open srv path flag mode c0 = Some (Ret fd, c1)" by blast
  note o = client_open_Ret [OF c0(1,3) assms(3)]
  have inv1: "client_inv c1" by (rule inv_client_open [OF c0(1,3)])
  have cl: "(\<forall>x. map_find x (cl_files c2) = map_find x (cl_files c)) \<and> \<not> cl_opened c2 (fd_to_fid fd)"
    if "CBB_close srv fd c1 = Some (0, c2)" for c2
    using CBB_close_0 [OF inv1 that] o(3,5) c0(2) by simp
  show ?thesis using o c0(2) cl by auto
qed


theorem open_close_descriptor_witness:
  "\<exists>c1. CBB_open granting_server ''/a'' O_CREAT 420 started_client = Some (1000, c1) \<and> descriptor_of ''/a'' O_CREAT 1000 c1"
proof -
  from opened_execution obtain c where c: "CBB_open granting_server ''/a'' O_CREAT 420 started_client = Some (1000, c)" by blast
  then show ?thesis using open_close_descriptor [OF started_reachable c] by simp
qed

end
