(* ===== verification/Client_Stream.thy ===== *)
theory Client_Stream
  imports Client_Files Memory_Pool
begin

text \<open>
  Buffered streams (Client/include/CBB\_stream.h, Client/src/CBB\_stream.cpp): a stream keeps one
  buffer of a file's bytes in front of a descriptor of the client.

  \<^item> A \<^verbatim>\<open>stream_info*\<close>, which the caller holds as a \<^verbatim>\<open>FILE*\<close>, is a key of \<open>ss_pool\<close>; a stream lives
    exactly while it is in the pool.
  \<^item> The pointer \<^verbatim>\<open>cur_buf_ptr\<close> is its distance from \<^verbatim>\<open>buf\<close>. The memory behind \<^verbatim>\<open>buf\<close> has
    \<open>si_buf_len\<close> bytes: the size of a block of the buffer pool, or what the caller of
    \<^verbatim>\<open>setbuf_stream\<close> provides. A copy that leaves the memory is undefined, the result None.
  \<^item> What fresh memory holds is the parameter \<open>garbage\<close>; whether \<^verbatim>\<open>malloc\<close> succeeds is \<open>ss_malloc\<close>.
  \<^item> The buffers come from the client's own memory pool, set up with the constants of the build:
    10 preallocated blocks with \<^verbatim>\<open>SINGLE_THREAD\<close>, none in the default build, where the first
    buffered stream reads through the null head of the free list. That and an allocation that
    throws, which nothing catches, are None: in the default build a stream can be opened only with
    buffering switched off, and what is proved of buffered streams is about \<^verbatim>\<open>SINGLE_THREAD\<close>.
\<close>

abbreviation (input) "STREAM_BUFFER_SIZE \<equiv> BLOCK_SIZE"
abbreviation (input) "CLEAN \<equiv> False"
abbreviation (input) "DIRTY \<equiv> True"
abbreviation (input) "NO_ERROR \<equiv> 0 :: int"
abbreviation (input) "O_RDONLY \<equiv> 0 :: int"

section \<open>State\<close>

record stream_info =
  si_dirty :: bool
  si_buffer_flag :: bool
  si_fd :: c_int
  si_err :: c_int
  si_open_flag :: c_int
  si_open_mode :: mode_t
  si_buf :: "nat \<Rightarrow> byte"
  si_buf_len :: int
  si_cur :: off64_t
  si_buffer_size :: size_t
  si_buffered :: size_t
  si_file_size :: size_t
  si_buf_off :: off64_t
  si_elem :: "nat option"

record 'w streams =
  ss_client :: "'w client"
  ss_pool :: "(nat, stream_info) std_map"
  ss_fresh :: nat
  ss_use_buffer :: bool
  ss_buffers :: memory_pool
  ss_malloc :: "nat \<Rightarrow> bool"

text \<open>The members of a new stream; \<open>elem\<close> is the block of its buffer.\<close>

definition init_stream_info :: "nat option \<Rightarrow> (nat \<Rightarrow> byte) \<Rightarrow> c_int \<Rightarrow> size_t \<Rightarrow> off64_t \<Rightarrow> c_int \<Rightarrow> mode_t \<Rightarrow> stream_info" where
  "init_stream_info elem garbage fd file_size off flag mode =
     \<lparr>si_dirty = CLEAN, si_buffer_flag = (elem \<noteq> None), si_fd = fd, si_err = NO_ERROR, si_open_flag = flag, si_open_mode = mode,
      si_buf = garbage, si_buf_len = (if elem \<noteq> None then STREAM_BUFFER_SIZE else 0), si_cur = 0, si_buffer_size = STREAM_BUFFER_SIZE,
      si_buffered = 0, si_file_size = file_size, si_buf_off = off, si_elem = elem\<rparr>"

definition new_stream_info :: "(nat \<Rightarrow> bool) \<Rightarrow> bool \<Rightarrow> (nat \<Rightarrow> byte) \<Rightarrow> c_int \<Rightarrow> size_t \<Rightarrow> off64_t \<Rightarrow> c_int \<Rightarrow> mode_t \<Rightarrow> memory_pool \<Rightarrow>
    (stream_info \<times> memory_pool) option" where
  "new_stream_info malloc buffer_flag garbage fd file_size off flag mode buffers =
     (if buffer_flag then do {
        (r, buffers1) \<leftarrow> allocate malloc buffers;
        case r of
          Inl _ \<Rightarrow> None
        | Inr elem \<Rightarrow> Some (init_stream_info (Some elem) garbage fd file_size off flag mode, buffers1)
      } else Some (init_stream_info None garbage fd file_size off flag mode, buffers))"

text \<open>The constructor; the environment variable decides on the buffers, the build on their pool.\<close>

definition CLIENT_PRE_ALLOCATE_MEMORY_COUNT :: "bool \<Rightarrow> c_int" where
  "CLIENT_PRE_ALLOCATE_MEMORY_COUNT single_thread = (if single_thread then 10 else 0)"

definition streams_init :: "bool \<Rightarrow> (nat \<Rightarrow> bool) \<Rightarrow> string option \<Rightarrow> 'w client \<Rightarrow> 'w streams" where
  "streams_init single_thread malloc use_buffer c =
     \<lparr>ss_client = c, ss_pool = [], ss_fresh = 0, ss_use_buffer = (case use_buffer of None \<Rightarrow> True | Some s \<Rightarrow> s = ''true''),
      ss_buffers = memory_pool_new STREAM_BUFFER_SIZE (int MAX_FILE_NUMBER) (CLIENT_PRE_ALLOCATE_MEMORY_COUNT single_thread),
      ss_malloc = malloc\<rparr>"

definition interpret_stream :: "nat \<Rightarrow> 'w streams \<Rightarrow> bool" where
  "interpret_stream p S \<longleftrightarrow> map_find p (ss_pool S) \<noteq> None"

section \<open>Positions and sizes\<close>

definition cur_file_off :: "stream_info \<Rightarrow> off64_t" where
  "cur_file_off s = si_buf_off s + si_cur s"

definition remaining_buffer_data_size :: "stream_info \<Rightarrow> size_t" where
  "remaining_buffer_data_size s = (if si_cur s > s64 (si_buffered s) then si_buffered s else u64 (si_buffered s - si_cur s))"

definition remaining_buffer_size :: "stream_info \<Rightarrow> size_t" where
  "remaining_buffer_size s = u64 (si_buffer_size s - si_cur s)"

definition buf_off_from_file_off :: "off64_t \<Rightarrow> stream_info \<Rightarrow> off64_t" where
  "buf_off_from_file_off file_off s = file_off - cur_file_off s + si_cur s"

definition stream_update_file_size :: "'w client \<Rightarrow> stream_info \<Rightarrow> stream_info option" where
  "stream_update_file_size c s =
     do { sz \<leftarrow> get_file_size (si_fd s) c; Some (if si_file_size s < sz then s\<lparr>si_file_size := sz\<rparr> else s) }"

definition update_cur_buf_ptr :: "size_t \<Rightarrow> 'w client \<Rightarrow> stream_info \<Rightarrow> (size_t \<times> stream_info) option" where
  "update_cur_buf_ptr update_size c s =
     do {
       s1 \<leftarrow> stream_update_file_size c s;
       if si_file_size s1 < u64 (update_size + cur_file_off s1) then do {
         let rest = u64 (si_file_size s1 - cur_file_off s1);
         Some (rest, s1\<lparr>si_cur := s64 (si_cur s1 + rest)\<rparr>)
       } else Some (update_size, s1\<lparr>si_cur := si_cur s1 + update_size\<rparr>)
     }"

definition update_meta_for_rebuf :: "bool \<Rightarrow> size_t \<Rightarrow> stream_info \<Rightarrow> stream_info" where
  "update_meta_for_rebuf new_dirty rebuffered s =
     (let s1 = s\<lparr>si_buf_off := s64 (si_buf_off s + si_buffered s), si_dirty := new_dirty, si_buffered := rebuffered\<rparr>;
          s2 = (if u64 (si_buf_off s1 + rebuffered) > si_file_size s1 then s1\<lparr>si_file_size := u64 (si_buf_off s1 + rebuffered)\<rparr> else s1)
      in if si_cur s2 \<ge> s64 (si_buffer_size s2) then s2\<lparr>si_cur := 0\<rparr> else s2)"

definition write_meta_update :: "size_t \<Rightarrow> stream_info \<Rightarrow> stream_info" where
  "write_meta_update write_size s =
     (let s1 = s\<lparr>si_cur := s64 (si_cur s + write_size)\<rparr>;
          s2 = (if si_cur s1 > s64 (si_buffered s1) then s1\<lparr>si_buffered := u64 (si_cur s1)\<rparr> else s1)
      in if u64 (cur_file_off s2) > si_file_size s2 then s2\<lparr>si_file_size := u64 (cur_file_off s2)\<rparr> else s2)"

text \<open>Copies from and to the buffer.\<close>

definition buf_get :: "off64_t \<Rightarrow> size_t \<Rightarrow> stream_info \<Rightarrow> byte list option" where
  "buf_get off n s = (if n = 0 then Some [] else if 0 \<le> off \<and> off + n \<le> si_buf_len s then Some (get_bytes (nat off) (nat n) (si_buf s)) else None)"

definition buf_put :: "off64_t \<Rightarrow> byte list \<Rightarrow> stream_info \<Rightarrow> stream_info option" where
  "buf_put off bs s =
     (if bs = [] then Some s
      else if 0 \<le> off \<and> off + int (length bs) \<le> si_buf_len s then Some (s\<lparr>si_buf := put_bytes (nat off) bs (si_buf s)\<rparr>) else None)"

section \<open>Flush\<close>

text \<open>After the write the descriptor is moved once more by the size that was written.\<close>

definition flush_info :: "'w server \<Rightarrow> stream_info \<Rightarrow> 'w client \<Rightarrow> (stream_info \<times> 'w client) option" where
  "flush_info srv s c =
     (if si_buffer_flag s \<and> si_dirty s = DIRTY then do {
        (_, c1) \<leftarrow> update_file_size (si_fd s) (si_file_size s) c;
        (_, c2) \<leftarrow> client_lseek (si_fd s) (si_buf_off s) SEEK_SET c1;
        d \<leftarrow> buf_get 0 (si_buffered s) s;
        (_, c3) \<leftarrow> CBB_write srv (si_fd s) d c2;
        (_, c4) \<leftarrow> client_lseek (si_fd s) (s64 (si_buffered s)) SEEK_CUR c3;
        Some (s\<lparr>si_dirty := CLEAN\<rparr>, c4)
      } else Some (s, c))"

section \<open>Read\<close>

text \<open>A failed read of the client is -1, which as a size is not 0.\<close>

partial_function (option) read_info_loop :: "'w server \<Rightarrow> size_t \<Rightarrow> byte list \<Rightarrow> stream_info \<Rightarrow> 'w client \<Rightarrow>
    (byte list \<times> stream_info \<times> 'w client) option" where
  "read_info_loop srv unbuffered buffer s c =
     (if unbuffered \<noteq> 0 then
        Option.bind (flush_info srv s c) (\<lambda>(s1, c1).
        Option.bind (CBB_read srv (si_fd s1) (si_buffer_size s1) c1) (\<lambda>((r, d), c2).
        Option.bind (buf_put 0 d s1) (\<lambda>s2.
          if u64 r = 0 then Some (buffer, s2, c2)
          else let s3 = update_meta_for_rebuf CLEAN (u64 r) s2;
                   IO_size = min unbuffered (remaining_buffer_data_size s3) in
            Option.bind (buf_get (si_cur s3) IO_size s3) (\<lambda>e.
            Option.bind (update_cur_buf_ptr IO_size c2 s3) (\<lambda>(_, s4).
              read_info_loop srv (unbuffered - IO_size) (buffer @ e) s4 c2)))))
      else Some (buffer, s, c))"

definition read_info :: "'w server \<Rightarrow> size_t \<Rightarrow> stream_info \<Rightarrow> 'w client \<Rightarrow> ((size_t \<times> byte list) \<times> stream_info \<times> 'w client) option" where
  "read_info srv sz s c =
     (if si_buffer_flag s then do {
        let buffered = min (remaining_buffer_data_size s) sz;
        d \<leftarrow> buf_get (si_cur s) buffered s;
        (_, s1) \<leftarrow> update_cur_buf_ptr buffered c s;
        (e, s2, c2) \<leftarrow> read_info_loop srv (sz - buffered) d s1 c;
        Some ((int (length e), e), s2, c2)
      } else do {
        ((r, d), c1) \<leftarrow> CBB_read srv (si_fd s) sz c;
        Some ((u64 r, d), s, c1)
      })"

section \<open>Write\<close>

definition init_buffer_for_writing :: "'w server \<Rightarrow> stream_info \<Rightarrow> 'w client \<Rightarrow> (stream_info \<times> 'w client) option" where
  "init_buffer_for_writing srv s c =
     (if si_cur s > s64 (si_buffered s) \<and> si_buf_off s < s64 (si_file_size s) then do {
        (s1, c1) \<leftarrow> flush_info srv s c;
        ((_, d), c2) \<leftarrow> CBB_read srv (si_fd s1) (si_buffer_size s1) c1;
        s2 \<leftarrow> buf_put 0 d s1;
        Some (s2, c2)
      } else Some (s, c))"

partial_function (option) write_info_loop :: "'w server \<Rightarrow> byte list \<Rightarrow> stream_info \<Rightarrow> 'w client \<Rightarrow> (stream_info \<times> 'w client) option" where
  "write_info_loop srv buffer s c =
     (if buffer \<noteq> [] then
        Option.bind (flush_info srv s c) (\<lambda>(s1, c1).
          let s2 = update_meta_for_rebuf DIRTY 0 s1;
              n = nat (min (int (length buffer)) (remaining_buffer_size s2)) in
          Option.bind (buf_put 0 (take n buffer) s2) (\<lambda>s3.
            write_info_loop srv (drop n buffer) (write_meta_update (int n) s3) c1))
      else Some (s, c))"

definition write_info :: "'w server \<Rightarrow> byte list \<Rightarrow> stream_info \<Rightarrow> 'w client \<Rightarrow> (size_t \<times> stream_info \<times> 'w client) option" where
  "write_info srv buffer s c =
     (if \<not> (si_open_flag s AND O_WRONLY \<noteq> 0 \<or> si_open_flag s AND O_RDWR \<noteq> 0) then Some (0, s\<lparr>si_err := EBADF\<rparr>, c)
      else if si_buffer_flag s then do {
        let n = nat (min (remaining_buffer_size s) (int (length buffer)));
        (s1, c1) \<leftarrow> init_buffer_for_writing srv s c;
        s2 \<leftarrow> buf_put (si_cur s1) (take n buffer) s1;
        (s3, c3) \<leftarrow> write_info_loop srv (drop n buffer) ((write_meta_update (int n) s2)\<lparr>si_dirty := DIRTY\<rparr>) c1;
        Some (int (length buffer), s3, c3)
      } else do {
        (r, c1) \<leftarrow> CBB_write srv (si_fd s) buffer c;
        Some (u64 r, s, c1)
      })"

section \<open>Positions\<close>

text \<open>An unknown \<^verbatim>\<open>whence\<close> leaves the new position 0. \<^verbatim>\<open>SEEK_END\<close> uses the size the client knows.\<close>

definition seek_info :: "'w server \<Rightarrow> off64_t \<Rightarrow> c_int \<Rightarrow> stream_info \<Rightarrow> 'w client \<Rightarrow> (off64_t \<times> stream_info \<times> 'w client) option" where
  "seek_info srv offset whence s c =
     (if si_buffer_flag s then do {
        new_pos \<leftarrow> (if whence = SEEK_SET then Some offset
                    else if whence = SEEK_CUR then Some (cur_file_off s + offset)
                    else if whence = SEEK_END then map_option (\<lambda>sz. s64 sz + offset) (get_file_size (si_fd s) c)
                    else Some 0);
        if new_pos > s64 (si_buf_off s + si_buffered s) \<or> new_pos < si_buf_off s then do {
          (s1, c1) \<leftarrow> flush_info srv s c;
          let start = get_block_start_point new_pos;
          (_, c2) \<leftarrow> client_lseek (si_fd s1) start SEEK_SET c1;
          Some (new_pos, s1\<lparr>si_buf_off := start, si_buffered := 0, si_cur := new_pos - start\<rparr>, c2)
        } else Some (new_pos, s\<lparr>si_cur := buf_off_from_file_off new_pos s\<rparr>, c)
      } else do {
        (new_pos, c1) \<leftarrow> client_lseek (si_fd s) offset whence c;
        Some (new_pos, s, c1)
      })"

definition tell_info :: "stream_info \<Rightarrow> 'w client \<Rightarrow> off64_t option" where
  "tell_info s c = (if si_buffer_flag s then Some (si_buf_off s + si_cur s) else client_tell (si_fd s) c)"

definition eof_info :: "stream_info \<Rightarrow> bool" where
  "eof_info s \<longleftrightarrow> \<not> cur_file_off s < s64 (si_file_size s)"

definition truncate_info :: "'w server \<Rightarrow> off64_t \<Rightarrow> stream_info \<Rightarrow> 'w client \<Rightarrow> (c_int \<times> stream_info \<times> 'w client) option" where
  "truncate_info srv sz s c =
     do {
       let s1 = s\<lparr>si_file_size := u64 sz\<rparr>;
       let s2 = (if si_buffer_flag s1 \<and> cur_file_off s1 > sz then
                   let s3 = (if si_buf_off s1 > sz then s1\<lparr>si_buf_off := sz\<rparr> else s1) in
                   if s64 (si_buffered s3) > sz - si_buf_off s3
                   then s3\<lparr>si_buffered := u64 (sz - si_buf_off s3), si_cur := sz - si_buf_off s3\<rparr> else s3
                 else s1);
       (r, c1) \<leftarrow> CBB_ftruncate srv (si_fd s2) sz c;
       Some (r, s2, c1)
     }"

section \<open>Buffers\<close>

text \<open>
  The memory goes back to the pool only while the stream is buffered; \<^verbatim>\<open>freebuf_stream\<close> clears the
  flag first and keeps the memory.
\<close>

definition free_buffer :: "stream_info \<Rightarrow> memory_pool \<Rightarrow> stream_info \<times> memory_pool" where
  "free_buffer s buffers =
     (case si_elem s of
        Some elem \<Rightarrow> if si_buffer_flag s then (s\<lparr>si_elem := None, si_buffered := 0\<rparr>, free elem buffers)
                     else (s\<lparr>si_buffered := 0\<rparr>, buffers)
      | None \<Rightarrow> (s\<lparr>si_buffered := 0\<rparr>, buffers))"

definition freebuf_info :: "'w server \<Rightarrow> stream_info \<Rightarrow> memory_pool \<Rightarrow> 'w client \<Rightarrow> ((stream_info \<times> memory_pool) \<times> 'w client) option" where
  "freebuf_info srv s buffers c =
     (if si_buffer_flag s then do {
        (s1, c1) \<leftarrow> flush_info srv s c;
        Some (free_buffer (s1\<lparr>si_buffer_flag := False\<rparr>) buffers, c1)
      } else Some ((s, buffers), c))"

definition setbuf_info :: "(nat \<Rightarrow> byte) \<Rightarrow> int \<Rightarrow> stream_info \<Rightarrow> stream_info" where
  "setbuf_info buf len s =
     (if \<not> si_buffer_flag s then s\<lparr>si_buf := buf, si_buf_len := len, si_buffer_flag := True, si_cur := 0\<rparr> else s)"

section \<open>The pool of streams\<close>

fun parse_open_mode_flag :: "string \<Rightarrow> c_int \<Rightarrow> c_int" where
  "parse_open_mode_flag [] flags = flags"
| "parse_open_mode_flag (m # mode) flags = parse_open_mode_flag mode
     (if m = CHR ''r'' then flags OR O_RDONLY
      else if m = CHR ''w'' then flags OR O_WRONLY OR O_CREAT OR O_TRUNC
      else if m = CHR ''a'' then flags OR O_APPEND
      else if m = CHR ''+'' then flags OR O_RDWR
      else flags)"

text \<open>None in the result is the null pointer.\<close>

definition open_stream_flags :: "'w server \<Rightarrow> (nat \<Rightarrow> byte) \<Rightarrow> string \<Rightarrow> c_int \<Rightarrow> mode_t \<Rightarrow> 'w streams \<Rightarrow> (nat option \<times> 'w streams) option" where
  "open_stream_flags srv garbage path flag mode S =
     do {
       (fd, c1) \<leftarrow> CBB_open srv path flag mode (ss_client S);
       if fd = -1 then Some (None, S\<lparr>ss_client := c1\<rparr>)
       else do {
         file_size \<leftarrow> get_file_size fd c1;
         (s, buffers) \<leftarrow> new_stream_info (ss_malloc S) (ss_use_buffer S) garbage fd file_size 0 flag mode (ss_buffers S);
         let p = ss_fresh S;
         Some (Some p, S\<lparr>ss_client := c1, ss_fresh := p + 1, ss_buffers := buffers, ss_pool := fst (map_insert p s (ss_pool S))\<rparr>)
       }
     }"

definition open_stream :: "'w server \<Rightarrow> (nat \<Rightarrow> byte) \<Rightarrow> string \<Rightarrow> string \<Rightarrow> 'w streams \<Rightarrow> (nat option \<times> 'w streams) option" where
  "open_stream srv garbage path mode = open_stream_flags srv garbage path (parse_open_mode_flag mode 0) 438"

text \<open>The cast of a \<^verbatim>\<open>FILE*\<close>, and an operation on its stream.\<close>

definition on_stream :: "nat \<Rightarrow> (stream_info \<Rightarrow> 'w client \<Rightarrow> ('a \<times> stream_info \<times> 'w client) option) \<Rightarrow> 'w streams \<Rightarrow> ('a \<times> 'w streams) option" where
  "on_stream p k S =
     do {
       s \<leftarrow> map_find p (ss_pool S);
       (r, s1, c1) \<leftarrow> k s (ss_client S);
       Some (r, S\<lparr>ss_client := c1, ss_pool := map_set p s1 (ss_pool S)\<rparr>)
     }"

definition flush_stream :: "'w server \<Rightarrow> nat \<Rightarrow> 'w streams \<Rightarrow> (c_int \<times> 'w streams) option" where
  "flush_stream srv p = on_stream p (\<lambda>s c. do { (s1, c1) \<leftarrow> flush_info srv s c; Some (SUCCESS, s1, c1) })"

definition read_stream :: "'w server \<Rightarrow> nat \<Rightarrow> size_t \<Rightarrow> 'w streams \<Rightarrow> ((size_t \<times> byte list) \<times> 'w streams) option" where
  "read_stream srv p sz = on_stream p (read_info srv sz)"

definition write_stream :: "'w server \<Rightarrow> nat \<Rightarrow> byte list \<Rightarrow> 'w streams \<Rightarrow> (size_t \<times> 'w streams) option" where
  "write_stream srv p buffer = on_stream p (write_info srv buffer)"

definition seek_stream :: "'w server \<Rightarrow> nat \<Rightarrow> off64_t \<Rightarrow> c_int \<Rightarrow> 'w streams \<Rightarrow> (off64_t \<times> 'w streams) option" where
  "seek_stream srv p offset whence = on_stream p (seek_info srv offset whence)"

definition truncate_stream :: "'w server \<Rightarrow> nat \<Rightarrow> off64_t \<Rightarrow> 'w streams \<Rightarrow> (c_int \<times> 'w streams) option" where
  "truncate_stream srv p sz = on_stream p (truncate_info srv sz)"

definition freebuf_stream :: "'w server \<Rightarrow> nat \<Rightarrow> 'w streams \<Rightarrow> (unit \<times> 'w streams) option" where
  "freebuf_stream srv p S =
     do {
       s \<leftarrow> map_find p (ss_pool S);
       ((s1, buffers), c1) \<leftarrow> freebuf_info srv s (ss_buffers S) (ss_client S);
       Some ((), S\<lparr>ss_client := c1, ss_pool := map_set p s1 (ss_pool S), ss_buffers := buffers\<rparr>)
     }"

definition setbuf_stream :: "nat \<Rightarrow> (nat \<Rightarrow> byte) \<Rightarrow> int \<Rightarrow> 'w streams \<Rightarrow> (unit \<times> 'w streams) option" where
  "setbuf_stream p buf len = on_stream p (\<lambda>s c. Some ((), setbuf_info buf len s, c))"

definition update_underlying_file_size :: "nat \<Rightarrow> 'w streams \<Rightarrow> (c_int \<times> 'w streams) option" where
  "update_underlying_file_size p =
     on_stream p (\<lambda>s c. do { (_, c1) \<leftarrow> update_file_size (si_fd s) (si_file_size s) c; Some (SUCCESS, s, c1) })"

definition tell_stream :: "nat \<Rightarrow> 'w streams \<Rightarrow> off64_t option" where
  "tell_stream p S = do { s \<leftarrow> map_find p (ss_pool S); tell_info s (ss_client S) }"

definition eof_stream :: "nat \<Rightarrow> 'w streams \<Rightarrow> bool option" where
  "eof_stream p S = map_option eof_info (map_find p (ss_pool S))"

definition error_stream :: "nat \<Rightarrow> 'w streams \<Rightarrow> c_int option" where
  "error_stream p S = map_option si_err (map_find p (ss_pool S))"

definition fileno_stream :: "nat \<Rightarrow> 'w streams \<Rightarrow> c_int option" where
  "fileno_stream p S = map_option si_fd (map_find p (ss_pool S))"

definition clearerr_stream :: "nat \<Rightarrow> 'w streams \<Rightarrow> (unit \<times> 'w streams) option" where
  "clearerr_stream p = on_stream p (\<lambda>s c. Some ((), s\<lparr>si_err := NO_ERROR\<rparr>, c))"

text \<open>The result of the client's close is not looked at; deleting the stream gives its buffer back.\<close>

definition close_stream :: "'w server \<Rightarrow> nat \<Rightarrow> 'w streams \<Rightarrow> (c_int \<times> 'w streams) option" where
  "close_stream srv p S =
     do {
       s \<leftarrow> map_find p (ss_pool S);
       (s1, c1) \<leftarrow> flush_info srv s (ss_client S);
       (_, c2) \<leftarrow> CBB_close srv (si_fd s1) c1;
       Some (SUCCESS, S\<lparr>ss_client := c2, ss_pool := map_erase p (ss_pool S), ss_buffers := snd (free_buffer s1 (ss_buffers S))\<rparr>)
     }"

fun destroy_streams :: "'w server \<Rightarrow> (nat, stream_info) std_map \<Rightarrow> 'w client \<Rightarrow> 'w client option" where
  "destroy_streams srv [] c = Some c"
| "destroy_streams srv ((_, s) # l) c = do { (_, c1) \<leftarrow> flush_info srv s c; destroy_streams srv l c1 }"

text \<open>The destructor, and the one of the client after it; the pool of buffers dies with it.\<close>

definition streams_destroy :: "'w server \<Rightarrow> 'w streams \<Rightarrow> 'w client option" where
  "streams_destroy srv S = do { c1 \<leftarrow> destroy_streams srv (ss_pool S) (ss_client S); client_destroy srv c1 }"

section \<open>Opening in the two builds\<close>

lemma new_stream_info_init:
  assumes "new_stream_info malloc True garbage fd file_size off flag mode buffers = Some (s, buffers1)"
  obtains elem where "s = init_stream_info (Some elem) garbage fd file_size off flag mode"
proof -
  from assms obtain r b where r: "allocate malloc buffers = Some (r, b)"
    by (auto simp: new_stream_info_def bind_eq_Some_conv)
  then show thesis using assms that by (cases r) (auto simp: new_stream_info_def)
qed

text \<open>In the default build no buffered stream can be opened: when the descriptor is there, the pool is read through a null pointer.\<close>

lemma default_build_open_stream:
  assumes "CBB_open srv path flag mode c = Some (fd, c1)" "fd \<noteq> -1"
  shows "open_stream_flags srv garbage path flag mode (streams_init False malloc None c) = None"
proof -
  let ?p = "memory_pool_new BLOCK_SIZE 1000000 0"
  have "pool_inv {} ?p" by (rule new_pool_ok) (simp_all add: BLOCK_SIZE_def)
  moreover have "step_size ?p = 0" "pool_head ?p = None" "allocated_size ?p + block_size ?p \<le> total_size ?p"
    by (simp_all add: memory_pool_new_def pool_setup_def memory_pool_init_def u64_def BLOCK_SIZE_def)
  ultimately have "allocate malloc ?p = Some (Inl Null_deref, ?p)" by (rule allocate_zero_step)
  then show ?thesis
    using assms
    by (cases "get_file_size fd c1")
       (simp_all add: open_stream_flags_def streams_init_def new_stream_info_def CLIENT_PRE_ALLOCATE_MEMORY_COUNT_def)
qed

text \<open>With \<^verbatim>\<open>SINGLE_THREAD\<close> and memory, the first stream gets a buffer.\<close>

lemma single_thread_new_stream:
  "\<exists>elem buffers1. new_stream_info malloc_ok True garbage fd file_size off flag mode
     (ss_buffers (streams_init True malloc_ok use_buffer c)) = Some (init_stream_info (Some elem) garbage fd file_size off flag mode, buffers1)"
proof -
  let ?p = "memory_pool_new BLOCK_SIZE 1000000 10"
  have inv: "pool_inv {} ?p" by (rule new_pool_ok) (simp_all add: BLOCK_SIZE_def)
  have "0 < step_size ?p" "has_memory_left (block_size ?p) ?p"
    by (simp_all add: memory_pool_new_def pool_setup_def memory_pool_init_def has_memory_left_def u64_def BLOCK_SIZE_def)
  with allocate_cases [OF inv] obtain elem buffers1 where "allocate malloc_ok ?p = Some (Inr elem, buffers1)" by auto
  then show ?thesis
    by (intro exI [of _ elem] exI [of _ buffers1])
       (simp add: new_stream_info_def streams_init_def CLIENT_PRE_ALLOCATE_MEMORY_COUNT_def)
qed

end
