(* ===== verification/Client_Data.thy ===== *)
theory Client_Data
  imports Client_Files
begin

text \<open>
  What reading and writing through the client do to a file, for servers that keep a contract: the
  locale \<open>file_service\<close> states what the client relies on (the master answers with the blocks and the
  node of a request, the node stores and returns bytes), and its lemmas show that \<^verbatim>\<open>write\<close>, \<^verbatim>\<open>read\<close>
  and \<^verbatim>\<open>lseek\<close> act on a list of bytes with a position. The contract is discharged for the models
  of the master and the IOnode in \<open>Client_Cluster\<close>.
\<close>

section \<open>Bytes of a file\<close>

definition put :: "nat \<Rightarrow> byte list \<Rightarrow> byte list \<Rightarrow> byte list" where
  "put pos bs xs = take pos xs @ bs @ drop (pos + length bs) xs"

lemma put_Nil [simp]: "put pos [] xs = xs"
  by (simp add: put_def)

lemma length_put: "pos \<le> length xs \<Longrightarrow> length (put pos bs xs) = max (length xs) (pos + length bs)"
  by (auto simp: put_def)

lemma put_put: "pos \<le> length xs \<Longrightarrow> put (pos + length bs) cs (put pos bs xs) = put pos (bs @ cs) xs"
  by (simp add: put_def add.commute add.left_commute)

lemma nth_put: "pos \<le> length xs \<Longrightarrow> i < max (length xs) (pos + length bs) \<Longrightarrow>
    put pos bs xs ! i = (if pos \<le> i \<and> i < pos + length bs then bs ! (i - pos) else xs ! i)"
  by (auto simp: put_def nth_append)

section \<open>Block lists\<close>

text \<open>The blocks of a request as the master answers it, and the answer.\<close>

definition segment :: "(nat \<Rightarrow> size_t) \<Rightarrow> nat \<Rightarrow> nat \<Rightarrow> block_list" where
  "segment g a b = map (\<lambda>i. (int i * BLOCK_SIZE, g i)) [a..<b]"

definition block_reply :: "size_t \<Rightarrow> ssize_t \<Rightarrow> string \<Rightarrow> block_list \<Rightarrow> field list" where
  "block_reply z node uri bl = [F_int SUCCESS, F_size z, F_int 1, F_off node, F_str uri, F_int (int (length bl))] @ block_fields bl"

lemma segment_Cons: "a < b \<Longrightarrow> segment g a b = (int a * BLOCK_SIZE, g a) # segment g (Suc a) b"
  by (simp add: segment_def upt_rec)

lemma segment_Nil [simp]: "segment g a a = []"
  by (simp add: segment_def)

lemma length_segment [simp]: "length (segment g a b) = b - a"
  by (simp add: segment_def)

lemma block_less: "int a * BLOCK_SIZE < int b * BLOCK_SIZE \<longleftrightarrow> a < b"
  by (simp add: BLOCK_SIZE_def)

lemma find_start_loop:
  "find_start_point_loop (segment g a b) (int c * BLOCK_SIZE) r = (if a < b \<and> a \<le> c then int (min c (b - 1)) * BLOCK_SIZE else r)"
proof (induction "b - a" arbitrary: a r)
  case (Suc k)
  then have ab: "a < b" and k: "k = b - Suc a" by simp_all
  show ?case unfolding segment_Cons [OF ab] find_start_point_loop.simps Suc.hyps(1) [OF k] block_less
    using ab by (auto simp: min_def)
qed (simp add: segment_def)

lemma find_start_segment:
  assumes "a \<le> j" "Suc j < b" "int (Suc j) * BLOCK_SIZE < 9223372036854775808"
  shows "find_start_point (segment g a b) (int j * BLOCK_SIZE) BLOCK_SIZE = int (Suc j) * BLOCK_SIZE"
proof -
  have s: "s64 (int j * BLOCK_SIZE + BLOCK_SIZE) = int (Suc j) * BLOCK_SIZE"
    using assms(3) by (simp add: s64_def BLOCK_SIZE_def algebra_simps)
  have "segment g a b = (int a * BLOCK_SIZE, g a) # segment g (Suc a) b" using assms by (simp add: segment_Cons)
  then show ?thesis using find_start_loop [of g a b "Suc j" "int a * BLOCK_SIZE"] assms s by (simp add: find_start_point_def min_def)
qed

lemma segment_snoc: "i \<le> a \<Longrightarrow> fst (map_insert (int a * BLOCK_SIZE) (g a) (segment g i a)) = segment g i (Suc a)"
proof -
  assume ia: "i \<le> a"
  have keys: "k < int a * BLOCK_SIZE" if "k \<in> map_keys (segment g i a)" for k
    using that by (auto simp: segment_def BLOCK_SIZE_def)
  have "map_inv (segment g i a)" by (auto simp: segment_def map_inv_def sorted_wrt_map sorted_wrt_iff_nth_less BLOCK_SIZE_def)
  then have "fst (map_insert (int a * BLOCK_SIZE) (g a) (segment g i a)) = map_set (int a * BLOCK_SIZE) (g a) (segment g i a)"
    using keys by (auto simp: map_insert_eq)
  also have "\<dots> = segment g i a @ [(int a * BLOCK_SIZE, g a)]"
    using map_set_append_new [of "segment g i a" "int a * BLOCK_SIZE" "g a" "[]"] keys by simp
  finally show ?thesis using ia by (simp add: segment_def)
qed

lemma parse_segment:
  assumes "\<not> cl_using_cache c" "i \<le> a" "a \<le> b"
  shows "parse_block_list p (b - a) (block_fields (segment g a b)) (segment g i a) c = Some ([], segment g i b, c)"
  using assms
proof (induction "b - a" arbitrary: a)
  case 0
  then show ?case by (simp add: block_fields_def)
next
  case (Suc k)
  then have ab: "a < b" and k: "k = b - Suc a" by simp_all
  have f: "block_fields (segment g a b) = F_off (int a * BLOCK_SIZE) # F_size (g a) # block_fields (segment g (Suc a) b)"
    unfolding segment_Cons [OF ab] by (simp add: block_fields_def)
  from Suc.hyps(1) [OF k] Suc.prems ab
  have "parse_block_list p k (block_fields (segment g (Suc a) b)) (segment g i (Suc a)) c = Some ([], segment g i b, c)" by (simp add: k)
  then show ?case unfolding f Suc.hyps(2) [symmetric] using Suc.prems by (simp add: segment_snoc)
qed

section \<open>An open file of the client\<close>

text \<open>
  The file at address \<open>p\<close> is the file \<open>n\<close> of the master at \<open>mh\<close>, \<open>fsz\<close> bytes long as the client
  sees it; the connection to its node, where it exists, is \<open>ih\<close>.
\<close>

definition attached_meta :: "'w client \<Rightarrow> nat \<Rightarrow> int \<Rightarrow> int \<Rightarrow> ssize_t \<Rightarrow> ssize_t \<Rightarrow> size_t \<Rightarrow> bool" where
  "attached_meta c p mh ih n node fsz \<longleftrightarrow>
     (\<exists>m sc. cl_metas c p = Some m \<and> fm_remote_file_no m = n \<and> st_size (fm_stat m) = fsz \<and> get_SCBB (fm_SCBB m) c = Some sc \<and>
        sc_master sc = mh \<and> map_inv (sc_IOnodes sc) \<and> map_find node (sc_IOnodes sc) \<in> {None, Some ih})"

definition attached :: "'w client \<Rightarrow> c_int \<Rightarrow> int \<Rightarrow> int \<Rightarrow> ssize_t \<Rightarrow> ssize_t \<Rightarrow> size_t \<Rightarrow> off64_t \<Rightarrow> bool" where
  "attached c fd mh ih n node fsz pos \<longleftrightarrow> \<not> cl_using_cache c \<and> map_inv (cl_files c) \<and>
     (\<exists>f. map_find (fd_to_fid fd) (cl_files c) = Some f \<and> op_current_point f = pos \<and> attached_meta c (op_meta f) mh ih n node fsz)"

lemma get_SCBB_frame [simp]:
  "get_SCBB k (c\<lparr>cl_world := w\<rparr>) = get_SCBB k c" "get_SCBB k (c\<lparr>cl_metas := ms\<rparr>) = get_SCBB k c"
  "get_SCBB k (c\<lparr>cl_files := fs\<rparr>) = get_SCBB k c" "get_SCBB k (c\<lparr>cl_world := w, cl_metas := ms\<rparr>) = get_SCBB k c"
  by (simp_all add: get_SCBB_def)

lemma attached_metaE:
  assumes "attached_meta c p mh ih n node fsz"
  obtains m sc where "cl_metas c p = Some m" "fm_remote_file_no m = n" "st_size (fm_stat m) = fsz" "get_SCBB (fm_SCBB m) c = Some sc"
    "sc_master sc = mh" "map_inv (sc_IOnodes sc)" "map_find node (sc_IOnodes sc) \<in> {None, Some ih}"
  using assms unfolding attached_meta_def by blast

lemma attached_meta_world [simp]: "attached_meta (c\<lparr>cl_world := w\<rparr>) p mh ih n node fsz = attached_meta c p mh ih n node fsz"
  by (simp add: attached_meta_def)

lemma attached_meta_files [simp]: "attached_meta (c\<lparr>cl_files := fs\<rparr>) p mh ih n node fsz = attached_meta c p mh ih n node fsz"
  by (simp add: attached_meta_def)

text \<open>What the operations on one file leave of the rest of the client.\<close>

definition same_table :: "'w client \<Rightarrow> 'w client \<Rightarrow> bool" where
  "same_table c c' \<longleftrightarrow> cl_files c' = cl_files c \<and> cl_using_cache c' = cl_using_cache c"

section \<open>Files as a program sees them\<close>

text \<open>The calls on an open descriptor, what they do to a list of bytes with a position, and their results.\<close>

datatype file_op = Op_write "byte list" | Op_read size_t | Op_seek off64_t
datatype file_reply = Count int | Bytes "byte list"

type_synonym cfile = "byte list \<times> off64_t"

fun file_step :: "file_op \<Rightarrow> cfile \<Rightarrow> file_reply \<times> cfile" where
  "file_step (Op_write bs) (xs, pos) = (Count (int (length bs)), (put (nat pos) bs xs, pos + int (length bs)))"
| "file_step (Op_read k) (xs, pos) = (let d = take (nat k) (drop (nat pos) xs) in (Bytes d, (xs, pos + int (length d))))"
| "file_step (Op_seek off) (xs, pos) = (Count off, (xs, off))"

text \<open>
  The calls the client carries out: a write does not start beyond the end of the file and fits
  an \<^verbatim>\<open>int\<close>, a read stays in one block or starts at the start of one, a transfer has at most
  240 blocks (the master answers with 16 bytes for each in a message of 4000 bytes), offsets are
  below \<open>2 ^ 62\<close>, seeks are absolute.
\<close>

abbreviation "MAX_REPLY_BLOCKS \<equiv> 240 :: nat"

fun op_ok :: "file_op \<Rightarrow> cfile \<Rightarrow> bool" where
  "op_ok (Op_write bs) (xs, pos) \<longleftrightarrow> pos \<le> int (length xs) \<and> pos + int (length bs) + BLOCK_SIZE < 4611686018427387904 \<and>
     int (length bs) < 2147483648 \<and> block_count (int (length bs)) \<le> MAX_REPLY_BLOCKS"
| "op_ok (Op_read k) (xs, pos) \<longleftrightarrow> 0 \<le> k \<and> k + pos < 9223372036854775808 \<and>
     (pos mod BLOCK_SIZE + min k (int (length xs) - pos) \<le> BLOCK_SIZE \<or> pos mod BLOCK_SIZE = 0) \<and>
     block_count (min k (int (length xs) - pos)) \<le> MAX_REPLY_BLOCKS"
| "op_ok (Op_seek off) (xs, pos) \<longleftrightarrow> 0 \<le> off \<and> off < 4611686018427387904"

fun file_run :: "file_op list \<Rightarrow> cfile \<Rightarrow> file_reply list \<times> cfile" where
  "file_run [] f = ([], f)"
| "file_run (op # ops) f = (let (r, f1) = file_step op f; (rs, f2) = file_run ops f1 in (r # rs, f2))"

fun ops_ok :: "file_op list \<Rightarrow> cfile \<Rightarrow> bool" where
  "ops_ok [] f \<longleftrightarrow> True"
| "ops_ok (op # ops) f \<longleftrightarrow> op_ok op f \<and> ops_ok ops (snd (file_step op f))"

text \<open>The same calls on the client.\<close>

fun client_call :: "'w server \<Rightarrow> c_int \<Rightarrow> file_op \<Rightarrow> 'w client \<Rightarrow> (file_reply \<times> 'w client) option" where
  "client_call srv fd (Op_write bs) c = do { (r, c1) \<leftarrow> CBB_write srv fd bs c; Some (Count r, c1) }"
| "client_call srv fd (Op_read k) c = do { ((_, d), c1) \<leftarrow> CBB_read srv fd k c; Some (Bytes d, c1) }"
| "client_call srv fd (Op_seek off) c = do { (r, c1) \<leftarrow> client_lseek fd off SEEK_SET c; Some (Count r, c1) }"

fun client_run :: "'w server \<Rightarrow> c_int \<Rightarrow> file_op list \<Rightarrow> 'w client \<Rightarrow> (file_reply list \<times> 'w client) option" where
  "client_run srv fd [] c = Some ([], c)"
| "client_run srv fd (op # ops) c = do { (r, c1) \<leftarrow> client_call srv fd op c; (rs, c2) \<leftarrow> client_run srv fd ops c1; Some (r # rs, c2) }"

section \<open>The contract of the servers\<close>

text \<open>
  \<open>serves w xs z\<close>: in the world \<open>w\<close> the file has the bytes \<open>xs\<close>, and the size the master knows is
  \<open>z\<close>, ahead of the bytes while a write is under way.
\<close>

locale file_service =
  fixes srv :: "'w server" and mh ih :: int and n node :: ssize_t and uri :: string
    and serves :: "'w \<Rightarrow> byte list \<Rightarrow> size_t \<Rightarrow> bool"
  assumes sizes: "serves w xs z \<Longrightarrow> int (length xs) \<le> z \<and> z < 4611686018427387904"
    and connect: "serves w xs z \<Longrightarrow>
      \<exists>w'. srv_connect srv uri [F_int NEW_CLIENT] w = (Some (ih, [F_int SUCCESS]), w') \<and> serves w' xs z"
    and write_blocks: "serves w xs z \<Longrightarrow> 0 \<le> start \<Longrightarrow> start \<le> int (length xs) \<Longrightarrow> 0 < sz \<Longrightarrow>
      start + sz + BLOCK_SIZE < 4611686018427387904 \<Longrightarrow> block_count sz \<le> MAX_REPLY_BLOCKS \<Longrightarrow>
      st_size attr = max z (start + sz) \<Longrightarrow>
      \<exists>g w'. srv_query srv mh ([F_int WRITE_FILE, F_off n] @ attr_fields attr @ [F_off start, F_size sz]) [] w =
        (Some (block_reply (max z (start + sz)) node uri
                (segment g (nat (start div BLOCK_SIZE)) (nat (start div BLOCK_SIZE) + block_count sz)), []), w') \<and>
        serves w' xs (max z (start + sz))"
    and read_blocks: "serves w xs z \<Longrightarrow> 0 \<le> start \<Longrightarrow> 0 < sz \<Longrightarrow> start + sz \<le> z \<Longrightarrow>
      block_count sz \<le> MAX_REPLY_BLOCKS \<Longrightarrow>
      \<exists>g w'. srv_query srv mh [F_int READ_FILE, F_off n, F_off start, F_size sz] [] w =
        (Some (block_reply z node uri
                (segment g (nat (start div BLOCK_SIZE)) (nat (start div BLOCK_SIZE) + block_count sz)), []), w') \<and> serves w' xs z"
    and write_data: "serves w xs z \<Longrightarrow> bs \<noteq> [] \<Longrightarrow> length bs \<le> MAX_TRANSFER_SIZE \<Longrightarrow> 0 \<le> st \<Longrightarrow> BLOCK_SIZE dvd st \<Longrightarrow>
      0 \<le> off \<Longrightarrow> off < BLOCK_SIZE \<Longrightarrow> st + off \<le> int (length xs) \<Longrightarrow> st + off + int (length bs) \<le> z \<Longrightarrow>
      \<exists>rs d w'. srv_query srv ih [F_int WRITE_FILE, F_off n, F_off st, F_off off, F_size (int (length bs))] bs w =
        (Some (F_int SUCCESS # rs, d), w') \<and> serves w' (put (nat (st + off)) bs xs) z"
    and read_data: "serves w xs z \<Longrightarrow> 0 < sz \<Longrightarrow> 0 \<le> st \<Longrightarrow> BLOCK_SIZE dvd st \<Longrightarrow> 0 \<le> off \<Longrightarrow> off + sz \<le> BLOCK_SIZE \<Longrightarrow>
      st + off + sz \<le> int (length xs) \<Longrightarrow>
      \<exists>rs w'. srv_query srv ih [F_int READ_FILE, F_off n, F_off st, F_off off, F_size sz] [] w =
        (Some (F_int SUCCESS # rs, take (nat sz) (drop (nat (st + off)) xs)), w') \<and> serves w' xs z"
begin

lemma write_chunk:
  assumes "serves (cl_world c) xs z" "bs \<noteq> []" "length bs \<le> MAX_TRANSFER_SIZE" "0 \<le> off" "off < BLOCK_SIZE"
    "int j * BLOCK_SIZE + off \<le> int (length xs)" "int j * BLOCK_SIZE + off + int (length bs) \<le> z"
  shows "\<exists>d w'. IO_query srv (Some ih) [F_int WRITE_FILE, F_off n, F_off (int j * BLOCK_SIZE), F_off off, F_size (int (length bs))] bs c =
      Some (Moved d, c\<lparr>cl_world := w'\<rparr>) \<and> serves w' (put (nat (int j * BLOCK_SIZE + off)) bs xs) z"
proof -
  from write_data [OF assms(1-3) _ _ assms(4-7)] obtain rs d w' where
    "srv_query srv ih [F_int WRITE_FILE, F_off n, F_off (int j * BLOCK_SIZE), F_off off, F_size (int (length bs))] bs (cl_world c) =
       (Some (F_int SUCCESS # rs, d), w')" "serves w' (put (nat (int j * BLOCK_SIZE + off)) bs xs) z" by auto
  then show ?thesis by (intro exI [of _ d] exI [of _ w']) (simp add: IO_query_def get_query_response_def pop_ret_def)
qed

text \<open>The chunks of a write: chunk \<open>k\<close> goes to the block of the request that is \<open>k\<close> blocks after the first.\<close>

lemma write_transfer_ok:
  assumes "serves (cl_world c) xs z" "i \<le> j" "j + block_count (int (length buf)) \<le> e" "0 \<le> off" "off < BLOCK_SIZE"
    "int j * BLOCK_SIZE + off \<le> int (length xs)" "int j * BLOCK_SIZE + off + int (length buf) \<le> z"
  shows "\<exists>w'. write_IOnode_loop srv n (segment g i e) (Some ih) (int j * BLOCK_SIZE) (int j * BLOCK_SIZE + off) buf ans c =
      Some (Ret (ans + int (length buf)), c\<lparr>cl_world := w'\<rparr>) \<and> serves w' (put (nat (int j * BLOCK_SIZE + off)) buf xs) z"
  using assms
proof (induction "length buf" arbitrary: buf j ans c xs rule: less_induct)
  case less
  show ?case
  proof (cases "buf = []")
    case True
    then show ?thesis using less.prems(1) by (simp add: write_IOnode_loop.simps) (metis client.surjective client.update_convs(10))
  next
    case False
    let ?k = "min (length buf) MAX_TRANSFER_SIZE" and ?pos = "int j * BLOCK_SIZE + off"
    have z: "z < 4611686018427387904" using sizes [OF less.prems(1)] by simp
    have kz: "int j * BLOCK_SIZE + off + int ?k \<le> z" using less.prems(7) by linarith
    from write_chunk [OF less.prems(1), of "take ?k buf" off j] False less.prems kz obtain d w1 where
      w1: "IO_query srv (Some ih) [F_int WRITE_FILE, F_off n, F_off (int j * BLOCK_SIZE), F_off off, F_size (int ?k)] (take ?k buf) c =
        Some (Moved d, c\<lparr>cl_world := w1\<rparr>)" "serves w1 (put (nat ?pos) (take ?k buf) xs) z" by auto
    let ?c1 = "c\<lparr>cl_world := w1\<rparr>" and ?st = "find_start_point (segment g i e) (int j * BLOCK_SIZE) (int ?k)"
    have step: "write_IOnode_loop srv n (segment g i e) (Some ih) (int j * BLOCK_SIZE) ?pos buf ans c =
        write_IOnode_loop srv n (segment g i e) (Some ih) ?st (?pos + int ?k) (drop ?k buf) (ans + int ?k) ?c1"
      using False w1(1) by (subst write_IOnode_loop.simps) (simp add: Let_def)
    show ?thesis
    proof (cases "length buf \<le> MAX_TRANSFER_SIZE")
      case True
      then have "?k = length buf" by simp
      then show ?thesis using step w1 by (auto simp: write_IOnode_loop.simps [where buf = "[]"])
    next
      case big: False
      then have k: "?k = MAX_TRANSFER_SIZE" "int ?k = BLOCK_SIZE" by (simp_all add: BLOCK_SIZE_def)
      let ?rest = "drop MAX_TRANSFER_SIZE buf"
      have cnt: "block_count (int (length buf)) = Suc (block_count (int (length ?rest)))" "0 < block_count (int (length ?rest))"
        using big False block_count_step [of "int (length buf)"] block_count_step [of "int (length ?rest)"] by (simp_all add: BLOCK_SIZE_def of_nat_diff)
      have st: "?st = int (Suc j) * BLOCK_SIZE"
        unfolding k(2) using less.prems cnt z by (intro find_start_segment) (auto simp: BLOCK_SIZE_def)
      have xs1: "length (put (nat ?pos) (take ?k buf) xs) = max (length xs) (nat ?pos + ?k)"
        using less.prems(4,6) by (subst length_put) (auto simp: min_def)
      have p: "?pos + int ?k = int (Suc j) * BLOCK_SIZE + off" unfolding k(2) by (simp add: distrib_right)
      have pr: "serves (cl_world ?c1) (put (nat ?pos) (take ?k buf) xs) z" "i \<le> Suc j"
        "Suc j + block_count (int (length ?rest)) \<le> e" "int (Suc j) * BLOCK_SIZE + off \<le> int (length (put (nat ?pos) (take ?k buf) xs))"
        "int (Suc j) * BLOCK_SIZE + off + int (length ?rest) \<le> z"
        using w1(2) less.prems cnt p [symmetric] xs1 big k(1) by auto
      have "length ?rest < length buf" using big by simp
      from less.hyps [OF this pr(1,2,3) less.prems(4,5) pr(4,5), of "ans + int ?k"] obtain w' where
        w': "write_IOnode_loop srv n (segment g i e) (Some ih) (int (Suc j) * BLOCK_SIZE) (int (Suc j) * BLOCK_SIZE + off) ?rest (ans + int ?k) ?c1 =
          Some (Ret (ans + int ?k + int (length ?rest)), ?c1\<lparr>cl_world := w'\<rparr>)"
          "serves w' (put (nat (int (Suc j) * BLOCK_SIZE + off)) ?rest (put (nat ?pos) (take ?k buf) xs)) z" by blast
      have "nat (int (Suc j) * BLOCK_SIZE + off) = nat ?pos + length (take ?k buf)"
        unfolding p [symmetric] using less.prems(4) by (subst nat_add_distrib) auto
      then have "put (nat (int (Suc j) * BLOCK_SIZE + off)) ?rest (put (nat ?pos) (take ?k buf) xs) = put (nat ?pos) buf xs"
        using put_put [of "nat ?pos" xs "take ?k buf" ?rest] less.prems(4,6) k(1) by simp
      moreover have "drop ?k buf = ?rest" "ans + int ?k + int (length ?rest) = ans + int (length buf)" using k(1) big by (simp_all add: of_nat_diff)
      ultimately show ?thesis unfolding step st p using w' by (intro exI [of _ w']) simp
    qed
  qed
qed

text \<open>The chunks of a read that stays in one block, or that starts at the start of a block.\<close>

lemma read_chunk:
  assumes "serves (cl_world c) xs z" "0 < sz" "0 \<le> off" "off + sz \<le> BLOCK_SIZE" "int j * BLOCK_SIZE + off + sz \<le> int (length xs)"
  shows "\<exists>w'. IO_query srv (Some ih) [F_int READ_FILE, F_off n, F_off (int j * BLOCK_SIZE), F_off off, F_size sz] [] c =
      Some (Moved (take (nat sz) (drop (nat (int j * BLOCK_SIZE + off)) xs)), c\<lparr>cl_world := w'\<rparr>) \<and> serves w' xs z"
proof -
  from read_data [OF assms(1,2) _ _ assms(3-5)] obtain rs w' where
    "srv_query srv ih [F_int READ_FILE, F_off n, F_off (int j * BLOCK_SIZE), F_off off, F_size sz] [] (cl_world c) =
       (Some (F_int SUCCESS # rs, take (nat sz) (drop (nat (int j * BLOCK_SIZE + off)) xs)), w')" "serves w' xs z" by auto
  then show ?thesis by (intro exI [of _ w']) (simp add: IO_query_def get_query_response_def pop_ret_def)
qed

lemma read_transfer_ok:
  assumes "serves (cl_world c) xs z" "i \<le> j" "j + block_count sz \<le> e" "0 \<le> off" "0 \<le> sz" "off + sz \<le> BLOCK_SIZE \<or> off = 0"
    "int j * BLOCK_SIZE + off + sz \<le> int (length xs)"
  shows "\<exists>w'. read_IOnode_loop srv n (segment g i e) (Some ih) (int j * BLOCK_SIZE) (int j * BLOCK_SIZE + off) sz acc c =
      Some (Ret (acc @ take (nat sz) (drop (nat (int j * BLOCK_SIZE + off)) xs)), c\<lparr>cl_world := w'\<rparr>) \<and> serves w' xs z"
  using assms
proof (induction "nat sz" arbitrary: sz j acc c off rule: less_induct)
  case less
  have z: "int (length xs) < 4611686018427387904" using sizes [OF less.prems(1)] by simp
  show ?case
  proof (cases "sz = 0")
    case True
    then show ?thesis using less.prems(1) by (intro exI [of _ "cl_world c"]) (simp add: read_IOnode_loop.simps)
  next
    case False
    let ?k = "min sz BLOCK_SIZE" and ?pos = "int j * BLOCK_SIZE + off"
    let ?d = "take (nat ?k) (drop (nat ?pos) xs)"
    have B: "int MAX_TRANSFER_SIZE = BLOCK_SIZE" "0 \<le> int j * BLOCK_SIZE" by (simp_all add: BLOCK_SIZE_def)
    have kz: "0 < ?k" "off + ?k \<le> BLOCK_SIZE" "?pos + ?k \<le> int (length xs)" using less.prems(4-7) False by (auto simp: BLOCK_SIZE_def)
    from read_chunk [OF less.prems(1) kz(1) less.prems(4) kz(2,3)] obtain w1 where
      w1: "IO_query srv (Some ih) [F_int READ_FILE, F_off n, F_off (int j * BLOCK_SIZE), F_off off, F_size ?k] [] c =
        Some (Moved ?d, c\<lparr>cl_world := w1\<rparr>)" "serves w1 xs z" by blast
    have "nat ?pos + nat ?k \<le> length xs" using kz less.prems(4) B(2) by linarith
    then have "length ?d = nat ?k" by simp
    then have d: "int (length ?d) = ?k" using kz(1) by linarith
    have u: "u64 (sz - ?k) = sz - ?k" using less.prems(4,5,7) z B(2) kz(1) by (intro u64_id) linarith+
    let ?c1 = "c\<lparr>cl_world := w1\<rparr>" and ?st = "find_start_point (segment g i e) (int j * BLOCK_SIZE) ?k"
    have step: "read_IOnode_loop srv n (segment g i e) (Some ih) (int j * BLOCK_SIZE) ?pos sz acc c =
        read_IOnode_loop srv n (segment g i e) (Some ih) ?st (?pos + ?k) (sz - ?k) (acc @ ?d) ?c1"
      using False less.prems(5) w1(1) d u B(1) by (subst read_IOnode_loop.simps) simp
    show ?thesis
    proof (cases "sz \<le> BLOCK_SIZE")
      case True
      then show ?thesis using step w1(2) by (intro exI [of _ w1]) (simp add: read_IOnode_loop.simps [where read_size = 0])
    next
      case big: False
      then have k: "?k = BLOCK_SIZE" and off: "off = 0" using less.prems(4,6) by auto
      have cnt: "block_count sz = Suc (block_count (sz - BLOCK_SIZE))" "0 < block_count (sz - BLOCK_SIZE)"
        using big block_count_step [of sz] block_count_step [of "sz - BLOCK_SIZE"] BLOCK_SIZE_pos(1) by auto
      have st: "?st = int (Suc j) * BLOCK_SIZE"
        unfolding k using less.prems cnt z big by (intro find_start_segment) (auto simp: BLOCK_SIZE_def)
      have p: "?pos + ?k = int (Suc j) * BLOCK_SIZE + 0" unfolding k off by (simp add: distrib_right)
      have pr: "serves (cl_world ?c1) xs z" "i \<le> Suc j" "Suc j + block_count (sz - BLOCK_SIZE) \<le> e" "0 \<le> sz - BLOCK_SIZE"
        "0 + (sz - BLOCK_SIZE) \<le> BLOCK_SIZE \<or> (0 :: int) = 0" "int (Suc j) * BLOCK_SIZE + 0 + (sz - BLOCK_SIZE) \<le> int (length xs)"
        using w1(2) less.prems cnt p big k by auto
      have "nat (sz - BLOCK_SIZE) < nat sz" using big BLOCK_SIZE_pos(1) by linarith
      from less.hyps [OF this pr(1-3) order_refl pr(4-6), of "acc @ ?d"] obtain w' where
        w': "read_IOnode_loop srv n (segment g i e) (Some ih) (int (Suc j) * BLOCK_SIZE) (int (Suc j) * BLOCK_SIZE + 0) (sz - BLOCK_SIZE) (acc @ ?d) ?c1 =
          Some (Ret ((acc @ ?d) @ take (nat (sz - BLOCK_SIZE)) (drop (nat (int (Suc j) * BLOCK_SIZE + 0)) xs)), ?c1\<lparr>cl_world := w'\<rparr>)" "serves w' xs z" by blast
      have "nat (int (Suc j) * BLOCK_SIZE + 0) = nat ?pos + nat BLOCK_SIZE" "nat sz = nat BLOCK_SIZE + nat (sz - BLOCK_SIZE)"
        using p big B(2) off k by (simp_all add: nat_add_distrib [symmetric])
      then have "?d @ take (nat (sz - BLOCK_SIZE)) (drop (nat (int (Suc j) * BLOCK_SIZE + 0)) xs) = take (nat sz) (drop (nat ?pos) xs)"
        unfolding k by (simp add: take_add drop_drop add.commute)
      then show ?thesis using step st p w' unfolding k by auto
    qed
  qed
qed

lemma handle_ok:
  assumes "get_SCBB k c = Some sc" "sc_master sc = mh" "map_inv (sc_IOnodes sc)" "map_find node (sc_IOnodes sc) \<in> {None, Some ih}"
    "serves (cl_world c) xs z"
  shows "\<exists>w' sc'. get_IOnode_handle srv k node uri c = Some (Ret (Some ih), c\<lparr>cl_world := w', cl_masters := (cl_masters c)[k := sc']\<rparr>) \<and>
    sc_master sc' = mh \<and> map_inv (sc_IOnodes sc') \<and> map_find node (sc_IOnodes sc') = Some ih \<and> serves w' xs z"
proof (cases "map_find node (sc_IOnodes sc)")
  case None
  from connect [OF assms(5)] obtain w' where w': "srv_connect srv uri [F_int NEW_CLIENT] (cl_world c) = (Some (ih, [F_int SUCCESS]), w')"
    "serves w' xs z" by blast
  let ?sc = "sc\<lparr>sc_IOnodes := fst (map_insert node ih (sc_IOnodes sc))\<rparr>"
  have "get_IOnode_handle srv k node uri c = Some (Ret (Some ih), c\<lparr>cl_world := w', cl_masters := (cl_masters c)[k := ?sc]\<rparr>)"
    using assms(1) None w'(1) by (simp add: get_IOnode_handle_def pop_ret_def upd_SCBB_def)
  moreover have "map_find node (sc_IOnodes ?sc) = Some ih" using None assms(3) by (simp add: map_insert_find map_find_None_iff)
  ultimately show ?thesis using assms(2,3) w'(2) by (intro exI [of _ w'] exI [of _ ?sc]) simp
next
  case (Some h)
  then have h: "h = ih" using assms(4) by simp
  have k: "k < length (cl_masters c)" "cl_masters c ! k = sc" using assms(1) by (auto simp: get_SCBB_def split: if_splits)
  have "c\<lparr>cl_world := cl_world c, cl_masters := (cl_masters c)[k := sc]\<rparr> = c" using k by auto
  then show ?thesis using assms Some h by (intro exI [of _ "cl_world c"] exI [of _ sc]) (simp add: get_IOnode_handle_def)
qed

lemma parse_reply_ok:
  assumes c: "attached_meta c p mh ih n node fsz" "\<not> cl_using_cache c" "serves (cl_world c) xs z" and m: "cl_metas c p = Some m"
    and ab: "a \<le> b"
  shows "\<exists>c'. parse_blocks_from_master srv (fm_SCBB m) p ([F_int 1, F_off node, F_str uri, F_int (int (b - a))] @ block_fields (segment g a b)) [] [] c =
      Some (Ret (segment g a b, [(node, Some ih)]), c') \<and> attached_meta c' p mh ih n node fsz \<and> serves (cl_world c') xs z \<and> same_table c c'"
proof -
  from c(1) obtain sc where sc: "fm_remote_file_no m = n" "st_size (fm_stat m) = fsz" "get_SCBB (fm_SCBB m) c = Some sc"
    "sc_master sc = mh" "map_inv (sc_IOnodes sc)" "map_find node (sc_IOnodes sc) \<in> {None, Some ih}"
    by (rule attached_metaE) (use m in auto)
  from handle_ok [OF sc(3-6) c(3)] obtain w' sc' where w':
    "get_IOnode_handle srv (fm_SCBB m) node uri c = Some (Ret (Some ih), c\<lparr>cl_world := w', cl_masters := (cl_masters c)[fm_SCBB m := sc']\<rparr>)"
    "sc_master sc' = mh" "map_inv (sc_IOnodes sc')" "map_find node (sc_IOnodes sc') = Some ih" "serves w' xs z" by blast
  let ?m = "m\<lparr>fm_IOnodes := set_insert node (fm_IOnodes m)\<rparr>"
  let ?c = "c\<lparr>cl_world := w', cl_masters := (cl_masters c)[fm_SCBB m := sc'], cl_metas := (cl_metas c)(p \<mapsto> ?m)\<rparr>"
  have pb: "parse_block_list p (b - a) (block_fields (segment g a b)) [] ?c = Some ([], segment g a b, ?c)"
    using parse_segment [of ?c a a b p g] c(2) ab by simp
  have "parse_blocks_from_master srv (fm_SCBB m) p ([F_int 1, F_off node, F_str uri, F_int (int (b - a))] @ block_fields (segment g a b)) [] [] c =
      Some (Ret (segment g a b, [(node, Some ih)]), ?c)"
    using w'(1) m pb by (simp add: parse_blocks_from_master_def pop_ret_def upd_meta_def deref_meta_def)
  moreover have "fm_SCBB m < length (cl_masters c)" using sc(3) by (auto simp: get_SCBB_def split: if_splits)
  then have "attached_meta ?c p mh ih n node fsz" using sc(1,2) w'(2-4) by (simp add: attached_meta_def get_SCBB_def)
  ultimately show ?thesis using w'(5) by (intro exI [of _ ?c]) (simp add: same_table_def)
qed

lemma write_request_ok:
  assumes c: "attached_meta c p mh ih n node fsz" "\<not> cl_using_cache c" "serves (cl_world c) xs z"
    and f: "z \<le> fsz" "fsz \<le> max z (start + sz)"
    and r: "0 \<le> start" "start \<le> int (length xs)" "0 < sz" "start + sz + BLOCK_SIZE < 4611686018427387904"
      "block_count sz \<le> MAX_REPLY_BLOCKS"
  defines "a \<equiv> nat (start div BLOCK_SIZE)"
  shows "\<exists>g c'. get_blocks_from_master srv p start sz [] [] WRITE_FILE c = Some (Ret (SUCCESS, segment g a (a + block_count sz), [(node, Some ih)]), c') \<and>
    attached_meta c' p mh ih n node (max z (start + sz)) \<and> serves (cl_world c') xs (max z (start + sz)) \<and> same_table c c'"
proof -
  let ?z = "max z (start + sz)"
  from c(1) obtain m sc where m: "cl_metas c p = Some m" "fm_remote_file_no m = n" "st_size (fm_stat m) = fsz" "get_SCBB (fm_SCBB m) c = Some sc"
    "sc_master sc = mh" "map_inv (sc_IOnodes sc)" "map_find node (sc_IOnodes sc) \<in> {None, Some ih}" by (rule attached_metaE)
  have z: "0 \<le> fsz" "fsz < 4611686018427387904" using sizes [OF c(3)] f r by (auto simp: BLOCK_SIZE_def)
  have u: "u64 (start + sz) = start + sz" "u64 fsz = fsz" "s64 (start + sz) = start + sz" "u64 ?z = ?z"
    using z r sizes [OF c(3)] by (simp_all add: u64_def s64_def BLOCK_SIZE_def)
  define m1 where "m1 = write_update_file_size start sz m"
  have m1: "st_size (fm_stat m1) = ?z" "fm_remote_file_no m1 = n" "fm_SCBB m1 = fm_SCBB m"
    using m(2,3) u f by (auto simp: m1_def write_update_file_size_def max_def)
  from write_blocks [OF c(3) r m1(1)] obtain g w1 where w1:
    "srv_query srv mh ([F_int WRITE_FILE, F_off n] @ attr_fields (fm_stat m1) @ [F_off start, F_size sz]) [] (cl_world c) =
       (Some (block_reply ?z node uri (segment g a (a + block_count sz)), []), w1)" "serves w1 xs ?z" unfolding a_def by blast
  let ?c1 = "c\<lparr>cl_world := w1, cl_metas := (cl_metas c)(p \<mapsto> m1)\<rparr>"
  have a1: "attached_meta ?c1 p mh ih n node ?z" using m m1 by (simp add: attached_meta_def)
  have "\<not> cl_using_cache ?c1" "serves (cl_world ?c1) xs ?z" "cl_metas ?c1 p = Some m1" using c(2) w1(2) by simp_all
  from parse_reply_ok [OF a1 this le_add1, of a "block_count sz" g] m1(3) obtain c' where c':
    "parse_blocks_from_master srv (fm_SCBB m1) p ([F_int 1, F_off node, F_str uri, F_int (int (block_count sz))] @ block_fields (segment g a (a + block_count sz))) [] [] ?c1 =
      Some (Ret (segment g a (a + block_count sz), [(node, Some ih)]), c')" "attached_meta c' p mh ih n node ?z" "serves (cl_world c') xs ?z" "same_table ?c1 c'" by auto
  have "get_master_handle m c = Some mh" using m(4,5) by (simp add: get_master_handle_def)
  moreover have "(cl_metas c)(p \<mapsto> m1, p \<mapsto> m1) = (cl_metas c)(p \<mapsto> m1)" by simp
  ultimately have "get_blocks_from_master srv p start sz [] [] WRITE_FILE c = Some (Ret (SUCCESS, segment g a (a + block_count sz), [(node, Some ih)]), c')"
    using m(1) m1(1,2) w1(1) c'(1) u(4) unfolding get_blocks_from_master_def
    by (simp add: upd_meta_def deref_meta_def m1_def [symmetric] query_def get_query_response_def block_reply_def pop_ret_def update_file_size_from_master_def)
  then show ?thesis using c'(2-4) by (intro exI [of _ g] exI [of _ c']) (simp add: same_table_def)
qed

lemma read_request_ok:
  assumes c: "attached_meta c p mh ih n node fsz" "\<not> cl_using_cache c" "serves (cl_world c) xs fsz"
    and r: "0 \<le> start" "0 < sz" "start + sz \<le> fsz" "block_count sz \<le> MAX_REPLY_BLOCKS"
  defines "a \<equiv> nat (start div BLOCK_SIZE)"
  shows "\<exists>g c'. get_blocks_from_master srv p start sz [] [] READ_FILE c = Some (Ret (SUCCESS, segment g a (a + block_count sz), [(node, Some ih)]), c') \<and>
    attached_meta c' p mh ih n node fsz \<and> serves (cl_world c') xs fsz \<and> same_table c c'"
proof -
  from c(1) obtain m sc where m: "cl_metas c p = Some m" "fm_remote_file_no m = n" "st_size (fm_stat m) = fsz" "get_SCBB (fm_SCBB m) c = Some sc"
    "sc_master sc = mh" "map_inv (sc_IOnodes sc)" "map_find node (sc_IOnodes sc) \<in> {None, Some ih}" by (rule attached_metaE)
  have z: "0 \<le> fsz" "fsz < 4611686018427387904" using sizes [OF c(3)] by auto
  have u: "u64 fsz = fsz" using z by (simp add: u64_def)
  from read_blocks [OF c(3) r] obtain g w1 where w1: "srv_query srv mh [F_int READ_FILE, F_off n, F_off start, F_size sz] [] (cl_world c) =
       (Some (block_reply fsz node uri (segment g a (a + block_count sz)), []), w1)" "serves w1 xs fsz" unfolding a_def by blast
  let ?c1 = "c\<lparr>cl_world := w1\<rparr>"
  have a1: "attached_meta ?c1 p mh ih n node fsz" using c(1) by simp
  have "\<not> cl_using_cache ?c1" "serves (cl_world ?c1) xs fsz" "cl_metas ?c1 p = Some m" using c(2) w1(2) m(1) by simp_all
  from parse_reply_ok [OF a1 this le_add1, of a "block_count sz" g] obtain c' where c':
    "parse_blocks_from_master srv (fm_SCBB m) p ([F_int 1, F_off node, F_str uri, F_int (int (block_count sz))] @ block_fields (segment g a (a + block_count sz))) [] [] ?c1 =
      Some (Ret (segment g a (a + block_count sz), [(node, Some ih)]), c')" "attached_meta c' p mh ih n node fsz" "serves (cl_world c') xs fsz" "same_table ?c1 c'" by auto
  have "get_master_handle m c = Some mh" using m(4,5) by (simp add: get_master_handle_def)
  moreover have "(cl_metas c)(p \<mapsto> m) = cl_metas c" using m(1) by auto
  ultimately have "get_blocks_from_master srv p start sz [] [] READ_FILE c = Some (Ret (SUCCESS, segment g a (a + block_count sz), [(node, Some ih)]), c')"
    using m(1-3) w1(1) c'(1) u unfolding get_blocks_from_master_def
    by (simp add: upd_meta_def deref_meta_def query_def get_query_response_def block_reply_def pop_ret_def update_file_size_from_master_def)
  then show ?thesis using c'(2-4) by (intro exI [of _ g] exI [of _ c']) (simp add: same_table_def)
qed

lemma remote_write_ok:
  assumes c: "attached_meta c p mh ih n node fsz" "\<not> cl_using_cache c" "serves (cl_world c) xs (int (length xs))"
    and fs: "int (length xs) \<le> fsz" "fsz \<le> max (int (length xs)) (pos + int (length buf))"
    and r: "0 \<le> pos" "pos \<le> int (length xs)" "buf \<noteq> []" "pos + int (length buf) + BLOCK_SIZE < 4611686018427387904"
      "block_count (int (length buf)) \<le> MAX_REPLY_BLOCKS"
  defines "ys \<equiv> put (nat pos) buf xs"
  shows "\<exists>c'. remote_write srv p buf pos c = Some (Ret (int (length buf)), c') \<and>
    attached_meta c' p mh ih n node (int (length ys)) \<and> serves (cl_world c') ys (int (length ys)) \<and> same_table c c'"
proof -
  let ?sz = "int (length buf)"
  define a where "a = nat (pos div BLOCK_SIZE)"
  have sz: "0 < ?sz" using r(3) by simp
  have ys: "int (length ys) = max (int (length xs)) (pos + ?sz)" using r(1,2) by (simp add: ys_def length_put)
  from write_request_ok [OF c fs r(1,2) sz r(4,5)] obtain g c1 where c1:
    "get_blocks_from_master srv p pos ?sz [] [] WRITE_FILE c = Some (Ret (SUCCESS, segment g a (a + block_count ?sz), [(node, Some ih)]), c1)"
    "attached_meta c1 p mh ih n node (int (length ys))" "serves (cl_world c1) xs (int (length ys))" "same_table c c1" unfolding ys a_def by blast
  from c1(2) obtain m where m: "cl_metas c1 p = Some m" "fm_remote_file_no m = n" by (rule attached_metaE) blast
  have pos: "pos = int a * BLOCK_SIZE + pos mod BLOCK_SIZE" "0 \<le> pos mod BLOCK_SIZE" "pos mod BLOCK_SIZE < BLOCK_SIZE"
    using r(1) by (simp_all add: a_def pos_imp_zdiv_nonneg_iff)
  have "\<exists>w'. write_IOnode_loop srv n (segment g a (a + block_count ?sz)) (Some ih) (int a * BLOCK_SIZE) (int a * BLOCK_SIZE + pos mod BLOCK_SIZE) buf 0 c1 =
      Some (Ret (0 + ?sz), c1\<lparr>cl_world := w'\<rparr>) \<and> serves w' (put (nat (int a * BLOCK_SIZE + pos mod BLOCK_SIZE)) buf xs) (int (length ys))"
    using c1(3) pos(2,3) r(2) ys by (intro write_transfer_ok) (simp_all add: pos(1) [symmetric])
  then obtain w' where w': "write_IOnode_loop srv n (segment g a (a + block_count ?sz)) (Some ih) (int a * BLOCK_SIZE) pos buf 0 c1 =
      Some (Ret ?sz, c1\<lparr>cl_world := w'\<rparr>)" "serves w' ys (int (length ys))" unfolding pos(1) [symmetric] ys_def by auto
  have "0 < block_count ?sz" using block_count_step [OF sz] by simp
  then obtain v l where "segment g a (a + block_count ?sz) = (int a * BLOCK_SIZE, v) # l" using segment_Cons [of a "a + block_count ?sz" g] by simp
  then have "remote_write srv p buf pos c = Some (Ret ?sz, c1\<lparr>cl_world := w'\<rparr>)"
    using c(2) c1(1) w'(1) m by (simp add: remote_write_def remote_IO_blocks_def write_to_IOnode_def deref_meta_def)
  then show ?thesis using c1(2,4) w'(2) by (intro exI [of _ "c1\<lparr>cl_world := w'\<rparr>"]) (simp add: same_table_def)
qed

text \<open>The client may know the size of the file after the write already.\<close>

lemma client_write_ok:
  assumes c: "attached c fd mh ih n node fsz pos" "serves (cl_world c) xs (int (length xs))"
    and fs: "int (length xs) \<le> fsz" "fsz \<le> max (int (length xs)) (pos + int (length buf))"
    and r: "0 \<le> pos" "pos \<le> int (length xs)" "pos + int (length buf) + BLOCK_SIZE < 4611686018427387904" "int (length buf) < 2147483648"
      "block_count (int (length buf)) \<le> MAX_REPLY_BLOCKS"
  defines "ys \<equiv> put (nat pos) buf xs"
  shows "\<exists>c'. client_write srv fd buf c = Some (Ret (int (length buf)), c') \<and>
    attached c' fd mh ih n node (int (length ys)) (pos + int (length buf)) \<and> serves (cl_world c') ys (int (length ys))"
proof (cases "buf = []")
  case True
  then have "fsz = int (length xs)" using fs r(2) by simp
  then show ?thesis using c True by (simp add: client_write_def ys_def)
next
  case False
  from c(1) obtain f where f: "\<not> cl_using_cache c" "map_inv (cl_files c)" "map_find (fd_to_fid fd) (cl_files c) = Some f" "op_current_point f = pos"
    "attached_meta c (op_meta f) mh ih n node fsz" by (auto simp: attached_def)
  from f(5) obtain m sc where m: "cl_metas c (op_meta f) = Some m" "fm_remote_file_no m = n" "st_size (fm_stat m) = fsz"
    "get_SCBB (fm_SCBB m) c = Some sc" "sc_master sc = mh" "map_inv (sc_IOnodes sc)" "map_find node (sc_IOnodes sc) \<in> {None, Some ih}" by (rule attached_metaE)
  let ?t = "srv_time srv (cl_world c)"
  let ?c1 = "c\<lparr>cl_metas := (cl_metas c)(op_meta f \<mapsto> m\<lparr>fm_stat := (fm_stat m)\<lparr>st_mtime := ?t, st_atime := ?t\<rparr>, fm_need_update := True\<rparr>)\<rparr>"
  have u: "update_access_time srv fd c = Some (0, ?c1)" using f(3) m(1) by (simp add: update_access_time_def upd_meta_def deref_meta_def Let_def)
  have a1: "attached_meta ?c1 (op_meta f) mh ih n node fsz" using m by (simp add: attached_meta_def)
  have "\<not> cl_using_cache ?c1" "serves (cl_world ?c1) xs (int (length xs))" using f(1) c(2) by simp_all
  from remote_write_ok [OF a1 this fs r(1,2) False r(3,5)] obtain c2 where c2: "remote_write srv (op_meta f) buf pos ?c1 = Some (Ret (int (length buf)), c2)"
    "attached_meta c2 (op_meta f) mh ih n node (int (length ys))" "serves (cl_world c2) ys (int (length ys))" "same_table ?c1 c2" unfolding ys_def by blast
  have s: "s32 (int (length buf)) = int (length buf)" using r(4) by (simp add: s32_def)
  let ?g = "f\<lparr>op_current_point := pos + int (length buf)\<rparr>"
  let ?c3 = "c2\<lparr>cl_files := map_set (fd_to_fid fd) ?g (cl_files c)\<rparr>"
  have "client_write srv fd buf c = Some (Ret (int (length buf)), ?c3)"
    using False f(3,4) u c2(1,4) s by (simp add: client_write_def upd_opened_def same_table_def)
  moreover have "attached ?c3 fd mh ih n node (int (length ys)) (pos + int (length buf))"
    using f(1,2) c2(2,4) by (simp add: attached_def same_table_def)
  ultimately show ?thesis using c2(3) by (intro exI [of _ ?c3]) simp
qed

lemma remote_read_ok:
  assumes c: "attached_meta c p mh ih n node (int (length xs))" "\<not> cl_using_cache c" "serves (cl_world c) xs (int (length xs))"
    and r: "0 \<le> pos" "0 < sz" "pos + sz \<le> int (length xs)" "pos mod BLOCK_SIZE + sz \<le> BLOCK_SIZE \<or> pos mod BLOCK_SIZE = 0"
      "block_count sz \<le> MAX_REPLY_BLOCKS"
  shows "\<exists>c'. remote_read srv p pos sz c = Some (Ret (take (nat sz) (drop (nat pos) xs)), c') \<and>
    attached_meta c' p mh ih n node (int (length xs)) \<and> serves (cl_world c') xs (int (length xs)) \<and> same_table c c'"
proof -
  define a where "a = nat (pos div BLOCK_SIZE)"
  from read_request_ok [OF c r(1-3,5)] obtain g c1 where c1:
    "get_blocks_from_master srv p pos sz [] [] READ_FILE c = Some (Ret (SUCCESS, segment g a (a + block_count sz), [(node, Some ih)]), c1)"
    "attached_meta c1 p mh ih n node (int (length xs))" "serves (cl_world c1) xs (int (length xs))" "same_table c c1" unfolding a_def by blast
  from c1(2) obtain m where m: "cl_metas c1 p = Some m" "fm_remote_file_no m = n" "st_size (fm_stat m) = int (length xs)" by (rule attached_metaE) blast
  have z: "int (length xs) < 4611686018427387904" using sizes [OF c(3)] by simp
  have u: "u64 (sz + pos) = sz + pos" "u64 (int (length xs)) = int (length xs)" using r z by (simp_all add: u64_def)
  have pos: "pos = int a * BLOCK_SIZE + pos mod BLOCK_SIZE" "0 \<le> pos mod BLOCK_SIZE"
    using r(1) by (simp_all add: a_def pos_imp_zdiv_nonneg_iff)
  have "\<exists>w'. read_IOnode_loop srv n (segment g a (a + block_count sz)) (Some ih) (int a * BLOCK_SIZE) (int a * BLOCK_SIZE + pos mod BLOCK_SIZE) sz [] c1 =
      Some (Ret ([] @ take (nat sz) (drop (nat (int a * BLOCK_SIZE + pos mod BLOCK_SIZE)) xs)), c1\<lparr>cl_world := w'\<rparr>) \<and> serves w' xs (int (length xs))"
    using c1(3) pos(2) r(2-4) by (intro read_transfer_ok) (simp_all add: pos(1) [symmetric])
  then obtain w' where w': "read_IOnode_loop srv n (segment g a (a + block_count sz)) (Some ih) (int a * BLOCK_SIZE) pos sz [] c1 =
      Some (Ret (take (nat sz) (drop (nat pos) xs)), c1\<lparr>cl_world := w'\<rparr>)" "serves w' xs (int (length xs))" unfolding pos(1) [symmetric] by auto
  have "0 < block_count sz" using block_count_step [OF r(2)] by simp
  then obtain v l where "segment g a (a + block_count sz) = (int a * BLOCK_SIZE, v) # l" using segment_Cons [of a "a + block_count sz" g] by simp
  then have "remote_read srv p pos sz c = Some (Ret (take (nat sz) (drop (nat pos) xs)), c1\<lparr>cl_world := w'\<rparr>)"
    using c(2) c1(1) w'(1) m u r(3) by (simp add: remote_read_def remote_IO_blocks_def read_from_IOnode_def deref_meta_def add.commute)
  then show ?thesis using c1(2,4) w'(2) by (intro exI [of _ "c1\<lparr>cl_world := w'\<rparr>"]) (simp add: same_table_def)
qed

lemma client_read_ok:
  assumes c: "attached c fd mh ih n node (int (length xs)) pos" "serves (cl_world c) xs (int (length xs))"
    and r: "0 \<le> pos" "0 \<le> k" "k + pos < 9223372036854775808"
      "pos mod BLOCK_SIZE + min k (int (length xs) - pos) \<le> BLOCK_SIZE \<or> pos mod BLOCK_SIZE = 0"
      "block_count (min k (int (length xs) - pos)) \<le> MAX_REPLY_BLOCKS"
  defines "d \<equiv> take (nat k) (drop (nat pos) xs)"
  shows "\<exists>c'. client_read srv fd k c = Some (Ret (int (length d), d), c') \<and>
    attached c' fd mh ih n node (int (length xs)) (pos + int (length d)) \<and> serves (cl_world c') xs (int (length xs))"
proof -
  from c(1) obtain f where f: "\<not> cl_using_cache c" "map_inv (cl_files c)" "map_find (fd_to_fid fd) (cl_files c) = Some f" "op_current_point f = pos"
    "attached_meta c (op_meta f) mh ih n node (int (length xs))" by (auto simp: attached_def)
  from f(5) obtain m where m: "cl_metas c (op_meta f) = Some m" "st_size (fm_stat m) = int (length xs)" by (rule attached_metaE) blast
  have z: "int (length xs) < 4611686018427387904" using sizes [OF c(2)] by simp
  have u: "u64 (k + pos) = k + pos" "u64 (int (length xs)) = int (length xs)" using r z by (simp_all add: u64_def)
  let ?k = "min k (int (length xs) - pos)"
  show ?thesis
  proof (cases "0 < ?k")
    case False
    then have "d = []" "k = 0 \<or> k + pos > int (length xs) \<and> \<not> int (length xs) > pos" using r(1,2) by (auto simp: d_def)
    then show ?thesis using c f(3,4) m u by (intro exI [of _ c]) (auto simp: client_read_def deref_meta_def Let_def)
  next
    case True
    have d: "take (nat ?k) (drop (nat pos) xs) = d" using r(1) by (auto simp: d_def min_def nat_diff_distrib')
    have ld: "int (length d) = ?k" using True r(1) unfolding d [symmetric] by simp
    have "pos + ?k \<le> int (length xs)" by linarith
    from remote_read_ok [OF f(5,1) c(2) r(1) True this r(4,5)] obtain c1 where c1: "remote_read srv (op_meta f) pos ?k c = Some (Ret d, c1)"
      "attached_meta c1 (op_meta f) mh ih n node (int (length xs))" "serves (cl_world c1) xs (int (length xs))" "same_table c c1" unfolding d by blast
    have k: "int (length xs) < k + pos \<Longrightarrow> u64 (int (length xs) - pos) = ?k" "\<not> int (length xs) < k + pos \<Longrightarrow> ?k = k"
      using True r z by (auto simp: u64_def)
    let ?c2 = "c1\<lparr>cl_files := map_set (fd_to_fid fd) (f\<lparr>op_current_point := pos + int (length d)\<rparr>) (cl_files c)\<rparr>"
    have "client_read srv fd k c = Some (Ret (int (length d), d), ?c2)"
      using True f(3,4) m u c1(1,4) k
      by (cases "int (length xs) < k + pos") (simp_all add: client_read_def deref_meta_def upd_opened_def same_table_def Let_def)
    moreover have "attached ?c2 fd mh ih n node (int (length xs)) (pos + int (length d))"
      using f(1,2) c1(2,4) by (simp add: attached_def same_table_def)
    ultimately show ?thesis using c1(3) by (intro exI [of _ ?c2]) simp
  qed
qed

lemma client_seek_ok:
  assumes c: "attached c fd mh ih n node fsz pos" "serves (cl_world c) xs fsz"
  shows "\<exists>c'. client_lseek fd off SEEK_SET c = Some (off, c') \<and> attached c' fd mh ih n node fsz off \<and> serves (cl_world c') xs fsz"
proof -
  from c(1) obtain f where f: "\<not> cl_using_cache c" "map_inv (cl_files c)" "map_find (fd_to_fid fd) (cl_files c) = Some f"
    "attached_meta c (op_meta f) mh ih n node fsz" by (auto simp: attached_def)
  let ?c = "c\<lparr>cl_files := map_set (fd_to_fid fd) (f\<lparr>op_current_point := off\<rparr>) (cl_files c)\<rparr>"
  have "client_lseek fd off SEEK_SET c = Some (off, ?c)" using f(3) by (simp add: client_lseek_def upd_opened_def)
  moreover have "attached ?c fd mh ih n node fsz off" using f by (simp add: attached_def)
  ultimately show ?thesis using c(2) by (intro exI [of _ ?c]) simp
qed

text \<open>The file a client and the servers implement.\<close>

definition implements :: "'w client \<Rightarrow> c_int \<Rightarrow> cfile \<Rightarrow> bool" where
  "implements c fd f \<longleftrightarrow> 0 \<le> snd f \<and> attached c fd mh ih n node (int (length (fst f))) (snd f) \<and>
     serves (cl_world c) (fst f) (int (length (fst f)))"

lemma call_ok:
  assumes "implements c fd f" "op_ok op f"
  shows "\<exists>c'. client_call srv fd op c = Some (fst (file_step op f), c') \<and> implements c' fd (snd (file_step op f))"
proof -
  obtain xs pos where f: "f = (xs, pos)" by (cases f)
  have i: "attached c fd mh ih n node (int (length xs)) pos" "serves (cl_world c) xs (int (length xs))" "0 \<le> pos"
    using assms(1) f by (simp_all add: implements_def)
  show ?thesis
  proof (cases op)
    case (Op_write bs)
    from client_write_ok [OF i(1,2) order_refl _ i(3)] assms(2) obtain c' where "client_write srv fd bs c = Some (Ret (int (length bs)), c')"
      "attached c' fd mh ih n node (int (length (put (nat pos) bs xs))) (pos + int (length bs))"
      "serves (cl_world c') (put (nat pos) bs xs) (int (length (put (nat pos) bs xs)))" unfolding Op_write f by auto
    then show ?thesis using Op_write f i(3) by (simp add: CBB_write_def implements_def numeral_eq_Suc)
  next
    case (Op_read k)
    have "0 \<le> k" "k + pos < 9223372036854775808" "pos mod BLOCK_SIZE + min k (int (length xs) - pos) \<le> BLOCK_SIZE \<or> pos mod BLOCK_SIZE = 0"
      "block_count (min k (int (length xs) - pos)) \<le> MAX_REPLY_BLOCKS"
      using assms(2) unfolding Op_read f by simp_all
    from client_read_ok [OF i this] obtain c' where "client_read srv fd k c = Some (Ret (int (length (take (nat k) (drop (nat pos) xs))), take (nat k) (drop (nat pos) xs)), c')"
      "attached c' fd mh ih n node (int (length xs)) (pos + int (length (take (nat k) (drop (nat pos) xs))))" "serves (cl_world c') xs (int (length xs))" by blast
    then show ?thesis using Op_read f i(3) by (simp add: CBB_read_def implements_def numeral_eq_Suc Let_def)
  next
    case (Op_seek off)
    from client_seek_ok [OF i(1,2), of off] assms(2) show ?thesis unfolding Op_seek f by (auto simp: implements_def)
  qed
qed

lemma run_ok:
  assumes "implements c fd f" "ops_ok ops f"
  shows "\<exists>c'. client_run srv fd ops c = Some (fst (file_run ops f), c') \<and> implements c' fd (snd (file_run ops f))"
  using assms
proof (induction ops arbitrary: c f)
  case (Cons op ops)
  from call_ok [OF Cons.prems(1)] Cons.prems(2) obtain c1 where c1: "client_call srv fd op c = Some (fst (file_step op f), c1)"
    "implements c1 fd (snd (file_step op f))" by auto
  from Cons.IH [OF c1(2)] Cons.prems(2) obtain c2 where "client_run srv fd ops c1 = Some (fst (file_run ops (snd (file_step op f))), c2)"
    "implements c2 fd (snd (file_run ops (snd (file_step op f))))" by auto
  then show ?case using c1(1) by (simp add: case_prod_unfold Let_def)
qed simp

end

end
