(* ===== verification/Stream_Data.thy ===== *)
theory Stream_Data
  imports Client_Stream Client_Data
begin

text \<open>
  What a buffered stream does to a file. The locale \<open>client_file\<close> states what a stream relies on: an
  open descriptor of the client holds the bytes of a file and a position. Its lemmas show that a
  stream that writes and seeks, and a stream that reads and seeks, act on a list of bytes with a
  position, however the calls cross the borders of the buffer. The contract is discharged for the
  client on a master and an IOnode in \<open>Stream_Cluster\<close>.
\<close>

section \<open>Buffers as lists\<close>

lemma put_in_put: "a \<le> length xs \<Longrightarrow> b \<le> length d \<Longrightarrow> put a (put b bs d) xs = put (a + b) bs (put a d xs)"
proof (rule nth_equalityI)
  assume h: "a \<le> length xs" "b \<le> length d"
  have l: "length (put a d xs) = max (length xs) (a + length d)" "length (put b bs d) = max (length d) (b + length bs)"
    using h by (simp_all add: length_put)
  show len: "length (put a (put b bs d) xs) = length (put (a + b) bs (put a d xs))" using h l by (simp add: length_put)
  fix i assume i: "i < length (put a (put b bs d) xs)"
  have i1: "i < max (length xs) (a + max (length d) (b + length bs))" using i h l by (simp add: length_put)
  have i2: "i < max (max (length xs) (a + length d)) (a + b + length bs)" using i1 by linarith
  show "put a (put b bs d) xs ! i = put (a + b) bs (put a d xs) ! i"
    using h l i1 i2 by (auto simp: nth_put)
qed

lemma put_same: "a + k \<le> length xs \<Longrightarrow> put a (take k (drop a xs)) xs = xs"
  by (rule nth_equalityI) (auto simp: length_put nth_put)

lemma get_put_bytes:
  assumes "a \<le> b"
  shows "get_bytes 0 (max b (a + length bs)) (put_bytes a bs mem) = put a bs (get_bytes 0 b mem)"
  using assms by (intro nth_equalityI) (auto simp: length_put nth_put get_bytes_def put_bytes_def)

lemma get_bytes_prefix: "k \<le> length d \<Longrightarrow> get_bytes 0 k (put_bytes 0 d mem) = take k d"
  by (intro nth_equalityI) (auto simp: get_bytes_def put_bytes_def)

lemma get_bytes_inside: "a + n \<le> b \<Longrightarrow> get_bytes a n mem = take n (drop a (get_bytes 0 b mem))"
  by (intro nth_equalityI) (auto simp: get_bytes_def)

lemma put_idem: "a \<le> length xs \<Longrightarrow> put a d (put a d xs) = put a d xs"
  by (rule nth_equalityI) (auto simp: length_put nth_put)

section \<open>The contract of a descriptor\<close>

text \<open>\<open>holds c xs pos\<close>: the file of the descriptor has the bytes \<open>xs\<close>, its position is \<open>pos\<close>.\<close>

locale client_file =
  fixes srv :: "'w server" and fd :: c_int and holds :: "'w client \<Rightarrow> byte list \<Rightarrow> off64_t \<Rightarrow> bool"
  assumes bound: "holds c xs pos \<Longrightarrow> int (length xs) < 4611686018427387904"
    and known_size: "holds c xs pos \<Longrightarrow> get_file_size fd c = Some (int (length xs))"
    and seek_set: "holds c xs pos \<Longrightarrow> 0 \<le> off \<Longrightarrow> \<exists>c'. client_lseek fd off SEEK_SET c = Some (off, c') \<and> holds c' xs off"
    and seek_cur: "holds c xs pos \<Longrightarrow> 0 \<le> off \<Longrightarrow> \<exists>c'. client_lseek fd off SEEK_CUR c = Some (off, c') \<and> holds c' xs (pos + off)"
    and write_at: "holds c xs pos \<Longrightarrow> 0 \<le> off \<Longrightarrow> off \<le> int (length xs) \<Longrightarrow> int (length bs) \<le> BLOCK_SIZE \<Longrightarrow>
      off + int (length bs) + BLOCK_SIZE < 4611686018427387904 \<Longrightarrow>
      \<exists>c1 c2 c3. update_file_size fd (max (int (length xs)) (off + int (length bs))) c = Some (0, c1) \<and>
        client_lseek fd off SEEK_SET c1 = Some (off, c2) \<and> CBB_write srv fd bs c2 = Some (int (length bs), c3) \<and>
        holds c3 (put (nat off) bs xs) (off + int (length bs))"
    and read_block: "holds c xs pos \<Longrightarrow> BLOCK_SIZE dvd pos \<or> pos mod BLOCK_SIZE + (int (length xs) - pos) \<le> BLOCK_SIZE \<Longrightarrow>
      pos \<le> int (length xs) \<Longrightarrow> 0 \<le> pos \<Longrightarrow> d = take (nat BLOCK_SIZE) (drop (nat pos) xs) \<Longrightarrow>
      \<exists>c'. CBB_read srv fd BLOCK_SIZE c = Some ((int (length d), d), c') \<and> holds c' xs (pos + int (length d))"

definition buffer_ok :: "stream_info \<Rightarrow> bool" where
  "buffer_ok s \<longleftrightarrow> si_buffer_flag s \<and> si_buf_len s = BLOCK_SIZE \<and> si_buffer_size s = BLOCK_SIZE \<and> 0 \<le> si_buf_off s \<and>
     0 \<le> si_cur s \<and> si_cur s \<le> BLOCK_SIZE \<and> 0 \<le> si_buffered s \<and> si_buffered s \<le> BLOCK_SIZE"

definition buffer_data :: "stream_info \<Rightarrow> int \<Rightarrow> byte list" where
  "buffer_data s b = get_bytes 0 (nat b) (si_buf s)"

lemma length_buffer_data [simp]: "length (buffer_data s b) = nat b"
  by (simp add: buffer_data_def)

definition writable :: "stream_info \<Rightarrow> bool" where
  "writable s \<longleftrightarrow> si_open_flag s AND O_WRONLY \<noteq> 0 \<or> si_open_flag s AND O_RDWR \<noteq> 0"

lemma dirty_frame [simp]:
  "buffer_ok (s\<lparr>si_dirty := d\<rparr>) = buffer_ok s" "writable (s\<lparr>si_dirty := d\<rparr>) = writable s" "buffer_data (s\<lparr>si_dirty := d\<rparr>) b = buffer_data s b"
  by (simp_all add: buffer_ok_def writable_def buffer_data_def)

lemma write_meta_fields [simp]:
  "si_cur (write_meta_update n s) = s64 (si_cur s + n)"
  "si_buffered (write_meta_update n s) = (if s64 (si_cur s + n) > s64 (si_buffered s) then u64 (s64 (si_cur s + n)) else si_buffered s)"
  "si_file_size (write_meta_update n s) =
     (if u64 (si_buf_off s + s64 (si_cur s + n)) > si_file_size s then u64 (si_buf_off s + s64 (si_cur s + n)) else si_file_size s)"
  "si_buf_off (write_meta_update n s) = si_buf_off s" "si_fd (write_meta_update n s) = si_fd s" "si_dirty (write_meta_update n s) = si_dirty s"
  "si_open_flag (write_meta_update n s) = si_open_flag s" "si_buf (write_meta_update n s) = si_buf s" "si_buf_len (write_meta_update n s) = si_buf_len s"
  "si_buffer_flag (write_meta_update n s) = si_buffer_flag s" "si_buffer_size (write_meta_update n s) = si_buffer_size s"
  by (simp_all add: write_meta_update_def Let_def cur_file_off_def)

lemma rebuf_fields [simp]:
  "si_cur (update_meta_for_rebuf d n s) = (if si_cur s \<ge> s64 (si_buffer_size s) then 0 else si_cur s)"
  "si_buffered (update_meta_for_rebuf d n s) = n"
  "si_file_size (update_meta_for_rebuf d n s) =
     (if u64 (s64 (si_buf_off s + si_buffered s) + n) > si_file_size s then u64 (s64 (si_buf_off s + si_buffered s) + n) else si_file_size s)"
  "si_buf_off (update_meta_for_rebuf d n s) = s64 (si_buf_off s + si_buffered s)" "si_fd (update_meta_for_rebuf d n s) = si_fd s"
  "si_dirty (update_meta_for_rebuf d n s) = d" "si_open_flag (update_meta_for_rebuf d n s) = si_open_flag s"
  "si_buf (update_meta_for_rebuf d n s) = si_buf s" "si_buf_len (update_meta_for_rebuf d n s) = si_buf_len s"
  "si_buffer_flag (update_meta_for_rebuf d n s) = si_buffer_flag s" "si_buffer_size (update_meta_for_rebuf d n s) = si_buffer_size s"
  by (simp_all add: update_meta_for_rebuf_def Let_def)

text \<open>
  Bytes \<open>bs\<close> go into the buffer at the current position. \<open>b\<close> bytes of the buffer count: what it has, or,
  after a seek into a block that was loaded for the write, the bytes before the position.
\<close>

lemma write_buffer:
  assumes ok: "buffer_ok s" and b: "si_cur s \<le> b" "b \<le> BLOCK_SIZE" "b = si_buffered s \<or> si_buffered s = 0 \<and> b = si_cur s"
    and x: "si_buf_off s \<le> int (length xs)" and n: "si_cur s + int (length bs) \<le> BLOCK_SIZE"
    and lim: "si_buf_off s + BLOCK_SIZE < 4611686018427387904"
    and fs: "si_file_size s = int (length (put (nat (si_buf_off s)) (buffer_data s b) xs))"
  shows "\<exists>s1 t. buf_put (si_cur s) bs s = Some s1 \<and> t = write_meta_update (int (length bs)) s1 \<and> buffer_ok t \<and> si_cur t = si_cur s + int (length bs) \<and>
     si_buffered t = max b (si_cur s + int (length bs)) \<and> si_buf_off t = si_buf_off s \<and> si_fd t = si_fd s \<and> si_open_flag t = si_open_flag s \<and> si_dirty t = si_dirty s \<and>
     put (nat (si_buf_off s)) (buffer_data t (si_buffered t)) xs = put (nat (si_buf_off s + si_cur s)) bs (put (nat (si_buf_off s)) (buffer_data s b) xs) \<and>
     si_file_size t = int (length (put (nat (si_buf_off s + si_cur s)) bs (put (nat (si_buf_off s)) (buffer_data s b) xs)))"
proof -
  let ?s1 = "s\<lparr>si_buf := put_bytes (nat (si_cur s)) bs (si_buf s)\<rparr>" and ?n = "int (length bs)"
  let ?ys = "put (nat (si_buf_off s)) (buffer_data s b) xs"
  have o: "0 \<le> si_buf_off s" "0 \<le> si_cur s" "0 \<le> si_buffered s" "si_buffered s \<le> BLOCK_SIZE" "si_buf_len s = BLOCK_SIZE" using ok by (simp_all add: buffer_ok_def)
  have p: "buf_put (si_cur s) bs s = Some ?s1" using o n by (cases "bs = []") (auto simp: buf_put_def put_bytes_def fun_eq_iff intro!: stream_info.equality)
  have r: "s64 (si_cur s + ?n) = si_cur s + ?n" "u64 (si_cur s + ?n) = si_cur s + ?n" "s64 (si_buffered s) = si_buffered s"
    "u64 (si_buf_off s + (si_cur s + ?n)) = si_buf_off s + (si_cur s + ?n)"
    using o n lim by (simp_all add: s64_def u64_def BLOCK_SIZE_def)
  have bf: "si_buffered (write_meta_update ?n ?s1) = max b (si_cur s + ?n)"
    using r b(1,3) o by (auto simp: max_def)
  have le: "nat (si_buf_off s) \<le> length xs" "nat (si_cur s) \<le> nat b" using x b(1) by simp_all
  have "buffer_data (write_meta_update ?n ?s1) (max b (si_cur s + ?n)) = put (nat (si_cur s)) bs (buffer_data s b)"
  proof -
    have "nat (max b (si_cur s + ?n)) = max (nat b) (nat (si_cur s) + length bs)" using o b(1) by (auto simp: max_def)
    then show ?thesis unfolding buffer_data_def using get_put_bytes [OF le(2)] by simp
  qed
  then have put: "put (nat (si_buf_off s)) (buffer_data (write_meta_update ?n ?s1) (max b (si_cur s + ?n))) xs = put (nat (si_buf_off s + si_cur s)) bs ?ys"
    using put_in_put [OF le(1), of "nat (si_cur s)" "buffer_data s b" bs] le(2) o by (simp add: nat_add_distrib)
  have ly: "int (length ?ys) = max (int (length xs)) (si_buf_off s + b)" using length_put [OF le(1)] o b(1) by simp
  then have "nat (si_buf_off s + si_cur s) \<le> length ?ys" using b(1) o by linarith
  then have "int (length (put (nat (si_buf_off s + si_cur s)) bs ?ys)) = max (int (length ?ys)) (si_buf_off s + (si_cur s + ?n))"
    using o by (simp add: length_put)
  then have "si_file_size (write_meta_update ?n ?s1) = int (length (put (nat (si_buf_off s + si_cur s)) bs ?ys))"
    using r fs by (auto simp: max_def)
  moreover have "buffer_ok (write_meta_update ?n ?s1)" using ok r(1) o n bf b(2) by (simp add: buffer_ok_def)
  ultimately show ?thesis using p bf put r(1) by (intro exI [of _ ?s1] exI [of _ "write_meta_update ?n ?s1"]) simp
qed

lemma block_start:
  assumes "0 \<le> p" "p < 4611686018427387904"
  shows "get_block_start_point p = p - p mod BLOCK_SIZE" "BLOCK_SIZE dvd p - p mod BLOCK_SIZE" "0 \<le> p - p mod BLOCK_SIZE"
    "0 \<le> p mod BLOCK_SIZE" "p mod BLOCK_SIZE < BLOCK_SIZE"
proof -
  have "p div BLOCK_SIZE * BLOCK_SIZE = p - p mod BLOCK_SIZE" using div_mult_mod_eq [of p BLOCK_SIZE] by linarith
  moreover have "u64 p = p" using assms by (simp add: u64_def)
  moreover have "s64 (p - p mod BLOCK_SIZE) = p - p mod BLOCK_SIZE"
  proof (rule s64_id)
    show "p - p mod BLOCK_SIZE < 9223372036854775808" using assms Euclidean_Rings.pos_mod_sign [of BLOCK_SIZE p] by (simp add: BLOCK_SIZE_def)
    show "- 9223372036854775808 \<le> p - p mod BLOCK_SIZE" using assms zmod_le_nonneg_dividend [of p BLOCK_SIZE] by simp
  qed
  ultimately show "get_block_start_point p = p - p mod BLOCK_SIZE" by (simp add: get_block_start_point_def)
  show m: "0 \<le> p mod BLOCK_SIZE" "p mod BLOCK_SIZE < BLOCK_SIZE" by (simp_all add: BLOCK_SIZE_def)
  show n: "0 \<le> p - p mod BLOCK_SIZE" using assms by (simp add: BLOCK_SIZE_def zmod_le_nonneg_dividend)
  show "BLOCK_SIZE dvd p - p mod BLOCK_SIZE" by (simp add: dvd_minus_mod)
qed

text \<open>The calls on a stream, as operations on a file.\<close>

fun info_call :: "'w server \<Rightarrow> file_op \<Rightarrow> stream_info \<Rightarrow> 'w client \<Rightarrow> (file_reply \<times> stream_info \<times> 'w client) option" where
  "info_call srv (Op_write bs) s c = do { (r, s1, c1) \<leftarrow> write_info srv bs s c; Some (Count r, s1, c1) }"
| "info_call srv (Op_read k) s c = do { ((_, d), s1, c1) \<leftarrow> read_info srv k s c; Some (Bytes d, s1, c1) }"
| "info_call srv (Op_seek off) s c = do { (r, s1, c1) \<leftarrow> seek_info srv off SEEK_SET s c; Some (Count r, s1, c1) }"

fun info_run :: "'w server \<Rightarrow> file_op list \<Rightarrow> stream_info \<Rightarrow> 'w client \<Rightarrow> (file_reply list \<times> stream_info \<times> 'w client) option" where
  "info_run srv [] s c = Some ([], s, c)"
| "info_run srv (op # ops) s c = do { (r, s1, c1) \<leftarrow> info_call srv op s c; (rs, s2, c2) \<leftarrow> info_run srv ops s1 c1; Some (r # rs, s2, c2) }"

text \<open>Writes and seeks that do not go beyond the end, in files below \<open>2 ^ 62\<close> bytes.\<close>

fun write_ops_ok :: "file_op list \<Rightarrow> cfile \<Rightarrow> bool" where
  "write_ops_ok [] f \<longleftrightarrow> True"
| "write_ops_ok (op # ops) (ys, pos) \<longleftrightarrow>
     (case op of Op_write bs \<Rightarrow> pos \<le> int (length ys) \<and> pos + int (length bs) + 4 * BLOCK_SIZE < 4611686018427387904
      | Op_seek off \<Rightarrow> 0 \<le> off \<and> off \<le> int (length ys) | Op_read _ \<Rightarrow> False) \<and>
     write_ops_ok ops (snd (file_step op (ys, pos)))"

section \<open>Streams that write\<close>

context client_file
begin

text \<open>
  The stream \<open>s\<close> and the client stand for the bytes \<open>ys\<close>. The file has \<open>xs\<close>; the buffer lies over it
  from \<open>si_buf_off\<close> on, or it is empty after a seek, the descriptor at its start.
\<close>

definition writing :: "stream_info \<Rightarrow> 'w client \<Rightarrow> byte list \<Rightarrow> bool" where
  "writing s c ys \<longleftrightarrow> buffer_ok s \<and> si_fd s = fd \<and> writable s \<and> si_file_size s = int (length ys) \<and>
     (\<exists>xs q. holds c xs q \<and> si_buf_off s \<le> int (length xs) \<and> (\<not> si_dirty s \<longrightarrow> ys = xs) \<and>
       (si_cur s \<le> si_buffered s \<and> ys = put (nat (si_buf_off s)) (buffer_data s (si_buffered s)) xs \<or>
        si_buffered s = 0 \<and> \<not> si_dirty s \<and> q = si_buf_off s \<and> BLOCK_SIZE dvd si_buf_off s \<and> si_buf_off s + si_cur s \<le> int (length xs)))"

lemma flush_writing:
  assumes w: "writing s c ys" and b: "si_buf_off s + 2 * BLOCK_SIZE < 4611686018427387904"
  shows "\<exists>c' q. flush_info srv s c = Some (s\<lparr>si_dirty := False\<rparr>, c') \<and> holds c' ys q \<and> writing (s\<lparr>si_dirty := False\<rparr>) c' ys"
proof (cases "si_dirty s")
  case False
  then have "s\<lparr>si_dirty := False\<rparr> = s" by simp
  then show ?thesis using w False by (auto simp: writing_def flush_info_def)
next
  case True
  from w True obtain xs q where x: "holds c xs q" "si_buf_off s \<le> int (length xs)" "si_cur s \<le> si_buffered s"
    "ys = put (nat (si_buf_off s)) (buffer_data s (si_buffered s)) xs" and ok: "buffer_ok s" "si_fd s = fd" "si_file_size s = int (length ys)"
    by (auto simp: writing_def)
  let ?d = "buffer_data s (si_buffered s)"
  have o: "0 \<le> si_buf_off s" "0 \<le> si_buffered s" "si_buffered s \<le> BLOCK_SIZE" "si_buffer_flag s" "si_buf_len s = BLOCK_SIZE" using ok(1) by (simp_all add: buffer_ok_def)
  have "nat (si_buf_off s) \<le> length xs" using x(2) by simp
  then have fs: "int (length ys) = max (int (length xs)) (si_buf_off s + int (length ?d))"
    unfolding x(4) length_put [OF \<open>nat (si_buf_off s) \<le> length xs\<close>] using o by simp
  have "int (length ?d) \<le> BLOCK_SIZE" "si_buf_off s + int (length ?d) + BLOCK_SIZE < 4611686018427387904" using o b by simp_all
  from write_at [OF x(1) o(1) x(2) this] obtain c1 c2 c3 where c3: "update_file_size fd (int (length ys)) c = Some (0, c1)"
    "client_lseek fd (si_buf_off s) SEEK_SET c1 = Some (si_buf_off s, c2)" "CBB_write srv fd ?d c2 = Some (int (length ?d), c3)"
    "holds c3 ys (si_buf_off s + int (length ?d))" unfolding fs x(4) [symmetric] by blast
  from seek_cur [OF c3(4) o(2)] obtain c4 where c4: "client_lseek fd (si_buffered s) SEEK_CUR c3 = Some (si_buffered s, c4)"
    "holds c4 ys (si_buf_off s + int (length ?d) + si_buffered s)" by blast
  have s: "s64 (si_buffered s) = si_buffered s" using o by (simp add: s64_def BLOCK_SIZE_def)
  have g: "buf_get 0 (si_buffered s) s = Some ?d" using o by (auto simp: buf_get_def buffer_data_def get_bytes_def)
  have "flush_info srv s c = Some (s\<lparr>si_dirty := False\<rparr>, c4)"
    using o(4) True ok(2,3) c3(1-3) c4(1) s g by (simp add: flush_info_def)
  moreover have "writing (s\<lparr>si_dirty := False\<rparr>) c4 ys"
  proof -
    have "ys = put (nat (si_buf_off s)) ?d ys" unfolding x(4) using put_idem [of "nat (si_buf_off s)" xs ?d] x(2) by simp
    moreover have "si_buf_off s \<le> int (length ys)" using fs o by simp
    ultimately show ?thesis using w c4(2) x(3) by (auto simp: writing_def buffer_ok_def writable_def buffer_data_def)
  qed
  ultimately show ?thesis using c4(2) by blast
qed

lemma writing_dirty:
  assumes "writing s c ys" "si_dirty s"
  obtains xs q where "holds c xs q" "si_buf_off s \<le> int (length xs)" "si_cur s \<le> si_buffered s"
    "ys = put (nat (si_buf_off s)) (buffer_data s (si_buffered s)) xs"
  using assms by (auto simp: writing_def)

lemma writing_length:
  assumes "writing s c ys" "si_cur s \<le> si_buffered s"
  shows "si_buf_off s + si_buffered s \<le> int (length ys)" "si_buf_off s \<le> int (length ys)"
proof -
  from assms obtain xs where xs: "si_buf_off s \<le> int (length xs)" "ys = put (nat (si_buf_off s)) (buffer_data s (si_buffered s)) xs \<or> si_buffered s = 0 \<and> ys = xs"
    "0 \<le> si_buf_off s" "0 \<le> si_buffered s" by (auto simp: writing_def buffer_ok_def)
  then have "nat (si_buf_off s) \<le> length xs" by simp
  from length_put [OF this, of "buffer_data s (si_buffered s)"] xs
  show "si_buf_off s + si_buffered s \<le> int (length ys)" "si_buf_off s \<le> int (length ys)" by auto
qed

lemma write_refill_ok:
  assumes "writing s c ys" "si_dirty s" "bs = [] \<or> si_cur s = BLOCK_SIZE" "cur_file_off s + int (length bs) + 3 * BLOCK_SIZE < 4611686018427387904"
  shows "\<exists>s' c'. write_info_loop srv bs s c = Some (s', c') \<and> writing s' c' (put (nat (cur_file_off s)) bs ys) \<and>
    cur_file_off s' = cur_file_off s + int (length bs)"
  using assms
proof (induction "length bs" arbitrary: bs s c ys rule: less_induct)
  case less
  show ?case
  proof (cases "bs = []")
    case True
    then show ?thesis using less.prems(1) by (simp add: write_info_loop.simps)
  next
    case False
    have cur: "si_cur s = BLOCK_SIZE" using less.prems(3) False by simp
    have ok: "buffer_ok s" "si_fd s = fd" "writable s" "si_file_size s = int (length ys)" using less.prems(1) by (simp_all add: writing_def)
    have o: "0 \<le> si_buf_off s" "si_buffered s \<le> BLOCK_SIZE" "si_buffer_size s = BLOCK_SIZE" using ok(1) by (simp_all add: buffer_ok_def)
    have bf: "si_buffered s = BLOCK_SIZE" using less.prems(1,2) cur o(2) by (auto elim: writing_dirty)
    have ly: "si_buf_off s + BLOCK_SIZE \<le> int (length ys)" using writing_length [OF less.prems(1)] cur bf by simp
    have lim: "si_buf_off s + 2 * BLOCK_SIZE + int (length bs) + 2 * BLOCK_SIZE < 4611686018427387904" using less.prems(4) cur by (simp add: cur_file_off_def)
    then have "si_buf_off s + 2 * BLOCK_SIZE < 4611686018427387904" by (simp add: BLOCK_SIZE_def)
    from flush_writing [OF less.prems(1) this] obtain c1 q where c1: "flush_info srv s c = Some (s\<lparr>si_dirty := False\<rparr>, c1)" "holds c1 ys q" by blast
    define s2 where "s2 = update_meta_for_rebuf DIRTY 0 (s\<lparr>si_dirty := False\<rparr>)"
    have r: "s64 (si_buf_off s + BLOCK_SIZE) = si_buf_off s + BLOCK_SIZE" "u64 (si_buf_off s + BLOCK_SIZE) = si_buf_off s + BLOCK_SIZE" "s64 BLOCK_SIZE = BLOCK_SIZE"
      "u64 BLOCK_SIZE = BLOCK_SIZE" using o(1) lim by (simp_all add: s64_def u64_def BLOCK_SIZE_def)
    have s2: "si_cur s2 = 0" "si_buffered s2 = 0" "si_buf_off s2 = si_buf_off s + BLOCK_SIZE" "si_file_size s2 = int (length ys)" "si_dirty s2" "si_fd s2 = fd"
      "si_open_flag s2 = si_open_flag s" "si_buffer_size s2 = BLOCK_SIZE" "si_buf_len s2 = BLOCK_SIZE" "si_buffer_flag s2"
      using cur bf r ok o ly by (simp_all add: s2_def buffer_ok_def)
    define k where "k = min (length bs) (nat BLOCK_SIZE)"
    have k: "nat (min (int (length bs)) (remaining_buffer_size s2)) = k" using s2(1,8) by (simp add: k_def remaining_buffer_size_def BLOCK_SIZE_def u64_def min_def)
    have kb: "int k \<le> BLOCK_SIZE" "k \<le> length bs" by (simp_all add: k_def BLOCK_SIZE_def)
    have ok2: "buffer_ok s2" using s2 o(1) by (simp add: buffer_ok_def BLOCK_SIZE_def)
    have p0: "put (nat (si_buf_off s2)) (buffer_data s2 0) ys = ys" by (simp add: buffer_data_def get_bytes_def)
    have b0: "si_cur s2 \<le> 0" "0 \<le> BLOCK_SIZE" "0 = si_buffered s2 \<or> si_buffered s2 = 0 \<and> 0 = si_cur s2" "si_buf_off s2 \<le> int (length ys)"
      "si_cur s2 + int (length (take k bs)) \<le> BLOCK_SIZE" "si_buf_off s2 + BLOCK_SIZE < 4611686018427387904"
      "si_file_size s2 = int (length (put (nat (si_buf_off s2)) (buffer_data s2 0) ys))" unfolding p0 using s2 kb ly lim by (simp_all add: BLOCK_SIZE_def)
    have lk: "int (length (take k bs)) = int k" using kb(2) by simp
    from write_buffer [OF ok2 b0] obtain s1 t where t: "buf_put (si_cur s2) (take k bs) s2 = Some s1" "t = write_meta_update (int k) s1" "buffer_ok t" "si_cur t = si_cur s2 + int k"
       "si_buf_off t = si_buf_off s2" "si_fd t = si_fd s2" "si_open_flag t = si_open_flag s2" "si_dirty t = si_dirty s2" "si_buffered t = max 0 (si_cur s2 + int k)"
       "put (nat (si_buf_off s2)) (buffer_data t (si_buffered t)) ys = put (nat (si_buf_off s2 + si_cur s2)) (take k bs) ys"
       "si_file_size t = int (length (put (nat (si_buf_off s2 + si_cur s2)) (take k bs) ys))" unfolding p0 lk by blast
    note s1 = t(1) [unfolded s2(1)] t(2-9) [unfolded s2(1,3,6,7)] t(10,11) [unfolded s2(1,3)]
    have wt: "writing t c1 (put (nat (si_buf_off s + BLOCK_SIZE)) (take k bs) ys)"
      unfolding writing_def using s1(3-11) s2(5) ok(3) c1(2) ly by (auto simp: writable_def intro!: exI [of _ ys] exI [of _ q])
    have step: "write_info_loop srv bs s c = write_info_loop srv (drop k bs) t c1"
      unfolding write_info_loop.simps [of srv bs s c]
      by (simp only: False c1(1) s1(1) k t(2) s2_def [symmetric] not_False_eq_True if_True Let_def prod.case bind.bind_lunit)
    have ct: "cur_file_off t = si_buf_off s + BLOCK_SIZE + int k" using s1(4,5) by (simp add: cur_file_off_def)
    have full: "drop k bs = [] \<or> si_cur t = BLOCK_SIZE" using s1(4) by (auto simp: k_def BLOCK_SIZE_def)
    have dt: "si_dirty t" using s1(8) s2(5) by simp
    have "length (drop k bs) < length bs" using False by (simp add: k_def BLOCK_SIZE_def)
    moreover have "cur_file_off t + int (length (drop k bs)) + 3 * BLOCK_SIZE < 4611686018427387904" using lim kb(2) by (simp add: ct)
    ultimately obtain s' c' where s': "write_info_loop srv (drop k bs) t c1 = Some (s', c')"
      "writing s' c' (put (nat (cur_file_off t)) (drop k bs) (put (nat (si_buf_off s + BLOCK_SIZE)) (take k bs) ys))"
      "cur_file_off s' = cur_file_off t + int (length (drop k bs))" using less.hyps [OF _ wt dt full] by blast
    have "nat (si_buf_off s + BLOCK_SIZE) \<le> length ys" "nat (cur_file_off t) = nat (si_buf_off s + BLOCK_SIZE) + length (take k bs)"
      using ly o(1) kb(2) ct by (simp_all add: BLOCK_SIZE_def)
    then have "put (nat (cur_file_off t)) (drop k bs) (put (nat (si_buf_off s + BLOCK_SIZE)) (take k bs) ys) = put (nat (si_buf_off s + BLOCK_SIZE)) bs ys"
      using put_put [of "nat (si_buf_off s + BLOCK_SIZE)" ys "take k bs" "drop k bs"] by simp
    then show ?thesis using s' step kb(2) ct cur by (intro exI [of _ s'] exI [of _ c']) (simp add: cur_file_off_def)
  qed
qed

lemma init_ok:
  assumes w: "writing s c ys"
  shows "\<exists>s0 c0 xs q b. init_buffer_for_writing srv s c = Some (s0, c0) \<and> holds c0 xs q \<and> buffer_ok s0 \<and> si_cur s0 = si_cur s \<and> si_buf_off s0 = si_buf_off s \<and>
    si_fd s0 = fd \<and> si_open_flag s0 = si_open_flag s \<and> si_file_size s0 = int (length ys) \<and> si_cur s \<le> b \<and> b \<le> BLOCK_SIZE \<and>
    (b = si_buffered s0 \<or> si_buffered s0 = 0 \<and> b = si_cur s0) \<and> si_buf_off s \<le> int (length xs) \<and> ys = put (nat (si_buf_off s)) (buffer_data s0 b) xs"
proof -
  from w obtain xs q where x: "holds c xs q" "si_buf_off s \<le> int (length xs)" "\<not> si_dirty s \<longrightarrow> ys = xs"
    "si_cur s \<le> si_buffered s \<and> ys = put (nat (si_buf_off s)) (buffer_data s (si_buffered s)) xs \<or>
     si_buffered s = 0 \<and> \<not> si_dirty s \<and> q = si_buf_off s \<and> BLOCK_SIZE dvd si_buf_off s \<and> si_buf_off s + si_cur s \<le> int (length xs)"
    and ok: "buffer_ok s" "si_fd s = fd" "si_file_size s = int (length ys)" unfolding writing_def by blast
  have o: "0 \<le> si_buf_off s" "0 \<le> si_cur s" "0 \<le> si_buffered s" "si_buffered s \<le> BLOCK_SIZE" "si_cur s \<le> BLOCK_SIZE" "si_buffer_size s = BLOCK_SIZE" "si_buf_len s = BLOCK_SIZE"
    using ok(1) by (simp_all add: buffer_ok_def)
  have r: "s64 (si_buffered s) = si_buffered s" using o by (simp add: s64_def BLOCK_SIZE_def)
  show ?thesis
  proof (cases "si_cur s \<le> si_buffered s")
    case True
    then have "ys = put (nat (si_buf_off s)) (buffer_data s (si_buffered s)) xs" using x(3,4) o(2) by (auto simp: buffer_data_def get_bytes_def)
    moreover have "init_buffer_for_writing srv s c = Some (s, c)" using True r by (simp add: init_buffer_for_writing_def)
    ultimately show ?thesis using x(1,2) ok o True by (intro exI [of _ s] exI [of _ c] exI [of _ xs] exI [of _ q] exI [of _ "si_buffered s"]) simp
  next
    case False
    then have B: "si_buffered s = 0" "\<not> si_dirty s" "q = si_buf_off s" "BLOCK_SIZE dvd si_buf_off s" "si_buf_off s + si_cur s \<le> int (length xs)" "ys = xs"
      using x(3,4) by auto
    define d where "d = take (nat BLOCK_SIZE) (drop (nat (si_buf_off s)) xs)"
    from read_block [OF x(1) _ _ _ d_def [folded B(3)]] B(3,4) x(2) o(1) obtain c' where
      c': "CBB_read srv fd BLOCK_SIZE c = Some ((int (length d), d), c')" "holds c' xs (q + int (length d))" by auto
    let ?s0 = "s\<lparr>si_buf := put_bytes 0 d (si_buf s)\<rparr>"
    have "nat (si_cur s) \<le> nat BLOCK_SIZE" "nat (si_cur s) \<le> length xs - nat (si_buf_off s)" using B(5) o(1,2,5) by (simp_all add: nat_mono)
    then have ld: "int (length d) \<le> BLOCK_SIZE" "nat (si_cur s) \<le> length d" by (simp_all add: d_def min_def BLOCK_SIZE_def)
    have "s64 (int (length xs)) = int (length xs)" using bound [OF x(1)] by (simp add: s64_def)
    moreover have "buf_put 0 d s = Some ?s0" using ld o(7) by (cases "d = []") (auto simp: buf_put_def put_bytes_def fun_eq_iff intro!: stream_info.equality)
    ultimately have "init_buffer_for_writing srv s c = Some (?s0, c')"
      using False r B(1,2,5,6) o(6) ok(2,3) c'(1) by (simp add: init_buffer_for_writing_def flush_info_def)
    moreover have "buffer_data ?s0 (si_cur s) = take (nat (si_cur s)) (drop (nat (si_buf_off s)) xs)"
      using get_bytes_prefix [OF ld(2), of "si_buf s"] o(5) by (simp add: buffer_data_def d_def min_absorb1 nat_mono)
    moreover have "put (nat (si_buf_off s)) (take (nat (si_cur s)) (drop (nat (si_buf_off s)) xs)) xs = xs"
      using B(5) o(1,2) by (intro put_same) linarith
    ultimately show ?thesis using c'(2) ok B(1,6) o x(2)
      by (intro exI [of _ ?s0] exI [of _ c'] exI [of _ xs] exI [of _ "q + int (length d)"] exI [of _ "si_cur s"]) (simp add: buffer_ok_def)
  qed
qed

lemma write_info_ok:
  assumes w: "writing s c ys" and lim: "cur_file_off s + int (length bs) + 4 * BLOCK_SIZE < 4611686018427387904"
  shows "\<exists>s' c'. write_info srv bs s c = Some (int (length bs), s', c') \<and> writing s' c' (put (nat (cur_file_off s)) bs ys) \<and>
    cur_file_off s' = cur_file_off s + int (length bs)"
proof -
  from init_ok [OF w] obtain s0 c0 xs q b where i: "init_buffer_for_writing srv s c = Some (s0, c0)" "holds c0 xs q" "buffer_ok s0" "si_cur s0 = si_cur s"
    "si_buf_off s0 = si_buf_off s" "si_fd s0 = fd" "si_open_flag s0 = si_open_flag s" "si_file_size s0 = int (length ys)" "si_cur s \<le> b" "b \<le> BLOCK_SIZE"
    "b = si_buffered s0 \<or> si_buffered s0 = 0 \<and> b = si_cur s0" "si_buf_off s \<le> int (length xs)" "ys = put (nat (si_buf_off s)) (buffer_data s0 b) xs" by blast
  have ok: "buffer_ok s" "writable s" using w by (simp_all add: writing_def)
  have o: "0 \<le> si_buf_off s" "0 \<le> si_cur s" "si_cur s \<le> BLOCK_SIZE" "si_buffer_size s = BLOCK_SIZE" "si_buffer_flag s" using ok(1) by (simp_all add: buffer_ok_def)
  define k where "k = nat (min (BLOCK_SIZE - si_cur s) (int (length bs)))"
  have k: "nat (min (remaining_buffer_size s) (int (length bs))) = k" using o by (simp add: k_def remaining_buffer_size_def u64_def BLOCK_SIZE_def)
  have kb: "k \<le> length bs" "si_cur s + int k \<le> BLOCK_SIZE" using o(3) by (simp_all add: k_def)
  have lk: "int (length (take k bs)) = int k" using kb(1) by simp
  have off: "si_buf_off s0 + BLOCK_SIZE < 4611686018427387904" using lim o(2) i(5) by (simp add: cur_file_off_def BLOCK_SIZE_def)
  have b0: "si_cur s0 \<le> b" "si_buf_off s0 \<le> int (length xs)" "si_cur s0 + int (length (take k bs)) \<le> BLOCK_SIZE"
    "si_file_size s0 = int (length (put (nat (si_buf_off s0)) (buffer_data s0 b) xs))" using i(4,5,8,9,12,13) kb(2) lk by simp_all
  from write_buffer [OF i(3) b0(1) i(10,11) b0(2,3) off b0(4)] obtain s1 t0 where s1: "buf_put (si_cur s) (take k bs) s0 = Some s1" "t0 = write_meta_update (int k) s1"
     "buffer_ok t0" "si_cur t0 = si_cur s + int k" "si_buffered t0 = max b (si_cur s + int k)" "si_buf_off t0 = si_buf_off s" "si_fd t0 = fd"
     "si_open_flag t0 = si_open_flag s" "put (nat (si_buf_off s)) (buffer_data t0 (si_buffered t0)) xs = put (nat (si_buf_off s + si_cur s)) (take k bs) ys"
     "si_file_size t0 = int (length (put (nat (si_buf_off s + si_cur s)) (take k bs) ys))"
    unfolding lk i(4-7) i(13) [symmetric] by blast
  define t where "t = t0\<lparr>si_dirty := True\<rparr>"
  have t: "buffer_ok t" "si_cur t = si_cur s + int k" "si_buffered t = max b (si_cur s + int k)" "si_buf_off t = si_buf_off s" "si_fd t = fd" "writable t" "si_dirty t"
    "put (nat (si_buf_off s)) (buffer_data t (si_buffered t)) xs = put (nat (cur_file_off s)) (take k bs) ys"
    "si_file_size t = int (length (put (nat (cur_file_off s)) (take k bs) ys))"
    using s1(3-10) ok(2) unfolding t_def by (simp_all add: writable_def cur_file_off_def)
  have wt: "writing t c0 (put (nat (cur_file_off s)) (take k bs) ys)"
    unfolding writing_def using t i(2,12) by (auto intro!: exI [of _ xs] exI [of _ q])
  have ct: "cur_file_off t = cur_file_off s + int k" using t(2,4) by (simp add: cur_file_off_def)
  have full: "drop k bs = [] \<or> si_cur t = BLOCK_SIZE" using t(2) o(3) by (auto simp: k_def)
  have "cur_file_off t + int (length (drop k bs)) + 3 * BLOCK_SIZE < 4611686018427387904" using lim kb(1) by (simp add: ct BLOCK_SIZE_def)
  from write_refill_ok [OF wt t(7) full this] obtain s' c' where s': "write_info_loop srv (drop k bs) t c0 = Some (s', c')"
    "writing s' c' (put (nat (cur_file_off t)) (drop k bs) (put (nat (cur_file_off s)) (take k bs) ys))" "cur_file_off s' = cur_file_off t + int (length (drop k bs))" by blast
  have pos: "nat (cur_file_off s) \<le> length ys"
  proof -
    have "nat (si_buf_off s) \<le> length xs" using i(12) by simp
    from length_put [OF this, of "buffer_data s0 b"] show ?thesis using i(9,13) o(1,2) by (simp add: cur_file_off_def)
  qed
  have "nat (cur_file_off t) = nat (cur_file_off s) + length (take k bs)" using ct kb(1) o(1,2) by (simp add: cur_file_off_def)
  then have "put (nat (cur_file_off t)) (drop k bs) (put (nat (cur_file_off s)) (take k bs) ys) = put (nat (cur_file_off s)) bs ys"
    using put_put [OF pos, of "take k bs" "drop k bs"] by simp
  moreover have "write_info srv bs s c = Some (int (length bs), s', c')"
    using ok(2) o(5) k i(1,4) s1(1) s'(1) by (simp add: write_info_def writable_def Let_def t_def s1(2))
  ultimately show ?thesis using s'(2,3) ct kb(1) by simp
qed

lemma writing_off: "writing s c ys \<Longrightarrow> si_buf_off s \<le> int (length ys)"
proof -
  assume w: "writing s c ys"
  show ?thesis
  proof (cases "si_cur s \<le> si_buffered s")
    case False
    then obtain xs where "si_buf_off s \<le> int (length xs)" "ys = xs" using w by (auto simp: writing_def)
    then show ?thesis by simp
  qed (rule writing_length(2) [OF w])
qed

lemma seek_writing:
  assumes w: "writing s c ys" and p: "0 \<le> p" "p \<le> int (length ys)" and lim: "int (length ys) + 4 * BLOCK_SIZE < 4611686018427387904"
  shows "\<exists>s' c'. seek_info srv p SEEK_SET s c = Some (p, s', c') \<and> writing s' c' ys \<and> cur_file_off s' = p"
proof -
  have ok: "buffer_ok s" "si_fd s = fd" "writable s" "si_file_size s = int (length ys)" using w by (simp_all add: writing_def)
  have o: "0 \<le> si_buf_off s" "0 \<le> si_buffered s" "si_buffered s \<le> BLOCK_SIZE" "si_buffer_flag s" using ok(1) by (simp_all add: buffer_ok_def)
  have off: "si_buf_off s + 2 * BLOCK_SIZE < 4611686018427387904" using writing_off [OF w] lim by (simp add: BLOCK_SIZE_def)
  have r: "s64 (si_buf_off s + si_buffered s) = si_buf_off s + si_buffered s" using o off by (simp add: s64_def BLOCK_SIZE_def)
  show ?thesis
  proof (cases "p > si_buf_off s + si_buffered s \<or> p < si_buf_off s")
    case False
    let ?s = "s\<lparr>si_cur := p - si_buf_off s\<rparr>"
    have ok': "buffer_ok ?s" using ok(1) False o(3) by (auto simp: buffer_ok_def)
    from w obtain xs q where x: "holds c xs q" "si_buf_off s \<le> int (length xs)" "\<not> si_dirty s \<longrightarrow> ys = xs"
      "ys = put (nat (si_buf_off s)) (buffer_data s (si_buffered s)) xs \<or> si_buffered s = 0 \<and> \<not> si_dirty s" unfolding writing_def by blast
    have "ys = put (nat (si_buf_off s)) (buffer_data s (si_buffered s)) xs" using x(3,4) by (auto simp: buffer_data_def get_bytes_def)
    then have "writing ?s c ys" unfolding writing_def using ok ok' x(1-3) False
      by (auto simp: writable_def buffer_data_def intro!: exI [of _ xs] exI [of _ q])
    moreover have "seek_info srv p SEEK_SET s c = Some (p, ?s, c)"
      using False r o(4) by (simp add: seek_info_def buf_off_from_file_off_def cur_file_off_def)
    ultimately show ?thesis by (intro exI [of _ ?s] exI [of _ c]) (simp add: cur_file_off_def)
  next
    case True
    have "p < 4611686018427387904" using p(2) lim by (simp add: BLOCK_SIZE_def)
    note b = block_start [OF p(1) this]
    from flush_writing [OF w off] obtain c1 q where c1: "flush_info srv s c = Some (s\<lparr>si_dirty := False\<rparr>, c1)" "holds c1 ys q" by blast
    from seek_set [OF c1(2) b(3)] obtain c2 where c2: "client_lseek fd (p - p mod BLOCK_SIZE) SEEK_SET c1 = Some (p - p mod BLOCK_SIZE, c2)"
      "holds c2 ys (p - p mod BLOCK_SIZE)" by blast
    let ?s = "s\<lparr>si_dirty := False, si_buf_off := p - p mod BLOCK_SIZE, si_buffered := 0, si_cur := p mod BLOCK_SIZE\<rparr>"
    have "buffer_ok ?s" using ok(1) b(3-5) by (simp add: buffer_ok_def BLOCK_SIZE_def)
    moreover have "p - p mod BLOCK_SIZE \<le> int (length ys)" using b(4) p(2) by linarith
    ultimately have "writing ?s c2 ys" unfolding writing_def using ok c2(2) b(2) p(2)
      by (auto simp: writable_def intro!: exI [of _ ys] exI [of _ "p - p mod BLOCK_SIZE"])
    moreover have "seek_info srv p SEEK_SET s c = Some (p, ?s, c2)" using True r o(4) c1(1) c2(1) b(1) ok(2) by (simp add: seek_info_def Let_def)
    ultimately show ?thesis by (intro exI [of _ ?s] exI [of _ c2]) (simp add: cur_file_off_def)
  qed
qed

text \<open>Any sequence of writes and seeks.\<close>

lemma write_run_ok:
  assumes "writing s c ys" "int (length ys) + 4 * BLOCK_SIZE < 4611686018427387904" "write_ops_ok ops (ys, cur_file_off s)"
  shows "\<exists>s' c'. info_run srv ops s c = Some (fst (file_run ops (ys, cur_file_off s)), s', c') \<and>
    writing s' c' (fst (snd (file_run ops (ys, cur_file_off s)))) \<and> cur_file_off s' = snd (snd (file_run ops (ys, cur_file_off s))) \<and>
    int (length (fst (snd (file_run ops (ys, cur_file_off s))))) + 4 * BLOCK_SIZE < 4611686018427387904"
  using assms
proof (induction ops arbitrary: s c ys)
  case (Cons op ops)
  let ?f = "file_step op (ys, cur_file_off s)"
  have "\<exists>s1 c1. info_call srv op s c = Some (fst ?f, s1, c1) \<and> writing s1 c1 (fst (snd ?f)) \<and> cur_file_off s1 = snd (snd ?f) \<and>
      int (length (fst (snd ?f))) + 4 * BLOCK_SIZE < 4611686018427387904"
  proof (cases op)
    case (Op_write bs)
    have lim: "cur_file_off s + int (length bs) + 4 * BLOCK_SIZE < 4611686018427387904" "nat (cur_file_off s) \<le> length ys" "0 \<le> cur_file_off s"
      using Cons.prems(1,3) Op_write by (simp_all add: writing_def buffer_ok_def cur_file_off_def nat_le_iff)
    from write_info_ok [OF Cons.prems(1) lim(1)] show ?thesis using lim Cons.prems(2) by (auto simp: Op_write length_put)
  next
    case (Op_seek p)
    then have "0 \<le> p" "p \<le> int (length ys)" using Cons.prems(3) by simp_all
    from seek_writing [OF Cons.prems(1) this Cons.prems(2)] show ?thesis using Cons.prems(2) by (auto simp: Op_seek)
  qed (use Cons.prems in simp)
  then obtain s1 c1 where s1: "info_call srv op s c = Some (fst ?f, s1, c1)" "writing s1 c1 (fst (snd ?f))" "cur_file_off s1 = snd (snd ?f)"
    "int (length (fst (snd ?f))) + 4 * BLOCK_SIZE < 4611686018427387904" by blast
  have "write_ops_ok ops (fst (snd ?f), cur_file_off s1)" using Cons.prems(3) s1(3) by simp
  from Cons.IH [OF s1(2,4) this] s1(1,3) show ?case by (auto simp: case_prod_unfold Let_def)
qed simp

end

section \<open>Streams that read\<close>

fun read_ops_ok :: "file_op list \<Rightarrow> cfile \<Rightarrow> bool" where
  "read_ops_ok [] f \<longleftrightarrow> True"
| "read_ops_ok (op # ops) (xs, pos) \<longleftrightarrow>
     (case op of Op_read k \<Rightarrow> 0 \<le> k | Op_seek off \<Rightarrow> 0 \<le> off \<and> off \<le> int (length xs) | Op_write _ \<Rightarrow> False) \<and>
     read_ops_ok ops (snd (file_step op (xs, pos)))"

lemma update_cur_fields:
  assumes "get_file_size (si_fd s) c = Some z" "si_file_size s = z" "0 \<le> cur_file_off s" "0 \<le> n" "cur_file_off s + n \<le> z" "z < 4611686018427387904"
  shows "update_cur_buf_ptr n c s = Some (n, s\<lparr>si_cur := si_cur s + n\<rparr>)"
proof -
  have "u64 (n + cur_file_off s) = n + cur_file_off s" using assms by (simp add: u64_def)
  then show ?thesis using assms by (simp add: update_cur_buf_ptr_def stream_update_file_size_def add.commute)
qed

context client_file
begin

text \<open>
  The stream and the client stand for the bytes \<open>xs\<close>: the buffer holds a part of the file from the
  start of a block on, and the descriptor is behind it. A part that is neither empty nor a whole
  block ends with the file.
\<close>

definition reading :: "stream_info \<Rightarrow> 'w client \<Rightarrow> byte list \<Rightarrow> bool" where
  "reading s c xs \<longleftrightarrow> buffer_ok s \<and> si_fd s = fd \<and> \<not> si_dirty s \<and> si_file_size s = int (length xs) \<and> holds c xs (si_buf_off s + si_buffered s) \<and>
     BLOCK_SIZE dvd si_buf_off s \<and> si_buf_off s + si_buffered s \<le> int (length xs) \<and> cur_file_off s \<le> int (length xs) \<and>
     buffer_data s (si_buffered s) = take (nat (si_buffered s)) (drop (nat (si_buf_off s)) xs) \<and>
     (si_buffered s = 0 \<and> si_cur s < BLOCK_SIZE \<or>
      si_cur s \<le> si_buffered s \<and> (si_buffered s = BLOCK_SIZE \<or> si_buf_off s + si_buffered s = int (length xs)))"

lemma read_refill_ok:
  assumes "reading s c xs" "si_buffered s \<le> si_cur s" "0 \<le> k"
  shows "\<exists>s' c'. read_info_loop srv k acc s c = Some (acc @ take (nat k) (drop (nat (cur_file_off s)) xs), s', c') \<and> reading s' c' xs \<and>
    cur_file_off s' = cur_file_off s + int (length (take (nat k) (drop (nat (cur_file_off s)) xs)))"
  using assms
proof (induction "nat (int (length xs) - (si_buf_off s + si_buffered s))" arbitrary: s c k acc rule: less_induct)
  case less
  have R: "buffer_ok s" "si_fd s = fd" "\<not> si_dirty s" "si_file_size s = int (length xs)" "holds c xs (si_buf_off s + si_buffered s)"
    "BLOCK_SIZE dvd si_buf_off s" "si_buf_off s + si_buffered s \<le> int (length xs)" "cur_file_off s \<le> int (length xs)"
    using less.prems(1) by (simp_all add: reading_def)
  have o: "0 \<le> si_buf_off s" "0 \<le> si_cur s" "0 \<le> si_buffered s" "si_buffered s \<le> BLOCK_SIZE" "si_buffer_size s = BLOCK_SIZE" "si_buf_len s = BLOCK_SIZE" "si_buffer_flag s"
    using R(1) by (simp_all add: buffer_ok_def)
  show ?case
  proof (cases "k = 0")
    case True
    then show ?thesis using less.prems(1) by (simp add: read_info_loop.simps)
  next
    case False
    let ?q = "si_buf_off s + si_buffered s"
    define d where "d = take (nat BLOCK_SIZE) (drop (nat ?q) xs)"
    have "?q mod BLOCK_SIZE \<le> BLOCK_SIZE" using Euclidean_Rings.pos_mod_bound [of BLOCK_SIZE ?q] by (simp add: BLOCK_SIZE_def)
    then have al: "BLOCK_SIZE dvd ?q \<or> ?q mod BLOCK_SIZE + (int (length xs) - ?q) \<le> BLOCK_SIZE" using less.prems(1) R(6) by (auto simp: reading_def)
    have q0: "0 \<le> ?q" using o by simp
    from read_block [OF R(5) al R(7) q0 d_def] obtain c' where c': "CBB_read srv fd BLOCK_SIZE c = Some ((int (length d), d), c')" "holds c' xs (?q + int (length d))" by blast
    have z: "int (length xs) < 4611686018427387904" using bound [OF R(5)] .
    have ld: "int (length d) \<le> BLOCK_SIZE" "?q + int (length d) \<le> int (length xs)" using R(7) q0 by (simp_all add: d_def BLOCK_SIZE_def)
    let ?s = "s\<lparr>si_buf := put_bytes 0 d (si_buf s)\<rparr>"
    have fl: "flush_info srv s c = Some (s, c)" using R(3) by (simp add: flush_info_def)
    have ud: "u64 (int (length d)) = int (length d)" using ld(1) by (simp add: u64_def BLOCK_SIZE_def)
    have bp: "buf_put 0 d s = Some ?s" using ld(1) o(6) by (cases "d = []") (auto simp: buf_put_def put_bytes_def fun_eq_iff intro!: stream_info.equality)
    show ?thesis
    proof (cases "d = []")
      case True
      have s: "?s = s" using True by (simp add: put_bytes_def)
      have "int (length xs) \<le> ?q" using True q0 by (simp add: d_def BLOCK_SIZE_def)
      then have "drop (nat (cur_file_off s)) xs = []" using less.prems(2) o by (simp add: cur_file_off_def)
      moreover have "read_info_loop srv k acc s c = Some (acc, s, c')"
        using False fl c'(1) bp True s R(2) o(5) by (subst read_info_loop.simps) (simp add: u64_def)
      moreover have "reading s c' xs" using less.prems(1) c'(2) True by (simp add: reading_def)
      ultimately show ?thesis by (intro exI [of _ s] exI [of _ c']) simp
    next
      case ne: False
      define s3 where "s3 = update_meta_for_rebuf CLEAN (int (length d)) ?s"
      have r: "s64 ?q = ?q" "u64 (?q + int (length d)) = ?q + int (length d)" "s64 BLOCK_SIZE = BLOCK_SIZE" using q0 ld z by (simp_all add: s64_def u64_def BLOCK_SIZE_def)
      have s3: "si_buf_off s3 = ?q" "si_buffered s3 = int (length d)" "si_file_size s3 = int (length xs)" "si_fd s3 = fd" "\<not> si_dirty s3" "si_buf_len s3 = BLOCK_SIZE"
        "si_buf s3 = put_bytes 0 d (si_buf s)" "si_cur s3 = (if BLOCK_SIZE \<le> si_cur s then 0 else si_cur s)" "si_buffer_size s3 = BLOCK_SIZE" "si_buffer_flag s3"
        using r ld R o by (simp_all add: s3_def)
      have kind: "si_buffered s = 0 \<and> si_cur s < BLOCK_SIZE \<or> si_buffered s = BLOCK_SIZE \<and> si_cur s = BLOCK_SIZE"
      proof -
        have "int (length xs) \<noteq> ?q" using ne q0 by (auto simp: d_def)
        then show ?thesis using less.prems(1,2) by (auto simp: reading_def)
      qed
      have cf: "cur_file_off s3 = cur_file_off s" using kind s3(1,8) by (auto simp: cur_file_off_def)
      have cur: "0 \<le> si_cur s3" "si_cur s3 < BLOCK_SIZE" "si_cur s3 \<le> int (length d)"
      proof -
        show a: "0 \<le> si_cur s3" "si_cur s3 < BLOCK_SIZE" using s3(8) o(2) by (auto simp: BLOCK_SIZE_def)
        have "?q + si_cur s3 \<le> int (length xs)" using R(8) cf s3(1) by (simp add: cur_file_off_def)
        then show "si_cur s3 \<le> int (length d)" using a q0 by (simp add: d_def BLOCK_SIZE_def)
      qed
      have alq: "BLOCK_SIZE dvd ?q" using kind R(6) by auto
      have data: "buffer_data s3 (int (length d)) = d" using s3(7) by (simp add: buffer_data_def)
      have whole: "int (length d) = BLOCK_SIZE \<or> ?q + int (length d) = int (length xs)" using q0 R(7) by (auto simp: d_def min_def BLOCK_SIZE_def)
      have ok3: "buffer_ok s3" using s3 cur q0 ld by (simp add: buffer_ok_def)
      have dt: "d = take (length d) (drop (nat ?q) xs)" by (cases "length xs - nat ?q \<le> nat BLOCK_SIZE") (auto simp: d_def min_def)
      have reading3: "reading s3 c' xs" unfolding reading_def s3(1-4) using ok3 s3(5) cur(3) c'(2) alq ld(2) R(8) cf data dt whole by simp
      define m where "m = min k (int (length d) - si_cur s3)"
      have m: "0 \<le> m" "m \<le> k" "si_cur s3 + m \<le> int (length d)" using cur(3) less.prems(3) by (simp_all add: m_def)
      have rem: "remaining_buffer_data_size s3 = int (length d) - si_cur s3"
        using cur ld s3(2) by (simp add: remaining_buffer_data_size_def s64_def u64_def BLOCK_SIZE_def)
      define e where "e = take (nat m) (drop (nat (cur_file_off s)) xs)"
      have e: "buf_get (si_cur s3) m s3 = Some e"
      proof -
        have "nat (si_cur s3) + nat m \<le> length d" using m cur(1) by linarith
        from get_bytes_inside [OF this, of "si_buf s3"] have "get_bytes (nat (si_cur s3)) (nat m) (si_buf s3) = take (nat m) (drop (nat (si_cur s3)) d)"
          using data by (simp add: buffer_data_def)
        also have "\<dots> = take (min (nat m) (nat BLOCK_SIZE - nat (si_cur s3))) (drop (nat ?q + nat (si_cur s3)) xs)"
          by (simp add: d_def drop_take add.commute)
        also have "nat ?q + nat (si_cur s3) = nat (cur_file_off s)" using q0 cur(1) cf s3(1) by (simp add: cur_file_off_def nat_add_distrib)
        also have "min (nat m) (nat BLOCK_SIZE - nat (si_cur s3)) = nat m" using m(3) ld(1) cur(1) by (simp add: BLOCK_SIZE_def)
        also have "take (nat m) (drop (nat (cur_file_off s)) xs) = e" by (simp add: e_def)
        finally show ?thesis using m cur ld s3(6) by (auto simp: buf_get_def e_def)
      qed
      define s4 where "s4 = s3\<lparr>si_cur := si_cur s3 + m\<rparr>"
      have up: "update_cur_buf_ptr m c' s3 = Some (m, s4)" unfolding s4_def
        by (rule update_cur_fields [where z = "int (length xs)"])
          (use s3 m cur ld q0 z known_size [OF c'(2)] in \<open>auto simp: cur_file_off_def\<close>)
      have step: "read_info_loop srv k acc s c = read_info_loop srv (k - m) (acc @ e) s4 c'"
        unfolding read_info_loop.simps [of srv k acc s c]
        using False fl c'(1) bp ud ne R(2) o(5) e up by (simp add: s3_def [symmetric] rem m_def [symmetric] Let_def del: rebuf_fields)
      have cf4: "cur_file_off s4 = cur_file_off s + m" using cf by (simp add: s4_def cur_file_off_def)
      have reading4: "reading s4 c' xs" using reading3 m cur s3 ld by (auto simp: reading_def s4_def buffer_ok_def buffer_data_def cur_file_off_def)
      have pos: "0 \<le> cur_file_off s" using o by (simp add: cur_file_off_def)
      have split: "take (nat k) (drop (nat (cur_file_off s)) xs) = e @ take (nat (k - m)) (drop (nat (cur_file_off s4)) xs)"
        using take_add [of "nat m" "nat (k - m)" "drop (nat (cur_file_off s)) xs"] m pos by (simp add: e_def cf4 nat_add_distrib [symmetric] add.commute)
      have le: "int (length e) = m" using m cur cf s3(1) ld pos by (auto simp: e_def cur_file_off_def min_def)
      show ?thesis
      proof (cases "k = m")
        case True
        have "read_info_loop srv k acc s c = Some (acc @ e, s4, c')" unfolding step using True by (simp add: read_info_loop.simps)
        then show ?thesis using split True reading4 cf4 le by (intro exI [of _ s4] exI [of _ c']) simp
      next
        case False
        then have c4: "si_buffered s4 \<le> si_cur s4" using s3(2) by (simp add: s4_def m_def min_def split: if_splits)
        have "nat (int (length xs) - (si_buf_off s4 + si_buffered s4)) < nat (int (length xs) - ?q)" using s3(1,2) ld(2) ne
          by (simp add: s4_def) (use length_greater_0_conv [of d] in linarith)
        from less.hyps [OF this reading4 c4, of "k - m" "acc @ e"] m(2) obtain s' c'' where
          "read_info_loop srv (k - m) (acc @ e) s4 c' = Some ((acc @ e) @ take (nat (k - m)) (drop (nat (cur_file_off s4)) xs), s', c'')" "reading s' c'' xs"
          "cur_file_off s' = cur_file_off s4 + int (length (take (nat (k - m)) (drop (nat (cur_file_off s4)) xs)))" by auto
        then show ?thesis unfolding step split using cf4 le by (intro exI [of _ s'] exI [of _ c'']) simp
      qed
    qed
  qed
qed

lemma read_info_ok:
  assumes r: "reading s c xs" and k: "0 \<le> k"
  defines "d \<equiv> take (nat k) (drop (nat (cur_file_off s)) xs)"
  shows "\<exists>s' c'. read_info srv k s c = Some ((int (length d), d), s', c') \<and> reading s' c' xs \<and> cur_file_off s' = cur_file_off s + int (length d)"
proof -
  have R: "buffer_ok s" "si_fd s = fd" "si_file_size s = int (length xs)" "holds c xs (si_buf_off s + si_buffered s)"
    "si_buf_off s + si_buffered s \<le> int (length xs)" "cur_file_off s \<le> int (length xs)"
    "buffer_data s (si_buffered s) = take (nat (si_buffered s)) (drop (nat (si_buf_off s)) xs)" using r by (simp_all add: reading_def)
  have o: "0 \<le> si_buf_off s" "0 \<le> si_cur s" "0 \<le> si_buffered s" "si_buffered s \<le> BLOCK_SIZE" "si_buf_len s = BLOCK_SIZE" "si_buffer_flag s"
    using R(1) by (simp_all add: buffer_ok_def)
  define n where "n = min (max 0 (si_buffered s - si_cur s)) k"
  have n: "0 \<le> n" "n \<le> k" "n \<noteq> 0 \<Longrightarrow> si_cur s + n \<le> si_buffered s" using k by (auto simp: n_def)
  have "si_buffered s < si_cur s \<Longrightarrow> si_buffered s = 0" using r by (auto simp: reading_def)
  then have rem: "min (remaining_buffer_data_size s) k = n"
    using o by (auto simp: remaining_buffer_data_size_def n_def s64_def u64_def BLOCK_SIZE_def)
  define e where "e = take (nat n) (drop (nat (cur_file_off s)) xs)"
  have e: "buf_get (si_cur s) n s = Some e"
  proof (cases "n = 0")
    case False
    then have le: "nat (si_cur s) + nat n \<le> nat (si_buffered s)" using n o by linarith
    from get_bytes_inside [OF this, of "si_buf s"] R(7)
    have "get_bytes (nat (si_cur s)) (nat n) (si_buf s) = take (nat n) (drop (nat (si_cur s)) (take (nat (si_buffered s)) (drop (nat (si_buf_off s)) xs)))"
      by (simp add: buffer_data_def)
    also have "\<dots> = take (min (nat n) (nat (si_buffered s) - nat (si_cur s))) (drop (nat (si_buf_off s) + nat (si_cur s)) xs)" by (simp add: drop_take add.commute)
    also have "nat (si_buf_off s) + nat (si_cur s) = nat (cur_file_off s)" using o by (simp add: cur_file_off_def nat_add_distrib)
    also have "min (nat n) (nat (si_buffered s) - nat (si_cur s)) = nat n" using le by simp
    finally show ?thesis using n False o by (auto simp: buf_get_def e_def)
  qed (simp add: buf_get_def e_def)
  define s1 where "s1 = s\<lparr>si_cur := si_cur s + n\<rparr>"
  have pos: "0 \<le> cur_file_off s" "cur_file_off s + n \<le> int (length xs)" using o n(3) R(5,6) by (simp_all add: cur_file_off_def) (cases "n = 0", simp_all)
  have up: "update_cur_buf_ptr n c s = Some (n, s1)" unfolding s1_def
    by (rule update_cur_fields [where z = "int (length xs)"]) (use known_size [OF R(4)] bound [OF R(4)] R(2,3) pos n in auto)
  have cf: "cur_file_off s1 = cur_file_off s + n" by (simp add: s1_def cur_file_off_def)
  have r1: "reading s1 c xs"
  proof (cases "n = 0")
    case False
    then show ?thesis using r n o pos by (auto simp: reading_def s1_def buffer_ok_def buffer_data_def cur_file_off_def)
  qed (use r in \<open>simp add: s1_def\<close>)
  have split: "d = e @ take (nat (k - n)) (drop (nat (cur_file_off s1)) xs)"
    using take_add [of "nat n" "nat (k - n)" "drop (nat (cur_file_off s)) xs"] n pos
    by (simp add: e_def d_def cf nat_add_distrib [symmetric] add.commute)
  have le: "int (length e) = n" using n pos by (auto simp: e_def min_def)
  have "\<exists>s' c'. read_info_loop srv (k - n) e s1 c = Some (d, s', c') \<and> reading s' c' xs \<and> cur_file_off s' = cur_file_off s + int (length d)"
  proof (cases "k = n")
    case True
    then show ?thesis using r1 split cf le by (intro exI [of _ s1] exI [of _ c]) (simp add: read_info_loop.simps)
  next
    case False
    then have "si_buffered s1 \<le> si_cur s1" by (auto simp: s1_def n_def min_def max_def split: if_splits)
    from read_refill_ok [OF r1 this, of "k - n" e] n(2) show ?thesis unfolding split using cf le by auto
  qed
  then show ?thesis using o(6) rem e up by (auto simp: read_info_def Let_def)
qed

lemma seek_reading:
  assumes r: "reading s c xs" and p: "0 \<le> p" "p \<le> int (length xs)"
  shows "\<exists>s' c'. seek_info srv p SEEK_SET s c = Some (p, s', c') \<and> reading s' c' xs \<and> cur_file_off s' = p"
proof -
  have R: "buffer_ok s" "si_fd s = fd" "\<not> si_dirty s" "holds c xs (si_buf_off s + si_buffered s)" "si_buf_off s + si_buffered s \<le> int (length xs)"
    using r by (simp_all add: reading_def)
  have o: "0 \<le> si_buf_off s" "0 \<le> si_buffered s" "si_buffered s \<le> BLOCK_SIZE" "si_buffer_flag s" using R(1) by (simp_all add: buffer_ok_def)
  have z: "int (length xs) < 4611686018427387904" using bound [OF R(4)] .
  have r64: "s64 (si_buf_off s + si_buffered s) = si_buf_off s + si_buffered s" using o R(5) z by (simp add: s64_def)
  show ?thesis
  proof (cases "p > si_buf_off s + si_buffered s \<or> p < si_buf_off s")
    case False
    let ?s = "s\<lparr>si_cur := p - si_buf_off s\<rparr>"
    have "reading ?s c xs" using r p False o by (auto simp: reading_def buffer_ok_def buffer_data_def cur_file_off_def BLOCK_SIZE_def)
    moreover have "seek_info srv p SEEK_SET s c = Some (p, ?s, c)"
      using False r64 o(4) by (simp add: seek_info_def buf_off_from_file_off_def cur_file_off_def)
    ultimately show ?thesis by (intro exI [of _ ?s] exI [of _ c]) (simp add: cur_file_off_def)
  next
    case True
    have "p < 4611686018427387904" using p(2) z by simp
    note b = block_start [OF p(1) this]
    from seek_set [OF R(4) b(3)] obtain c2 where c2: "client_lseek fd (p - p mod BLOCK_SIZE) SEEK_SET c = Some (p - p mod BLOCK_SIZE, c2)"
      "holds c2 xs (p - p mod BLOCK_SIZE)" by blast
    let ?s = "s\<lparr>si_buf_off := p - p mod BLOCK_SIZE, si_buffered := 0, si_cur := p mod BLOCK_SIZE\<rparr>"
    have "buffer_ok ?s" using R(1) b(3-5) by (simp add: buffer_ok_def BLOCK_SIZE_def)
    moreover have "p - p mod BLOCK_SIZE \<le> int (length xs)" using b(4) p(2) by linarith
    ultimately have "reading ?s c2 xs" unfolding reading_def using r c2(2) b(2,5) p(2) by (simp add: reading_def buffer_data_def get_bytes_def cur_file_off_def)
    moreover have "seek_info srv p SEEK_SET s c = Some (p, ?s, c2)" using True r64 o(4) R(2,3) c2(1) b(1) by (simp add: seek_info_def flush_info_def Let_def)
    ultimately show ?thesis by (intro exI [of _ ?s] exI [of _ c2]) (simp add: cur_file_off_def)
  qed
qed

text \<open>Any sequence of reads and seeks.\<close>

lemma read_run_ok:
  assumes "reading s c xs" "read_ops_ok ops (xs, cur_file_off s)"
  shows "\<exists>s' c'. info_run srv ops s c = Some (fst (file_run ops (xs, cur_file_off s)), s', c') \<and>
    reading s' c' (fst (snd (file_run ops (xs, cur_file_off s)))) \<and> cur_file_off s' = snd (snd (file_run ops (xs, cur_file_off s)))"
  using assms
proof (induction ops arbitrary: s c)
  case (Cons op ops)
  let ?f = "file_step op (xs, cur_file_off s)"
  have "\<exists>s1 c1. info_call srv op s c = Some (fst ?f, s1, c1) \<and> reading s1 c1 xs \<and> fst (snd ?f) = xs \<and> cur_file_off s1 = snd (snd ?f)"
  proof (cases op)
    case (Op_read k)
    then have "0 \<le> k" using Cons.prems(2) by simp
    from read_info_ok [OF Cons.prems(1) this] show ?thesis by (auto simp: Op_read Let_def)
  next
    case (Op_seek p)
    then have "0 \<le> p" "p \<le> int (length xs)" using Cons.prems(2) by simp_all
    from seek_reading [OF Cons.prems(1) this] show ?thesis by (auto simp: Op_seek)
  qed (use Cons.prems in simp)
  then obtain s1 c1 where s1: "info_call srv op s c = Some (fst ?f, s1, c1)" "reading s1 c1 xs" "fst (snd ?f) = xs" "cur_file_off s1 = snd (snd ?f)" by blast
  have f: "snd ?f = (xs, cur_file_off s1)" using s1(3,4) by (simp add: prod_eq_iff)
  have "read_ops_ok ops (xs, cur_file_off s1)" using Cons.prems(2) f by simp
  from Cons.IH [OF s1(2) this] s1(1) f show ?case by (auto simp: case_prod_unfold Let_def)
qed simp

text \<open>
  A read behind a write: the flush leaves the descriptor behind twice the bytes written, the buffer
  keeps its position, and the bytes returned are those at three times the length of the write.
\<close>

lemma read_after_write:
  assumes s: "s = init_stream_info (Some elem) garbage fd (int (length xs)) 0 flag mode" and wr: "writable s" and h: "holds c xs 0"
    and n: "bs \<noteq> []" "3 * length bs \<le> length xs" "int (length xs) \<le> BLOCK_SIZE" and k: "0 < k" "k \<le> int (length xs) - 3 * int (length bs)"
  shows "\<exists>s' c'. info_run srv [Op_write bs, Op_read k] s c = Some ([Count (int (length bs)), Bytes (take (nat k) (drop (3 * length bs) xs))], s', c')"
proof -
  let ?n = "int (length bs)" and ?ys = "put 0 bs xs"
  have f: "si_cur s = 0" "si_buffered s = 0" "si_buf_off s = 0" "si_file_size s = int (length xs)" "si_fd s = fd" "\<not> si_dirty s" "si_buffer_flag s" "buffer_ok s"
    using s by (simp_all add: init_stream_info_def buffer_ok_def BLOCK_SIZE_def)
  define t where "t = write_meta_update ?n (s\<lparr>si_buf := put_bytes 0 bs (si_buf s)\<rparr>)"
  define u where "u = t\<lparr>si_dirty := True\<rparr>"
  have nb: "0 < ?n" "?n \<le> BLOCK_SIZE" using n by simp_all
  have r: "s64 ?n = ?n" "u64 ?n = ?n" "u64 BLOCK_SIZE = BLOCK_SIZE" "s64 0 = 0" "u64 0 = 0" "s64 BLOCK_SIZE = BLOCK_SIZE" using nb by (simp_all add: s64_def u64_def BLOCK_SIZE_def)
  have len: "length ?ys = length xs" using n by (simp add: length_put)
  have u: "si_cur u = ?n" "si_buffered u = ?n" "si_buf_off u = 0" "si_file_size u = int (length xs)" "si_fd u = fd" "si_dirty u" "si_buffer_flag u"
    "si_buf_len u = BLOCK_SIZE" "si_buffer_size u = BLOCK_SIZE" "buffer_data u ?n = bs"
    using f r nb n(2) s by (simp_all add: u_def t_def buffer_data_def init_stream_info_def)
  have w: "write_info srv bs s c = Some (?n, u, c)"
    using f r nb wr by (simp add: write_info_def writable_def init_buffer_for_writing_def remaining_buffer_size_def buf_put_def u_def t_def
        write_info_loop.simps [of srv "[]"] s64_def buffer_ok_def min_absorb2 Let_def)
  have "?n \<le> BLOCK_SIZE" "0 + ?n + BLOCK_SIZE < 4611686018427387904" using nb by (simp_all add: BLOCK_SIZE_def)
  moreover have "max (int (length xs)) (0 + ?n) = int (length xs)" using n(2) by simp
  ultimately obtain c1 c2 c3 where c3: "update_file_size fd (int (length xs)) c = Some (0, c1)"
    "client_lseek fd 0 SEEK_SET c1 = Some (0, c2)" "CBB_write srv fd bs c2 = Some (?n, c3)" "holds c3 ?ys ?n"
    using write_at [OF h order_refl, of bs] by auto
  from seek_cur [OF c3(4), of ?n] obtain c4 where c4: "client_lseek fd ?n SEEK_CUR c3 = Some (?n, c4)" "holds c4 ?ys (?n + ?n)" by auto
  have "buf_get 0 ?n u = Some bs" using u(8,10) nb by (simp add: buf_get_def buffer_data_def)
  then have fl: "flush_info srv u c = Some (u\<lparr>si_dirty := False\<rparr>, c4)" using u c3(1-3) c4(1) r by (simp add: flush_info_def)
  define d where "d = drop (2 * length bs) ?ys"
  have "(?n + ?n) mod BLOCK_SIZE \<le> ?n + ?n" by (rule zmod_le_nonneg_dividend) simp
  then have "(?n + ?n) mod BLOCK_SIZE + (int (length ?ys) - (?n + ?n)) \<le> BLOCK_SIZE" using n(3) len by linarith
  moreover have "nat (?n + ?n) = 2 * length bs" by linarith
  then have "d = take (nat BLOCK_SIZE) (drop (nat (?n + ?n)) ?ys)" using n(3) len by (simp add: d_def)
  ultimately obtain c5 where c5: "CBB_read srv fd BLOCK_SIZE c4 = Some ((int (length d), d), c5)" "holds c5 ?ys (?n + ?n + int (length d))"
    using read_block [OF c4(2)] n(2) len by (auto simp: nat_le_iff)
  let ?v = "u\<lparr>si_dirty := False, si_buf := put_bytes 0 d (si_buf u)\<rparr>"
  have ld: "int (length d) = int (length xs) - 2 * ?n" using len n(2) by (simp add: d_def)
  then have ud: "u64 (int (length d)) = int (length d)" "u64 (?n + int (length d)) = ?n + int (length d)" "s64 (int (length d)) = int (length d)"
    "u64 (int (length d) - ?n) = int (length d) - ?n" using n(2,3) nb by (simp_all add: u64_def s64_def BLOCK_SIZE_def)
  have nB: "?n < BLOCK_SIZE" using n(2,3) nb by linarith
  have pv: "buf_put 0 d (u\<lparr>si_dirty := False\<rparr>) = Some ?v" using ld n(3) u(8) nb by (auto simp: buf_put_def put_bytes_def fun_eq_iff intro!: stream_info.equality)
  define s3 where "s3 = update_meta_for_rebuf CLEAN (int (length d)) ?v"
  have s3: "si_cur s3 = ?n" "si_buffered s3 = int (length d)" "si_buf_off s3 = ?n" "si_file_size s3 = int (length xs)" "si_fd s3 = fd" "si_buf_len s3 = BLOCK_SIZE"
    "si_buf s3 = put_bytes 0 d (si_buf u)" using u r ud ld nB nb by (simp_all add: s3_def)
  have rem: "remaining_buffer_data_size s3 = int (length d) - ?n" using s3 ud ld n(2) by (simp add: remaining_buffer_data_size_def)
  have io: "min k (int (length d) - ?n) = k" using k(2) ld by simp
  define e where "e = take (nat k) (drop (3 * length bs) xs)"
  have "length bs + nat k \<le> length d" using k ld by linarith
  from get_bytes_inside [OF this, of "si_buf s3"] s3(7) have "get_bytes (length bs) (nat k) (si_buf s3) = take (nat k) (drop (length bs) d)" by simp
  also have "\<dots> = e" using n(2) by (simp add: e_def d_def put_def numeral_3_eq_3 add.assoc)
  finally have e: "buf_get ?n k s3 = Some e" using k ld s3(6) n(3) nb by (simp add: buf_get_def)
  have up0: "update_cur_buf_ptr 0 c u = Some (0, u)"
    using update_cur_fields [of u c "int (length xs)" 0] known_size [OF h] bound [OF h] u n(2) by (simp add: cur_file_off_def)
  have up: "update_cur_buf_ptr k c5 s3 = Some (k, s3\<lparr>si_cur := ?n + k\<rparr>)"
    using update_cur_fields [of s3 c5 "int (length xs)" k] known_size [OF c5(2)] bound [OF h] s3 k ld len by (simp add: cur_file_off_def)
  have "0 < int (length d)" using ld n(2) nb by linarith
  then have dn: "d \<noteq> []" by auto
  have "read_info_loop srv k [] u c = Some (e, s3\<lparr>si_cur := ?n + k\<rparr>, c5)"
    unfolding read_info_loop.simps [of srv k "[]" u c]
    using k(1) fl c5(1) pv ud(1) dn u(5,9) e up s3(1)
    by (simp add: s3_def [symmetric] rem io Let_def read_info_loop.simps [of srv 0] del: rebuf_fields)
  then have "read_info srv k u c = Some ((int (length e), e), s3\<lparr>si_cur := ?n + k\<rparr>, c5)"
    using u(1,2,7) r up0 k(1) by (simp add: read_info_def remaining_buffer_data_size_def buf_get_def Let_def min_def)
  then show ?thesis using w by (simp add: e_def)
qed

end

end
