(* ===== verification/Master_Invariant.thy ===== *)
theory Master_Invariant
  imports Master_Requests
begin

text \<open>
  The well-formedness of the master's state and its preservation by the internal
  operations: every registered node is in the heap under its id, the path table, the table
  of open files and the heap of open files point to each other, the numbers in use are
  exactly the numbers of the open files, and every open file has a primary node that is
  registered.
\<close>

section \<open>The invariant\<close>

definition node_ok :: "master \<Rightarrow> nat \<Rightarrow> bool" where
  "node_ok s p \<longleftrightarrow> (\<exists>k. map_find k (registered_IOnodes s) = Some p)"

definition nodes_inv :: "master \<Rightarrow> bool" where
  "nodes_inv s \<longleftrightarrow>
     map_inv (registered_IOnodes s) \<and> map_inv (node_heap s) \<and>
     (\<forall>k p. map_find k (registered_IOnodes s) = Some p \<longrightarrow>
        (\<exists>ni. map_find p (node_heap s) = Some ni \<and> ni_id ni = k)) \<and>
     (\<forall>k p. map_find k (registered_IOnodes s) = Some p \<longrightarrow>
        0 \<le> k \<and> k < int MAX_IONODE \<and> id_used (node_ids s) (nat k)) \<and>
     (\<forall>k. current_IOnode s = Some k \<longrightarrow> map_find k (registered_IOnodes s) \<noteq> None)"

definition file_ok :: "master \<Rightarrow> ssize_t \<Rightarrow> nat \<Rightarrow> bool" where
  "file_ok s n a \<longleftrightarrow>
     (\<exists>ofi fs main. map_find a (file_heap s) = Some ofi \<and> of_file_no ofi = n \<and>
        primary_replica_node ofi = Some main \<and> node_ok s main \<and>
        (\<forall>p\<in>set (of_IOnodes_set ofi). node_ok s p) \<and>
        map_find (of_file_status ofi) (file_stat_pool s) = Some fs \<and> opened_file_info fs = Some a)"

definition files_inv :: "master \<Rightarrow> bool" where
  "files_inv s \<longleftrightarrow>
     map_inv (file_stat_pool s) \<and> map_inv (buffered_files s) \<and> map_inv (file_heap s) \<and>
     (\<forall>path fs a. map_find path (file_stat_pool s) = Some fs \<and> opened_file_info fs = Some a \<longrightarrow>
        (\<exists>ofi. map_find a (file_heap s) = Some ofi \<and> of_file_status ofi = path \<and>
               map_find (of_file_no ofi) (buffered_files s) = Some a)) \<and>
     (\<forall>n a. map_find n (buffered_files s) = Some a \<longrightarrow> file_ok s n a)"

definition numbers_inv :: "master \<Rightarrow> bool" where
  "numbers_inv s \<longleftrightarrow>
     (\<forall>n a. map_find n (buffered_files s) = Some a \<longrightarrow> 0 \<le> n) \<and>
     file_nos_inv (nat ` map_keys (buffered_files s)) (file_nos s) \<and>
     (\<forall>a ofi. map_find a (file_heap s) = Some ofi \<longrightarrow> a < file_fresh s)"

definition sizes_inv :: "master \<Rightarrow> bool" where
  "sizes_inv s \<longleftrightarrow>
     (\<forall>path fs. map_find path (file_stat_pool s) = Some fs \<longrightarrow>
        0 \<le> st_size (fs_status fs) \<and> st_size (fs_status fs) < 4611686018427387904)"

definition master_inv :: "master \<Rightarrow> bool" where
  "master_inv s \<longleftrightarrow> nodes_inv s \<and> files_inv s \<and> numbers_inv s \<and> sizes_inv s"

lemmas master_inv_defs = master_inv_def nodes_inv_def files_inv_def numbers_inv_def sizes_inv_def
  file_ok_def node_ok_def

lemma files_invI:
  assumes "map_inv (file_stat_pool s)" "map_inv (buffered_files s)" "map_inv (file_heap s)"
    and "\<And>path fs a. map_find path (file_stat_pool s) = Some fs \<Longrightarrow> opened_file_info fs = Some a \<Longrightarrow>
      \<exists>ofi. map_find a (file_heap s) = Some ofi \<and> of_file_status ofi = path \<and>
            map_find (of_file_no ofi) (buffered_files s) = Some a"
    and "\<And>n a. map_find n (buffered_files s) = Some a \<Longrightarrow> file_ok s n a"
  shows "files_inv s"
  using assms unfolding files_inv_def by blast

lemma files_invD:
  assumes "files_inv s"
  shows "map_inv (file_stat_pool s)" "map_inv (buffered_files s)" "map_inv (file_heap s)"
    and "\<And>path fs a. map_find path (file_stat_pool s) = Some fs \<Longrightarrow> opened_file_info fs = Some a \<Longrightarrow>
      \<exists>ofi. map_find a (file_heap s) = Some ofi \<and> of_file_status ofi = path \<and>
            map_find (of_file_no ofi) (buffered_files s) = Some a"
    and "\<And>n a. map_find n (buffered_files s) = Some a \<Longrightarrow> file_ok s n a"
  using assms unfolding files_inv_def by blast+

lemma master_invD:
  assumes "master_inv s"
  shows "nodes_inv s" "files_inv s" "numbers_inv s" "sizes_inv s"
  using assms by (auto simp: master_inv_def)

lemma file_okE:
  assumes "file_ok s n a"
  obtains ofi fs main where "map_find a (file_heap s) = Some ofi" "of_file_no ofi = n"
    "primary_replica_node ofi = Some main" "node_ok s main" "\<forall>p\<in>set (of_IOnodes_set ofi). node_ok s p"
    "map_find (of_file_status ofi) (file_stat_pool s) = Some fs" "opened_file_info fs = Some a"
  using assms unfolding file_ok_def by blast

text \<open>Sending and queueing work do not touch the tables.\<close>

lemma master_inv_frame [simp]:
  "master_inv (send h m s) = master_inv s"
  "master_inv (add_remote_task c p md s) = master_inv s"
  "master_inv (create_new_backup_file p md s) = master_inv s"
  "master_inv (s\<lparr>sent := x\<rparr>) = master_inv s"
  "master_inv (s\<lparr>backups := y\<rparr>) = master_inv s"
  "master_inv (s\<lparr>sent := x, file_stat_pool := z\<rparr>) = master_inv (s\<lparr>file_stat_pool := z\<rparr>)"
  by (simp_all add: master_inv_defs send_def add_remote_task_def create_new_backup_file_def)

lemma send_fields [simp]:
  "registered_IOnodes (send h m s) = registered_IOnodes s" "node_heap (send h m s) = node_heap s"
  "file_stat_pool (send h m s) = file_stat_pool s" "buffered_files (send h m s) = buffered_files s"
  "file_heap (send h m s) = file_heap s" "file_nos (send h m s) = file_nos s"
  "file_fresh (send h m s) = file_fresh s" "current_IOnode (send h m s) = current_IOnode s"
  "deref_node p (send h m s) = deref_node p s" "deref_file a (send h m s) = deref_file a s"
  "deref_stat q (send h m s) = deref_stat q s"
  by (simp_all add: send_def deref_node_def deref_file_def deref_stat_def)

lemma frame_fields [simp]:
  "file_stat_pool (add_remote_task c p md s) = file_stat_pool s"
  "buffered_files (add_remote_task c p md s) = buffered_files s"
  "sent (send h m s) = sent s @ [Msg h m []]" "sent (add_remote_task c p md s) = sent s"
  by (simp_all add: add_remote_task_def send_def)

section \<open>Node selection\<close>

lemma map_next_key:
  assumes "map_inv m" "map_next k m = Some k'"
  shows "\<exists>v. map_find k' m = Some v"
proof -
  from assms(2) obtain v rest where "lower_bound (k + 1) m = (k', v) # rest"
    by (auto simp: map_next_def split: list.splits)
  then have "(k', v) \<in> set m"
    using lower_bound_spec [OF assms(1), of "k + 1"] by (metis filter_is_subset list.set_intros(1) subsetD)
  then show ?thesis using map_find_in [OF assms(1)] by blast
qed

text \<open>
  \<open>nodes_ext s s'\<close>: at most the files stored on nodes and the round-robin position have
  changed, and messages may have been sent.
\<close>

definition nodes_ext :: "master \<Rightarrow> master \<Rightarrow> bool" where
  "nodes_ext s s' \<longleftrightarrow> (\<exists>h c ms. s' = s\<lparr>node_heap := h, current_IOnode := c, sent := sent s @ ms\<rparr> \<and>
     (\<forall>p. map_option (\<lambda>ni. (ni_id ni, ni_handle ni, ni_uri ni)) (map_find p h) =
          map_option (\<lambda>ni. (ni_id ni, ni_handle ni, ni_uri ni)) (map_find p (node_heap s))))"

lemma nodes_ext_refl: "nodes_ext s s"
  unfolding nodes_ext_def by (intro exI [of _ "node_heap s"] exI [of _ "current_IOnode s"] exI [of _ "[]"]) simp

lemma nodes_ext_trans: "nodes_ext s s' \<Longrightarrow> nodes_ext s' s'' \<Longrightarrow> nodes_ext s s''"
  unfolding nodes_ext_def by fastforce

lemma nodes_ext_fields:
  assumes "nodes_ext s s'"
  shows "registered_IOnodes s' = registered_IOnodes s" "file_stat_pool s' = file_stat_pool s"
    "buffered_files s' = buffered_files s" "file_heap s' = file_heap s" "file_nos s' = file_nos s"
    "file_fresh s' = file_fresh s" "node_ok s' p = node_ok s p"
  using assms by (auto simp: nodes_ext_def node_ok_def)

lemma get_next_IOnode_ok:
  assumes "nodes_inv s" "registered_IOnodes s \<noteq> []"
  shows "\<exists>k p. get_next_IOnode s = Some (Some p, s\<lparr>current_IOnode := map_next k (registered_IOnodes s)\<rparr>) \<and>
           map_find k (registered_IOnodes s) = Some p \<and>
           nodes_inv (s\<lparr>current_IOnode := map_next k (registered_IOnodes s)\<rparr>)"
proof -
  obtain k0 p0 rest where reg: "registered_IOnodes s = (k0, p0) # rest"
    using assms(2) by (cases "registered_IOnodes s") auto
  let ?k = "case current_IOnode s of None \<Rightarrow> k0 | Some k \<Rightarrow> k"
  obtain p where p: "map_find ?k (registered_IOnodes s) = Some p"
    using assms(1) reg by (cases "current_IOnode s") (auto simp: nodes_inv_def)
  have "nodes_inv (s\<lparr>current_IOnode := map_next ?k (registered_IOnodes s)\<rparr>)"
    using assms(1) map_next_key [of "registered_IOnodes s" ?k] unfolding nodes_inv_def by fastforce
  then show ?thesis
    using p reg by (intro exI [of _ ?k] exI [of _ p]) (auto simp: get_next_IOnode_def)
qed

lemma store_on_node_ok:
  assumes "nodes_inv s" "map_find k (registered_IOnodes s) = Some p"
    and g: "\<And>ni. ni_id (g ni) = ni_id ni \<and> ni_handle (g ni) = ni_handle ni \<and> ni_uri (g ni) = ni_uri ni"
  shows "\<exists>s'. upd_node p g s = Some s' \<and> nodes_inv s' \<and> nodes_ext s s' \<and> current_IOnode s' = current_IOnode s"
proof -
  from assms(1,2) obtain ni where ni: "map_find p (node_heap s) = Some ni"
    unfolding nodes_inv_def by blast
  let ?s = "s\<lparr>node_heap := map_set p (g ni) (node_heap s)\<rparr>"
  have "nodes_inv ?s" using assms(1) ni g unfolding nodes_inv_def by auto (metis option.inject)
  moreover have "nodes_ext s ?s"
    unfolding nodes_ext_def using ni g
    by (intro exI [of _ "map_set p (g ni) (node_heap s)"] exI [of _ "current_IOnode s"] exI [of _ "[]"]) simp
  ultimately show ?thesis using ni by (simp add: upd_node_def deref_node_def)
qed

lemma select_replicas_ok:
  assumes "nodes_inv s" "registered_IOnodes s \<noteq> []"
    "\<And>k. it = Some k \<Longrightarrow> map_find k (registered_IOnodes s) \<noteq> None" "\<forall>p\<in>set pool. node_ok s p"
  shows "\<exists>pool' s'. select_replicas n file_no it pool s = Some (pool', s') \<and> nodes_inv s' \<and>
           nodes_ext s s' \<and> (\<forall>p\<in>set pool'. node_ok s p)"
  using assms
proof (induction n arbitrary: it pool s)
  case 0
  then show ?case by (auto simp: nodes_ext_refl)
next
  case (Suc n)
  obtain k0 p0 rest where reg: "registered_IOnodes s = (k0, p0) # rest"
    using Suc.prems(2) by (cases "registered_IOnodes s") auto
  define k where "k = (case it of Some k \<Rightarrow> k | None \<Rightarrow> k0)"
  obtain p where p: "map_find k (registered_IOnodes s) = Some p"
    using Suc.prems(3) reg by (cases it) (auto simp: k_def)
  let ?g = "\<lambda>ni. ni\<lparr>stored_files := set_insert file_no (stored_files ni)\<rparr>"
  from store_on_node_ok [OF Suc.prems(1) p, of ?g] obtain s1 where
    s1: "upd_node p ?g s = Some s1" "nodes_inv s1" "nodes_ext s s1" by auto
  note f = nodes_ext_fields [OF s1(3)]
  have "\<And>k'. map_next k (registered_IOnodes s1) = Some k' \<Longrightarrow> map_find k' (registered_IOnodes s1) \<noteq> None"
    using map_next_key s1(2) unfolding nodes_inv_def by blast
  moreover have "\<forall>q\<in>set (set_insert p pool). node_ok s1 q"
    using Suc.prems(4) p f(1) by (auto simp: node_ok_def)
  moreover have "registered_IOnodes s1 \<noteq> []" using Suc.prems(2) f(1) by simp
  ultimately obtain pool' s' where
    "select_replicas n file_no (map_next k (registered_IOnodes s1)) (set_insert p pool) s1 = Some (pool', s')"
    "nodes_inv s'" "nodes_ext s1 s'" "\<forall>q\<in>set pool'. node_ok s1 q"
    using Suc.IH [OF s1(2), of "map_next k (registered_IOnodes s1)" "set_insert p pool"] by blast
  moreover have "(case it of Some k \<Rightarrow> Some k
      | None \<Rightarrow> (case registered_IOnodes s of [] \<Rightarrow> None | (k0, _) # _ \<Rightarrow> Some k0)) = Some k"
    using reg by (cases it) (auto simp: k_def)
  ultimately show ?case
    using p s1 nodes_ext_trans [OF s1(3)] f(1) by (auto simp: node_ok_def)
qed

lemma select_IOnode_ok:
  assumes "nodes_inv s" "registered_IOnodes s \<noteq> []"
  shows "\<exists>main pool s'. select_IOnode file_no num s = Some (Inr (main, pool), s') \<and> nodes_inv s' \<and>
           nodes_ext s s' \<and> node_ok s main \<and> (\<forall>p\<in>set pool. node_ok s p)"
proof -
  from get_next_IOnode_ok [OF assms] obtain k p where
    gn: "get_next_IOnode s = Some (Some p, s\<lparr>current_IOnode := map_next k (registered_IOnodes s)\<rparr>)"
      "map_find k (registered_IOnodes s) = Some p"
      "nodes_inv (s\<lparr>current_IOnode := map_next k (registered_IOnodes s)\<rparr>)" by blast
  let ?s1 = "s\<lparr>current_IOnode := map_next k (registered_IOnodes s)\<rparr>"
  let ?g = "\<lambda>ni. ni\<lparr>stored_files := set_insert file_no (stored_files ni)\<rparr>"
  from store_on_node_ok [OF gn(3), of k p ?g] gn(2) obtain s2 where
    s2: "upd_node p ?g ?s1 = Some s2" "nodes_inv s2" "nodes_ext ?s1 s2" by auto
  have e1: "nodes_ext s ?s1"
    unfolding nodes_ext_def by (intro exI [of _ "node_heap s"] exI [of _ "[]"] exI) simp
  note e2 = nodes_ext_trans [OF e1 s2(3)]
  note f = nodes_ext_fields [OF e2]
  let ?num = "if map_size (registered_IOnodes s2) - 1 < num then map_size (registered_IOnodes s2) - 1 else num"
  have "\<And>k. current_IOnode s2 = Some k \<Longrightarrow> map_find k (registered_IOnodes s2) \<noteq> None"
    using s2(2) by (auto simp: nodes_inv_def)
  then obtain pool s3 where s3: "select_replicas (nat ?num) file_no (current_IOnode s2) [] s2 = Some (pool, s3)"
    "nodes_inv s3" "nodes_ext s2 s3" "\<forall>p\<in>set pool. node_ok s2 p"
    using select_replicas_ok [OF s2(2), of "current_IOnode s2" "[]" "nat ?num" file_no] assms(2) f(1) by auto
  have "map_size (registered_IOnodes s) \<noteq> 0" using assms(2) by (simp add: map_size_def)
  then have "select_IOnode file_no num s = Some (Inr (p, pool), s3)"
    using gn(1) s2(1) s3(1) by (simp add: select_IOnode_def Let_def)
  moreover have "nodes_ext s s3" using e2 s3(3) nodes_ext_trans by blast
  moreover have "\<forall>q\<in>set pool. node_ok s q" using s3(4) f(1) by (simp add: node_ok_def)
  ultimately show ?thesis using gn(2) s3(2) by (auto simp: node_ok_def)
qed

section \<open>Updates of one table\<close>

lemma nodes_ext_inv:
  assumes "nodes_ext s s'" "nodes_inv s'" "master_inv s"
  shows "master_inv s'"
proof -
  note f = nodes_ext_fields [OF assms(1)]
  have "file_ok s' n a = file_ok s n a" for n a by (simp add: file_ok_def node_ok_def f)
  then have "files_inv s' = files_inv s" by (simp add: files_inv_def f)
  moreover have "numbers_inv s' = numbers_inv s" "sizes_inv s' = sizes_inv s"
    by (simp_all add: numbers_inv_def sizes_inv_def f)
  ultimately show ?thesis using assms(2,3) by (simp add: master_inv_def)
qed

lemma upd_stat_ok:
  assumes inv: "master_inv s" and fs: "map_find path (file_stat_pool s) = Some fs"
    and g: "opened_file_info (g fs) = opened_file_info fs"
      "0 \<le> st_size (fs_status (g fs))" "st_size (fs_status (g fs)) < 4611686018427387904"
  shows "upd_stat path g s = Some (s\<lparr>file_stat_pool := map_set path (g fs) (file_stat_pool s)\<rparr>)"
    "master_inv (s\<lparr>file_stat_pool := map_set path (g fs) (file_stat_pool s)\<rparr>)"
proof -
  show "upd_stat path g s = Some (s\<lparr>file_stat_pool := map_set path (g fs) (file_stat_pool s)\<rparr>)"
    using fs by (simp add: upd_stat_def deref_stat_def)
  let ?s = "s\<lparr>file_stat_pool := map_set path (g fs) (file_stat_pool s)\<rparr>"
  have "file_ok ?s n a" if "file_ok s n a" for n a
  proof -
    from that obtain ofi fs' main where o: "map_find a (file_heap s) = Some ofi" "of_file_no ofi = n"
      "primary_replica_node ofi = Some main" "node_ok s main" "\<forall>p\<in>set (of_IOnodes_set ofi). node_ok s p"
      "map_find (of_file_status ofi) (file_stat_pool s) = Some fs'" "opened_file_info fs' = Some a"
      unfolding file_ok_def by blast
    have "\<exists>fs''. map_find (of_file_status ofi) (map_set path (g fs) (file_stat_pool s)) = Some fs'' \<and>
        opened_file_info fs'' = Some a"
      using o(6,7) fs g(1) by (cases "of_file_status ofi = path") auto
    then show ?thesis using o by (auto simp: file_ok_def node_ok_def)
  qed
  then have "files_inv ?s"
    using inv fs g(1) unfolding master_inv_def files_inv_def by (auto split: if_splits)
  then show "master_inv ?s"
    using inv g(2,3) by (auto simp: master_inv_def nodes_inv_def numbers_inv_def sizes_inv_def)
qed

lemma upd_file_ok:
  assumes inv: "master_inv s" and a: "map_find a (file_heap s) = Some ofi"
    and g: "of_file_no (g ofi) = of_file_no ofi" "of_file_status (g ofi) = of_file_status ofi"
      "primary_replica_node (g ofi) = primary_replica_node ofi" "of_IOnodes_set (g ofi) = of_IOnodes_set ofi"
  shows "upd_file a g s = Some (s\<lparr>file_heap := map_set a (g ofi) (file_heap s)\<rparr>)"
    "master_inv (s\<lparr>file_heap := map_set a (g ofi) (file_heap s)\<rparr>)"
proof -
  show "upd_file a g s = Some (s\<lparr>file_heap := map_set a (g ofi) (file_heap s)\<rparr>)"
    using a by (simp add: upd_file_def deref_file_def)
  let ?s = "s\<lparr>file_heap := map_set a (g ofi) (file_heap s)\<rparr>"
  have "file_ok ?s n b" if "file_ok s n b" for n b
    using that a g unfolding file_ok_def node_ok_def by (cases "b = a") auto
  then have "files_inv ?s"
    using files_invD [OF master_invD(2) [OF inv]] a g
    by (intro files_invI) (auto, (metis option.inject)+)
  moreover have "numbers_inv ?s"
    using inv a by (auto simp: master_inv_def numbers_inv_def)
  ultimately show "master_inv ?s"
    using inv by (auto simp: master_inv_def nodes_inv_def sizes_inv_def)
qed

lemma Master_file_stat_fields [simp]:
  "fs_status Master_file_stat = zero_stat" "opened_file_info Master_file_stat = None"
  by (simp_all add: Master_file_stat_def)

lemma insert_stat_ok:
  assumes inv: "master_inv s"
  shows "master_inv (s\<lparr>file_stat_pool := fst (map_insert path Master_file_stat (file_stat_pool s))\<rparr>)"
    "map_find path (fst (map_insert path Master_file_stat (file_stat_pool s))) \<noteq> None"
proof -
  let ?p = "fst (map_insert path Master_file_stat (file_stat_pool s))"
  have mi: "map_inv (file_stat_pool s)" using inv by (simp add: master_inv_def files_inv_def)
  note f = map_insert_find [OF mi, of _ path Master_file_stat]
  have old: "map_find q ?p = Some fs" if "map_find q (file_stat_pool s) = Some fs" for q fs
    using that map_find_Some_key [OF that] by (auto simp: f)
  have new: "map_find q (file_stat_pool s) = Some fs \<or> fs = Master_file_stat"
    if "map_find q ?p = Some fs" for q fs
    using that by (auto simp: f split: if_splits)
  have "file_ok (s\<lparr>file_stat_pool := ?p\<rparr>) n a" if "file_ok s n a" for n a
    using that old unfolding file_ok_def node_ok_def by fastforce
  then have "files_inv (s\<lparr>file_stat_pool := ?p\<rparr>)"
    using files_invD [OF master_invD(2) [OF inv]] mi
    by (intro files_invI) (auto dest!: new)
  moreover have "sizes_inv (s\<lparr>file_stat_pool := ?p\<rparr>)"
    using inv by (auto simp: master_inv_def sizes_inv_def zero_stat_def dest!: new)
  ultimately show "master_inv (s\<lparr>file_stat_pool := ?p\<rparr>)"
    using inv by (auto simp: master_inv_def nodes_inv_def numbers_inv_def)
  show "map_find path ?p \<noteq> None" by (auto simp: f in_map_keys_iff)
qed

lemma create_new_file_stat_ok:
  assumes inv: "master_inv s"
  shows "\<exists>s' fs. create_new_file_stat env path exist mode s = Some s' \<and> master_inv s' \<and>
           map_find path (file_stat_pool s') = Some fs \<and> st_size (fs_status fs) = 0 \<and>
           opened_file_info fs = (case map_find path (file_stat_pool s) of None \<Rightarrow> None | Some f \<Rightarrow> opened_file_info f) \<and>
           registered_IOnodes s' = registered_IOnodes s \<and> file_nos s' = file_nos s \<and>
           buffered_files s' = buffered_files s \<and>
           (\<forall>q. q \<noteq> path \<longrightarrow> map_find q (file_stat_pool s') = map_find q (file_stat_pool s))"
proof -
  let ?p = "fst (map_insert path Master_file_stat (file_stat_pool s))"
  let ?s1 = "s\<lparr>file_stat_pool := ?p\<rparr>"
  let ?st = "zero_stat\<lparr>st_mtime := env_time env, st_atime := env_time env, st_ctime := env_time env,
     st_size := 0, st_uid := env_uid env, st_gid := env_gid env, st_mode := mode, st_blksize := 1048576\<rparr>"
  let ?g = "\<lambda>fs. fs\<lparr>exist_flag := exist, fs_status := ?st\<rparr>"
  have mi: "map_inv (file_stat_pool s)" using inv by (simp add: master_inv_def files_inv_def)
  note ins = insert_stat_ok [OF inv, of path]
  then obtain fs where fs: "map_find path (file_stat_pool ?s1) = Some fs" by auto
  note up = upd_stat_ok [OF ins(1) fs, of ?g]
  have "opened_file_info fs = (case map_find path (file_stat_pool s) of None \<Rightarrow> None | Some f \<Rightarrow> opened_file_info f)"
    using fs map_insert_find [OF mi, of path path Master_file_stat] in_map_keys_iff [of path "file_stat_pool s"]
    by (auto split: option.splits if_splits)
  moreover have "map_find q ?p = map_find q (file_stat_pool s)" if "q \<noteq> path" for q
    using that map_insert_find [OF mi] by simp
  ultimately show ?thesis
    using up by (simp add: create_new_file_stat_def Let_def create_new_backup_file_def)
qed

section \<open>Messages to nodes\<close>

text \<open>\<open>sends s s'\<close>: messages have been sent and nothing else has changed.\<close>

definition sends :: "master \<Rightarrow> master \<Rightarrow> bool" where
  "sends s s' \<longleftrightarrow> (\<exists>ms. s' = s\<lparr>sent := sent s @ ms\<rparr>)"

lemma sends_refl [simp]: "sends s s"
  unfolding sends_def by (intro exI [of _ "[]"]) simp

lemma sends_trans: "sends s s' \<Longrightarrow> sends s' s'' \<Longrightarrow> sends s s''"
  unfolding sends_def by fastforce

lemma sends_send [simp]: "sends s (send h m s)"
  unfolding sends_def send_def by blast

lemma sends_fields:
  assumes "sends s s'"
  shows "registered_IOnodes s' = registered_IOnodes s" "file_stat_pool s' = file_stat_pool s"
    "buffered_files s' = buffered_files s" "file_heap s' = file_heap s" "file_nos s' = file_nos s"
    "file_fresh s' = file_fresh s" "node_heap s' = node_heap s" "master_inv s' = master_inv s"
    "deref_node p s' = deref_node p s" "deref_file a s' = deref_file a s" "deref_stat q s' = deref_stat q s"
    "node_ok s' p = node_ok s p" "nodes_inv s' = nodes_inv s"
  using assms by (auto simp: sends_def deref_node_def deref_file_def deref_stat_def node_ok_def nodes_inv_def)

lemma node_ok_deref:
  assumes "nodes_inv s" "node_ok s p"
  obtains ni where "deref_node p s = Some ni"
  using assms unfolding nodes_inv_def node_ok_def deref_node_def by blast

lemma node_fields_ok:
  assumes "nodes_inv s"
  shows "\<forall>p\<in>set ps. node_ok s p \<Longrightarrow> \<exists>fs. node_fields ps s = Some fs"
proof (induction ps)
  case (Cons p ps)
  then obtain ni fs where "deref_node p s = Some ni" "node_fields ps s = Some fs"
    using node_ok_deref [OF assms] by fastforce
  then show ?case by simp
qed simp

text \<open>
  The bytes an open request needs behind the header: 41 and the path, and 16 for every block.
\<close>

definition open_request_fits :: "string \<Rightarrow> nat \<Rightarrow> bool" where
  "open_request_fits path n \<longleftrightarrow> length path + 16 * n + 41 \<le> MAX_BASIC_MESSAGE_SIZE - MESSAGE_META_OFF"

lemma block_fields_bytes: "length (fields_bytes (block_fields bl)) = 16 * length bl"
  by (induction bl) (auto simp: block_fields_def)

lemma open_msg_fits:
  "msg_fits ([F_int a, F_off b, F_int c, F_int d, F_str path, F_int e] @ block_fields bl @ [F_int f, F_int g])
     \<longleftrightarrow> open_request_fits path (length bl)"
  by (simp add: msg_fits_def open_request_fits_def block_fields_bytes)

lemma send_checked_sends: "send_checked h msg s = Some s' \<Longrightarrow> sends s s'"
  by (auto simp: send_checked_def split: if_splits)

lemma send_open_request_eq:
  assumes "deref_node node s = Some ni" "deref_file a s = Some ofi" "deref_stat (of_file_status ofi) s = Some fs"
    "primary_replica_node ofi = Some node" "of_IOnodes_set ofi = []"
  shows "send_open_request_to_IOnodes a node s =
     (if open_request_fits (of_file_status ofi) (length (of_block_list ofi))
      then Some (send (ni_handle ni)
        ([F_int OPEN_FILE, F_off (of_file_no ofi), F_int (of_flag ofi), F_int (exist_flag fs),
          F_str (of_file_status ofi), F_int (int (length (of_block_list ofi)))]
         @ block_fields (of_block_list ofi) @ [F_int MAIN_REPLICA, F_int 0]) s)
      else None)"
  using assms open_msg_fits [of OPEN_FILE "of_file_no ofi" "of_flag ofi" "exist_flag fs" "of_file_status ofi"
      "int (length (of_block_list ofi))" "of_block_list ofi" MAIN_REPLICA 0]
  by (simp add: send_open_request_to_IOnodes_def send_replica_nodes_info_def send_checked_def)

lemma send_to_nodes_ok:
  assumes "\<And>p s. nodes_inv s \<Longrightarrow> node_ok s p \<Longrightarrow> \<exists>s'. req p s = Some s' \<and> sends s s'"
  shows "nodes_inv s \<Longrightarrow> \<forall>p\<in>set ps. node_ok s p \<Longrightarrow> \<exists>s'. send_to_nodes req ps s = Some s' \<and> sends s s'"
proof (induction ps arbitrary: s)
  case (Cons p ps)
  from assms [of s p] Cons.prems obtain s1 where s1: "req p s = Some s1" "sends s s1" by auto
  from Cons.IH [of s1] Cons.prems sends_fields [OF s1(2)] obtain s2 where
    "send_to_nodes req ps s1 = Some s2" "sends s1 s2" by auto
  then show ?case using s1 sends_trans by auto
qed simp

section \<open>Opening files\<close>

lemma new_file_inv:
  assumes files: "files_inv s" and nodes: "nodes_inv s'" and sizes: "sizes_inv s'"
    and reg: "registered_IOnodes s' = registered_IOnodes s"
    and heap: "file_heap s' = map_set a ofi h" "map_inv h"
      "\<And>b. b \<noteq> a \<Longrightarrow> map_find b h = map_find b (file_heap s)" "map_find a (file_heap s) = None"
    and pool: "file_stat_pool s' = map_set path fs' (file_stat_pool s)"
      "map_find path (file_stat_pool s) = Some fs" "opened_file_info fs = None" "opened_file_info fs' = Some a"
    and buf: "buffered_files s' = map_set n a (buffered_files s)" "map_find n (buffered_files s) = None"
    and ofi: "of_file_no ofi = n" "of_file_status ofi = path" "primary_replica_node ofi = Some main"
      "node_ok s main" "\<forall>p\<in>set (of_IOnodes_set ofi). node_ok s p"
  shows "files_inv s'"
proof (rule files_invI)
  note D = files_invD [OF files]
  show "map_inv (file_stat_pool s')" "map_inv (buffered_files s')" "map_inv (file_heap s')"
    using D(1,2) heap(2) by (simp_all add: heap(1) pool(1) buf(1))
  show "\<exists>ofi. map_find b (file_heap s') = Some ofi \<and> of_file_status ofi = q \<and>
          map_find (of_file_no ofi) (buffered_files s') = Some b"
    if qf: "map_find q (file_stat_pool s') = Some f" "opened_file_info f = Some b" for q f b
  proof (cases "q = path")
    case True
    then show ?thesis using qf pool ofi by (auto simp: heap(1) buf(1))
  next
    case False
    then obtain ofi' where o: "map_find b (file_heap s) = Some ofi'" "of_file_status ofi' = q"
      "map_find (of_file_no ofi') (buffered_files s) = Some b"
      using qf D(4) [of q f b] by (auto simp: pool(1))
    then have "b \<noteq> a" "of_file_no ofi' \<noteq> n" using heap(4) buf(2) by auto
    then show ?thesis using o heap(3) by (auto simp: heap(1) buf(1))
  qed
  show "file_ok s' k b" if k: "map_find k (buffered_files s') = Some b" for k b
  proof (cases "k = n")
    case True
    then have "b = a" using k by (simp add: buf(1))
    then show ?thesis using True ofi pool by (auto simp: file_ok_def node_ok_def reg heap(1))
  next
    case False
    then have "file_ok s k b" using k D(5) by (simp add: buf(1))
    then obtain ofi' f main' where o: "map_find b (file_heap s) = Some ofi'" "of_file_no ofi' = k"
      "primary_replica_node ofi' = Some main'" "node_ok s main'" "\<forall>p\<in>set (of_IOnodes_set ofi'). node_ok s p"
      "map_find (of_file_status ofi') (file_stat_pool s) = Some f" "opened_file_info f = Some b"
      by (rule file_okE)
    then have "b \<noteq> a" "of_file_status ofi' \<noteq> path" using heap(4) pool(2,3) by auto
    then show ?thesis using o heap(3) by (auto simp: file_ok_def node_ok_def reg heap(1) pool(1))
  qed
qed

text \<open>
  A new open file: the number is fresh in \<^verbatim>\<open>_buffered_files\<close> and already taken from the pool.
\<close>

lemma create_new_open_file_info_ok:
  assumes inv: "nodes_inv s" "files_inv s" "sizes_inv s"
    and nos: "0 \<le> n" "map_find n (buffered_files s) = None"
      "\<forall>k b. map_find k (buffered_files s) = Some b \<longrightarrow> 0 \<le> k"
      "file_nos_inv (insert (nat n) (nat ` map_keys (buffered_files s))) (file_nos s)"
      "\<forall>b ofi. map_find b (file_heap s) = Some ofi \<longrightarrow> b < file_fresh s"
    and fs: "map_find path (file_stat_pool s) = Some fs" "opened_file_info fs = None"
    and reg: "registered_IOnodes s \<noteq> []"
  shows "open_request_fits path (max 1 (block_count (st_size (fs_status fs)))) \<Longrightarrow>
         \<exists>s' ofi. create_new_open_file_info n flag path s = Some (Inr (file_fresh s), s') \<and> master_inv s' \<and>
           map_find (file_fresh s) (file_heap s') = Some ofi \<and> of_file_no ofi = n \<and> open_count ofi = 1 \<and>
           of_file_status ofi = path \<and> of_flag ofi = flag \<and> of_block_size ofi = BLOCK_SIZE \<and>
           create_block_list (st_size (fs_status fs)) BLOCK_SIZE [] = Some (of_block_list ofi) \<and>
           buffered_files s' = map_set n (file_fresh s) (buffered_files s) \<and>
           file_stat_pool s' = map_set path (fs\<lparr>opened_file_info := Some (file_fresh s)\<rparr>) (file_stat_pool s) \<and>
           registered_IOnodes s' = registered_IOnodes s" (is "?fits \<Longrightarrow> ?opens")
    "\<not> open_request_fits path (max 1 (block_count (st_size (fs_status fs)))) \<Longrightarrow>
       create_new_open_file_info n flag path s = None"
proof -
  let ?a = "file_fresh s"
  let ?fs = "fs\<lparr>opened_file_info := Some ?a\<rparr>"
  let ?o0 = "(new_open_file_info n flag path)\<lparr>of_block_size := BLOCK_SIZE\<rparr>"
  define s2 where "s2 = s\<lparr>file_fresh := ?a + 1, file_heap := map_set ?a ?o0 (file_heap s),
      buffered_files := map_set n ?a (buffered_files s),
      file_stat_pool := map_set path ?fs (file_stat_pool s)\<rparr>"
  have ins: "fst (map_insert n ?a (buffered_files s)) = map_set n ?a (buffered_files s)"
    using nos(2) files_invD(2) [OF inv(2)] by (simp add: map_insert_eq map_find_None_iff)
  have sz: "0 \<le> st_size (fs_status fs)" "st_size (fs_status fs) < 4611686018427387904"
    using inv(3) fs(1) by (auto simp: sizes_inv_def)
  then have u: "u64 (st_size (fs_status fs)) = st_size (fs_status fs)" by (simp add: u64_id)
  define bl where "bl = blocks (max 1 (block_count (st_size (fs_status fs)))) (block_part (st_size (fs_status fs)))"
  have bl: "create_block_list (st_size (fs_status fs)) BLOCK_SIZE [] = Some bl"
    using create_block_list_eq [OF sz] by (simp add: get_block_size_def bl_def)
  have n2: "nodes_inv s2" using inv(1) by (simp add: s2_def nodes_inv_def)
  let ?num = "if u64 NUM_OF_REPLICA > map_size (registered_IOnodes s2)
                  then map_size (registered_IOnodes s2) else NUM_OF_REPLICA"
  obtain main pool s3 where s3: "select_IOnode n ?num s2 = Some (Inr (main, pool), s3)" "nodes_inv s3"
    "nodes_ext s2 s3" "node_ok s2 main" "\<forall>p\<in>set pool. node_ok s2 p"
    using select_IOnode_ok [OF n2, of n ?num] reg by (auto simp: s2_def)
  have pool: "pool = []"
    using s3(1) by (auto simp: select_IOnode_def NUM_OF_REPLICA_def u64_def bind_eq_Some_conv Let_def split: if_splits)
  note f3 = nodes_ext_fields [OF s3(3)]
  let ?o = "?o0\<lparr>primary_replica_node := Some main, of_IOnodes_set := pool, of_block_list := bl\<rparr>"
  define s4 where "s4 = s3\<lparr>file_heap := map_set ?a ?o (file_heap s3)\<rparr>"
  have up: "upd_file ?a (\<lambda>ofi. ofi\<lparr>primary_replica_node := Some main, of_IOnodes_set := pool,
      of_block_list := bl\<rparr>) s3 = Some s4"
    by (simp add: upd_file_def deref_file_def f3 s4_def s2_def)
  have n4: "nodes_inv s4" using s3(2) by (simp add: s4_def nodes_inv_def)
  have ok: "node_ok s p" if "node_ok s2 p" for p using that by (simp add: node_ok_def s2_def)
  have ok4: "node_ok s4 p" if "node_ok s2 p" for p using that by (simp add: node_ok_def s4_def f3)
  have sz4: "sizes_inv s4" using inv(3) fs(1) by (simp add: sizes_inv_def s4_def f3 s2_def)
  have fresh: "map_find ?a (file_heap s) = None" using nos(5) by fastforce
  have "files_inv s4"
  proof (rule new_file_inv [where s = s and a = ?a and ofi = ?o and h = "file_heap s3" and path = path
          and fs' = ?fs and fs = fs and n = n and main = main])
    show "map_inv (file_heap s3)" using files_invD(3) [OF inv(2)] by (simp add: f3 s2_def)
    show "node_ok s main" "\<forall>p\<in>set (of_IOnodes_set ?o). node_ok s p" using s3(4,5) ok by simp_all
  qed (use inv(2) n4 sz4 fresh nos(2) fs in \<open>simp_all add: s4_def f3 s2_def new_open_file_info_def\<close>)
  moreover have "numbers_inv s4"
    using nos by (auto simp: numbers_inv_def s4_def f3 s2_def less_SucI)
  ultimately have m4: "master_inv s4" using n4 sz4 by (simp add: master_inv_def)
  have d4: "deref_file ?a s4 = Some ?o" "deref_stat path s4 = Some ?fs"
    by (simp_all add: deref_file_def deref_stat_def s4_def f3 s2_def)
  obtain ni where ni: "deref_node main s4 = Some ni" using node_ok_deref [OF n4 ok4 [OF s3(4)]] .
  have create: "create_new_open_file_info n flag path s =
      map_option (\<lambda>s5. (Inr ?a, s5)) (send_open_request_to_IOnodes ?a main s4)"
    using fs(1) s3(1) up bl
    by (cases "send_open_request_to_IOnodes ?a main s4")
       (simp_all add: create_new_open_file_info_def deref_stat_def upd_stat_def get_block_size_def u ins s2_def pool
        cong: if_cong)
  have len: "length bl = max 1 (block_count (st_size (fs_status fs)))" by (simp add: bl_def blocks_def)
  have o: "deref_stat (of_file_status ?o) s4 = Some ?fs" "primary_replica_node ?o = Some main" "of_IOnodes_set ?o = []"
    using d4(2) pool by (simp_all add: new_open_file_info_def)
  note eq = send_open_request_eq [OF ni d4(1) o]
  show "create_new_open_file_info n flag path s = None" if "\<not> ?fits"
    using that create eq len by (simp add: new_open_file_info_def)
  show ?opens if fits: ?fits
  proof -
    obtain s5 where s5: "send_open_request_to_IOnodes ?a main s4 = Some s5" "sends s4 s5"
      using eq fits len by (simp add: new_open_file_info_def)
    note f5 = sends_fields [OF s5(2)]
    have "create_new_open_file_info n flag path s = Some (Inr ?a, s5)" using create s5(1) by simp
    then show ?thesis
      using bl m4 by (intro exI [of _ s5] exI [of _ ?o])
        (simp add: f5 s4_def f3 s2_def new_open_file_info_def)
  qed
qed

end
