(* ===== verification/Master_Files.thy ===== *)
theory Master_Files
  imports Master_Invariant
begin

text \<open>
  Opening, removing and renaming files keep the master's invariant, and what they do to
  the tables.
\<close>

section \<open>Opening\<close>

lemma file_nos_inj:
  assumes "numbers_inv s"
  shows "inj_on nat (map_keys (buffered_files s))"
proof -
  have "\<forall>n\<in>map_keys (buffered_files s). 0 \<le> n"
    using assms unfolding numbers_inv_def by (metis in_map_keys_iff)
  then show ?thesis by (intro inj_onI) (metis nat_0_le)
qed

lemma numbers_count:
  assumes "master_inv s"
  shows "card (nat ` map_keys (buffered_files s)) = length (buffered_files s)"
proof -
  have "distinct (map fst (buffered_files s))"
    using assms by (simp add: master_inv_def files_inv_def map_inv_distinct)
  then show ?thesis
    using file_nos_inj [OF master_invD(3) [OF assms]]
    by (simp add: card_image) (metis distinct_card length_map list.set_map)
qed

lemma get_file_no_ok:
  assumes inv: "master_inv s"
  shows "(\<exists>k nos. get_file_no (file_nos s) = (int k, nos) \<and> map_find (int k) (buffered_files s) = None \<and>
            file_nos_inv (insert k (nat ` map_keys (buffered_files s))) nos) \<or>
         (length (buffered_files s) = MAX_FILE_NUMBER \<and> get_file_no (file_nos s) = (-1, file_nos s))"
proof -
  have "file_nos_inv (nat ` map_keys (buffered_files s)) (file_nos s)"
    using inv by (simp add: master_inv_def numbers_inv_def)
  from get_file_no_cases [OF this] show ?thesis
  proof (elim disjE exE conjE)
    fix k p' assume k: "k \<notin> nat ` map_keys (buffered_files s)" "get_file_no (file_nos s) = (int k, p')"
      "file_nos_inv (insert k (nat ` map_keys (buffered_files s))) p'"
    have "int k \<notin> map_keys (buffered_files s)" using k(1) image_eqI [of k nat "int k"] by auto
    then show ?thesis using k by (auto simp: map_find_None_iff)
  next
    assume "card (nat ` map_keys (buffered_files s)) = MAX_FILE_NUMBER"
      "get_file_no (file_nos s) = (-1, file_nos s)"
    then show ?thesis using numbers_count [OF inv] by simp
  qed
qed

text \<open>
  What a successful open gives: the number leads to an object that points back to the path,
  the path points to the object, and every file that was open still is.
\<close>

definition opened :: "string \<Rightarrow> ssize_t \<Rightarrow> master \<Rightarrow> bool" where
  "opened path n s \<longleftrightarrow>
     (\<exists>a ofi fs. map_find n (buffered_files s) = Some a \<and> map_find a (file_heap s) = Some ofi \<and>
        of_file_no ofi = n \<and> of_file_status ofi = path \<and>
        map_find path (file_stat_pool s) = Some fs \<and> opened_file_info fs = Some a)"

lemma opened_unique:
  assumes "opened path n s" "opened path k s"
  shows "n = k"
  using assms by (auto simp: opened_def)

lemma opened_inv:
  assumes "files_inv s" "map_find n (buffered_files s) = Some a"
  shows "\<exists>path. opened path n s"
  using files_invD(5) [OF assms] assms(2) unfolding file_ok_def opened_def by blast

text \<open>
  The open request to the primary node fits its message: it is sent only when the path is not
  open, and holds the path and the blocks of the file's size (one for an empty file).
\<close>

definition open_fits :: "string \<Rightarrow> master \<Rightarrow> bool" where
  "open_fits path s =
     (case map_find path (file_stat_pool s) of
        None \<Rightarrow> open_request_fits path 1
      | Some fs \<Rightarrow> opened_file_info fs \<noteq> None \<or>
          open_request_fits path (max 1 (block_count (st_size (fs_status fs)))))"

lemma open_new_number:
  assumes inv: "nodes_inv s" "files_inv s" "numbers_inv s" "sizes_inv s"
    and no: "map_find (int k) (buffered_files s) = None"
      "file_nos_inv (insert k (nat ` map_keys (buffered_files s))) nos"
    and fs: "map_find path (file_stat_pool s) = Some fs" "opened_file_info fs = None"
    and reg: "registered_IOnodes s \<noteq> []"
  shows "open_request_fits path (max 1 (block_count (st_size (fs_status fs)))) \<Longrightarrow>
         \<exists>s' a ofi. create_new_open_file_info (int k) flag path (s\<lparr>file_nos := nos\<rparr>) = Some (Inr a, s') \<and>
           master_inv s' \<and> map_find a (file_heap s') = Some ofi \<and> opened path (int k) s' \<and>
           buffered_files s' = map_set (int k) a (buffered_files s) \<and>
           file_stat_pool s' = map_set path (fs\<lparr>opened_file_info := Some a\<rparr>) (file_stat_pool s) \<and>
           registered_IOnodes s' = registered_IOnodes s" (is "?fits \<Longrightarrow> ?opens")
    "\<not> open_request_fits path (max 1 (block_count (st_size (fs_status fs)))) \<Longrightarrow>
       create_new_open_file_info (int k) flag path (s\<lparr>file_nos := nos\<rparr>) = None"
proof -
  let ?s = "s\<lparr>file_nos := nos\<rparr>"
  have "file_ok ?s = file_ok s" by (intro ext) (simp add: file_ok_def node_ok_def)
  then have "nodes_inv ?s = nodes_inv s" "files_inv ?s = files_inv s" "sizes_inv ?s = sizes_inv s"
    by (simp_all add: nodes_inv_def files_inv_def sizes_inv_def)
  with inv have i: "nodes_inv ?s" "files_inv ?s" "sizes_inv ?s" by simp_all
  note create = create_new_open_file_info_ok [OF i, of "int k" path fs flag]
  show "create_new_open_file_info (int k) flag path ?s = None" if "\<not> ?fits"
    using create(2) that no fs reg inv(3) by (auto simp: numbers_inv_def)
  assume ?fits
  then obtain s' ofi where
    s': "create_new_open_file_info (int k) flag path ?s = Some (Inr (file_fresh s), s')" "master_inv s'"
      "map_find (file_fresh s) (file_heap s') = Some ofi" "of_file_no ofi = int k" "of_file_status ofi = path"
      "buffered_files s' = map_set (int k) (file_fresh s) (buffered_files s)"
      "file_stat_pool s' = map_set path (fs\<lparr>opened_file_info := Some (file_fresh s)\<rparr>) (file_stat_pool s)"
      "registered_IOnodes s' = registered_IOnodes s"
    using create(1) no fs reg inv(3) by (auto simp: numbers_inv_def)
  moreover have "opened path (int k) s'" using s' by (auto simp: opened_def)
  ultimately show ?opens by blast
qed

lemma count_open_ok:
  assumes inv: "master_inv s" and a: "map_find a (file_heap s) = Some ofi"
  shows "\<exists>s'. upd_file a (\<lambda>ofi. ofi\<lparr>open_count := open_count ofi + 1\<rparr>) s = Some s' \<and> master_inv s' \<and>
           buffered_files s' = buffered_files s \<and> file_stat_pool s' = file_stat_pool s \<and>
           (\<forall>path n. opened path n s \<longrightarrow> opened path n s')"
proof -
  let ?g = "\<lambda>ofi. ofi\<lparr>open_count := open_count ofi + 1\<rparr>"
  have "opened path n (s\<lparr>file_heap := map_set a (?g ofi) (file_heap s)\<rparr>)" if "opened path n s" for path n
    using that a unfolding opened_def by fastforce
  then show ?thesis using upd_file_ok [OF inv a, of ?g] by simp
qed

lemma create_new_file_stat_nos:
  "create_new_file_stat env path e m (s\<lparr>file_nos := x\<rparr>) =
     map_option (\<lambda>s. s\<lparr>file_nos := x\<rparr>) (create_new_file_stat env path e m s)"
  by (cases "map_find path (fst (map_insert path Master_file_stat (file_stat_pool s)))")
     (simp_all add: create_new_file_stat_def upd_stat_def deref_stat_def create_new_backup_file_def Let_def)

lemma open_file_ok:
  assumes inv: "master_inv s" and reg: "registered_IOnodes s \<noteq> []"
    and room: "length (buffered_files s) < MAX_FILE_NUMBER" and fits: "open_fits path s"
  shows "\<exists>n s'. open_file env path flag mode s = Some (Inr n, s') \<and> master_inv s' \<and> opened path n s' \<and>
           (\<forall>k a. map_find k (buffered_files s) = Some a \<longrightarrow> map_find k (buffered_files s') = Some a) \<and>
           (\<forall>q. q \<noteq> path \<longrightarrow> map_find q (file_stat_pool s') = map_find q (file_stat_pool s)) \<and>
           (map_find n (buffered_files s) = None \<or> opened path n s)"
proof -
  obtain k nos where k: "get_file_no (file_nos s) = (int k, nos)" "map_find (int k) (buffered_files s) = None"
    "file_nos_inv (insert k (nat ` map_keys (buffered_files s))) nos"
    using get_file_no_ok [OF inv] room by auto
  show ?thesis
  proof (cases "map_find path (file_stat_pool s)")
    case None
    let ?s1 = "s\<lparr>file_nos := nos\<rparr>"
    obtain s2 fs where s2: "create_new_file_stat env path NOT_EXIST (S_IFREG OR mode) s = Some s2" "master_inv s2"
      "map_find path (file_stat_pool s2) = Some fs" "opened_file_info fs = None" "st_size (fs_status fs) = 0"
      "registered_IOnodes s2 = registered_IOnodes s" "file_nos s2 = file_nos s" "buffered_files s2 = buffered_files s"
      "\<forall>q. q \<noteq> path \<longrightarrow> map_find q (file_stat_pool s2) = map_find q (file_stat_pool s)"
      using create_new_file_stat_ok [OF inv, of env path NOT_EXIST "S_IFREG OR mode"] None by auto
    have c1: "create_new_file_stat env path NOT_EXIST (S_IFREG OR mode) ?s1 = Some (s2\<lparr>file_nos := nos\<rparr>)"
      using s2(1) by (simp add: create_new_file_stat_nos)
    note m2 = master_invD [OF s2(2)]
    obtain s3 a where s3: "create_new_open_file_info (int k) flag path (s2\<lparr>file_nos := nos\<rparr>) = Some (Inr a, s3)"
      "master_inv s3" "opened path (int k) s3" "buffered_files s3 = map_set (int k) a (buffered_files s2)"
      "file_stat_pool s3 = map_set path (fs\<lparr>opened_file_info := Some a\<rparr>) (file_stat_pool s2)"
      using open_new_number(1) [OF m2, of k nos path fs flag] k s2 reg fits None by (auto simp: open_fits_def)
    have "open_file env path flag mode s = Some (Inr (int k), s3)"
      using None k(1) c1 s3(1) by (simp add: open_file_def)
    then show ?thesis using s3 k(2) s2(8,9) by auto
  next
    case (Some fs)
    show ?thesis
    proof (cases "opened_file_info fs")
      case None
      obtain s2 a ofi where s2: "create_new_open_file_info (int k) flag path (s\<lparr>file_nos := nos\<rparr>) = Some (Inr a, s2)"
        "master_inv s2" "map_find a (file_heap s2) = Some ofi" "opened path (int k) s2"
        "buffered_files s2 = map_set (int k) a (buffered_files s)"
        "file_stat_pool s2 = map_set path (fs\<lparr>opened_file_info := Some a\<rparr>) (file_stat_pool s)"
        using open_new_number(1) [OF master_invD [OF inv], of k nos path fs flag] k Some None reg fits
        by (auto simp: open_fits_def)
      from count_open_ok [OF s2(2,3)] obtain s3 where
        s3: "upd_file a (\<lambda>ofi. ofi\<lparr>open_count := open_count ofi + 1\<rparr>) s2 = Some s3" "master_inv s3"
          "buffered_files s3 = buffered_files s2" "file_stat_pool s3 = file_stat_pool s2" "opened path (int k) s3"
        using s2(4) by blast
      have "open_file env path flag mode s = Some (Inr (int k), s3)"
        using Some None k(1) s2(1) s3(1) by (simp add: open_file_def)
      then show ?thesis using s2 s3 k(2) by auto
    next
      case open': (Some a)
      from files_invD(4) [OF master_invD(2) [OF inv] Some open'] obtain ofi where
        ofi: "map_find a (file_heap s) = Some ofi" "of_file_status ofi = path"
          "map_find (of_file_no ofi) (buffered_files s) = Some a" by blast
      have o: "opened path (of_file_no ofi) s" using ofi Some open' by (auto simp: opened_def)
      from count_open_ok [OF inv ofi(1)] o obtain s1 where
        s1: "upd_file a (\<lambda>ofi. ofi\<lparr>open_count := open_count ofi + 1\<rparr>) s = Some s1" "master_inv s1"
          "buffered_files s1 = buffered_files s" "file_stat_pool s1 = file_stat_pool s"
          "opened path (of_file_no ofi) s1" by blast
      have "open_file env path flag mode s = Some (Inr (of_file_no ofi), s1)"
        using Some open' ofi s1(1) by (simp add: open_file_def deref_file_def)
      then show ?thesis using s1 o by auto
    qed
  qed
qed

lemma open_file_overrun:
  assumes inv: "master_inv s" and reg: "registered_IOnodes s \<noteq> []"
    and room: "length (buffered_files s) < MAX_FILE_NUMBER" and big: "\<not> open_fits path s"
  shows "open_file env path flag mode s = None"
proof -
  obtain k nos where k: "get_file_no (file_nos s) = (int k, nos)" "map_find (int k) (buffered_files s) = None"
    "file_nos_inv (insert k (nat ` map_keys (buffered_files s))) nos"
    using get_file_no_ok [OF inv] room by auto
  show ?thesis
  proof (cases "map_find path (file_stat_pool s)")
    case None
    obtain s2 fs where s2: "create_new_file_stat env path NOT_EXIST (S_IFREG OR mode) s = Some s2" "master_inv s2"
      "map_find path (file_stat_pool s2) = Some fs" "opened_file_info fs = None" "st_size (fs_status fs) = 0"
      "registered_IOnodes s2 = registered_IOnodes s" "buffered_files s2 = buffered_files s"
      using create_new_file_stat_ok [OF inv, of env path NOT_EXIST "S_IFREG OR mode"] None by auto
    have "create_new_open_file_info (int k) flag path (s2\<lparr>file_nos := nos\<rparr>) = None"
      using open_new_number(2) [OF master_invD [OF s2(2)], of k nos path fs flag] k s2 reg big None
      by (auto simp: open_fits_def)
    then show ?thesis using None k(1) s2(1) by (simp add: open_file_def create_new_file_stat_nos)
  next
    case (Some fs)
    then have "opened_file_info fs = None" using big by (simp add: open_fits_def)
    moreover from this have "create_new_open_file_info (int k) flag path (s\<lparr>file_nos := nos\<rparr>) = None"
      using open_new_number(2) [OF master_invD [OF inv], of k nos path fs flag] k Some reg big
      by (auto simp: open_fits_def)
    ultimately show ?thesis using Some k(1) by (simp add: open_file_def)
  qed
qed

section \<open>Removing\<close>

lemma sends_nodes_ext: "sends s s' \<Longrightarrow> nodes_ext s s'"
  unfolding sends_def nodes_ext_def
  by (elim exE, rule exI [of _ "node_heap s"], rule exI [of _ "current_IOnode s"]) auto

lemma remove_from_node_ok:
  assumes "nodes_inv s" "node_ok s p"
  shows "\<exists>s'. remove_from_node n p s = Some s' \<and> nodes_inv s' \<and> nodes_ext s s'"
proof -
  obtain ni where ni: "deref_node p s = Some ni" using node_ok_deref [OF assms] .
  let ?s = "send (ni_handle ni) [F_int UNLINK, F_off n] s"
  let ?g = "\<lambda>ni. ni\<lparr>stored_files := set_erase n (stored_files ni)\<rparr>"
  have s: "sends s ?s" by simp
  obtain k where "map_find k (registered_IOnodes s) = Some p" using assms(2) by (auto simp: node_ok_def)
  then obtain s' where s': "upd_node p ?g ?s = Some s'" "nodes_inv s'" "nodes_ext ?s s'"
    using store_on_node_ok [of ?s k p ?g] assms(1) sends_fields [OF s] by auto
  then show ?thesis
    using ni nodes_ext_trans [OF sends_nodes_ext [OF s]]
    by (auto simp: remove_from_node_def send_remove_request_def)
qed

lemma remove_from_nodes_ok:
  "nodes_inv s \<Longrightarrow> \<forall>p\<in>set ps. node_ok s p \<Longrightarrow>
     \<exists>s'. remove_from_nodes n ps s = Some s' \<and> nodes_inv s' \<and> nodes_ext s s'"
proof (induction ps arbitrary: s)
  case Nil
  then show ?case by (simp add: nodes_ext_refl)
next
  case (Cons p ps)
  from remove_from_node_ok [of s p n] Cons.prems obtain s1 where
    s1: "remove_from_node n p s = Some s1" "nodes_inv s1" "nodes_ext s s1" by auto
  from Cons.IH [of s1] Cons.prems s1(2) nodes_ext_fields(7) [OF s1(3)] obtain s2 where
    "remove_from_nodes n ps s1 = Some s2" "nodes_inv s2" "nodes_ext s1 s2" by auto
  then show ?case using s1 nodes_ext_trans by auto
qed

text \<open>A file taken out of all three tables.\<close>

lemma erase_file_inv:
  assumes inv: "master_inv s" and fs: "map_find path (file_stat_pool s) = Some fs" "opened_file_info fs = Some a"
    and ofi: "map_find a (file_heap s) = Some ofi" "of_file_status ofi = path" "of_file_no ofi = n"
    and nos: "file_nos_inv (nat ` map_keys (buffered_files s) - {nat n}) nos"
  shows "master_inv (s\<lparr>buffered_files := map_erase n (buffered_files s), file_heap := map_erase a (file_heap s),
           file_nos := nos, file_stat_pool := map_erase path (file_stat_pool s)\<rparr>)" (is "master_inv ?s")
proof -
  note D = files_invD [OF master_invD(2) [OF inv]] and num = master_invD(3) [OF inv]
  have n: "map_find n (buffered_files s) = Some a" using D(4) [OF fs] ofi by auto
  have "files_inv ?s"
  proof (rule files_invI)
    show "\<exists>ofi. map_find b (file_heap ?s) = Some ofi \<and> of_file_status ofi = q \<and>
            map_find (of_file_no ofi) (buffered_files ?s) = Some b"
      if qf: "map_find q (file_stat_pool ?s) = Some f" "opened_file_info f = Some b" for q f b
    proof -
      have q: "q \<noteq> path" "map_find q (file_stat_pool s) = Some f" using qf(1) D(1) by (auto split: if_splits)
      obtain o' where o': "map_find b (file_heap s) = Some o'" "of_file_status o' = q"
        "map_find (of_file_no o') (buffered_files s) = Some b" using D(4) [OF q(2) qf(2)] by blast
      then have "b \<noteq> a" "of_file_no o' \<noteq> n" using q(1) ofi n by auto
      then show ?thesis using o' D(2,3) by auto
    qed
    show "file_ok ?s k b" if k: "map_find k (buffered_files ?s) = Some b" for k b
    proof -
      have k': "k \<noteq> n" "map_find k (buffered_files s) = Some b" using k D(2) by (auto split: if_splits)
      obtain o' f main where o': "map_find b (file_heap s) = Some o'" "of_file_no o' = k"
        "primary_replica_node o' = Some main" "node_ok s main" "\<forall>p\<in>set (of_IOnodes_set o'). node_ok s p"
        "map_find (of_file_status o') (file_stat_pool s) = Some f" "opened_file_info f = Some b"
        using D(5) [OF k'(2)] by (rule file_okE)
      have "b \<noteq> a" using o'(1,2) k'(1) ofi(1,3) by auto
      moreover from this have "of_file_status o' \<noteq> path" using o'(6,7) fs by auto
      ultimately show ?thesis using o' D(1,3) by (auto simp: file_ok_def node_ok_def)
    qed
  qed (use D in simp_all)
  moreover have "nat ` map_keys (map_erase n (buffered_files s)) = nat ` map_keys (buffered_files s) - {nat n}"
    using inj_on_image_set_diff [OF file_nos_inj [OF num], of "map_keys (buffered_files s)" "{n}"]
      map_find_Some_key [OF n] by (simp add: map_erase_keys [OF D(2)])
  then have "numbers_inv ?s"
    using num nos D(2,3) by (simp add: numbers_inv_def)
  moreover have "sizes_inv ?s"
    using master_invD(4) [OF inv] D(1) by (auto simp: sizes_inv_def split: if_splits)
  moreover have "nodes_inv ?s" using master_invD(1) [OF inv] by (simp add: nodes_inv_def)
  ultimately show ?thesis by (simp add: master_inv_def)
qed

lemma remove_open_file_ok:
  assumes inv: "master_inv s" and fs: "map_find path (file_stat_pool s) = Some fs" "opened_file_info fs = Some a"
  shows "\<exists>s' ofi. remove_open_file a s = Some s' \<and> file_stat_pool s' = file_stat_pool s \<and>
           map_find a (file_heap s) = Some ofi \<and> opened path (of_file_no ofi) s \<and>
           buffered_files s' = map_erase (of_file_no ofi) (buffered_files s) \<and>
           registered_IOnodes s' = registered_IOnodes s \<and>
           master_inv (s'\<lparr>file_stat_pool := map_erase path (file_stat_pool s')\<rparr>)"
proof -
  note D = files_invD [OF master_invD(2) [OF inv]]
  obtain ofi where ofi: "map_find a (file_heap s) = Some ofi" "of_file_status ofi = path"
    "map_find (of_file_no ofi) (buffered_files s) = Some a" using D(4) [OF fs] by blast
  let ?n = "of_file_no ofi"
  obtain main where main: "primary_replica_node ofi = Some main" "node_ok s main"
    "\<forall>p\<in>set (of_IOnodes_set ofi). node_ok s p"
    using D(5) [OF ofi(3)] ofi(1) by (auto simp: file_ok_def)
  obtain s1 where s1: "remove_from_node ?n main s = Some s1" "nodes_inv s1" "nodes_ext s s1"
    using remove_from_node_ok [OF master_invD(1) [OF inv] main(2)] by blast
  obtain s2 where s2: "remove_from_nodes ?n (of_IOnodes_set ofi) s1 = Some s2" "nodes_inv s2" "nodes_ext s1 s2"
    using remove_from_nodes_ok [OF s1(2)] main(3) nodes_ext_fields(7) [OF s1(3)] by blast
  note e2 = nodes_ext_trans [OF s1(3) s2(3)]
  note f2 = nodes_ext_fields [OF e2]
  have n: "0 \<le> ?n" using ofi(3) master_invD(3) [OF inv] by (auto simp: numbers_inv_def)
  have "nat ?n \<in> nat ` map_keys (buffered_files s)" using map_find_Some_key [OF ofi(3)] by blast
  then obtain nos where nos: "release_file_no ?n (file_nos s) = Some nos"
    "file_nos_inv (nat ` map_keys (buffered_files s) - {nat ?n}) nos"
    using release_file_no_inv [of "nat ` map_keys (buffered_files s)" "file_nos s" "nat ?n"]
      master_invD(3) [OF inv] n by (auto simp: numbers_inv_def)
  let ?s = "s2\<lparr>buffered_files := map_erase ?n (buffered_files s2), file_heap := map_erase a (file_heap s2),
              file_nos := nos\<rparr>"
  have "remove_open_file a s = Some ?s"
    using ofi(1) main(1) s1(1) s2(1) nos(1) by (simp add: remove_open_file_def deref_file_def f2)
  moreover have "master_inv (?s\<lparr>file_stat_pool := map_erase path (file_stat_pool s2)\<rparr>)"
    using erase_file_inv [OF nodes_ext_inv [OF e2 s2(2) inv], of path fs a ofi ?n nos] fs ofi nos(2)
    by (simp add: f2)
  ultimately show ?thesis using ofi fs by (auto simp: f2 opened_def)
qed

lemma erase_stat_inv:
  assumes inv: "master_inv s" and fs: "map_find path (file_stat_pool s) = Some fs" "opened_file_info fs = None"
  shows "master_inv (s\<lparr>file_stat_pool := map_erase path (file_stat_pool s)\<rparr>)" (is "master_inv ?s")
proof -
  note D = files_invD [OF master_invD(2) [OF inv]]
  have "file_ok ?s n a" if "file_ok s n a" for n a
    using that fs D(1) unfolding file_ok_def node_ok_def by fastforce
  then have "files_inv ?s" using D by (intro files_invI) (auto split: if_splits)
  moreover have "sizes_inv ?s"
    using master_invD(4) [OF inv] D(1) by (auto simp: sizes_inv_def split: if_splits)
  ultimately show ?thesis
    using master_invD [OF inv] by (simp add: master_inv_def nodes_inv_def numbers_inv_def)
qed

lemma remove_file_ok:
  assumes inv: "master_inv s"
  shows "\<exists>s'. remove_file path s =
             Some (if map_find path (file_stat_pool s) = None then FAILURE else SUCCESS, s') \<and>
           master_inv s' \<and> file_stat_pool s' = map_erase path (file_stat_pool s) \<and>
           registered_IOnodes s' = registered_IOnodes s \<and>
           (\<forall>n. map_find n (buffered_files s') =
                 (if opened path n s then None else map_find n (buffered_files s)))"
proof (cases "map_find path (file_stat_pool s)")
  case None
  have "map_erase path m = m" if "map_find path m = None" for m :: "(string, master_file_stat) std_map"
    using that by (induction path m rule: map_erase.induct) (auto split: if_splits)
  then show ?thesis using None inv by (auto simp: remove_file_def opened_def)
next
  case (Some fs)
  show ?thesis
  proof (cases "opened_file_info fs")
    case None
    then show ?thesis using Some erase_stat_inv [OF inv Some None] by (auto simp: remove_file_def opened_def)
  next
    case a: (Some a)
    obtain s' ofi where s': "remove_open_file a s = Some s'" "file_stat_pool s' = file_stat_pool s"
      "map_find a (file_heap s) = Some ofi" "opened path (of_file_no ofi) s"
      "buffered_files s' = map_erase (of_file_no ofi) (buffered_files s)"
      "registered_IOnodes s' = registered_IOnodes s"
      "master_inv (s'\<lparr>file_stat_pool := map_erase path (file_stat_pool s')\<rparr>)"
      using remove_open_file_ok [OF inv Some a] by blast
    have "opened path n s \<longleftrightarrow> n = of_file_no ofi" for n using s'(4) opened_unique by blast
    then show ?thesis
      using Some a s' files_invD(2) [OF master_invD(2) [OF inv]] by (auto simp: remove_file_def)
  qed
qed

section \<open>Renaming\<close>

text \<open>The entry of a file moved to another path.\<close>

lemma move_stat_inv:
  assumes inv: "master_inv s" and fs: "map_find old_path (file_stat_pool s) = Some fs"
    and new: "map_find new_path (file_stat_pool s) = None"
  defines "h \<equiv> (case opened_file_info fs of None \<Rightarrow> file_heap s
      | Some a \<Rightarrow> (case map_find a (file_heap s) of None \<Rightarrow> file_heap s
          | Some ofi \<Rightarrow> map_set a (ofi\<lparr>of_file_status := new_path\<rparr>) (file_heap s)))"
  shows "master_inv (s\<lparr>file_heap := h,
           file_stat_pool := map_erase old_path (map_set new_path fs (file_stat_pool s))\<rparr>)" (is "master_inv ?s")
proof -
  note D = files_invD [OF master_invD(2) [OF inv]]
  have ne: "old_path \<noteq> new_path" using fs new by auto
  have pool: "map_find q (file_stat_pool ?s) =
      (if q = old_path then None else if q = new_path then Some fs else map_find q (file_stat_pool s))" for q
    using D(1) ne by auto
  have heap: "map_find b h = map_option (\<lambda>ofi. if opened_file_info fs = Some b
      then ofi\<lparr>of_file_status := new_path\<rparr> else ofi) (map_find b (file_heap s))" for b
    by (cases "opened_file_info fs"; cases "map_find b (file_heap s)") (auto simp: h_def split: option.splits)
  have "map_inv h" using D(3) by (auto simp: h_def split: option.splits)
  have "files_inv ?s"
  proof (rule files_invI)
    show "\<exists>ofi. map_find b (file_heap ?s) = Some ofi \<and> of_file_status ofi = q \<and>
            map_find (of_file_no ofi) (buffered_files ?s) = Some b"
      if qf: "map_find q (file_stat_pool ?s) = Some f" "opened_file_info f = Some b" for q f b
    proof (cases "q = new_path")
      case True
      then have "f = fs" using qf(1) ne unfolding pool by simp
      then show ?thesis using D(4) [OF fs, of b] qf(2) True by (auto simp: heap)
    next
      case False
      then have q: "q \<noteq> old_path" "map_find q (file_stat_pool s) = Some f"
        using qf(1) unfolding pool by (auto split: if_splits)
      obtain o' where o': "map_find b (file_heap s) = Some o'" "of_file_status o' = q"
        "map_find (of_file_no o') (buffered_files s) = Some b" using D(4) [OF q(2) qf(2)] by blast
      have "opened_file_info fs \<noteq> Some b" using D(4) [OF fs, of b] o' q(1) by auto
      then show ?thesis using o' by (simp add: heap)
    qed
    show "file_ok ?s k b" if k: "map_find k (buffered_files ?s) = Some b" for k b
    proof -
      obtain o' f main where o': "map_find b (file_heap s) = Some o'" "of_file_no o' = k"
        "primary_replica_node o' = Some main" "node_ok s main" "\<forall>p\<in>set (of_IOnodes_set o'). node_ok s p"
        "map_find (of_file_status o') (file_stat_pool s) = Some f" "opened_file_info f = Some b"
        using D(5) [of k b] k by (auto elim: file_okE)
      show ?thesis
      proof (cases "opened_file_info fs = Some b")
        case True
        then show ?thesis
          using o' ne unfolding file_ok_def pool by (simp add: heap node_ok_def)
      next
        case False
        then have "of_file_status o' \<noteq> old_path" "of_file_status o' \<noteq> new_path" using o'(6,7) fs new by auto
        then show ?thesis
          using o' False unfolding file_ok_def pool by (simp add: heap node_ok_def)
      qed
    qed
  qed (use D \<open>map_inv h\<close> in simp_all)
  moreover have "numbers_inv ?s"
    using master_invD(3) [OF inv] by (auto simp: numbers_inv_def heap)
  moreover have "sizes_inv ?s"
    using master_invD(4) [OF inv] fs unfolding sizes_inv_def pool by auto
  moreover have "nodes_inv ?s" using master_invD(1) [OF inv] by (simp add: nodes_inv_def)
  ultimately show ?thesis by (simp add: master_inv_def)
qed

lemma send_rename_request_ok:
  "nodes_inv s \<Longrightarrow> node_ok s p \<Longrightarrow> \<exists>s'. send_rename_request n path p s = Some s' \<and> sends s s'"
  by (erule (1) node_ok_deref) (simp add: send_rename_request_def)

lemma send_truncate_request_ok:
  "nodes_inv s \<Longrightarrow> node_ok s p \<Longrightarrow> \<exists>s'. send_truncate_request n b sz p s = Some s' \<and> sends s s'"
  by (erule (1) node_ok_deref) (simp add: send_truncate_request_def)

lemma rename_local_file_ok:
  assumes inv: "master_inv s" and fs: "map_find old_path (file_stat_pool s) = Some fs"
    and new: "map_find new_path (file_stat_pool s) = None"
  shows "\<exists>s'. rename_local_file fs new_path s = Some s' \<and>
           file_stat_pool s' = map_set new_path fs (file_stat_pool s) \<and> buffered_files s' = buffered_files s \<and>
           master_inv (s'\<lparr>file_stat_pool := map_erase old_path (file_stat_pool s')\<rparr>) \<and>
           (\<forall>n. opened old_path n s \<longrightarrow> opened new_path n (s'\<lparr>file_stat_pool := map_erase old_path (file_stat_pool s')\<rparr>))"
proof -
  note D = files_invD [OF master_invD(2) [OF inv]] and mv = move_stat_inv [OF assms]
  have ins: "fst (map_insert new_path fs (file_stat_pool s)) = map_set new_path fs (file_stat_pool s)"
    using new D(1) by (simp add: map_insert_eq map_find_None_iff)
  have ne: "old_path \<noteq> new_path" using fs new by auto
  let ?s1 = "s\<lparr>file_stat_pool := map_set new_path fs (file_stat_pool s)\<rparr>"
  show ?thesis
  proof (cases "opened_file_info fs")
    case None
    then show ?thesis
      using mv fs by (intro exI [of _ ?s1]) (auto simp: rename_local_file_def deref_stat_def ins opened_def)
  next
    case (Some a)
    obtain ofi where ofi: "map_find a (file_heap s) = Some ofi" "of_file_status ofi = old_path"
      "map_find (of_file_no ofi) (buffered_files s) = Some a" using D(4) [OF fs Some] by blast
    obtain main where main: "primary_replica_node ofi = Some main" "node_ok s main"
      "\<forall>p\<in>set (of_IOnodes_set ofi). node_ok s p"
      using D(5) [OF ofi(3)] ofi(1) by (auto simp: file_ok_def)
    let ?o = "ofi\<lparr>of_file_status := new_path\<rparr>"
    define s2 where "s2 = ?s1\<lparr>file_heap := map_set a ?o (file_heap s)\<rparr>"
    have n2: "nodes_inv s2" "node_ok s2 = node_ok s"
      using master_invD(1) [OF inv] by (auto simp: s2_def nodes_inv_def node_ok_def)
    obtain s3 where s3: "send_rename_request (of_file_no ofi) new_path main s2 = Some s3" "sends s2 s3"
      using send_rename_request_ok n2 main(2) by metis
    note f3 = sends_fields [OF s3(2)]
    obtain s4 where s4: "send_to_nodes (send_rename_request (of_file_no ofi) new_path) (of_IOnodes_set ofi) s3 = Some s4"
      "sends s3 s4"
      using send_to_nodes_ok [where s = s3 and ps = "of_IOnodes_set ofi"
          and req = "send_rename_request (of_file_no ofi) new_path"] send_rename_request_ok n2 main(3)
      by (auto simp: f3)
    have e4: "sends s2 s4" using sends_trans [OF s3(2) s4(2)] .
    then obtain ms where ms: "s4 = s2\<lparr>sent := sent s2 @ ms\<rparr>" by (auto simp: sends_def)
    have "rename_local_file fs new_path s = Some s4"
      using Some ofi(1) main(1) s3(1) s4(1)
      by (simp add: rename_local_file_def deref_stat_def ins upd_file_def deref_file_def s2_def)
    moreover have "master_inv (s4\<lparr>file_stat_pool := map_erase old_path (file_stat_pool s4)\<rparr>)"
      using mv Some ofi(1) by (simp add: ms s2_def)
    moreover have "opened new_path n (s4\<lparr>file_stat_pool := map_erase old_path (file_stat_pool s4)\<rparr>)"
      if "opened old_path n s" for n
      using that ofi Some fs ne D(1) by (auto simp: opened_def ms s2_def)
    ultimately show ?thesis by (intro exI [of _ s4]) (simp add: ms s2_def)
  qed
qed

section \<open>Registering nodes\<close>

lemma find_by_uri_ok:
  assumes "nodes_inv s"
  shows "set m \<subseteq> set (registered_IOnodes s) \<Longrightarrow>
    find_by_uri uri m s = Some (\<exists>(k, p)\<in>set m. \<exists>ni. deref_node p s = Some ni \<and> ni_uri ni = uri)"
proof (induction m)
  case (Cons kp m)
  obtain k p where kp: "kp = (k, p)" by (cases kp)
  have "map_inv (registered_IOnodes s)" using assms by (simp add: nodes_inv_def)
  moreover have "(k, p) \<in> set (registered_IOnodes s)" using Cons.prems kp by simp
  ultimately have "node_ok s p" unfolding node_ok_def by (blast intro: map_find_in)
  then obtain ni where "deref_node p s = Some ni" using node_ok_deref [OF assms] by blast
  then show ?case using Cons kp by auto
qed simp

lemma add_IOnode_ok:
  assumes inv: "master_inv s" and fresh: "map_find addr (node_heap s) = None"
  shows "\<exists>i s'. add_IOnode addr uri mem handle s = Some (i, s') \<and> master_inv s' \<and>
           (i = -1 \<or> map_find i (registered_IOnodes s) = None) \<and>
           registered_IOnodes s' = (if i = -1 then registered_IOnodes s else map_set i addr (registered_IOnodes s)) \<and>
           (i \<noteq> -1 \<longrightarrow> deref_node addr s' = Some (new_node_info i uri mem handle)) \<and>
           file_stat_pool s' = file_stat_pool s \<and> buffered_files s' = buffered_files s \<and> file_heap s' = file_heap s"
proof -
  note N = master_invD(1) [OF inv]
  let ?g = "get_node_id (map_size (registered_IOnodes s)) (node_ids s)"
  have keep: "master_inv (s\<lparr>node_ids := ids\<rparr>)" if "\<And>k. id_used (node_ids s) k \<Longrightarrow> id_used ids k" for ids
  proof -
    have "file_ok (s\<lparr>node_ids := ids\<rparr>) = file_ok s" by (intro ext) (simp add: file_ok_def node_ok_def)
    then have "files_inv (s\<lparr>node_ids := ids\<rparr>) = files_inv s" by (simp add: files_inv_def)
    moreover have "nodes_inv (s\<lparr>node_ids := ids\<rparr>)" using N that unfolding nodes_inv_def by auto
    ultimately show ?thesis using inv by (simp add: master_inv_def numbers_inv_def sizes_inv_def)
  qed
  have uri: "find_by_uri uri (registered_IOnodes s) (s\<lparr>node_ids := ids\<rparr>) =
      Some (\<exists>(k, p)\<in>set (registered_IOnodes s). \<exists>ni. deref_node p s = Some ni \<and> ni_uri ni = uri)" for ids
  proof -
    have "find_by_uri uri m (s\<lparr>node_ids := ids\<rparr>) = find_by_uri uri m s" for m
      by (induction m) (auto simp: deref_node_def intro!: arg_cong2 [where f = Option.bind] ext)
    then show ?thesis using find_by_uri_ok [OF N, of "registered_IOnodes s"] by simp
  qed
  consider ids where "?g = (-1, ids)" "id_used ids = id_used (node_ids s)"
    | k ids where "?g = (int k, ids)" "k < MAX_IONODE" "\<not> id_used (node_ids s) k"
        "id_used ids = (id_used (node_ids s))(k := True)"
    using get_node_id_cases [of "map_size (registered_IOnodes s)" "node_ids s"] by blast
  then show ?thesis
  proof cases
    case (1 ids)
    then show ?thesis using keep [of ids] by (simp add: add_IOnode_def)
  next
    case g: (2 k ids)
    have new: "map_find (int k) (registered_IOnodes s) = None"
      using N g(3) unfolding nodes_inv_def by (metis nat_int not_None_eq)
    let ?reg = "map_set (int k) addr (registered_IOnodes s)"
    let ?s = "s\<lparr>node_ids := ids, registered_IOnodes := ?reg,
        node_heap := map_set addr (new_node_info (int k) uri mem handle) (node_heap s),
        IOnode_handle := set_insert addr (IOnode_handle s)\<rparr>"
    have ins: "map_insert (int k) addr (registered_IOnodes s) = (?reg, True)"
      using new N by (simp add: map_insert_eq map_find_None_iff nodes_inv_def)
    have ok: "node_ok ?s p" if "node_ok s p" for p
      using that new by (auto simp: node_ok_def) (metis option.distinct(1))
    have "nodes_inv ?s"
      using N new fresh g(2,4) unfolding nodes_inv_def
      by (auto simp: new_node_info_def) (metis option.distinct(1))+
    moreover have "file_ok ?s n a" if "file_ok s n a" for n a
      using that ok by (fastforce simp: file_ok_def)
    then have "files_inv ?s"
      using files_invD [OF master_invD(2) [OF inv]] by (intro files_invI) auto
    ultimately have inv': "master_inv ?s"
      using inv by (simp add: master_inv_def numbers_inv_def sizes_inv_def)
    show ?thesis
    proof (cases "\<exists>(k, p)\<in>set (registered_IOnodes s). \<exists>ni. deref_node p s = Some ni \<and> ni_uri ni = uri")
      case True
      then show ?thesis using g keep [of ids] uri [of ids] by (simp add: add_IOnode_def)
    next
      case False
      then have "add_IOnode addr uri mem handle s = Some (int k, ?s)"
        using g(1) uri [of ids] ins by (simp add: add_IOnode_def)
      then show ?thesis using inv' new by (auto simp: deref_node_def)
    qed
  qed
qed

end
