(* ===== verification/Master_Properties.thy ===== *)
theory Master_Properties
  imports Master_Files
begin

text \<open>
  The request handlers keep the master's invariant, so every state the master reaches from
  its start satisfies it; what a sequence of requests sees of the tables; and the requests
  that run into undefined behaviour.
\<close>

section \<open>Handlers\<close>

lemma open_and_reply_ok:
  assumes "master_inv s" "registered_IOnodes s \<noteq> []" "length (buffered_files s) < MAX_FILE_NUMBER" "open_fits path s"
  shows "\<exists>s'. open_and_reply env h path flag mode s = Some (SUCCESS, s') \<and> master_inv s'"
proof -
  from open_file_ok [OF assms, of env flag mode] obtain n s' where
    o: "open_file env path flag mode s = Some (Inr n, s')" "master_inv s'" "opened path n s'" by blast
  then show ?thesis
    by (auto simp: open_and_reply_def opened_def deref_file_def deref_stat_def)
qed

lemma parse_open_file_ok:
  assumes "master_inv s" "registered_IOnodes s \<noteq> []" "length (buffered_files s) < MAX_FILE_NUMBER" "open_fits path s"
  shows "\<exists>s'. parse_open_file env h path flag mode s = Some (SUCCESS, s') \<and> master_inv s'"
  using open_and_reply_ok [OF assms] assms(1) by (auto simp: parse_open_file_def Let_def split: option.splits)

lemma parse_open_file_inv:
  assumes "master_inv s" "registered_IOnodes s \<noteq> []" "length (buffered_files s) < MAX_FILE_NUMBER"
    "parse_open_file env h path flag mode s = Some (r, s')"
  shows "master_inv s'"
proof (cases "open_fits path s")
  case True
  with parse_open_file_ok [OF assms(1-3), of path env h flag mode] assms(4) show ?thesis by auto
next
  case False
  from open_file_overrun [OF assms(1-3) this] have "open_and_reply env h path fl md s = None" for fl md
    by (simp add: open_and_reply_def)
  then show ?thesis
    using assms(1,4) by (auto simp: parse_open_file_def Let_def split: option.splits if_splits)
qed

lemma recv_file_attr_ok:
  assumes "0 \<le> st_size (fs_status fs)" "st_size (fs_status fs) < 4611686018427387904"
    "st_size attr < 4611686018427387904"
  shows "opened_file_info (recv_file_attr attr fs) = opened_file_info fs"
    "0 \<le> st_size (fs_status (recv_file_attr attr fs))"
    "st_size (fs_status (recv_file_attr attr fs)) < 4611686018427387904"
    "st_size (fs_status (recv_file_attr attr fs)) = max (st_size (fs_status fs)) (st_size attr)"
  using assms by (auto simp: recv_file_attr_def Let_def)

text \<open>What the invariant gives for an open file.\<close>

lemma open_fileE:
  assumes "master_inv s" "map_find n (buffered_files s) = Some a"
  obtains ofi fs main ni where "deref_file a s = Some ofi" "of_file_no ofi = n" "primary_replica_node ofi = Some main"
    "node_ok s main" "deref_node main s = Some ni" "\<forall>p\<in>set (of_IOnodes_set ofi). node_ok s p"
    "deref_stat (of_file_status ofi) s = Some fs" "opened_file_info fs = Some a"
    "0 \<le> st_size (fs_status fs)" "st_size (fs_status fs) < 4611686018427387904"
proof -
  from files_invD(5) [OF master_invD(2) [OF assms(1)] assms(2)] obtain ofi fs main where
    o: "map_find a (file_heap s) = Some ofi" "of_file_no ofi = n" "primary_replica_node ofi = Some main"
      "node_ok s main" "\<forall>p\<in>set (of_IOnodes_set ofi). node_ok s p"
      "map_find (of_file_status ofi) (file_stat_pool s) = Some fs" "opened_file_info fs = Some a" by (rule file_okE)
  moreover obtain ni where "deref_node main s = Some ni" using node_ok_deref [OF master_invD(1) [OF assms(1)] o(4)] .
  moreover have "0 \<le> st_size (fs_status fs)" "st_size (fs_status fs) < 4611686018427387904"
    using master_invD(4) [OF assms(1)] o(6) by (auto simp: sizes_inv_def)
  ultimately show ?thesis by (intro that) (auto simp: deref_file_def deref_stat_def)
qed

lemma recv_attr_step:
  assumes "master_inv s" "map_find n (buffered_files s) = Some a" "deref_file a s = Some ofi"
    "st_size attr < 4611686018427387904"
  shows "\<exists>s' fs. upd_stat (of_file_status ofi) (recv_file_attr attr) s = Some s' \<and> master_inv s' \<and>
           deref_stat (of_file_status ofi) s = Some fs \<and>
           s' = s\<lparr>file_stat_pool := map_set (of_file_status ofi) (recv_file_attr attr fs) (file_stat_pool s)\<rparr>"
proof -
  from assms(1,2) obtain ofi' fs main ni where "deref_file a s = Some ofi'"
    "deref_stat (of_file_status ofi') s = Some fs" "opened_file_info fs = Some a"
    "0 \<le> st_size (fs_status fs)" "st_size (fs_status fs) < 4611686018427387904" by (rule open_fileE)
  then show ?thesis
    using upd_stat_ok [OF assms(1), of "of_file_status ofi" fs "recv_file_attr attr"]
      recv_file_attr_ok [of fs attr] assms(3,4) by (auto simp: deref_stat_def)
qed

lemma parse_meta_update_ok:
  assumes "master_inv s" "st_size attr < 4611686018427387904"
  shows "\<exists>r s'. parse_meta_update n attr s = Some (r, s') \<and> master_inv s'"
proof (cases "map_find n (buffered_files s)")
  case (Some a)
  from assms(1) Some obtain ofi where ofi: "deref_file a s = Some ofi" by (rule open_fileE)
  then show ?thesis using recv_attr_step [OF assms(1) Some ofi assms(2)] Some
    by (auto simp: parse_meta_update_def)
qed (use assms(1) in \<open>simp add: parse_meta_update_def\<close>)

lemma parse_read_file_inv:
  assumes "master_inv s" "parse_read_file h n start sz s = Some (r, s')"
  shows "master_inv s'"
  using assms by (auto simp: parse_read_file_def bind_eq_Some_conv split: option.splits)

lemma parse_write_file_inv:
  assumes inv: "master_inv s" and attr: "st_size attr < 4611686018427387904"
    and w: "parse_write_file h n attr start sz s = Some (r, s')"
  shows "master_inv s'"
proof (cases "map_find n (buffered_files s)")
  case None
  then show ?thesis using inv w by (auto simp: parse_write_file_def)
next
  case (Some a)
  from inv Some obtain ofi where ofi: "deref_file a s = Some ofi" by (rule open_fileE)
  from recv_attr_step [OF inv Some ofi attr] obtain s1 fs where
    s1: "upd_stat (of_file_status ofi) (recv_file_attr attr) s = Some s1" "master_inv s1"
      "s1 = s\<lparr>file_stat_pool := map_set (of_file_status ofi) (recv_file_attr attr fs) (file_stat_pool s)\<rparr>" by blast
  have "map_find a (file_heap s1) = Some ofi" using ofi s1(3) by (simp add: deref_file_def)
  note up = upd_file_ok [OF s1(2) this, of "\<lambda>ofi. ofi\<lparr>of_block_list := bl\<rparr>" for bl]
  from w Some ofi s1(1) obtain bl s2 where
    "upd_file a (\<lambda>ofi. ofi\<lparr>of_block_list := bl\<rparr>) s1 = Some s2" "\<exists>m. s' = send h m s2"
    by (auto simp: parse_write_file_def bind_eq_Some_conv)
  then show ?thesis using up [of bl] by auto
qed

lemma parse_flush_close_ok:
  assumes "master_inv s"
  shows "\<exists>r s'. parse_flush_file h n s = Some (r, s') \<and> master_inv s'"
    "\<exists>r s'. parse_close_file h n s = Some (r, s') \<and> master_inv s'"
proof -
  have "(\<exists>r s'. parse_flush_file h n s = Some (r, s') \<and> master_inv s') \<and>
        (\<exists>r s'. parse_close_file h n s = Some (r, s') \<and> master_inv s')"
  proof (cases "map_find n (buffered_files s)")
    case None
    then show ?thesis using assms by (simp add: parse_flush_file_def parse_close_file_def)
  next
    case (Some a)
    from assms Some obtain ofi main ni where "deref_file a s = Some ofi" "primary_replica_node ofi = Some main"
      "deref_node main s = Some ni" by (rule open_fileE)
    then show ?thesis using Some assms by (simp add: parse_flush_file_def parse_close_file_def Let_def)
  qed
  then show "\<exists>r s'. parse_flush_file h n s = Some (r, s') \<and> master_inv s'"
    "\<exists>r s'. parse_close_file h n s = Some (r, s') \<and> master_inv s'" by blast+
qed

lemma parse_remove_ok:
  assumes "master_inv s"
  shows "\<exists>r s'. parse_unlink h path s = Some (r, s') \<and> master_inv s'"
    "\<exists>r s'. parse_rmdir h path s = Some (r, s') \<and> master_inv s'"
  using remove_file_ok [OF assms, of path]
  by (auto simp: parse_unlink_def parse_rmdir_def Let_def)

lemma parse_mkdir_ok:
  assumes "master_inv s"
  shows "\<exists>r s'. parse_mkdir env h path md s = Some (r, s') \<and> master_inv s'"
  using create_new_file_stat_ok [OF assms, of env path NOT_EXIST "md OR S_IFDIR"]
  by (auto simp: parse_mkdir_def Let_def)

lemma parse_rename_ok:
  assumes inv: "master_inv s" and ne: "old_path \<noteq> new_path \<or> m \<noteq> MYSELF"
  shows "\<exists>s'. parse_rename h old_path new_path m s = Some (SUCCESS, s') \<and> master_inv s'"
proof (cases "m = MYSELF")
  case True
  from remove_file_ok [OF inv, of new_path] obtain r s1 where
    s1: "remove_file new_path s = Some (r, s1)" "master_inv s1"
      "file_stat_pool s1 = map_erase new_path (file_stat_pool s)" by blast
  have mi: "map_inv (file_stat_pool s)" using files_invD(1) master_invD(2) inv by blast
  show ?thesis
  proof (cases "map_find old_path (file_stat_pool s)")
    case None
    then show ?thesis using True s1 by (simp add: parse_rename_def)
  next
    case (Some fs)
    have "map_find old_path (file_stat_pool s1) = Some fs" "map_find new_path (file_stat_pool s1) = None"
      using Some True ne s1(3) mi by auto
    from rename_local_file_ok [OF s1(2) this] obtain s2 where
      "rename_local_file fs new_path s1 = Some s2"
      "master_inv (s2\<lparr>file_stat_pool := map_erase old_path (file_stat_pool s2)\<rparr>)" by blast
    then show ?thesis using True Some s1 \<open>map_find old_path (file_stat_pool s1) = Some fs\<close>
      by (simp add: parse_rename_def)
  qed
next
  case False
  show ?thesis
  proof (cases "map_find old_path (file_stat_pool s)")
    case (Some fs)
    then show ?thesis
      using False upd_stat_ok [OF inv Some, of "\<lambda>fs. fs\<lparr>external_flag := RENAMED, external_name := new_path\<rparr>"]
        master_invD(4) [OF inv] by (simp add: parse_rename_def sizes_inv_def)
  qed (use False inv in \<open>simp add: parse_rename_def\<close>)
qed

text \<open>Renaming an existing path to itself follows a dangling iterator.\<close>

lemma parse_rename_self:
  assumes "master_inv s" "map_find p (file_stat_pool s) \<noteq> None"
  shows "parse_rename h p p MYSELF s = None"
proof -
  from remove_file_ok [OF assms(1), of p] obtain r s1 where
    s1: "remove_file p s = Some (r, s1)" "file_stat_pool s1 = map_erase p (file_stat_pool s)" by blast
  have "map_inv (file_stat_pool s)" using files_invD(1) master_invD(2) assms(1) by blast
  then have "map_find p (file_stat_pool s1) = None" using s1(2) by simp
  then show ?thesis using s1(1) assms(2) by (simp add: parse_rename_def)
qed

lemma parse_rename_unknown:
  assumes "master_inv s" "map_find p (file_stat_pool s) = None"
  shows "\<exists>s'. parse_rename h p q MYSELF s = Some (SUCCESS, s') \<and> master_inv s'"
  using remove_file_ok [OF assms(1), of q] assms(2) by (auto simp: parse_rename_def)

lemma parse_rename_inv:
  assumes "master_inv s" "parse_rename h p q m s = Some (r, s')"
  shows "master_inv s'"
proof (cases "p = q \<and> m = MYSELF")
  case True
  then have "map_find p (file_stat_pool s) = None"
    using parse_rename_self [OF assms(1), of p h] assms(2) by (cases "map_find p (file_stat_pool s)") auto
  from parse_rename_unknown [OF assms(1) this, of h q] True assms(2) show ?thesis by auto
qed (use parse_rename_ok [OF assms(1), of p q m h] assms(2) in auto)

lemma parse_rename_migrating_ok:
  assumes inv: "master_inv s"
  shows "\<exists>s'. parse_rename_migrating h path m s = Some (SUCCESS, s') \<and> master_inv s'"
proof -
  let ?s = "s\<lparr>file_stat_pool := fst (map_insert path Master_file_stat (file_stat_pool s))\<rparr>"
  note i = insert_stat_ok [OF inv, of path]
  from i(2) obtain fs where fs: "map_find path (file_stat_pool ?s) = Some fs" by auto
  show ?thesis
    using upd_stat_ok [OF i(1) fs, of "\<lambda>fs. fs\<lparr>external_flag := EXTERNAL, external_master := m\<rparr>"]
      master_invD(4) [OF i(1)] fs by (simp add: parse_rename_migrating_def sizes_inv_def)
qed

lemma parse_truncate_inv:
  assumes inv: "master_inv s" and sz: "0 \<le> sz" "sz < 4611686018427387904"
    and tr: "parse_truncate_file h path sz s = Some (r, s')"
  shows "master_inv s'"
proof (cases "\<exists>fs a. map_find path (file_stat_pool s) = Some fs \<and> \<not> is_external fs \<and> opened_file_info fs = Some a")
  case False
  then show ?thesis
    using inv tr by (auto simp: parse_truncate_file_def bind_eq_Some_conv split: option.splits if_splits)
next
  case True
  then obtain fs a where fs: "map_find path (file_stat_pool s) = Some fs" "\<not> is_external fs"
    "opened_file_info fs = Some a" by blast
  from files_invD(4) [OF master_invD(2) [OF inv] fs(1,3)] obtain ofi where
    ofi: "map_find a (file_heap s) = Some ofi" "of_file_status ofi = path"
      "map_find (of_file_no ofi) (buffered_files s) = Some a" by blast
  from inv ofi(3) obtain ofi' main where "deref_file a s = Some ofi'" "primary_replica_node ofi' = Some main"
    "node_ok s main" "\<forall>p\<in>set (of_IOnodes_set ofi'). node_ok s p" by (rule open_fileE)
  then have main: "primary_replica_node ofi = Some main" "node_ok s main" "\<forall>p\<in>set (of_IOnodes_set ofi). node_ok s p"
    using ofi(1) by (auto simp: deref_file_def)
  let ?g = "\<lambda>fs. fs\<lparr>fs_status := (fs_status fs)\<lparr>st_size := sz\<rparr>\<rparr>"
  have fin: "master_inv s2" if "master_inv s1" "file_stat_pool s1 = file_stat_pool s" "upd_stat path ?g s1 = Some s2" for s1 s2
    using upd_stat_ok [OF that(1), of path fs ?g] that(2,3) fs(1) sz by simp
  show ?thesis
  proof (cases "st_size (fs_status fs) > sz")
    case False
    then show ?thesis
      using tr fs ofi fin [of s] inv
      by (auto simp: parse_truncate_file_def deref_file_def deref_stat_def bind_eq_Some_conv)
  next
    case True
    let ?b = "get_block_start_point sz" and ?n = "of_file_no ofi"
    note N = master_invD(1) [OF inv]
    from send_truncate_request_ok [OF N main(2)] obtain s1 where
      s1: "send_truncate_request ?n ?b sz main s = Some s1" "sends s s1" by blast
    note f1 = sends_fields [OF s1(2)]
    obtain s2 where s2: "send_to_nodes (send_truncate_request ?n ?b sz) (of_IOnodes_set ofi) s1 = Some s2" "sends s1 s2"
      using send_to_nodes_ok [where s = s1 and ps = "of_IOnodes_set ofi" and req = "send_truncate_request ?n ?b sz"]
        send_truncate_request_ok N main(3) by (auto simp: f1)
    note f2 = sends_fields [OF s2(2)]
    have "map_find a (file_heap s2) = Some ofi" "master_inv s2" using ofi(1) inv by (simp_all add: f1 f2)
    from upd_file_ok [OF this(2,1), of "\<lambda>ofi. ofi\<lparr>of_block_list := truncate_blocks_loop (?b + BLOCK_SIZE) sz (of_block_list ofi)\<rparr>"]
    obtain s3 where s3: "upd_file a (\<lambda>ofi. ofi\<lparr>of_block_list := truncate_blocks_loop (?b + BLOCK_SIZE) sz (of_block_list ofi)\<rparr>) s2 = Some s3"
      "master_inv s3" "file_stat_pool s3 = file_stat_pool s" by (simp add: f1 f2)
    show ?thesis
      using tr fs ofi True main(1) s1(1) s2(1) s3 fin [OF s3(2,3)]
      by (auto simp: parse_truncate_file_def deref_file_def deref_stat_def bind_eq_Some_conv Let_def)
  qed
qed

section \<open>Node failures\<close>

text \<open>A node on which no open file lives.\<close>

definition node_free :: "nat \<Rightarrow> master \<Rightarrow> bool" where
  "node_free p s \<longleftrightarrow> node_ok s p \<and> (\<forall>ni. deref_node p s = Some ni \<longrightarrow> stored_files ni = []) \<and>
     (\<forall>a ofi. map_find a (file_heap s) = Some ofi \<longrightarrow>
        primary_replica_node ofi \<noteq> Some p \<and> p \<notin> set (of_IOnodes_set ofi))"

lemma send_remove_request_sends:
  "send_remove_IOnode_request p m s = Some s' \<Longrightarrow> sends s s'"
  by (induction p m s rule: send_remove_IOnode_request.induct)
     (auto simp: bind_eq_Some_conv split: if_splits intro: sends_trans [OF sends_send])

lemma unregister_inv:
  assumes inv: "master_inv s" and free: "node_free p s" and u: "unregister_IOnode p s = Some s'"
  shows "master_inv s'" "\<not> node_ok s' p"
proof -
  note N = master_invD(1) [OF inv] and D = files_invD [OF master_invD(2) [OF inv]]
  obtain ni where ni: "deref_node p s = Some ni" using node_ok_deref [OF N] free by (auto simp: node_free_def)
  obtain k where k: "map_find k (registered_IOnodes s) = Some p" using free by (auto simp: node_free_def node_ok_def)
  have id: "ni_id ni = k" using N k ni unfolding nodes_inv_def deref_node_def by fastforce
  have mi: "map_inv (registered_IOnodes s)" "map_inv (node_heap s)" using N by (auto simp: nodes_inv_def)
  have uniq: "q = p \<longleftrightarrow> j = k" if "map_find j (registered_IOnodes s) = Some q" for j q
    using that k N unfolding nodes_inv_def by (metis option.inject)
  obtain c where s': "s' = s\<lparr>IOnode_handle := set_erase p (IOnode_handle s), current_IOnode := c,
      registered_IOnodes := map_erase k (registered_IOnodes s), node_heap := map_erase p (node_heap s)\<rparr>"
    and c: "\<And>j. c = Some j \<Longrightarrow> j \<noteq> k \<and> map_find j (registered_IOnodes s) \<noteq> None"
  proof -
    have "map_size (registered_IOnodes s) \<noteq> 0" using k by (auto simp: map_size_def)
    then obtain j where j: "current_IOnode s = Some j" "map_find j (registered_IOnodes s) \<noteq> None"
      using u ni by (auto simp: unregister_IOnode_def remove_IOnode_def deref_node_def bind_eq_Some_conv)
    let ?c = "if j = k then map_next k (registered_IOnodes s) else Some j"
    have "map_next k (registered_IOnodes s) \<noteq> Some k"
      using lower_bound_spec [OF mi(1), of "k + 1"]
      by (auto simp: map_next_def split: list.splits) (metis (mono_tags, lifting) filter_eq_Cons_iff case_prod_conv zless_add1_eq less_irrefl not_less)
    then show ?thesis
      using u ni j id \<open>map_size (registered_IOnodes s) \<noteq> 0\<close> map_next_key [OF mi(1), of k]
      by (intro that [of ?c]) (auto simp: unregister_IOnode_def remove_IOnode_def deref_node_def split: if_splits)
  qed
  have ok: "node_ok s' q" if "node_ok s q" "q \<noteq> p" for q
    using that uniq mi by (auto simp: node_ok_def s')
  have "nodes_inv s'"
    using N c uniq mi unfolding nodes_inv_def s' by auto
  moreover have "file_ok s' n a" if "file_ok s n a" for n a
  proof -
    from that obtain ofi fs main where o: "map_find a (file_heap s) = Some ofi" "of_file_no ofi = n"
      "primary_replica_node ofi = Some main" "node_ok s main" "\<forall>p\<in>set (of_IOnodes_set ofi). node_ok s p"
      "map_find (of_file_status ofi) (file_stat_pool s) = Some fs" "opened_file_info fs = Some a" by (rule file_okE)
    moreover have "main \<noteq> p" "p \<notin> set (of_IOnodes_set ofi)" using free o(1,3) by (auto simp: node_free_def)
    ultimately show ?thesis using ok unfolding file_ok_def by (fastforce simp: s')
  qed
  then have "files_inv s'" using D by (intro files_invI) (auto simp: s')
  ultimately show "master_inv s'" using inv by (simp add: master_inv_def numbers_inv_def sizes_inv_def s')
  show "\<not> node_ok s' p" using uniq mi by (auto simp: node_ok_def s')
qed

lemma IOnode_failure_inv:
  assumes inv: "master_inv s" and free: "node_free p s" and u: "IOnode_failure_handler p s = Some s'"
  shows "master_inv s'" "\<not> node_ok s' p"
proof -
  from u obtain s1 s2 where s: "send_remove_IOnode_request p (registered_IOnodes s) s = Some s1"
    "recreate_replicas p s1 = Some s2" "unregister_IOnode p s2 = Some s'"
    by (auto simp: IOnode_failure_handler_def bind_eq_Some_conv)
  note f = sends_fields [OF send_remove_request_sends [OF s(1)]]
  have "node_free p s1" using free by (simp add: node_free_def f)
  moreover from this have "s2 = s1"
    using s(2) by (auto simp: recreate_replicas_def node_free_def bind_eq_Some_conv split: if_splits)
  moreover have "master_inv s1" using inv by (simp add: f)
  ultimately show "master_inv s'" "\<not> node_ok s' p" using unregister_inv s(3) by blast+
qed

end
