(* ===== verification/Master_System.thy ===== *)
theory Master_System
  imports Master_Properties Master_Naming
begin

text \<open>
  The master as a transition system: a state is reached from the start by requests. Every
  reachable state satisfies the invariant; what the requests do to names, numbers and sizes;
  and the requests that end in undefined behaviour or in a table entry nobody owns.
\<close>

section \<open>The master as a transition system\<close>

definition request_ok :: "nat \<Rightarrow> int \<Rightarrow> master_request \<Rightarrow> master \<Rightarrow> bool" where
  "request_ok addr h rq s =
     (case rq of
        Register mem uri \<Rightarrow> map_find addr (node_heap s) = None
      | Open_file path flag mode \<Rightarrow>
          registered_IOnodes s \<noteq> [] \<and> length (buffered_files s) < MAX_FILE_NUMBER
      | Write_file n st start sz \<Rightarrow> st_size st < 4611686018427387904
      | Update_meta n st \<Rightarrow> st_size st < 4611686018427387904
      | Truncate path sz \<Rightarrow> 0 \<le> sz \<and> sz < 4611686018427387904
      | Node_failure \<Rightarrow>
          (\<forall>p. get_node_info_from_handle h (IOnode_handle s) s = Some (Some p) \<longrightarrow> node_free p s)
      | IOnode_failure i \<Rightarrow> (\<forall>p. map_find i (registered_IOnodes s) = Some p \<longrightarrow> node_free p s)
      | _ \<Rightarrow> True)"

lemma handle_request_keeps:
  assumes inv: "master_inv s" and ok: "request_ok addr h rq s"
    and r: "handle_request env addr h rq s = Some (r, s')"
  shows "master_inv s'"
proof (cases rq)
  case (Register mem uri)
  then have "map_find addr (node_heap s) = None" using ok by (simp add: request_ok_def)
  from add_IOnode_ok [OF inv this, of uri mem h] r Register show ?thesis
    by (auto simp: parse_register_IOnode_def)
next
  case (Open_file path flag mode)
  then show ?thesis using parse_open_file_inv [OF inv, of env h path flag mode r s'] ok r by (auto simp: request_ok_def)
next
  case (Read_file n start sz)
  then show ?thesis using parse_read_file_inv [OF inv] r by simp
next
  case (Write_file n st start sz)
  then show ?thesis using parse_write_file_inv [OF inv] ok r by (simp add: request_ok_def)
next
  case (Update_meta n st)
  then show ?thesis using parse_meta_update_ok [OF inv, of st n] ok r by (auto simp: request_ok_def)
next
  case (Flush_file n)
  then show ?thesis using parse_flush_close_ok(1) [OF inv, of h n] r by auto
next
  case (Close_file n)
  then show ?thesis using parse_flush_close_ok(2) [OF inv, of h n] r by auto
next
  case (Unlink path)
  then show ?thesis using parse_remove_ok(1) [OF inv, of h path] r by auto
next
  case (Rm_dir path)
  then show ?thesis using parse_remove_ok(2) [OF inv, of h path] r by auto
next
  case (Mkdir path md)
  then show ?thesis using parse_mkdir_ok [OF inv, of env h path md] r by auto
next
  case (Rename p q m)
  then show ?thesis using parse_rename_inv [OF inv, of h p q m] r by auto
next
  case (Rename_migrating path m)
  then show ?thesis using parse_rename_migrating_ok [OF inv, of h path m] r by auto
next
  case (Truncate path sz)
  then show ?thesis using parse_truncate_inv [OF inv] ok r by (auto simp: request_ok_def)
next
  case Node_failure
  then show ?thesis
    using IOnode_failure_inv(1) [OF inv] ok inv r
    by (auto simp: request_ok_def parse_node_failure_def bind_eq_Some_conv split: option.splits)
next
  case (IOnode_failure i)
  then show ?thesis
    using IOnode_failure_inv(1) [OF inv] ok inv r
    by (auto simp: request_ok_def parse_IOnode_failure_def bind_eq_Some_conv split: option.splits)
qed (use inv r in \<open>auto simp: parse_new_client_def parse_attr_def parse_readdir_def parse_access_def
       parse_close_client_def bind_eq_Some_conv split: option.splits if_splits\<close>)

text \<open>The start: the tables are empty but for the files found in the file system below.\<close>

definition master_init :: "string \<Rightarrow> string \<Rightarrow> c_int \<Rightarrow> c_int \<Rightarrow> (string, master_file_stat) std_map \<Rightarrow> master" where
  "master_init mount backup number total_masters pool =
     \<lparr>registered_IOnodes = [], node_heap = [], file_stat_pool = pool, buffered_files = [], file_heap = [],
      file_fresh = 0, IOnode_handle = [], node_ids = id_pool_init, file_nos = id_pool_init,
      mount_point = mount, backup_point = backup, master_number = number,
      master_total_size = total_masters, current_IOnode = None, sent = [], remote_tasks = [], backups = []\<rparr>"

definition stored_pool :: "(string, master_file_stat) std_map \<Rightarrow> bool" where
  "stored_pool pool \<longleftrightarrow> map_inv pool \<and>
     (\<forall>path fs. map_find path pool = Some fs \<longrightarrow> opened_file_info fs = None \<and>
        0 \<le> st_size (fs_status fs) \<and> st_size (fs_status fs) < 4611686018427387904)"

lemma master_init_inv: "stored_pool pool \<Longrightarrow> master_inv (master_init mnt bak no tot pool)"
  by (auto simp: master_inv_def nodes_inv_def files_inv_def numbers_inv_def sizes_inv_def stored_pool_def
      master_init_def file_nos_inv_def used_ids_def id_pool_init_def)

inductive master_reachable :: "master \<Rightarrow> bool" where
  start: "stored_pool pool \<Longrightarrow> master_reachable (master_init mnt bak no tot pool)"
| request: "master_reachable s \<Longrightarrow> request_ok addr h rq s \<Longrightarrow>
    handle_request env addr h rq s = Some (r, s') \<Longrightarrow> master_reachable s'"

lemma reachable_inv: "master_reachable s \<Longrightarrow> master_inv s"
  by (induction rule: master_reachable.induct) (auto intro: master_init_inv handle_request_keeps)

section \<open>Names and numbers\<close>

text \<open>Under the invariant, whether a path is open under a number is decided by two tables.\<close>

lemma opened_iff:
  assumes "files_inv s"
  shows "opened path n s \<longleftrightarrow> (\<exists>a fs. map_find n (buffered_files s) = Some a \<and>
           map_find path (file_stat_pool s) = Some fs \<and> opened_file_info fs = Some a)"
proof
  assume "\<exists>a fs. map_find n (buffered_files s) = Some a \<and>
           map_find path (file_stat_pool s) = Some fs \<and> opened_file_info fs = Some a"
  then obtain a fs where a: "map_find n (buffered_files s) = Some a"
    "map_find path (file_stat_pool s) = Some fs" "opened_file_info fs = Some a" by blast
  from files_invD(4) [OF assms a(2,3)] obtain ofi where
    ofi: "map_find a (file_heap s) = Some ofi" "of_file_status ofi = path" by blast
  moreover have "of_file_no ofi = n" using files_invD(5) [OF assms a(1)] ofi(1) by (auto simp: file_ok_def)
  ultimately show "opened path n s" using a by (auto simp: opened_def)
qed (auto simp: opened_def)

lemma opened_path_unique: "opened p n s \<Longrightarrow> opened q n s \<Longrightarrow> p = q"
  unfolding opened_def by (metis option.inject)

lemma rename_moves:
  assumes inv: "master_inv s" and ne: "p \<noteq> q" and fs: "map_find p (file_stat_pool s) = Some fs"
  shows "\<exists>s'. parse_rename h p q MYSELF s = Some (SUCCESS, s') \<and> master_inv s' \<and>
           map_find p (file_stat_pool s') = None \<and> map_find q (file_stat_pool s') = Some fs \<and>
           (\<forall>x. x \<noteq> p \<and> x \<noteq> q \<longrightarrow> map_find x (file_stat_pool s') = map_find x (file_stat_pool s)) \<and>
           (\<forall>n. opened p n s \<longrightarrow> opened q n s')"
proof -
  from remove_file_ok [OF inv, of q] obtain r s1 where
    s1: "remove_file q s = Some (r, s1)" "master_inv s1" "file_stat_pool s1 = map_erase q (file_stat_pool s)"
      "\<forall>n. map_find n (buffered_files s1) = (if opened q n s then None else map_find n (buffered_files s))" by blast
  note F = master_invD(2) [OF inv] and F1 = master_invD(2) [OF s1(2)]
  have mi: "map_inv (file_stat_pool s)" using files_invD(1) [OF F] .
  have p1: "map_find p (file_stat_pool s1) = Some fs" "map_find q (file_stat_pool s1) = None"
    using fs ne s1(3) mi by auto
  from rename_local_file_ok [OF s1(2) p1] obtain s2 where
    s2: "rename_local_file fs q s1 = Some s2" "file_stat_pool s2 = map_set q fs (file_stat_pool s1)"
      "master_inv (s2\<lparr>file_stat_pool := map_erase p (file_stat_pool s2)\<rparr>)"
      "\<forall>n. opened p n s1 \<longrightarrow> opened q n (s2\<lparr>file_stat_pool := map_erase p (file_stat_pool s2)\<rparr>)" by blast
  let ?s2 = "s2\<lparr>file_stat_pool := map_erase p (file_stat_pool s2)\<rparr>"
  have "opened p n s1" if "opened p n s" for n
  proof -
    have "\<not> opened q n s" using that ne opened_path_unique by blast
    then show ?thesis using that s1(4) p1(1) fs unfolding opened_iff [OF F] opened_iff [OF F1] by auto
  qed
  moreover have "opened q n (send h m ?s2) = opened q n ?s2" for n m by (simp add: opened_def send_def)
  moreover have "parse_rename h p q MYSELF s = Some (SUCCESS, send h [F_int SUCCESS] ?s2)"
    using fs s1(1) p1(1) s2(1) by (simp add: parse_rename_def)
  moreover have "map_find x (file_stat_pool ?s2) =
      (if x = p then None else if x = q then Some fs else map_find x (file_stat_pool s))" for x
    using mi s1(3) s2(2) by auto
  ultimately show ?thesis using s2(3,4) ne by (intro exI [of _ "send h [F_int SUCCESS] ?s2"]) auto
qed

section \<open>Round robin\<close>

fun next_IOnodes :: "nat \<Rightarrow> master \<Rightarrow> (nat list \<times> master) option" where
  "next_IOnodes 0 s = Some ([], s)"
| "next_IOnodes (Suc n) s =
     do { (p, s1) \<leftarrow> get_next_IOnode s; q \<leftarrow> p; (ps, s2) \<leftarrow> next_IOnodes n s1; Some (q # ps, s2) }"

lemma map_next_suffix:
  assumes "map_inv (xs @ (k, v) # ys)"
  shows "map_next k (xs @ (k, v) # ys) = (case ys of [] \<Rightarrow> None | (k', _) # _ \<Rightarrow> Some k')"
proof -
  have "sorted_wrt (<) (map fst (xs @ (k, v) # ys))" using assms by (simp add: map_inv_def)
  then have "\<forall>x\<in>set xs. fst x < k" "\<forall>x\<in>set ys. k < fst x" by (auto simp: sorted_wrt_append)
  then have "filter (\<lambda>(k', _). k + 1 \<le> k') xs = []" "filter (\<lambda>(k', _). k + 1 \<le> k') ys = ys"
    by (auto simp: filter_empty_conv intro!: filter_True)
  then show ?thesis by (simp add: map_next_def lower_bound_spec [OF assms])
qed

lemma next_IOnodes_suffix:
  assumes "map_inv (registered_IOnodes s)" "registered_IOnodes s = xs @ (k, p) # ys"
    "current_IOnode s = Some k \<or> current_IOnode s = None \<and> xs = []"
  shows "next_IOnodes (Suc (length ys)) s = Some (p # map snd ys, s\<lparr>current_IOnode := None\<rparr>)"
  using assms
proof (induction ys arbitrary: xs k p s)
  case Nil
  have f: "map_find k (registered_IOnodes s) = Some p" using Nil.prems(1,2) by (auto intro: map_find_in)
  have "get_next_IOnode s = Some (Some p, s\<lparr>current_IOnode := None\<rparr>)"
    using Nil.prems f map_next_suffix [of xs k p "[]"]
    by (auto simp: get_next_IOnode_def Let_def split: list.splits)
  then show ?case by simp
next
  case (Cons kp ys)
  obtain k' p' where kp: "kp = (k', p')" by (cases kp)
  let ?s1 = "s\<lparr>current_IOnode := Some k'\<rparr>"
  have f: "map_find k (registered_IOnodes s) = Some p" using Cons.prems(1,2) by (auto intro: map_find_in)
  have g: "get_next_IOnode s = Some (Some p, ?s1)"
    using Cons.prems f map_next_suffix [of xs k p "kp # ys"] kp
    by (auto simp: get_next_IOnode_def Let_def split: list.splits)
  have "next_IOnodes (Suc (length ys)) ?s1 = Some (p' # map snd ys, ?s1\<lparr>current_IOnode := None\<rparr>)"
    using Cons.prems kp by (intro Cons.IH [of _ "xs @ [(k, p)]" k']) auto
  then have "next_IOnodes (Suc (Suc (length ys))) s =
      Some (p # p' # map snd ys, ?s1\<lparr>current_IOnode := None\<rparr>)"
    using g by (subst next_IOnodes.simps(2)) (simp del: next_IOnodes.simps)
  then show ?case using kp by simp
qed

section \<open>Requests that go wrong\<close>

lemma get_next_pool_indep:
  "get_next_IOnode s = Some (p, s1) \<Longrightarrow> file_heap s1 = file_heap s \<and> buffered_files s1 = buffered_files s"
  by (auto simp: get_next_IOnode_def Let_def bind_eq_Some_conv split: list.splits)

lemma recreate_without_replica:
  assumes "registered_IOnodes s \<noteq> []" "deref_node p s = Some ni" "stored_files ni = n # rest"
    "map_find n (buffered_files s) = Some a" "deref_file a s = Some ofi"
    "primary_replica_node ofi = Some p" "of_IOnodes_set ofi = []"
  shows "recreate_replicas p s = None"
proof (cases "map_size (registered_IOnodes s) = 1")
  case True
  then show ?thesis
    using assms by (simp add: recreate_replicas_def upd_file_def deref_file_def set_begin_def set_erase_def)
next
  case False
  have loop: "replace_IOnode_loop [] p s = get_next_IOnode s"
    by (subst replace_IOnode_loop.simps) (auto simp: bind_eq_Some_conv split: option.splits)
  have "recreate_replica p n s = None"
  proof (cases "get_next_IOnode s")
    case None
    then show ?thesis
      using assms loop by (simp add: recreate_replica_def allocate_replace_IOnode_def NUM_OF_REPLICA_def u64_def)
  next
    case (Some ps)
    then obtain q s1 where q: "get_next_IOnode s = Some (Some q, s1)"
      using assms(1) by (cases ps) (auto simp: get_next_IOnode_def Let_def bind_eq_Some_conv split: list.splits)
    then show ?thesis
      using assms loop get_next_pool_indep [OF q]
      by (simp add: recreate_replica_def allocate_replace_IOnode_def NUM_OF_REPLICA_def u64_def
          upd_file_def deref_file_def set_begin_def set_erase_def)
  qed
  then show ?thesis using False assms(2,3) by (simp add: recreate_replicas_def)
qed

lemma open_new_without_nodes:
  assumes inv: "master_inv s" and reg: "registered_IOnodes s = []" and new: "map_find path (file_stat_pool s) = None"
    and room: "length (buffered_files s) < MAX_FILE_NUMBER"
  shows "\<exists>n s' a. open_file env path flag mode s = Some (Inl Runtime_error, s') \<and>
           map_find n (buffered_files s') = Some a \<and> \<not> id_used (file_nos s') (nat n)"
proof -
  obtain k nos where k: "get_file_no (file_nos s) = (int k, nos)" "map_find (int k) (buffered_files s) = None"
    "file_nos_inv (insert k (nat ` map_keys (buffered_files s))) nos"
    using get_file_no_ok [OF inv] room by auto
  obtain s2 fs where s2: "create_new_file_stat env path NOT_EXIST (S_IFREG OR mode) s = Some s2" "master_inv s2"
    "map_find path (file_stat_pool s2) = Some fs" "opened_file_info fs = None"
    "registered_IOnodes s2 = registered_IOnodes s" "buffered_files s2 = buffered_files s"
    using create_new_file_stat_ok [OF inv, of env path NOT_EXIST "S_IFREG OR mode"] new by auto
  have c1: "create_new_file_stat env path NOT_EXIST (S_IFREG OR mode) (s\<lparr>file_nos := nos\<rparr>) = Some (s2\<lparr>file_nos := nos\<rparr>)"
    using s2(1) by (simp add: create_new_file_stat_nos)
  have "k < MAX_FILE_NUMBER" using k(3) by (auto simp: file_nos_inv_def used_ids_def)
  then have rel: "release_file_no (int k) nos = Some (nos\<lparr>id_count := id_count nos - 1, id_used := (id_used nos)(k := False)\<rparr>)"
    by (simp add: release_file_no_def)
  have ins: "map_find (int k) (fst (map_insert (int k) b (buffered_files s2))) = Some b" for b
    using k(2) s2(6) files_invD(2) [OF master_invD(2) [OF s2(2)]] by (simp add: map_insert_find map_find_None_iff)
  show ?thesis
    using new k(1) c1 s2(3,5) reg rel ins
    by (intro exI [of _ "int k"])
       (simp add: open_file_def create_new_open_file_info_def deref_stat_def upd_stat_def select_IOnode_def map_size_def Let_def)
qed

section \<open>Writing\<close>

lemma block_index_bound:
  assumes "0 \<le> start" "0 < sz" "nat ((start + sz - 1) div BLOCK_SIZE) < m"
  shows "nat (start div BLOCK_SIZE) + block_count sz \<le> m"
proof -
  let ?B = BLOCK_SIZE
  have "start div ?B * ?B \<le> start" "(sz + ?B - 1) div ?B * ?B \<le> sz + ?B - 1"
    by (rule div_mult_le_int, simp)+
  then have "(start div ?B + (sz + ?B - 1) div ?B - 1) * ?B \<le> start + sz - 1"
    by (simp add: left_diff_distrib distrib_right)
  then have "start div ?B + (sz + ?B - 1) div ?B - 1 \<le> (start + sz - 1) div ?B"
    by (simp add: le_div_iff_mult_int)
  moreover have "0 \<le> start div ?B" "0 \<le> (sz + ?B - 1) div ?B" "0 \<le> (start + sz - 1) div ?B"
    using assms by (simp_all add: pos_imp_zdiv_nonneg_iff BLOCK_SIZE_def)
  ultimately show ?thesis using assms(3) by (simp add: block_count_def)
qed

text \<open>The reply with the blocks of a transfer: 37 bytes and the node's address, and 16 for every block.\<close>

definition reply_fits :: "string \<Rightarrow> nat \<Rightarrow> bool" where
  "reply_fits uri n \<longleftrightarrow> length uri + 16 * n + 37 \<le> MAX_BASIC_MESSAGE_SIZE - MESSAGE_META_OFF"

lemma block_info_fields_eq:
  assumes "deref_node main s = Some ni"
  shows "block_info_fields sz [main] bl s =
     (if reply_fits (ni_uri ni) (length bl)
      then Some ([F_int SUCCESS, F_size sz, F_int 1, F_off (ni_id ni), F_str (ni_uri ni), F_int (int (length bl))]
                 @ block_fields bl)
      else None)"
  using assms by (simp add: block_info_fields_def Let_def msg_fits_def reply_fits_def block_fields_bytes)

text \<open>
  What a write of a well-formed request does: the file's status and blocks are updated, and
  the reply is sent when it fits its message.
\<close>

lemma write_file_reply:
  assumes inv: "master_inv s" and a: "map_find n (buffered_files s) = Some a" and ofi: "deref_file a s = Some ofi"
    and attr: "st_size attr < 4611686018427387904"
    and bl: "of_block_list ofi = blocks m f" "\<forall>j<m. 0 \<le> f j \<and> f j \<le> BLOCK_SIZE"
    and rng: "0 \<le> start" "0 < sz" "start + sz + BLOCK_SIZE < 4611686018427387904" "start div BLOCK_SIZE \<le> int m"
  shows "\<exists>s2 m' f' fs main ni msg. parse_write_file h n attr start sz s =
             (if reply_fits (ni_uri ni) (block_count sz) then Some (SUCCESS, send h msg s2) else None) \<and> master_inv s2 \<and>
           s2 = s\<lparr>file_stat_pool := map_set (of_file_status ofi) (recv_file_attr attr fs) (file_stat_pool s),
                  file_heap := map_set a (ofi\<lparr>of_block_list := blocks m' f'\<rparr>) (file_heap s)\<rparr> \<and>
           deref_stat (of_file_status ofi) s = Some fs \<and> primary_replica_node ofi = Some main \<and> deref_node main s = Some (ni :: node_info) \<and>
           msg = [F_int SUCCESS, F_size (u64 (st_size (fs_status (recv_file_attr attr fs)))), F_int 1, F_off (ni_id ni), F_str (ni_uri ni),
                  F_int (int (block_count sz))]
                 @ block_fields (map (\<lambda>i. (int i * BLOCK_SIZE, f' i)) [nat (start div BLOCK_SIZE)..<nat (start div BLOCK_SIZE) + block_count sz]) \<and>
           nat (start div BLOCK_SIZE) + block_count sz \<le> m' \<and> m \<le> m' \<and>
           (\<forall>j<m'. 0 \<le> f' j \<and> f' j \<le> BLOCK_SIZE) \<and> (\<forall>j<m. f j \<le> f' j) \<and>
           (\<forall>p. start \<le> p \<and> p < start + sz \<longrightarrow>
              nat (p div BLOCK_SIZE) < m' \<and> p mod BLOCK_SIZE < f' (nat (p div BLOCK_SIZE)))"
proof -
  from allocate_new_blocks_spec [OF rng(1,2,3,4) bl(2)] obtain m' f' where
    al: "allocate_new_blocks_for_writing start sz (blocks m f) = Some (blocks m' f')" "m \<le> m'"
      "\<forall>j<m'. 0 \<le> f' j \<and> f' j \<le> BLOCK_SIZE" "\<forall>j<m. f j \<le> f' j"
      "\<forall>p. start \<le> p \<and> p < start + sz \<longrightarrow>
          nat (p div BLOCK_SIZE) < m' \<and> p mod BLOCK_SIZE < f' (nat (p div BLOCK_SIZE))" by blast
  have i: "nat (start div BLOCK_SIZE) + block_count sz \<le> m'"
    using al(5) rng by (intro block_index_bound) auto
  let ?sel = "map (\<lambda>i. (int i * BLOCK_SIZE, f' i)) [nat (start div BLOCK_SIZE)..<nat (start div BLOCK_SIZE) + block_count sz]"
  have sel: "select_node_block_set start sz (blocks m' f') = Some ?sel"
    using i rng by (intro select_node_block_set_ok) (simp_all add: BLOCK_SIZE_def)
  from recv_attr_step [OF inv a ofi attr] obtain s1 fs where
    s1: "upd_stat (of_file_status ofi) (recv_file_attr attr) s = Some s1" "master_inv s1" "deref_stat (of_file_status ofi) s = Some fs"
      "s1 = s\<lparr>file_stat_pool := map_set (of_file_status ofi) (recv_file_attr attr fs) (file_stat_pool s)\<rparr>" by blast
  have "map_find a (file_heap s1) = Some ofi" using ofi s1(4) by (simp add: deref_file_def)
  note up = upd_file_ok [OF s1(2) this, of "\<lambda>ofi. ofi\<lparr>of_block_list := blocks m' f'\<rparr>"]
  let ?s2 = "s1\<lparr>file_heap := map_set a (ofi\<lparr>of_block_list := blocks m' f'\<rparr>) (file_heap s1)\<rparr>"
  have s2: "master_inv ?s2" using up(2) by simp
  moreover have "map_find n (buffered_files ?s2) = Some a" using a s1(4) by simp
  ultimately obtain main ni where main: "primary_replica_node ofi = Some main" "deref_node main ?s2 = Some ni"
    by (elim open_fileE) (auto simp: deref_file_def)
  have nd: "deref_node main s = Some ni" using main(2) s1(4) by (simp add: deref_node_def)
  have "deref_stat (of_file_status ofi) ?s2 = Some (recv_file_attr attr fs)" using s1(4) by (simp add: deref_stat_def)
  then have "parse_write_file h n attr start sz s =
      (if reply_fits (ni_uri ni) (block_count sz) then Some (SUCCESS, send h ([F_int SUCCESS, F_size (u64 (st_size (fs_status (recv_file_attr attr fs)))), F_int 1,
      F_off (ni_id ni), F_str (ni_uri ni), F_int (int (block_count sz))] @ block_fields ?sel) ?s2) else None)"
    using a ofi s1(1) al(1) bl(1) up(1) sel main block_info_fields_eq [OF main(2)]
    by (simp add: parse_write_file_def)
  moreover have "?s2 = s\<lparr>file_stat_pool := map_set (of_file_status ofi) (recv_file_attr attr fs) (file_stat_pool s),
      file_heap := map_set a (ofi\<lparr>of_block_list := blocks m' f'\<rparr>) (file_heap s)\<rparr>" using s1(4) by simp
  ultimately show ?thesis using s2 s1(3) main(1) nd i al(2-5)
    by (intro exI [of _ ?s2] exI [of _ m'] exI [of _ f'] exI [of _ fs] exI [of _ main] exI [of _ ni]) simp
qed

lemma write_file_ok:
  assumes "master_inv s" "map_find n (buffered_files s) = Some a" "deref_file a s = Some ofi" "st_size attr < 4611686018427387904"
    "of_block_list ofi = blocks m f" "\<forall>j<m. 0 \<le> f j \<and> f j \<le> BLOCK_SIZE"
    "0 \<le> start" "0 < sz" "start + sz + BLOCK_SIZE < 4611686018427387904" "start div BLOCK_SIZE \<le> int m"
    and node: "primary_replica_node ofi = Some main" "deref_node main s = Some ni" "deref_stat (of_file_status ofi) s = Some fs"
      "reply_fits (ni_uri ni) (block_count sz)"
  shows "\<exists>s' m' f'. parse_write_file h n attr start sz s = Some (SUCCESS, s') \<and> master_inv s' \<and>
           sent s' = sent s @ [Msg h ([F_int SUCCESS, F_size (max (st_size (fs_status fs)) (st_size attr)), F_int 1,
               F_off (ni_id ni), F_str (ni_uri ni), F_int (int (block_count sz))]
             @ block_fields (map (\<lambda>i. (int i * BLOCK_SIZE, f' i))
                 [nat (start div BLOCK_SIZE)..<nat (start div BLOCK_SIZE) + block_count sz])) []] \<and>
           deref_file a s' = Some (ofi\<lparr>of_block_list := blocks m' f'\<rparr>) \<and> m \<le> m' \<and>
           (\<forall>j<m'. 0 \<le> f' j \<and> f' j \<le> BLOCK_SIZE) \<and> (\<forall>j<m. f j \<le> f' j) \<and>
           (\<forall>p. start \<le> p \<and> p < start + sz \<longrightarrow>
              nat (p div BLOCK_SIZE) < m' \<and> p mod BLOCK_SIZE < f' (nat (p div BLOCK_SIZE)))"
proof -
  let ?size = "st_size (fs_status (recv_file_attr attr fs))"
  from write_file_reply [OF assms(1-10), of h] node obtain s2 m' f' msg where
    r: "parse_write_file h n attr start sz s = Some (SUCCESS, send h msg s2)" "master_inv s2"
      "s2 = s\<lparr>file_stat_pool := map_set (of_file_status ofi) (recv_file_attr attr fs) (file_stat_pool s),
              file_heap := map_set a (ofi\<lparr>of_block_list := blocks m' f'\<rparr>) (file_heap s)\<rparr>"
      "m \<le> m'" "\<forall>j<m'. 0 \<le> f' j \<and> f' j \<le> BLOCK_SIZE" "\<forall>j<m. f j \<le> f' j"
      "\<forall>p. start \<le> p \<and> p < start + sz \<longrightarrow> nat (p div BLOCK_SIZE) < m' \<and> p mod BLOCK_SIZE < f' (nat (p div BLOCK_SIZE))"
      "msg = [F_int SUCCESS, F_size (u64 ?size), F_int 1, F_off (ni_id ni), F_str (ni_uri ni), F_int (int (block_count sz))]
             @ block_fields (map (\<lambda>i. (int i * BLOCK_SIZE, f' i)) [nat (start div BLOCK_SIZE)..<nat (start div BLOCK_SIZE) + block_count sz])"
    by auto
  have "0 \<le> st_size (fs_status fs)" "st_size (fs_status fs) < 4611686018427387904"
    using master_invD(4) [OF assms(1)] node(3) by (auto simp: sizes_inv_def deref_stat_def)
  then have "u64 ?size = max (st_size (fs_status fs)) (st_size attr)"
    using recv_file_attr_ok(4) [of fs attr] assms(4) by (simp add: u64_id)
  moreover have "deref_file a (send h msg s2) = Some (ofi\<lparr>of_block_list := blocks m' f'\<rparr>)" "sent s2 = sent s"
    using r(3) by (simp_all add: deref_file_def)
  ultimately show ?thesis using r(1,2,4-8)
    by (intro exI [of _ "send h msg s2"] exI [of _ m'] exI [of _ f']) (simp add: send_def)
qed

lemma write_file_overrun:
  assumes "master_inv s" "map_find n (buffered_files s) = Some a" "deref_file a s = Some ofi" "st_size attr < 4611686018427387904"
    "of_block_list ofi = blocks m f" "\<forall>j<m. 0 \<le> f j \<and> f j \<le> BLOCK_SIZE"
    "0 \<le> start" "0 < sz" "start + sz + BLOCK_SIZE < 4611686018427387904" "start div BLOCK_SIZE \<le> int m"
    and node: "primary_replica_node ofi = Some main" "deref_node main s = Some ni" "\<not> reply_fits (ni_uri ni) (block_count sz)"
  shows "parse_write_file h n attr start sz s = None"
  using write_file_reply [OF assms(1-10), of h] node by auto

lemma read_file_reply:
  assumes inv: "master_inv s" and a: "map_find n (buffered_files s) = Some a" and ofi: "deref_file a s = Some ofi"
    and bl: "of_block_list ofi = blocks m f"
    and rng: "0 \<le> start" "0 < sz" "start + sz < 4611686018427387904" "start + sz \<le> int m * BLOCK_SIZE"
  shows "\<exists>fs main ni. parse_read_file h n start sz s = (if reply_fits (ni_uri ni) (block_count sz) then Some (SUCCESS, send h
           ([F_int SUCCESS, F_size (u64 (st_size (fs_status fs))), F_int 1, F_off (ni_id ni), F_str (ni_uri ni), F_int (int (block_count sz))]
            @ block_fields (map (\<lambda>i. (int i * BLOCK_SIZE, f i)) [nat (start div BLOCK_SIZE)..<nat (start div BLOCK_SIZE) + block_count sz])) s) else None) \<and>
           deref_stat (of_file_status ofi) s = Some fs \<and> primary_replica_node ofi = Some main \<and> deref_node main s = Some (ni :: node_info)"
proof -
  from inv a obtain ofi' fs main ni where o: "deref_file a s = Some ofi'" "primary_replica_node ofi' = Some main"
    "deref_node main s = Some ni" "deref_stat (of_file_status ofi') s = Some fs" by (rule open_fileE)
  have "(start + sz - 1) div BLOCK_SIZE < int m"
    using rng(4) le_div_iff_mult_int [OF BLOCK_SIZE_pos(1), of "int m" "start + sz - 1"] by linarith
  then have "nat ((start + sz - 1) div BLOCK_SIZE) < m"
    using rng(1,2) by (simp add: pos_imp_zdiv_nonneg_iff nat_less_iff)
  then have "nat (start div BLOCK_SIZE) + block_count sz \<le> m" using rng by (intro block_index_bound)
  then have "select_node_block_set start sz (blocks m f) =
      Some (map (\<lambda>i. (int i * BLOCK_SIZE, f i)) [nat (start div BLOCK_SIZE)..<nat (start div BLOCK_SIZE) + block_count sz])"
    using rng by (intro select_node_block_set_ok) simp_all
  then show ?thesis
    using a o ofi bl block_info_fields_eq [OF o(3)]
    by (intro exI [of _ fs] exI [of _ main] exI [of _ ni]) (simp add: parse_read_file_def)
qed

section \<open>An example state\<close>

text \<open>One registered node and one closed file of 10 bytes.\<close>

definition demo_master :: master where
  "demo_master = (master_init ''/m'' ''/b'' 0 1
       [(''/f'', Master_file_stat\<lparr>fs_status := zero_stat\<lparr>st_size := 10\<rparr>\<rparr>)])
     \<lparr>registered_IOnodes := [(0, 5)], node_heap := [(5, new_node_info 0 ''n1'' 100 7)],
      node_ids := id_pool_init\<lparr>id_used := (\<lambda>_. False)(0 := True)\<rparr>, IOnode_handle := [5]\<rparr>"

lemma demo_inv: "master_inv demo_master"
  by (auto simp: master_inv_def nodes_inv_def files_inv_def numbers_inv_def sizes_inv_def demo_master_def
      master_init_def file_nos_inv_def used_ids_def id_pool_init_def new_node_info_def split: if_splits)

lemma demo_fields [simp]:
  "registered_IOnodes demo_master = [(0, 5)]" "buffered_files demo_master = []" "file_heap demo_master = []"
  "file_stat_pool demo_master = [(''/f'', Master_file_stat\<lparr>fs_status := zero_stat\<lparr>st_size := 10\<rparr>\<rparr>)]"
  "current_IOnode demo_master = None" "node_heap demo_master = [(5, new_node_info 0 ''n1'' 100 7)]"
  by (simp_all add: demo_master_def master_init_def)

text \<open>The same with the file open as number 0.\<close>

definition demo_open :: master where
  "demo_open = demo_master
     \<lparr>node_heap := [(5, (new_node_info 0 ''n1'' 100 7)\<lparr>stored_files := [0]\<rparr>)],
      file_stat_pool := [(''/f'', Master_file_stat\<lparr>fs_status := zero_stat\<lparr>st_size := 10\<rparr>, opened_file_info := Some 0\<rparr>)],
      buffered_files := [(0, 0)],
      file_heap := [(0, (new_open_file_info 0 2 ''/f'')\<lparr>of_block_list := blocks 1 (\<lambda>_. 10), primary_replica_node := Some 5\<rparr>)],
      file_fresh := 1, file_nos := \<lparr>id_used = (\<lambda>_. False)(0 := True), id_current = 1, id_count = 1\<rparr>\<rparr>"

lemma demo_open_inv: "master_inv demo_open"
proof -
  have "{k. k < MAX_FILE_NUMBER \<and> k = 0} = {0}" by auto
  then show ?thesis
    by (auto simp: master_inv_defs demo_open_def demo_master_def master_init_def file_nos_inv_def used_ids_def
        id_pool_init_def new_node_info_def new_open_file_info_def split: if_splits)
qed

section \<open>Properties\<close>

text \<open>C13: Along every sequence of requests of the following kinds, whatever their order and
  arguments, the path table, the table of open files and the heap point to each other, every
  open file has a registered primary node, a file number belongs to one path and a path has at
  most one number. Excluded are the requests after which the code's tables do not agree or that
  need an environment the operating system never gives: opening a file while no IOnode is
  registered or all file numbers are in use, sizes of \<^verbatim>\<open>2^62\<close> and more in a write, a metadata
  update or a truncation and negative ones in a truncation, the failure of a node that stores an
  open file, and registering a node at an address that is in use. A request that overruns a
  message or follows an invalid iterator is undefined and has no state behind it.\<close>

theorem reachable_tables:
  assumes "master_reachable s"
  shows "master_inv s \<and>
    (\<forall>n a. map_find n (buffered_files s) = Some a \<longrightarrow> (\<exists>!path. opened path n s)) \<and>
    (\<forall>path n k. opened path n s \<and> opened path k s \<longrightarrow> n = k)"
proof -
  have inv: "master_inv s" using assms by (rule reachable_inv)
  moreover have "\<exists>!path. opened path n s" if "map_find n (buffered_files s) = Some a" for n a
    using opened_inv [OF master_invD(2) [OF inv] that] opened_path_unique by blast
  ultimately show ?thesis using opened_unique by blast
qed

theorem reachable_tables_witness:
  "\<exists>r s. handle_request \<lparr>env_time = 1, env_uid = 0, env_gid = 0\<rparr> 5 7 (Register 100 ''n1'') (master_init ''/m'' ''/b'' 0 1 []) = Some (r, s) \<and>
     master_inv s"
proof -
  let ?s0 = "master_init ''/m'' ''/b'' 0 1 []"
  have r0: "master_reachable ?s0" by (rule master_reachable.start) (simp add: stored_pool_def)
  have fresh: "map_find 5 (node_heap ?s0) = None" by (simp add: master_init_def)
  from add_IOnode_ok [OF reachable_inv [OF r0] fresh, of "''n1''" 100 7] obtain i s where
    "add_IOnode 5 ''n1'' 100 7 ?s0 = Some (i, s)" by blast
  then have h: "handle_request \<lparr>env_time = 1, env_uid = 0, env_gid = 0\<rparr> 5 7 (Register 100 ''n1'') ?s0 = Some (SUCCESS, send 7 [F_off i] s)"
    by (simp add: parse_register_IOnode_def)
  have "master_reachable (send 7 [F_off i] s)"
    by (rule master_reachable.request [OF r0 _ h]) (simp add: request_ok_def fresh)
  from reachable_tables [OF this] h show ?thesis by blast
qed

text \<open>C14: With a registered node and room for another number, opening a path succeeds as long as
  the request to its node, which holds the path and the blocks of the file, fits a message: the
  number returned leads to an object of that path; a path that is open keeps its number,
  otherwise the number is one no open file has; every open file stays open under its
  number and no other path changes. When the request does not fit, it overruns the message.\<close>

theorem open_file_correct:
  assumes "master_inv s" "registered_IOnodes s \<noteq> []" "length (buffered_files s) < MAX_FILE_NUMBER"
  shows "if open_fits path s
         then \<exists>n s'. open_file env path flag mode s = Some (Inr n, s') \<and> master_inv s' \<and> opened path n s' \<and>
           (\<forall>k a. map_find k (buffered_files s) = Some a \<longrightarrow> map_find k (buffered_files s') = Some a) \<and>
           (\<forall>q. q \<noteq> path \<longrightarrow> map_find q (file_stat_pool s') = map_find q (file_stat_pool s)) \<and>
           (map_find n (buffered_files s) = None \<or> opened path n s)
         else open_file env path flag mode s = None"
  using open_file_ok [OF assms, of path env flag mode] open_file_overrun [OF assms, of path env flag mode] by simp

theorem open_file_correct_witness:
  "\<exists>n s'. open_file \<lparr>env_time = 1, env_uid = 0, env_gid = 0\<rparr> ''/g'' 2 420 demo_master = Some (Inr n, s') \<and> opened ''/g'' n s' \<and>
     map_find ''/f'' (file_stat_pool s') = Some (Master_file_stat\<lparr>fs_status := zero_stat\<lparr>st_size := 10\<rparr>\<rparr>)"
proof -
  have "\<exists>n s'. open_file \<lparr>env_time = 1, env_uid = 0, env_gid = 0\<rparr> ''/g'' 2 420 demo_master = Some (Inr n, s') \<and> opened ''/g'' n s' \<and>
      (\<forall>q. q \<noteq> ''/g'' \<longrightarrow> map_find q (file_stat_pool s') = map_find q (file_stat_pool demo_master))"
    using open_file_correct [OF demo_inv, of "''/g''" "\<lparr>env_time = 1, env_uid = 0, env_gid = 0\<rparr>" 2 420]
    by (auto simp: open_fits_def open_request_fits_def)
  then obtain n s' where "open_file \<lparr>env_time = 1, env_uid = 0, env_gid = 0\<rparr> ''/g'' 2 420 demo_master = Some (Inr n, s')" "opened ''/g'' n s'"
    "\<forall>q. q \<noteq> ''/g'' \<longrightarrow> map_find q (file_stat_pool s') = map_find q (file_stat_pool demo_master)" by blast
  then show ?thesis by (intro exI [of _ n] exI [of _ s']) simp
qed

text \<open>C16: Unlinking never fails internally: the path is gone, its number is free, no other open
  file loses its number, and the reply is the error exactly when the path was unknown.\<close>

theorem unlink_correct:
  assumes "master_inv s"
  shows "\<exists>s'. parse_unlink h path s =
             Some (if map_find path (file_stat_pool s) = None then FAILURE else SUCCESS, s') \<and> master_inv s' \<and>
           last (sent s') = Msg h [F_int (if map_find path (file_stat_pool s) = None then - ENOENT else SUCCESS)] [] \<and>
           file_stat_pool s' = map_erase path (file_stat_pool s) \<and>
           (\<forall>n. map_find n (buffered_files s') = (if opened path n s then None else map_find n (buffered_files s)))"
proof -
  from remove_file_ok [OF assms, of path] obtain s1 where s1: "remove_file path s =
      Some (if map_find path (file_stat_pool s) = None then FAILURE else SUCCESS, s1)" "master_inv s1"
    "file_stat_pool s1 = map_erase path (file_stat_pool s)"
    "\<forall>n. map_find n (buffered_files s1) = (if opened path n s then None else map_find n (buffered_files s))" by blast
  then show ?thesis
    by (cases "map_find path (file_stat_pool s) = None")
       (auto simp: parse_unlink_def)
qed

theorem unlink_correct_witness:
  "\<exists>s'. parse_unlink 9 ''/f'' demo_master = Some (SUCCESS, s') \<and> file_stat_pool s' = []"
  using unlink_correct [OF demo_inv, of 9 "''/f''"] by (auto simp: demo_fields)

text \<open>C17: Renaming a file to another name on the same master moves its entry and keeps its number:
  the old path is gone, the new one (whose file, if any, was removed) has the old file's
  status and, when the file is open, its number; no other path changes.\<close>

theorem rename_correct:
  assumes "master_inv s" "p \<noteq> q" "map_find p (file_stat_pool s) = Some fs"
  shows "\<exists>s'. parse_rename h p q MYSELF s = Some (SUCCESS, s') \<and> master_inv s' \<and>
           map_find p (file_stat_pool s') = None \<and> map_find q (file_stat_pool s') = Some fs \<and>
           (\<forall>x. x \<noteq> p \<and> x \<noteq> q \<longrightarrow> map_find x (file_stat_pool s') = map_find x (file_stat_pool s)) \<and>
           (\<forall>n. opened p n s \<longrightarrow> opened q n s')"
  using rename_moves [OF assms] .

theorem rename_correct_witness:
  "\<exists>s'. parse_rename 9 ''/f'' ''/g'' MYSELF demo_master = Some (SUCCESS, s') \<and>
     map_find ''/f'' (file_stat_pool s') = None \<and> map_find ''/g'' (file_stat_pool s') \<noteq> None"
  using rename_correct [OF demo_inv, of "''/f''" "''/g''" _ 9] by fastforce

text \<open>A metadata update never makes a file smaller: its size becomes the maximum of the old and
  the reported size, and no other file changes.\<close>

theorem meta_update_grows:
  assumes "master_inv s" "opened path n s" "st_size attr < 4611686018427387904"
    "map_find path (file_stat_pool s) = Some fs"
  shows "\<exists>s' fs'. parse_meta_update n attr s = Some (SUCCESS, s') \<and> master_inv s' \<and>
           map_find path (file_stat_pool s') = Some fs' \<and>
           st_size (fs_status fs') = max (st_size (fs_status fs)) (st_size attr) \<and>
           (\<forall>q. q \<noteq> path \<longrightarrow> map_find q (file_stat_pool s') = map_find q (file_stat_pool s))"
proof -
  from assms(2) obtain a ofi where a: "map_find n (buffered_files s) = Some a" "deref_file a s = Some ofi"
    "of_file_status ofi = path" by (auto simp: opened_def deref_file_def)
  from recv_attr_step [OF assms(1) a(1,2) assms(3)] obtain s' where
    s': "upd_stat path (recv_file_attr attr) s = Some s'" "master_inv s'"
      "s' = s\<lparr>file_stat_pool := map_set path (recv_file_attr attr fs) (file_stat_pool s)\<rparr>"
    using a(3) assms(4) by (auto simp: deref_stat_def)
  have "0 \<le> st_size (fs_status fs)" "st_size (fs_status fs) < 4611686018427387904"
    using master_invD(4) [OF assms(1)] assms(4) by (auto simp: sizes_inv_def)
  from recv_file_attr_ok(4) [OF this assms(3)] show ?thesis
    using a s' by (intro exI [of _ s'] exI [of _ "recv_file_attr attr fs"]) (simp add: parse_meta_update_def)
qed

theorem meta_update_grows_witness:
  "\<exists>n s1 s2 fs'. open_file \<lparr>env_time = 1, env_uid = 0, env_gid = 0\<rparr> ''/f'' 2 420 demo_master = Some (Inr n, s1) \<and>
     parse_meta_update n (zero_stat\<lparr>st_size := 25\<rparr>) s1 = Some (SUCCESS, s2) \<and>
     map_find ''/f'' (file_stat_pool s2) = Some fs' \<and> 25 \<le> st_size (fs_status fs')"
proof -
  have "open_fits ''/f'' demo_master" by (simp add: open_fits_def open_request_fits_def block_count_def BLOCK_SIZE_def)
  from open_file_ok [OF demo_inv _ _ this, of "\<lparr>env_time = 1, env_uid = 0, env_gid = 0\<rparr>" 2 420] obtain n s1 where
    s1: "open_file \<lparr>env_time = 1, env_uid = 0, env_gid = 0\<rparr> ''/f'' 2 420 demo_master = Some (Inr n, s1)" "master_inv s1" "opened ''/f'' n s1"
    by auto
  from s1(3) obtain fs where fs: "map_find ''/f'' (file_stat_pool s1) = Some fs" by (auto simp: opened_def)
  from meta_update_grows [OF s1(2,3) _ fs, of "zero_stat\<lparr>st_size := 25\<rparr>"] s1(1) show ?thesis
    by fastforce
qed

text \<open>C21: A directory listing contains, in order and once each, the first path component behind the
  directory of every path that starts with the directory's name: nothing of the table is
  missed because the walk stops at the first path that does not. It is sent when its names fit
  the preallocated area of 5,000,000 bytes and overruns that area otherwise.\<close>

theorem readdir_correct:
  assumes "master_inv s" "dir \<noteq> []"
  shows "\<exists>files. parse_readdir h dir s =
             (if names_fit files
              then Some (SUCCESS, s\<lparr>sent := sent s @ [Msg h [F_int SUCCESS, F_int (int (length files))] files]\<rparr>)
              else None) \<and>
           sorted_wrt (<) files \<and>
           set files = (\<lambda>x. takeWhile (\<lambda>c. c \<noteq> CHR ''/'')
                            (drop (if last dir \<noteq> CHR ''/'' then length dir + 1 else length dir) x))
                         ` {x\<in>map_keys (file_stat_pool s). has_prefix dir x \<and> x \<noteq> dir}"
  using get_file_stat_from_dir_set [OF files_invD(1) [OF master_invD(2) [OF assms(1)]] assms(2)]
  by (auto simp: parse_readdir_def)

theorem readdir_correct_witness:
  "parse_readdir 9 ''/'' demo_master =
     Some (SUCCESS, demo_master\<lparr>sent := sent demo_master @ [Msg 9 [F_int SUCCESS, F_int 1] [''f'']]\<rparr>)"
proof -
  have "{x\<in>map_keys (file_stat_pool demo_master). has_prefix ''/'' x \<and> x \<noteq> ''/''} = {''/f''}" by auto
  with readdir_correct [OF demo_inv, of "''/''" 9] obtain files where
    f: "parse_readdir 9 ''/'' demo_master =
         (if names_fit files
          then Some (SUCCESS, demo_master\<lparr>sent := sent demo_master @ [Msg 9 [F_int SUCCESS, F_int (int (length files))] files]\<rparr>)
          else None)" "sorted_wrt (<) files" "set files = {''f''}" by fastforce
  then have "files = [''f'']" by (cases files rule: remdups_adj.cases) auto
  with f(1) show ?thesis by (simp add: names_fit_def)
qed

text \<open>C23: Nodes are handed out round robin: from the start of a round, as many calls as there are
  registered nodes return every node once, in the order of the node numbers, and end at the
  start of the next round.\<close>

theorem next_IOnode_round_robin:
  assumes "master_inv s" "registered_IOnodes s \<noteq> []" "current_IOnode s = None"
  shows "next_IOnodes (length (registered_IOnodes s)) s = Some (map snd (registered_IOnodes s), s)"
proof -
  obtain k p ys where reg: "registered_IOnodes s = (k, p) # ys"
    using assms(2) by (cases "registered_IOnodes s") auto
  have "map_inv (registered_IOnodes s)" using master_invD(1) [OF assms(1)] by (simp add: nodes_inv_def)
  from next_IOnodes_suffix [OF this, of "[]" k p ys] reg assms(3) show ?thesis
    by (simp del: next_IOnodes.simps)
qed

theorem next_IOnode_round_robin_witness:
  "next_IOnodes 1 demo_master = Some ([5], demo_master)"
  using next_IOnode_round_robin [OF demo_inv] by simp

text \<open>
  The requests whose handler ends in undefined behaviour although the tables agree: an open
  whose request overruns its message, the rename of an existing path to itself, and a listing of
  the empty path or of names that overrun their area.
\<close>

definition answerable :: "master_request \<Rightarrow> master \<Rightarrow> bool" where
  "answerable rq s =
     (case rq of
        Open_file path flag mode \<Rightarrow>
          open_fits path s \<or> (case map_find path (file_stat_pool s) of None \<Rightarrow> False | Some fs \<Rightarrow> is_external fs)
      | Rename p q m \<Rightarrow> p \<noteq> q \<or> m \<noteq> MYSELF \<or> map_find p (file_stat_pool s) = None
      | Read_dir path \<Rightarrow> (case get_file_stat_from_dir path (file_stat_pool s) of None \<Rightarrow> False | Some files \<Rightarrow> names_fit files)
      | _ \<Rightarrow> True)"

lemma parse_open_file_defined:
  assumes "master_inv s" "registered_IOnodes s \<noteq> []" "length (buffered_files s) < MAX_FILE_NUMBER"
  shows "parse_open_file env h path flag mode s \<noteq> None \<longleftrightarrow> answerable (Open_file path flag mode) s"
proof (cases "\<exists>fs. map_find path (file_stat_pool s) = Some fs \<and> is_external fs")
  case True
  then show ?thesis by (auto simp: parse_open_file_def answerable_def Let_def)
next
  case False
  have "open_and_reply env h path fl md s = None" if "\<not> open_fits path s" for fl md
    using open_file_overrun [OF assms that] by (simp add: open_and_reply_def)
  with False parse_open_file_ok [OF assms, of path env h flag mode] show ?thesis
    by (cases "open_fits path s") (auto simp: parse_open_file_def answerable_def Let_def split: option.splits)
qed

lemma parse_rename_defined:
  assumes "master_inv s"
  shows "parse_rename h p q m s \<noteq> None \<longleftrightarrow> answerable (Rename p q m) s"
proof (cases "p \<noteq> q \<or> m \<noteq> MYSELF")
  case True
  then show ?thesis using parse_rename_ok [OF assms, of p q m h] by (auto simp: answerable_def)
next
  case False
  then show ?thesis
    using parse_rename_self [OF assms, of p h] parse_rename_unknown [OF assms, of p h q]
    by (cases "map_find p (file_stat_pool s)") (auto simp: answerable_def)
qed

lemma parse_readdir_defined: "parse_readdir h path s \<noteq> None \<longleftrightarrow> answerable (Read_dir path) s"
  by (cases "get_file_stat_from_dir path (file_stat_pool s)") (simp_all add: parse_readdir_def answerable_def)

text \<open>C18: When the tables agree, a handler ends in undefined behaviour exactly for an open whose
  request overruns its message, for the rename of an existing path to itself on this master and
  for a listing of the empty path or of names that overrun their area; every other request is
  answered and the tables still agree. The statement is not about block selection (read and
  write), truncation and failures of nodes, nor about an open without a registered
  node or a free number, sizes of \<^verbatim>\<open>2^62\<close> and more, or registering at an address in use.\<close>

theorem request_defined:
  assumes "master_inv s" "request_ok addr h rq s"
    "case rq of Read_file n st sz \<Rightarrow> False | Write_file n at st sz \<Rightarrow> False | Truncate path sz \<Rightarrow> False
     | Node_failure \<Rightarrow> False | IOnode_failure i \<Rightarrow> False | _ \<Rightarrow> True"
  shows "if answerable rq s then \<exists>r s'. handle_request env addr h rq s = Some (r, s') \<and> master_inv s'
         else handle_request env addr h rq s = None"
proof -
  have "handle_request env addr h rq s \<noteq> None \<longleftrightarrow> answerable rq s"
  proof (cases rq)
    case (Register mem uri)
    then have "map_find addr (node_heap s) = None" using assms(2) by (simp add: request_ok_def)
    from add_IOnode_ok [OF assms(1) this, of uri mem h] Register show ?thesis
      by (auto simp: parse_register_IOnode_def answerable_def)
  next
    case (Open_file path flag mode)
    then show ?thesis
      using parse_open_file_defined [OF assms(1), of env h path flag mode] assms(2) by (simp add: request_ok_def)
  next
    case (Update_meta n st)
    then show ?thesis
      using parse_meta_update_ok [OF assms(1), of st n] assms(2) by (auto simp: request_ok_def answerable_def)
  next
    case (Flush_file n)
    then show ?thesis using parse_flush_close_ok(1) [OF assms(1), of h n] by (auto simp: answerable_def)
  next
    case (Close_file n)
    then show ?thesis using parse_flush_close_ok(2) [OF assms(1), of h n] by (auto simp: answerable_def)
  next
    case (Read_dir path)
    then show ?thesis using parse_readdir_defined by simp
  next
    case (Unlink path)
    then show ?thesis using parse_remove_ok(1) [OF assms(1), of h path] by (auto simp: answerable_def)
  next
    case (Rm_dir path)
    then show ?thesis using parse_remove_ok(2) [OF assms(1), of h path] by (auto simp: answerable_def)
  next
    case (Mkdir path md)
    then show ?thesis using parse_mkdir_ok [OF assms(1), of env h path md] by (auto simp: answerable_def)
  next
    case (Rename p q m)
    then show ?thesis using parse_rename_defined [OF assms(1), of h p q m] by simp
  next
    case (Rename_migrating path m)
    then show ?thesis using parse_rename_migrating_ok [OF assms(1), of h path m] by (auto simp: answerable_def)
  qed (use assms(3) in \<open>auto simp: parse_new_client_def parse_attr_def parse_access_def parse_close_client_def
         answerable_def split: option.splits\<close>)
  then show ?thesis
    using handle_request_keeps [OF assms(1,2), of env] by (cases "handle_request env addr h rq s") auto
qed

theorem request_defined_witness:
  "(\<exists>r s'. handle_request \<lparr>env_time = 1, env_uid = 0, env_gid = 0\<rparr> 6 9 (Rename ''/f'' ''/g'' MYSELF) demo_master = Some (r, s') \<and> master_inv s') \<and>
   handle_request \<lparr>env_time = 1, env_uid = 0, env_gid = 0\<rparr> 6 9 (Rename ''/f'' ''/f'' MYSELF) demo_master = None"
  using request_defined [OF demo_inv, of 6 9 "Rename ''/f'' ''/g'' MYSELF" "\<lparr>env_time = 1, env_uid = 0, env_gid = 0\<rparr>"]
    request_defined [OF demo_inv, of 6 9 "Rename ''/f'' ''/f'' MYSELF" "\<lparr>env_time = 1, env_uid = 0, env_gid = 0\<rparr>"]
  by (auto simp: request_ok_def answerable_def)



text \<open>C35: When no IOnode is registered, opening a new path fails, but the table of open files keeps an
  entry whose number has been given back: the tables no longer agree and a later open hands
  out the number again.\<close>

theorem open_without_nodes:
  assumes "master_inv s" "registered_IOnodes s = []" "map_find path (file_stat_pool s) = None"
    "length (buffered_files s) < MAX_FILE_NUMBER"
  shows "\<exists>n s' a. open_file env path flag mode s = Some (Inl Runtime_error, s') \<and>
           map_find n (buffered_files s') = Some a \<and> \<not> id_used (file_nos s') (nat n) \<and> \<not> master_inv s'"
proof -
  from open_new_without_nodes [OF assms, of env flag mode] obtain n s' a where
    s': "open_file env path flag mode s = Some (Inl Runtime_error, s')" "map_find n (buffered_files s') = Some a"
      "\<not> id_used (file_nos s') (nat n)" by blast
  have "nat n \<in> nat ` map_keys (buffered_files s')" using map_find_Some_key [OF s'(2)] by blast
  then have "\<not> master_inv s'" using s'(3) by (auto simp: master_inv_def numbers_inv_def file_nos_inv_def used_ids_def)
  then show ?thesis using s' by blast
qed

theorem open_without_nodes_witness:
  "\<exists>n s' a. open_file \<lparr>env_time = 1, env_uid = 0, env_gid = 0\<rparr> ''/g'' 2 420 (master_init ''/m'' ''/b'' 0 1 []) = Some (Inl Runtime_error, s') \<and>
     map_find n (buffered_files s') = Some a \<and> \<not> master_inv s'"
proof -
  have "master_inv (master_init ''/m'' ''/b'' 0 1 [])" by (rule master_init_inv) (simp add: stored_pool_def)
  from open_without_nodes [OF this, of "''/g''" "\<lparr>env_time = 1, env_uid = 0, env_gid = 0\<rparr>" 2 420] show ?thesis
    by (auto simp: master_init_def)
qed

text \<open>C36: With the configured number of replicas (none), the failure of a node that is the primary of
  an open file makes the master read the first element of an empty set: the handler has no
  defined result.\<close>

theorem failure_of_primary_undefined:
  assumes "registered_IOnodes s \<noteq> []" "deref_node p s = Some ni" "stored_files ni = n # rest"
    "map_find n (buffered_files s) = Some a" "deref_file a s = Some ofi"
    "primary_replica_node ofi = Some p" "of_IOnodes_set ofi = []"
  shows "IOnode_failure_handler p s = None"
proof (cases "send_remove_IOnode_request p (registered_IOnodes s) s")
  case (Some s1)
  note f = sends_fields [OF send_remove_request_sends [OF Some]]
  have "recreate_replicas p s1 = None" by (rule recreate_without_replica) (use assms in \<open>simp_all add: f\<close>)
  then show ?thesis using Some by (simp add: IOnode_failure_handler_def)
qed (simp add: IOnode_failure_handler_def)

theorem failure_of_primary_undefined_witness:
  "IOnode_failure_handler 5 demo_open = None"
proof -
  let ?ofi = "(new_open_file_info 0 2 ''/f'')\<lparr>of_block_list := blocks 1 (\<lambda>_. 10), primary_replica_node := Some 5\<rparr>"
  show ?thesis
    by (rule failure_of_primary_undefined [of _ _ "(new_node_info 0 ''n1'' 100 7)\<lparr>stored_files := [0]\<rparr>" 0 "[]" 0 ?ofi])
       (simp_all add: demo_open_def deref_node_def deref_file_def new_open_file_info_def new_node_info_def)
qed

section \<open>Further findings\<close>

text \<open>\<^verbatim>\<open>mkdir\<close> on a path that exists resets its size, also while the file is open.\<close>

lemma mkdir_resets_existing:
  assumes "master_inv s" "map_find path (file_stat_pool s) = Some fs"
  shows "\<exists>s' fs'. parse_mkdir env h path md s = Some (SUCCESS, s') \<and> map_find path (file_stat_pool s') = Some fs' \<and>
           st_size (fs_status fs') = 0 \<and> opened_file_info fs' = opened_file_info fs"
  using create_new_file_stat_ok [OF assms(1), of env path NOT_EXIST "md OR S_IFDIR"] assms(2)
  by (auto simp: parse_mkdir_def Let_def)

text \<open>The loop that should drop the blocks behind the new end drops none.\<close>

lemma truncate_drops_nothing:
  assumes "0 \<le> sz" "sz < 4611686018427387904"
  shows "truncate_blocks_loop (get_block_start_point sz + BLOCK_SIZE) sz bl = bl"
proof -
  have "get_block_start_point sz = sz div BLOCK_SIZE * BLOCK_SIZE" using assms by (intro block_start_eq) auto
  then have "sz < get_block_start_point sz + BLOCK_SIZE"
    using minus_mod_eq_div_mult [of sz BLOCK_SIZE] pos_mod_bound [OF BLOCK_SIZE_pos(1), of sz] by linarith
  then show ?thesis by (subst truncate_blocks_loop.simps) (simp add: BLOCK_SIZE_def)
qed

text \<open>A listing of \<^verbatim>\<open>/a\<close> shows a name of the sibling \<^verbatim>\<open>/abc\<close>.\<close>

lemma readdir_lists_sibling:
  "get_file_stat_from_dir ''/a'' [(''/a'', ()), (''/a/x'', ()), (''/abc'', ())] = Some [''c'', ''x'']"
  by (simp add: get_file_stat_from_dir_def Let_def)

end
