(* ===== verification/Cluster.thy ===== *)
theory Cluster
  imports Master_System IOnode_Refinement
begin

text \<open>
  The master and an IOnode together: the messages the master composes are those the IOnode
  takes apart, field by field, and after an open request the IOnode holds the file and the
  blocks the master has in its table.
\<close>

section \<open>The wire format\<close>

lemma pop_block_fields: "pop_blocks (length bl) (block_fields bl @ fs) = Some (bl, fs)"
  by (induction bl) (auto simp: block_fields_def)

text \<open>The numbers and addresses of nodes, and the connection of a node, as they are sent.\<close>

definition node_entries :: "nat list \<Rightarrow> master \<Rightarrow> (ssize_t \<times> string) list" where
  "node_entries ps s = map (\<lambda>p. case deref_node p s of None \<Rightarrow> (0, []) | Some ni \<Rightarrow> (ni_id ni, ni_uri ni)) ps"

definition node_handle :: "nat \<Rightarrow> master \<Rightarrow> int" where
  "node_handle p s = (case deref_node p s of None \<Rightarrow> 0 | Some ni \<Rightarrow> ni_handle ni)"

lemma pop_node_fields:
  "node_fields ps s = Some fs \<Longrightarrow> pop_nodes (length ps) (fs @ gs) = Some (node_entries ps s, gs)"
proof (induction ps arbitrary: fs)
  case (Cons p ps)
  then obtain ni :: node_info and fs' where "deref_node p s = Some ni" "node_fields ps s = Some fs'"
    "fs = F_off (ni_id ni) # F_str (ni_uri ni) # fs'" by (auto simp: bind_eq_Some_conv)
  with Cons.IH show ?case by (simp add: node_entries_def)
qed (simp add: node_entries_def)

lemma pop_all_node_fields: "node_fields ps s = Some fs \<Longrightarrow> pop_nodes (length ps) fs = Some (node_entries ps s, [])"
  using pop_node_fields [of ps s fs "[]"] by simp

lemma pop_all_block_fields: "pop_blocks (nat (int (length bl))) (block_fields bl @ fs) = Some (bl, fs)"
  by (simp add: pop_block_fields)

text \<open>A message in which the master sends exactly one request, to the connection of a node.\<close>

definition sends_one :: "nat \<Rightarrow> io_request \<Rightarrow> master \<Rightarrow> master \<Rightarrow> bool" where
  "sends_one p rq s s' \<longleftrightarrow>
     (\<exists>msg. sent s' = sent s @ [Msg (node_handle p s) msg []] \<and> decode_io_request msg = Some rq)"

lemma decode_open_message:
  assumes "send_open_request_to_IOnodes a node s = Some s'" "deref_file a s = Some ofi"
    "deref_stat (of_file_status ofi) s = Some fs"
  shows "\<exists>msg. sent s' = sent s @ [Msg (node_handle node s) msg []] \<and> msg_fits msg \<and>
    decode_io_request msg = Some (IO_open (of_file_no ofi) (of_flag ofi) (exist_flag fs) (of_file_status ofi) (of_block_list ofi)
      (if primary_replica_node ofi = Some node then MAIN_REPLICA else SUB_REPLICA)
      (if primary_replica_node ofi = Some node then node_entries (of_IOnodes_set ofi) s else []))"
proof -
  let ?nodes = "if primary_replica_node ofi = Some node then of_IOnodes_set ofi else []"
  let ?mf = "if primary_replica_node ofi = Some node then MAIN_REPLICA else SUB_REPLICA"
  let ?msg = "\<lambda>r. [F_int OPEN_FILE, F_off (of_file_no ofi), F_int (of_flag ofi), F_int (exist_flag fs),
           F_str (of_file_status ofi), F_int (int (length (of_block_list ofi)))] @ block_fields (of_block_list ofi)
           @ F_int ?mf # F_int (int (length ?nodes)) # r"
  obtain ni :: node_info and r where r: "deref_node node s = Some ni" "node_fields ?nodes s = Some r"
    "send_checked (ni_handle ni) (?msg r) s = Some s'"
    using assms by (cases "primary_replica_node ofi = Some node")
      (auto simp: send_open_request_to_IOnodes_def send_replica_nodes_info_def bind_eq_Some_conv)
  have "decode_io_request (?msg r) =
      Some (IO_open (of_file_no ofi) (of_flag ofi) (exist_flag fs) (of_file_status ofi) (of_block_list ofi) ?mf (node_entries ?nodes s))"
    using pop_all_node_fields [OF r(2)] by (simp add: decode_io_request_def pop_block_fields del: if_image_distrib split del: if_split)
  moreover have "node_entries ?nodes s = (if primary_replica_node ofi = Some node then node_entries (of_IOnodes_set ofi) s else [])"
    by (simp add: node_entries_def)
  moreover have "sent s' = sent s @ [Msg (node_handle node s) (?msg r) []]" "msg_fits (?msg r)"
    using r(1,3) by (auto simp: send_checked_def send_def node_handle_def split: if_splits)
  ultimately show ?thesis by (intro exI [of _ "?msg r"]) simp
qed

lemma decode_promotion:
  assumes "resend_replica_nodes_info_to_new_node a p q s = Some s'" "deref_file a s = Some ofi" "deref_node q s = Some nn"
  shows "sends_one p (IO_promoted (of_file_no ofi) (ni_id nn) MAIN_REPLICA (node_entries (of_IOnodes_set ofi) s)) s s'"
proof -
  let ?msg = "\<lambda>r. [F_int PROMOTED_TO_PRIMARY_REPLICA, F_off (of_file_no ofi), F_off (ni_id nn), F_int MAIN_REPLICA,
       F_int (int (length (of_IOnodes_set ofi)))] @ r"
  obtain pn :: node_info and r where r: "deref_node p s = Some pn" "node_fields (of_IOnodes_set ofi) s = Some r"
    "send_checked (ni_handle pn) (?msg r) s = Some s'"
    using assms by (auto simp: resend_replica_nodes_info_to_new_node_def send_replica_nodes_info_def bind_eq_Some_conv)
  then have "sent s' = sent s @ [Msg (node_handle p s) (?msg r) []]"
    by (auto simp: send_checked_def send_def node_handle_def split: if_splits)
  then show ?thesis
    using pop_all_node_fields [OF r(2)] by (auto simp: sends_one_def decode_io_request_def)
qed

lemma sends_oneI:
  "deref_node p s = Some ni \<Longrightarrow> sent s' = sent s @ [Msg (ni_handle ni) msg []] \<Longrightarrow> decode_io_request msg = Some rq \<Longrightarrow>
     sends_one p rq s s'"
  by (auto simp: sends_one_def node_handle_def)

lemma decode_flush_close:
  assumes "map_find n (buffered_files s) = Some a" "deref_file a s = Some ofi" "primary_replica_node ofi = Some main"
  shows "parse_flush_file h n s = Some (r, s') \<Longrightarrow>
      sends_one main (IO_flush n) (send h [F_int SUCCESS] s) (s'\<lparr>sent := butlast (sent s')\<rparr>) \<and> last (sent s') = Stale_task"
    "parse_close_file h n s = Some (r, s') \<Longrightarrow> sends_one main (IO_close n) (send h [F_int SUCCESS] s) s'"
proof -
  let ?s1 = "send h [F_int SUCCESS] s"
  have d: "deref_file a ?s1 = Some ofi" "deref_node x ?s1 = deref_node x s" for x
    using assms(2) by (simp_all add: deref_file_def deref_node_def send_def)
  show "sends_one main (IO_flush n) ?s1 (s'\<lparr>sent := butlast (sent s')\<rparr>) \<and> last (sent s') = Stale_task"
    if f: "parse_flush_file h n s = Some (r, s')"
  proof -
    obtain ni :: node_info where ni: "deref_node main s = Some ni"
      "s' = (send (ni_handle ni) [F_int FLUSH_FILE, F_off n] ?s1)
         \<lparr>sent := sent (send (ni_handle ni) [F_int FLUSH_FILE, F_off n] ?s1) @ [Stale_task]\<rparr>"
      using f assms d by (auto simp: parse_flush_file_def Let_def bind_eq_Some_conv)
    have "sends_one main (IO_flush n) ?s1 (s'\<lparr>sent := butlast (sent s')\<rparr>)"
      by (rule sends_oneI [of main _ ni _ "[F_int FLUSH_FILE, F_off n]"])
         (use ni(1) d(2) in \<open>simp_all add: ni(2) send_def decode_io_request_def butlast_append\<close>)
    then show ?thesis by (simp add: ni(2))
  qed
  show "sends_one main (IO_close n) ?s1 s'" if c: "parse_close_file h n s = Some (r, s')"
  proof -
    obtain ni :: node_info where ni: "deref_node main s = Some ni" "s' = send (ni_handle ni) [F_int CLOSE_FILE, F_off n] ?s1"
      using c assms d by (auto simp: parse_close_file_def Let_def bind_eq_Some_conv)
    show ?thesis
      by (rule sends_oneI [of main _ ni _ "[F_int CLOSE_FILE, F_off n]"])
         (use ni(1) d(2) in \<open>simp_all add: ni(2) send_def decode_io_request_def\<close>)
  qed
qed

lemma remove_IOnode_messages:
  assumes "deref_node p s = Some rn" "send_remove_IOnode_request p m s = Some s'"
  shows "sent s' = sent s @ map (\<lambda>(_, q). Msg (node_handle q s) [F_int REMOVE_IONODE, F_off (ni_id rn)] [])
                             (filter (\<lambda>(_, q). q \<noteq> p) m)"
  using assms
proof (induction p m s rule: send_remove_IOnode_request.induct)
  case (2 node k p it s)
  show ?case
  proof (cases "node = p")
    case False
    then obtain ni :: node_info where ni: "deref_node p s = Some ni"
      "send_remove_IOnode_request node it (send (ni_handle ni) [F_int REMOVE_IONODE, F_off (ni_id rn)] s) = Some s'"
      using 2(3,4) by (auto simp: bind_eq_Some_conv)
    have d: "deref_node x (send h g s) = deref_node x s" for x h g by (simp add: deref_node_def send_def)
    then have "node_handle x (send h g s) = node_handle x s" for x h g by (simp add: node_handle_def)
    with "2.IH"(1) [OF False ni(1) 2(3)] ni 2(3) False d show ?thesis
      by (auto simp: send_def node_handle_def)
  qed (use 2 in auto)
qed simp

section \<open>The blocks of a file that is opened\<close>

lemma append_blocks_effect:
  assumes "map_find n (io_files s) = Some f" "map_inv (f_blocks f)" "\<forall>b\<ge>io_fresh s. io_blocks s b = None"
    "distinct (map fst bl)" "\<forall>st\<in>fst ` set bl. map_find st (f_blocks f) = None"
  shows "\<exists>s' f'. append_blocks n bl s = Some s' \<and> map_find n (io_files s') = Some f' \<and> f_path f' = f_path f \<and>
    (\<forall>st. map_find st (f_blocks f') = None \<longleftrightarrow> map_find st (f_blocks f) = None \<and> st \<notin> fst ` set bl) \<and>
    (\<forall>st b. map_find st (f_blocks f) = Some b \<longrightarrow> map_find st (f_blocks f') = Some b) \<and>
    (\<forall>b<io_fresh s. io_blocks s' b = io_blocks s b) \<and>
    (\<forall>(st, sz)\<in>set bl. \<exists>b. map_find st (f_blocks f') = Some b \<and> io_blocks s' b = Some (new_block st sz False (f_exist f) n))"
  using assms
proof (induction n bl s arbitrary: f rule: append_blocks.induct)
  case (1 n s)
  then show ?case by simp
next
  case (2 n st sz bl s)
  let ?b = "io_fresh s" and ?blk = "new_block st sz False (f_exist f) n"
  let ?g = "f\<lparr>f_blocks := map_set st ?b (f_blocks f)\<rparr>"
  define s1 where "s1 = s\<lparr>io_fresh := ?b + 1, io_blocks := (io_blocks s)(?b \<mapsto> ?blk), io_files := map_set n ?g (io_files s)\<rparr>"
  have ins: "fst (map_insert st ?b (f_blocks f)) = map_set st ?b (f_blocks f)"
    using map_insert_eq [OF 2(3)] 2(6) by (simp add: map_find_None_iff)
  have step: "io_append_block n st sz s = Some s1"
    using 2(2) ins by (simp add: io_append_block_def create_new_block_def upd_iofile_def s1_def Let_def)
  have g: "map_find n (io_files s1) = Some ?g" "map_inv (f_blocks ?g)" "\<forall>b\<ge>io_fresh s1. io_blocks s1 b = None"
    "distinct (map fst bl)" "\<forall>st\<in>fst ` set bl. map_find st (f_blocks ?g) = None"
    using 2(3-6) by (auto simp: s1_def)
  from "2.IH" [OF step g] obtain s' f' where s': "append_blocks n bl s1 = Some s'" "map_find n (io_files s') = Some f'" "f_path f' = f_path f"
    "\<And>st'. map_find st' (f_blocks f') = None \<longleftrightarrow> map_find st' (f_blocks ?g) = None \<and> st' \<notin> fst ` set bl"
    "\<And>st' b. map_find st' (f_blocks ?g) = Some b \<Longrightarrow> map_find st' (f_blocks f') = Some b"
    "\<And>b. b < io_fresh s1 \<Longrightarrow> io_blocks s' b = io_blocks s1 b"
    "\<forall>(st, sz)\<in>set bl. \<exists>b. map_find st (f_blocks f') = Some b \<and> io_blocks s' b = Some (new_block st sz False (f_exist f) n)" by auto
  have new: "map_find st (f_blocks f') = Some ?b" "io_blocks s' ?b = Some ?blk" using s'(5) [of st ?b] s'(6) [of ?b] by (simp_all add: s1_def)
  have old: "io_blocks s' b = io_blocks s b" if "b < ?b" for b using s'(6) [of b] that by (simp add: s1_def)
  have keep: "map_find st' (f_blocks f') = Some b" if "map_find st' (f_blocks f) = Some b" for st' b
    using s'(5) [of st' b] that 2(6) by (cases "st' = st") auto
  have none: "map_find st' (f_blocks f') = None \<longleftrightarrow> map_find st' (f_blocks f) = None \<and> st' \<notin> fst ` set ((st, sz) # bl)" for st'
    using s'(4) [of st'] by auto
  show ?case
    by (rule exI [of _ s'], rule exI [of _ f'])
      (use step s'(1,2,3,7) new old keep none in \<open>simp del: append_blocks.simps(1)\<close>)
qed

text \<open>C20: every message a request or failure handler of the master composes for IOnodes (open,
  rename, truncate, remove, flush, close, promotion, replacement of a replica, removal of a
  node) is well typed for the IOnode: it goes to the connection of the node it is meant for, the
  IOnode decodes it to the request the master meant, and with the same values: file number,
  flags, path, blocks, offsets, whether the node is the main replica, and the numbers and
  addresses of the other nodes. Messages that carry lists are those that fit a message. The
  heart beat, which another thread sends, is not among them.\<close>

theorem master_messages_typed:
  "(send_open_request_to_IOnodes a node s = Some s' \<and> deref_file a s = Some ofi \<and> deref_stat (of_file_status ofi) s = Some fs \<longrightarrow>
     sends_one node (IO_open (of_file_no ofi) (of_flag ofi) (exist_flag fs) (of_file_status ofi) (of_block_list ofi)
      (if primary_replica_node ofi = Some node then MAIN_REPLICA else SUB_REPLICA)
      (if primary_replica_node ofi = Some node then node_entries (of_IOnodes_set ofi) s else [])) s s') \<and>
   (send_rename_request n path node s = Some s' \<longrightarrow> sends_one node (IO_rename n path) s s') \<and>
   (send_truncate_request n st sz node s = Some s' \<longrightarrow> sends_one node (IO_truncate n st (u64 (sz - st))) s s') \<and>
   (send_remove_request node n s = Some s' \<longrightarrow> sends_one node (IO_unlink n) s s') \<and>
   (resend_replica_nodes_info_to_new_node a p q s = Some s' \<and> deref_file a s = Some ofi \<and> deref_node q s = Some nn \<longrightarrow>
     sends_one p (IO_promoted (of_file_no ofi) (ni_id nn) MAIN_REPLICA (node_entries (of_IOnodes_set ofi) s)) s s') \<and>
   (replace_replica_nodes_info a q p s = Some s' \<and> deref_file a s = Some ofi \<and> primary_replica_node ofi = Some main \<and>
      deref_node q s = Some nn \<and> deref_node p s = Some rn \<longrightarrow>
     sends_one main (IO_replace (of_file_no ofi) (ni_id rn) (ni_id nn) (ni_uri nn)) s s') \<and>
   (map_find n (buffered_files s) = Some a \<and> deref_file a s = Some ofi \<and> primary_replica_node ofi = Some main \<and>
      parse_flush_file h n s = Some (r, s') \<longrightarrow>
     sends_one main (IO_flush n) (send h [F_int SUCCESS] s) (s'\<lparr>sent := butlast (sent s')\<rparr>) \<and> last (sent s') = Stale_task) \<and>
   (map_find n (buffered_files s) = Some a \<and> deref_file a s = Some ofi \<and> primary_replica_node ofi = Some main \<and>
      parse_close_file h n s = Some (r, s') \<longrightarrow> sends_one main (IO_close n) (send h [F_int SUCCESS] s) s') \<and>
   (deref_node p s = Some rn \<and> send_remove_IOnode_request p (registered_IOnodes s) s = Some s' \<longrightarrow>
     (\<exists>msg. decode_io_request msg = Some (IO_remove_IOnode (ni_id rn)) \<and>
        sent s' = sent s @ map (\<lambda>(_, q). Msg (node_handle q s) msg []) (filter (\<lambda>(_, q). q \<noteq> p) (registered_IOnodes s))))"
proof (intro conjI impI)
  assume "send_open_request_to_IOnodes a node s = Some s' \<and> deref_file a s = Some ofi \<and> deref_stat (of_file_status ofi) s = Some fs"
  then show "sends_one node (IO_open (of_file_no ofi) (of_flag ofi) (exist_flag fs) (of_file_status ofi) (of_block_list ofi)
      (if primary_replica_node ofi = Some node then MAIN_REPLICA else SUB_REPLICA)
      (if primary_replica_node ofi = Some node then node_entries (of_IOnodes_set ofi) s else [])) s s'"
    using decode_open_message [of a node s s' ofi fs] unfolding sends_one_def by blast
next
  assume "resend_replica_nodes_info_to_new_node a p q s = Some s' \<and> deref_file a s = Some ofi \<and> deref_node q s = Some nn"
  then show "sends_one p (IO_promoted (of_file_no ofi) (ni_id nn) MAIN_REPLICA (node_entries (of_IOnodes_set ofi) s)) s s'"
    using decode_promotion by blast
next
  assume "deref_node p s = Some rn \<and> send_remove_IOnode_request p (registered_IOnodes s) s = Some s'"
  then show "\<exists>msg. decode_io_request msg = Some (IO_remove_IOnode (ni_id rn)) \<and>
      sent s' = sent s @ map (\<lambda>(_, q). Msg (node_handle q s) msg []) (filter (\<lambda>(_, q). q \<noteq> p) (registered_IOnodes s))"
    using remove_IOnode_messages [of p s rn "registered_IOnodes s" s']
    by (intro exI [of _ "[F_int REMOVE_IONODE, F_off (ni_id rn)]"]) (simp add: decode_io_request_def)
next
  assume f: "map_find n (buffered_files s) = Some a \<and> deref_file a s = Some ofi \<and> primary_replica_node ofi = Some main \<and>
      parse_flush_file h n s = Some (r, s')"
  then show "sends_one main (IO_flush n) (send h [F_int SUCCESS] s) (s'\<lparr>sent := butlast (sent s')\<rparr>)" "last (sent s') = Stale_task"
    using decode_flush_close(1) [of n s a ofi main h r s'] by simp_all
next
  assume "map_find n (buffered_files s) = Some a \<and> deref_file a s = Some ofi \<and> primary_replica_node ofi = Some main \<and>
      parse_close_file h n s = Some (r, s')"
  then show "sends_one main (IO_close n) (send h [F_int SUCCESS] s) s'"
    using decode_flush_close(2) by blast
qed (auto simp: send_rename_request_def send_truncate_request_def send_remove_request_def replace_replica_nodes_info_def
    send_checked_def sends_one_def node_handle_def send_def decode_io_request_def bind_eq_Some_conv split: if_splits)

theorem master_messages_typed_witness:
  "(\<exists>s'. send_open_request_to_IOnodes 0 5 demo_open = Some s' \<and>
      sends_one 5 (IO_open 0 2 0 ''/f'' (blocks 1 (\<lambda>_. 10)) MAIN_REPLICA []) demo_open s') \<and>
   (\<exists>s'. send_rename_request 0 ''/g'' 5 demo_open = Some s' \<and> sends_one 5 (IO_rename 0 ''/g'') demo_open s')"
proof -
  let ?ofi = "(new_open_file_info 0 2 ''/f'')\<lparr>of_block_list := blocks 1 (\<lambda>_. 10), primary_replica_node := Some 5\<rparr>"
  let ?fs = "Master_file_stat\<lparr>fs_status := zero_stat\<lparr>st_size := 10\<rparr>, opened_file_info := Some 0\<rparr>"
  have d: "deref_file 0 demo_open = Some ?ofi" "deref_stat (of_file_status ?ofi) demo_open = Some ?fs"
    by (simp_all add: deref_file_def deref_stat_def demo_open_def new_open_file_info_def)
  obtain s' s'' where s': "send_open_request_to_IOnodes 0 5 demo_open = Some s'" "send_rename_request 0 ''/g'' 5 demo_open = Some s''"
    by (auto simp: send_rename_request_def send_open_request_to_IOnodes_def send_replica_nodes_info_def send_checked_def
        msg_fits_def block_fields_def blocks_def deref_file_def deref_stat_def deref_node_def demo_open_def new_open_file_info_def)
  have f: "of_file_no ?ofi = 0" "of_flag ?ofi = 2" "of_file_status ?ofi = ''/f''" "of_block_list ?ofi = blocks 1 (\<lambda>_. 10)"
    "primary_replica_node ?ofi = Some 5" "of_IOnodes_set ?ofi = []" "exist_flag ?fs = 0"
    by (simp_all add: new_open_file_info_def Master_file_stat_def)
  note m = master_messages_typed [where n = 0 and path = "''/g''" and node = 5 and s = demo_open]
  have "sends_one 5 (IO_open 0 2 0 ''/f'' (blocks 1 (\<lambda>_. 10)) MAIN_REPLICA []) demo_open s'"
    using mp [OF conjunct1 [OF m [where a = 0 and s' = s' and ofi = ?ofi and fs = ?fs]]] s'(1) d unfolding f
    by (simp add: node_entries_def)
  moreover have "sends_one 5 (IO_rename 0 ''/g'') demo_open s''"
    using mp [OF conjunct1 [OF conjunct2 [OF m [where s' = s'']]] s'(2)] .
  ultimately show ?thesis using s' by blast
qed

text \<open>C19: an open request of the master makes the IOnode hold what the master holds: the request the
  master sends for an open file whose blocks fit a message (the request is sent at all only
  then), handled by an IOnode that does not have the number yet, leaves
  the file under the same number and path, with a block for exactly the offsets of the
  master's block list and with their sizes. A file whose path and blocks do not fit overruns
  the message and no request is sent.\<close>

theorem open_request_reaches_IOnode:
  assumes "deref_file a s = Some ofi" "map_inv (of_block_list ofi)" "of_IOnodes_set ofi = []"
    and "primary_replica_node ofi = Some node" "deref_node node s = Some ni" "deref_stat (of_file_status ofi) s = Some fs"
    and "map_inv (io_files t)" "\<forall>b\<ge>io_fresh t. io_blocks t b = None" "map_find (of_file_no ofi) (io_files t) = None"
  shows "if open_request_fits (of_file_status ofi) (length (of_block_list ofi))
   then \<exists>s' msg t' f. send_open_request_to_IOnodes a node s = Some s' \<and>
    sent s' = sent s @ [Msg (ni_handle ni) msg []] \<and> parse_io_request h' task msg t = Some (SUCCESS, t') \<and>
    map_find (of_file_no ofi) (io_files t') = Some f \<and> f_path f = of_file_status ofi \<and>
    (\<forall>st. case map_find st (of_block_list ofi) of
        None \<Rightarrow> map_find st (f_blocks f) = None
      | Some sz \<Rightarrow> \<exists>b blk. map_find st (f_blocks f) = Some b \<and> io_blocks t' b = Some blk \<and> b_start blk = st \<and> b_data_size blk = sz)
   else send_open_request_to_IOnodes a node s = None"
proof (cases "open_request_fits (of_file_status ofi) (length (of_block_list ofi))")
  case False
  then show ?thesis using send_open_request_eq [OF assms(5,1,6,4,3)] by simp
next
  case True
  let ?n = "of_file_no ofi" and ?bl = "of_block_list ofi" and ?exist = "exist_flag fs"
  from True send_open_request_eq [OF assms(5,1,6,4,3)] obtain s' where s': "send_open_request_to_IOnodes a node s = Some s'" by auto
  from decode_open_message [OF s' assms(1,6)] assms(3,4,5) obtain msg where
    d: "sent s' = sent s @ [Msg (ni_handle ni) msg []]"
      "decode_io_request msg = Some (IO_open ?n (of_flag ofi) ?exist (of_file_status ofi) ?bl MAIN_REPLICA [])"
    by (auto simp: node_entries_def node_handle_def)
  let ?f = "new_iofile (of_file_status ofi) ?exist ?n"
  define t1 where "t1 = t\<lparr>io_files := fst (map_insert ?n ?f (io_files t))\<rparr>"
  have "distinct (map fst ?bl)" using assms(2) by (metis map_inv_def strict_sorted_iff)
  moreover have "map_find ?n (io_files t1) = Some ?f" using map_insert_find [OF assms(7)] assms(9) by (simp add: t1_def map_find_None_iff)
  moreover have "\<forall>b\<ge>io_fresh t1. io_blocks t1 b = None" using assms(8) by (simp add: t1_def)
  ultimately obtain t' f where t': "append_blocks ?n ?bl t1 = Some t'" "map_find ?n (io_files t') = Some f" "f_path f = of_file_status ofi"
    "\<And>st. map_find st (f_blocks f) = None \<longleftrightarrow> st \<notin> fst ` set ?bl"
    "\<forall>(st, sz)\<in>set ?bl. \<exists>b. map_find st (f_blocks f) = Some b \<and> io_blocks t' b = Some (new_block st sz False ?exist ?n)"
    using append_blocks_effect [of ?n t1 ?f ?bl] by (auto simp: new_iofile_def)
  have "parse_io_request h' task msg t = Some (SUCCESS, t')"
    using d(2) assms(9) t'(1) by (simp add: parse_io_request_def io_open_file_def t1_def)
  moreover have "case map_find st ?bl of None \<Rightarrow> map_find st (f_blocks f) = None
      | Some sz \<Rightarrow> \<exists>b blk. map_find st (f_blocks f) = Some b \<and> io_blocks t' b = Some blk \<and> b_start blk = st \<and> b_data_size blk = sz" for st
  proof (cases "map_find st ?bl")
    case None
    then have "st \<notin> fst ` set ?bl" by (simp add: map_find_None_iff)
    then show ?thesis using t'(4) None by simp
  next
    case (Some sz)
    then have "(st, sz) \<in> set ?bl" by (rule map_find_Some_in)
    then show ?thesis using t'(5) Some by (fastforce simp: new_block_def)
  qed
  ultimately show ?thesis using True s' d(1) t'(2,3) by auto
qed

theorem open_request_reaches_IOnode_witness:
  "\<exists>s' h msg t' f b blk. send_open_request_to_IOnodes 0 5 demo_open = Some s' \<and> sent s' = sent demo_open @ [Msg h msg []] \<and>
     parse_io_request 7 (data_task []) msg (ionode_init 1048576 ''/m'' good_env (\<lambda>_. None) (\<lambda>_ _. 0)) = Some (SUCCESS, t') \<and>
     map_find 0 (io_files t') = Some f \<and> f_path f = ''/f'' \<and> map_find 0 (f_blocks f) = Some b \<and> io_blocks t' b = Some blk \<and> b_data_size blk = 10"
proof -
  let ?ofi = "(new_open_file_info 0 2 ''/f'')\<lparr>of_block_list := blocks 1 (\<lambda>_. 10), primary_replica_node := Some 5\<rparr>"
  let ?t = "ionode_init 1048576 ''/m'' good_env (\<lambda>_. None) (\<lambda>_ _. 0)"
  have f: "of_file_no ?ofi = 0" "of_file_status ?ofi = ''/f''" "of_block_list ?ofi = [(0, 10)]" "of_IOnodes_set ?ofi = []"
    "primary_replica_node ?ofi = Some 5"
    by (simp_all add: new_open_file_info_def blocks_def)
  have d: "deref_file 0 demo_open = Some ?ofi" "map_inv (of_block_list ?ofi)"
    "deref_node 5 demo_open = Some ((new_node_info 0 ''n1'' 100 7)\<lparr>stored_files := [0]\<rparr>)"
    "deref_stat (of_file_status ?ofi) demo_open =
       Some (Master_file_stat\<lparr>fs_status := zero_stat\<lparr>st_size := 10\<rparr>, opened_file_info := Some 0\<rparr>)"
    unfolding f by (simp_all add: deref_file_def deref_node_def deref_stat_def demo_open_def map_inv_def)
  have q: "map_inv (io_files ?t)" "\<forall>b\<ge>io_fresh ?t. io_blocks ?t b = None" by (simp_all add: ionode_init_def map_inv_def)
  have n: "map_find (of_file_no ?ofi) (io_files ?t) = None" unfolding f by (simp add: ionode_init_def)
  have fits: "open_request_fits ''/f'' (length [(0 :: int, 10 :: int)])" by (simp add: open_request_fits_def)
  from open_request_reaches_IOnode [OF d(1,2) f(4,5) d(3,4) q n, of 7 "data_task []"] obtain s' h msg t' fl where
    r: "send_open_request_to_IOnodes 0 5 demo_open = Some s'" "sent s' = sent demo_open @ [Msg h msg []]"
      "parse_io_request 7 (data_task []) msg ?t = Some (SUCCESS, t')"
      "map_find 0 (io_files t') = Some fl" "f_path fl = ''/f''"
      "\<And>st. case map_find st [(0, 10)] of None \<Rightarrow> map_find st (f_blocks fl) = None
      | Some sz \<Rightarrow> \<exists>b blk. map_find st (f_blocks fl) = Some b \<and> io_blocks t' b = Some blk \<and> b_start blk = st \<and> b_data_size blk = sz"
    unfolding f using fits by (simp only: if_True) blast
  have "\<exists>b blk. map_find 0 (f_blocks fl) = Some b \<and> io_blocks t' b = Some blk \<and> b_data_size blk = 10" using r(6) [of 0] by auto
  then show ?thesis using r(1-5) by blast
qed

end
