(* ===== verification/Client_Cluster.thy ===== *)
theory Client_Cluster
  imports Client_Data Cluster
begin

text \<open>
  The client, one master and one IOnode together. The world of the client is the state of the two
  servers; a query is handled by the dispatcher of the server it goes to, messages of the master
  to the IOnode are delivered before the client goes on, and the data synchronisation thread of
  the IOnode has run when the client gets its answer. Connection 0 of the client is the master,
  connection 1 the IOnode; on the side of the servers the client is connection 0.

  The contract \<open>file_service\<close> of \<open>Client_Data\<close> is discharged for this world.
\<close>

section \<open>The servers as the client's world\<close>

record cluster =
  cw_master :: master
  cw_node :: ionode

fun reply_to :: "int \<Rightarrow> outmsg list \<Rightarrow> (field list \<times> byte list) option" where
  "reply_to h [] = None"
| "reply_to h (Msg h' fs names # ms) = (if h' = h then Some (fs, strings_bytes names) else reply_to h ms)"
| "reply_to h (Stale_task # ms) = reply_to h ms"

fun io_reply_to :: "int \<Rightarrow> io_msg list \<Rightarrow> (field list \<times> byte list) option" where
  "io_reply_to h [] = None"
| "io_reply_to h (Io_msg h' fs d # ms) = (if h' = h then Some (fs, d) else io_reply_to h ms)"

fun run_sync :: "data_sync_task list \<Rightarrow> ionode \<Rightarrow> ionode option" where
  "run_sync [] s = Some s"
| "run_sync (d # ds) s = do { s1 \<leftarrow> data_sync_parser d s; run_sync ds s1 }"

definition node_query :: "field list \<Rightarrow> byte list \<Rightarrow> ionode \<Rightarrow> (field list \<times> byte list) option \<times> ionode" where
  "node_query msg data s =
     (case do { (_, s1) \<leftarrow> parse_io_request 0 (data_task data) msg s; run_sync (io_sync_tasks s1) (s1\<lparr>io_sync_tasks := []\<rparr>) } of
        None \<Rightarrow> (None, s)
      | Some s2 \<Rightarrow> (io_reply_to 0 (drop (length (io_sent s)) (io_sent s2)), s2))"

fun deliver :: "outmsg \<Rightarrow> ionode \<Rightarrow> ionode" where
  "deliver (Msg h fs names) s = (if h = 0 then s else snd (node_query fs [] s))"
| "deliver Stale_task s = s"

definition cluster_query :: "os_env \<Rightarrow> int \<Rightarrow> field list \<Rightarrow> byte list \<Rightarrow> cluster \<Rightarrow> (field list \<times> byte list) option \<times> cluster" where
  "cluster_query env h msg data w =
     (if h = 0 then
        (case parse_request env 0 0 msg (cw_master w) of
           None \<Rightarrow> (None, w)
         | Some (_, m) \<Rightarrow>
             let out = drop (length (sent (cw_master w))) (sent m)
             in (reply_to 0 out, \<lparr>cw_master = m, cw_node = fold deliver out (cw_node w)\<rparr>))
      else map_prod id (\<lambda>s. w\<lparr>cw_node := s\<rparr>) (node_query msg data (cw_node w)))"

text \<open>\<^verbatim>\<open>Connect\<close> appends the uri of the client to the first message.\<close>

definition cluster_connect :: "string \<Rightarrow> field list \<Rightarrow> cluster \<Rightarrow> (int \<times> field list) option \<times> cluster" where
  "cluster_connect uri msg w =
     (let (r, s) = node_query (msg @ [F_str ''client'']) [] (cw_node w)
      in (map_option (\<lambda>(fs, _). (1, fs)) r, w\<lparr>cw_node := s\<rparr>))"

definition cluster_server :: "os_env \<Rightarrow> (string \<Rightarrow> size_t) \<Rightarrow> cluster server" where
  "cluster_server env hash = \<lparr>srv_query = cluster_query env, srv_connect = cluster_connect,
     srv_post = (\<lambda>h msg w. snd (cluster_query env h msg [] w)), srv_time = (\<lambda>_. env_time env), srv_hash = hash\<rparr>"

section \<open>What the servers hold of a file\<close>

text \<open>
  The address of the node has at most 99 characters, so that a reply with 240 blocks fits its
  message.
\<close>

abbreviation "MAX_URI_LENGTH \<equiv> 99 :: nat"

lemma reply_fits_bound: "length uri \<le> MAX_URI_LENGTH \<Longrightarrow> n \<le> MAX_REPLY_BLOCKS \<Longrightarrow> reply_fits uri n"
  by (simp add: reply_fits_def)

definition master_holds :: "master \<Rightarrow> ssize_t \<Rightarrow> ssize_t \<Rightarrow> string \<Rightarrow> size_t \<Rightarrow> bool" where
  "master_holds M n node uri z \<longleftrightarrow> master_inv M \<and>
     (\<exists>a ofi m g fs main ni. map_find n (buffered_files M) = Some a \<and> deref_file a M = Some ofi \<and> of_block_list ofi = blocks m g \<and>
        (\<forall>j<m. 0 \<le> g j \<and> g j \<le> BLOCK_SIZE) \<and> z \<le> int m * BLOCK_SIZE \<and> deref_stat (of_file_status ofi) M = Some fs \<and>
        st_size (fs_status fs) = z \<and> primary_replica_node ofi = Some main \<and> deref_node main M = Some (ni :: node_info) \<and>
        ni_id ni = node \<and> ni_uri ni = uri \<and> length uri \<le> MAX_URI_LENGTH)"

definition node_holds :: "ionode \<Rightarrow> ssize_t \<Rightarrow> byte list \<Rightarrow> bool" where
  "node_holds s n xs \<longleftrightarrow> io_sync_tasks s = [] \<and>
     (\<exists>sp. refines s sp \<and> sp_path sp n \<noteq> None \<and> (\<forall>k<length xs. sp_data sp n (int k) = Some (xs ! k)))"

definition cluster_serves :: "ssize_t \<Rightarrow> ssize_t \<Rightarrow> string \<Rightarrow> cluster \<Rightarrow> byte list \<Rightarrow> size_t \<Rightarrow> bool" where
  "cluster_serves n node uri w xs z \<longleftrightarrow> master_holds (cw_master w) n node uri z \<and> node_holds (cw_node w) n xs \<and> int (length xs) \<le> z"

lemma master_holds_size: "master_holds M n node uri z \<Longrightarrow> 0 \<le> z \<and> z < 4611686018427387904"
  unfolding master_holds_def by (auto simp: sizes_inv_def deref_stat_def dest!: master_invD(4))

lemma refines_frame:
  "refines (io_send h fs d s) sp = refines s sp" "refines (s\<lparr>io_sync_tasks := ts\<rparr>) sp = refines s sp"
proof -
  have v: "view (io_send h fs d s) = view s" "view (s\<lparr>io_sync_tasks := ts\<rparr>) = view s" by (simp_all add: io_send_def view_def)
  show "refines (io_send h fs d s) sp = refines s sp"
    unfolding refines_def io_inv_def v by (simp add: io_send_def quiet_def)
  show "refines (s\<lparr>io_sync_tasks := ts\<rparr>) sp = refines s sp"
    unfolding refines_def io_inv_def v by (simp add: quiet_def)
qed

section \<open>The IOnode keeps the contract\<close>

lemma node_connect_ok:
  assumes "node_holds s n xs"
  shows "\<exists>s'. node_query [F_int NEW_CLIENT, F_str ''client''] [] s = (Some ([F_int SUCCESS], []), s') \<and> node_holds s' n xs"
proof -
  let ?s = "io_send 0 [F_int SUCCESS] [] s"
  have "node_query [F_int NEW_CLIENT, F_str ''client''] [] s = (Some ([F_int SUCCESS], []), ?s\<lparr>io_sync_tasks := []\<rparr>)"
    using assms by (simp add: node_query_def parse_io_request_def decode_io_request_def register_new_client_def node_holds_def io_send_def)
  moreover have "node_holds (?s\<lparr>io_sync_tasks := []\<rparr>) n xs" using assms by (simp add: node_holds_def refines_frame)
  ultimately show ?thesis by blast
qed

lemma overwrite_put:
  assumes "q \<le> length xs" "\<forall>k<length xs. f (int k) = Some (xs ! k)" "k < length (put q bs xs)"
  shows "overwrite f (int q) bs (int k) = Some (put q bs xs ! k)"
proof -
  have "k < max (length xs) (q + length bs)" using assms(3) length_put [OF assms(1)] by simp
  then show ?thesis using nth_put [OF assms(1), of k bs] assms(1,2) by (auto simp: overwrite_def nat_diff_distrib' split: if_splits)
qed

lemma node_write_ok:
  assumes "node_holds s n xs" "bs \<noteq> []" "length bs \<le> MAX_TRANSFER_SIZE" "0 \<le> st" "BLOCK_SIZE dvd st" "0 \<le> off" "off < BLOCK_SIZE"
    "st + off \<le> int (length xs)" "st + off + int (length bs) < 4611686018427387904"
  shows "\<exists>s'. node_query [F_int WRITE_FILE, F_off n, F_off st, F_off off, F_size (int (length bs))] bs s = (Some ([F_int SUCCESS], []), s') \<and>
    node_holds s' n (put (nat (st + off)) bs xs)"
proof -
  let ?t = "data_task bs" and ?sz = "int (length bs)" and ?pos = "nat (st + off)"
  from assms(1) obtain sp where sp: "io_sync_tasks s = []" "refines s sp" "sp_path sp n \<noteq> None" "\<forall>k<length xs. sp_data sp n (int k) = Some (xs ! k)"
    by (auto simp: node_holds_def)
  have pl: "payload ?t ?sz = bs" by (simp add: payload_data_task)
  have "admissible sp (0, ?t, IO_write n st off ?sz)" using assms sp(3) by (auto simp: data_task_def BLOCK_SIZE_def)
  from step_write [OF sp(2) this] sp(1) obtain s1 where s1: "receive_data 0 n st off ?sz ?t s = Some (SUCCESS, s1)"
    "refines s1 (spec_step (0, ?t, IO_write n st off ?sz) sp)" "io_sent s1 = io_sent s"
    "io_sync_tasks s1 = [\<lparr>ds_id = DATA_SYNC_WRITE, ds_file = n, ds_start = st, ds_offset = off, ds_size = ?sz, ds_receiver = get_receiver_id ?t, ds_handle = 0\<rparr>]"
    by auto
  let ?s1 = "s1\<lparr>io_sync_tasks := []\<rparr>"
  let ?sp = "spec_step (0, ?t, IO_write n st off ?sz) sp"
  have "map_find n (io_files s1) \<noteq> None" using refinesD(7) [OF s1(2)] sp(3) by simp
  then obtain f where f: "map_find n (io_files s1) = Some f" by blast
  then have "f_pool f = []" using refinesD(1) [OF s1(2)] by (auto simp: io_inv_def quiet_def)
  then have "run_sync (io_sync_tasks s1) ?s1 = Some (io_send 0 [F_int SUCCESS] [] ?s1)"
    using f s1(4) by (simp add: data_sync_parser_def sync_write_data_def)
  then have q: "node_query [F_int WRITE_FILE, F_off n, F_off st, F_off off, F_size ?sz] bs s = (Some ([F_int SUCCESS], []), io_send 0 [F_int SUCCESS] [] ?s1)"
    using s1(1,3) by (simp add: node_query_def parse_io_request_def decode_io_request_def io_send_def)
  have pos: "int ?pos = st + off" "?pos \<le> length xs" using assms(4,6,8) by auto
  have "sp_data ?sp n (int k) = Some (put ?pos bs xs ! k)" if "k < length (put ?pos bs xs)" for k
    using overwrite_put [OF pos(2) sp(4) that] unfolding spec_step.simps pl pos(1) by simp
  moreover have "refines (io_send 0 [F_int SUCCESS] [] ?s1) ?sp" using s1(2) unfolding refines_frame .
  moreover have "sp_path ?sp n \<noteq> None" using sp(3) by simp
  moreover have "io_sync_tasks (io_send 0 [F_int SUCCESS] [] ?s1) = []" by (simp add: io_send_def)
  ultimately have "node_holds (io_send 0 [F_int SUCCESS] [] ?s1) n (put ?pos bs xs)" unfolding node_holds_def by blast
  then show ?thesis using q by blast
qed

lemma node_read_ok:
  assumes "node_holds s n xs" "0 < sz" "0 \<le> st" "BLOCK_SIZE dvd st" "0 \<le> off" "off + sz \<le> BLOCK_SIZE" "st + off + sz \<le> int (length xs)"
  shows "\<exists>s'. node_query [F_int READ_FILE, F_off n, F_off st, F_off off, F_size sz] [] s =
    (Some ([F_int SUCCESS], take (nat sz) (drop (nat (st + off)) xs)), s') \<and> node_holds s' n xs"
proof -
  from assms(1) obtain sp where sp: "io_sync_tasks s = []" "refines s sp" "sp_path sp n \<noteq> None" "\<forall>k<length xs. sp_data sp n (int k) = Some (xs ! k)"
    by (auto simp: node_holds_def)
  have b: "sp_data sp n (st + off + int i) = Some (xs ! (nat (st + off) + i))" if "i < nat sz" for i
  proof -
    have "st + off + int i = int (nat (st + off) + i)" "nat (st + off) + i < length xs" using assms(2,3,5,7) that by auto
    then show ?thesis using sp(4) by metis
  qed
  then have "admissible sp (0, data_task [], IO_read n st off sz)" using assms by simp
  from step_read [OF sp(2) this] sp(1) obtain s1 where s1: "send_data 0 n st off sz s = Some (SUCCESS, s1)" "refines s1 sp"
    "io_sent s1 = io_sent s @ [Io_msg 0 [F_int SUCCESS] (map (\<lambda>i. the (sp_data sp n (st + off + int i))) [0..<nat sz])]" "io_sync_tasks s1 = []" by auto
  have d: "map (\<lambda>i. the (sp_data sp n (st + off + int i))) [0..<nat sz] = take (nat sz) (drop (nat (st + off)) xs)"
    using b assms(2,3,5,7) by (intro nth_equalityI) auto
  have "node_query [F_int READ_FILE, F_off n, F_off st, F_off off, F_size sz] [] s = (Some ([F_int SUCCESS], take (nat sz) (drop (nat (st + off)) xs)), s1)"
    using s1 d by (simp add: node_query_def parse_io_request_def decode_io_request_def)
  moreover have "node_holds s1 n xs" using s1(2,4) sp(3,4) by (auto simp: node_holds_def)
  ultimately show ?thesis by blast
qed

section \<open>The master keeps the contract\<close>

lemma recv_attr_fields: "\<exists>st. recv_stat (attr_fields attr @ rest) = Some (st, rest) \<and> st_size st = st_size attr"
  by (simp add: recv_stat_def attr_fields_def)

lemma recv_file_size: "st_size (fs_status (recv_file_attr attr fs)) = max (st_size (fs_status fs)) (st_size attr)"
  by (simp add: recv_file_attr_def Let_def)

lemma master_reply:
  assumes "parse_request env 0 0 msg (cw_master w) = Some (r, send 0 rs m)" "sent m = sent (cw_master w)"
  shows "cluster_query env 0 msg data w = (Some (rs, []), w\<lparr>cw_master := send 0 rs m\<rparr>)"
  using assms by (simp add: cluster_query_def Let_def send_def)

lemma master_write_ok:
  assumes h: "master_holds M n node uri z" and r: "0 \<le> start" "start \<le> z" "0 < sz" "start + sz + BLOCK_SIZE < 4611686018427387904"
    and cnt: "block_count sz \<le> MAX_REPLY_BLOCKS" and attr: "st_size attr = max z (start + sz)"
  shows "\<exists>g s2. parse_request env 0 0 ([F_int WRITE_FILE, F_off n] @ attr_fields attr @ [F_off start, F_size sz]) M =
      Some (SUCCESS, send 0 (block_reply (max z (start + sz)) node uri
        (segment g (nat (start div BLOCK_SIZE)) (nat (start div BLOCK_SIZE) + block_count sz))) s2) \<and> sent s2 = sent M \<and>
      master_holds s2 n node uri (max z (start + sz))"
proof -
  let ?z = "max z (start + sz)"
  from h obtain a ofi m g fs main ni where o: "master_inv M" "map_find n (buffered_files M) = Some a" "deref_file a M = Some ofi"
    "of_block_list ofi = blocks m g" "\<forall>j<m. 0 \<le> g j \<and> g j \<le> BLOCK_SIZE" "z \<le> int m * BLOCK_SIZE" "deref_stat (of_file_status ofi) M = Some fs"
    "st_size (fs_status fs) = z" "primary_replica_node ofi = Some main" "deref_node main M = Some (ni :: node_info)" "ni_id ni = node" "ni_uri ni = uri"
    and uri: "length uri \<le> MAX_URI_LENGTH"
    unfolding master_holds_def by blast
  have fit: "reply_fits (ni_uri ni) (block_count sz)" using reply_fits_bound [OF uri cnt] o(12) by simp
  have z: "0 \<le> z" "z < 4611686018427387904" using master_holds_size [OF h] by auto
  from recv_attr_fields [of attr "[F_off start, F_size sz]"] obtain st where
    st: "recv_stat (attr_fields attr @ [F_off start, F_size sz]) = Some (st, [F_off start, F_size sz])" "st_size st = ?z" using attr by auto
  have stz: "st_size st < 4611686018427387904" using st(2) z r by (simp add: BLOCK_SIZE_def)
  have "start div BLOCK_SIZE \<le> int m * BLOCK_SIZE div BLOCK_SIZE" using r(2) o(6) by (intro zdiv_mono1) auto
  then have sm: "start div BLOCK_SIZE \<le> int m" by simp
  from write_file_reply [OF o(1-3) stz o(4,5) r(1,3,4) sm, of 0] o(7,9,10) fit obtain s2 m' g' msg where
    w: "parse_write_file 0 n st start sz M = Some (SUCCESS, send 0 msg s2)" "master_inv s2"
      "s2 = M\<lparr>file_stat_pool := map_set (of_file_status ofi) (recv_file_attr st fs) (file_stat_pool M),
              file_heap := map_set a (ofi\<lparr>of_block_list := blocks m' g'\<rparr>) (file_heap M)\<rparr>"
      "msg = [F_int SUCCESS, F_size (u64 (st_size (fs_status (recv_file_attr st fs)))), F_int 1, F_off (ni_id ni), F_str (ni_uri ni),
                  F_int (int (block_count sz))]
                 @ block_fields (map (\<lambda>i. (int i * BLOCK_SIZE, g' i)) [nat (start div BLOCK_SIZE)..<nat (start div BLOCK_SIZE) + block_count sz])"
      "m \<le> m'" "\<forall>j<m'. 0 \<le> g' j \<and> g' j \<le> BLOCK_SIZE"
      "\<forall>p. start \<le> p \<and> p < start + sz \<longrightarrow> nat (p div BLOCK_SIZE) < m' \<and> p mod BLOCK_SIZE < g' (nat (p div BLOCK_SIZE))" by auto
  have fz: "st_size (fs_status (recv_file_attr st fs)) = ?z" unfolding recv_file_size o(8) st(2) by simp
  have "u64 ?z = ?z" using z r by (intro u64_id) (auto simp: BLOCK_SIZE_def)
  then have msg: "msg = block_reply ?z node uri (segment g' (nat (start div BLOCK_SIZE)) (nat (start div BLOCK_SIZE) + block_count sz))"
    unfolding w(4) fz block_reply_def segment_def o(11,12) by simp
  have "nat ((start + sz - 1) div BLOCK_SIZE) < m'" using w(7) r(3) by simp
  then have "start + sz \<le> int m' * BLOCK_SIZE"
    using div_less_iff_mult_int [OF BLOCK_SIZE_pos(1), of "start + sz - 1" "int m'"] by linarith
  moreover have "z \<le> int m' * BLOCK_SIZE" using o(6) w(5) by (meson BLOCK_SIZE_pos(2) mult_right_mono of_nat_le_iff order_trans)
  ultimately have "?z \<le> int m' * BLOCK_SIZE" by simp
  then have "master_holds s2 n node uri ?z"
    unfolding master_holds_def using w(2,3,6) o fz uri
    by (intro conjI exI [of _ a] exI [of _ "ofi\<lparr>of_block_list := blocks m' g'\<rparr>"] exI [of _ m'] exI [of _ g'] exI [of _ "recv_file_attr st fs"]
        exI [of _ main] exI [of _ ni]) (simp_all add: deref_file_def deref_stat_def deref_node_def)
  moreover have "parse_request env 0 0 ([F_int WRITE_FILE, F_off n] @ attr_fields attr @ [F_off start, F_size sz]) M = Some (SUCCESS, send 0 msg s2)"
    using st(1) w(1) by (simp add: parse_request_def decode_request_def)
  ultimately show ?thesis using w(3) unfolding msg by (intro exI [of _ g'] exI [of _ s2]) simp
qed

lemma master_read_ok:
  assumes h: "master_holds M n node uri z" and r: "0 \<le> start" "0 < sz" "start + sz \<le> z"
    and cnt: "block_count sz \<le> MAX_REPLY_BLOCKS"
  shows "\<exists>g. parse_request env 0 0 [F_int READ_FILE, F_off n, F_off start, F_size sz] M =
      Some (SUCCESS, send 0 (block_reply z node uri
        (segment g (nat (start div BLOCK_SIZE)) (nat (start div BLOCK_SIZE) + block_count sz))) M)"
proof -
  from h obtain a ofi m g fs main ni where o: "master_inv M" "map_find n (buffered_files M) = Some a" "deref_file a M = Some ofi"
    "of_block_list ofi = blocks m g" "z \<le> int m * BLOCK_SIZE" "deref_stat (of_file_status ofi) M = Some fs"
    "st_size (fs_status fs) = z" "primary_replica_node ofi = Some main" "deref_node main M = Some (ni :: node_info)" "ni_id ni = node" "ni_uri ni = uri"
    and uri: "length uri \<le> MAX_URI_LENGTH"
    unfolding master_holds_def by blast
  have fit: "reply_fits (ni_uri ni) (block_count sz)" using reply_fits_bound [OF uri cnt] o(11) by simp
  have z: "0 \<le> z" "z < 4611686018427387904" using master_holds_size [OF h] by auto
  have u: "u64 z = z" using z by (intro u64_id) auto
  from read_file_reply [OF o(1-4) r(1,2), of 0] r(3) z(2) o(5-9) fit
  have "parse_read_file 0 n start sz M = Some (SUCCESS, send 0 (block_reply z node uri
        (segment g (nat (start div BLOCK_SIZE)) (nat (start div BLOCK_SIZE) + block_count sz))) M)"
    by (auto simp: block_reply_def segment_def u o(10,11))
  then show ?thesis by (intro exI [of _ g]) (simp add: parse_request_def decode_request_def)
qed

section \<open>The contract\<close>

lemma master_holds_send [simp]: "master_holds (send h fs M) n node uri z = master_holds M n node uri z"
  by (simp add: master_holds_def)

interpretation cl: file_service "cluster_server env hash" 0 1 n node uri "cluster_serves n node uri"
  for env hash n node uri
proof unfold_locales
  fix w xs z assume "cluster_serves n node uri w xs z"
  then show "int (length xs) \<le> z \<and> z < 4611686018427387904" by (auto simp: cluster_serves_def dest: master_holds_size)
next
  fix w xs z assume s: "cluster_serves n node uri w xs z"
  with node_connect_ok [of "cw_node w" n xs] obtain s' where "node_query [F_int NEW_CLIENT, F_str ''client''] [] (cw_node w) = (Some ([F_int SUCCESS], []), s')"
    "node_holds s' n xs" by (auto simp: cluster_serves_def)
  then show "\<exists>w'. srv_connect (cluster_server env hash) uri [F_int NEW_CLIENT] w = (Some (1, [F_int SUCCESS]), w') \<and> cluster_serves n node uri w' xs z"
    using s by (intro exI [of _ "w\<lparr>cw_node := s'\<rparr>"]) (simp add: cluster_server_def cluster_connect_def cluster_serves_def)
next
  fix w xs z start sz and attr :: stat
  assume s: "cluster_serves n node uri w xs z" and r: "0 \<le> start" "start \<le> int (length xs)" "0 < sz" "start + sz + BLOCK_SIZE < 4611686018427387904"
    and cnt: "block_count sz \<le> MAX_REPLY_BLOCKS" and attr: "st_size attr = max z (start + sz)"
  have sz: "master_holds (cw_master w) n node uri z" "start \<le> z" using s r(2) by (auto simp: cluster_serves_def)
  from master_write_ok [OF sz(1) r(1) sz(2) r(3,4) cnt attr, of env] obtain g s2 where
    w: "parse_request env 0 0 ([F_int WRITE_FILE, F_off n] @ attr_fields attr @ [F_off start, F_size sz]) (cw_master w) =
      Some (SUCCESS, send 0 (block_reply (max z (start + sz)) node uri (segment g (nat (start div BLOCK_SIZE)) (nat (start div BLOCK_SIZE) + block_count sz))) s2)"
      "sent s2 = sent (cw_master w)" "master_holds s2 n node uri (max z (start + sz))" by blast
  show "\<exists>g w'. srv_query (cluster_server env hash) 0 ([F_int WRITE_FILE, F_off n] @ attr_fields attr @ [F_off start, F_size sz]) [] w =
      (Some (block_reply (max z (start + sz)) node uri (segment g (nat (start div BLOCK_SIZE)) (nat (start div BLOCK_SIZE) + block_count sz)), []), w') \<and>
      cluster_serves n node uri w' xs (max z (start + sz))"
    using master_reply [OF w(1,2)] w(3) s
    by (intro exI [of _ g] exI [of _ "w\<lparr>cw_master := send 0 (block_reply (max z (start + sz)) node uri
        (segment g (nat (start div BLOCK_SIZE)) (nat (start div BLOCK_SIZE) + block_count sz))) s2\<rparr>"]) (simp add: cluster_server_def cluster_serves_def max.coboundedI1)
next
  fix w xs z start sz
  assume s: "cluster_serves n node uri w xs z" and r: "0 \<le> start" "0 < sz" "start + sz \<le> z" "block_count sz \<le> MAX_REPLY_BLOCKS"
  have "master_holds (cw_master w) n node uri z" using s by (simp add: cluster_serves_def)
  from master_read_ok [OF this r, of env] obtain g where
    w: "parse_request env 0 0 [F_int READ_FILE, F_off n, F_off start, F_size sz] (cw_master w) =
      Some (SUCCESS, send 0 (block_reply z node uri (segment g (nat (start div BLOCK_SIZE)) (nat (start div BLOCK_SIZE) + block_count sz))) (cw_master w))" by blast
  show "\<exists>g w'. srv_query (cluster_server env hash) 0 [F_int READ_FILE, F_off n, F_off start, F_size sz] [] w =
      (Some (block_reply z node uri (segment g (nat (start div BLOCK_SIZE)) (nat (start div BLOCK_SIZE) + block_count sz)), []), w') \<and> cluster_serves n node uri w' xs z"
    using master_reply [OF w refl] s
    by (intro exI [of _ g] exI [of _ "w\<lparr>cw_master := send 0 (block_reply z node uri
        (segment g (nat (start div BLOCK_SIZE)) (nat (start div BLOCK_SIZE) + block_count sz))) (cw_master w)\<rparr>"]) (simp add: cluster_server_def cluster_serves_def)
next
  fix w xs z st off and bs :: "byte list"
  assume s: "cluster_serves n node uri w xs z" and r: "bs \<noteq> []" "length bs \<le> MAX_TRANSFER_SIZE" "0 \<le> st" "BLOCK_SIZE dvd st" "0 \<le> off" "off < BLOCK_SIZE"
    "st + off \<le> int (length xs)" and b: "st + off + int (length bs) \<le> z"
  have h: "node_holds (cw_node w) n xs" "st + off + int (length bs) < 4611686018427387904" using s b by (auto simp: cluster_serves_def dest: master_holds_size)
  from node_write_ok [OF h(1) r h(2)] obtain s' where
    w: "node_query [F_int WRITE_FILE, F_off n, F_off st, F_off off, F_size (int (length bs))] bs (cw_node w) = (Some ([F_int SUCCESS], []), s')"
      "node_holds s' n (put (nat (st + off)) bs xs)" by blast
  have "int (length (put (nat (st + off)) bs xs)) \<le> z" using s r(3,5,7) b by (simp add: length_put cluster_serves_def max_def)
  then show "\<exists>rs d w'. srv_query (cluster_server env hash) 1 [F_int WRITE_FILE, F_off n, F_off st, F_off off, F_size (int (length bs))] bs w =
      (Some (F_int SUCCESS # rs, d), w') \<and> cluster_serves n node uri w' (put (nat (st + off)) bs xs) z"
    using w s by (intro exI [of _ "[]"] exI [of _ "w\<lparr>cw_node := s'\<rparr>"]) (simp add: cluster_server_def cluster_query_def cluster_serves_def)
next
  fix w xs z sz st off
  assume s: "cluster_serves n node uri w xs z" and r: "0 < sz" "0 \<le> st" "BLOCK_SIZE dvd st" "0 \<le> off" "off + sz \<le> BLOCK_SIZE" "st + off + sz \<le> int (length xs)"
  have "node_holds (cw_node w) n xs" using s by (simp add: cluster_serves_def)
  from node_read_ok [OF this r] obtain s' where
    "node_query [F_int READ_FILE, F_off n, F_off st, F_off off, F_size sz] [] (cw_node w) = (Some ([F_int SUCCESS], take (nat sz) (drop (nat (st + off)) xs)), s')"
    "node_holds s' n xs" by blast
  then show "\<exists>rs w'. srv_query (cluster_server env hash) 1 [F_int READ_FILE, F_off n, F_off st, F_off off, F_size sz] [] w =
      (Some (F_int SUCCESS # rs, take (nat sz) (drop (nat (st + off)) xs)), w') \<and> cluster_serves n node uri w' xs z"
    using s by (intro exI [of _ "[]"] exI [of _ "w\<lparr>cw_node := s'\<rparr>"]) (simp add: cluster_server_def cluster_query_def cluster_serves_def)
qed

text \<open>C6: reading and writing through the client act on a file of bytes with a position. On a client with an
  open descriptor, a master that has the file in its tables and an IOnode that holds its bytes,
  every sequence of the following calls is carried out to its end: writes that start inside the
  file or at its end (no holes), seeks to an absolute offset (\<^verbatim>\<open>SEEK_SET\<close> only), and reads that
  stay in one block or start at the start of a block, each transfer of at most 240 blocks of
  1 MiB (what the master's reply can hold; the node's address has at most 99 characters). The
  results are those of the byte list with a position, and
  afterwards the tables of the client and the master and the content of the IOnode are those of
  the resulting file. The master allocates the blocks and keeps the size, the IOnode stores and
  evicts, and the transfers are split at the largest message on the way.\<close>

theorem client_refines_file:
  assumes "attached c fd 0 1 n node (int (length xs)) pos" "0 \<le> pos" "cluster_serves n node uri (cl_world c) xs (int (length xs))"
    and "ops_ok ops (xs, pos)" "file_run ops (xs, pos) = (rs, ys, pos')"
  shows "\<exists>c'. client_run (cluster_server env hash) fd ops c = Some (rs, c') \<and> attached c' fd 0 1 n node (int (length ys)) pos' \<and>
    cluster_serves n node uri (cl_world c') ys (int (length ys))"
proof -
  have "cl.implements n node uri c fd (xs, pos)" using assms(1-3) by (simp add: cl.implements_def)
  from cl.run_ok [OF this assms(4), of env hash] show ?thesis using assms(5) by (auto simp: cl.implements_def)
qed

text \<open>A file without bytes, open at the master as number 0 and at the client as descriptor 1000.\<close>

definition demo_empty :: master where
  "demo_empty = demo_open
     \<lparr>file_stat_pool := [(''/f'', Master_file_stat\<lparr>opened_file_info := Some 0\<rparr>)],
      file_heap := [(0, (new_open_file_info 0 2 ''/f'')\<lparr>primary_replica_node := Some 5\<rparr>)]\<rparr>"

definition demo_client :: "cluster \<Rightarrow> cluster client" where
  "demo_client w = (client_init False w)\<lparr>cl_files := [(0, opened_file 1000 2 0)], cl_opened := (\<lambda>_. False)(0 := True), cl_paths := [(''/f'', 0)],
     cl_metas := [0 \<mapsto> (new_file_meta 0 1048576 zero_stat 0)\<lparr>fm_open_count := 1, fm_opened_fd := [1000], fm_it := ''/f''\<rparr>],
     cl_fresh := 1, cl_masters := [new_SCBB 0 0]\<rparr>"

lemma demo_empty_holds: "master_holds demo_empty 0 0 ''n1'' 0"
proof -
  have "{k. k < MAX_FILE_NUMBER \<and> k = 0} = {0}" by auto
  then have "master_inv demo_empty"
    by (auto simp: master_inv_defs demo_empty_def demo_open_def demo_master_def master_init_def file_nos_inv_def used_ids_def zero_stat_def
        id_pool_init_def new_node_info_def new_open_file_info_def split: if_splits)
  then show ?thesis unfolding master_holds_def
    by (intro conjI exI [of _ 0] exI [of _ "(new_open_file_info 0 2 ''/f'')\<lparr>primary_replica_node := Some 5\<rparr>"] exI [of _ "\<lambda>_. 0"]
        exI [of _ "Master_file_stat\<lparr>opened_file_info := Some 0\<rparr>"] exI [of _ "5 :: nat"] exI [of _ "(new_node_info 0 ''n1'' 100 7)\<lparr>stored_files := [0]\<rparr>"])
      (simp_all add: demo_empty_def demo_open_def deref_file_def deref_stat_def deref_node_def new_open_file_info_def blocks_def zero_stat_def new_node_info_def)
qed

lemma demo_serves:
  "\<exists>s. run_io [(7, data_task [], IO_open 0 2 NOT_EXIST ''/f'' [] 0 [])] (ionode_init 1048576 ''/m'' good_env (\<lambda>_. None) (\<lambda>_ _. 0)) = Some s \<and>
     cluster_serves 0 0 ''n1'' (cl_world (demo_client \<lparr>cw_master = demo_empty, cw_node = s\<rparr>)) [] (int (length ([] :: byte list))) \<and>
     attached (demo_client \<lparr>cw_master = demo_empty, cw_node = s\<rparr>) 1000 0 1 0 0 (int (length ([] :: byte list))) 0"
proof -
  let ?i = "ionode_init 1048576 ''/m'' good_env (\<lambda>_. None) (\<lambda>_ _. 0)"
  have "refines ?i empty_spec" by (rule init_refines [OF good_env_ok]) (simp_all add: BLOCK_SIZE_def)
  moreover have ad: "admissible empty_spec (7, data_task [], IO_open 0 2 NOT_EXIST ''/f'' [] 0 [])"
    by (simp add: empty_spec_def new_blocks_ok_def)
  ultimately obtain s where s: "io_open_file 0 2 NOT_EXIST ''/f'' [] [] ?i = Some (SUCCESS, s)"
    "refines s (spec_step (7, data_task [], IO_open 0 2 NOT_EXIST ''/f'' [] 0 []) empty_spec)" using step_open by blast
  have "io_sync_tasks s = []" using s(1) by (auto simp: io_open_file_def ionode_init_def)
  then have "node_holds s 0 []" using s(2) unfolding node_holds_def by auto
  then have "cluster_serves 0 0 ''n1'' (cl_world (demo_client \<lparr>cw_master = demo_empty, cw_node = s\<rparr>)) [] (int (length ([] :: byte list)))"
    using demo_empty_holds by (simp add: cluster_serves_def demo_client_def client_init_def)
  moreover have "attached (demo_client \<lparr>cw_master = demo_empty, cw_node = s\<rparr>) 1000 0 1 0 0 (int (length ([] :: byte list))) 0"
    by (simp add: attached_def attached_meta_def demo_client_def client_init_def fd_to_fid_def opened_file_def new_file_meta_def new_SCBB_def
        get_SCBB_def zero_stat_def map_inv_def)
  ultimately show ?thesis using s(1) by (intro exI [of _ s]) simp
qed

theorem client_refines_file_witness:
  "\<exists>s c'. run_io [(7, data_task [], IO_open 0 2 NOT_EXIST ''/f'' [] 0 [])] (ionode_init 1048576 ''/m'' good_env (\<lambda>_. None) (\<lambda>_ _. 0)) = Some s \<and>
     client_run (cluster_server \<lparr>env_time = 9, env_uid = 0, env_gid = 0\<rparr> (\<lambda>_. 0)) 1000 [Op_write [1, 2, 3], Op_seek 1, Op_read 5]
       (demo_client \<lparr>cw_master = demo_empty, cw_node = s\<rparr>) = Some ([Count 3, Count 1, Bytes [2, 3]], c')"
proof -
  from demo_serves obtain s where s: "run_io [(7, data_task [], IO_open 0 2 NOT_EXIST ''/f'' [] 0 [])] (ionode_init 1048576 ''/m'' good_env (\<lambda>_. None) (\<lambda>_ _. 0)) = Some s"
    "cluster_serves 0 0 ''n1'' (cl_world (demo_client \<lparr>cw_master = demo_empty, cw_node = s\<rparr>)) [] (int (length ([] :: byte list)))"
    "attached (demo_client \<lparr>cw_master = demo_empty, cw_node = s\<rparr>) 1000 0 1 0 0 (int (length ([] :: byte list))) 0" by blast
  have ok: "ops_ok [Op_write [1, 2, 3], Op_seek 1, Op_read 5] ([], 0)" by (simp add: BLOCK_SIZE_def block_count_def put_def Let_def)
  have run: "file_run [Op_write [1, 2, 3], Op_seek 1, Op_read 5] ([], 0) = ([Count 3, Count 1, Bytes [2, 3]], [1, 2, 3], 3)"
    by (simp add: put_def Let_def)
  from client_refines_file [OF s(3) order_refl s(2) ok run] s(1) show ?thesis by blast
qed

end
