(* ===== verification/Stream_Cluster.thy ===== *)
theory Stream_Cluster
  imports Stream_Data Client_Cluster
begin

text \<open>
  Streams on a client, a master and an IOnode: the contract \<open>client_file\<close> holds for every descriptor
  that the contract \<open>file_service\<close> serves, and so for the cluster.
\<close>

section \<open>A served descriptor keeps the contract\<close>

context file_service
begin

lemma implementsE:
  assumes "implements c fd (xs, pos)"
  obtains f m where "0 \<le> pos" "attached c fd mh ih n node (int (length xs)) pos" "serves (cl_world c) xs (int (length xs))"
    "map_find (fd_to_fid fd) (cl_files c) = Some f" "cl_metas c (op_meta f) = Some m" "st_size (fm_stat m) = int (length xs)" "op_current_point f = pos"
    "int (length xs) < 4611686018427387904"
proof -
  have i: "0 \<le> pos" "attached c fd mh ih n node (int (length xs)) pos" "serves (cl_world c) xs (int (length xs))" using assms by (simp_all add: implements_def)
  from i(2) obtain f where f: "map_find (fd_to_fid fd) (cl_files c) = Some f" "op_current_point f = pos" "attached_meta c (op_meta f) mh ih n node (int (length xs))"
    by (auto simp: attached_def)
  from f(3) obtain m where "cl_metas c (op_meta f) = Some m" "st_size (fm_stat m) = int (length xs)" by (rule attached_metaE)
  then show thesis using i f(1,2) sizes [OF i(3)] that by blast
qed

lemma seek_cur_ok:
  assumes "implements c fd (xs, pos)" "0 \<le> off"
  shows "\<exists>c'. client_lseek fd off SEEK_CUR c = Some (off, c') \<and> implements c' fd (xs, pos + off)"
proof -
  from assms(1) obtain f where f: "0 \<le> pos" "attached c fd mh ih n node (int (length xs)) pos" "serves (cl_world c) xs (int (length xs))"
    "map_find (fd_to_fid fd) (cl_files c) = Some f" "op_current_point f = pos" by (rule implementsE)
  let ?c = "c\<lparr>cl_files := map_set (fd_to_fid fd) (f\<lparr>op_current_point := pos + off\<rparr>) (cl_files c)\<rparr>"
  have "client_lseek fd off SEEK_CUR c = Some (off, ?c)" using f(4,5) by (simp add: client_lseek_def upd_opened_def)
  moreover have "attached ?c fd mh ih n node (int (length xs)) (pos + off)" using f(2,4) by (auto simp: attached_def)
  ultimately show ?thesis using f(1,3) assms(2) by (intro exI [of _ ?c]) (simp add: implements_def)
qed

lemma update_size_ok:
  assumes "implements c fd (xs, pos)" "int (length xs) \<le> z" "z < 4611686018427387904"
  shows "\<exists>c'. update_file_size fd z c = Some (0, c') \<and> attached c' fd mh ih n node z pos \<and> serves (cl_world c') xs (int (length xs))"
proof -
  from assms(1) obtain f m where f: "attached c fd mh ih n node (int (length xs)) pos" "serves (cl_world c) xs (int (length xs))"
    "map_find (fd_to_fid fd) (cl_files c) = Some f" "cl_metas c (op_meta f) = Some m" "st_size (fm_stat m) = int (length xs)" by (rule implementsE)
  have u: "u64 (int (length xs)) = int (length xs)" "s64 z = z" using assms(2,3) by (simp_all add: u64_def s64_def)
  let ?m = "(if int (length xs) < z then m\<lparr>fm_stat := (fm_stat m)\<lparr>st_size := z\<rparr>\<rparr> else m)\<lparr>fm_need_update := True\<rparr>"
  let ?c = "c\<lparr>cl_metas := (cl_metas c)(op_meta f \<mapsto> ?m)\<rparr>"
  have "update_file_size fd z c = Some (0, ?c)" using f(3-5) u by (simp add: update_file_size_def upd_meta_def deref_meta_def)
  moreover have "attached ?c fd mh ih n node z pos" using f(1,3-5) assms(2) by (auto simp: attached_def attached_meta_def)
  ultimately show ?thesis using f(2) by (intro exI [of _ ?c]) simp
qed

lemma client_file_ok: "client_file srv fd (\<lambda>c xs pos. implements c fd (xs, pos))"
proof
  show "int (length xs) < 4611686018427387904" if "implements c fd (xs, pos)" for c xs pos using that by (rule implementsE)
  show "get_file_size fd c = Some (int (length xs))" if "implements c fd (xs, pos)" for c xs pos
    using that by (rule implementsE) (simp add: get_file_size_def deref_meta_def u64_def)
  show "\<exists>c'. client_lseek fd off SEEK_SET c = Some (off, c') \<and> implements c' fd (xs, off)" if "implements c fd (xs, pos)" "0 \<le> off" for c xs pos off
    using client_seek_ok [of c fd "int (length xs)" pos xs off] that by (auto simp: implements_def)
  show "\<exists>c'. client_lseek fd off SEEK_CUR c = Some (off, c') \<and> implements c' fd (xs, pos + off)" if "implements c fd (xs, pos)" "0 \<le> off" for c xs pos off
    using that by (rule seek_cur_ok)
  show "\<exists>c1 c2 c3. update_file_size fd (max (int (length xs)) (off + int (length bs))) c = Some (0, c1) \<and> client_lseek fd off SEEK_SET c1 = Some (off, c2) \<and>
      CBB_write srv fd bs c2 = Some (int (length bs), c3) \<and> implements c3 fd (put (nat off) bs xs, off + int (length bs))"
    if i: "implements c fd (xs, pos)" and r: "0 \<le> off" "off \<le> int (length xs)" "int (length bs) \<le> BLOCK_SIZE"
      "off + int (length bs) + BLOCK_SIZE < 4611686018427387904" for c xs pos off bs
  proof -
    let ?z = "max (int (length xs)) (off + int (length bs))"
    have z: "int (length xs) \<le> ?z" "?z < 4611686018427387904" using i r(4) by (auto simp: BLOCK_SIZE_def elim: implementsE)
    from update_size_ok [OF i z] obtain c1 where c1: "update_file_size fd ?z c = Some (0, c1)" "attached c1 fd mh ih n node ?z pos" "serves (cl_world c1) xs (int (length xs))" by blast
    from c1(2) obtain f where f: "\<not> cl_using_cache c1" "map_inv (cl_files c1)" "map_find (fd_to_fid fd) (cl_files c1) = Some f" "attached_meta c1 (op_meta f) mh ih n node ?z"
      by (auto simp: attached_def)
    let ?c2 = "c1\<lparr>cl_files := map_set (fd_to_fid fd) (f\<lparr>op_current_point := off\<rparr>) (cl_files c1)\<rparr>"
    have c2: "client_lseek fd off SEEK_SET c1 = Some (off, ?c2)" using f(3) by (simp add: client_lseek_def upd_opened_def)
    have a2: "attached ?c2 fd mh ih n node ?z off" using f by (simp add: attached_def)
    have s2: "serves (cl_world ?c2) xs (int (length xs))" using c1(3) by simp
    have l: "int (length bs) < 2147483648" "block_count (int (length bs)) \<le> MAX_REPLY_BLOCKS"
      using r(3) block_count_one [of "int (length bs)"] by (simp_all add: BLOCK_SIZE_def)
    from client_write_ok [OF a2 s2 z(1) order_refl r(1,2,4) l] obtain c3 where c3: "client_write srv fd bs ?c2 = Some (Ret (int (length bs)), c3)"
      "attached c3 fd mh ih n node (int (length (put (nat off) bs xs))) (off + int (length bs))" "serves (cl_world c3) (put (nat off) bs xs) (int (length (put (nat off) bs xs)))" by blast
    have "CBB_write srv fd bs ?c2 = Some (int (length bs), c3)" using c3(1) by (simp add: CBB_write_def numeral_eq_Suc)
    then show ?thesis using c1(1) c2 c3(2,3) r(1) by (intro exI [of _ c1] exI [of _ ?c2] exI [of _ c3]) (simp add: implements_def)
  qed
  show "\<exists>c'. CBB_read srv fd BLOCK_SIZE c = Some ((int (length d), d), c') \<and> implements c' fd (xs, pos + int (length d))"
    if i: "implements c fd (xs, pos)" and r: "BLOCK_SIZE dvd pos \<or> pos mod BLOCK_SIZE + (int (length xs) - pos) \<le> BLOCK_SIZE" "pos \<le> int (length xs)" "0 \<le> pos"
      and d: "d = take (nat BLOCK_SIZE) (drop (nat pos) xs)" for c xs pos d
  proof -
    have z: "int (length xs) < 4611686018427387904" using i by (rule implementsE)
    have a: "attached c fd mh ih n node (int (length xs)) pos" "serves (cl_world c) xs (int (length xs))" using i by (simp_all add: implements_def)
    have q: "0 \<le> BLOCK_SIZE" "BLOCK_SIZE + pos < 9223372036854775808" using r(2) z by (simp_all add: BLOCK_SIZE_def)
    have al: "pos mod BLOCK_SIZE + min BLOCK_SIZE (int (length xs) - pos) \<le> BLOCK_SIZE \<or> pos mod BLOCK_SIZE = 0"
      using r(1) by (auto simp: min_def)
    have bc: "block_count (min BLOCK_SIZE (int (length xs) - pos)) \<le> MAX_REPLY_BLOCKS"
      using block_count_one [of "min BLOCK_SIZE (int (length xs) - pos)"] by simp
    from client_read_ok [OF a r(3) q al bc] obtain c' where c': "client_read srv fd BLOCK_SIZE c = Some (Ret (int (length d), d), c')"
      "attached c' fd mh ih n node (int (length xs)) (pos + int (length d))" "serves (cl_world c') xs (int (length xs))" unfolding d by blast
    have "CBB_read srv fd BLOCK_SIZE c = Some ((int (length d), d), c')" using c'(1) by (simp add: CBB_read_def numeral_eq_Suc)
    then show ?thesis using c'(2,3) r(3) by (intro exI [of _ c']) (simp add: implements_def)
  qed
qed

end

interpretation cs: client_file "cluster_server env hash" fd "\<lambda>c xs pos. cl.implements n node uri c fd (xs, pos)"
  by (rule file_service.client_file_ok [OF cl.file_service_axioms])

section \<open>Calls on the pool of streams\<close>

fun stream_call :: "'w server \<Rightarrow> nat \<Rightarrow> file_op \<Rightarrow> 'w streams \<Rightarrow> (file_reply \<times> 'w streams) option" where
  "stream_call srv p (Op_write bs) S = do { (r, S1) \<leftarrow> write_stream srv p bs S; Some (Count r, S1) }"
| "stream_call srv p (Op_read k) S = do { ((_, d), S1) \<leftarrow> read_stream srv p k S; Some (Bytes d, S1) }"
| "stream_call srv p (Op_seek off) S = do { (r, S1) \<leftarrow> seek_stream srv p off SEEK_SET S; Some (Count r, S1) }"

fun stream_run :: "'w server \<Rightarrow> nat \<Rightarrow> file_op list \<Rightarrow> 'w streams \<Rightarrow> (file_reply list \<times> 'w streams) option" where
  "stream_run srv p [] S = Some ([], S)"
| "stream_run srv p (op # ops) S = do { (r, S1) \<leftarrow> stream_call srv p op S; (rs, S2) \<leftarrow> stream_run srv p ops S1; Some (r # rs, S2) }"

lemma stream_call_info:
  assumes "map_find p (ss_pool S) = Some s" "info_call srv op s (ss_client S) = Some (r, s', c')"
  shows "\<exists>S'. stream_call srv p op S = Some (r, S') \<and> map_find p (ss_pool S') = Some s' \<and> ss_client S' = c'"
  using assms
  by (intro exI [of _ "S\<lparr>ss_client := c', ss_pool := map_set p s' (ss_pool S)\<rparr>"], cases op)
    (auto simp: write_stream_def read_stream_def seek_stream_def on_stream_def bind_eq_Some_conv)

lemma stream_run_info:
  assumes "map_find p (ss_pool S) = Some s" "info_run srv ops s (ss_client S) = Some (rs, s', c')"
  shows "\<exists>S'. stream_run srv p ops S = Some (rs, S') \<and> map_find p (ss_pool S') = Some s' \<and> ss_client S' = c'"
  using assms
proof (induction ops arbitrary: S s rs)
  case (Cons op ops)
  from Cons.prems(2) obtain r s1 c1 rs1 where o: "info_call srv op s (ss_client S) = Some (r, s1, c1)" "info_run srv ops s1 c1 = Some (rs1, s', c')" "rs = r # rs1"
    by (auto simp: bind_eq_Some_conv)
  from stream_call_info [OF Cons.prems(1) o(1)] obtain S1 where S1: "stream_call srv p op S = Some (r, S1)" "map_find p (ss_pool S1) = Some s1" "ss_client S1 = c1" by blast
  from Cons.IH [OF S1(2)] S1(3) o(2) obtain S2 where "stream_run srv p ops S1 = Some (rs1, S2)" "map_find p (ss_pool S2) = Some s'" "ss_client S2 = c'" by blast
  then show ?case using S1(1) o(3) by simp
qed simp

text \<open>A stream that was just opened on a descriptor at the start of its file.\<close>

definition opened_stream :: "nat \<Rightarrow> c_int \<Rightarrow> ssize_t \<Rightarrow> ssize_t \<Rightarrow> string \<Rightarrow> c_int \<Rightarrow> byte list \<Rightarrow> cluster streams \<Rightarrow> bool" where
  "opened_stream p fd n node uri flag xs S \<longleftrightarrow>
     (\<exists>s malloc garbage mode buffers buffers1. map_find p (ss_pool S) = Some s \<and>
        new_stream_info malloc True garbage fd (int (length xs)) 0 flag mode buffers = Some (s, buffers1)) \<and>
     attached (ss_client S) fd 0 1 n node (int (length xs)) 0 \<and> cluster_serves n node uri (cl_world (ss_client S)) xs (int (length xs))"

lemma opened_streamE:
  assumes "opened_stream p fd n node uri flag xs S"
  obtains s elem garbage mode where "map_find p (ss_pool S) = Some s" "s = init_stream_info (Some elem) garbage fd (int (length xs)) 0 flag mode"
    "cl.implements n node uri (ss_client S) fd (xs, 0)" "cur_file_off s = 0" "buffer_ok s" "buffer_data s 0 = []"
proof -
  from assms obtain s malloc garbage mode buffers buffers1 where s: "map_find p (ss_pool S) = Some s"
    "new_stream_info malloc True garbage fd (int (length xs)) 0 flag mode buffers = Some (s, buffers1)" by (auto simp: opened_stream_def)
  from s(2) obtain elem where e: "s = init_stream_info (Some elem) garbage fd (int (length xs)) 0 flag mode" by (rule new_stream_info_init)
  show thesis
    by (rule that [OF s(1) e])
       (use assms in \<open>simp_all add: opened_stream_def cl.implements_def e init_stream_info_def cur_file_off_def buffer_ok_def
          buffer_data_def get_bytes_def BLOCK_SIZE_def\<close>)
qed

text \<open>Concrete streams: a file of given bytes on the demonstration cluster, opened for reading and writing.\<close>

definition demo_streams :: "cluster client \<Rightarrow> byte list \<Rightarrow> cluster streams" where
  "demo_streams c xs =
     (let S = streams_init True malloc_ok None c
      in case new_stream_info (ss_malloc S) (ss_use_buffer S) (\<lambda>_. 0) 1000 (int (length xs)) 0 O_RDWR 438 (ss_buffers S) of
           None \<Rightarrow> S
         | Some (s, buffers) \<Rightarrow> S\<lparr>ss_pool := [(0, s)], ss_fresh := 1, ss_buffers := buffers\<rparr>)"

lemma demo_opened:
  assumes "int (length xs) \<le> BLOCK_SIZE"
  shows "\<exists>c. opened_stream 0 1000 0 0 ''n1'' O_RDWR xs (demo_streams c xs)"
proof -
  from demo_serves obtain s where "cl.implements 0 0 ''n1'' (demo_client \<lparr>cw_master = demo_empty, cw_node = s\<rparr>) 1000 ([], 0)" by (auto simp: cl.implements_def)
  from cl.run_ok [OF this, of "[Op_write xs, Op_seek 0]"] assms block_count_one [OF assms] obtain c where
    c: "cl.implements 0 0 ''n1'' c 1000 (xs, 0)" by (auto simp: put_def BLOCK_SIZE_def)
  from single_thread_new_stream [of "\<lambda>_. 0" 1000 "int (length xs)" 0 O_RDWR 438 None c] obtain elem buffers where
    n: "new_stream_info malloc_ok True (\<lambda>_. 0) 1000 (int (length xs)) 0 O_RDWR 438 (ss_buffers (streams_init True malloc_ok None c)) =
      Some (init_stream_info (Some elem) (\<lambda>_. 0) 1000 (int (length xs)) 0 O_RDWR 438, buffers)" by blast
  have f: "ss_use_buffer (streams_init True malloc_ok None c) = True" "ss_malloc (streams_init True malloc_ok None c) = malloc_ok"
    "ss_client (streams_init True malloc_ok None c) = c" by (simp_all add: streams_init_def)
  have "\<exists>malloc garbage mode buffers buffers1. new_stream_info malloc True garbage 1000 (int (length xs)) 0 O_RDWR mode buffers =
      Some (init_stream_info (Some elem) (\<lambda>_. 0) 1000 (int (length xs)) 0 O_RDWR 438, buffers1)" using n by blast
  then show ?thesis using c n f
    by (intro exI [of _ c]) (auto simp: opened_stream_def demo_streams_def cl.implements_def Let_def)
qed

text \<open>C9: writing through a stream acts on a file of bytes. On a stream that was just opened for writing
  (in the \<^verbatim>\<open>SINGLE_THREAD\<close> build, the only one in which a buffered stream can be opened), every
  sequence of writes and of seeks that stay in the file, however they cross the borders of the
  buffer, returns what the byte list with a position returns, and the position of the stream is
  that of the list; after a flush the IOnode and the master have exactly the resulting bytes.\<close>

theorem stream_writes_file:
  assumes "opened_stream p fd n node uri flag xs S" "flag AND O_WRONLY \<noteq> 0 \<or> flag AND O_RDWR \<noteq> 0"
    and "int (length xs) + 4 * BLOCK_SIZE < 4611686018427387904" "write_ops_ok ops (xs, 0)" "file_run ops (xs, 0) = (rs, ys, pos)"
  shows "\<exists>S1 S2. stream_run (cluster_server env hash) p ops S = Some (rs, S1) \<and> tell_stream p S1 = Some pos \<and>
    flush_stream (cluster_server env hash) p S1 = Some (SUCCESS, S2) \<and> cluster_serves n node uri (cl_world (ss_client S2)) ys (int (length ys))"
proof -
  from assms(1) obtain s elem garbage mode where s: "map_find p (ss_pool S) = Some s" "s = init_stream_info (Some elem) garbage fd (int (length xs)) 0 flag mode"
    "cl.implements n node uri (ss_client S) fd (xs, 0)" "cur_file_off s = 0" "buffer_ok s" "buffer_data s 0 = []" by (rule opened_streamE)
  have "cs.writing fd n node uri s (ss_client S) xs" unfolding cs.writing_def
    using assms(2) s(3,5,6) by (auto simp: s(2) init_stream_info_def writable_def intro!: exI [of _ xs] exI [of _ 0])
  from cs.write_run_ok [OF this assms(3), of ops env hash] assms(4,5) s(4) obtain s1 c1 where
    r: "info_run (cluster_server env hash) ops s (ss_client S) = Some (rs, s1, c1)" "cs.writing fd n node uri s1 c1 ys" "cur_file_off s1 = pos"
      "int (length ys) + 4 * BLOCK_SIZE < 4611686018427387904" by auto
  from stream_run_info [OF s(1) r(1)] obtain S1 where S1: "stream_run (cluster_server env hash) p ops S = Some (rs, S1)" "map_find p (ss_pool S1) = Some s1" "ss_client S1 = c1" by blast
  have "si_buf_off s1 + 2 * BLOCK_SIZE < 4611686018427387904" using cs.writing_off [OF r(2)] r(4) by (simp add: BLOCK_SIZE_def)
  from cs.flush_writing [OF r(2) this, of env hash] obtain c2 q where c2: "flush_info (cluster_server env hash) s1 c1 = Some (s1\<lparr>si_dirty := False\<rparr>, c2)"
    "cl.implements n node uri c2 fd (ys, q)" by blast
  have "tell_stream p S1 = Some pos" using S1(2) r(2,3) by (simp add: tell_stream_def tell_info_def cs.writing_def buffer_ok_def cur_file_off_def)
  moreover have "flush_stream (cluster_server env hash) p S1 = Some (SUCCESS, S1\<lparr>ss_client := c2, ss_pool := map_set p (s1\<lparr>si_dirty := False\<rparr>) (ss_pool S1)\<rparr>)"
    using S1(2,3) c2(1) by (simp add: flush_stream_def on_stream_def)
  moreover have "cluster_serves n node uri (cl_world c2) ys (int (length ys))" using c2(2) by (simp add: cl.implements_def)
  ultimately show ?thesis using S1(1) by auto
qed

theorem stream_writes_file_witness:
  "\<exists>c S1 S2. stream_run (cluster_server \<lparr>env_time = 9, env_uid = 0, env_gid = 0\<rparr> (\<lambda>_. 0)) 0 [Op_write [1, 2, 3], Op_seek 1, Op_write [9]] (demo_streams c []) =
       Some ([Count 3, Count 1, Count 1], S1) \<and>
     flush_stream (cluster_server \<lparr>env_time = 9, env_uid = 0, env_gid = 0\<rparr> (\<lambda>_. 0)) 0 S1 = Some (SUCCESS, S2) \<and>
     cluster_serves 0 0 ''n1'' (cl_world (ss_client S2)) [1, 9, 3] 3"
proof -
  from demo_opened [of "[]"] obtain c where c: "opened_stream 0 1000 0 0 ''n1'' O_RDWR [] (demo_streams c [])" by (auto simp: BLOCK_SIZE_def)
  have wr: "O_RDWR AND O_WRONLY \<noteq> 0 \<or> O_RDWR AND O_RDWR \<noteq> (0 :: int)" by code_simp
  have ok: "write_ops_ok [Op_write [1, 2, 3], Op_seek 1, Op_write [9]] ([], 0)" "int (length ([] :: byte list)) + 4 * BLOCK_SIZE < 4611686018427387904"
    by (simp_all add: BLOCK_SIZE_def put_def)
  have run: "file_run [Op_write [1, 2, 3], Op_seek 1, Op_write [9]] ([], 0) = ([Count 3, Count 1, Count 1], [1, 9, 3], 2)" by (simp add: put_def Let_def)
  have l: "int (length ([1, 9, 3] :: byte list)) = 3" by simp
  from stream_writes_file [OF c wr ok(2,1) run] show ?thesis unfolding l by blast
qed

text \<open>C10: reading through a stream acts on a file of bytes. On a stream that was just opened (in the
  \<^verbatim>\<open>SINGLE_THREAD\<close> build, the only one in which a buffered stream can be opened), every sequence of
  reads of any length and of seeks that stay in the file is carried out to its end and returns the
  bytes of the file, from the buffer or from the IOnode, as a list with a position does.\<close>

theorem stream_reads_file:
  assumes "opened_stream p fd n node uri flag xs S" "read_ops_ok ops (xs, 0)" "file_run ops (xs, 0) = (rs, ys, pos)"
  shows "\<exists>S1. stream_run (cluster_server env hash) p ops S = Some (rs, S1) \<and> tell_stream p S1 = Some pos \<and>
    cluster_serves n node uri (cl_world (ss_client S1)) ys (int (length ys))"
proof -
  from assms(1) obtain s elem garbage mode where s: "map_find p (ss_pool S) = Some s" "s = init_stream_info (Some elem) garbage fd (int (length xs)) 0 flag mode"
    "cl.implements n node uri (ss_client S) fd (xs, 0)" "cur_file_off s = 0" "buffer_ok s" "buffer_data s 0 = []" by (rule opened_streamE)
  have "cs.reading fd n node uri s (ss_client S) xs" unfolding cs.reading_def
    using s(3-6) by (auto simp: s(2) init_stream_info_def BLOCK_SIZE_def)
  from cs.read_run_ok [OF this, of ops env hash] assms(2,3) s(4) obtain s1 c1 where
    r: "info_run (cluster_server env hash) ops s (ss_client S) = Some (rs, s1, c1)" "cs.reading fd n node uri s1 c1 ys" "cur_file_off s1 = pos" by auto
  from stream_run_info [OF s(1) r(1)] obtain S1 where S1: "stream_run (cluster_server env hash) p ops S = Some (rs, S1)" "map_find p (ss_pool S1) = Some s1" "ss_client S1 = c1" by blast
  have "tell_stream p S1 = Some pos" using S1(2) r(2,3) by (simp add: tell_stream_def tell_info_def cs.reading_def buffer_ok_def cur_file_off_def)
  moreover have "cl.implements n node uri c1 fd (ys, si_buf_off s1 + si_buffered s1)" using r(2) by (simp add: cs.reading_def)
  then have "cluster_serves n node uri (cl_world c1) ys (int (length ys))" by (simp add: cl.implements_def)
  ultimately show ?thesis using S1(1,3) by auto
qed

theorem stream_reads_file_witness:
  "\<exists>c S1. stream_run (cluster_server \<lparr>env_time = 9, env_uid = 0, env_gid = 0\<rparr> (\<lambda>_. 0)) 0 [Op_read 2, Op_read 1, Op_seek 1, Op_read 9] (demo_streams c [5, 6, 7, 8]) =
       Some ([Bytes [5, 6], Bytes [7], Count 1, Bytes [6, 7, 8]], S1) \<and> tell_stream 0 S1 = Some 4"
proof -
  from demo_opened [of "[5, 6, 7, 8]"] obtain c where c: "opened_stream 0 1000 0 0 ''n1'' O_RDWR [5, 6, 7, 8] (demo_streams c [5, 6, 7, 8])" by (auto simp: BLOCK_SIZE_def)
  have ok: "read_ops_ok [Op_read 2, Op_read 1, Op_seek 1, Op_read 9] ([5, 6, 7, 8], 0)" by (simp add: Let_def)
  have run: "file_run [Op_read 2, Op_read 1, Op_seek 1, Op_read 9] ([5, 6, 7, 8], 0) = ([Bytes [5, 6], Bytes [7], Count 1, Bytes [6, 7, 8]], [5, 6, 7, 8], 4)"
    by (simp add: Let_def)
  from stream_reads_file [OF c ok run] show ?thesis by blast
qed

text \<open>C32: a read behind a write on the same buffered stream (so in the \<^verbatim>\<open>SINGLE_THREAD\<close> build) returns wrong bytes. The flush before the read moves the
  descriptor once more by the bytes it wrote, and the position in the buffer is kept: after a write
  of \<open>l\<close> bytes at the start of a file of at least \<open>3 * l\<close> bytes the read returns the bytes from \<open>3 * l\<close>
  on, where the file has those from \<open>l\<close> on to give.\<close>

theorem stream_read_after_write:
  assumes "opened_stream p fd n node uri flag xs S" "flag AND O_WRONLY \<noteq> 0 \<or> flag AND O_RDWR \<noteq> 0"
    and "bs \<noteq> []" "3 * length bs \<le> length xs" "int (length xs) \<le> BLOCK_SIZE" "0 < k" "k \<le> int (length xs) - 3 * int (length bs)"
  shows "\<exists>S1. stream_run (cluster_server env hash) p [Op_write bs, Op_read k] S =
      Some ([Count (int (length bs)), Bytes (take (nat k) (drop (3 * length bs) xs))], S1) \<and>
    fst (file_run [Op_write bs, Op_read k] (xs, 0)) = [Count (int (length bs)), Bytes (take (nat k) (drop (length bs) xs))]"
proof -
  from assms(1) obtain s elem garbage mode where s: "map_find p (ss_pool S) = Some s" "s = init_stream_info (Some elem) garbage fd (int (length xs)) 0 flag mode"
    "cl.implements n node uri (ss_client S) fd (xs, 0)" by (rule opened_streamE)
  have w: "writable s" using assms(2) by (simp add: s(2) writable_def init_stream_info_def)
  from cs.read_after_write [OF s(2) w s(3) assms(3-7), of env hash] obtain s1 c1 where
    "info_run (cluster_server env hash) [Op_write bs, Op_read k] s (ss_client S) = Some ([Count (int (length bs)), Bytes (take (nat k) (drop (3 * length bs) xs))], s1, c1)" by blast
  from stream_run_info [OF s(1) this] show ?thesis using assms(4) by (auto simp: put_def Let_def)
qed

theorem stream_read_after_write_witness:
  "\<exists>c S1. stream_run (cluster_server \<lparr>env_time = 9, env_uid = 0, env_gid = 0\<rparr> (\<lambda>_. 0)) 0 [Op_write [1], Op_read 2] (demo_streams c [4, 5, 6, 7, 8, 9]) =
       Some ([Count 1, Bytes [7, 8]], S1) \<and> fst (file_run [Op_write [1], Op_read 2] ([4, 5, 6, 7, 8, 9], 0)) = [Count 1, Bytes [5, 6]]"
proof -
  from demo_opened [of "[4, 5, 6, 7, 8, 9]"] obtain c where
    c: "opened_stream 0 1000 0 0 ''n1'' O_RDWR [4, 5, 6, 7, 8, 9] (demo_streams c [4, 5, 6, 7, 8, 9])" by (auto simp: BLOCK_SIZE_def)
  have wr: "O_RDWR AND O_WRONLY \<noteq> 0 \<or> O_RDWR AND O_RDWR \<noteq> (0 :: int)" by code_simp
  from stream_read_after_write [OF c wr, of "[1]" 2 "\<lparr>env_time = 9, env_uid = 0, env_gid = 0\<rparr>" "\<lambda>_. 0"] show ?thesis
    by (intro exI [of _ c]) (simp add: BLOCK_SIZE_def del: stream_run.simps file_run.simps)
qed

end
