(* ===== verification/Client_Interface.thy ===== *)
theory Client_Interface
  imports Client_Stream
begin

text \<open>
  How programs reach the client: the replacements of POSIX calls (Client/src/CBB\_posix.cpp) and of
  stdio calls (Client/src/CBB\_stdio.cpp).

  \<^item> Descriptors, paths and streams that are not the client's go to the C library, the parameter
    \<open>libc\<close>: the result and the bytes of a call, and \<^verbatim>\<open>realpath\<close>.
  \<^item> A \<^verbatim>\<open>FILE*\<close> is null, a stream of the client or one of the library. The library called with a
    stream of the client is undefined, the result None.
  \<^item> Output for debugging and time measurements are left out, but for the \<^verbatim>\<open>printf\<close> of \<^verbatim>\<open>fgetc\<close>.
\<close>

abbreviation (input) "EOF_INT \<equiv> - 1 :: int"

section \<open>The process\<close>

datatype libc_arg = A_int int | A_str string | A_bytes "byte list" | A_sizes "size_t list" | A_chunks "byte list list"
datatype libc_call = Libc string "libc_arg list"

record 'l libc =
  lc_call :: "libc_call \<Rightarrow> 'l \<Rightarrow> (int \<times> byte list) \<times> 'l"
  lc_realpath :: "string \<Rightarrow> 'l \<Rightarrow> string"

record ('w, 'l) process =
  pr_streams :: "'w streams"
  pr_libc :: 'l

type_synonym ('a, 'w, 'l) call_result = "('a \<times> ('w, 'l) process) option"

definition real_call :: "'l libc \<Rightarrow> string \<Rightarrow> libc_arg list \<Rightarrow> ('w, 'l) process \<Rightarrow> (int \<times> byte list, 'w, 'l) call_result" where
  "real_call lc name args P = (let (r, l) = lc_call lc (Libc name args) (pr_libc P) in Some (r, P\<lparr>pr_libc := l\<rparr>))"

definition real_int :: "'l libc \<Rightarrow> string \<Rightarrow> libc_arg list \<Rightarrow> ('w, 'l) process \<Rightarrow> (int, 'w, 'l) call_result" where
  "real_int lc name args P = do { ((r, _), P1) \<leftarrow> real_call lc name args P; Some (r, P1) }"

definition on_streams :: "('w streams \<Rightarrow> ('a \<times> 'w streams) option) \<Rightarrow> ('w, 'l) process \<Rightarrow> ('a, 'w, 'l) call_result" where
  "on_streams k P = do { (r, S) \<leftarrow> k (pr_streams P); Some (r, P\<lparr>pr_streams := S\<rparr>) }"

definition with_client :: "('w client \<Rightarrow> ('a \<times> 'w client) option) \<Rightarrow> 'w streams \<Rightarrow> ('a \<times> 'w streams) option" where
  "with_client k S = do { (r, c) \<leftarrow> k (ss_client S); Some (r, S\<lparr>ss_client := c\<rparr>) }"

definition on_client :: "('w client \<Rightarrow> ('a \<times> 'w client) option) \<Rightarrow> ('w, 'l) process \<Rightarrow> ('a, 'w, 'l) call_result" where
  "on_client k = on_streams (with_client k)"

text \<open>\<^verbatim>\<open>_format_path\<close>, \<^verbatim>\<open>_interpret_path\<close> and \<^verbatim>\<open>_get_relative_path\<close>: the path below the mount point.\<close>

definition client_path :: "'l libc \<Rightarrow> string option \<Rightarrow> string \<Rightarrow> ('w, 'l) process \<Rightarrow> string option" where
  "client_path lc mount path P =
     (let formatted = lc_realpath lc path (pr_libc P) in
      if interpret_path mount formatted then map_option (\<lambda>m. get_relative_path m formatted) mount else None)"

section \<open>POSIX calls\<close>

definition wrap_open64 :: "'l libc \<Rightarrow> 'w server \<Rightarrow> string option \<Rightarrow> string \<Rightarrow> c_int \<Rightarrow> mode_t \<Rightarrow> ('w, 'l) process \<Rightarrow> (c_int, 'w, 'l) call_result" where
  "wrap_open64 lc srv mount path flag mode P =
     (let mode1 = (if flag AND O_CREAT \<noteq> 0 then mode else 0) in
      case client_path lc mount path P of
        Some relative \<Rightarrow> on_client (CBB_open srv relative flag mode1) P
      | None \<Rightarrow> real_int lc ''open64'' ([A_str path, A_int flag] @ (if flag AND O_CREAT \<noteq> 0 then [A_int mode1] else [])) P)"

definition wrap_open :: "'l libc \<Rightarrow> 'w server \<Rightarrow> string option \<Rightarrow> string \<Rightarrow> c_int \<Rightarrow> mode_t \<Rightarrow> ('w, 'l) process \<Rightarrow> (c_int, 'w, 'l) call_result" where
  "wrap_open = wrap_open64"

definition wrap_creat64 :: "'l libc \<Rightarrow> 'w server \<Rightarrow> string option \<Rightarrow> string \<Rightarrow> mode_t \<Rightarrow> ('w, 'l) process \<Rightarrow> (c_int, 'w, 'l) call_result" where
  "wrap_creat64 lc srv mount path mode P =
     (case client_path lc mount path P of
        Some relative \<Rightarrow> on_client (CBB_open srv relative O_CREAT mode) P
      | None \<Rightarrow> real_int lc ''creat64'' [A_str path, A_int mode] P)"

definition wrap_read :: "'l libc \<Rightarrow> 'w server \<Rightarrow> c_int \<Rightarrow> size_t \<Rightarrow> ('w, 'l) process \<Rightarrow> (ssize_t \<times> byte list, 'w, 'l) call_result" where
  "wrap_read lc srv fd sz P =
     (if interpret_fd fd then on_client (CBB_read srv fd sz) P else real_call lc ''read'' [A_int fd, A_int sz] P)"

definition wrap_write :: "'l libc \<Rightarrow> 'w server \<Rightarrow> c_int \<Rightarrow> byte list \<Rightarrow> ('w, 'l) process \<Rightarrow> (ssize_t, 'w, 'l) call_result" where
  "wrap_write lc srv fd buf P =
     (if interpret_fd fd then on_client (CBB_write srv fd buf) P else real_int lc ''write'' [A_int fd, A_bytes buf] P)"

text \<open>The memory of \<^verbatim>\<open>readv\<close>: what is read into each buffer, for the library in their order.\<close>

fun fill_iov :: "size_t list \<Rightarrow> byte list \<Rightarrow> byte list list" where
  "fill_iov [] d = []"
| "fill_iov (len # iov) d = take (nat len) d # fill_iov iov (drop (nat len) d)"

fun readv_loop :: "'w server \<Rightarrow> c_int \<Rightarrow> size_t list \<Rightarrow> ssize_t \<Rightarrow> byte list list \<Rightarrow> 'w client \<Rightarrow> ((ssize_t \<times> byte list list) \<times> 'w client) option" where
  "readv_loop srv fd [] ans bufs c = Some ((ans, bufs), c)"
| "readv_loop srv fd (len # iov) ans bufs c =
     do {
       ((ret, d), c1) \<leftarrow> CBB_read srv fd len c;
       if ret = -1 then Some ((ret, bufs), c1) else readv_loop srv fd iov (ans + ret) (bufs @ [d]) c1
     }"

definition wrap_readv :: "'l libc \<Rightarrow> 'w server \<Rightarrow> c_int \<Rightarrow> size_t list \<Rightarrow> ('w, 'l) process \<Rightarrow> (ssize_t \<times> byte list list, 'w, 'l) call_result" where
  "wrap_readv lc srv fd iov P =
     (if interpret_fd fd then on_client (readv_loop srv fd iov 0 []) P
      else do { ((r, d), P1) \<leftarrow> real_call lc ''readv'' [A_int fd, A_sizes iov] P; Some ((r, fill_iov iov d), P1) })"

fun writev_loop :: "'w server \<Rightarrow> c_int \<Rightarrow> byte list list \<Rightarrow> ssize_t \<Rightarrow> 'w client \<Rightarrow> (ssize_t \<times> 'w client) option" where
  "writev_loop srv fd [] ans c = Some (ans, c)"
| "writev_loop srv fd (buf # iov) ans c =
     do {
       (ret, c1) \<leftarrow> CBB_write srv fd buf c;
       if ret = -1 then Some (ret, c1) else writev_loop srv fd iov (ans + ret) c1
     }"

definition wrap_writev :: "'l libc \<Rightarrow> 'w server \<Rightarrow> c_int \<Rightarrow> byte list list \<Rightarrow> ('w, 'l) process \<Rightarrow> (ssize_t, 'w, 'l) call_result" where
  "wrap_writev lc srv fd iov P =
     (if interpret_fd fd then on_client (writev_loop srv fd iov 0) P else real_int lc ''writev'' [A_int fd, A_chunks iov] P)"

definition wrap_close :: "'l libc \<Rightarrow> 'w server \<Rightarrow> c_int \<Rightarrow> ('w, 'l) process \<Rightarrow> (c_int, 'w, 'l) call_result" where
  "wrap_close lc srv fd P = (if interpret_fd fd then on_client (CBB_close srv fd) P else real_int lc ''close'' [A_int fd] P)"

definition wrap_flush :: "'l libc \<Rightarrow> 'w server \<Rightarrow> c_int \<Rightarrow> ('w, 'l) process \<Rightarrow> (c_int, 'w, 'l) call_result" where
  "wrap_flush lc srv fd P = (if interpret_fd fd then on_client (CBB_flush srv fd) P else real_int lc ''flush'' [A_int fd] P)"

definition wrap_lseek64 :: "'l libc \<Rightarrow> c_int \<Rightarrow> off64_t \<Rightarrow> c_int \<Rightarrow> ('w, 'l) process \<Rightarrow> (off64_t, 'w, 'l) call_result" where
  "wrap_lseek64 lc fd offset whence P =
     (if interpret_fd fd then on_client (client_lseek fd offset whence) P else real_int lc ''lseek64'' [A_int fd, A_int offset, A_int whence] P)"

text \<open>The position of the descriptor is moved and stays moved.\<close>

definition wrap_pread64 :: "'l libc \<Rightarrow> 'w server \<Rightarrow> c_int \<Rightarrow> size_t \<Rightarrow> off64_t \<Rightarrow> ('w, 'l) process \<Rightarrow> (ssize_t \<times> byte list, 'w, 'l) call_result" where
  "wrap_pread64 lc srv fd count offset P =
     (if interpret_fd fd then do {
        (r, P1) \<leftarrow> on_client (client_lseek fd offset SEEK_SET) P;
        if r = -1 then Some ((-1, []), P1) else on_client (CBB_read srv fd count) P1
      } else real_call lc ''pread64'' [A_int fd, A_int count, A_int offset] P)"

definition wrap_pwrite64 :: "'l libc \<Rightarrow> 'w server \<Rightarrow> c_int \<Rightarrow> byte list \<Rightarrow> off64_t \<Rightarrow> ('w, 'l) process \<Rightarrow> (ssize_t, 'w, 'l) call_result" where
  "wrap_pwrite64 lc srv fd buf offset P =
     (if interpret_fd fd then do {
        (r, P1) \<leftarrow> on_client (client_lseek fd offset SEEK_SET) P;
        if r = -1 then Some (-1, P1) else on_client (CBB_write srv fd buf) P1
      } else real_int lc ''pwrite64'' [A_int fd, A_bytes buf, A_int offset] P)"

definition wrap_posix_fadvise :: "'l libc \<Rightarrow> c_int \<Rightarrow> off64_t \<Rightarrow> off64_t \<Rightarrow> c_int \<Rightarrow> ('w, 'l) process \<Rightarrow> (c_int, 'w, 'l) call_result" where
  "wrap_posix_fadvise lc fd offset len advice P =
     (if interpret_fd fd then Some (-1, P) else real_int lc ''posix_fadvise'' [A_int fd, A_int offset, A_int len, A_int advice] P)"

text \<open>\<^verbatim>\<open>ftruncate\<close> seeks.\<close>

definition wrap_ftruncate :: "'l libc \<Rightarrow> c_int \<Rightarrow> off64_t \<Rightarrow> ('w, 'l) process \<Rightarrow> (c_int, 'w, 'l) call_result" where
  "wrap_ftruncate lc fd len P =
     (if interpret_fd fd then do { (r, P1) \<leftarrow> on_client (client_lseek fd len SEEK_SET) P; Some (s32 r, P1) }
      else real_int lc ''ftruncate'' [A_int fd, A_int len] P)"

text \<open>\<^verbatim>\<open>stat\<close> hands on the path as it is, not the one below the mount point.\<close>

definition wrap_stat :: "'l libc \<Rightarrow> 'w server \<Rightarrow> string option \<Rightarrow> string \<Rightarrow> ('w, 'l) process \<Rightarrow> (c_int \<times> stat option, 'w, 'l) call_result" where
  "wrap_stat lc srv mount path P =
     (case client_path lc mount path P of
        Some _ \<Rightarrow> on_client (\<lambda>c. do { ((r, st), c1) \<leftarrow> CBB_stat srv path c; Some ((r, Some st), c1) }) P
      | None \<Rightarrow> do { (r, P1) \<leftarrow> real_int lc ''stat'' [A_str path] P; Some ((r, None), P1) })"

definition wrap_lstat :: "'l libc \<Rightarrow> string option \<Rightarrow> string \<Rightarrow> ('w, 'l) process \<Rightarrow> (c_int, 'w, 'l) call_result" where
  "wrap_lstat lc mount path P =
     (case client_path lc mount path P of Some _ \<Rightarrow> Some (-1, P) | None \<Rightarrow> real_int lc ''lstat'' [A_str path] P)"

section \<open>stdio calls\<close>

datatype file_ptr = F_null | F_stream nat | F_libc int

definition stream_of :: "file_ptr \<Rightarrow> ('w, 'l) process \<Rightarrow> nat option" where
  "stream_of f P = (case f of F_stream p \<Rightarrow> if interpret_stream p (pr_streams P) then Some p else None | _ \<Rightarrow> None)"

text \<open>The argument for the library: a stream of the client is not one of its own.\<close>

definition libc_file :: "file_ptr \<Rightarrow> libc_arg option" where
  "libc_file f = (case f of F_null \<Rightarrow> Some (A_int 0) | F_libc h \<Rightarrow> Some (A_int h) | F_stream _ \<Rightarrow> None)"

definition real_file :: "'l libc \<Rightarrow> string \<Rightarrow> libc_arg list \<Rightarrow> file_ptr \<Rightarrow> ('w, 'l) process \<Rightarrow> (int \<times> byte list, 'w, 'l) call_result" where
  "real_file lc name args f P = do { a \<leftarrow> libc_file f; real_call lc name (args @ [a]) P }"

definition real_file_int :: "'l libc \<Rightarrow> string \<Rightarrow> libc_arg list \<Rightarrow> file_ptr \<Rightarrow> ('w, 'l) process \<Rightarrow> (int, 'w, 'l) call_result" where
  "real_file_int lc name args f P = do { ((r, _), P1) \<leftarrow> real_file lc name args f P; Some (r, P1) }"

definition opened_ptr :: "nat option \<Rightarrow> file_ptr" where
  "opened_ptr p = (case p of None \<Rightarrow> F_null | Some p \<Rightarrow> F_stream p)"

definition wrap_fopen :: "'l libc \<Rightarrow> 'w server \<Rightarrow> (nat \<Rightarrow> byte) \<Rightarrow> string option \<Rightarrow> string \<Rightarrow> string \<Rightarrow> ('w, 'l) process \<Rightarrow> (file_ptr, 'w, 'l) call_result" where
  "wrap_fopen lc srv garbage mount path mode P =
     (case client_path lc mount path P of
        Some relative \<Rightarrow> do { (p, P1) \<leftarrow> on_streams (open_stream srv garbage relative mode) P; Some (opened_ptr p, P1) }
      | None \<Rightarrow> do { (r, P1) \<leftarrow> real_int lc ''fopen'' [A_str path, A_str mode] P; Some (if r = 0 then F_null else F_libc r, P1) })"

definition wrap_freopen :: "'l libc \<Rightarrow> 'w server \<Rightarrow> (nat \<Rightarrow> byte) \<Rightarrow> string \<Rightarrow> string \<Rightarrow> file_ptr \<Rightarrow> ('w, 'l) process \<Rightarrow> (file_ptr, 'w, 'l) call_result" where
  "wrap_freopen lc srv garbage path mode f P =
     (case stream_of f P of
        Some p \<Rightarrow> do {
          (_, P1) \<leftarrow> on_streams (close_stream srv p) P;
          (q, P2) \<leftarrow> on_streams (open_stream srv garbage path mode) P1;
          Some (opened_ptr q, P2)
        }
      | None \<Rightarrow> do { (r, P1) \<leftarrow> real_file_int lc ''freopen'' [A_str path, A_str mode] f P; Some (if r = 0 then F_null else F_libc r, P1) })"

definition wrap_fclose :: "'l libc \<Rightarrow> 'w server \<Rightarrow> file_ptr \<Rightarrow> ('w, 'l) process \<Rightarrow> (c_int, 'w, 'l) call_result" where
  "wrap_fclose lc srv f P =
     (case stream_of f P of
        Some p \<Rightarrow> do { (_, P1) \<leftarrow> on_streams (flush_stream srv p) P; on_streams (close_stream srv p) P1 }
      | None \<Rightarrow> real_file_int lc ''fclose'' [] f P)"

definition wrap_fflush :: "'l libc \<Rightarrow> 'w server \<Rightarrow> file_ptr \<Rightarrow> ('w, 'l) process \<Rightarrow> (c_int, 'w, 'l) call_result" where
  "wrap_fflush lc srv f P =
     (case stream_of f P of Some p \<Rightarrow> on_streams (flush_stream srv p) P | None \<Rightarrow> real_file_int lc ''fflush'' [] f P)"

text \<open>\<open>buf\<close> and \<open>len\<close> are the memory of the caller.\<close>

definition wrap_setbuf :: "'l libc \<Rightarrow> 'w server \<Rightarrow> file_ptr \<Rightarrow> (nat \<Rightarrow> byte) \<Rightarrow> int \<Rightarrow> ('w, 'l) process \<Rightarrow> (unit, 'w, 'l) call_result" where
  "wrap_setbuf lc srv f buf len P =
     (case stream_of f P of
        Some p \<Rightarrow> do { (_, P1) \<leftarrow> on_streams (freebuf_stream srv p) P; on_streams (setbuf_stream p buf len) P1 }
      | None \<Rightarrow> do { (_, P1) \<leftarrow> real_file_int lc ''setbuf'' [] f P; Some ((), P1) })"

definition wrap_setvbuf :: "'l libc \<Rightarrow> file_ptr \<Rightarrow> c_int \<Rightarrow> size_t \<Rightarrow> ('w, 'l) process \<Rightarrow> (c_int, 'w, 'l) call_result" where
  "wrap_setvbuf lc f type sz P = real_file_int lc ''setvbuf'' [A_int type, A_int sz] f P"

text \<open>The byte goes into the lowest byte of an \<^verbatim>\<open>int\<close> on the stack, which held \<open>stack\<close>.\<close>

definition wrap_fgetc :: "'l libc \<Rightarrow> 'w server \<Rightarrow> c_int \<Rightarrow> file_ptr \<Rightarrow> ('w, 'l) process \<Rightarrow> (c_int, 'w, 'l) call_result" where
  "wrap_fgetc lc srv stack f P =
     (case stream_of f P of
        Some p \<Rightarrow> do {
          ((ret, d), P1) \<leftarrow> on_streams (read_stream srv p 1) P;
          if ret \<noteq> 1 then Some (EOF_INT, P1)
          else do {
            let c = s32 (stack - stack mod 256 + uint (hd d));
            (_, P2) \<leftarrow> real_call lc ''printf'' [A_str ''%c'', A_int c] P1;
            Some (c, P2)
          }
        }
      | None \<Rightarrow> real_file_int lc ''fgetc'' [] f P)"

text \<open>
  The loop of \<^verbatim>\<open>fgets\<close> over the memory of the caller. The result of the read is not looked at, and
  only a line break ends the string with a 0.
\<close>

fun fgets_loop :: "'w server \<Rightarrow> nat \<Rightarrow> nat \<Rightarrow> nat \<Rightarrow> (nat \<Rightarrow> byte) \<Rightarrow> 'w streams \<Rightarrow> ((nat \<Rightarrow> byte) \<times> 'w streams) option" where
  "fgets_loop srv p 0 i buf S = Some (buf, S)"
| "fgets_loop srv p (Suc n) i buf S =
     do {
       ((_, d), S1) \<leftarrow> read_stream srv p 1 S;
       let buf1 = put_bytes i d buf;
       if buf1 i = 10 then Some (buf1(i := 0), S1) else fgets_loop srv p n (i + 1) buf1 S1
     }"

text \<open>For a size that is not positive the counter passes 0 only after it wrapped around: undefined.\<close>

definition wrap_fgets :: "'l libc \<Rightarrow> 'w server \<Rightarrow> (nat \<Rightarrow> byte) \<Rightarrow> c_int \<Rightarrow> file_ptr \<Rightarrow> ('w, 'l) process \<Rightarrow> (int \<times> (nat \<Rightarrow> byte), 'w, 'l) call_result" where
  "wrap_fgets lc srv buf n f P =
     (case stream_of f P of
        Some p \<Rightarrow> if n \<le> 0 then None
                  else do { (b, P1) \<leftarrow> on_streams (fgets_loop srv p (nat (n - 1)) 0 buf) P; Some ((1, b), P1) }
      | None \<Rightarrow> do { ((r, d), P1) \<leftarrow> real_file lc ''fgets'' [A_int n] f P; Some ((r, put_bytes 0 d buf), P1) })"

definition wrap_fputc :: "'l libc \<Rightarrow> 'w server \<Rightarrow> c_int \<Rightarrow> file_ptr \<Rightarrow> ('w, 'l) process \<Rightarrow> (c_int, 'w, 'l) call_result" where
  "wrap_fputc lc srv c f P =
     (case stream_of f P of
        Some p \<Rightarrow> do { (ret, P1) \<leftarrow> on_streams (write_stream srv p [word_of_int c]) P; Some (if ret \<noteq> 1 then EOF_INT else c, P1) }
      | None \<Rightarrow> real_file_int lc ''fputc'' [A_int c] f P)"

text \<open>The string has fewer than \<open>2 ^ 31\<close> characters, its length is an \<^verbatim>\<open>int\<close>.\<close>

definition wrap_fputs :: "'l libc \<Rightarrow> 'w server \<Rightarrow> string \<Rightarrow> file_ptr \<Rightarrow> ('w, 'l) process \<Rightarrow> (c_int, 'w, 'l) call_result" where
  "wrap_fputs lc srv s f P =
     (case stream_of f P of
        Some p \<Rightarrow> do { (_, P1) \<leftarrow> on_streams (write_stream srv p (map byte_of_char s)) P; Some (1, P1) }
      | None \<Rightarrow> real_file_int lc ''fputs'' [A_str s] f P)"

definition wrap_ungetc :: "'l libc \<Rightarrow> c_int \<Rightarrow> file_ptr \<Rightarrow> ('w, 'l) process \<Rightarrow> (c_int, 'w, 'l) call_result" where
  "wrap_ungetc lc c f P = real_file_int lc ''ungetc'' [A_int c] f P"

text \<open>The number of bytes, not of items, is returned.\<close>

definition wrap_fread :: "'l libc \<Rightarrow> 'w server \<Rightarrow> size_t \<Rightarrow> size_t \<Rightarrow> file_ptr \<Rightarrow> ('w, 'l) process \<Rightarrow> (size_t \<times> byte list, 'w, 'l) call_result" where
  "wrap_fread lc srv sz nitems f P =
     (case stream_of f P of
        Some p \<Rightarrow> on_streams (read_stream srv p (u64 (sz * nitems))) P
      | None \<Rightarrow> real_file lc ''fread'' [A_int sz, A_int nitems] f P)"

text \<open>\<open>buf\<close> is the memory of the caller, of which the product of the sizes is used.\<close>

definition wrap_fwrite :: "'l libc \<Rightarrow> 'w server \<Rightarrow> byte list \<Rightarrow> size_t \<Rightarrow> size_t \<Rightarrow> file_ptr \<Rightarrow> ('w, 'l) process \<Rightarrow> (size_t, 'w, 'l) call_result" where
  "wrap_fwrite lc srv buf sz nitems f P =
     (case stream_of f P of
        Some p \<Rightarrow> if u64 (sz * nitems) \<le> int (length buf) then on_streams (write_stream srv p (take (nat (u64 (sz * nitems))) buf)) P else None
      | None \<Rightarrow> real_file_int lc ''fwrite'' [A_bytes buf, A_int sz, A_int nitems] f P)"

definition wrap_fgetpos :: "'l libc \<Rightarrow> file_ptr \<Rightarrow> ('w, 'l) process \<Rightarrow> (c_int, 'w, 'l) call_result" where
  "wrap_fgetpos lc f P = (case stream_of f P of Some _ \<Rightarrow> Some (-1, P) | None \<Rightarrow> real_file_int lc ''fgetpos'' [] f P)"

definition wrap_fsetpos :: "'l libc \<Rightarrow> file_ptr \<Rightarrow> ('w, 'l) process \<Rightarrow> (c_int, 'w, 'l) call_result" where
  "wrap_fsetpos lc f P = real_file_int lc ''fsetpos'' [] f P"

text \<open>The new position goes through an \<^verbatim>\<open>int\<close> and is returned where 0 stands for success.\<close>

definition wrap_fseek :: "'l libc \<Rightarrow> 'w server \<Rightarrow> off64_t \<Rightarrow> c_int \<Rightarrow> file_ptr \<Rightarrow> ('w, 'l) process \<Rightarrow> (c_int, 'w, 'l) call_result" where
  "wrap_fseek lc srv offset whence f P =
     (case stream_of f P of
        Some p \<Rightarrow> do { (pos, P1) \<leftarrow> on_streams (seek_stream srv p offset whence) P; Some (s32 pos, P1) }
      | None \<Rightarrow> real_file_int lc ''fseek'' [A_int offset, A_int whence] f P)"

definition wrap_fseeko :: "'l libc \<Rightarrow> 'w server \<Rightarrow> off64_t \<Rightarrow> c_int \<Rightarrow> file_ptr \<Rightarrow> ('w, 'l) process \<Rightarrow> (c_int, 'w, 'l) call_result" where
  "wrap_fseeko lc srv offset whence f P =
     (case stream_of f P of
        Some p \<Rightarrow> do { (pos, P1) \<leftarrow> on_streams (seek_stream srv p offset whence) P; Some (s32 pos, P1) }
      | None \<Rightarrow> real_file_int lc ''fseeko'' [A_int offset, A_int whence] f P)"

text \<open>An operation that only reads a stream.\<close>

definition ask_stream :: "'l libc \<Rightarrow> string \<Rightarrow> file_ptr \<Rightarrow> (nat \<Rightarrow> 'w streams \<Rightarrow> int option) \<Rightarrow> ('w, 'l) process \<Rightarrow> (int, 'w, 'l) call_result" where
  "ask_stream lc name f k P =
     (case stream_of f P of Some p \<Rightarrow> map_option (\<lambda>r. (r, P)) (k p (pr_streams P)) | None \<Rightarrow> real_file_int lc name [] f P)"

definition wrap_ftell :: "'l libc \<Rightarrow> file_ptr \<Rightarrow> ('w, 'l) process \<Rightarrow> (off64_t, 'w, 'l) call_result" where
  "wrap_ftell lc f = ask_stream lc ''ftell'' f tell_stream"

definition wrap_ftello :: "'l libc \<Rightarrow> file_ptr \<Rightarrow> ('w, 'l) process \<Rightarrow> (off64_t, 'w, 'l) call_result" where
  "wrap_ftello lc f = ask_stream lc ''ftello'' f tell_stream"

definition wrap_feof :: "'l libc \<Rightarrow> file_ptr \<Rightarrow> ('w, 'l) process \<Rightarrow> (c_int, 'w, 'l) call_result" where
  "wrap_feof lc f = ask_stream lc ''feof'' f (\<lambda>p S. map_option (\<lambda>b. if b then 1 else 0) (eof_stream p S))"

definition wrap_ferror :: "'l libc \<Rightarrow> file_ptr \<Rightarrow> ('w, 'l) process \<Rightarrow> (c_int, 'w, 'l) call_result" where
  "wrap_ferror lc f = ask_stream lc ''ferror'' f error_stream"

definition wrap_fileno :: "'l libc \<Rightarrow> file_ptr \<Rightarrow> ('w, 'l) process \<Rightarrow> (c_int, 'w, 'l) call_result" where
  "wrap_fileno lc f = ask_stream lc ''fileno'' f fileno_stream"

definition wrap_rewind :: "'l libc \<Rightarrow> 'w server \<Rightarrow> file_ptr \<Rightarrow> ('w, 'l) process \<Rightarrow> (unit, 'w, 'l) call_result" where
  "wrap_rewind lc srv f P =
     (case stream_of f P of
        Some p \<Rightarrow> do { (_, P1) \<leftarrow> on_streams (seek_stream srv p 0 SEEK_SET) P; Some ((), P1) }
      | None \<Rightarrow> do { (_, P1) \<leftarrow> real_file_int lc ''rewind'' [] f P; Some ((), P1) })"

definition wrap_clearerr :: "'l libc \<Rightarrow> file_ptr \<Rightarrow> ('w, 'l) process \<Rightarrow> (unit, 'w, 'l) call_result" where
  "wrap_clearerr lc f P =
     (case stream_of f P of
        Some p \<Rightarrow> on_streams (clearerr_stream p) P
      | None \<Rightarrow> do { (_, P1) \<leftarrow> real_file_int lc ''clearerr'' [] f P; Some ((), P1) })"

end
