(* ===== verification/Client_Fuse.thy ===== *)
theory Client_Fuse
  imports Client_Interface
begin

text \<open>
  The FUSE daemon (Client/src/CBB\_fuse.cpp): one operation per callback. The daemon is built for
  one thread, with \<open>single\<close>, where a handle is a stream, or for several, where a handle is the
  client's record of the file and reads and writes go to the servers at once.

  \<^item> A handle is \<^verbatim>\<open>fi->fh\<close>, None for the null pointer.
  \<^item> An exception that reaches the C code of FUSE ends the daemon, the result None.
  \<^item> The function that collects directory entries belongs to FUSE and is a parameter.
\<close>

section \<open>Open files\<close>

definition uncaught :: "('a, 'w) result \<Rightarrow> ('a \<times> 'w client) option" where
  "uncaught r = do { (x, c) \<leftarrow> r; case x of Ret a \<Rightarrow> Some (a, c) | Thrown \<Rightarrow> None }"

definition fuse_open_file :: "bool \<Rightarrow> 'w server \<Rightarrow> (nat \<Rightarrow> byte) \<Rightarrow> string \<Rightarrow> c_int \<Rightarrow> mode_t \<Rightarrow> 'w streams \<Rightarrow>
    ((c_int \<times> nat option) \<times> 'w streams) option" where
  "fuse_open_file single srv garbage path flag mode S =
     do {
       (fh, S1) \<leftarrow> (if single then open_stream_flags srv garbage path flag mode S
                    else with_client (\<lambda>c. uncaught (remote_open srv path flag mode c)) S);
       Some ((if fh = None then - cl_errno (ss_client S1) else 0, fh), S1)
     }"

definition fuse_open :: "bool \<Rightarrow> 'w server \<Rightarrow> (nat \<Rightarrow> byte) \<Rightarrow> string \<Rightarrow> c_int \<Rightarrow> 'w streams \<Rightarrow>
    ((c_int \<times> nat option) \<times> 'w streams) option" where
  "fuse_open single srv garbage path flags = fuse_open_file single srv garbage path flags 384"

definition fuse_creat :: "bool \<Rightarrow> 'w server \<Rightarrow> (nat \<Rightarrow> byte) \<Rightarrow> string \<Rightarrow> mode_t \<Rightarrow> 'w streams \<Rightarrow>
    ((c_int \<times> nat option) \<times> 'w streams) option" where
  "fuse_creat single srv garbage path mode = fuse_open_file single srv garbage path (O_CREAT OR O_WRONLY OR O_TRUNC) mode"

definition fuse_flush :: "bool \<Rightarrow> 'w server \<Rightarrow> nat option \<Rightarrow> 'w streams \<Rightarrow> (c_int \<times> 'w streams) option" where
  "fuse_flush single srv fh S = (if single then do { p \<leftarrow> fh; flush_stream srv p S } else Some (0, S))"

definition fuse_bad_handle :: "'w streams \<Rightarrow> 'w streams" where
  "fuse_bad_handle S = S\<lparr>ss_client := set_errno EBADF (ss_client S)\<rparr>"

definition fuse_read :: "bool \<Rightarrow> 'w server \<Rightarrow> nat option \<Rightarrow> size_t \<Rightarrow> off64_t \<Rightarrow> 'w streams \<Rightarrow> ((c_int \<times> byte list) \<times> 'w streams) option" where
  "fuse_read single srv fh count offset S =
     (case fh of
        None \<Rightarrow> Some ((-1, []), fuse_bad_handle S)
      | Some p \<Rightarrow>
          if single then do {
            (pos, S1) \<leftarrow> seek_stream srv p offset SEEK_SET S;
            if pos = -1 then Some ((-1, []), S1)
            else do { ((n, d), S2) \<leftarrow> read_stream srv p count S1; Some ((s32 n, d), S2) }
          } else do {
            (d, S1) \<leftarrow> with_client (\<lambda>c. uncaught (remote_read srv p offset count c)) S;
            Some ((s32 (int (length d)), d), S1)
          })"

definition fuse_write :: "bool \<Rightarrow> 'w server \<Rightarrow> nat option \<Rightarrow> byte list \<Rightarrow> off64_t \<Rightarrow> 'w streams \<Rightarrow> (c_int \<times> 'w streams) option" where
  "fuse_write single srv fh buf offset S =
     (case fh of
        None \<Rightarrow> Some (-1, fuse_bad_handle S)
      | Some p \<Rightarrow>
          if single then do {
            (pos, S1) \<leftarrow> seek_stream srv p offset SEEK_SET S;
            if pos = -1 then Some (-1, S1)
            else do {
              (n, S2) \<leftarrow> write_stream srv p buf S1;
              (_, S3) \<leftarrow> update_underlying_file_size p S2;
              Some (s32 n, S3)
            }
          } else do {
            (n, S1) \<leftarrow> with_client (\<lambda>c. uncaught (remote_write srv p buf offset c)) S;
            Some (s32 n, S1)
          })"

text \<open>For several threads the call of the client is commented out: nothing is closed.\<close>

definition fuse_release :: "bool \<Rightarrow> 'w server \<Rightarrow> nat option \<Rightarrow> 'w streams \<Rightarrow> (c_int \<times> 'w streams) option" where
  "fuse_release single srv fh S = (if single then do { p \<leftarrow> fh; close_stream srv p S } else Some (-1, S))"

section \<open>Names\<close>

text \<open>None in the result is a buffer left as it was.\<close>

definition fuse_getattr :: "bool \<Rightarrow> 'w server \<Rightarrow> string \<Rightarrow> 'w streams \<Rightarrow> ((c_int \<times> stat option) \<times> 'w streams) option" where
  "fuse_getattr single srv path =
     with_client (if single then CBB_getattr srv path else (\<lambda>c. uncaught (remote_getattr srv path c)))"

fun fill_dir :: "(string \<Rightarrow> 'f \<Rightarrow> c_int \<times> 'f) \<Rightarrow> string list \<Rightarrow> 'f \<Rightarrow> c_int \<times> 'f" where
  "fill_dir filler [] buf = (0, buf)"
| "fill_dir filler (name # dir) buf =
     (let (r, buf1) = filler name buf in if r = 1 then (-1, buf1) else fill_dir filler dir buf1)"

text \<open>The result of the client's \<^verbatim>\<open>readdir\<close> is not looked at.\<close>

definition fuse_readdir :: "'w server \<Rightarrow> (nat \<Rightarrow> byte) \<Rightarrow> (string \<Rightarrow> 'f \<Rightarrow> c_int \<times> 'f) \<Rightarrow> string \<Rightarrow> 'f \<Rightarrow> 'w streams \<Rightarrow>
    ((c_int \<times> 'f) \<times> 'w streams) option" where
  "fuse_readdir srv garbage filler path buf S =
     do {
       (_, c1, dir) \<leftarrow> CBB_readdir srv garbage path (ss_client S, []);
       Some (fill_dir filler dir buf, S\<lparr>ss_client := c1\<rparr>)
     }"

definition fuse_unlink :: "'w server \<Rightarrow> string \<Rightarrow> 'w streams \<Rightarrow> (c_int \<times> 'w streams) option" where
  "fuse_unlink srv path = with_client (CBB_unlink srv path)"

definition fuse_rmdir :: "'w server \<Rightarrow> string \<Rightarrow> 'w streams \<Rightarrow> (c_int \<times> 'w streams) option" where
  "fuse_rmdir srv path = with_client (CBB_rmdir srv path)"

definition fuse_access :: "'w server \<Rightarrow> string \<Rightarrow> c_int \<Rightarrow> 'w streams \<Rightarrow> (c_int \<times> 'w streams) option" where
  "fuse_access srv path mode = with_client (CBB_access srv path mode)"

definition fuse_mkdir :: "'w server \<Rightarrow> string \<Rightarrow> mode_t \<Rightarrow> 'w streams \<Rightarrow> (c_int \<times> 'w streams) option" where
  "fuse_mkdir srv path mode = with_client (CBB_mkdir srv path mode)"

definition fuse_rename :: "'w server \<Rightarrow> string \<Rightarrow> string \<Rightarrow> 'w streams \<Rightarrow> (c_int \<times> 'w streams) option" where
  "fuse_rename srv old_name new_name = with_client (CBB_rename srv old_name new_name)"

definition fuse_mknod :: "string \<Rightarrow> mode_t \<Rightarrow> 'w streams \<Rightarrow> (c_int \<times> 'w streams) option" where
  "fuse_mknod path mode S = Some (0, S)"

definition fuse_truncate :: "'w server \<Rightarrow> string \<Rightarrow> off64_t \<Rightarrow> 'w streams \<Rightarrow> (c_int \<times> 'w streams) option" where
  "fuse_truncate srv path sz = with_client (CBB_truncate srv path sz)"

text \<open>The handle is not used.\<close>

definition fuse_ftruncate :: "'w server \<Rightarrow> string \<Rightarrow> off64_t \<Rightarrow> nat option \<Rightarrow> 'w streams \<Rightarrow> (c_int \<times> 'w streams) option" where
  "fuse_ftruncate srv path sz fh = with_client (CBB_truncate srv path sz)"

section \<open>Start\<close>

text \<open>
  \<^verbatim>\<open>main\<close> up to the call of FUSE: the exit code when the client did not come up, or the
  arguments for \<^verbatim>\<open>fuse_main\<close> and whether the client's threads were started here.
\<close>

definition fuse_args :: "bool \<Rightarrow> string \<Rightarrow> string list \<Rightarrow> string list" where
  "fuse_args single mount argv = argv @ (if single then [''-s''] else []) @ [''-o'', ''direct_io'', mount]"

definition fuse_main_args :: "bool \<Rightarrow> bool \<Rightarrow> string \<Rightarrow> string list \<Rightarrow> c_int + (string list \<times> bool)" where
  "fuse_main_args single initalized mount argv =
     (if \<not> initalized then Inl 1 else Inr (fuse_args single mount argv, ''-d'' \<in> set argv))"

end
