(* ===== verification/Interface_Cluster.thy ===== *)
theory Interface_Cluster
  imports Client_Fuse Client_Cluster
begin

text \<open>
  The calls of programs and of FUSE on a client, a master and an IOnode: what they do to the bytes of
  an open file, proved from the contract \<open>file_service\<close> and so for the cluster.
\<close>

section \<open>POSIX calls on a file of bytes\<close>

datatype posix_req = C_write "byte list" | C_read size_t | C_lseek off64_t | C_pwrite "byte list" off64_t | C_pread size_t off64_t
  | C_writev "byte list list" | C_readv "size_t list"

datatype posix_reply = Number int | Data int "byte list"

fun posix_reply_of :: "file_reply \<Rightarrow> posix_reply" where
  "posix_reply_of (Count k) = Number k"
| "posix_reply_of (Bytes d) = Data (int (length d)) d"

text \<open>
  What a call means: the positional calls are a seek that stays, the gathering ones act as one write
  of all the bytes and one read of the sum of the lengths.
\<close>

fun posix_meaning :: "posix_req \<Rightarrow> cfile \<Rightarrow> file_reply \<times> cfile" where
  "posix_meaning (C_write bs) f = file_step (Op_write bs) f"
| "posix_meaning (C_read k) f = file_step (Op_read k) f"
| "posix_meaning (C_lseek off) f = file_step (Op_seek off) f"
| "posix_meaning (C_pwrite bs off) f = file_step (Op_write bs) (fst f, off)"
| "posix_meaning (C_pread k off) f = file_step (Op_read k) (fst f, off)"
| "posix_meaning (C_writev bss) f = file_step (Op_write (concat bss)) f"
| "posix_meaning (C_readv ks) f = file_step (Op_read (sum_list ks)) f"

text \<open>The single transfers, to each of which the limits of the client apply.\<close>

fun posix_transfers :: "posix_req \<Rightarrow> file_op list" where
  "posix_transfers (C_write bs) = [Op_write bs]"
| "posix_transfers (C_read k) = [Op_read k]"
| "posix_transfers (C_lseek off) = [Op_seek off]"
| "posix_transfers (C_pwrite bs off) = [Op_seek off, Op_write bs]"
| "posix_transfers (C_pread k off) = [Op_seek off, Op_read k]"
| "posix_transfers (C_writev bss) = map Op_write bss"
| "posix_transfers (C_readv ks) = map Op_read ks"

fun posix_spec :: "posix_req list \<Rightarrow> cfile \<Rightarrow> posix_reply list \<times> cfile" where
  "posix_spec [] f = ([], f)"
| "posix_spec (call # calls) f =
     (let (r, f1) = posix_meaning call f; (rs, f2) = posix_spec calls f1 in (posix_reply_of r # rs, f2))"

fun posix_calls_ok :: "posix_req list \<Rightarrow> cfile \<Rightarrow> bool" where
  "posix_calls_ok [] f \<longleftrightarrow> True"
| "posix_calls_ok (call # calls) f \<longleftrightarrow> ops_ok (posix_transfers call) f \<and> posix_calls_ok calls (snd (posix_meaning call f))"

text \<open>The calls as the program makes them.\<close>

fun posix_call :: "'l libc \<Rightarrow> 'w server \<Rightarrow> c_int \<Rightarrow> posix_req \<Rightarrow> ('w, 'l) process \<Rightarrow> (posix_reply, 'w, 'l) call_result" where
  "posix_call lc srv fd (C_write bs) P = do { (r, P1) \<leftarrow> wrap_write lc srv fd bs P; Some (Number r, P1) }"
| "posix_call lc srv fd (C_read k) P = do { ((r, d), P1) \<leftarrow> wrap_read lc srv fd k P; Some (Data r d, P1) }"
| "posix_call lc srv fd (C_lseek off) P = do { (r, P1) \<leftarrow> wrap_lseek64 lc fd off SEEK_SET P; Some (Number r, P1) }"
| "posix_call lc srv fd (C_pwrite bs off) P = do { (r, P1) \<leftarrow> wrap_pwrite64 lc srv fd bs off P; Some (Number r, P1) }"
| "posix_call lc srv fd (C_pread k off) P = do { ((r, d), P1) \<leftarrow> wrap_pread64 lc srv fd k off P; Some (Data r d, P1) }"
| "posix_call lc srv fd (C_writev bss) P = do { (r, P1) \<leftarrow> wrap_writev lc srv fd bss P; Some (Number r, P1) }"
| "posix_call lc srv fd (C_readv ks) P = do { ((r, ds), P1) \<leftarrow> wrap_readv lc srv fd ks P; Some (Data r (concat ds), P1) }"

fun posix_run :: "'l libc \<Rightarrow> 'w server \<Rightarrow> c_int \<Rightarrow> posix_req list \<Rightarrow> ('w, 'l) process \<Rightarrow> (posix_reply list, 'w, 'l) call_result" where
  "posix_run lc srv fd [] P = Some ([], P)"
| "posix_run lc srv fd (call # calls) P = do { (r, P1) \<leftarrow> posix_call lc srv fd call P; (rs, P2) \<leftarrow> posix_run lc srv fd calls P1; Some (r # rs, P2) }"

section \<open>FUSE calls on a file of bytes\<close>

text \<open>The kernel names the offset of every transfer; a read stays inside the file.\<close>

datatype fuse_req = Fuse_write "byte list" off64_t | Fuse_read size_t off64_t

fun fuse_meaning :: "fuse_req \<Rightarrow> byte list \<Rightarrow> posix_reply \<times> byte list" where
  "fuse_meaning (Fuse_write bs off) xs = (Number (int (length bs)), put (nat off) bs xs)"
| "fuse_meaning (Fuse_read k off) xs = (Data k (take (nat k) (drop (nat off) xs)), xs)"

fun fuse_call_ok :: "fuse_req \<Rightarrow> byte list \<Rightarrow> bool" where
  "fuse_call_ok (Fuse_write bs off) xs \<longleftrightarrow> bs \<noteq> [] \<and> 0 \<le> off \<and> off \<le> int (length xs) \<and>
     off + int (length bs) + BLOCK_SIZE < 4611686018427387904 \<and> int (length bs) < 2147483648 \<and>
     block_count (int (length bs)) \<le> MAX_REPLY_BLOCKS"
| "fuse_call_ok (Fuse_read k off) xs \<longleftrightarrow> 0 < k \<and> k < 2147483648 \<and> 0 \<le> off \<and> off + k \<le> int (length xs) \<and>
     (off mod BLOCK_SIZE + k \<le> BLOCK_SIZE \<or> off mod BLOCK_SIZE = 0) \<and> block_count k \<le> MAX_REPLY_BLOCKS"

fun fuse_spec :: "fuse_req list \<Rightarrow> byte list \<Rightarrow> posix_reply list \<times> byte list" where
  "fuse_spec [] xs = ([], xs)"
| "fuse_spec (call # calls) xs = (let (r, ys) = fuse_meaning call xs; (rs, zs) = fuse_spec calls ys in (r # rs, zs))"

fun fuse_calls_ok :: "fuse_req list \<Rightarrow> byte list \<Rightarrow> bool" where
  "fuse_calls_ok [] xs \<longleftrightarrow> True"
| "fuse_calls_ok (call # calls) xs \<longleftrightarrow> fuse_call_ok call xs \<and> fuse_calls_ok calls (snd (fuse_meaning call xs))"

fun fuse_call :: "'w server \<Rightarrow> nat \<Rightarrow> fuse_req \<Rightarrow> 'w streams \<Rightarrow> (posix_reply \<times> 'w streams) option" where
  "fuse_call srv p (Fuse_write bs off) S = do { (r, S1) \<leftarrow> fuse_write False srv (Some p) bs off S; Some (Number r, S1) }"
| "fuse_call srv p (Fuse_read k off) S = do { ((r, d), S1) \<leftarrow> fuse_read False srv (Some p) k off S; Some (Data r d, S1) }"

fun fuse_run :: "'w server \<Rightarrow> nat \<Rightarrow> fuse_req list \<Rightarrow> 'w streams \<Rightarrow> (posix_reply list \<times> 'w streams) option" where
  "fuse_run srv p [] S = Some ([], S)"
| "fuse_run srv p (call # calls) S = do { (r, S1) \<leftarrow> fuse_call srv p call S; (rs, S2) \<leftarrow> fuse_run srv p calls S1; Some (r # rs, S2) }"

section \<open>Calls on a served file\<close>

lemma take_then_take:
  fixes xs :: "'a list"
  defines "d p k \<equiv> take (nat k) (drop p xs)"
  assumes "0 \<le> a" "0 \<le> b"
  shows "d p a @ d (p + length (d p a)) b = d p (a + b)"
  using assms by (auto simp: min_def nat_add_distrib take_add add.commute)

context file_service
begin

lemma CBB_write_ok:
  assumes "implements c fd (xs, pos)" "op_ok (Op_write bs) (xs, pos)"
  shows "\<exists>c'. CBB_write srv fd bs c = Some (int (length bs), c') \<and> implements c' fd (put (nat pos) bs xs, pos + int (length bs))"
  using call_ok [OF assms] by (auto simp: bind_eq_Some_conv)

lemma CBB_read_ok:
  fixes xs :: "byte list"
  defines "d pos k \<equiv> take (nat k) (drop (nat pos) xs)"
  assumes "implements c fd (xs, pos)" "op_ok (Op_read k) (xs, pos)"
  shows "\<exists>c'. CBB_read srv fd k c = Some ((int (length (d pos k)), d pos k), c') \<and> implements c' fd (xs, pos + int (length (d pos k)))"
proof -
  have i: "attached c fd mh ih n node (int (length xs)) pos" "serves (cl_world c) xs (int (length xs))" "0 \<le> pos" using assms(2) by (simp_all add: implements_def)
  have "0 \<le> k" "k + pos < 9223372036854775808" "pos mod BLOCK_SIZE + min k (int (length xs) - pos) \<le> BLOCK_SIZE \<or> pos mod BLOCK_SIZE = 0"
    "block_count (min k (int (length xs) - pos)) \<le> MAX_REPLY_BLOCKS" using assms(3) by simp_all
  from client_read_ok [OF i this] show ?thesis using i(3) by (auto simp: d_def CBB_read_def implements_def numeral_eq_Suc)
qed

lemma lseek_ok:
  assumes "implements c fd (xs, pos)" "op_ok (Op_seek off) (xs, pos)"
  shows "\<exists>c'. client_lseek fd off SEEK_SET c = Some (off, c') \<and> implements c' fd (xs, off)"
  using call_ok [OF assms] by (auto simp: bind_eq_Some_conv)

lemma writev_loop_ok:
  assumes "implements c fd (xs, pos)" "ops_ok (map Op_write bss) (xs, pos)" "0 \<le> ans"
  shows "\<exists>c'. writev_loop srv fd bss ans c = Some (ans + int (length (concat bss)), c') \<and>
    implements c' fd (put (nat pos) (concat bss) xs, pos + int (length (concat bss)))"
  using assms
proof (induction bss arbitrary: c xs pos ans)
  case (Cons bs bss)
  let ?ys = "put (nat pos) bs xs" and ?q = "pos + int (length bs)"
  from Cons.prems(1) have pos: "0 \<le> pos" by (simp add: implements_def)
  have ok: "op_ok (Op_write bs) (xs, pos)" "ops_ok (map Op_write bss) (?ys, ?q)" using Cons.prems(2) by simp_all
  from CBB_write_ok [OF Cons.prems(1) ok(1)] obtain c1 where c1: "CBB_write srv fd bs c = Some (int (length bs), c1)"
    "implements c1 fd (?ys, ?q)" by blast
  have "0 \<le> ans + int (length bs)" using Cons.prems(3) by simp
  from Cons.IH [OF c1(2) ok(2) this] obtain c2 where c2: "writev_loop srv fd bss (ans + int (length bs)) c1 = Some (ans + int (length bs) + int (length (concat bss)), c2)"
    "implements c2 fd (put (nat ?q) (concat bss) ?ys, ?q + int (length (concat bss)))" by blast
  have "put (nat ?q) (concat bss) ?ys = put (nat pos) (concat (bs # bss)) xs"
    using pos ok(1) put_put [of "nat pos" xs bs "concat bss"] by (simp add: nat_add_distrib nat_le_iff)
  then show ?case using c1(1) c2 by (simp add: algebra_simps)
qed simp

lemma readv_loop_ok:
  fixes xs :: "byte list"
  defines "d pos k \<equiv> take (nat k) (drop (nat pos) xs)"
  assumes "implements c fd (xs, pos)" "ops_ok (map Op_read ks) (xs, pos)" "0 \<le> ans"
  shows "\<exists>ds c'. readv_loop srv fd ks ans bufs c = Some ((ans + int (length (d pos (sum_list ks))), bufs @ ds), c') \<and>
    concat ds = d pos (sum_list ks) \<and> 0 \<le> sum_list ks \<and> implements c' fd (xs, pos + int (length (d pos (sum_list ks))))"
  using assms(2-4)
proof (induction ks arbitrary: c pos ans bufs)
  case (Cons k ks)
  let ?e = "d pos k" and ?q = "pos + int (length (d pos k))"
  from Cons.prems(1) have pos: "0 \<le> pos" by (simp add: implements_def)
  have ok: "op_ok (Op_read k) (xs, pos)" "ops_ok (map Op_read ks) (xs, ?q)" using Cons.prems(2) by (simp_all add: Let_def d_def del: length_take)
  from CBB_read_ok [OF Cons.prems(1) ok(1)] obtain c1 where c1: "CBB_read srv fd k c = Some ((int (length ?e), ?e), c1)"
    "implements c1 fd (xs, ?q)" unfolding d_def by blast
  have "0 \<le> ans + int (length ?e)" using Cons.prems(3) by simp
  from Cons.IH [OF c1(2) ok(2) this, of "bufs @ [?e]"] obtain ds c2 where c2:
    "readv_loop srv fd ks (ans + int (length ?e)) (bufs @ [?e]) c1 = Some ((ans + int (length ?e) + int (length (d ?q (sum_list ks))), bufs @ [?e] @ ds), c2)"
    "concat ds = d ?q (sum_list ks)" "0 \<le> sum_list ks"
    "implements c2 fd (xs, ?q + int (length (d ?q (sum_list ks))))" unfolding append_assoc by blast
  have k: "0 \<le> k" using Cons.prems(2) by simp
  have j: "?e @ d ?q (sum_list ks) = d pos (sum_list (k # ks))"
    using take_then_take [OF k c2(3), of "nat pos" xs] pos by (simp add: d_def nat_add_distrib)
  then have "int (length ?e) + int (length (d ?q (sum_list ks))) = int (length (d pos (sum_list (k # ks))))"
    by (metis length_append of_nat_add)
  then show ?case using c1(1) c2 j k by (intro exI [of _ "?e # ds"] exI [of _ c2]) (simp add: add.assoc)
qed (simp add: d_def)

lemma posix_call_ok:
  assumes "interpret_fd fd" "implements (ss_client (pr_streams P)) fd f" "ops_ok (posix_transfers call) f"
  shows "\<exists>P'. posix_call lc srv fd call P = Some (posix_reply_of (fst (posix_meaning call f)), P') \<and> pr_libc P' = pr_libc P \<and>
    implements (ss_client (pr_streams P')) fd (snd (posix_meaning call f))"
proof -
  obtain xs pos where f: "f = (xs, pos)" by (cases f)
  let ?c = "ss_client (pr_streams P)" and ?P = "\<lambda>c. P\<lparr>pr_streams := (pr_streams P)\<lparr>ss_client := c\<rparr>\<rparr>"
  note i = assms(2) [unfolded f] and simps = on_client_def on_streams_def with_client_def assms(1) f Let_def
  show ?thesis
  proof (cases call)
    case (C_write bs)
    from CBB_write_ok [OF i, of bs] assms(3) obtain c1 where "CBB_write srv fd bs ?c = Some (int (length bs), c1)"
      "implements c1 fd (put (nat pos) bs xs, pos + int (length bs))" unfolding C_write f by auto
    then show ?thesis using C_write by (intro exI [of _ "?P c1"]) (simp add: wrap_write_def simps)
  next
    case (C_read k)
    have "op_ok (Op_read k) (xs, pos)" using assms(3) unfolding C_read f by simp
    from CBB_read_ok [OF i this] obtain c1 where "CBB_read srv fd k ?c = Some ((int (length (take (nat k) (drop (nat pos) xs))), take (nat k) (drop (nat pos) xs)), c1)"
      "implements c1 fd (xs, pos + int (length (take (nat k) (drop (nat pos) xs))))" by blast
    then show ?thesis using C_read by (intro exI [of _ "?P c1"]) (simp add: wrap_read_def simps)
  next
    case (C_lseek off)
    from lseek_ok [OF i, of off] assms(3) obtain c1 where "client_lseek fd off SEEK_SET ?c = Some (off, c1)" "implements c1 fd (xs, off)"
      unfolding C_lseek f by auto
    then show ?thesis using C_lseek by (intro exI [of _ "?P c1"]) (simp add: wrap_lseek64_def simps)
  next
    case (C_pwrite bs off)
    have ok: "op_ok (Op_seek off) (xs, pos)" "op_ok (Op_write bs) (xs, off)" using assms(3) unfolding C_pwrite f by simp_all
    from lseek_ok [OF i ok(1)] obtain c1 where c1: "client_lseek fd off SEEK_SET ?c = Some (off, c1)" "implements c1 fd (xs, off)" by blast
    from CBB_write_ok [OF c1(2) ok(2)] obtain c2 where "CBB_write srv fd bs c1 = Some (int (length bs), c2)"
      "implements c2 fd (put (nat off) bs xs, off + int (length bs))" by blast
    then show ?thesis using C_pwrite c1(1) ok(1) by (intro exI [of _ "?P c2"]) (simp add: wrap_pwrite64_def simps)
  next
    case (C_pread k off)
    have ok: "op_ok (Op_seek off) (xs, pos)" "op_ok (Op_read k) (xs, off)" using assms(3) unfolding C_pread f by simp_all
    from lseek_ok [OF i ok(1)] obtain c1 where c1: "client_lseek fd off SEEK_SET ?c = Some (off, c1)" "implements c1 fd (xs, off)" by blast
    from CBB_read_ok [OF c1(2) ok(2)] obtain c2 where "CBB_read srv fd k c1 = Some ((int (length (take (nat k) (drop (nat off) xs))), take (nat k) (drop (nat off) xs)), c2)"
      "implements c2 fd (xs, off + int (length (take (nat k) (drop (nat off) xs))))" by blast
    then show ?thesis using C_pread c1(1) ok(1) by (intro exI [of _ "?P c2"]) (simp add: wrap_pread64_def simps)
  next
    case (C_writev bss)
    have "ops_ok (map Op_write bss) (xs, pos)" using assms(3) unfolding C_writev f by simp
    from writev_loop_ok [OF i this order_refl] obtain c1 where "writev_loop srv fd bss 0 ?c = Some (int (length (concat bss)), c1)"
      "implements c1 fd (put (nat pos) (concat bss) xs, pos + int (length (concat bss)))" by auto
    then show ?thesis using C_writev by (intro exI [of _ "?P c1"]) (simp add: wrap_writev_def simps)
  next
    case (C_readv ks)
    have "ops_ok (map Op_read ks) (xs, pos)" using assms(3) unfolding C_readv f by simp
    from readv_loop_ok [OF i this order_refl, of "[]"] obtain ds c1 where
      "readv_loop srv fd ks 0 [] ?c = Some ((int (length (take (nat (sum_list ks)) (drop (nat pos) xs))), ds), c1)"
      "concat ds = take (nat (sum_list ks)) (drop (nat pos) xs)" "implements c1 fd (xs, pos + int (length (take (nat (sum_list ks)) (drop (nat pos) xs))))"
      unfolding append_Nil add_0 by blast
    then show ?thesis using C_readv by (intro exI [of _ "?P c1"]) (simp add: wrap_readv_def simps)
  qed
qed

lemma posix_run_ok:
  assumes "interpret_fd fd" "implements (ss_client (pr_streams P)) fd f" "posix_calls_ok calls f"
  shows "\<exists>P'. posix_run lc srv fd calls P = Some (fst (posix_spec calls f), P') \<and> pr_libc P' = pr_libc P \<and>
    implements (ss_client (pr_streams P')) fd (snd (posix_spec calls f))"
  using assms(2,3)
proof (induction calls arbitrary: P f)
  case (Cons call calls)
  from posix_call_ok [OF assms(1) Cons.prems(1)] Cons.prems(2) obtain P1 where P1: "posix_call lc srv fd call P = Some (posix_reply_of (fst (posix_meaning call f)), P1)"
    "pr_libc P1 = pr_libc P" "implements (ss_client (pr_streams P1)) fd (snd (posix_meaning call f))" by fastforce
  from Cons.IH [OF P1(3)] Cons.prems(2) P1(1,2) show ?case by (fastforce simp: case_prod_unfold Let_def)
qed simp

text \<open>A record of the client for an open file, as the daemon keeps it.\<close>

definition handle_holds :: "'w client \<Rightarrow> nat \<Rightarrow> byte list \<Rightarrow> bool" where
  "handle_holds c p xs \<longleftrightarrow> attached_meta c p mh ih n node (int (length xs)) \<and> \<not> cl_using_cache c \<and> serves (cl_world c) xs (int (length xs))"

lemma fuse_step_ok:
  assumes "handle_holds (ss_client S) p xs" "fuse_call_ok call xs"
  shows "\<exists>S'. fuse_call srv p call S = Some (fst (fuse_meaning call xs), S') \<and> handle_holds (ss_client S') p (snd (fuse_meaning call xs))"
proof -
  have h: "attached_meta (ss_client S) p mh ih n node (int (length xs))" "\<not> cl_using_cache (ss_client S)" "serves (cl_world (ss_client S)) xs (int (length xs))"
    using assms(1) by (simp_all add: handle_holds_def)
  show ?thesis
  proof (cases call)
    case (Fuse_write bs off)
    have r: "0 \<le> off" "off \<le> int (length xs)" "bs \<noteq> []" "off + int (length bs) + BLOCK_SIZE < 4611686018427387904"
      "block_count (int (length bs)) \<le> MAX_REPLY_BLOCKS" "int (length bs) < 2147483648"
      using assms(2) unfolding Fuse_write by simp_all
    from remote_write_ok [OF h order_refl _ r(1-5)] obtain c1 where "remote_write srv p bs off (ss_client S) = Some (Ret (int (length bs)), c1)"
      "attached_meta c1 p mh ih n node (int (length (put (nat off) bs xs)))" "serves (cl_world c1) (put (nat off) bs xs) (int (length (put (nat off) bs xs)))"
      "same_table (ss_client S) c1" by auto
    then show ?thesis using h(2) r(6) Fuse_write
      by (intro exI [of _ "S\<lparr>ss_client := c1\<rparr>"]) (simp add: fuse_write_def with_client_def uncaught_def handle_holds_def same_table_def s32_def)
  next
    case (Fuse_read k off)
    have r: "0 \<le> off" "0 < k" "off + k \<le> int (length xs)" "off mod BLOCK_SIZE + k \<le> BLOCK_SIZE \<or> off mod BLOCK_SIZE = 0"
      "block_count k \<le> MAX_REPLY_BLOCKS" "k < 2147483648"
      using assms(2) unfolding Fuse_read by simp_all
    have l: "int (length (take (nat k) (drop (nat off) xs))) = k" using r(1-3) by simp
    from remote_read_ok [OF h r(1-5)] obtain c1 where "remote_read srv p off k (ss_client S) = Some (Ret (take (nat k) (drop (nat off) xs)), c1)"
      "attached_meta c1 p mh ih n node (int (length xs))" "serves (cl_world c1) xs (int (length xs))" "same_table (ss_client S) c1" by blast
    then show ?thesis using h(2) r(2,6) l Fuse_read
      by (intro exI [of _ "S\<lparr>ss_client := c1\<rparr>"]) (simp add: fuse_read_def with_client_def uncaught_def handle_holds_def same_table_def s32_def del: length_take)
  qed
qed

lemma fuse_run_ok:
  assumes "handle_holds (ss_client S) p xs" "fuse_calls_ok calls xs"
  shows "\<exists>S'. fuse_run srv p calls S = Some (fst (fuse_spec calls xs), S') \<and> handle_holds (ss_client S') p (snd (fuse_spec calls xs))"
  using assms
proof (induction calls arbitrary: S xs)
  case (Cons call calls)
  from fuse_step_ok [OF Cons.prems(1)] Cons.prems(2) obtain S1 where S1: "fuse_call srv p call S = Some (fst (fuse_meaning call xs), S1)"
    "handle_holds (ss_client S1) p (snd (fuse_meaning call xs))" by auto
  from Cons.IH [OF S1(2)] Cons.prems(2) S1(1) show ?case by (auto simp: case_prod_unfold Let_def)
qed simp

end

section \<open>On the cluster\<close>

text \<open>A descriptor of the library: the client and its streams are left alone.\<close>

lemma foreign_descriptor:
  assumes "\<not> interpret_fd fd"
  shows "\<exists>r P'. posix_call lc srv fd call P = Some (r, P') \<and> pr_streams P' = pr_streams P"
  using assms
  by (cases call) (auto simp: wrap_write_def wrap_read_def wrap_lseek64_def wrap_pwrite64_def wrap_pread64_def wrap_writev_def wrap_readv_def
      real_int_def real_call_def split: prod.splits)

text \<open>C11: POSIX calls on a file of bytes. On a descriptor of the client, with a master and an IOnode that serve the
  file, every sequence of \<^verbatim>\<open>read\<close>, \<^verbatim>\<open>write\<close>, \<^verbatim>\<open>lseek\<close> with \<^verbatim>\<open>SEEK_SET\<close> (and no other \<^verbatim>\<open>whence\<close>), \<^verbatim>\<open>pread\<close>,
  \<^verbatim>\<open>pwrite\<close>, \<^verbatim>\<open>readv\<close> and \<^verbatim>\<open>writev\<close> returns what a byte list with a position returns, as long as every
  transfer is within these limits: a write starts inside the file or at its end, a read stays in
  one block or starts at the start of a block, neither has more than 240 blocks of 1 MiB, a write
  is below 2 GiB and offsets below \<^verbatim>\<open>2^62\<close>. \<^verbatim>\<open>readv\<close> and \<^verbatim>\<open>writev\<close> act as one transfer of all the buffers
  and the positional calls leave the position behind their transfer; the servers have the
  resulting bytes, and the C library is not called.\<close>

theorem posix_refines_file:
  assumes "interpret_fd fd" "attached (ss_client (pr_streams P)) fd 0 1 n node (int (length xs)) pos" "0 \<le> pos"
    and "cluster_serves n node uri (cl_world (ss_client (pr_streams P))) xs (int (length xs))"
    and "posix_calls_ok calls (xs, pos)" "posix_spec calls (xs, pos) = (rs, ys, pos')"
  shows "\<exists>P'. posix_run lc (cluster_server env hash) fd calls P = Some (rs, P') \<and> pr_libc P' = pr_libc P \<and>
    attached (ss_client (pr_streams P')) fd 0 1 n node (int (length ys)) pos' \<and>
    cluster_serves n node uri (cl_world (ss_client (pr_streams P'))) ys (int (length ys))"
proof -
  have "cl.implements n node uri (ss_client (pr_streams P)) fd (xs, pos)" using assms(2-4) by (simp add: cl.implements_def)
  from cl.posix_run_ok [OF assms(1) this assms(5), of lc env hash] show ?thesis using assms(6) by (auto simp: cl.implements_def)
qed

definition no_libc :: "unit libc" where
  "no_libc = \<lparr>lc_call = (\<lambda>_ l. ((-1, []), l)), lc_realpath = (\<lambda>path _. path)\<rparr>"

definition demo_process :: "cluster client \<Rightarrow> (cluster, unit) process" where
  "demo_process c = \<lparr>pr_streams = streams_init False malloc_ok None c, pr_libc = ()\<rparr>"

theorem posix_refines_file_witness:
  "\<exists>c P'. posix_run no_libc (cluster_server \<lparr>env_time = 9, env_uid = 0, env_gid = 0\<rparr> (\<lambda>_. 0)) 1000
       [C_writev [[1, 2], [3, 4, 5]], C_pwrite [9] 1, C_pread 3 0, C_readv [1, 4]] (demo_process c) =
     Some ([Number 5, Number 1, Data 3 [1, 9, 3], Data 2 [4, 5]], P')"
proof -
  from demo_serves obtain s where s: "cluster_serves 0 0 ''n1'' (cl_world (demo_client \<lparr>cw_master = demo_empty, cw_node = s\<rparr>)) [] (int (length ([] :: byte list)))"
    "attached (demo_client \<lparr>cw_master = demo_empty, cw_node = s\<rparr>) 1000 0 1 0 0 (int (length ([] :: byte list))) 0" by blast
  let ?P = "demo_process (demo_client \<lparr>cw_master = demo_empty, cw_node = s\<rparr>)" and ?calls = "[C_writev [[1, 2], [3, 4, 5]], C_pwrite [9] 1, C_pread 3 0, C_readv [1, 4]]"
  have c: "ss_client (pr_streams ?P) = demo_client \<lparr>cw_master = demo_empty, cw_node = s\<rparr>" by (simp add: demo_process_def streams_init_def)
  have fd: "interpret_fd 1000" by (simp add: interpret_fd_def)
  have ok: "posix_calls_ok ?calls ([], 0)" by (simp add: BLOCK_SIZE_def block_count_def put_def Let_def)
  have run: "posix_spec ?calls ([], 0) = ([Number 5, Number 1, Data 3 [1, 9, 3], Data 2 [4, 5]], [1, 9, 3, 4, 5], 5)" by (simp add: put_def Let_def)
  from posix_refines_file [OF fd _ order_refl _ ok run, of ?P 0 0 "''n1''", unfolded c, OF s(2,1)] show ?thesis by blast
qed

text \<open>C12: the FUSE daemon for several threads on a file of bytes. On a handle whose file a master and an IOnode serve,
  every sequence of the following calls, at the offsets the kernel names, returns what the byte
  list returns, and the servers have the resulting bytes: non-empty writes that start inside the
  file or at its end, and reads of at least one byte that lie wholly inside the file and stay in
  one block or start at the start of a block; each transfer is below 2 GiB and has at most 240
  blocks of 1 MiB. Reads past the end of the file, and reads that cross a block border from
  inside a block, are outside the statement.\<close>

theorem fuse_refines_file:
  assumes "attached_meta (ss_client S) p 0 1 n node (int (length xs))" "\<not> cl_using_cache (ss_client S)"
    and "cluster_serves n node uri (cl_world (ss_client S)) xs (int (length xs))" "fuse_calls_ok calls xs" "fuse_spec calls xs = (rs, ys)"
  shows "\<exists>S'. fuse_run (cluster_server env hash) p calls S = Some (rs, S') \<and> attached_meta (ss_client S') p 0 1 n node (int (length ys)) \<and>
    cluster_serves n node uri (cl_world (ss_client S')) ys (int (length ys))"
proof -
  have "cl.handle_holds n node uri (ss_client S) p xs" using assms(1-3) by (simp add: cl.handle_holds_def)
  from cl.fuse_run_ok [OF this assms(4), of env hash] show ?thesis using assms(5) by (auto simp: cl.handle_holds_def)
qed

theorem fuse_refines_file_witness:
  "\<exists>S p S'. fuse_run (cluster_server \<lparr>env_time = 9, env_uid = 0, env_gid = 0\<rparr> (\<lambda>_. 0)) p [Fuse_write [1, 2, 3] 0, Fuse_write [8, 9] 2, Fuse_read 2 1] S =
     Some ([Number 3, Number 2, Data 2 [2, 8]], S')"
proof -
  from demo_serves obtain s where s: "cluster_serves 0 0 ''n1'' (cl_world (demo_client \<lparr>cw_master = demo_empty, cw_node = s\<rparr>)) [] (int (length ([] :: byte list)))"
    "attached (demo_client \<lparr>cw_master = demo_empty, cw_node = s\<rparr>) 1000 0 1 0 0 (int (length ([] :: byte list))) 0" by blast
  let ?S = "streams_init False malloc_ok None (demo_client \<lparr>cw_master = demo_empty, cw_node = s\<rparr>)" and ?calls = "[Fuse_write [1, 2, 3] 0, Fuse_write [8, 9] 2, Fuse_read 2 1]"
  have c: "ss_client ?S = demo_client \<lparr>cw_master = demo_empty, cw_node = s\<rparr>" by (simp add: streams_init_def)
  from s(2) obtain p where p: "attached_meta (ss_client ?S) p 0 1 0 0 (int (length ([] :: byte list)))" "\<not> cl_using_cache (ss_client ?S)"
    unfolding c by (auto simp: attached_def)
  have ok: "fuse_calls_ok ?calls []" by (simp add: BLOCK_SIZE_def block_count_def put_def)
  have run: "fuse_spec ?calls [] = ([Number 3, Number 2, Data 2 [2, 8]], [1, 2, 8, 9])" by (simp add: put_def Let_def)
  from fuse_refines_file [OF p _ ok run, of "''n1''", unfolded c, OF s(1)] show ?thesis by blast
qed

end
