(* ===== verification/Spec2Isabelle.thy ===== *)
theory Spec2Isabelle
  imports Server_Comm IOnode_Errors Client_Invariant Stream_Cluster Interface_Cluster
begin

text \<open>
  HuronFS, a distributed burst buffer file system (src/src). Masters keep the names, attributes and
  block lists of files, IOnodes keep the blocks in memory and write them back to the storage below,
  clients are linked into applications and talk to both. Components exchange messages (\<^emph>\<open>IO tasks\<close>)
  through lock-free task queues and TCP or CCI connections.

  \<^bold>\<open>Parts and theories.\<close>

  \<^item> \<open>HFS_Prelude\<close>, \<open>HFS_Const\<close>, \<open>Std_Map\<close>: machine integers (\<open>u64\<close>, \<open>s64\<close>, \<open>s32\<close> write out the wrap-around),
    rings of pointers, the constants of Common/include/CBB\_const.h, and \<^verbatim>\<open>std::map\<close>, \<^verbatim>\<open>std::set\<close>,
    \<^verbatim>\<open>CBB_map\<close>, \<^verbatim>\<open>CBB_set\<close> as sorted lists.
  \<^item> \<open>Allocator\<close>, \<open>Memory_Pool\<close>: Common/src/CBB\_memory\_pool.cpp. The locale \<open>block_allocator\<close> is what a user of a pool may
    rely on; the pool is an interpretation of it. Exact accounting and no block handed out twice while
    \<^verbatim>\<open>malloc\<close> succeeds, and what a failing \<^verbatim>\<open>malloc\<close> and an empty refill do.
  \<^item> \<open>Task_Queue\<close>: Common/include/CBB\_task\_parallel.h. The queue refines a FIFO (locale \<open>fifo\<close>); every interleaving of one
    producer and one consumer at the granularity of the atomic accesses keeps order and ownership.
  \<^item> \<open>Access_Queue\<close>: CBB\_list.h, CBB\_basic\_swap.h, CBB\_lru.h, the ring of pages in the order of their last access.
    Eviction order (locale \<open>recency_queue\<close>), write back selection, the loops end.
  \<^item> \<open>IO_Task\<close>: CBB\_IO\_task.h and the TCP transport. Byte-level encoding of messages (locale \<open>serializer\<close>), round trips of values,
    strings, attributes, directory listings and whole messages.
  \<^item> \<open>Client_Comm\<close>: Common/src/Client.cpp, the queues of a client, its threads, the sender and the receiver as steps in any order; a
    broken connection is not noticed. \<open>Server_Comm\<close>: Common/src/Server.cpp and the handler thread; the way of a request to the
    server and of the answer to the thread that asked. The master, the IOnode and the client above
    exchange whole messages.
  \<^item> \<open>Id_Pool\<close>, \<open>File_Blocks\<close>: file and node numbers, block arithmetic and block lists of Master.cpp.
  \<^item> \<open>Master_State\<close>, \<open>Master_Failure\<close>, \<open>Master_Requests\<close>: the master (Master/src/Master.cpp): tables and internal
    operations, node failure, one definition per \<^verbatim>\<open>_parse_...\<close> handler and the dispatcher.
    \<open>Master_Invariant\<close>, \<open>Master_Files\<close>, \<open>Master_Properties\<close>, \<open>Master_Naming\<close>, \<open>Master_System\<close>: the invariant of the
    tables, that every request keeps it, what open, write, unlink, rename, readdir do, and the
    states a master reaches.
  \<^item> \<open>IOnode_State\<close>, \<open>IOnode_Handlers\<close>: the IOnode (IOnode/src/IOnode.cpp, IOnode\_basic.cpp): blocks, files,
    storage calls, eviction, the request handlers, replicas, write back and data synchronisation.
    \<open>IOnode_Cache\<close>, \<open>IOnode_Content\<close>, \<open>IOnode_Eviction\<close>, \<open>IOnode_Access\<close>, \<open>IOnode_Write\<close>, \<open>IOnode_Properties\<close>: the
    bytes a file has in the cache and on the storage together (\<open>content\<close>), that eviction and loading
    are transparent, that a write overwrites. \<open>IOnode_Refinement\<close>: the node refines a map from file
    numbers to bytes, for reads inside one block. \<open>IOnode_Errors\<close>: where the code loses or mixes up data: a
    storage that delivers a block in parts, a failed write back, a read over two blocks with memory for one.
  \<^item> \<open>Client_State\<close>, \<open>Client_IO\<close>, \<open>Client_Files\<close>: the client (Client/src/CBB\_client.cpp, CBB\_basic.cpp): descriptors,
    reading and writing, names, the public operations that repeat what a broken connection
    interrupted. The servers are the parameter \<open>srv\<close> over a world. \<open>Client_Invariant\<close>: descriptors,
    files and paths agree in every reachable state, for every server. \<open>Client_Data\<close>: the locale
    \<open>file_service\<close>, what the client relies on of master and IOnode, and that reads and writes act on a
    list of bytes under it.
  \<^item> \<open>Cluster\<close>: messages of the master decode at the IOnode to the request meant. \<open>Client_Cluster\<close>: the interpretation
    of \<open>file_service\<close> on the models of the master and the IOnode; reads and writes of a client through
    both refine a file of bytes.
  \<^item> \<open>Client_Stream\<close>: the buffered streams (Client/src/CBB\_stream.cpp), with their buffers from the memory pool. Built without
    \<^verbatim>\<open>SINGLE_THREAD\<close> the pool dereferences null, so the theorems on buffered streams are about that build. \<open>Stream_Data\<close>: the locale \<open>client_file\<close>, what a stream
    relies on of a descriptor, and that writing and reading streams act on a list of bytes under it.
    \<open>Stream_Cluster\<close>: a descriptor that \<open>file_service\<close> serves keeps that contract; the interpretation on
    client, master and IOnode together, and a run in which a read behind a write returns wrong bytes.
  \<^item> \<open>Client_Interface\<close>: the replacements of POSIX and stdio calls (Client/src/CBB\_posix.cpp, CBB\_stdio.cpp), with the C library as the
    parameter \<open>libc\<close>. \<open>Client_Fuse\<close>: the callbacks of the FUSE daemon (CBB\_fuse.cpp) in its two builds.
    \<open>Interface_Cluster\<close>: POSIX calls, and the daemon for several threads, on client, master and IOnode
    together refine a file of bytes.

  \<^bold>\<open>How code corresponds to definitions.\<close> A class is a record with the source's fields; a pointer is an
  address into a heap component of the record, an iterator its key. A function returns an option:
  None is undefined behaviour (a null or dangling pointer, an \<^verbatim>\<open>end()\<close> iterator, a read outside of a
  buffer), a loop that does not end, or an exception that ends the process. Exceptions that are caught are values of a
  sum type or of \<open>outcome\<close>. Messages sent are appended to a list in the state. The operating system, the
  storage and the network are arguments (\<open>os_env\<close>, \<open>storage_env\<close>, \<open>server\<close>).

  \<^bold>\<open>Loops and bounds.\<close> Loops over data are structural recursion, counting loops have a termination proof, loops that depend
  on answers of the storage or the network are \<^theory_text>\<open>partial_function (option)\<close>; that they return is proved
  where it holds (\<open>ionode_refines_files\<close>, \<open>client_refines_file\<close>, \<open>stream_writes_file\<close>, \<open>stream_reads_file\<close>,
  \<open>posix_refines_file\<close>, \<open>fuse_refines_file\<close>). Walks along a ring take the number of its nodes as fuel.
  Offsets are taken below \<open>2 ^ 62\<close> where a theorem needs that a sum does not wrap around.

  \<^bold>\<open>Messages.\<close> A message holds 3976 bytes of values behind its header and a directory listing 5,000,000 bytes; the code checks
  neither. An overrun is None: in \<open>do_push\<close> itself, and for the messages of the master with lists of
  blocks, nodes or names by \<open>msg_fits\<close> and \<open>names_fit\<close>. Theorems on the master state both sides
  of the bound; those on the client bound a transfer by 240 blocks of 1 MiB and the address of a
  node by 99 characters, with which the reply of the master always fits.

  \<^bold>\<open>Restrictions of requests.\<close> Where the code does not do what its interface promises, the theorem that it does excludes the
  requests concerned by a predicate named in the claim (\<open>admissible\<close>, \<open>op_ok\<close>, \<open>posix_calls_ok\<close>,
  \<open>fuse_call_ok\<close>, \<open>request_ok\<close>, \<open>call_ok\<close>), and the text before the claim lists them.

  \<^bold>\<open>Not modelled.\<close> Threads and locks other than those of the task queue and of the client's queries (handlers run one at a time, threads are not started or ended), the CCI back end
  (calls of a library), sockets, heart beat, profiling and logging, the unused serialisation and the \<^verbatim>\<open>main\<close> functions of the
  servers (constructors and calls of the operating system). \<^verbatim>\<open>dlsym\<close>, \<^verbatim>\<open>realpath\<close> and the C library are parameters.
\<close>

end
